(* ===== verification/BM_Prelude.thy ===== *)
theory BM_Prelude
  imports Main "HOL-Library.Word" "HOL-Library.AList"
begin

text \<open>
  The vocabulary the components share: machine integers, C strings, the few functions of the
  C library and of GLib that the sources call on strings, and the generic list lemmas behind
  the component proofs.  A string that may be \<^verbatim>\<open>NULL\<close> is a \<^typ>\<open>string option\<close>; a string is the
  sequence of its bytes before the terminating NUL.
\<close>

unbundle bit_operations_syntax

named_theorems bm_simps \<open>characteristic equations of the model's operations\<close>
named_theorems bm_inv \<open>preservation of the components' invariants\<close>

type_synonym u8 = "8 word"
type_synonym u32 = "32 word"
type_synonym u64 = "64 word"
type_synonym cstr = "string option"

text \<open>The result of code that may abort at an assertion or follow a \<^verbatim>\<open>NULL\<close> pointer.\<close>

datatype 'a checked = Returned 'a | Assertion_Violated | Null_Dereferenced

section \<open>Characters and strings of the C library\<close>

definition char_code :: "char \<Rightarrow> nat" where
  "char_code c = of_char c"

text \<open>Bit 5 tells the two cases of an ASCII letter apart.\<close>

definition ascii_tolower :: "char \<Rightarrow> char" where
  "ascii_tolower c = (if 65 \<le> char_code c \<and> char_code c \<le> 90
     then (case c of Char b0 b1 b2 b3 b4 b5 b6 b7 \<Rightarrow> Char b0 b1 b2 b3 b4 True b6 b7) else c)"

definition ascii_toupper :: "char \<Rightarrow> char" where
  "ascii_toupper c = (if 97 \<le> char_code c \<and> char_code c \<le> 122
     then (case c of Char b0 b1 b2 b3 b4 b5 b6 b7 \<Rightarrow> Char b0 b1 b2 b3 b4 False b6 b7) else c)"

definition isxdigit :: "char \<Rightarrow> bool" where
  "isxdigit c = ((48 \<le> char_code c \<and> char_code c \<le> 57) \<or>
                 (65 \<le> char_code c \<and> char_code c \<le> 70) \<or>
                 (97 \<le> char_code c \<and> char_code c \<le> 102))"

text \<open>\<^verbatim>\<open>strcmp\<close>: only the sign of C's result is specified, so the model returns the sign.\<close>

fun strcmp :: "string \<Rightarrow> string \<Rightarrow> int" where
  "strcmp [] [] = 0"
| "strcmp [] (_ # _) = -1"
| "strcmp (_ # _) [] = 1"
| "strcmp (a # as) (b # bs) =
     (if char_code a < char_code b then -1
      else if char_code b < char_code a then 1
      else strcmp as bs)"

text \<open>\<^verbatim>\<open>strcasecmp (a, b) == 0\<close> in the C locale.\<close>

definition strcaseeq :: "string \<Rightarrow> string \<Rightarrow> bool" where
  "strcaseeq a b = (map ascii_tolower a = map ascii_tolower b)"

text \<open>\<^verbatim>\<open>g_strsplit_set (s, seps, 0)\<close>: the empty string has no tokens, adjacent separators give
  empty tokens.\<close>

fun split_tokens :: "char list \<Rightarrow> string \<Rightarrow> string list" where
  "split_tokens seps [] = [[]]"
| "split_tokens seps (c # cs) =
     (if c \<in> set seps then [] # split_tokens seps cs
      else (case split_tokens seps cs of [] \<Rightarrow> [[c]] | t # ts \<Rightarrow> (c # t) # ts))"

definition strsplit_set :: "char list \<Rightarrow> string \<Rightarrow> string list" where
  "strsplit_set seps s = (if s = [] then [] else split_tokens seps s)"

definition ascii_isspace :: "char \<Rightarrow> bool" where
  "ascii_isspace c = (char_code c = 32 \<or> (9 \<le> char_code c \<and> char_code c \<le> 13 \<and> char_code c \<noteq> 11))"

definition strstrip :: "string \<Rightarrow> string" where
  "strstrip s = rev (dropWhile ascii_isspace (rev (dropWhile ascii_isspace s)))"

text \<open>\<^verbatim>\<open>g_ascii_strtoull (s, NULL, 10)\<close>: white space (here also the vertical tab), a sign, digits; what
  does not fit is the largest value, and a minus negates.\<close>

definition strtoull_space :: "char \<Rightarrow> bool" where
  "strtoull_space c = (ascii_isspace c \<or> char_code c = 11)"

definition isdigit :: "char \<Rightarrow> bool" where
  "isdigit c = (48 \<le> char_code c \<and> char_code c \<le> 57)"

definition strtoull :: "string \<Rightarrow> u64" where
  "strtoull s =
     (let t = dropWhile strtoull_space s;
          negative = (t \<noteq> [] \<and> hd t = CHR ''-'');
          digits = takeWhile isdigit (if t \<noteq> [] \<and> (hd t = CHR ''-'' \<or> hd t = CHR ''+'') then tl t else t);
          n = foldl (\<lambda>a c. 10 * a + (char_code c - 48)) 0 digits
      in if n \<ge> 2 ^ 64 then - 1 else if negative then - of_nat n else of_nat n)"

text \<open>The tokens of a list, separated by one separator string.\<close>

fun join_with :: "string \<Rightarrow> string list \<Rightarrow> string" where
  "join_with sep [] = []"
| "join_with sep [x] = x"
| "join_with sep (x # y # ys) = x @ sep @ join_with sep (y # ys)"

text \<open>\<^verbatim>\<open>%d\<close> and \<^verbatim>\<open>%u\<close>.\<close>

fun print_nat :: "nat \<Rightarrow> string" where
  "print_nat n =
     (if n < 10 then [char_of (48 + n)] else print_nat (n div 10) @ [char_of (48 + n mod 10)])"

declare print_nat.simps [simp del]

definition print_int :: "int \<Rightarrow> string" where
  "print_int i = (if i < 0 then CHR ''-'' # print_nat (nat (- i)) else print_nat (nat i))"

definition read_nat :: "string \<Rightarrow> nat" where
  "read_nat s = foldl (\<lambda>a c. 10 * a + (of_char c - 48)) 0 s"

section \<open>Lemmas on strings\<close>

lemma of_char_digit: "d < 10 \<Longrightarrow> of_char (char_of (48 + d) :: char) = (48 + d :: nat)"
  by (simp add: of_char_of)

lemma read_print_nat [simp]: "read_nat (print_nat n) = n"
proof (induction n rule: print_nat.induct)
  case (1 n)
  show ?case
  proof (cases "n < 10")
    case True
    then show ?thesis
      by (simp add: print_nat.simps [of n] read_nat_def of_char_digit)
  next
    case False
    then have "read_nat (print_nat (n div 10)) = n div 10"
      using 1 by simp
    moreover have "read_nat (xs @ [c]) = 10 * read_nat xs + (of_char c - 48)" for xs c
      by (simp add: read_nat_def)
    ultimately show ?thesis
      using False by (simp add: print_nat.simps [of n] of_char_digit)
  qed
qed

lemma print_nat_inj [simp]: "print_nat m = print_nat n \<longleftrightarrow> m = n"
  by (metis read_print_nat)

lemma print_nat_first: "\<exists>d < 10. \<exists>cs. print_nat n = char_of (48 + d :: nat) # cs"
proof (induction n rule: print_nat.induct)
  case (1 n)
  show ?case
  proof (cases "n < 10")
    case True
    then show ?thesis
      by (auto simp: print_nat.simps [of n])
  next
    case False
    then show ?thesis
      using 1 by (auto simp: print_nat.simps [of n])
  qed
qed

lemma print_nat_no_sign: "print_nat n \<noteq> CHR ''-'' # cs"
proof -
  obtain d :: nat and cs' where d: "d < 10" "print_nat n = char_of (48 + d) # cs'"
    using print_nat_first by blast
  have "of_char (char_of (48 + d) :: char) \<noteq> (of_char CHR ''-'' :: nat)"
    using d(1) by (simp add: of_char_digit)
  then have "char_of (48 + d) \<noteq> CHR ''-''"
    by metis
  then show ?thesis
    using d(2) by simp
qed

lemma print_int_inj [simp]: "print_int i = print_int j \<longleftrightarrow> i = j"
  using print_nat_no_sign [of "nat i" "print_nat (nat (- j))"] print_nat_no_sign [of "nat j" "print_nat (nat (- i))"]
  by (auto simp: print_int_def)

lemma char_code_inj [simp]: "char_code a = char_code b \<longleftrightarrow> a = b"
  by (simp add: char_code_def)

lemma strcmp_refl [simp]: "strcmp s s = 0"
  by (induction s) auto

lemma strcmp_eq_0 [simp]: "strcmp a b = 0 \<longleftrightarrow> a = b"
proof (induction a b rule: strcmp.induct)
  case (4 a as b bs)
  then show ?case
    by (cases "char_code a" "char_code b" rule: linorder_cases) auto
qed auto

lemma strcmp_range: "strcmp a b \<in> {-1, 0, 1}"
  by (induction a b rule: strcmp.induct) auto

lemma strcmp_opposite: "strcmp a b + strcmp b a = 0"
  by (induction a b rule: strcmp.induct) auto

lemma strcmp_antisym: "strcmp b a = - strcmp a b"
  using strcmp_opposite [of a b] by linarith

lemma strcmp_lt_Cons:
  "strcmp (a # as) (b # bs) = -1 \<longleftrightarrow>
     char_code a < char_code b \<or> a = b \<and> strcmp as bs = -1"
  using char_code_inj [of a b] by (cases "char_code a" "char_code b" rule: linorder_cases) auto

lemma strcmp_trans_lt: "strcmp a b = -1 \<Longrightarrow> strcmp b c = -1 \<Longrightarrow> strcmp a c = -1"
proof (induction a arbitrary: b c)
  case Nil
  then show ?case by (cases b; cases c) simp_all
next
  case (Cons x xs)
  then obtain y ys z zs where b: "b = y # ys" and c: "c = z # zs"
    by (cases b; cases c) simp_all
  from Cons.prems show ?case
    unfolding b c strcmp_lt_Cons using Cons.IH [of ys zs] by (meson less_trans)
qed

lemma strcaseeq_refl [simp]: "strcaseeq s s"
  by (simp add: strcaseeq_def)

lemma strcaseeq_sym: "strcaseeq a b \<longleftrightarrow> strcaseeq b a"
  by (auto simp: strcaseeq_def)

lemma split_tokens_nonempty [simp]: "split_tokens seps s \<noteq> []"
  by (induction s) (auto split: list.splits)

lemma split_tokens_plain:
  "set s \<inter> set seps = {} \<Longrightarrow> split_tokens seps s = [s]"
  by (induction s) auto

lemma split_tokens_append:
  "set x \<inter> set seps = {} \<Longrightarrow> c \<in> set seps \<Longrightarrow>
     split_tokens seps (x @ c # s) = x # split_tokens seps s"
  by (induction x) auto

lemma split_tokens_join:
  "xs \<noteq> [] \<Longrightarrow> (\<And>x. x \<in> set xs \<Longrightarrow> set x \<inter> set seps = {}) \<Longrightarrow> c \<in> set seps \<Longrightarrow>
     split_tokens seps (join_with [c] xs) = xs"
proof (induction "[c]" xs rule: join_with.induct)
  case (3 x y ys)
  then show ?case by (simp add: split_tokens_append)
qed (auto simp: split_tokens_plain)

lemma join_with_eq_Nil:
  "(\<And>x. x \<in> set xs \<Longrightarrow> x \<noteq> []) \<Longrightarrow> join_with sep xs = [] \<longleftrightarrow> xs = []"
  by (induction sep xs rule: join_with.induct) auto

lemma strsplit_set_join:
  assumes "\<And>x. x \<in> set xs \<Longrightarrow> x \<noteq> [] \<and> set x \<inter> set seps = {}" and "c \<in> set seps"
  shows "strsplit_set seps (join_with [c] xs) = xs"
proof (cases "xs = []")
  case False
  moreover have "join_with [c] xs \<noteq> []"
    using assms(1) False by (subst join_with_eq_Nil) auto
  ultimately show ?thesis
    using assms by (simp add: strsplit_set_def split_tokens_join)
qed (simp add: strsplit_set_def)

section \<open>Lemmas on lists, folds and words\<close>

lemma foldl_invariant:
  "P s \<Longrightarrow> (\<And>s x. x \<in> set xs \<Longrightarrow> P s \<Longrightarrow> P (f s x)) \<Longrightarrow> P (foldl f s xs)"
  by (induction xs arbitrary: s) auto

lemma remove1_distinct: "distinct xs \<Longrightarrow> remove1 x xs = filter (\<lambda>y. y \<noteq> x) xs"
  by (induction xs) (auto intro!: filter_True [symmetric])

lemma map_of_map_snd:
  "map_of (map (\<lambda>(k, v). (k, f k v)) xs) k = map_option (f k) (map_of xs k)"
  by (induction xs) auto

lemma bit_foldr_or_bits:
  "bit (foldr (OR) (map (\<lambda>k. 2 ^ k :: 'a::len word) (filter (bit d) ks)) 0) n \<longleftrightarrow>
     n \<in> set ks \<and> bit (d :: 'a word) n"
proof (induction ks)
  case (Cons k ks)
  then show ?case
    by (auto simp: bit_or_iff bit_exp_iff dest: bit_imp_possible_bit)
qed simp

lemma exp_and_neq_0: "(2 ^ k :: 'a::len word) AND d \<noteq> 0 \<longleftrightarrow> bit d k"
proof -
  have "(2 ^ k) AND d \<noteq> 0 \<longleftrightarrow> (\<exists>n. bit ((2 ^ k) AND d) n)"
    by (metis bit_0_eq bit_eqI bot_apply bot_bool_def)
  also have "\<dots> \<longleftrightarrow> bit d k"
    by (auto simp: bit_and_iff bit_exp_iff dest: bit_imp_possible_bit)
  finally show ?thesis .
qed

lemma u64_max [simp]: "(t :: u64) \<le> 0xFFFFFFFFFFFFFFFF"
proof -
  have "(0xFFFFFFFFFFFFFFFF :: u64) = - 1"
    by simp
  then show ?thesis
    by (metis word_order.extremum)
qed

lemma foldl_digits_print:
  "foldl (\<lambda>a c. 10 * a + (char_code c - 48)) 0 (print_nat n) = n"
  using read_print_nat [of n] by (simp add: read_nat_def char_code_def)

lemma print_nat_digits: "list_all isdigit (print_nat n)"
proof (induction n rule: print_nat.induct)
  case (1 n)
  have "isdigit (char_of (48 + d))" if "d < 10" for d :: nat
    using that by (simp add: isdigit_def char_code_def of_char_digit)
  then show ?case
    using 1 by (cases "n < 10") (simp_all add: print_nat.simps [of n])
qed

text \<open>A printed number has no white space or sign in front and no end before its last digit.\<close>

lemma print_nat_plain:
  "dropWhile strtoull_space (print_nat n) = print_nat n" "hd (print_nat n) \<noteq> CHR ''-''" "hd (print_nat n) \<noteq> CHR ''+''"
  "takeWhile isdigit (print_nat n) = print_nat n"
proof -
  have digits: "\<forall>c \<in> set (print_nat n). isdigit c"
    using print_nat_digits [of n] by (simp add: list_all_iff)
  obtain c cs where c: "print_nat n = c # cs"
    using print_nat_first by blast
  have "isdigit c"
    using digits c by simp
  moreover have "isdigit x \<Longrightarrow> \<not> strtoull_space x \<and> x \<noteq> CHR ''-'' \<and> x \<noteq> CHR ''+''" for x
    by (auto simp: isdigit_def strtoull_space_def ascii_isspace_def char_code_def)
  ultimately show "dropWhile strtoull_space (print_nat n) = print_nat n" "hd (print_nat n) \<noteq> CHR ''-''" "hd (print_nat n) \<noteq> CHR ''+''"
    unfolding c by simp_all
  show "takeWhile isdigit (print_nat n) = print_nat n"
    using digits takeWhile_eq_all_conv by blast
qed

text \<open>What \<^verbatim>\<open>%llu\<close> prints, \<^verbatim>\<open>strtoull\<close> reads.\<close>

lemma strtoull_print: "strtoull (print_nat (unat w)) = (w :: u64)"
proof -
  have "unat w < 2 ^ 64"
    using unsigned_less [of w, where ?'a = nat] by simp
  then show ?thesis
    by (simp add: strtoull_def Let_def foldl_digits_print print_nat_plain)
qed

end
