(* ===== verification/Logging.thy ===== *)
theory Logging
  imports BM_Prelude
begin

text \<open>
  The daemon's log filter, \<^verbatim>\<open>src/barcode-manager/src/logging/bm-logging.c\<close>: the two masks that
  \<^verbatim>\<open>bm_logging_setup\<close> writes from their textual form, their way back to text, and the decision
  \<^verbatim>\<open>_bm_log\<close> takes for one message.  The two static variables are the record \<open>logging\<close>;
  \<^verbatim>\<open>syslog\<close> is the value a message is rendered to, without its text.
\<close>

section \<open>Masks and their names\<close>

definition LOGL_ERR :: u32 where "LOGL_ERR = 0x1"
definition LOGL_WARN :: u32 where "LOGL_WARN = 0x2"
definition LOGL_INFO :: u32 where "LOGL_INFO = 0x4"
definition LOGL_DEBUG :: u32 where "LOGL_DEBUG = 0x8"

record log_desc =
  desc_num :: u32
  desc_name :: string

definition level_descs :: "log_desc list" where
  "level_descs =
    [\<lparr>desc_num = LOGL_ERR, desc_name = ''ERR''\<rparr>,
     \<lparr>desc_num = LOGL_WARN OR LOGL_ERR, desc_name = ''WARN''\<rparr>,
     \<lparr>desc_num = LOGL_INFO OR LOGL_WARN OR LOGL_ERR, desc_name = ''INFO''\<rparr>,
     \<lparr>desc_num = LOGL_DEBUG OR LOGL_INFO OR LOGL_WARN OR LOGL_ERR, desc_name = ''DEBUG''\<rparr>]"

definition domain_descs :: "log_desc list" where
  "domain_descs =
    [\<lparr>desc_num = 0x00000000, desc_name = ''NONE''\<rparr>,
     \<lparr>desc_num = 0x00000001, desc_name = ''HW''\<rparr>,
     \<lparr>desc_num = 0x00000002, desc_name = ''RFKILL''\<rparr>,
     \<lparr>desc_num = 0x00000004, desc_name = ''ETHER''\<rparr>,
     \<lparr>desc_num = 0x00000008, desc_name = ''WIFI''\<rparr>,
     \<lparr>desc_num = 0x00000010, desc_name = ''BT''\<rparr>,
     \<lparr>desc_num = 0x00000020, desc_name = ''MB''\<rparr>,
     \<lparr>desc_num = 0x00000040, desc_name = ''DHCP4''\<rparr>,
     \<lparr>desc_num = 0x00000080, desc_name = ''DHCP6''\<rparr>,
     \<lparr>desc_num = 0x00000100, desc_name = ''PPP''\<rparr>,
     \<lparr>desc_num = 0x00000200, desc_name = ''WIFI_SCAN''\<rparr>,
     \<lparr>desc_num = 0x00000400, desc_name = ''IP4''\<rparr>,
     \<lparr>desc_num = 0x00000800, desc_name = ''IP6''\<rparr>,
     \<lparr>desc_num = 0x00001000, desc_name = ''AUTOIP4''\<rparr>,
     \<lparr>desc_num = 0x00002000, desc_name = ''DNS''\<rparr>,
     \<lparr>desc_num = 0x00004000, desc_name = ''VPN''\<rparr>,
     \<lparr>desc_num = 0x00008000, desc_name = ''SHARING''\<rparr>,
     \<lparr>desc_num = 0x00010000, desc_name = ''SUPPLICANT''\<rparr>,
     \<lparr>desc_num = 0x00020000, desc_name = ''USER_SET''\<rparr>,
     \<lparr>desc_num = 0x00040000, desc_name = ''SYS_SET''\<rparr>,
     \<lparr>desc_num = 0x00080000, desc_name = ''SUSPEND''\<rparr>,
     \<lparr>desc_num = 0x00100000, desc_name = ''CORE''\<rparr>,
     \<lparr>desc_num = 0x00200000, desc_name = ''DEVICE''\<rparr>,
     \<lparr>desc_num = 0x00400000, desc_name = ''OLPC''\<rparr>]"

record logging =
  log_level :: u32
  log_domains :: u32

text \<open>The initial masks: levels up to INFO, and every domain but \<^verbatim>\<open>LOGD_WIFI_SCAN\<close>.\<close>

definition logging_init :: logging where
  "logging_init = \<lparr>log_level = LOGL_INFO OR LOGL_WARN OR LOGL_ERR,
     log_domains = 0x1 OR 0x2 OR 0x4 OR 0x8 OR 0x10 OR 0x20 OR
       0x40 OR 0x80 OR 0x100 OR 0x400 OR 0x800 OR 0x1000 OR
       0x2000 OR 0x4000 OR 0x8000 OR 0x10000 OR 0x20000 OR
       0x40000 OR 0x80000 OR 0x100000 OR 0x200000 OR 0x400000\<rparr>"

section \<open>Setting the masks\<close>

datatype logging_error =
    BM_LOGGING_ERROR_UNKNOWN_LEVEL string
  | BM_LOGGING_ERROR_UNKNOWN_DOMAIN string

text \<open>The inner search loop over a description table, by \<^verbatim>\<open>strcasecmp\<close>.\<close>

definition find_desc :: "log_desc list \<Rightarrow> string \<Rightarrow> log_desc option" where
  "find_desc descs s = find (\<lambda>d. strcaseeq (desc_name d) s) descs"

text \<open>The loop over the tokens of the domain list, with \<^verbatim>\<open>new_domains\<close> as its accumulator.\<close>

fun setup_domains :: "string list \<Rightarrow> u32 \<Rightarrow> logging_error + u32" where
  "setup_domains [] new_domains = Inr new_domains"
| "setup_domains (t # ts) new_domains =
     (if t = [] then setup_domains ts new_domains
      else (case find_desc domain_descs t of
              None \<Rightarrow> Inl (BM_LOGGING_ERROR_UNKNOWN_DOMAIN t)
            | Some d \<Rightarrow> setup_domains ts (new_domains OR desc_num d)))"

definition given :: "cstr \<Rightarrow> bool" where
  "given s = (case s of None \<Rightarrow> False | Some x \<Rightarrow> x \<noteq> [])"

definition bm_logging_setup :: "cstr \<Rightarrow> cstr \<Rightarrow> logging \<Rightarrow> (logging_error + unit) \<times> logging" where
  "bm_logging_setup level domains st =
     (case (if given level
            then (case find_desc level_descs (the level) of
                    None \<Rightarrow> Inl (BM_LOGGING_ERROR_UNKNOWN_LEVEL (the level))
                  | Some d \<Rightarrow> Inr (st\<lparr>log_level := desc_num d\<rparr>))
            else Inr st) of
        Inl e \<Rightarrow> (Inl e, st)
      | Inr st' \<Rightarrow>
          (if given domains
           then (case setup_domains (strsplit_set '', '' (the domains)) 0 of
                   Inl e \<Rightarrow> (Inl e, st')
                 | Inr d \<Rightarrow> (Inr (), st'\<lparr>log_domains := d\<rparr>))
           else (Inr (), st')))"

section \<open>Reading the masks\<close>

definition bm_logging_level_to_string :: "logging \<Rightarrow> string" where
  "bm_logging_level_to_string st =
     (case find (\<lambda>d. desc_num d = log_level st) level_descs of
        Some d \<Rightarrow> desc_name d | None \<Rightarrow> '''')"

definition append_domain :: "logging \<Rightarrow> string \<Rightarrow> log_desc \<Rightarrow> string" where
  "append_domain st str d =
     (if desc_num d AND log_domains st \<noteq> 0
      then (if str \<noteq> [] then str @ '','' else str) @ desc_name d
      else str)"

definition bm_logging_domains_to_string :: "logging \<Rightarrow> string" where
  "bm_logging_domains_to_string st = foldl (append_domain st) [] domain_descs"

definition bm_logging_level_enabled :: "u32 \<Rightarrow> logging \<Rightarrow> bool" where
  "bm_logging_level_enabled level st = (log_level st AND level \<noteq> 0)"

section \<open>Logging a message\<close>

datatype syslog_priority = LOG_CRIT | LOG_ERR | LOG_WARNING | LOG_NOTICE | LOG_INFO | LOG_DEBUG

datatype rendered = Rendered syslog_priority string bool
  \<comment> \<open>the priority, the tag, and whether time and location are printed\<close>

definition bm_log :: "u32 \<Rightarrow> u32 \<Rightarrow> logging \<Rightarrow> rendered option" where
  "bm_log domain level st =
     (if log_level st AND level = 0 \<or> log_domains st AND domain = 0 then None
      else if log_level st AND LOGL_DEBUG \<noteq> 0 \<and> level = LOGL_DEBUG
        then Some (Rendered LOG_INFO ''<debug>'' True)
      else if log_level st AND LOGL_INFO \<noteq> 0 \<and> level = LOGL_INFO
        then Some (Rendered LOG_INFO ''<info>'' False)
      else if log_level st AND LOGL_WARN \<noteq> 0 \<and> level = LOGL_WARN
        then Some (Rendered LOG_WARNING ''<warn>'' False)
      else if log_level st AND LOGL_ERR \<noteq> 0 \<and> level = LOGL_ERR
        then Some (Rendered LOG_ERR ''<error>'' True)
      else None)"

datatype g_log_level =
    G_LOG_LEVEL_ERROR | G_LOG_LEVEL_CRITICAL | G_LOG_LEVEL_WARNING
  | G_LOG_LEVEL_MESSAGE | G_LOG_LEVEL_INFO | G_LOG_LEVEL_DEBUG | G_LOG_LEVEL_other

fun bm_log_handler :: "g_log_level \<Rightarrow> syslog_priority" where
  "bm_log_handler G_LOG_LEVEL_ERROR = LOG_CRIT"
| "bm_log_handler G_LOG_LEVEL_CRITICAL = LOG_ERR"
| "bm_log_handler G_LOG_LEVEL_WARNING = LOG_WARNING"
| "bm_log_handler G_LOG_LEVEL_MESSAGE = LOG_NOTICE"
| "bm_log_handler G_LOG_LEVEL_DEBUG = LOG_DEBUG"
| "bm_log_handler G_LOG_LEVEL_INFO = LOG_INFO"
| "bm_log_handler G_LOG_LEVEL_other = LOG_INFO"

lemmas LOGL_defs = LOGL_ERR_def LOGL_WARN_def LOGL_INFO_def LOGL_DEBUG_def

section \<open>Printing the domains\<close>

definition selected_domains :: "u32 \<Rightarrow> log_desc list" where
  "selected_domains d = filter (\<lambda>x. desc_num x AND d \<noteq> 0) domain_descs"

lemma domain_names_plain:
  "d \<in> set domain_descs \<Longrightarrow> desc_name d \<noteq> [] \<and> set (desc_name d) \<inter> set '', '' = {}"
proof -
  have "list_all (\<lambda>d. desc_name d \<noteq> [] \<and> set (desc_name d) \<inter> set '', '' = {}) domain_descs"
    by (simp add: domain_descs_def)
  then show "d \<in> set domain_descs \<Longrightarrow> ?thesis"
    by (simp add: list_all_iff)
qed

lemma domain_nums: "map desc_num domain_descs = 0 # map (\<lambda>k. 2 ^ k) [0..<23]"
  by (simp add: domain_descs_def upt_rec)

lemma join_with_glue: "join_with sep ((a @ sep @ n) # xs) = a @ sep @ join_with sep (n # xs)"
  by (cases xs) simp_all

lemma foldl_append_domain:
  assumes "\<And>d. d \<in> set ds \<Longrightarrow> desc_name d \<noteq> []"
  shows "foldl (append_domain st) acc ds =
    join_with '','' ((if acc = [] then [] else [acc]) @
      map desc_name (filter (\<lambda>x. desc_num x AND log_domains st \<noteq> 0) ds))"
  using assms
proof (induction ds arbitrary: acc)
  case (Cons d ds)
  then have ne: "desc_name d \<noteq> []" and
    IH: "foldl (append_domain st) a ds =
      join_with '','' ((if a = [] then [] else [a]) @
        map desc_name (filter (\<lambda>x. desc_num x AND log_domains st \<noteq> 0) ds))" for a
    by auto
  have step: "append_domain st acc d =
      (if desc_num d AND log_domains st \<noteq> 0
       then (if acc \<noteq> [] then acc @ '','' else acc) @ desc_name d else acc)"
    by (simp add: append_domain_def)
  show ?case
    using ne join_with_glue [of "'',''" acc "desc_name d"] by (simp add: IH step)
qed simp

lemma domains_to_string_join:
  "bm_logging_domains_to_string st = join_with '','' (map desc_name (selected_domains (log_domains st)))"
  using foldl_append_domain [of domain_descs st "[]"] domain_names_plain
  by (simp add: bm_logging_domains_to_string_def selected_domains_def)

lemma split_domains_to_string:
  "strsplit_set '', '' (bm_logging_domains_to_string st) =
     map desc_name (selected_domains (log_domains st))"
  unfolding domains_to_string_join
  by (rule strsplit_set_join) (use domain_names_plain in \<open>auto simp: selected_domains_def\<close>)

section \<open>Parsing the domains\<close>

lemma lowered_names_distinct: "distinct (map (\<lambda>d. map ascii_tolower (desc_name d)) domain_descs)"
proof -
  have "map (\<lambda>d. map ascii_tolower (desc_name d)) domain_descs =
    [''none'', ''hw'', ''rfkill'', ''ether'', ''wifi'', ''bt'', ''mb'', ''dhcp4'', ''dhcp6'', ''ppp'',
     ''wifi_scan'', ''ip4'', ''ip6'', ''autoip4'', ''dns'', ''vpn'', ''sharing'', ''supplicant'',
     ''user_set'', ''sys_set'', ''suspend'', ''core'', ''device'', ''olpc'']"
    by (simp add: domain_descs_def ascii_tolower_def char_code_def)
  then show ?thesis
    by (simp only:) simp
qed

lemma find_distinct_image:
  "distinct (map f xs) \<Longrightarrow> x \<in> set xs \<Longrightarrow> find (\<lambda>y. f y = f x) xs = Some x"
  by (induction xs) auto

lemma find_desc_self: "d \<in> set domain_descs \<Longrightarrow> find_desc domain_descs (desc_name d) = Some d"
  unfolding find_desc_def strcaseeq_def
  by (rule find_distinct_image [OF lowered_names_distinct])

lemma setup_domains_names:
  "set ds \<subseteq> set domain_descs \<Longrightarrow>
     setup_domains (map desc_name ds) acc = Inr (acc OR foldr (OR) (map desc_num ds) 0)"
  using domain_names_plain
  by (induction ds arbitrary: acc) (auto simp: find_desc_self or.assoc)

definition all_domains :: u32 where
  "all_domains = 0x7FFFFF"

lemma bit_all_domains: "bit all_domains n \<longleftrightarrow> n < 23"
proof -
  have eq: "all_domains = mask 23"
    by (simp add: all_domains_def mask_eq_exp_minus_1)
  show ?thesis
    unfolding eq bit_mask_iff by auto
qed

lemma map_filter_commute: "map f (filter (\<lambda>x. P (f x)) xs) = filter P (map f xs)"
  by (induction xs) auto

lemma selected_nums:
  "map desc_num (selected_domains d) = map (\<lambda>k. 2 ^ k) (filter (bit d) [0..<23])"
proof -
  have "map desc_num (selected_domains d) = filter (\<lambda>x. x AND d \<noteq> 0) (map desc_num domain_descs)"
    by (simp only: selected_domains_def map_filter_commute [of desc_num "\<lambda>x. x AND d \<noteq> 0"])
  also have "\<dots> = filter (\<lambda>x. x AND d \<noteq> 0) (map (\<lambda>k. 2 ^ k) [0..<23])"
    unfolding domain_nums by (simp only: filter.simps and_zero_eq zero_and_eq simp_thms if_False)
  also have "\<dots> = map (\<lambda>k. 2 ^ k) (filter (\<lambda>k. 2 ^ k AND d \<noteq> 0) [0..<23])"
    by (simp only: map_filter_commute [of "\<lambda>k. 2 ^ k" "\<lambda>x. x AND d \<noteq> 0"])
  finally show ?thesis
    by (simp only: exp_and_neq_0)
qed

lemma selected_domains_union:
  "foldr (OR) (map desc_num (selected_domains d)) 0 = d AND all_domains"
  unfolding selected_nums
  by (rule bit_eqI) (auto simp only: bit_foldr_or_bits bit_and_iff bit_all_domains set_upt atLeast0LessThan lessThan_iff)

section \<open>Levels\<close>

definition level_ok :: "logging \<Rightarrow> bool" where
  "level_ok st \<longleftrightarrow> log_level st \<in> desc_num ` set level_descs"

lemma find_desc_level_num: "find_desc level_descs s = Some d \<Longrightarrow> desc_num d \<in> desc_num ` set level_descs"
  by (auto simp: find_desc_def find_Some_iff)

lemma level_ok_init [bm_inv]: "level_ok logging_init"
  by (simp add: level_ok_def logging_init_def level_descs_def LOGL_defs)

lemma level_ok_setup [bm_inv]: "level_ok st \<Longrightarrow> level_ok (snd (bm_logging_setup level domains st))"
  by (auto simp: bm_logging_setup_def level_ok_def dest: find_desc_level_num
      split: option.splits sum.splits)

lemma level_ok_cases:
  assumes "level_ok st"
  obtains "log_level st = 1" | "log_level st = 3" | "log_level st = 7" | "log_level st = 15"
  using assms by (auto simp: level_ok_def level_descs_def LOGL_defs)

section \<open>Properties\<close>

text \<open>C10: What the daemon prints as its log domains sets the same domains again: for every mask
  with a known domain, passing the text of \<^verbatim>\<open>bm_logging_domains_to_string\<close> to \<^verbatim>\<open>bm_logging_setup\<close>
  succeeds and restores exactly the known bits of the mask, leaving the level alone.\<close>

theorem logging_domains_roundtrip:
  assumes "log_domains st AND all_domains \<noteq> 0"
  shows "bm_logging_setup None (Some (bm_logging_domains_to_string st)) st' =
    (Inr (), st'\<lparr>log_domains := log_domains st AND all_domains\<rparr>)"
proof -
  have "selected_domains (log_domains st) \<noteq> []"
    using assms selected_domains_union [of "log_domains st"] by auto
  then have "bm_logging_domains_to_string st \<noteq> []"
    unfolding domains_to_string_join using domain_names_plain
    by (subst join_with_eq_Nil) (auto simp: selected_domains_def)
  moreover have "set (selected_domains (log_domains st)) \<subseteq> set domain_descs"
    by (auto simp: selected_domains_def)
  then have "setup_domains (strsplit_set '', '' (bm_logging_domains_to_string st)) 0 =
      Inr (log_domains st AND all_domains)"
    unfolding split_domains_to_string
    by (simp only: setup_domains_names selected_domains_union or.left_neutral)
  ultimately show ?thesis
    by (simp add: bm_logging_setup_def given_def)
qed

theorem logging_domains_roundtrip_witness:
  "log_domains logging_init AND all_domains \<noteq> 0 \<and>
   bm_logging_setup None (Some (bm_logging_domains_to_string logging_init)) \<lparr>log_level = 1, log_domains = 0\<rparr> =
     (Inr (), \<lparr>log_level = 1, log_domains = 0x7FFDFF\<rparr>)"
proof -
  have h: "log_domains logging_init AND all_domains = 0x7FFDFF"
    by (simp add: logging_init_def all_domains_def)
  then show ?thesis
    using logging_domains_roundtrip [of logging_init "\<lparr>log_level = 1, log_domains = 0\<rparr>"] by simp
qed

text \<open>A failing \<^verbatim>\<open>bm_logging_setup\<close> never touches the domains; it leaves the whole state alone
  when the level is unknown, but when only a domain is unknown the requested level has already
  been written: the call is not atomic.\<close>

theorem logging_setup_failure:
  assumes "bm_logging_setup level domains st = (Inl e, st')"
  shows "log_domains st' = log_domains st \<and>
    (case e of
       BM_LOGGING_ERROR_UNKNOWN_LEVEL l \<Rightarrow>
         level = Some l \<and> find_desc level_descs l = None \<and> st' = st
     | BM_LOGGING_ERROR_UNKNOWN_DOMAIN d \<Rightarrow>
         find_desc domain_descs d = None \<and>
         log_level st' = (if given level then desc_num (the (find_desc level_descs (the level)))
                          else log_level st))"
proof -
  have dom: "setup_domains ts acc = Inl e \<Longrightarrow>
      \<exists>d. e = BM_LOGGING_ERROR_UNKNOWN_DOMAIN d \<and> find_desc domain_descs d = None" for ts acc
    by (induction ts acc rule: setup_domains.induct) (auto split: if_splits option.splits)
  show ?thesis
    using assms
    by (auto simp: bm_logging_setup_def given_def dest!: dom split: if_splits option.splits sum.splits)
qed

theorem logging_setup_failure_witness:
  "bm_logging_setup (Some ''debug'') (Some ''BOGUS'') logging_init =
     (Inl (BM_LOGGING_ERROR_UNKNOWN_DOMAIN ''BOGUS''), logging_init\<lparr>log_level := 15\<rparr>) \<and>
   log_domains (logging_init\<lparr>log_level := 15\<rparr>) = log_domains logging_init"
proof -
  have h: "bm_logging_setup (Some ''debug'') (Some ''BOGUS'') logging_init =
     (Inl (BM_LOGGING_ERROR_UNKNOWN_DOMAIN ''BOGUS''), logging_init\<lparr>log_level := 15\<rparr>)"
    by (simp add: bm_logging_setup_def given_def find_desc_def level_descs_def domain_descs_def
        strcaseeq_def ascii_tolower_def char_code_def strsplit_set_def LOGL_defs)
  from logging_setup_failure [OF h] h show ?thesis by simp
qed

text \<open>Severity is nested: in every state that \<^verbatim>\<open>bm_logging_setup\<close> can produce, a message of one
  of the four levels is written exactly when its domain is enabled and its level is at most the
  configured one, and then it goes out under that level's own tag.\<close>

theorem bm_log_filter:
  assumes "level_ok st" and "level \<in> {LOGL_ERR, LOGL_WARN, LOGL_INFO, LOGL_DEBUG}"
  shows "bm_log domain level st =
    (if log_domains st AND domain \<noteq> 0 \<and> level \<le> log_level st
     then Some (if level = LOGL_ERR then Rendered LOG_ERR ''<error>'' True
                else if level = LOGL_WARN then Rendered LOG_WARNING ''<warn>'' False
                else if level = LOGL_INFO then Rendered LOG_INFO ''<info>'' False
                else Rendered LOG_INFO ''<debug>'' True)
     else None)"
  by (rule level_ok_cases [OF assms(1)]; use assms(2) in \<open>auto simp: bm_log_def LOGL_defs word_le_nat_alt\<close>)

theorem bm_log_filter_witness:
  "level_ok logging_init \<and> bm_log 0x10 LOGL_WARN logging_init = Some (Rendered LOG_WARNING ''<warn>'' False)
   \<and> bm_log 0x10 LOGL_DEBUG logging_init = None"
  using bm_log_filter [OF level_ok_init, of LOGL_WARN "0x10"]
    bm_log_filter [OF level_ok_init, of LOGL_DEBUG "0x10"] level_ok_init
  by (simp add: logging_init_def LOGL_defs)

end
