(* ===== verification/GHash_Table.thy ===== *)
theory GHash_Table
  imports BM_Prelude
begin

text \<open>
  GLib's \<^verbatim>\<open>GHashTable\<close> as the sources use it.  A table is an association list whose keys are
  distinct; the order of the list is the order in which \<^verbatim>\<open>g_hash_table_foreach\<close> and the
  iterators visit the entries.  GLib promises no particular order, so a theorem about a visit
  is stated for every table, that is, for every order of its entries.  Inserting an existing
  key replaces its value in place; a new key goes to the end.  What the components rely on is
  the interface \<open>hash_table\<close> below, which the association lists implement.
\<close>

type_synonym ('k, 'v) ghash = "('k \<times> 'v) list"

definition gh_new :: "('k, 'v) ghash" where
  "gh_new = []"

definition gh_lookup :: "('k, 'v) ghash \<Rightarrow> 'k \<Rightarrow> 'v option" where
  "gh_lookup t k = map_of t k"

definition gh_insert :: "'k \<Rightarrow> 'v \<Rightarrow> ('k, 'v) ghash \<Rightarrow> ('k, 'v) ghash" where
  "gh_insert k v t = AList.update k v t"

definition gh_remove :: "'k \<Rightarrow> ('k, 'v) ghash \<Rightarrow> ('k, 'v) ghash" where
  "gh_remove k t = filter (\<lambda>(k', v). k' \<noteq> k) t"

definition gh_size :: "('k, 'v) ghash \<Rightarrow> nat" where
  "gh_size t = length t"

definition gh_keys :: "('k, 'v) ghash \<Rightarrow> 'k list" where
  "gh_keys t = map fst t"

definition gh_values :: "('k, 'v) ghash \<Rightarrow> 'v list" where
  "gh_values t = map snd t"

text \<open>\<^verbatim>\<open>g_hash_table_foreach\<close> with a callback that updates its user data.\<close>

definition gh_foreach :: "('k \<Rightarrow> 'v \<Rightarrow> 's \<Rightarrow> 's) \<Rightarrow> ('k, 'v) ghash \<Rightarrow> 's \<Rightarrow> 's" where
  "gh_foreach f t s = foldl (\<lambda>s (k, v). f k v s) s t"

definition gh_wf :: "('k, 'v) ghash \<Rightarrow> bool" where
  "gh_wf t \<longleftrightarrow> distinct (gh_keys t)"

section \<open>The interface the components use\<close>

locale hash_table =
  fixes new :: "'t"
    and look :: "'t \<Rightarrow> 'k \<Rightarrow> 'v option"
    and ins :: "'k \<Rightarrow> 'v \<Rightarrow> 't \<Rightarrow> 't"
    and del :: "'k \<Rightarrow> 't \<Rightarrow> 't"
    and keys :: "'t \<Rightarrow> 'k list"
    and entries :: "'t \<Rightarrow> ('k \<times> 'v) list"
    and invar :: "'t \<Rightarrow> bool"
  assumes look_new: "look new k = None"
    and look_ins: "look (ins k v t) = (look t)(k \<mapsto> v)"
    and look_del: "invar t \<Longrightarrow> look (del k t) = (look t)(k := None)"
    and keys_look: "k \<in> set (keys t) \<longleftrightarrow> look t k \<noteq> None"
    and keys_entries: "keys t = map fst (entries t)"
    and invar_distinct: "invar t \<Longrightarrow> distinct (keys t)"
    and look_entries: "look t = map_of (entries t)"
    and invar_new: "invar new"
    and invar_ins: "invar t \<Longrightarrow> invar (ins k v t)"
    and invar_del: "invar t \<Longrightarrow> invar (del k t)"
begin

lemma look_ins_same [simp]: "look (ins k v t) k = Some v"
  by (simp add: look_ins)

lemma look_ins_other: "k' \<noteq> k \<Longrightarrow> look (ins k v t) k' = look t k'"
  by (simp add: look_ins)

lemma entries_look: "invar t \<Longrightarrow> (k, v) \<in> set (entries t) \<longleftrightarrow> look t k = Some v"
  using invar_distinct by (simp add: keys_entries look_entries)

lemma keys_ins: "set (keys (ins k v t)) = insert k (set (keys t))"
  by (simp add: set_eq_iff keys_look look_ins)

lemma keys_del: "invar t \<Longrightarrow> set (keys (del k t)) = set (keys t) - {k}"
  by (auto simp: set_eq_iff keys_look look_del)

lemma look_ins_all:
  "look (foldl (\<lambda>t (k, v). ins k v t) t kvs) = look t ++ map_of (rev kvs)"
  by (induction kvs arbitrary: t) (auto simp: look_ins fun_eq_iff map_add_def split: option.splits)

lemma look_ins_all_distinct:
  assumes "distinct (map fst kvs)"
  shows "look (foldl (\<lambda>t (k, v). ins k v t) new kvs) = map_of kvs"
proof -
  have "map_of (rev kvs) = map_of kvs"
    using assms by (intro map_of_inject_set [THEN iffD2]) (auto simp: rev_map [symmetric])
  moreover have "look new = Map.empty"
    by (auto simp: look_new)
  ultimately show ?thesis
    by (simp add: look_ins_all)
qed

lemma invar_ins_all: "invar t \<Longrightarrow> invar (foldl (\<lambda>t (k, v). ins k v t) t kvs)"
  by (rule foldl_invariant [where P = invar]) (auto simp: invar_ins split: prod.splits)

end

section \<open>Association lists implement it\<close>

lemma gh_insert_new: "gh_lookup t k = None \<Longrightarrow> gh_insert k v t = t @ [(k, v)]"
  by (induction t) (auto simp: gh_insert_def gh_lookup_def split: if_splits)

lemma gh_keys_insert:
  "gh_keys (gh_insert k v t) = (if k \<in> set (gh_keys t) then gh_keys t else gh_keys t @ [k])"
  by (induction t) (auto simp: gh_insert_def gh_keys_def)

lemma map_of_filter_key:
  "map_of (filter (\<lambda>(k', v). k' \<noteq> k) t) = (map_of t)(k := None)"
  by (induction t) (auto simp: fun_eq_iff)

interpretation ght: hash_table gh_new gh_lookup gh_insert gh_remove gh_keys "\<lambda>t. t" gh_wf
proof unfold_locales
  show "gh_lookup gh_new k = None" for k :: 'a
    by (simp add: gh_lookup_def gh_new_def)
  show "gh_lookup (gh_insert k v t) = (gh_lookup t)(k \<mapsto> v)" for k :: 'a and v :: 'b and t
    by (simp add: gh_lookup_def gh_insert_def update_conv' fun_eq_iff)
  show "gh_lookup (gh_remove k t) = (gh_lookup t)(k := None)" for k :: 'a and t :: "('a \<times> 'b) list"
    by (simp add: gh_lookup_def gh_remove_def map_of_filter_key fun_eq_iff)
  show "k \<in> set (gh_keys t) \<longleftrightarrow> gh_lookup t k \<noteq> None" for k :: 'a and t :: "('a \<times> 'b) list"
    by (simp add: gh_keys_def gh_lookup_def map_of_eq_None_iff)
  show "gh_keys t = map fst t" for t :: "('a \<times> 'b) list"
    by (simp add: gh_keys_def)
  show "gh_wf t \<Longrightarrow> distinct (gh_keys t)" for t :: "('a \<times> 'b) list"
    by (simp add: gh_wf_def)
  show "gh_lookup t = map_of t" for t :: "('a \<times> 'b) list"
    by (simp add: gh_lookup_def fun_eq_iff)
  show "gh_wf (gh_new :: ('a \<times> 'b) list)"
    by (simp add: gh_wf_def gh_new_def gh_keys_def)
  show "gh_wf t \<Longrightarrow> gh_wf (gh_insert k v t)" for k :: 'a and v :: 'b and t
    by (simp add: gh_wf_def gh_keys_insert)
  show "gh_wf t \<Longrightarrow> gh_wf (gh_remove k t)" for k :: 'a and t :: "('a \<times> 'b) list"
    by (simp add: gh_wf_def gh_remove_def gh_keys_def distinct_map_filter)
qed

lemmas gh_simps [bm_simps] = ght.look_new ght.look_ins ght.look_del ght.look_ins_same

lemma gh_insert_not_empty: "gh_insert k v t \<noteq> []"
  by (cases t) (auto simp: gh_insert_def)

lemma gh_foreach_Nil [simp]: "gh_foreach f [] s = s"
  by (simp add: gh_foreach_def)

lemma gh_foreach_Cons [simp]: "gh_foreach f ((k, v) # t) s = gh_foreach f t (f k v s)"
  by (simp add: gh_foreach_def)

lemma gh_foreach_append: "gh_foreach f (t @ u) s = gh_foreach f u (gh_foreach f t s)"
  by (simp add: gh_foreach_def)

lemma gh_wf_Cons [simp]: "gh_wf ((k, v) # t) \<longleftrightarrow> k \<notin> set (gh_keys t) \<and> gh_wf t"
  by (simp add: gh_wf_def gh_keys_def)

lemma gh_wf_Nil [simp]: "gh_wf []"
  by (simp add: gh_wf_def gh_keys_def)

lemma gh_keys_Cons [simp]: "gh_keys ((k, v) # t) = k # gh_keys t"
  by (simp add: gh_keys_def)

lemma gh_keys_Nil [simp]: "gh_keys [] = []"
  by (simp add: gh_keys_def)

lemma gh_lookup_Cons [simp]:
  "gh_lookup ((k, v) # t) x = (if x = k then Some v else gh_lookup t x)"
  by (simp add: gh_lookup_def)

lemma gh_lookup_Nil [simp]: "gh_lookup [] x = None"
  by (simp add: gh_lookup_def)

end
