(* ===== verification/GValue_Compare.thy ===== *)
theory GValue_Compare
  imports GHash_Table "HOL-Library.Multiset" "HOL-Library.List_Lexorder" "HOL-Library.Char_ord"
    "HOL-Library.Countable"
begin

text \<open>
  Typed values and their three-way comparison,
  \<^verbatim>\<open>src/barcode-manager/libbm-util/bm-param-spec-specialized.c\<close>.  A \<^verbatim>\<open>GValue\<close> is a \<open>gvalue\<close>, its
  \<^verbatim>\<open>GType\<close> a \<open>gtype\<close>.  The numbers GLib hands out for types at run time order values of different
  types; they are the parameter \<open>gt\<close> of the comparison, of which only injectivity is used.
  \<^verbatim>\<open>NULL\<close> inside a boxed value is \<open>None\<close>.  The floating-point types are left out: no property of
  the program has one.
\<close>

section \<open>Types and values\<close>

datatype gtype =
    T_CHAR | T_UCHAR | T_BOOLEAN | T_INT | T_UINT | T_LONG | T_ULONG | T_INT64 | T_UINT64
  | T_STRING | T_STRV
  | T_COLLECTION gtype
  | T_MAP gtype gtype
  | T_IP6_ADDRESS | T_IP6_ROUTE
  | T_VALUE
  | T_OTHER nat

datatype gvalue =
    GChar "8 word" | GUChar u8 | GBoolean bool
  | GInt u32 | GUInt u32 | GLong u64 | GULong u64 | GInt64 u64 | GUInt64 u64
  | GString "string option"
  | GStrv "string list option"
  | GCollection gtype "gvalue list option"
  | GMap gtype gtype "(string \<times> gvalue) list option"
  | GIp6Address "(u8 list \<times> u32 \<times> u8 list) option"
  | GIp6Route "(u8 list \<times> u32 \<times> u8 list \<times> u32) option"
  | GValueBox "gvalue option"
  | GOther nat nat

fun g_value_type :: "gvalue \<Rightarrow> gtype" where
  "g_value_type (GChar _) = T_CHAR"
| "g_value_type (GUChar _) = T_UCHAR"
| "g_value_type (GBoolean _) = T_BOOLEAN"
| "g_value_type (GInt _) = T_INT"
| "g_value_type (GUInt _) = T_UINT"
| "g_value_type (GLong _) = T_LONG"
| "g_value_type (GULong _) = T_ULONG"
| "g_value_type (GInt64 _) = T_INT64"
| "g_value_type (GUInt64 _) = T_UINT64"
| "g_value_type (GString _) = T_STRING"
| "g_value_type (GStrv _) = T_STRV"
| "g_value_type (GCollection t _) = T_COLLECTION t"
| "g_value_type (GMap k v _) = T_MAP k v"
| "g_value_type (GIp6Address _) = T_IP6_ADDRESS"
| "g_value_type (GIp6Route _) = T_IP6_ROUTE"
| "g_value_type (GValueBox _) = T_VALUE"
| "g_value_type (GOther t _) = T_OTHER t"

text \<open>\<^verbatim>\<open>type_is_fixed_size\<close>: the size of an element, when it is fixed.\<close>

fun type_is_fixed_size :: "gtype \<Rightarrow> nat option" where
  "type_is_fixed_size T_CHAR = Some 1"
| "type_is_fixed_size T_UCHAR = Some 1"
| "type_is_fixed_size T_BOOLEAN = Some 4"
| "type_is_fixed_size T_LONG = Some 8"
| "type_is_fixed_size T_ULONG = Some 8"
| "type_is_fixed_size T_INT = Some 4"
| "type_is_fixed_size T_UINT = Some 4"
| "type_is_fixed_size T_INT64 = Some 8"
| "type_is_fixed_size T_UINT64 = Some 8"
| "type_is_fixed_size _ = None"

section \<open>Comparing scalars, strings and bytes\<close>

text \<open>\<^verbatim>\<open>a < b ? -1 : a > b\<close>\<close>

definition cmp3 :: "'a::linorder \<Rightarrow> 'a \<Rightarrow> int" where
  "cmp3 a b = (if a < b then -1 else if a > b then 1 else 0)"

text \<open>Signed types compare by \<^const>\<open>sint\<close> (C's \<^verbatim>\<open>char\<close> is signed on the supported platforms).
  The caller has made sure that both values have the same type.\<close>

definition bm_gvalues_compare_fixed :: "gvalue \<Rightarrow> gvalue \<Rightarrow> int" where
  "bm_gvalues_compare_fixed value1 value2 =
     (case value1 of
        GChar a \<Rightarrow> (case value2 of GChar b \<Rightarrow> cmp3 (sint a) (sint b) | _ \<Rightarrow> 0)
      | GUChar a \<Rightarrow> (case value2 of GUChar b \<Rightarrow> cmp3 a b | _ \<Rightarrow> 0)
      | GBoolean a \<Rightarrow> (case value2 of GBoolean b \<Rightarrow> cmp3 a b | _ \<Rightarrow> 0)
      | GLong a \<Rightarrow> (case value2 of GLong b \<Rightarrow> cmp3 (sint a) (sint b) | _ \<Rightarrow> 0)
      | GULong a \<Rightarrow> (case value2 of GULong b \<Rightarrow> cmp3 a b | _ \<Rightarrow> 0)
      | GInt a \<Rightarrow> (case value2 of GInt b \<Rightarrow> cmp3 (sint a) (sint b) | _ \<Rightarrow> 0)
      | GUInt a \<Rightarrow> (case value2 of GUInt b \<Rightarrow> cmp3 a b | _ \<Rightarrow> 0)
      | GInt64 a \<Rightarrow> (case value2 of GInt64 b \<Rightarrow> cmp3 (sint a) (sint b) | _ \<Rightarrow> 0)
      | GUInt64 a \<Rightarrow> (case value2 of GUInt64 b \<Rightarrow> cmp3 a b | _ \<Rightarrow> 0)
      | _ \<Rightarrow> 0)"

fun bm_gvalues_compare_string :: "cstr \<Rightarrow> cstr \<Rightarrow> int" where
  "bm_gvalues_compare_string None None = 0"
| "bm_gvalues_compare_string None (Some _) = 1"
| "bm_gvalues_compare_string (Some _) None = -1"
| "bm_gvalues_compare_string (Some a) (Some b) = strcmp a b"

fun bm_gvalues_compare_strv :: "string list \<Rightarrow> string list \<Rightarrow> int" where
  "bm_gvalues_compare_strv (a # as) (b # bs) =
     (if strcmp a b \<noteq> 0 then strcmp a b else bm_gvalues_compare_strv as bs)"
| "bm_gvalues_compare_strv [] [] = 0"
| "bm_gvalues_compare_strv (_ # _) [] = 1"
| "bm_gvalues_compare_strv [] (_ # _) = -1"

text \<open>\<^verbatim>\<open>memcmp\<close> on the little-endian images of the elements of a fixed-size array, of equal length.\<close>

fun memcmp :: "u8 list \<Rightarrow> u8 list \<Rightarrow> int" where
  "memcmp (a # as) (b # bs) = (if a \<noteq> b then cmp3 a b else memcmp as bs)"
| "memcmp _ _ = 0"

definition le_bytes :: "nat \<Rightarrow> 'a::len word \<Rightarrow> u8 list" where
  "le_bytes n w = map (\<lambda>i. ucast (drop_bit (8 * i) w)) [0..<n]"

fun fixed_bytes :: "gvalue \<Rightarrow> u8 list" where
  "fixed_bytes (GChar a) = [a]"
| "fixed_bytes (GUChar a) = [a]"
| "fixed_bytes (GBoolean a) = le_bytes 4 (if a then 1 else 0 :: u32)"
| "fixed_bytes (GInt a) = le_bytes 4 a"
| "fixed_bytes (GUInt a) = le_bytes 4 a"
| "fixed_bytes (GLong a) = le_bytes 8 a"
| "fixed_bytes (GULong a) = le_bytes 8 a"
| "fixed_bytes (GInt64 a) = le_bytes 8 a"
| "fixed_bytes (GUInt64 a) = le_bytes 8 a"
| "fixed_bytes _ = []"

text \<open>The byte loop over an IPv6 address that \<^verbatim>\<open>IN6_ARE_ADDR_EQUAL\<close> found different; it goes on
  while the result so far is 0.\<close>

definition in6_are_addr_equal :: "u8 list \<Rightarrow> u8 list \<Rightarrow> bool" where
  "in6_are_addr_equal a b = (take 16 a = take 16 b)"

fun addr_loop :: "int \<Rightarrow> u8 list \<Rightarrow> u8 list \<Rightarrow> int" where
  "addr_loop ret (a # as) (b # bs) = (if ret \<noteq> 0 then ret else addr_loop (cmp3 a b) as bs)"
| "addr_loop ret _ _ = ret"

definition addr_step :: "int \<Rightarrow> u8 list \<Rightarrow> u8 list \<Rightarrow> int" where
  "addr_step ret a b = (if in6_are_addr_equal a b then ret else addr_loop ret a b)"

fun bm_gvalue_ip6_address_compare :: "u8 list \<times> u32 \<times> u8 list \<Rightarrow> u8 list \<times> u32 \<times> u8 list \<Rightarrow> int" where
  "bm_gvalue_ip6_address_compare (addr1, prefix1, gw1) (addr2, prefix2, gw2) =
     (if prefix1 \<noteq> prefix2 then cmp3 prefix1 prefix2
      else addr_step (addr_step 0 addr1 addr2) gw1 gw2)"

fun bm_gvalue_ip6_route_compare ::
    "u8 list \<times> u32 \<times> u8 list \<times> u32 \<Rightarrow> u8 list \<times> u32 \<times> u8 list \<times> u32 \<Rightarrow> int" where
  "bm_gvalue_ip6_route_compare (dest1, prefix1, next_hop1, metric1) (dest2, prefix2, next_hop2, metric2) =
     (if prefix1 \<noteq> prefix2 then cmp3 prefix1 prefix2
      else (let ret = addr_step (addr_step 0 dest1 dest2) next_hop1 next_hop2
            in if metric1 \<noteq> metric2 then cmp3 metric1 metric2 else ret))"

section \<open>Comparing values\<close>

text \<open>\<^verbatim>\<open>bm_gvalues_compare\<close> and the comparisons it calls.  A collection of elements without a fixed
  size is copied to a list by prepending, so its elements are compared from the last to the
  first; a map is compared entry by entry of its first argument.  A type the comparison does
  not know yields \<^verbatim>\<open>value1 == value2\<close>, which is \<^verbatim>\<open>FALSE\<close>, that is 0, at that point.\<close>

fun bm_gvalues_compare :: "(gtype \<Rightarrow> nat) \<Rightarrow> gvalue \<Rightarrow> gvalue \<Rightarrow> int"
  and compare_rev_lists :: "(gtype \<Rightarrow> nat) \<Rightarrow> gvalue list \<Rightarrow> gvalue list \<Rightarrow> int"
  and compare_map_items :: "(gtype \<Rightarrow> nat) \<Rightarrow> (string \<times> gvalue) list \<Rightarrow> (string \<times> gvalue) list \<Rightarrow> int"
where
  "bm_gvalues_compare gt value1 value2 =
     (if g_value_type value1 \<noteq> g_value_type value2
      then cmp3 (gt (g_value_type value1)) (gt (g_value_type value2))
      else if type_is_fixed_size (g_value_type value1) \<noteq> None
      then bm_gvalues_compare_fixed value1 value2
      else (case (value1, value2) of
          (GString s1, GString s2) \<Rightarrow> bm_gvalues_compare_string s1 s2
        | (GStrv v1, GStrv v2) \<Rightarrow>
            (case (v1, v2) of (None, None) \<Rightarrow> 0 | (None, Some _) \<Rightarrow> 1 | (Some _, None) \<Rightarrow> -1
             | (Some a, Some b) \<Rightarrow> bm_gvalues_compare_strv a b)
        | (GCollection t c1, GCollection _ c2) \<Rightarrow>
            (case (c1, c2) of (None, None) \<Rightarrow> 0 | (None, Some _) \<Rightarrow> 1 | (Some _, None) \<Rightarrow> -1
             | (Some a, Some b) \<Rightarrow>
                 if length a \<noteq> length b then cmp3 (length a) (length b)
                 else if type_is_fixed_size t \<noteq> None
                 then memcmp (concat (map fixed_bytes a)) (concat (map fixed_bytes b))
                 else compare_rev_lists gt a b)
        | (GMap k _ m1, GMap _ _ m2) \<Rightarrow>
            (case (m1, m2) of (None, None) \<Rightarrow> 0 | (None, Some _) \<Rightarrow> 1 | (Some _, None) \<Rightarrow> -1
             | (Some a, Some b) \<Rightarrow>
                 if k \<noteq> T_STRING then 0
                 else if gh_size a \<noteq> gh_size b then cmp3 (gh_size a) (gh_size b)
                 else compare_map_items gt a b)
        | (GIp6Address p1, GIp6Address p2) \<Rightarrow>
            (case (p1, p2) of (None, None) \<Rightarrow> 0 | (None, Some _) \<Rightarrow> 1 | (Some _, None) \<Rightarrow> -1
             | (Some a, Some b) \<Rightarrow> bm_gvalue_ip6_address_compare a b)
        | (GIp6Route p1, GIp6Route p2) \<Rightarrow>
            (case (p1, p2) of (None, None) \<Rightarrow> 0 | (None, Some _) \<Rightarrow> 1 | (Some _, None) \<Rightarrow> -1
             | (Some a, Some b) \<Rightarrow> bm_gvalue_ip6_route_compare a b)
        | (GValueBox b1, GValueBox b2) \<Rightarrow>
            (case (b1, b2) of (None, None) \<Rightarrow> 0 | (None, Some _) \<Rightarrow> 1 | (Some _, None) \<Rightarrow> -1
             | (Some a, Some b) \<Rightarrow> bm_gvalues_compare gt a b)
        | _ \<Rightarrow> 0))"
| "compare_rev_lists gt (x # xs) (y # ys) =
     (if compare_rev_lists gt xs ys \<noteq> 0 then compare_rev_lists gt xs ys
      else bm_gvalues_compare gt x y)"
| "compare_rev_lists gt _ _ = 0"
| "compare_map_items gt [] hash2 = 0"
| "compare_map_items gt ((k, v) # items) hash2 =
     (case gh_lookup hash2 k of
        None \<Rightarrow> 1
      | Some value2 \<Rightarrow>
          if bm_gvalues_compare gt v value2 \<noteq> 0 then bm_gvalues_compare gt v value2
          else compare_map_items gt items hash2)"

declare bm_gvalues_compare.simps [simp del]

text \<open>Characteristic equations, one per kind of value.\<close>

lemma compare_types [bm_simps]:
  "g_value_type a \<noteq> g_value_type b \<Longrightarrow>
     bm_gvalues_compare gt a b = cmp3 (gt (g_value_type a)) (gt (g_value_type b))"
  by (subst bm_gvalues_compare.simps) simp

lemma compare_fixed_eq:
  "g_value_type a = g_value_type b \<Longrightarrow> type_is_fixed_size (g_value_type a) \<noteq> None \<Longrightarrow>
     bm_gvalues_compare gt a b = bm_gvalues_compare_fixed a b"
  by (subst bm_gvalues_compare.simps) simp

lemma compare_string_eq [bm_simps]:
  "bm_gvalues_compare gt (GString a) (GString b) = bm_gvalues_compare_string a b"
  by (subst bm_gvalues_compare.simps) simp

text \<open>The handling of \<^verbatim>\<open>NULL\<close> that all boxed types share.\<close>

definition null_order :: "('a \<Rightarrow> 'a \<Rightarrow> int) \<Rightarrow> 'a option \<Rightarrow> 'a option \<Rightarrow> int" where
  "null_order f a b = (case (a, b) of (None, None) \<Rightarrow> 0 | (None, Some _) \<Rightarrow> 1 | (Some _, None) \<Rightarrow> -1
     | (Some x, Some y) \<Rightarrow> f x y)"

lemma compare_boxed_eqs [bm_simps]:
  "bm_gvalues_compare gt (GStrv a) (GStrv b) = null_order bm_gvalues_compare_strv a b"
  "bm_gvalues_compare gt (GCollection t c) (GCollection t d) =
     null_order (\<lambda>a b. if length a \<noteq> length b then cmp3 (length a) (length b)
       else if type_is_fixed_size t \<noteq> None
       then memcmp (concat (map fixed_bytes a)) (concat (map fixed_bytes b))
       else compare_rev_lists gt a b) c d"
  "bm_gvalues_compare gt (GMap k t m) (GMap k t n) =
     null_order (\<lambda>a b. if k \<noteq> T_STRING then 0
       else if gh_size a \<noteq> gh_size b then cmp3 (gh_size a) (gh_size b)
       else compare_map_items gt a b) m n"
  "bm_gvalues_compare gt (GIp6Address p) (GIp6Address q) = null_order bm_gvalue_ip6_address_compare p q"
  "bm_gvalues_compare gt (GIp6Route r) (GIp6Route u) = null_order bm_gvalue_ip6_route_compare r u"
  "bm_gvalues_compare gt (GValueBox x) (GValueBox y) = null_order (bm_gvalues_compare gt) x y"
  by (subst bm_gvalues_compare.simps; simp add: null_order_def split: option.splits)+

section \<open>Well-formed values and their canonical form\<close>

text \<open>What GLib and dbus-glib keep true of a value: the elements of a collection or map have the
  declared type, the keys of a map are distinct; and what the program expects on top: string
  keys, 16-byte IPv6 addresses, no type the comparison does not know.\<close>

fun gvalue_ok :: "gvalue \<Rightarrow> bool" where
  "gvalue_ok (GCollection t (Some xs)) = (list_all gvalue_ok xs \<and> list_all (\<lambda>x. g_value_type x = t) xs)"
| "gvalue_ok (GMap k t (Some m)) =
     (k = T_STRING \<and> gh_wf m \<and> list_all (\<lambda>(_, x). gvalue_ok x) m \<and> list_all (\<lambda>(_, x). g_value_type x = t) m)"
| "gvalue_ok (GIp6Address (Some (a, _, g))) = (length a = 16 \<and> length g = 16)"
| "gvalue_ok (GIp6Route (Some (a, _, g, _))) = (length a = 16 \<and> length g = 16)"
| "gvalue_ok (GValueBox (Some x)) = gvalue_ok x"
| "gvalue_ok (GOther _ _) = False"
| "gvalue_ok _ = True"

text \<open>The same value with the entries of every map in the order of their keys: two values have the
  same canonical form when they differ only in the order of their hash tables.\<close>

fun canon :: "gvalue \<Rightarrow> gvalue" where
  "canon (GCollection t (Some xs)) = GCollection t (Some (map canon xs))"
| "canon (GMap k t (Some m)) = GMap k t (Some (sort_key fst (map (\<lambda>(s, x). (s, canon x)) m)))"
| "canon (GValueBox (Some x)) = GValueBox (Some (canon x))"
| "canon x = x"

lemma g_value_type_canon [simp]: "g_value_type (canon x) = g_value_type x"
  by (cases x rule: canon.cases) auto

section \<open>The scalar comparisons\<close>

lemma cmp3_simps [simp]:
  "cmp3 a a = 0" "cmp3 a b = 0 \<longleftrightarrow> a = b"
  by (auto simp: cmp3_def)

lemma cmp3_antisym: "cmp3 a b + cmp3 b a = 0"
  by (auto simp: cmp3_def)

lemma strv_eq_0 [simp]: "bm_gvalues_compare_strv a b = 0 \<longleftrightarrow> a = b"
  by (induction a b rule: bm_gvalues_compare_strv.induct) auto

lemma strv_antisym: "bm_gvalues_compare_strv a b + bm_gvalues_compare_strv b a = 0"
  by (induction a b rule: bm_gvalues_compare_strv.induct) (auto simp: strcmp_opposite)

lemma string_eq_0 [simp]: "bm_gvalues_compare_string a b = 0 \<longleftrightarrow> a = b"
  by (cases a; cases b) auto

lemma string_antisym: "bm_gvalues_compare_string a b + bm_gvalues_compare_string b a = 0"
  by (cases a; cases b) (auto simp: strcmp_opposite)

lemma memcmp_eq_0: "length a = length b \<Longrightarrow> memcmp a b = 0 \<longleftrightarrow> a = b"
  by (induction a b rule: memcmp.induct) auto

lemma memcmp_antisym: "memcmp a b + memcmp b a = 0"
  by (induction a b rule: memcmp.induct) (auto simp: cmp3_antisym)

lemma addr_loop_eq_0:
  "length a = length b \<Longrightarrow> addr_loop ret a b = 0 \<longleftrightarrow> ret = 0 \<and> a = b"
  by (induction ret a b rule: addr_loop.induct) auto

lemma addr_loop_antisym: "r + r' = 0 \<Longrightarrow> addr_loop r a b + addr_loop r' b a = 0"
proof (induction a arbitrary: r r' b)
  case (Cons x xs)
  then show ?case
    by (cases b) (auto simp: cmp3_antisym)
qed simp

lemma addr_step_eq_0:
  "length a = 16 \<Longrightarrow> length b = 16 \<Longrightarrow> addr_step ret a b = 0 \<longleftrightarrow> ret = 0 \<and> a = b"
  by (auto simp: addr_step_def in6_are_addr_equal_def addr_loop_eq_0)

lemma addr_step_antisym: "r + r' = 0 \<Longrightarrow> addr_step r a b + addr_step r' b a = 0"
  by (auto simp: addr_step_def in6_are_addr_equal_def addr_loop_antisym)

lemma fixed_eq_0:
  "g_value_type a = g_value_type b \<Longrightarrow> type_is_fixed_size (g_value_type a) \<noteq> None \<Longrightarrow>
     bm_gvalues_compare_fixed a b = 0 \<longleftrightarrow> a = b"
  by (cases a; cases b; simp add: bm_gvalues_compare_fixed_def word_eq_iff_signed [symmetric])

lemma fixed_antisym: "bm_gvalues_compare_fixed a b + bm_gvalues_compare_fixed b a = 0"
  by (cases a; cases b; simp add: bm_gvalues_compare_fixed_def cmp3_antisym)

lemma null_order_eq_0: "null_order f a b = 0 \<longleftrightarrow>
    (case (a, b) of (None, None) \<Rightarrow> True | (Some x, Some y) \<Rightarrow> f x y = 0 | _ \<Rightarrow> False)"
  by (auto simp: null_order_def split: option.splits)

section \<open>Fixed-size elements as bytes\<close>

lemma length_le_bytes [simp]: "length (le_bytes n w) = n"
  by (simp add: le_bytes_def)

lemma le_bytes_inj:
  fixes w v :: "'a::len word"
  assumes "le_bytes n w = le_bytes n v" and len: "8 * n = LENGTH('a)"
  shows "w = v"
proof (rule bit_word_eqI)
  fix k assume k: "k < LENGTH('a)"
  then have i: "k div 8 < n" using len by linarith
  with assms(1) have "le_bytes n w ! (k div 8) = le_bytes n v ! (k div 8)" by simp
  with i have "(ucast (drop_bit (8 * (k div 8)) w) :: u8) = ucast (drop_bit (8 * (k div 8)) v)"
    by (simp add: le_bytes_def)
  then have "bit (ucast (drop_bit (8 * (k div 8)) w) :: u8) (k mod 8) =
      bit (ucast (drop_bit (8 * (k div 8)) v) :: u8) (k mod 8)" by simp
  then show "bit w k = bit v k"
    by (simp add: bit_ucast_iff bit_drop_bit_eq)
qed

lemma length_fixed_bytes:
  "type_is_fixed_size (g_value_type x) = Some n \<Longrightarrow> length (fixed_bytes x) = n"
  by (cases x) auto

lemma fixed_bytes_inj:
  "g_value_type x = g_value_type y \<Longrightarrow> type_is_fixed_size (g_value_type x) \<noteq> None \<Longrightarrow>
     fixed_bytes x = fixed_bytes y \<Longrightarrow> x = y"
  by (cases x; cases y; auto split: if_splits dest: le_bytes_inj)

lemma fixed_array_eq_0:
  assumes t: "type_is_fixed_size t = Some n"
    and len: "length a = length b"
    and ta: "list_all (\<lambda>x. g_value_type x = t) a" and tb: "list_all (\<lambda>x. g_value_type x = t) b"
  shows "memcmp (concat (map fixed_bytes a)) (concat (map fixed_bytes b)) = 0 \<longleftrightarrow> a = b"
proof -
  have la: "\<forall>x\<in>set a. length (fixed_bytes x) = n" and lb: "\<forall>x\<in>set b. length (fixed_bytes x) = n"
    using t ta tb by (auto simp: list_all_iff length_fixed_bytes)
  have lens: "map length (map fixed_bytes a) = map length (map fixed_bytes b)"
    using la lb len by (intro nth_equalityI) auto
  then have "length (concat (map fixed_bytes a)) = length (concat (map fixed_bytes b))"
    unfolding length_concat by (rule arg_cong)
  then have "memcmp (concat (map fixed_bytes a)) (concat (map fixed_bytes b)) = 0 \<longleftrightarrow>
      concat (map fixed_bytes a) = concat (map fixed_bytes b)"
    by (rule memcmp_eq_0)
  also have "\<dots> \<longleftrightarrow> map fixed_bytes a = map fixed_bytes b"
  proof (rule concat_eq_concat_iff)
    show "\<forall>(x, y)\<in>set (zip (map fixed_bytes a) (map fixed_bytes b)). length x = length y"
    proof clarify
      fix x y assume "(x, y) \<in> set (zip (map fixed_bytes a) (map fixed_bytes b))"
      from set_zip_leftD [OF this] set_zip_rightD [OF this]
      have "x \<in> fixed_bytes ` set a" "y \<in> fixed_bytes ` set b"
        by simp_all
      then show "length x = length y" using la lb by auto
    qed
  qed (simp add: len)
  also have "\<dots> \<longleftrightarrow> a = b"
  proof
    assume eq: "map fixed_bytes a = map fixed_bytes b"
    have "inj_on fixed_bytes (set a \<union> set b)"
    proof (rule inj_onI)
      fix x y assume xy: "x \<in> set a \<union> set b" "y \<in> set a \<union> set b" and fb: "fixed_bytes x = fixed_bytes y"
      have "g_value_type x = t" "g_value_type y = t"
        using xy ta tb by (auto simp: list_all_iff)
      with fb t show "x = y" by (intro fixed_bytes_inj) simp_all
    qed
    with eq show "a = b" by (rule map_inj_on)
  qed simp
  finally show ?thesis .
qed

section \<open>Maps\<close>

lemma distinct_fst: "distinct (map fst xs) \<Longrightarrow> distinct xs"
  by (simp add: distinct_map)

lemma sort_key_fst_eq_iff:
  fixes xs ys :: "('k::linorder \<times> 'v) list"
  assumes "distinct (map fst xs)" "distinct (map fst ys)"
  shows "sort_key fst xs = sort_key fst ys \<longleftrightarrow> map_of xs = map_of ys"
proof
  assume "sort_key fst xs = sort_key fst ys"
  then have "set xs = set ys"
    by (metis set_sort)
  then show "map_of xs = map_of ys"
    using assms by (simp add: map_of_inject_set)
next
  assume "map_of xs = map_of ys"
  then have "set xs = set ys"
    using assms by (simp add: map_of_inject_set)
  then have "mset xs = mset ys"
    using assms by (simp add: set_eq_iff_mset_eq_distinct [symmetric] distinct_fst)
  then have "mset xs = mset (sort_key fst ys)"
    by simp
  then show "sort_key fst xs = sort_key fst ys"
    using assms by (intro sort_key_inj_key_eq) (auto simp: distinct_map)
qed

lemma compare_map_items_eq_0:
  "compare_map_items gt a b = 0 \<longleftrightarrow>
     (\<forall>(k, v) \<in> set a. \<exists>w. gh_lookup b k = Some w \<and> bm_gvalues_compare gt v w = 0)"
proof (induction a)
  case (Cons kv a)
  obtain k v where kv: "kv = (k, v)" by (cases kv)
  show ?case
    using Cons.IH by (cases "gh_lookup b k") (simp_all add: kv)
qed simp

lemma card_keys: "gh_wf a \<Longrightarrow> card (set (gh_keys a)) = gh_size a"
  using distinct_card [of "gh_keys a"] by (simp add: gh_wf_def gh_size_def gh_keys_def)

lemma gh_lookup_keyD: "gh_lookup a k = Some v \<Longrightarrow> k \<in> set (gh_keys a)"
  by (simp add: ght.keys_look)

lemma gh_key_lookup: "k \<in> set (gh_keys a) \<Longrightarrow> \<exists>v. gh_lookup a k = Some v"
  by (simp add: ght.keys_look)

text \<open>Two maps of the same size compare as equal exactly when they have the same keys and their
  values compare as equal.\<close>

lemma compare_maps_eq_0:
  assumes a: "gh_wf a" and b: "gh_wf b"
  shows "gh_size a = gh_size b \<and> compare_map_items gt a b = 0 \<longleftrightarrow>
    set (gh_keys a) = set (gh_keys b) \<and>
    (\<forall>k v w. gh_lookup a k = Some v \<longrightarrow> gh_lookup b k = Some w \<longrightarrow> bm_gvalues_compare gt v w = 0)"
    (is "?l \<longleftrightarrow> ?r")
proof -
  have items: "compare_map_items gt a b = 0 \<longleftrightarrow>
      (\<forall>k v. gh_lookup a k = Some v \<longrightarrow> (\<exists>w. gh_lookup b k = Some w \<and> bm_gvalues_compare gt v w = 0))"
    unfolding compare_map_items_eq_0 Ball_def split_paired_All prod.case ght.entries_look [OF a] ..
  show ?thesis
  proof
    assume l: ?l
    then have "set (gh_keys a) \<subseteq> set (gh_keys b)"
      unfolding items by (metis gh_key_lookup gh_lookup_keyD subsetI)
    then have "set (gh_keys a) = set (gh_keys b)"
      using l by (intro card_subset_eq) (simp_all add: card_keys a b)
    with l show ?r
      unfolding items by fastforce
  next
    assume r: ?r
    then have "gh_size a = gh_size b"
      using card_keys [OF a] card_keys [OF b] by simp
    with r show ?l
      unfolding items by (metis gh_key_lookup gh_lookup_keyD)
  qed
qed

section \<open>Zero means the same value\<close>

lemma compare_rev_lists_eq_0:
  assumes "\<And>x y. x \<in> set xs \<Longrightarrow> y \<in> set ys \<Longrightarrow> bm_gvalues_compare gt x y = 0 \<longleftrightarrow> f x = f y"
    and "length xs = length ys"
  shows "compare_rev_lists gt xs ys = 0 \<longleftrightarrow> map f xs = map f ys"
  using assms(2,1) by (induction xs ys rule: list_induct2) auto

lemma canon_map_of:
  "map_of (map (\<lambda>(s, x). (s, canon x)) m) = (\<lambda>k. map_option canon (gh_lookup m k))"
  by (induction m) (auto simp: fun_eq_iff)

lemma canon_map_eq_iff:
  assumes "gh_wf a" "gh_wf b"
  shows "sort_key fst (map (\<lambda>(s, x). (s, canon x)) a) = sort_key fst (map (\<lambda>(s, x). (s, canon x)) b) \<longleftrightarrow>
    (\<forall>k. map_option canon (gh_lookup a k) = map_option canon (gh_lookup b k))"
proof -
  have keys: "map fst (map (\<lambda>(s, x). (s, canon x)) m) = gh_keys m" for m
    by (induction m) auto
  have "distinct (map fst (map (\<lambda>(s, x). (s, canon x)) a))" "distinct (map fst (map (\<lambda>(s, x). (s, canon x)) b))"
    unfolding keys using assms by (simp_all add: gh_wf_def)
  from sort_key_fst_eq_iff [OF this] show ?thesis
    by (simp add: canon_map_of fun_eq_iff)
qed

text \<open>The equation for maps, given that it holds for the values of the first map.\<close>

lemma compare_maps_canon:
  assumes wf: "gh_wf a" "gh_wf b"
    and IH: "\<And>k v w. gh_lookup a k = Some v \<Longrightarrow> gh_lookup b k = Some w \<Longrightarrow>
      bm_gvalues_compare gt v w = 0 \<longleftrightarrow> canon v = canon w"
  shows "gh_size a = gh_size b \<and> compare_map_items gt a b = 0 \<longleftrightarrow>
    sort_key fst (map (\<lambda>(s, x). (s, canon x)) a) = sort_key fst (map (\<lambda>(s, x). (s, canon x)) b)"
proof -
  have keys: "set (gh_keys a) = set (gh_keys b) \<longleftrightarrow> (\<forall>k. gh_lookup a k = None \<longleftrightarrow> gh_lookup b k = None)"
    unfolding set_eq_iff ght.keys_look by metis
  have pointwise: "((gh_lookup a k = None \<longleftrightarrow> gh_lookup b k = None) \<and>
       (\<forall>v w. gh_lookup a k = Some v \<longrightarrow> gh_lookup b k = Some w \<longrightarrow> bm_gvalues_compare gt v w = 0)) \<longleftrightarrow>
      map_option canon (gh_lookup a k) = map_option canon (gh_lookup b k)" for k
    by (cases "gh_lookup a k"; cases "gh_lookup b k") (auto simp: IH)
  show ?thesis
    unfolding compare_maps_eq_0 [OF wf] canon_map_eq_iff [OF wf] keys pointwise [symmetric] all_conj_distrib ..
qed

lemma gvalue_ok_map_lookup:
  "gvalue_ok (GMap k t (Some m)) \<Longrightarrow> gh_lookup m s = Some v \<Longrightarrow> (s, v) \<in> set m \<and> gvalue_ok v"
  by (auto simp: gh_lookup_def list_all_iff dest: map_of_SomeD)

lemma compare_zero_types:
  assumes "inj gt" "g_value_type a \<noteq> g_value_type b"
  shows "bm_gvalues_compare gt a b = 0 \<longleftrightarrow> canon a = canon b"
  using assms g_value_type_canon [of a] g_value_type_canon [of b]
  by (metis cmp3_simps(2) compare_types injD)

text \<open>Values without values inside.\<close>

fun flat :: "gvalue \<Rightarrow> bool" where
  "flat (GCollection _ _) = False"
| "flat (GMap _ _ _) = False"
| "flat (GValueBox _) = False"
| "flat _ = True"

lemma canon_flat: "flat a \<Longrightarrow> canon a = a"
  by (cases a) auto

lemma compare_zero_flat:
  assumes "g_value_type a = g_value_type b" "gvalue_ok a" "gvalue_ok b" "flat a"
  shows "bm_gvalues_compare gt a b = 0 \<longleftrightarrow> canon a = canon b"
proof (cases "type_is_fixed_size (g_value_type a)")
  case None
  with assms show ?thesis
    by (cases a; cases b)
      (auto simp: bm_simps null_order_def addr_step_eq_0 Let_def split: option.splits)
next
  case (Some n)
  then have "canon a = a" "canon b = b"
    using assms by (cases a; cases b; auto)+
  with assms Some show ?thesis
    by (simp add: compare_fixed_eq fixed_eq_0)
qed

lemma compare_zero_not_nested:
  assumes "inj gt" "flat a" "gvalue_ok a" "gvalue_ok b"
  shows "bm_gvalues_compare gt a b = 0 \<longleftrightarrow> canon a = canon b"
proof (cases "g_value_type a = g_value_type b")
  case True
  with assms show ?thesis by (intro compare_zero_flat)
next
  case False
  with assms show ?thesis by (intro compare_zero_types)
qed

lemma compare_zero_collection:
  assumes ok: "gvalue_ok (GCollection t c)" "gvalue_ok (GCollection t d)"
    and IH: "\<And>xs x b. xs \<in> set_option c \<Longrightarrow> x \<in> set xs \<Longrightarrow> gvalue_ok x \<Longrightarrow> gvalue_ok b \<Longrightarrow>
      bm_gvalues_compare gt x b = 0 \<longleftrightarrow> canon x = canon b"
  shows "bm_gvalues_compare gt (GCollection t c) (GCollection t d) = 0 \<longleftrightarrow>
    canon (GCollection t c) = canon (GCollection t d)"
proof (cases c; cases d)
  fix xs ys assume c: "c = Some xs" and d: "d = Some ys"
  show ?thesis
  proof (cases "type_is_fixed_size t")
    case None
    with IH c d ok show ?thesis
      using compare_rev_lists_eq_0 [of xs ys gt canon]
      by (auto simp: compare_boxed_eqs null_order_def list_all_iff dest: map_eq_imp_length_eq)
  next
    case (Some n)
    then have "canon x = x" if "g_value_type x = t" for x
      using that by (cases x) auto
    with ok c d have "map canon xs = xs" "map canon ys = ys"
      by (auto simp: list_all_iff intro: map_idI)
    with Some ok c d show ?thesis
      using fixed_array_eq_0 [OF Some, of xs ys] by (auto simp: compare_boxed_eqs null_order_def)
  qed
qed (simp_all add: compare_boxed_eqs null_order_def)

lemma compare_zero_map:
  assumes ok: "gvalue_ok (GMap k t m)" "gvalue_ok (GMap k t n)"
    and IH: "\<And>a sv v b. a \<in> set_option m \<Longrightarrow> sv \<in> set a \<Longrightarrow> v \<in> Basic_BNFs.snds sv \<Longrightarrow>
      gvalue_ok v \<Longrightarrow> gvalue_ok b \<Longrightarrow>
      bm_gvalues_compare gt v b = 0 \<longleftrightarrow> canon v = canon b"
  shows "bm_gvalues_compare gt (GMap k t m) (GMap k t n) = 0 \<longleftrightarrow> canon (GMap k t m) = canon (GMap k t n)"
proof (cases m; cases n)
  fix a b assume m: "m = Some a" and n: "n = Some b"
  have "gh_size a = gh_size b \<and> compare_map_items gt a b = 0 \<longleftrightarrow>
      sort_key fst (map (\<lambda>(s, x). (s, canon x)) a) = sort_key fst (map (\<lambda>(s, x). (s, canon x)) b)"
  proof (rule compare_maps_canon)
    fix s v w assume l: "gh_lookup a s = Some v" "gh_lookup b s = Some w"
    then have "(s, v) \<in> set a" "gvalue_ok v" "gvalue_ok w"
      using ok gvalue_ok_map_lookup [of k t a s v] gvalue_ok_map_lookup [of k t b s w]
      by (simp_all add: m n)
    then show "bm_gvalues_compare gt v w = 0 \<longleftrightarrow> canon v = canon w"
      by (intro IH [of a "(s, v)"]) (simp_all add: m snds.simps)
  qed (use ok m n in auto)
  with ok m n show ?thesis
    by (auto simp: compare_boxed_eqs null_order_def)
qed (simp_all add: compare_boxed_eqs null_order_def)

lemma compare_zero_canon:
  assumes inj: "inj gt"
  shows "gvalue_ok a \<Longrightarrow> gvalue_ok b \<Longrightarrow> bm_gvalues_compare gt a b = 0 \<longleftrightarrow> canon a = canon b"
proof (induction a arbitrary: b)
  case (GCollection t c)
  show ?case
  proof (cases "\<exists>d. b = GCollection t d")
    case True
    then obtain d where b: "b = GCollection t d" by blast
    show ?thesis
      unfolding b by (rule compare_zero_collection) (use GCollection b in auto)
  next
    case False
    then show ?thesis by (intro compare_zero_types [OF inj]) (cases b; auto)
  qed
next
  case (GMap k t m)
  show ?case
  proof (cases "\<exists>n. b = GMap k t n")
    case True
    then obtain n where b: "b = GMap k t n" by blast
    show ?thesis
      unfolding b by (rule compare_zero_map) (use GMap b in auto)
  next
    case False
    then show ?thesis by (intro compare_zero_types [OF inj]) (cases b; auto)
  qed
next
  case (GValueBox x)
  show ?case
  proof (cases "\<exists>y. b = GValueBox y")
    case True
    then obtain y where b: "b = GValueBox y" by blast
    with GValueBox show ?thesis
      by (cases x; cases y) (simp_all add: compare_boxed_eqs null_order_def)
  next
    case False
    then show ?thesis by (intro compare_zero_types [OF inj]) (cases b; auto)
  qed
qed (rule compare_zero_not_nested [OF inj]; simp)+

section \<open>Antisymmetry\<close>

fun map_free :: "gvalue \<Rightarrow> bool" where
  "map_free (GMap _ _ _) = False"
| "map_free (GCollection _ (Some xs)) = list_all map_free xs"
| "map_free (GValueBox (Some x)) = map_free x"
| "map_free _ = True"

lemma null_order_antisym:
  "(\<And>x y. a = Some x \<Longrightarrow> b = Some y \<Longrightarrow> f x y + f y x = 0) \<Longrightarrow> null_order f a b + null_order f b a = 0"
  by (cases a; cases b) (auto simp: null_order_def)

lemma ip6_antisym:
  "bm_gvalue_ip6_address_compare p q + bm_gvalue_ip6_address_compare q p = 0"
  "bm_gvalue_ip6_route_compare r u + bm_gvalue_ip6_route_compare u r = 0"
  by (cases p; cases q; auto simp: cmp3_antisym addr_step_antisym)
     (cases r; cases u; auto simp: Let_def cmp3_antisym addr_step_antisym)

lemma compare_rev_lists_antisym:
  "(\<And>x y. x \<in> set xs \<Longrightarrow> bm_gvalues_compare gt x y + bm_gvalues_compare gt y x = 0) \<Longrightarrow>
     compare_rev_lists gt xs ys + compare_rev_lists gt ys xs = 0"
proof (induction xs arbitrary: ys)
  case (Cons x xs)
  show ?case
  proof (cases ys)
    case (Cons y ys')
    with Cons.prems Cons.IH [of ys'] show ?thesis by auto
  qed simp
qed (case_tac ys; simp)

lemma compare_antisym_types:
  "g_value_type a \<noteq> g_value_type b \<Longrightarrow> bm_gvalues_compare gt a b + bm_gvalues_compare gt b a = 0"
  by (simp add: compare_types cmp3_antisym)

lemma compare_antisym_flat:
  assumes "g_value_type a = g_value_type b" "flat a"
  shows "bm_gvalues_compare gt a b + bm_gvalues_compare gt b a = 0"
proof (cases "type_is_fixed_size (g_value_type a)")
  case (Some n)
  with assms show ?thesis by (simp add: compare_fixed_eq fixed_antisym)
next
  case None
  have other: "bm_gvalues_compare gt (GOther t x) (GOther t y) = 0" for t x y
    by (subst bm_gvalues_compare.simps) simp
  from None assms show ?thesis
    by (cases a; cases b)
      (auto simp: bm_simps other string_antisym intro!: null_order_antisym strv_antisym ip6_antisym)
qed

lemma compare_antisym_not_nested:
  assumes "flat a"
  shows "bm_gvalues_compare gt a b + bm_gvalues_compare gt b a = 0"
proof (cases "g_value_type a = g_value_type b")
  case True
  with assms show ?thesis by (intro compare_antisym_flat)
next
  case False
  then show ?thesis by (rule compare_antisym_types)
qed

lemma compare_antisym:
  "map_free a \<Longrightarrow> bm_gvalues_compare gt a b + bm_gvalues_compare gt b a = 0"
proof (induction a arbitrary: b)
  case (GCollection t c)
  show ?case
  proof (cases "\<exists>d. b = GCollection t d")
    case True
    then obtain d where b: "b = GCollection t d" by blast
    show ?thesis
      unfolding b compare_boxed_eqs
      by (rule null_order_antisym)
        (use GCollection in \<open>auto simp: cmp3_antisym memcmp_antisym list_all_iff intro!: compare_rev_lists_antisym\<close>)
  next
    case False
    then show ?thesis by (intro compare_antisym_types) (cases b; auto)
  qed
next
  case (GValueBox x)
  show ?case
  proof (cases "\<exists>y. b = GValueBox y")
    case True
    then obtain y where b: "b = GValueBox y" by blast
    show ?thesis
      unfolding b compare_boxed_eqs by (rule null_order_antisym) (use GValueBox in auto)
  next
    case False
    then show ?thesis by (intro compare_antisym_types) (cases b; auto)
  qed
qed (rule compare_antisym_not_nested; simp | simp)+

section \<open>Properties\<close>


text \<open>One injective numbering of the types, for the witnesses.\<close>

fun sample_gt :: "gtype \<Rightarrow> nat" where
  "sample_gt T_CHAR = prod_encode (0, 0)"
| "sample_gt T_UCHAR = prod_encode (1, 0)"
| "sample_gt T_BOOLEAN = prod_encode (2, 0)"
| "sample_gt T_INT = prod_encode (3, 0)"
| "sample_gt T_UINT = prod_encode (4, 0)"
| "sample_gt T_LONG = prod_encode (5, 0)"
| "sample_gt T_ULONG = prod_encode (6, 0)"
| "sample_gt T_INT64 = prod_encode (7, 0)"
| "sample_gt T_UINT64 = prod_encode (8, 0)"
| "sample_gt T_STRING = prod_encode (9, 0)"
| "sample_gt T_STRV = prod_encode (10, 0)"
| "sample_gt T_IP6_ADDRESS = prod_encode (11, 0)"
| "sample_gt T_IP6_ROUTE = prod_encode (12, 0)"
| "sample_gt T_VALUE = prod_encode (13, 0)"
| "sample_gt (T_OTHER n) = prod_encode (14, n)"
| "sample_gt (T_COLLECTION t) = prod_encode (15, sample_gt t)"
| "sample_gt (T_MAP k v) = prod_encode (16, prod_encode (sample_gt k, sample_gt v))"

lemma inj_sample_gt: "inj sample_gt"
proof (rule injI)
  fix x y :: gtype
  assume "sample_gt x = sample_gt y"
  then show "x = y"
    by (induction x arbitrary: y) (case_tac y; simp)+
qed


text \<open>The comparison is antisymmetric on values without maps, also between values of different
  types and \<^verbatim>\<open>NULL\<close>s, so it can serve as a three-way comparison.\<close>

theorem gvalues_compare_antisym:
  assumes "map_free a"
  shows "bm_gvalues_compare gt b a = - bm_gvalues_compare gt a b"
  using compare_antisym [OF assms, of gt b] by linarith

theorem gvalues_compare_antisym_witness:
  "map_free (GCollection T_STRING (Some [GString (Some ''b''), GString None])) \<and>
   bm_gvalues_compare sample_gt (GCollection T_STRING (Some [GString (Some ''a''), GString None]))
     (GCollection T_STRING (Some [GString (Some ''b''), GString None])) = -1"
  using gvalues_compare_antisym [of "GCollection T_STRING (Some [GString (Some ''b''), GString None])" sample_gt
      "GCollection T_STRING (Some [GString (Some ''a''), GString None])"]
  by (simp add: bm_simps null_order_def char_code_def)

text \<open>Maps break the antisymmetry: two maps of the same size that agree on the keys they share but
  have different keys each come out as the greater one.\<close>

theorem gvalues_compare_maps_both_greater:
  assumes "gh_wf a" "gh_wf b" "gh_size a = gh_size b" "set (gh_keys a) \<noteq> set (gh_keys b)"
    and "\<forall>k v w. gh_lookup a k = Some v \<longrightarrow> gh_lookup b k = Some w \<longrightarrow>
      bm_gvalues_compare gt v w = 0 \<and> bm_gvalues_compare gt w v = 0"
  shows "bm_gvalues_compare gt (GMap T_STRING t (Some a)) (GMap T_STRING t (Some b)) = 1 \<and>
    bm_gvalues_compare gt (GMap T_STRING t (Some b)) (GMap T_STRING t (Some a)) = 1"
proof -
  have one: "compare_map_items gt x y \<in> {0, 1}"
    if "\<forall>(k, v) \<in> set x. \<forall>w. gh_lookup y k = Some w \<longrightarrow> bm_gvalues_compare gt v w = 0" for x y
    using that by (induction x) (auto split: option.splits)
  have "compare_map_items gt a b \<in> {0, 1}" "compare_map_items gt b a \<in> {0, 1}"
    using assms(5) by (safe intro!: one) (auto simp: ght.entries_look [OF assms(1)] ght.entries_look [OF assms(2)])
  moreover have "compare_map_items gt a b \<noteq> 0" "compare_map_items gt b a \<noteq> 0"
    using compare_maps_eq_0 [OF assms(1,2), of gt] compare_maps_eq_0 [OF assms(2,1), of gt] assms(3,4)
    by auto
  ultimately show ?thesis
    using assms(3) by (auto simp: compare_boxed_eqs null_order_def)
qed

theorem gvalues_compare_maps_both_greater_witness:
  "bm_gvalues_compare (\<lambda>_. 0) (GMap T_STRING T_STRING (Some [(''key1'', GString (Some ''hello''))]))
     (GMap T_STRING T_STRING (Some [(''key2'', GString (Some ''hello''))])) = 1 \<and>
   bm_gvalues_compare (\<lambda>_. 0) (GMap T_STRING T_STRING (Some [(''key2'', GString (Some ''hello''))]))
     (GMap T_STRING T_STRING (Some [(''key1'', GString (Some ''hello''))])) = 1"
  by (rule gvalues_compare_maps_both_greater) (auto simp: gh_size_def)

text \<open>Two values of a type the comparison does not know always compare as equal, whatever they
  hold, and so do two maps whose keys are not strings.\<close>

theorem gvalues_compare_unknown:
  "bm_gvalues_compare gt (GOther t x) (GOther t y) = 0 \<and>
   (k = T_STRING \<or> bm_gvalues_compare gt (GMap k v (Some m)) (GMap k v (Some n)) = 0)"
proof -
  have "bm_gvalues_compare gt (GOther t x) (GOther t y) = 0"
    by (subst bm_gvalues_compare.simps) simp
  then show ?thesis
    by (auto simp: compare_boxed_eqs null_order_def)
qed

end
