(* ===== verification/Setting_Classes.thy ===== *)
theory Setting_Classes
  imports GValue_Compare
begin

text \<open>
  The three setting classes of libbm-util, \<^verbatim>\<open>bm-setting-connection.c\<close>, \<^verbatim>\<open>bm-setting-bluetooth.c\<close>
  and \<^verbatim>\<open>bm-setting-serial.c\<close> under \<^verbatim>\<open>src/barcode-manager/libbm-util\<close>: their private data, the
  property tables their \<^verbatim>\<open>class_init\<close> functions install, their property accessors and their
  \<^verbatim>\<open>verify\<close> methods.  A setting object is the record \<open>setting\<close>: the name of the base class and
  the private data of one class.  The interface \<open>property_object\<close> states what the generic code
  in \<open>Setting\<close> relies on.
\<close>

section \<open>Property specifications\<close>

datatype param_kind =
    P_STRING
  | P_BOOLEAN bool
  | P_UINT u32 u32 u32
  | P_UINT64 u64 u64 u64
  | P_CHAR "8 word" "8 word" "8 word"
  | P_SPECIALIZED gtype

text \<open>The flags the sources combine; every property is readable and writable.\<close>

record param_spec =
  ps_name :: string
  ps_kind :: param_kind
  ps_construct :: bool
  ps_serialize :: bool
  ps_fuzzy_ignore :: bool
  ps_secret :: bool

fun kind_type :: "param_kind \<Rightarrow> gtype" where
  "kind_type P_STRING = T_STRING"
| "kind_type (P_BOOLEAN _) = T_BOOLEAN"
| "kind_type (P_UINT _ _ _) = T_UINT"
| "kind_type (P_UINT64 _ _ _) = T_UINT64"
| "kind_type (P_CHAR _ _ _) = T_CHAR"
| "kind_type (P_SPECIALIZED t) = t"

definition ps_type :: "param_spec \<Rightarrow> gtype" where
  "ps_type ps = kind_type (ps_kind ps)"

datatype setting_class =
    BM_TYPE_SETTING_CONNECTION | BM_TYPE_SETTING_BLUETOOTH | BM_TYPE_SETTING_SERIAL

section \<open>Private data\<close>

record connection_priv =
  con_id :: cstr
  con_uuid :: cstr
  con_type :: cstr
  con_autoconnect :: bool
  con_timestamp :: u64
  con_read_only :: bool

record bluetooth_priv =
  bt_bdaddr :: "u8 list option"
  bt_type :: cstr

record serial_priv =
  ser_baud :: u32
  ser_bits :: u32
  ser_parity :: "8 word"
  ser_stopbits :: u32
  ser_send_delay :: u64

datatype setting_priv =
    Connection_Priv connection_priv
  | Bluetooth_Priv bluetooth_priv
  | Serial_Priv serial_priv

record setting =
  set_name :: cstr
  set_priv :: setting_priv

fun priv_class :: "setting_priv \<Rightarrow> setting_class" where
  "priv_class (Connection_Priv _) = BM_TYPE_SETTING_CONNECTION"
| "priv_class (Bluetooth_Priv _) = BM_TYPE_SETTING_BLUETOOTH"
| "priv_class (Serial_Priv _) = BM_TYPE_SETTING_SERIAL"

definition object_type :: "setting \<Rightarrow> setting_class" where
  "object_type s = priv_class (set_priv s)"

section \<open>Property tables\<close>

definition setting_properties :: "param_spec list" where
  "setting_properties =
    [\<lparr>ps_name = ''name'', ps_kind = P_STRING, ps_construct = False, ps_serialize = False,
      ps_fuzzy_ignore = False, ps_secret = False\<rparr>]"

definition connection_properties :: "param_spec list" where
  "connection_properties =
    [\<lparr>ps_name = ''id'', ps_kind = P_STRING, ps_construct = False, ps_serialize = True,
      ps_fuzzy_ignore = True, ps_secret = False\<rparr>,
     \<lparr>ps_name = ''uuid'', ps_kind = P_STRING, ps_construct = False, ps_serialize = True,
      ps_fuzzy_ignore = True, ps_secret = False\<rparr>,
     \<lparr>ps_name = ''type'', ps_kind = P_STRING, ps_construct = False, ps_serialize = True,
      ps_fuzzy_ignore = False, ps_secret = False\<rparr>,
     \<lparr>ps_name = ''autoconnect'', ps_kind = P_BOOLEAN True, ps_construct = True, ps_serialize = True,
      ps_fuzzy_ignore = True, ps_secret = False\<rparr>,
     \<lparr>ps_name = ''timestamp'', ps_kind = P_UINT64 0 0xFFFFFFFFFFFFFFFF 0, ps_construct = True,
      ps_serialize = True, ps_fuzzy_ignore = True, ps_secret = False\<rparr>,
     \<lparr>ps_name = ''read-only'', ps_kind = P_BOOLEAN False, ps_construct = True, ps_serialize = True,
      ps_fuzzy_ignore = True, ps_secret = False\<rparr>]"

definition bluetooth_properties :: "param_spec list" where
  "bluetooth_properties =
    [\<lparr>ps_name = ''bdaddr'', ps_kind = P_SPECIALIZED (T_COLLECTION T_UCHAR), ps_construct = False,
      ps_serialize = True, ps_fuzzy_ignore = False, ps_secret = False\<rparr>,
     \<lparr>ps_name = ''type'', ps_kind = P_STRING, ps_construct = False, ps_serialize = True,
      ps_fuzzy_ignore = False, ps_secret = False\<rparr>]"

definition serial_properties :: "param_spec list" where
  "serial_properties =
    [\<lparr>ps_name = ''baud'', ps_kind = P_UINT 0 0xFFFFFFFF 57600, ps_construct = True, ps_serialize = True,
      ps_fuzzy_ignore = False, ps_secret = False\<rparr>,
     \<lparr>ps_name = ''bits'', ps_kind = P_UINT 5 8 8, ps_construct = True, ps_serialize = True,
      ps_fuzzy_ignore = False, ps_secret = False\<rparr>,
     \<lparr>ps_name = ''parity'', ps_kind = P_CHAR 69 111 110, ps_construct = True, ps_serialize = True,
      ps_fuzzy_ignore = False, ps_secret = False\<rparr>,
     \<lparr>ps_name = ''stopbits'', ps_kind = P_UINT 1 2 1, ps_construct = True, ps_serialize = True,
      ps_fuzzy_ignore = False, ps_secret = False\<rparr>,
     \<lparr>ps_name = ''send-delay'', ps_kind = P_UINT64 0 0xFFFFFFFFFFFFFFFF 0, ps_construct = True,
      ps_serialize = True, ps_fuzzy_ignore = False, ps_secret = False\<rparr>]"

text \<open>\<^verbatim>\<open>g_object_class_list_properties\<close>: the inherited property first.\<close>

fun class_properties :: "setting_class \<Rightarrow> param_spec list" where
  "class_properties BM_TYPE_SETTING_CONNECTION = setting_properties @ connection_properties"
| "class_properties BM_TYPE_SETTING_BLUETOOTH = setting_properties @ bluetooth_properties"
| "class_properties BM_TYPE_SETTING_SERIAL = setting_properties @ serial_properties"

definition find_property :: "setting_class \<Rightarrow> string \<Rightarrow> param_spec option" where
  "find_property cls n = find (\<lambda>ps. ps_name ps = n) (class_properties cls)"

section \<open>Property accessors\<close>

text \<open>The \<^verbatim>\<open>get_property\<close> methods; \<open>None\<close> is an unknown property.\<close>

definition connection_get_property :: "connection_priv \<Rightarrow> string \<Rightarrow> gvalue option" where
  "connection_get_property p n =
     (if n = ''id'' then Some (GString (con_id p))
      else if n = ''uuid'' then Some (GString (con_uuid p))
      else if n = ''type'' then Some (GString (con_type p))
      else if n = ''autoconnect'' then Some (GBoolean (con_autoconnect p))
      else if n = ''timestamp'' then Some (GUInt64 (con_timestamp p))
      else if n = ''read-only'' then Some (GBoolean (con_read_only p))
      else None)"

definition bluetooth_get_property :: "bluetooth_priv \<Rightarrow> string \<Rightarrow> gvalue option" where
  "bluetooth_get_property p n =
     (if n = ''bdaddr'' then Some (GCollection T_UCHAR (map_option (map GUChar) (bt_bdaddr p)))
      else if n = ''type'' then Some (GString (bt_type p))
      else None)"

definition serial_get_property :: "serial_priv \<Rightarrow> string \<Rightarrow> gvalue option" where
  "serial_get_property p n =
     (if n = ''baud'' then Some (GUInt (ser_baud p))
      else if n = ''bits'' then Some (GUInt (ser_bits p))
      else if n = ''parity'' then Some (GChar (ser_parity p))
      else if n = ''stopbits'' then Some (GUInt (ser_stopbits p))
      else if n = ''send-delay'' then Some (GUInt64 (ser_send_delay p))
      else None)"

text \<open>The \<^verbatim>\<open>set_property\<close> methods; GLib hands them a value of the property's type.\<close>

fun value_string :: "gvalue \<Rightarrow> cstr" where
  "value_string (GString s) = s" | "value_string _ = None"

fun value_boolean :: "gvalue \<Rightarrow> bool" where
  "value_boolean (GBoolean b) = b" | "value_boolean _ = False"

fun value_uint :: "gvalue \<Rightarrow> u32" where
  "value_uint (GUInt w) = w" | "value_uint _ = 0"

fun value_uint64 :: "gvalue \<Rightarrow> u64" where
  "value_uint64 (GUInt64 w) = w" | "value_uint64 _ = 0"

fun value_char :: "gvalue \<Rightarrow> 8 word" where
  "value_char (GChar w) = w" | "value_char _ = 0"

fun value_uchar :: "gvalue \<Rightarrow> u8" where
  "value_uchar (GUChar w) = w" | "value_uchar _ = 0"

fun value_byte_array :: "gvalue \<Rightarrow> u8 list option" where
  "value_byte_array (GCollection _ (Some xs)) = Some (map value_uchar xs)"
| "value_byte_array _ = None"

definition connection_set_property :: "connection_priv \<Rightarrow> string \<Rightarrow> gvalue \<Rightarrow> connection_priv" where
  "connection_set_property p n v =
     (if n = ''id'' then p\<lparr>con_id := value_string v\<rparr>
      else if n = ''uuid'' then p\<lparr>con_uuid := value_string v\<rparr>
      else if n = ''type'' then p\<lparr>con_type := value_string v\<rparr>
      else if n = ''autoconnect'' then p\<lparr>con_autoconnect := value_boolean v\<rparr>
      else if n = ''timestamp'' then p\<lparr>con_timestamp := value_uint64 v\<rparr>
      else if n = ''read-only'' then p\<lparr>con_read_only := value_boolean v\<rparr>
      else p)"

definition bluetooth_set_property :: "bluetooth_priv \<Rightarrow> string \<Rightarrow> gvalue \<Rightarrow> bluetooth_priv" where
  "bluetooth_set_property p n v =
     (if n = ''bdaddr'' then p\<lparr>bt_bdaddr := value_byte_array v\<rparr>
      else if n = ''type'' then p\<lparr>bt_type := value_string v\<rparr>
      else p)"

definition serial_set_property :: "serial_priv \<Rightarrow> string \<Rightarrow> gvalue \<Rightarrow> serial_priv" where
  "serial_set_property p n v =
     (if n = ''baud'' then p\<lparr>ser_baud := value_uint v\<rparr>
      else if n = ''bits'' then p\<lparr>ser_bits := value_uint v\<rparr>
      else if n = ''parity'' then p\<lparr>ser_parity := value_char v\<rparr>
      else if n = ''stopbits'' then p\<lparr>ser_stopbits := value_uint v\<rparr>
      else if n = ''send-delay'' then p\<lparr>ser_send_delay := value_uint64 v\<rparr>
      else p)"

text \<open>The base class handles \<^verbatim>\<open>name\<close>, the object's own class the rest.\<close>

fun priv_get_property :: "setting_priv \<Rightarrow> string \<Rightarrow> gvalue option" where
  "priv_get_property (Connection_Priv p) n = connection_get_property p n"
| "priv_get_property (Bluetooth_Priv p) n = bluetooth_get_property p n"
| "priv_get_property (Serial_Priv p) n = serial_get_property p n"

fun priv_set_property :: "setting_priv \<Rightarrow> string \<Rightarrow> gvalue \<Rightarrow> setting_priv" where
  "priv_set_property (Connection_Priv p) n v = Connection_Priv (connection_set_property p n v)"
| "priv_set_property (Bluetooth_Priv p) n v = Bluetooth_Priv (bluetooth_set_property p n v)"
| "priv_set_property (Serial_Priv p) n v = Serial_Priv (serial_set_property p n v)"

definition setting_get_property :: "setting \<Rightarrow> string \<Rightarrow> gvalue option" where
  "setting_get_property s n =
     (if n = ''name'' then Some (GString (set_name s)) else priv_get_property (set_priv s) n)"

definition setting_set_property :: "setting \<Rightarrow> string \<Rightarrow> gvalue \<Rightarrow> setting" where
  "setting_set_property s n v =
     (if n = ''name'' then s\<lparr>set_name := value_string v\<rparr>
      else s\<lparr>set_priv := priv_set_property (set_priv s) n v\<rparr>)"

section \<open>Accessors\<close>

text \<open>The classes' public getters.\<close>

definition bm_setting_connection_get_id :: "connection_priv \<Rightarrow> cstr" where
  "bm_setting_connection_get_id p = con_id p"

definition bm_setting_connection_get_uuid :: "connection_priv \<Rightarrow> cstr" where
  "bm_setting_connection_get_uuid p = con_uuid p"

definition bm_setting_connection_get_connection_type :: "connection_priv \<Rightarrow> cstr" where
  "bm_setting_connection_get_connection_type p = con_type p"

definition bm_setting_connection_get_autoconnect :: "connection_priv \<Rightarrow> bool" where
  "bm_setting_connection_get_autoconnect p = con_autoconnect p"

definition bm_setting_connection_get_timestamp :: "connection_priv \<Rightarrow> u64" where
  "bm_setting_connection_get_timestamp p = con_timestamp p"

definition bm_setting_connection_get_read_only :: "connection_priv \<Rightarrow> bool" where
  "bm_setting_connection_get_read_only p = con_read_only p"

definition bm_setting_bluetooth_get_connection_type :: "bluetooth_priv \<Rightarrow> cstr" where
  "bm_setting_bluetooth_get_connection_type p = bt_type p"

definition bm_setting_bluetooth_get_bdaddr :: "bluetooth_priv \<Rightarrow> u8 list option" where
  "bm_setting_bluetooth_get_bdaddr p = bt_bdaddr p"

definition bm_setting_serial_get_baud :: "serial_priv \<Rightarrow> u32" where
  "bm_setting_serial_get_baud p = ser_baud p"

definition bm_setting_serial_get_bits :: "serial_priv \<Rightarrow> u32" where
  "bm_setting_serial_get_bits p = ser_bits p"

definition bm_setting_serial_get_parity :: "serial_priv \<Rightarrow> 8 word" where
  "bm_setting_serial_get_parity p = ser_parity p"

definition bm_setting_serial_get_stopbits :: "serial_priv \<Rightarrow> u32" where
  "bm_setting_serial_get_stopbits p = ser_stopbits p"

definition bm_setting_serial_get_send_delay :: "serial_priv \<Rightarrow> u64" where
  "bm_setting_serial_get_send_delay p = ser_send_delay p"

section \<open>Construction and verification\<close>

text \<open>The freshly allocated private data, all zero, and the name the instance initialiser sets.\<close>

fun class_name :: "setting_class \<Rightarrow> string" where
  "class_name BM_TYPE_SETTING_CONNECTION = ''connection''"
| "class_name BM_TYPE_SETTING_BLUETOOTH = ''bluetooth''"
| "class_name BM_TYPE_SETTING_SERIAL = ''serial''"

fun zero_priv :: "setting_class \<Rightarrow> setting_priv" where
  "zero_priv BM_TYPE_SETTING_CONNECTION = Connection_Priv
     \<lparr>con_id = None, con_uuid = None, con_type = None, con_autoconnect = False, con_timestamp = 0,
      con_read_only = False\<rparr>"
| "zero_priv BM_TYPE_SETTING_BLUETOOTH = Bluetooth_Priv \<lparr>bt_bdaddr = None, bt_type = None\<rparr>"
| "zero_priv BM_TYPE_SETTING_SERIAL = Serial_Priv
     \<lparr>ser_baud = 0, ser_bits = 0, ser_parity = 0, ser_stopbits = 0, ser_send_delay = 0\<rparr>"

definition setting_instance_init :: "setting_class \<Rightarrow> setting" where
  "setting_instance_init cls = \<lparr>set_name = Some (class_name cls), set_priv = zero_priv cls\<rparr>"

datatype setting_error_code = INVALID_PROPERTY | MISSING_PROPERTY | TYPE_SETTING_NOT_FOUND

text \<open>The error domains of the program that reach a connection, each with its code and message.\<close>

datatype bm_error =
    BM_SETTING_CONNECTION_ERROR setting_error_code string
  | BM_SETTING_BLUETOOTH_ERROR setting_error_code string
  | BM_SETTING_ERROR_PROPERTY_NOT_FOUND string
  | BM_SETTING_ERROR_PROPERTY_TYPE_MISMATCH string
  | BM_CONNECTION_ERROR_CONNECTION_SETTING_NOT_FOUND string

definition find_setting_by_name :: "setting list \<Rightarrow> string \<Rightarrow> setting option" where
  "find_setting_by_name ss n = find (\<lambda>s. set_name s = Some n) ss"

definition validate_uuid :: "cstr \<Rightarrow> bool" where
  "validate_uuid uuid =
     (case uuid of None \<Rightarrow> False
      | Some u \<Rightarrow> u \<noteq> [] \<and> list_all (\<lambda>c. isxdigit c \<or> c = CHR ''-'') u)"

definition connection_verify :: "connection_priv \<Rightarrow> setting list \<Rightarrow> bm_error + unit" where
  "connection_verify p all_settings =
     (if con_id p = None then Inl (BM_SETTING_CONNECTION_ERROR MISSING_PROPERTY ''id'')
      else if con_id p = Some [] then Inl (BM_SETTING_CONNECTION_ERROR INVALID_PROPERTY ''id'')
      else if con_uuid p = None then Inl (BM_SETTING_CONNECTION_ERROR MISSING_PROPERTY ''uuid'')
      else if \<not> validate_uuid (con_uuid p) then Inl (BM_SETTING_CONNECTION_ERROR INVALID_PROPERTY ''uuid'')
      else (case con_type p of
              None \<Rightarrow> Inl (BM_SETTING_CONNECTION_ERROR MISSING_PROPERTY ''type'')
            | Some t \<Rightarrow>
                if t = [] then Inl (BM_SETTING_CONNECTION_ERROR INVALID_PROPERTY ''type'')
                else if all_settings \<noteq> [] \<and> find_setting_by_name all_settings t = None
                then Inl (BM_SETTING_CONNECTION_ERROR TYPE_SETTING_NOT_FOUND ''type'')
                else Inr ()))"

definition bluetooth_verify :: "bluetooth_priv \<Rightarrow> setting list \<Rightarrow> bm_error + unit" where
  "bluetooth_verify p all_settings =
     (if bt_bdaddr p = None then Inl (BM_SETTING_BLUETOOTH_ERROR MISSING_PROPERTY ''bdaddr'')
      else (case bt_type p of
              None \<Rightarrow> Inl (BM_SETTING_BLUETOOTH_ERROR MISSING_PROPERTY ''type'')
            | Some t \<Rightarrow>
                if t \<noteq> ''dun'' \<and> t \<noteq> ''panu''
                then Inl (BM_SETTING_BLUETOOTH_ERROR INVALID_PROPERTY ''type'')
                else Inr ()))"

definition serial_verify :: "serial_priv \<Rightarrow> setting list \<Rightarrow> bm_error + unit" where
  "serial_verify p all_settings = Inr ()"

fun priv_verify :: "setting_priv \<Rightarrow> setting list \<Rightarrow> bm_error + unit" where
  "priv_verify (Connection_Priv p) ss = connection_verify p ss"
| "priv_verify (Bluetooth_Priv p) ss = bluetooth_verify p ss"
| "priv_verify (Serial_Priv p) ss = serial_verify p ss"

lemmas property_table_defs =
  setting_properties_def connection_properties_def bluetooth_properties_def serial_properties_def

lemmas property_access_defs =
  connection_get_property_def bluetooth_get_property_def serial_get_property_def
  connection_set_property_def bluetooth_set_property_def serial_set_property_def
  setting_get_property_def setting_set_property_def

section \<open>Objects with typed properties\<close>

text \<open>What the generic code relies on: a property set to a value of its type reads back, the other
  properties do not change, and the properties determine the object.\<close>

definition typed_value :: "param_spec \<Rightarrow> gvalue \<Rightarrow> bool" where
  "typed_value ps v \<longleftrightarrow> g_value_type v = ps_type ps \<and> gvalue_ok v"

locale property_object =
  fixes props :: "'c \<Rightarrow> param_spec list"
    and cls_of :: "'o \<Rightarrow> 'c"
    and getp :: "'o \<Rightarrow> string \<Rightarrow> gvalue option"
    and setp :: "'o \<Rightarrow> string \<Rightarrow> gvalue \<Rightarrow> 'o"
  assumes distinct_names: "distinct (map ps_name (props c))"
    and cls_setp: "cls_of (setp s n v) = cls_of s"
    and getp_other: "m \<noteq> n \<Longrightarrow> getp (setp s n v) m = getp s m"
    and getp_same: "ps \<in> set (props (cls_of s)) \<Longrightarrow> typed_value ps v \<Longrightarrow>
      getp (setp s (ps_name ps) v) (ps_name ps) = Some v"
    and getp_typed: "ps \<in> set (props (cls_of s)) \<Longrightarrow>
      \<exists>v. getp s (ps_name ps) = Some v \<and> typed_value ps v"
    and getp_ext: "cls_of s = cls_of t \<Longrightarrow>
      (\<And>ps. ps \<in> set (props (cls_of s)) \<Longrightarrow> getp s (ps_name ps) = getp t (ps_name ps)) \<Longrightarrow> s = t"
begin

lemma names_inj:
  "ps \<in> set (props c) \<Longrightarrow> qs \<in> set (props c) \<Longrightarrow> ps_name ps = ps_name qs \<longleftrightarrow> ps = qs"
  using distinct_names [of c] by (auto simp: distinct_map inj_on_def)

lemma cls_assign: "cls_of (foldl (\<lambda>s (n, v). setp s n v) s kvs) = cls_of s"
  by (induction kvs arbitrary: s) (auto simp: cls_setp)

lemma getp_assign:
  assumes "\<And>n v. (n, v) \<in> set kvs \<Longrightarrow> \<exists>ps \<in> set (props (cls_of s)). ps_name ps = n \<and> typed_value ps v"
    and "distinct (map fst kvs)"
  shows "getp (foldl (\<lambda>s (n, v). setp s n v) s kvs) m =
    (case map_of kvs m of Some v \<Rightarrow> Some v | None \<Rightarrow> getp s m)"
  using assms
proof (induction kvs arbitrary: s)
  case (Cons kv kvs)
  obtain n v where kv: "kv = (n, v)"
    by (cases kv)
  obtain ps where ps: "ps \<in> set (props (cls_of s))" "ps_name ps = n" "typed_value ps v"
    using Cons.prems(1) [of n v] kv by auto
  have IH: "getp (foldl (\<lambda>s (n, v). setp s n v) (setp s n v) kvs) m =
      (case map_of kvs m of Some v \<Rightarrow> Some v | None \<Rightarrow> getp (setp s n v) m)"
    using Cons.prems by (intro Cons.IH) (auto simp: cls_setp)
  have "n \<notin> fst ` set kvs"
    using Cons.prems(2) kv by simp
  then show ?case
    using IH getp_same [OF ps(1) ps(3)] ps(2)
    by (cases "m = n") (auto simp: kv getp_other map_of_eq_None_iff [symmetric] split: option.splits)
qed simp

text \<open>Assigning every property of another object of the same type gives that object.\<close>

lemma assign_copy:
  assumes "cls_of s = cls_of t" "map_of kvs = (\<lambda>n. if n \<in> ps_name ` set (props (cls_of t)) then getp t n else None)"
    and "distinct (map fst kvs)"
  shows "foldl (\<lambda>s (n, v). setp s n v) s kvs = t"
proof (rule getp_ext)
  show "cls_of (foldl (\<lambda>s (n, v). setp s n v) s kvs) = cls_of t"
    by (simp add: cls_assign assms(1))
  have typed: "\<exists>ps \<in> set (props (cls_of s)). ps_name ps = n \<and> typed_value ps v" if "(n, v) \<in> set kvs" for n v
  proof -
    have "map_of kvs n = Some v"
      using that assms(3) by simp
    then obtain ps where "ps \<in> set (props (cls_of t))" "ps_name ps = n" "getp t n = Some v"
      by (auto simp: assms(2) split: if_splits)
    then show ?thesis
      using getp_typed [of ps t] assms(1) by auto
  qed
  show "getp (foldl (\<lambda>s (n, v). setp s n v) s kvs) (ps_name ps) = getp t (ps_name ps)"
    if "ps \<in> set (props (cls_of (foldl (\<lambda>s (n, v). setp s n v) s kvs)))" for ps
    using that getp_typed [of ps t] assms(1)
    by (auto simp: getp_assign [OF typed assms(3)] assms(2) cls_assign)
qed

end

lemma collection_uchar_values:
  "list_all (\<lambda>x. g_value_type x = T_UCHAR) xs \<Longrightarrow> map (\<lambda>x. GUChar (value_uchar x)) xs = xs"
proof (induction xs)
  case (Cons x xs)
  then show ?case by (cases x) auto
qed simp

lemma priv_class_set [simp]: "priv_class (priv_set_property p n v) = priv_class p"
  by (cases p) auto

lemma object_type_set: "object_type (setting_set_property s n v) = object_type s"
  by (simp add: object_type_def setting_set_property_def)

lemma get_set_other:
  "m \<noteq> n \<Longrightarrow> setting_get_property (setting_set_property s n v) m = setting_get_property s m"
  by (cases "set_priv s") (auto simp: property_access_defs)

text \<open>A value of the right type is what its reader takes out of it.\<close>

lemma read_back:
  "g_value_type v = T_STRING \<Longrightarrow> GString (value_string v) = v"
  "g_value_type v = T_BOOLEAN \<Longrightarrow> GBoolean (value_boolean v) = v"
  "g_value_type v = T_UINT \<Longrightarrow> GUInt (value_uint v) = v"
  "g_value_type v = T_UINT64 \<Longrightarrow> GUInt64 (value_uint64 v) = v"
  "g_value_type v = T_CHAR \<Longrightarrow> GChar (value_char v) = v"
  by (cases v; simp)+

lemma read_back_bytes:
  assumes "g_value_type v = T_COLLECTION T_UCHAR" "gvalue_ok v"
  shows "GCollection T_UCHAR (map_option (map GUChar) (value_byte_array v)) = v"
proof -
  obtain x where v: "v = GCollection T_UCHAR x"
    using assms(1) by (cases v) auto
  show ?thesis
  proof (cases x)
    case (Some xs)
    then have "list_all (\<lambda>x. g_value_type x = T_UCHAR) xs"
      using assms(2) v by simp
    then show ?thesis
      by (simp add: v Some comp_def collection_uchar_values)
  qed (simp add: v)
qed

lemma get_set_same:
  assumes "ps \<in> set (class_properties (object_type s))" "typed_value ps v"
  shows "setting_get_property (setting_set_property s (ps_name ps) v) (ps_name ps) = Some v"
  using assms
  by (cases "set_priv s")
     (auto simp: object_type_def property_table_defs property_access_defs typed_value_def ps_type_def
        read_back read_back_bytes)

lemma gvalue_ok_bytes [simp]: "gvalue_ok (GCollection T_UCHAR (map_option (map GUChar) x))"
  by (cases x) (auto simp: list_all_iff)

lemma get_typed:
  assumes "ps \<in> set (class_properties (object_type s))"
  shows "\<exists>v. setting_get_property s (ps_name ps) = Some v \<and> typed_value ps v"
  using assms
  by (cases "set_priv s")
     (auto simp: object_type_def property_table_defs property_access_defs typed_value_def ps_type_def)

lemma uchar_bytes_inj: "map_option (map GUChar) x = map_option (map GUChar) y \<longleftrightarrow> x = y"
  by (cases x; cases y) (auto simp: inj_map_eq_map inj_def)

lemma properties_determine:
  assumes "object_type s = object_type t"
    and "\<And>ps. ps \<in> set (class_properties (object_type s)) \<Longrightarrow>
      setting_get_property s (ps_name ps) = setting_get_property t (ps_name ps)"
  shows "s = t"
proof -
  have "list_all (\<lambda>ps. setting_get_property s (ps_name ps) = setting_get_property t (ps_name ps))
      (class_properties (object_type s))"
    using assms(2) by (simp add: list_all_iff)
  with assms(1) show ?thesis
    by (cases "set_priv s"; cases "set_priv t")
       (auto simp: object_type_def property_table_defs property_access_defs uchar_bytes_inj
          intro!: setting.equality connection_priv.equality bluetooth_priv.equality serial_priv.equality)
qed

lemma class_properties_distinct: "distinct (map ps_name (class_properties c))"
  by (cases c) (simp_all add: property_table_defs)

interpretation po: property_object
  class_properties object_type setting_get_property setting_set_property
  by unfold_locales
     (simp_all add: class_properties_distinct object_type_set get_set_other get_set_same get_typed,
      rule properties_determine, simp_all)

end
