(* ===== verification/Setting.thy ===== *)
theory Setting
  imports Setting_Classes
begin

text \<open>
  The generic setting operations, \<^verbatim>\<open>src/barcode-manager/libbm-util/bm-setting.c\<close>: serialising a
  setting to a hash table and back, duplicating, comparing and diffing two settings, and the
  handling of secrets.  \<open>gt\<close> is the numbering of GLib's types (see \<open>GValue_Compare\<close>); \<open>tr\<close> is
  GLib's \<^verbatim>\<open>g_value_transform\<close> between two different types, whose registry is not the program's:
  \<open>tr v t = None\<close> when GLib cannot turn \<open>v\<close> into a \<open>t\<close>.
\<close>

type_synonym numbering = "gtype \<Rightarrow> nat"
type_synonym transform = "gvalue \<Rightarrow> gtype \<Rightarrow> gvalue option"

section \<open>The property system of GObject\<close>

fun zero_value :: "gtype \<Rightarrow> gvalue" where
  "zero_value T_CHAR = GChar 0"
| "zero_value T_UCHAR = GUChar 0"
| "zero_value T_BOOLEAN = GBoolean False"
| "zero_value T_INT = GInt 0"
| "zero_value T_UINT = GUInt 0"
| "zero_value T_LONG = GLong 0"
| "zero_value T_ULONG = GULong 0"
| "zero_value T_INT64 = GInt64 0"
| "zero_value T_UINT64 = GUInt64 0"
| "zero_value T_STRING = GString None"
| "zero_value T_STRV = GStrv None"
| "zero_value (T_COLLECTION t) = GCollection t None"
| "zero_value (T_MAP k v) = GMap k v None"
| "zero_value T_IP6_ADDRESS = GIp6Address None"
| "zero_value T_IP6_ROUTE = GIp6Route None"
| "zero_value T_VALUE = GValueBox None"
| "zero_value (T_OTHER n) = GOther n 0"

text \<open>\<^verbatim>\<open>param_specialized_set_default\<close> stores a \<^verbatim>\<open>NULL\<close> pointer.\<close>

fun kind_default :: "param_kind \<Rightarrow> gvalue" where
  "kind_default P_STRING = GString None"
| "kind_default (P_BOOLEAN d) = GBoolean d"
| "kind_default (P_UINT _ _ d) = GUInt d"
| "kind_default (P_UINT64 _ _ d) = GUInt64 d"
| "kind_default (P_CHAR _ _ d) = GChar d"
| "kind_default (P_SPECIALIZED t) = zero_value t"

definition ps_default :: "param_spec \<Rightarrow> gvalue" where
  "ps_default ps = kind_default (ps_kind ps)"

text \<open>\<^verbatim>\<open>g_param_value_validate\<close> leaves the value alone; \<^verbatim>\<open>param_specialized_validate\<close> only resets a
  value of an incompatible type.\<close>

fun kind_validates :: "param_kind \<Rightarrow> gvalue \<Rightarrow> bool" where
  "kind_validates (P_UINT lo hi _) v = (lo \<le> value_uint v \<and> value_uint v \<le> hi)"
| "kind_validates (P_UINT64 lo hi _) v = (lo \<le> value_uint64 v \<and> value_uint64 v \<le> hi)"
| "kind_validates (P_CHAR lo hi _) v =
     (sint lo \<le> sint (value_char v) \<and> sint (value_char v) \<le> sint hi)"
| "kind_validates (P_SPECIALIZED t) v = (g_value_type v = t)"
| "kind_validates _ v = True"

text \<open>\<^verbatim>\<open>g_param_values_cmp\<close>, with \<^verbatim>\<open>param_specialized_values_cmp\<close> for the specialised kind.\<close>

definition param_values_cmp :: "numbering \<Rightarrow> param_spec \<Rightarrow> gvalue \<Rightarrow> gvalue \<Rightarrow> int" where
  "param_values_cmp gt ps a b =
     (case ps_kind ps of
        P_STRING \<Rightarrow>
          (case (value_string a, value_string b) of
             (None, None) \<Rightarrow> 0 | (None, Some _) \<Rightarrow> -1 | (Some _, None) \<Rightarrow> 1
           | (Some x, Some y) \<Rightarrow> strcmp x y)
      | P_BOOLEAN _ \<Rightarrow> cmp3 (value_boolean a) (value_boolean b)
      | P_UINT _ _ _ \<Rightarrow> cmp3 (value_uint a) (value_uint b)
      | P_UINT64 _ _ _ \<Rightarrow> cmp3 (value_uint64 a) (value_uint64 b)
      | P_CHAR _ _ _ \<Rightarrow> cmp3 (sint (value_char a)) (sint (value_char b))
      | P_SPECIALIZED _ \<Rightarrow> bm_gvalues_compare gt a b)"

definition param_value_defaults :: "numbering \<Rightarrow> param_spec \<Rightarrow> gvalue \<Rightarrow> bool" where
  "param_value_defaults gt ps v = (param_values_cmp gt ps v (ps_default ps) = 0)"

definition coerce :: "transform \<Rightarrow> gvalue \<Rightarrow> gtype \<Rightarrow> gvalue option" where
  "coerce tr v t = (if g_value_type v = t then Some v else tr v t)"

text \<open>\<^verbatim>\<open>g_object_get_property\<close> and \<^verbatim>\<open>g_object_set_property\<close>: GLib refuses, with a warning, a value it
  cannot transform or that fails validation.\<close>

definition g_object_get_property :: "setting \<Rightarrow> param_spec \<Rightarrow> gvalue" where
  "g_object_get_property s ps =
     (case setting_get_property s (ps_name ps) of Some v \<Rightarrow> v | None \<Rightarrow> zero_value (ps_type ps))"

definition g_object_set_property :: "transform \<Rightarrow> setting \<Rightarrow> param_spec \<Rightarrow> gvalue \<Rightarrow> setting" where
  "g_object_set_property tr s ps v =
     (case coerce tr v (ps_type ps) of
        None \<Rightarrow> s
      | Some w \<Rightarrow> if kind_validates (ps_kind ps) w then setting_set_property s (ps_name ps) w else s)"

text \<open>\<^verbatim>\<open>g_object_newv\<close>: the instance initialiser, then every construct property (from the
  parameters or at its default), then the remaining parameters; last, the \<^verbatim>\<open>constructor\<close> of
  \<^verbatim>\<open>BMSetting\<close>, which gives up an object without a name.\<close>

definition construct_step :: "transform \<Rightarrow> (string \<times> gvalue) list \<Rightarrow> setting \<Rightarrow> param_spec \<Rightarrow> setting" where
  "construct_step tr params s ps =
     (if ps_construct ps
      then g_object_set_property tr s ps
             (case map_of params (ps_name ps) of Some v \<Rightarrow> v | None \<Rightarrow> ps_default ps)
      else s)"

definition param_step :: "transform \<Rightarrow> setting_class \<Rightarrow> setting \<Rightarrow> string \<times> gvalue \<Rightarrow> setting" where
  "param_step tr cls s nv =
     (case find_property cls (fst nv) of
        None \<Rightarrow> s
      | Some ps \<Rightarrow> if ps_construct ps then s else g_object_set_property tr s ps (snd nv))"

definition setting_constructor :: "setting \<Rightarrow> setting option" where
  "setting_constructor s = (if set_name s = None then None else Some s)"

definition g_object_newv :: "transform \<Rightarrow> setting_class \<Rightarrow> (string \<times> gvalue) list \<Rightarrow> setting option" where
  "g_object_newv tr cls params =
     setting_constructor
       (foldl (param_step tr cls)
         (foldl (construct_step tr params) (setting_instance_init cls) (class_properties cls))
         params)"

section \<open>Serialising\<close>

definition to_hash_step :: "numbering \<Rightarrow> setting \<Rightarrow> (string, gvalue) ghash \<Rightarrow> param_spec \<Rightarrow> (string, gvalue) ghash" where
  "to_hash_step gt s hash ps =
     (if ps_serialize ps
      then (if \<not> param_value_defaults gt ps (g_object_get_property s ps)
            then gh_insert (ps_name ps) (g_object_get_property s ps) hash else hash)
      else hash)"

definition bm_setting_to_hash :: "numbering \<Rightarrow> setting \<Rightarrow> (string, gvalue) ghash" where
  "bm_setting_to_hash gt s = foldl (to_hash_step gt s) gh_new (class_properties (object_type s))"

text \<open>\<^verbatim>\<open>one_property_cb\<close>: the destination is initialised with the type of the source, so the
  transformation there is a copy and always succeeds.\<close>

definition one_property_cb ::
    "setting_class \<Rightarrow> string \<Rightarrow> gvalue \<Rightarrow> (string \<times> gvalue) list \<Rightarrow> (string \<times> gvalue) list" where
  "one_property_cb cls key val params =
     (case find_property cls key of
        None \<Rightarrow> params
      | Some ps \<Rightarrow> if ps_serialize ps then params @ [(key, val)] else params)"

definition bm_setting_new_from_hash ::
    "transform \<Rightarrow> setting_class \<Rightarrow> (string, gvalue) ghash \<Rightarrow> setting option" where
  "bm_setting_new_from_hash tr cls hash =
     g_object_newv tr cls (gh_foreach (one_property_cb cls) hash [])"

section \<open>Enumerating and duplicating\<close>

definition bm_setting_enumerate_values ::
    "setting \<Rightarrow> (setting \<Rightarrow> param_spec \<Rightarrow> gvalue \<Rightarrow> 'u \<Rightarrow> 'u) \<Rightarrow> 'u \<Rightarrow> 'u" where
  "bm_setting_enumerate_values s func user_data =
     foldl (\<lambda>u ps. func s ps (g_object_get_property s ps) u) user_data (class_properties (object_type s))"

text \<open>Every property is writable.\<close>

definition duplicate_setting :: "transform \<Rightarrow> setting \<Rightarrow> param_spec \<Rightarrow> gvalue \<Rightarrow> setting \<Rightarrow> setting" where
  "duplicate_setting tr s ps value dup = g_object_set_property tr dup ps value"

definition bm_setting_duplicate :: "transform \<Rightarrow> setting \<Rightarrow> setting option" where
  "bm_setting_duplicate tr s =
     (case g_object_newv tr (object_type s) [] of
        None \<Rightarrow> None
      | Some dup \<Rightarrow> Some (bm_setting_enumerate_values s (duplicate_setting tr) dup))"

definition bm_setting_verify :: "setting \<Rightarrow> setting list \<Rightarrow> bm_error + unit" where
  "bm_setting_verify s all_settings = priv_verify (set_priv s) all_settings"

section \<open>Comparing\<close>

definition FLAG_EXACT :: u32 where "FLAG_EXACT = 0"
definition FLAG_FUZZY :: u32 where "FLAG_FUZZY = 1"
definition FLAG_IGNORE_ID :: u32 where "FLAG_IGNORE_ID = 2"
definition FLAG_IGNORE_SECRETS :: u32 where "FLAG_IGNORE_SECRETS = 4"

definition should_compare_prop :: "setting \<Rightarrow> param_spec \<Rightarrow> u32 \<Rightarrow> bool" where
  "should_compare_prop s ps comp_flags =
     (if comp_flags AND FLAG_FUZZY \<noteq> 0 \<and> (ps_fuzzy_ignore ps \<or> ps_secret ps) then False
      else if comp_flags AND FLAG_IGNORE_SECRETS \<noteq> 0 \<and> ps_secret ps then False
      else if comp_flags AND FLAG_IGNORE_ID \<noteq> 0 \<and> object_type s = BM_TYPE_SETTING_CONNECTION
              \<and> ps_name ps = ''id'' then False
      else True)"

fun compare_loop :: "numbering \<Rightarrow> setting \<Rightarrow> setting \<Rightarrow> u32 \<Rightarrow> param_spec list \<Rightarrow> bool" where
  "compare_loop gt a b flags [] = False"
| "compare_loop gt a b flags (ps # pss) =
     (if \<not> should_compare_prop a ps flags then compare_loop gt a b flags pss
      else if param_values_cmp gt ps (g_object_get_property a ps) (g_object_get_property b ps) \<noteq> 0 then True
      else compare_loop gt a b flags pss)"

definition bm_setting_compare :: "numbering \<Rightarrow> setting \<Rightarrow> setting \<Rightarrow> u32 \<Rightarrow> bool" where
  "bm_setting_compare gt a b flags =
     (if object_type a \<noteq> object_type b then False
      else \<not> compare_loop gt a b flags (class_properties (object_type a)))"

section \<open>Diffing\<close>

definition DIFF_UNKNOWN :: u32 where "DIFF_UNKNOWN = 0"
definition DIFF_IN_A :: u32 where "DIFF_IN_A = 1"
definition DIFF_IN_B :: u32 where "DIFF_IN_B = 2"

definition diff_property ::
    "numbering \<Rightarrow> setting \<Rightarrow> setting option \<Rightarrow> u32 \<Rightarrow> u32 \<Rightarrow> param_spec \<Rightarrow> u32 option" where
  "diff_property gt a b a_result b_result ps =
     (case b of
        None \<Rightarrow> Some a_result
      | Some b' \<Rightarrow>
          (let a_value = g_object_get_property a ps; b_value = g_object_get_property b' ps
           in if param_values_cmp gt ps a_value b_value = 0 then None
              else Some (DIFF_UNKNOWN
                OR (if \<not> param_value_defaults gt ps a_value then a_result else 0)
                OR (if \<not> param_value_defaults gt ps b_value then b_result else 0))))"

definition diff_step ::
    "numbering \<Rightarrow> setting \<Rightarrow> setting option \<Rightarrow> u32 \<Rightarrow> u32 \<Rightarrow> u32 \<Rightarrow> (string, u32) ghash \<Rightarrow> param_spec \<Rightarrow>
     (string, u32) ghash" where
  "diff_step gt a b flags a_result b_result results ps =
     (if \<not> should_compare_prop a ps flags then results
      else if ps_name ps = ''name'' then results
      else (case diff_property gt a b a_result b_result ps of
              None \<Rightarrow> results
            | Some r \<Rightarrow>
                (let tmp = (case gh_lookup results (ps_name ps) of None \<Rightarrow> 0 | Some t \<Rightarrow> t)
                 in gh_insert (ps_name ps) (tmp OR r) results)))"

text \<open>The returned flag and the table in \<^verbatim>\<open>*results\<close>; \<open>None\<close> is \<^verbatim>\<open>NULL\<close>.\<close>

definition bm_setting_diff ::
    "numbering \<Rightarrow> setting \<Rightarrow> setting option \<Rightarrow> u32 \<Rightarrow> bool \<Rightarrow> (string, u32) ghash option \<Rightarrow>
     bool \<times> (string, u32) ghash option" where
  "bm_setting_diff gt a b flags invert_results results =
     (if b \<noteq> None \<and> object_type a \<noteq> object_type (the b) then (False, results)
      else
        (let a_result = (if invert_results then DIFF_IN_B else DIFF_IN_A);
             b_result = (if invert_results then DIFF_IN_A else DIFF_IN_B);
             table = (case results of None \<Rightarrow> gh_new | Some t \<Rightarrow> t);
             table' = foldl (diff_step gt a b flags a_result b_result) table (class_properties (object_type a))
         in if results = None \<and> gh_size table' = 0 then (True, None) else (False, Some table')))"

section \<open>Secrets\<close>

definition bm_setting_clear_secrets :: "transform \<Rightarrow> setting \<Rightarrow> setting" where
  "bm_setting_clear_secrets tr s =
     foldl (\<lambda>s ps. if ps_secret ps then g_object_set_property tr s ps (ps_default ps) else s)
       s (class_properties (object_type s))"

text \<open>No class implements the \<^verbatim>\<open>need_secrets\<close> method.\<close>

fun class_need_secrets :: "setting_class \<Rightarrow> (setting \<Rightarrow> string list option) option" where
  "class_need_secrets BM_TYPE_SETTING_CONNECTION = None"
| "class_need_secrets BM_TYPE_SETTING_BLUETOOTH = None"
| "class_need_secrets BM_TYPE_SETTING_SERIAL = None"

definition bm_setting_need_secrets :: "setting \<Rightarrow> string list option" where
  "bm_setting_need_secrets s =
     (case class_need_secrets (object_type s) of None \<Rightarrow> None | Some f \<Rightarrow> f s)"

text \<open>The value that \<^verbatim>\<open>g_value_transform\<close> would fill in is never initialised, so GLib refuses it:
  only a value of the property's own type is taken.\<close>

definition update_one_secret :: "transform \<Rightarrow> setting \<Rightarrow> string \<Rightarrow> gvalue \<Rightarrow> bm_error + setting" where
  "update_one_secret tr s key value =
     (case find_property (object_type s) key of
        None \<Rightarrow> Inl (BM_SETTING_ERROR_PROPERTY_NOT_FOUND key)
      | Some ps \<Rightarrow>
          if \<not> ps_secret ps then Inr s
          else if g_value_type value = ps_type ps then Inr (g_object_set_property tr s ps value)
          else Inl (BM_SETTING_ERROR_PROPERTY_TYPE_MISMATCH key))"

fun bm_setting_update_secrets ::
    "transform \<Rightarrow> setting \<Rightarrow> (string, gvalue) ghash \<Rightarrow> bm_error option \<times> setting" where
  "bm_setting_update_secrets tr s [] = (None, s)"
| "bm_setting_update_secrets tr s ((key, value) # secrets) =
     (case update_one_secret tr s key value of
        Inl e \<Rightarrow> (Some e, s)
      | Inr s' \<Rightarrow> bm_setting_update_secrets tr s' secrets)"

text \<open>\<open>contents\<close> is GLib's \<^verbatim>\<open>g_strdup_value_contents\<close>.\<close>

definition to_string_line :: "numbering \<Rightarrow> (gvalue \<Rightarrow> string) \<Rightarrow> setting \<Rightarrow> param_spec \<Rightarrow> string" where
  "to_string_line gt contents s ps =
     (let value = g_object_get_property s ps;
          is_serializable = ps_serialize ps;
          is_default = param_value_defaults gt ps value
      in [CHR 0x09] @ ps_name ps @ '' : '' @ contents value
         @ (if is_serializable \<or> is_default
            then '' ('' @ (if is_serializable then ''s'' else []) @ (if is_default then ''d'' else []) @ '')''
            else [])
         @ [CHR 0x0A])"

definition bm_setting_to_string :: "numbering \<Rightarrow> (gvalue \<Rightarrow> string) \<Rightarrow> setting \<Rightarrow> string" where
  "bm_setting_to_string gt contents s =
     (case set_name s of None \<Rightarrow> [] | Some n \<Rightarrow> n) @ [CHR 0x0A]
     @ concat (map (to_string_line gt contents s) (class_properties (object_type s))) @ [CHR 0x0A]"

lemmas compare_flag_defs = FLAG_EXACT_def FLAG_FUZZY_def FLAG_IGNORE_ID_def FLAG_IGNORE_SECRETS_def
lemmas diff_flag_defs = DIFF_UNKNOWN_def DIFF_IN_A_def DIFF_IN_B_def


section \<open>Reading and writing typed properties\<close>

lemma get_property_some:
  assumes "ps \<in> set (class_properties (object_type s))"
  shows "setting_get_property s (ps_name ps) = Some (g_object_get_property s ps)"
    and "typed_value ps (g_object_get_property s ps)"
  using po.getp_typed [OF assms] by (auto simp: g_object_get_property_def)

lemma set_property_typed:
  "typed_value ps v \<Longrightarrow> kind_validates (ps_kind ps) v \<Longrightarrow>
     g_object_set_property tr s ps v = setting_set_property s (ps_name ps) v"
  by (simp add: g_object_set_property_def coerce_def typed_value_def)

lemma find_property_SomeD:
  "find_property c n = Some ps \<Longrightarrow> ps \<in> set (class_properties c) \<and> ps_name ps = n"
  by (auto simp: find_property_def find_Some_iff)

lemma find_property_eq: "ps \<in> set (class_properties c) \<Longrightarrow> find_property c (ps_name ps) = Some ps"
proof -
  assume ps: "ps \<in> set (class_properties c)"
  obtain qs where qs: "find_property c (ps_name ps) = Some qs"
    using ps by (cases "find_property c (ps_name ps)") (auto simp: find_property_def find_None_iff)
  then show ?thesis
    using find_property_SomeD [OF qs] ps po.names_inj [of qs c ps] by auto
qed

lemma map_of_filter_find:
  "distinct (map ps_name pss) \<Longrightarrow>
     map_of (map (\<lambda>ps. (ps_name ps, f ps)) (filter P pss)) n =
       (case find (\<lambda>ps. ps_name ps = n) pss of
          None \<Rightarrow> None | Some ps \<Rightarrow> if P ps then Some (f ps) else None)"
proof (induction pss)
  case (Cons ps pss)
  have "map_of (map (\<lambda>ps. (ps_name ps, f ps)) (filter P pss)) n = None"
    if "n \<notin> ps_name ` set pss"
    using that by (auto simp: map_of_eq_None_iff)
  with Cons show ?case by auto
qed simp

lemmas map_of_find_property =
  map_of_filter_find [OF class_properties_distinct, folded find_property_def]

text \<open>Facts about the property tables.\<close>

lemma ps_table:
  assumes "ps \<in> set (class_properties c)"
  shows ps_default_typed: "typed_value ps (ps_default ps)"
    and ps_default_valid: "kind_validates (ps_kind ps) (ps_default ps)"
    and ps_construct_serialize: "ps_construct ps \<Longrightarrow> ps_serialize ps"
    and ps_not_serialize: "\<not> ps_serialize ps \<longleftrightarrow> ps_name ps = ''name''"
    and ps_not_secret: "\<not> ps_secret ps"
    and ps_initial: "\<not> ps_construct ps \<Longrightarrow> ps_serialize ps \<Longrightarrow>
      setting_get_property (setting_instance_init c) (ps_name ps) = Some (ps_default ps)"
    and ps_specialized: "ps_kind ps = P_SPECIALIZED t \<Longrightarrow> t = T_COLLECTION T_UCHAR"
  using assms
  by (cases c; auto simp: property_table_defs typed_value_def ps_type_def ps_default_def
        setting_instance_init_def property_access_defs)+

lemma canon_bytes:
  assumes "g_value_type v = T_COLLECTION T_UCHAR" "gvalue_ok v"
  shows "canon v = v"
proof -
  have "canon (GCollection T_UCHAR (map_option (map GUChar) b)) = GCollection T_UCHAR (map_option (map GUChar) b)" for b
    by (cases b) (auto simp: comp_def)
  then show ?thesis
    using read_back_bytes [OF assms] by metis
qed

text \<open>Values of a property compare as equal exactly when they are equal.\<close>

lemma param_values_cmp_eq_0:
  assumes "inj gt" "ps \<in> set (class_properties c)" "typed_value ps v" "typed_value ps w"
  shows "param_values_cmp gt ps v w = 0 \<longleftrightarrow> v = w"
proof (cases "ps_kind ps")
  case P_STRING
  then obtain x y where "v = GString x" "w = GString y"
    using assms(3,4) read_back(1) [of v] read_back(1) [of w]
    by (auto simp: typed_value_def ps_type_def) metis
  then show ?thesis
    by (simp add: param_values_cmp_def P_STRING split: option.splits)
next
  case (P_SPECIALIZED t)
  then have t: "t = T_COLLECTION T_UCHAR"
    using ps_specialized [OF assms(2)] by blast
  then have "canon v = v" "canon w = w" "gvalue_ok v" "gvalue_ok w"
    using assms(3,4) P_SPECIALIZED by (auto simp: typed_value_def ps_type_def intro!: canon_bytes)
  then show ?thesis
    using compare_zero_canon [OF assms(1), of v w] by (simp add: param_values_cmp_def P_SPECIALIZED)
qed (use assms(3,4) in \<open>(cases v; cases w; simp add: param_values_cmp_def typed_value_def ps_type_def
       word_eq_iff_signed [symmetric])+\<close>)

lemma param_value_defaults_iff:
  "inj gt \<Longrightarrow> ps \<in> set (class_properties (object_type s)) \<Longrightarrow>
     param_value_defaults gt ps (g_object_get_property s ps) \<longleftrightarrow> g_object_get_property s ps = ps_default ps"
  by (simp add: param_value_defaults_def param_values_cmp_eq_0 get_property_some ps_default_typed)

section \<open>Serialising\<close>

text \<open>A setting that can be built: its name is its class's and every value passes validation.\<close>

definition setting_valid :: "setting \<Rightarrow> bool" where
  "setting_valid s =
     list_all (\<lambda>ps. kind_validates (ps_kind ps) (g_object_get_property s ps)) (class_properties (object_type s))"

definition setting_ok :: "setting \<Rightarrow> bool" where
  "setting_ok s \<longleftrightarrow> set_name s = Some (class_name (object_type s)) \<and> setting_valid s"

lemma setting_validD:
  "setting_valid s \<Longrightarrow> ps \<in> set (class_properties (object_type s)) \<Longrightarrow>
     kind_validates (ps_kind ps) (g_object_get_property s ps)"
  by (simp add: setting_valid_def list_all_iff)

lemma to_hash_fold:
  "foldl (to_hash_step gt s) t pss =
     foldl (\<lambda>t (k, v). gh_insert k v t) t
       (map (\<lambda>ps. (ps_name ps, g_object_get_property s ps))
         (filter (\<lambda>ps. ps_serialize ps \<and> \<not> param_value_defaults gt ps (g_object_get_property s ps)) pss))"
  by (induction pss arbitrary: t) (auto simp: to_hash_step_def)

lemma to_hash_lookup:
  "gh_lookup (bm_setting_to_hash gt s) n =
     (case find_property (object_type s) n of
        None \<Rightarrow> None
      | Some ps \<Rightarrow> if ps_serialize ps \<and> \<not> param_value_defaults gt ps (g_object_get_property s ps)
                   then Some (g_object_get_property s ps) else None)"
proof -
  have "distinct (map ps_name (filter P (class_properties c)))" for P c
    using class_properties_distinct by (rule distinct_map_filter)
  then show ?thesis
    by (simp add: bm_setting_to_hash_def to_hash_fold ght.look_ins_all_distinct comp_def
          map_of_find_property)
qed

lemma to_hash_wf: "gh_wf (bm_setting_to_hash gt s)"
  by (simp add: bm_setting_to_hash_def to_hash_fold ght.invar_ins_all ght.invar_new)

lemma foreach_params:
  "\<forall>(k, v) \<in> set h. \<exists>ps. find_property c k = Some ps \<and> ps_serialize ps \<Longrightarrow>
     gh_foreach (one_property_cb c) h params = params @ h"
  by (induction h arbitrary: params) (auto simp: one_property_cb_def)

lemma construct_fold:
  assumes "\<And>ps. ps \<in> set pss \<Longrightarrow> ps_construct ps \<Longrightarrow> typed_value ps (f ps) \<and> kind_validates (ps_kind ps) (f ps)"
    and "\<And>ps. ps \<in> set pss \<Longrightarrow> ps_construct ps \<Longrightarrow>
      (case map_of params (ps_name ps) of Some v \<Rightarrow> v | None \<Rightarrow> ps_default ps) = f ps"
  shows "foldl (construct_step tr params) s pss =
    foldl (\<lambda>s (n, v). setting_set_property s n v) s (map (\<lambda>ps. (ps_name ps, f ps)) (filter ps_construct pss))"
  using assms
  by (induction pss arbitrary: s) (auto simp: construct_step_def set_property_typed)

lemma param_fold:
  assumes "\<And>n v. (n, v) \<in> set kvs \<Longrightarrow>
    \<exists>ps. find_property c n = Some ps \<and> typed_value ps v \<and> kind_validates (ps_kind ps) v"
  shows "foldl (param_step tr c) s kvs =
    foldl (\<lambda>s (n, v). setting_set_property s n v) s
      (filter (\<lambda>(n, v). \<not> ps_construct (the (find_property c n))) kvs)"
  using assms
proof (induction kvs arbitrary: s)
  case (Cons kv kvs)
  obtain n v where kv: "kv = (n, v)"
    by (cases kv)
  then obtain ps where "find_property c n = Some ps" "typed_value ps v" "kind_validates (ps_kind ps) v"
    using Cons.prems [of n v] by auto
  moreover have "ps_name ps = n"
    using calculation(1) find_property_SomeD by blast
  ultimately show ?case
    using Cons kv by (auto simp: param_step_def set_property_typed)
qed simp

text \<open>The table \<open>h\<close> holds the properties of \<open>s\<close> that are serialised and not at their default.\<close>

definition hash_of :: "numbering \<Rightarrow> setting \<Rightarrow> (string, gvalue) ghash \<Rightarrow> bool" where
  "hash_of gt s h \<longleftrightarrow> gh_wf h \<and> gh_lookup h = gh_lookup (bm_setting_to_hash gt s)"

lemma hash_of_entry:
  assumes "hash_of gt s h" "(n, v) \<in> set h"
  obtains ps where "find_property (object_type s) n = Some ps" "ps \<in> set (class_properties (object_type s))"
    "ps_name ps = n" "ps_serialize ps" "v = g_object_get_property s ps"
proof -
  have "gh_lookup (bm_setting_to_hash gt s) n = Some v"
    using assms ght.entries_look [of h n v] by (simp add: hash_of_def)
  then show ?thesis
    using that find_property_SomeD [of "object_type s" n]
    by (auto simp: to_hash_lookup split: option.splits if_splits)
qed

lemma hash_of_lookup:
  assumes "hash_of gt s h" "ps \<in> set (class_properties (object_type s))" "inj gt"
  shows "map_of h (ps_name ps) =
    (if ps_serialize ps \<and> g_object_get_property s ps \<noteq> ps_default ps
     then Some (g_object_get_property s ps) else None)"
  using assms
  by (simp add: hash_of_def ght.look_entries [symmetric] to_hash_lookup find_property_eq
        param_value_defaults_iff)

lemma object_type_init [simp]: "object_type (setting_instance_init c) = c"
  by (cases c) (simp_all add: setting_instance_init_def object_type_def)

lemma setting_get_name: "setting_get_property s ''name'' = Some (GString (set_name s))"
  by (simp add: setting_get_property_def)

text \<open>The assignments \<^verbatim>\<open>g_object_newv\<close> makes: the construct properties, then the others.\<close>

definition assigned :: "setting \<Rightarrow> (string, gvalue) ghash \<Rightarrow> (string \<times> gvalue) list" where
  "assigned s h =
     map (\<lambda>ps. (ps_name ps, g_object_get_property s ps)) (filter ps_construct (class_properties (object_type s)))
     @ filter (\<lambda>(n, v). \<not> ps_construct (the (find_property (object_type s) n))) h"

lemma hash_of_typed:
  assumes "setting_ok s" "hash_of gt s h" "(n, v) \<in> set h"
  shows "\<exists>ps. find_property (object_type s) n = Some ps \<and> typed_value ps v \<and> kind_validates (ps_kind ps) v"
  using hash_of_entry [OF assms(2,3)] assms(1)
  by (metis get_property_some(2) setting_ok_def setting_validD)

lemma assigned_fold:
  assumes "inj gt" "setting_ok s" "hash_of gt s h"
  shows "foldl (param_step tr (object_type s))
    (foldl (construct_step tr h) (setting_instance_init (object_type s)) (class_properties (object_type s))) h =
    foldl (\<lambda>s (n, v). setting_set_property s n v) (setting_instance_init (object_type s)) (assigned s h)"
proof -
  have "foldl (construct_step tr h) (setting_instance_init (object_type s)) (class_properties (object_type s)) =
      foldl (\<lambda>s (n, v). setting_set_property s n v) (setting_instance_init (object_type s))
        (map (\<lambda>ps. (ps_name ps, g_object_get_property s ps))
          (filter ps_construct (class_properties (object_type s))))"
    using assms
    by (intro construct_fold)
       (auto simp: get_property_some setting_ok_def setting_validD hash_of_lookup ps_construct_serialize)
  then show ?thesis
    using param_fold [of h "object_type s", OF hash_of_typed [OF assms(2,3)]]
    by (simp add: assigned_def)
qed

lemma map_of_filter_name: "map_of (filter (\<lambda>(n, v). P n) xs) m = (if P m then map_of xs m else None)"
  by (induction xs) auto

lemma assigned_map_of:
  assumes "ps \<in> set (class_properties (object_type s))"
  shows "map_of (assigned s h) (ps_name ps) =
    (if ps_construct ps then Some (g_object_get_property s ps) else map_of h (ps_name ps))"
  using assms
  by (simp add: assigned_def map_add_def map_of_find_property map_of_filter_name find_property_eq)

lemma assigned_distinct: "gh_wf h \<Longrightarrow> distinct (map fst (assigned s h))"
proof -
  assume "gh_wf h"
  have "distinct (map ps_name (filter ps_construct (class_properties (object_type s))))"
    by (rule distinct_map_filter [OF class_properties_distinct])
  moreover have "distinct (map fst (filter P h))" for P
    using \<open>gh_wf h\<close> by (simp add: gh_wf_def gh_keys_def distinct_map_filter)
  ultimately show ?thesis
    by (auto simp: assigned_def comp_def find_property_eq)
qed

lemma assigned_value:
  assumes "inj gt" "setting_ok s" "hash_of gt s h" and ps: "ps \<in> set (class_properties (object_type s))"
  shows "(case map_of (assigned s h) (ps_name ps) of Some v \<Rightarrow> Some v
      | None \<Rightarrow> setting_get_property (setting_instance_init (object_type s)) (ps_name ps)) =
    setting_get_property s (ps_name ps)"
proof (cases "ps_serialize ps")
  case True
  then show ?thesis
    by (simp add: assigned_map_of [OF ps] hash_of_lookup [OF assms(3) ps assms(1)]
        get_property_some(1) [OF ps] ps_initial [OF ps])
next
  case False
  then have "ps_name ps = ''name''" "\<not> ps_construct ps"
    using ps_not_serialize [OF ps] ps_construct_serialize [OF ps] by auto
  then show ?thesis
    using assigned_map_of [OF ps, of h] hash_of_lookup [OF assms(3) ps assms(1)] assms(2) False
    by (simp add: setting_get_name setting_instance_init_def setting_ok_def)
qed

lemma newv_from_hash:
  assumes "inj gt" "setting_ok s" "hash_of gt s h"
  shows "g_object_newv tr (object_type s) h = Some s"
proof -
  let ?r = "foldl (\<lambda>s (n, v). setting_set_property s n v) (setting_instance_init (object_type s)) (assigned s h)"
  have typed: "\<exists>ps \<in> set (class_properties (object_type (setting_instance_init (object_type s)))).
      ps_name ps = n \<and> typed_value ps v" if "(n, v) \<in> set (assigned s h)" for n v
    using that hash_of_typed [OF assms(2,3), of n v] find_property_SomeD [of "object_type s" n]
    by (auto simp: assigned_def get_property_some(2))
  have "?r = s"
    using assms
    by (intro po.getp_ext)
       (simp_all add: po.cls_assign po.getp_assign [OF typed assigned_distinct] hash_of_def assigned_value)
  then show ?thesis
    using assms by (simp add: g_object_newv_def assigned_fold setting_constructor_def setting_ok_def)
qed

lemma new_from_hash:
  assumes "inj gt" "setting_ok s" "hash_of gt s h"
  shows "bm_setting_new_from_hash tr (object_type s) h = Some s"
proof -
  have "gh_foreach (one_property_cb (object_type s)) h [] = h"
    by (subst foreach_params) (auto elim!: hash_of_entry [OF assms(3)])
  then show ?thesis
    by (simp add: bm_setting_new_from_hash_def newv_from_hash [OF assms])
qed

section \<open>Duplicating\<close>

lemma construct_defaults:
  "foldl (construct_step tr []) (setting_instance_init c) (class_properties c) =
     foldl (\<lambda>s (n, v). setting_set_property s n v) (setting_instance_init c)
       (map (\<lambda>ps. (ps_name ps, ps_default ps)) (filter ps_construct (class_properties c)))"
  by (rule construct_fold) (auto intro: ps_default_typed ps_default_valid)

lemma set_name_assign:
  "''name'' \<notin> fst ` set kvs \<Longrightarrow> set_name (foldl (\<lambda>s (n, v). setting_set_property s n v) s kvs) = set_name s"
  by (induction kvs arbitrary: s) (auto simp: setting_set_property_def split: if_splits)

lemma newv_defaults:
  obtains d where "g_object_newv tr c [] = Some d" "object_type d = c"
proof -
  let ?kvs = "map (\<lambda>ps. (ps_name ps, ps_default ps)) (filter ps_construct (class_properties c))"
  let ?d = "foldl (\<lambda>s (n, v). setting_set_property s n v) (setting_instance_init c) ?kvs"
  have "''name'' \<notin> fst ` set ?kvs"
    by (cases c) (simp_all add: property_table_defs)
  then have "set_name ?d = Some (class_name c)"
    by (simp add: set_name_assign setting_instance_init_def)
  then show ?thesis
    using that [of ?d] by (simp add: g_object_newv_def construct_defaults setting_constructor_def po.cls_assign)
qed

lemma duplicate_fold:
  assumes "\<And>ps. ps \<in> set pss \<Longrightarrow> typed_value ps (f ps) \<and> kind_validates (ps_kind ps) (f ps)"
  shows "foldl (\<lambda>d ps. g_object_set_property tr d ps (f ps)) d pss =
    foldl (\<lambda>s (n, v). setting_set_property s n v) d (map (\<lambda>ps. (ps_name ps, f ps)) pss)"
  using assms by (induction pss arbitrary: d) (auto simp: set_property_typed)

lemma duplicate_same:
  assumes "setting_valid s"
  shows "bm_setting_duplicate tr s = Some s"
proof -
  let ?kvs = "map (\<lambda>ps. (ps_name ps, g_object_get_property s ps)) (class_properties (object_type s))"
  obtain d where d: "g_object_newv tr (object_type s) [] = Some d" "object_type d = object_type s"
    by (rule newv_defaults)
  have "map_of ?kvs n = (if n \<in> ps_name ` set (class_properties (object_type s))
      then setting_get_property s n else None)" for n
  proof (cases "find_property (object_type s) n")
    case None
    then have "n \<notin> ps_name ` set (class_properties (object_type s))"
      by (auto simp: find_property_def find_None_iff)
    then show ?thesis
      by (auto simp: map_of_eq_None_iff comp_def)
  next
    case (Some ps)
    then have ps: "ps \<in> set (class_properties (object_type s))" "n = ps_name ps"
      using find_property_SomeD by auto
    show ?thesis
      using map_of_find_property [of "g_object_get_property s" "\<lambda>_. True" "object_type s" n] Some
        get_property_some(1) [OF ps(1)] ps(1)
      by (simp add: ps(2))
  qed
  then have "foldl (\<lambda>s (n, v). setting_set_property s n v) d ?kvs = s"
    by (intro po.assign_copy)
       (auto simp: d(2) comp_def class_properties_distinct)
  then show ?thesis
    using duplicate_fold [of "class_properties (object_type s)" "g_object_get_property s" tr d] assms
    by (simp add: bm_setting_duplicate_def bm_setting_enumerate_values_def duplicate_setting_def d(1)
        get_property_some(2) setting_validD)
qed

section \<open>Comparing and diffing\<close>

lemma compare_loop_iff:
  "compare_loop gt a b flags pss \<longleftrightarrow>
     (\<exists>ps \<in> set pss. should_compare_prop a ps flags \<and>
        param_values_cmp gt ps (g_object_get_property a ps) (g_object_get_property b ps) \<noteq> 0)"
  by (induction pss) auto

lemma compare_values:
  assumes "inj gt" "object_type a = object_type b" "ps \<in> set (class_properties (object_type a))"
  shows "param_values_cmp gt ps (g_object_get_property a ps) (g_object_get_property b ps) = 0 \<longleftrightarrow>
    g_object_get_property a ps = g_object_get_property b ps"
  using assms get_property_some(2) [of ps b] by (simp add: param_values_cmp_eq_0 get_property_some(2))

text \<open>The properties that a comparison with the given flags takes into account agree.\<close>

definition same_properties :: "setting \<Rightarrow> setting \<Rightarrow> u32 \<Rightarrow> bool" where
  "same_properties a b flags \<longleftrightarrow> object_type a = object_type b \<and>
     (\<forall>ps \<in> set (class_properties (object_type a)). should_compare_prop a ps flags \<longrightarrow>
        setting_get_property a (ps_name ps) = setting_get_property b (ps_name ps))"

lemma compare_same_properties:
  assumes "inj gt"
  shows "bm_setting_compare gt a b flags \<longleftrightarrow> same_properties a b flags"
proof (cases "object_type a = object_type b")
  case True
  have "setting_get_property a (ps_name ps) = setting_get_property b (ps_name ps) \<longleftrightarrow>
      g_object_get_property a ps = g_object_get_property b ps"
    if "ps \<in> set (class_properties (object_type a))" for ps
    using that True by (simp add: get_property_some(1))
  then show ?thesis
    using compare_values [OF assms True]
    by (auto simp: bm_setting_compare_def same_properties_def compare_loop_iff True)
qed (simp add: bm_setting_compare_def same_properties_def)

lemma should_compare_exact [simp]: "should_compare_prop a ps FLAG_EXACT"
  by (simp add: should_compare_prop_def compare_flag_defs)

lemma same_properties_exact: "same_properties a b FLAG_EXACT \<longleftrightarrow> a = b"
  by (auto simp: same_properties_def intro: po.getp_ext)

lemma same_properties_equiv:
  "same_properties a a flags"
  "same_properties a b flags \<Longrightarrow> same_properties b a flags"
  "same_properties a b flags \<Longrightarrow> same_properties b c flags \<Longrightarrow> same_properties a c flags"
  by (auto simp: same_properties_def should_compare_prop_def)

lemma compare_connection_fuzzy:
  assumes "object_type a = BM_TYPE_SETTING_CONNECTION" "object_type b = BM_TYPE_SETTING_CONNECTION"
  shows "same_properties a b FLAG_FUZZY \<longleftrightarrow> set_name a = set_name b \<and>
    setting_get_property a ''type'' = setting_get_property b ''type''"
  using assms
  by (simp add: same_properties_def should_compare_prop_def compare_flag_defs property_table_defs
        setting_get_name)

lemma diff_fold_lookup:
  "distinct (map ps_name pss) \<Longrightarrow>
     gh_lookup (foldl (diff_step gt a b flags ar br) t pss) n =
       (case find (\<lambda>ps. ps_name ps = n) pss of
          None \<Rightarrow> gh_lookup t n
        | Some ps \<Rightarrow>
            (if should_compare_prop a ps flags \<and> n \<noteq> ''name''
             then (case diff_property gt a b ar br ps of
                     None \<Rightarrow> gh_lookup t n
                   | Some r \<Rightarrow> Some ((case gh_lookup t n of None \<Rightarrow> 0 | Some w \<Rightarrow> w) OR r))
             else gh_lookup t n))"
proof (induction pss arbitrary: t)
  case (Cons ps pss)
  have "gh_lookup (diff_step gt a b flags ar br t ps) n = gh_lookup t n" if "n \<noteq> ps_name ps"
    using that by (auto simp: diff_step_def Let_def ght.look_ins split: option.split)
  moreover have "find (\<lambda>ps. ps_name ps = n) pss = None" if "n = ps_name ps"
    using that Cons.prems by (simp add: find_None_iff) (metis image_eqI)
  ultimately show ?case
    using Cons by (auto simp: diff_step_def Let_def ght.look_ins split: option.split)
qed simp

lemmas diff_lookup = diff_fold_lookup [OF class_properties_distinct, folded find_property_def]

lemma diff_wf: "gh_wf t \<Longrightarrow> gh_wf (foldl (diff_step gt a b flags ar br) t pss)"
  by (rule foldl_invariant [where P = gh_wf])
     (auto simp: diff_step_def Let_def ght.invar_ins split: option.split)

lemma gh_size_0_iff: "gh_size t = 0 \<longleftrightarrow> (\<forall>n. gh_lookup t n = None)"
proof (cases t)
  case (Cons kv t')
  then have "gh_lookup t (fst kv) \<noteq> None"
    by (cases kv) simp
  then show ?thesis
    using Cons by (auto simp: gh_size_def)
qed (simp add: gh_size_def)

text \<open>The bit a diff sets for one property of two settings of the same class.\<close>

definition diff_bits :: "setting \<Rightarrow> setting \<Rightarrow> u32 \<Rightarrow> u32 \<Rightarrow> u32 \<Rightarrow> string \<Rightarrow> u32 option" where
  "diff_bits a b flags ar br n =
     (case find_property (object_type a) n of
        None \<Rightarrow> None
      | Some ps \<Rightarrow>
          if should_compare_prop a ps flags \<and> n \<noteq> ''name'' \<and>
             g_object_get_property a ps \<noteq> g_object_get_property b ps
          then Some ((if g_object_get_property a ps \<noteq> ps_default ps then ar else 0)
                     OR (if g_object_get_property b ps \<noteq> ps_default ps then br else 0))
          else None)"

lemma diff_table:
  assumes "inj gt" "object_type a = object_type b"
  shows "gh_lookup (foldl (diff_step gt a (Some b) flags ar br) gh_new (class_properties (object_type a))) n =
    diff_bits a b flags ar br n"
proof (cases "find_property (object_type a) n")
  case (Some ps)
  then have ps: "ps \<in> set (class_properties (object_type a))" "ps_name ps = n"
    using find_property_SomeD by auto
  have "param_value_defaults gt ps (g_object_get_property a ps) \<longleftrightarrow> g_object_get_property a ps = ps_default ps"
       "param_value_defaults gt ps (g_object_get_property b ps) \<longleftrightarrow> g_object_get_property b ps = ps_default ps"
    using ps(1) assms(2) param_value_defaults_iff [OF assms(1), of ps a]
      param_value_defaults_iff [OF assms(1), of ps b] by auto
  then show ?thesis
    using compare_values [OF assms ps(1)]
    by (cases "g_object_get_property a ps = g_object_get_property b ps")
       (simp_all add: diff_lookup Some diff_bits_def diff_property_def Let_def DIFF_UNKNOWN_def ght.look_new)
qed (simp add: diff_lookup diff_bits_def ght.look_new)

lemma diff_bits_None:
  assumes "object_type a = object_type b"
  shows "(\<forall>n. diff_bits a b flags ar br n = None) \<longleftrightarrow>
    (\<forall>ps \<in> set (class_properties (object_type a)). should_compare_prop a ps flags \<and> ps_name ps \<noteq> ''name'' \<longrightarrow>
       setting_get_property a (ps_name ps) = setting_get_property b (ps_name ps))"
proof -
  have bits: "diff_bits a b flags ar br (ps_name ps) = None \<longleftrightarrow>
      (should_compare_prop a ps flags \<and> ps_name ps \<noteq> ''name'' \<longrightarrow>
       setting_get_property a (ps_name ps) = setting_get_property b (ps_name ps))"
    if "ps \<in> set (class_properties (object_type a))" for ps
    using that assms by (auto simp: diff_bits_def find_property_eq get_property_some(1))
  moreover have "diff_bits a b flags ar br n = None"
    if "\<And>ps. ps \<in> set (class_properties (object_type a)) \<Longrightarrow> diff_bits a b flags ar br (ps_name ps) = None" for n
  proof (cases "find_property (object_type a) n")
    case (Some ps)
    then show ?thesis
      using that [of ps] find_property_SomeD [OF Some] by simp
  qed (simp add: diff_bits_def)
  ultimately show ?thesis
    by blast
qed

lemma setting_diff_eq:
  assumes "inj gt" "object_type a = object_type b"
  shows "bm_setting_diff gt a (Some b) flags False None =
    (let t = foldl (diff_step gt a (Some b) flags DIFF_IN_A DIFF_IN_B) gh_new (class_properties (object_type a))
     in if \<forall>n. diff_bits a b flags DIFF_IN_A DIFF_IN_B n = None then (True, None) else (False, Some t))"
  by (simp add: bm_setting_diff_def Let_def gh_size_0_iff diff_table [OF assms] assms(2) [symmetric])

section \<open>Properties\<close>

text \<open>A setting whose name is its class's and whose values pass validation survives serialising:
  building a setting of the same class from a hash table that holds what \<^verbatim>\<open>bm_setting_to_hash\<close> put
  into its table, in any order, gives the same setting, although properties at their default
  are left out and construct properties are set before the others.\<close>

theorem setting_hash_roundtrip:
  assumes "inj gt" "setting_ok s" "gh_wf h" "gh_lookup h = gh_lookup (bm_setting_to_hash gt s)"
  shows "bm_setting_new_from_hash tr (object_type s) h = Some s"
  using assms by (intro new_from_hash) (auto simp: hash_of_def)

theorem setting_hash_roundtrip_witness:
  "bm_setting_to_hash sample_gt
     \<lparr>set_name = Some ''bluetooth'', set_priv = Bluetooth_Priv \<lparr>bt_bdaddr = Some [1, 2], bt_type = Some ''panu''\<rparr>\<rparr> =
     [(''bdaddr'', GCollection T_UCHAR (Some [GUChar 1, GUChar 2])), (''type'', GString (Some ''panu''))] \<and>
   bm_setting_new_from_hash (\<lambda>_ _. None) BM_TYPE_SETTING_BLUETOOTH
     [(''type'', GString (Some ''panu'')), (''bdaddr'', GCollection T_UCHAR (Some [GUChar 1, GUChar 2]))] =
   Some \<lparr>set_name = Some ''bluetooth'', set_priv = Bluetooth_Priv \<lparr>bt_bdaddr = Some [1, 2], bt_type = Some ''panu''\<rparr>\<rparr>"
proof -
  let ?s = "\<lparr>set_name = Some ''bluetooth'',
    set_priv = Bluetooth_Priv \<lparr>bt_bdaddr = Some [1, 2], bt_type = Some ''panu''\<rparr>\<rparr>"
  let ?h = "[(''type'', GString (Some ''panu'')), (''bdaddr'', GCollection T_UCHAR (Some [GUChar 1, GUChar 2]))]"
  have h: "bm_setting_to_hash sample_gt ?s =
    [(''bdaddr'', GCollection T_UCHAR (Some [GUChar 1, GUChar 2])), (''type'', GString (Some ''panu''))]"
    by (simp add: bm_setting_to_hash_def object_type_def property_table_defs to_hash_step_def
        g_object_get_property_def property_access_defs param_value_defaults_def param_values_cmp_def
        ps_default_def bm_gvalues_compare.simps null_order_def gh_insert_def gh_new_def ps_type_def)
  have ok: "setting_ok ?s"
    by (simp add: setting_ok_def setting_valid_def object_type_def property_table_defs
        g_object_get_property_def property_access_defs)
  show ?thesis
    using setting_hash_roundtrip [OF inj_sample_gt ok, of ?h "\<lambda>_ _. None"] h
    by (simp add: object_type_def fun_eq_iff)
qed

text \<open>Duplicating a setting whose values pass validation yields the same setting, its name
  included.\<close>

theorem setting_duplicate_same:
  assumes "setting_valid s"
  shows "bm_setting_duplicate tr s = Some s"
  using assms by (rule duplicate_same)

theorem setting_duplicate_same_witness:
  "bm_setting_duplicate (\<lambda>_ _. None) \<lparr>set_name = None, set_priv = Serial_Priv
     \<lparr>ser_baud = 9600, ser_bits = 7, ser_parity = 69, ser_stopbits = 2, ser_send_delay = 5\<rparr>\<rparr> =
   Some \<lparr>set_name = None, set_priv = Serial_Priv
     \<lparr>ser_baud = 9600, ser_bits = 7, ser_parity = 69, ser_stopbits = 2, ser_send_delay = 5\<rparr>\<rparr>"
  by (rule setting_duplicate_same)
     (simp add: setting_valid_def object_type_def property_table_defs g_object_get_property_def
        property_access_defs)

text \<open>\<^verbatim>\<open>bm_setting_compare\<close> decides, for every combination of flags, whether two settings are of
  the same class and agree on every property the flags do not exempt.  With
  \<^verbatim>\<open>BM_SETTING_COMPARE_FLAG_EXACT\<close> that is equality; with \<^verbatim>\<open>BM_SETTING_COMPARE_FLAG_FUZZY\<close> two
  connection settings agree when their name and their type do.\<close>

theorem setting_compare_correct:
  assumes "inj gt"
  shows "(bm_setting_compare gt a b flags \<longleftrightarrow> object_type a = object_type b \<and>
      (\<forall>ps \<in> set (class_properties (object_type a)). should_compare_prop a ps flags \<longrightarrow>
        setting_get_property a (ps_name ps) = setting_get_property b (ps_name ps))) \<and>
    (bm_setting_compare gt a b FLAG_EXACT \<longleftrightarrow> a = b) \<and>
    (object_type a = BM_TYPE_SETTING_CONNECTION \<and> object_type b = BM_TYPE_SETTING_CONNECTION \<longrightarrow>
      (bm_setting_compare gt a b FLAG_FUZZY \<longleftrightarrow> set_name a = set_name b \<and>
        setting_get_property a ''type'' = setting_get_property b ''type''))"
  using compare_same_properties [OF assms, of a b flags] compare_connection_fuzzy [of a b]
  by (simp only: compare_same_properties [OF assms] same_properties_exact same_properties_def
        [of a b flags])
     blast

theorem setting_compare_correct_witness:
  "inj sample_gt \<and> bm_setting_compare sample_gt
     \<lparr>set_name = Some ''bluetooth'', set_priv = Bluetooth_Priv \<lparr>bt_bdaddr = Some [1], bt_type = Some ''dun''\<rparr>\<rparr>
     \<lparr>set_name = Some ''bluetooth'', set_priv = Bluetooth_Priv \<lparr>bt_bdaddr = Some [1], bt_type = Some ''dun''\<rparr>\<rparr>
     FLAG_EXACT"
  using setting_compare_correct [OF inj_sample_gt] inj_sample_gt by simp

text \<open>The diff of two settings of the same class reports no difference, with no table, exactly when
  they agree on every property the flags do not exempt, the name aside.  Otherwise its table
  holds exactly the properties that differ, marked \<^verbatim>\<open>IN_A\<close> when the value of the first setting is
  not the default and \<^verbatim>\<open>IN_B\<close> when that of the second is not.\<close>

theorem setting_diff_correct:
  assumes "inj gt" "object_type a = object_type b"
  shows "if \<forall>ps \<in> set (class_properties (object_type a)).
            should_compare_prop a ps flags \<and> ps_name ps \<noteq> ''name'' \<longrightarrow>
            setting_get_property a (ps_name ps) = setting_get_property b (ps_name ps)
         then bm_setting_diff gt a (Some b) flags False None = (True, None)
         else \<exists>t. bm_setting_diff gt a (Some b) flags False None = (False, Some t) \<and> gh_wf t \<and>
                gh_lookup t = diff_bits a b flags DIFF_IN_A DIFF_IN_B"
proof -
  have "gh_wf (foldl (diff_step gt a (Some b) flags DIFF_IN_A DIFF_IN_B) gh_new (class_properties (object_type a)))"
    by (simp add: diff_wf ght.invar_new)
  then show ?thesis
    unfolding diff_bits_None [OF assms(2), of flags DIFF_IN_A DIFF_IN_B, symmetric] setting_diff_eq [OF assms]
    by (auto simp: Let_def fun_eq_iff diff_table [OF assms])
qed

theorem setting_diff_correct_witness:
  "\<exists>t. bm_setting_diff sample_gt
     \<lparr>set_name = Some ''bluetooth'', set_priv = Bluetooth_Priv \<lparr>bt_bdaddr = Some [1], bt_type = Some ''dun''\<rparr>\<rparr>
     (Some \<lparr>set_name = Some ''bluetooth'', set_priv = Bluetooth_Priv \<lparr>bt_bdaddr = None, bt_type = Some ''dun''\<rparr>\<rparr>)
     FLAG_EXACT False None = (False, Some t) \<and> gh_wf t \<and> gh_lookup t ''bdaddr'' = Some DIFF_IN_A \<and>
     gh_lookup t ''type'' = None"
proof -
  let ?a = "\<lparr>set_name = Some ''bluetooth'', set_priv = Bluetooth_Priv \<lparr>bt_bdaddr = Some [1], bt_type = Some ''dun''\<rparr>\<rparr>"
  let ?b = "\<lparr>set_name = Some ''bluetooth'', set_priv = Bluetooth_Priv \<lparr>bt_bdaddr = None, bt_type = Some ''dun''\<rparr>\<rparr>"
  have "object_type ?a = object_type ?b"
    by (simp add: object_type_def)
  from setting_diff_correct [OF inj_sample_gt this, of FLAG_EXACT]
  obtain t where "bm_setting_diff sample_gt ?a (Some ?b) FLAG_EXACT False None = (False, Some t)" "gh_wf t"
    "gh_lookup t = diff_bits ?a ?b FLAG_EXACT DIFF_IN_A DIFF_IN_B"
    by (auto simp: object_type_def property_table_defs property_access_defs split: if_splits)
  moreover have "diff_bits ?a ?b FLAG_EXACT DIFF_IN_A DIFF_IN_B ''bdaddr'' = Some DIFF_IN_A"
    "diff_bits ?a ?b FLAG_EXACT DIFF_IN_A DIFF_IN_B ''type'' = None"
    by (simp_all add: diff_bits_def find_property_def object_type_def property_table_defs
        g_object_get_property_def property_access_defs ps_default_def)
  ultimately show ?thesis by auto
qed

lemma update_secrets_eq:
  "bm_setting_update_secrets tr s h =
     (map_option (\<lambda>(k, _). BM_SETTING_ERROR_PROPERTY_NOT_FOUND k)
        (find (\<lambda>(k, _). find_property (object_type s) k = None) h), s)"
proof (induction h)
  case (Cons kv h)
  obtain k v where kv: "kv = (k, v)" by (cases kv)
  have "\<not> ps_secret ps" if "find_property (object_type s) k = Some ps" for ps
    using find_property_SomeD [OF that] ps_not_secret by blast
  then show ?case
    using Cons by (auto simp: kv update_one_secret_def split: option.splits)
qed simp

text \<open>No property of the three setting classes is a secret.  Clearing secrets leaves a setting
  alone, none is ever needed, and updating them changes nothing: it succeeds unless a key names
  no property, and then reports the first such key of the table.\<close>

theorem setting_secrets_inert:
  "bm_setting_clear_secrets tr s = s \<and> bm_setting_need_secrets s = None \<and>
   bm_setting_update_secrets tr s h =
     (map_option (\<lambda>(k, _). BM_SETTING_ERROR_PROPERTY_NOT_FOUND k)
        (find (\<lambda>(k, _). find_property (object_type s) k = None) h), s)"
proof -
  have "foldl (\<lambda>s ps. if ps_secret ps then g_object_set_property tr s ps (ps_default ps) else s) s pss = s"
    if "set pss \<subseteq> set (class_properties (object_type s))" for pss
    using that by (induction pss) (auto simp: ps_not_secret)
  then show ?thesis
    by (cases "object_type s") (simp_all add: bm_setting_clear_secrets_def bm_setting_need_secrets_def update_secrets_eq)
qed

lemma validate_uuid_iff:
  "validate_uuid uuid \<longleftrightarrow>
     (\<exists>u. uuid = Some u \<and> u \<noteq> [] \<and> (\<forall>c \<in> set u. isxdigit c \<or> c = CHR ''-''))"
  by (auto simp: validate_uuid_def list_all_iff split: option.splits)

text \<open>A connection setting passes verification exactly when its id is not empty, its uuid is a
  non-empty string of hexadecimal digits and dashes, and its type is not empty and names a
  setting of the connection, when the settings of the connection are given.  The three ways to
  fail are told apart: an absent property, a malformed one, and a type no setting has.\<close>

theorem connection_verify_correct:
  "(connection_verify p ss = Inr () \<longleftrightarrow>
      (\<exists>i. con_id p = Some i \<and> i \<noteq> []) \<and> validate_uuid (con_uuid p) \<and>
      (\<exists>t. con_type p = Some t \<and> t \<noteq> [] \<and> (ss = [] \<or> (\<exists>s \<in> set ss. set_name s = Some t)))) \<and>
   (connection_verify p ss = Inl (BM_SETTING_CONNECTION_ERROR MISSING_PROPERTY n) \<longrightarrow>
      n = ''id'' \<and> con_id p = None \<or> n = ''uuid'' \<and> con_uuid p = None \<or> n = ''type'' \<and> con_type p = None) \<and>
   (connection_verify p ss = Inl (BM_SETTING_CONNECTION_ERROR TYPE_SETTING_NOT_FOUND n) \<longrightarrow>
      n = ''type'' \<and> (\<exists>t. con_type p = Some t \<and> (\<forall>s \<in> set ss. set_name s \<noteq> Some t)))"
proof -
  have "validate_uuid None = False"
    by (simp add: validate_uuid_def)
  then show ?thesis
    by (cases "con_id p"; cases "con_uuid p"; cases "con_type p"; cases ss)
       (auto simp: connection_verify_def find_setting_by_name_def find_None_iff find_Some_iff)
qed

theorem connection_verify_correct_witness:
  "connection_verify
     \<lparr>con_id = Some ''x'', con_uuid = Some ''0-f'', con_type = Some ''bluetooth'', con_autoconnect = True,
      con_timestamp = 0, con_read_only = False\<rparr>
     [\<lparr>set_name = Some ''serial'', set_priv = zero_priv BM_TYPE_SETTING_SERIAL\<rparr>] =
   Inl (BM_SETTING_CONNECTION_ERROR TYPE_SETTING_NOT_FOUND ''type'') \<and>
   find_setting_by_name
     [\<lparr>set_name = Some ''serial'', set_priv = zero_priv BM_TYPE_SETTING_SERIAL\<rparr>] ''bluetooth'' = None"
proof -
  let ?p = "\<lparr>con_id = Some ''x'', con_uuid = Some ''0-f'', con_type = Some ''bluetooth'', con_autoconnect = True,
      con_timestamp = 0, con_read_only = False\<rparr>"
  let ?ss = "[\<lparr>set_name = Some ''serial'', set_priv = zero_priv BM_TYPE_SETTING_SERIAL\<rparr>]"
  have "connection_verify ?p ?ss = Inl (BM_SETTING_CONNECTION_ERROR TYPE_SETTING_NOT_FOUND ''type'')"
    by (simp add: connection_verify_def validate_uuid_def isxdigit_def char_code_def find_setting_by_name_def)
  then show ?thesis
    using connection_verify_correct [of ?p ?ss "''type''"] by (simp add: find_setting_by_name_def)
qed

end
