(* ===== verification/Connection.thy ===== *)
theory Connection
  imports Setting
begin

text \<open>
  Connections, \<^verbatim>\<open>src/barcode-manager/libbm-util/bm-connection.c\<close>: the registry of setting types,
  the table of settings of a connection, its verification, comparison, diff and serialisation,
  and the scope and path its owner gives it.  A \<^verbatim>\<open>NULL\<close> connection is \<open>None\<close>; a signal that an
  operation emits is part of its result.
\<close>

section \<open>The registry of setting types\<close>

record setting_info =
  info_name :: string
  info_type :: setting_class
  info_priority :: u32
  info_error_quark :: string

text \<open>\<^verbatim>\<open>register_default_settings\<close>.\<close>

definition default_map :: "setting_info list" where
  "default_map =
    [\<lparr>info_name = ''connection'', info_type = BM_TYPE_SETTING_CONNECTION, info_priority = 0,
      info_error_quark = ''bm-setting-connection-error-quark''\<rparr>,
     \<lparr>info_name = ''bluetooth'', info_type = BM_TYPE_SETTING_BLUETOOTH, info_priority = 1,
      info_error_quark = ''bm-setting-bluetooth-error-quark''\<rparr>,
     \<lparr>info_name = ''serial'', info_type = BM_TYPE_SETTING_SERIAL, info_priority = 2,
      info_error_quark = ''bm-setting-serial-error-quark''\<rparr>]"

text \<open>\<^verbatim>\<open>g_type_name\<close> and \<^verbatim>\<open>g_type_from_name\<close> for the three classes.\<close>

fun type_name :: "setting_class \<Rightarrow> string" where
  "type_name BM_TYPE_SETTING_CONNECTION = ''BMSettingConnection''"
| "type_name BM_TYPE_SETTING_BLUETOOTH = ''BMSettingBluetooth''"
| "type_name BM_TYPE_SETTING_SERIAL = ''BMSettingSerial''"

definition type_from_name :: "string \<Rightarrow> setting_class option" where
  "type_from_name n =
     find (\<lambda>c. type_name c = n) [BM_TYPE_SETTING_CONNECTION, BM_TYPE_SETTING_BLUETOOTH, BM_TYPE_SETTING_SERIAL]"

definition setting_register :: "string \<Rightarrow> setting_class \<Rightarrow> (string, string) ghash \<Rightarrow> (string, string) ghash" where
  "setting_register name cls registered = gh_insert name (type_name cls) registered"

definition registered_settings :: "(string, string) ghash" where
  "registered_settings =
     foldl (\<lambda>t i. setting_register (info_name i) (info_type i) t) gh_new default_map"

definition get_priority_for_setting_type :: "setting_class \<Rightarrow> u32" where
  "get_priority_for_setting_type cls =
     (case find (\<lambda>i. info_type i = cls) default_map of
        Some i \<Rightarrow> info_priority i | None \<Rightarrow> 0xFFFFFFFF)"

definition bm_connection_lookup_setting_type :: "string \<Rightarrow> setting_class option" where
  "bm_connection_lookup_setting_type name =
     (case gh_lookup registered_settings name of
        Some tn \<Rightarrow> type_from_name tn | None \<Rightarrow> None)"

text \<open>The array has no terminating entry: \<open>None\<close> stands for a search that runs past its end, which
  only an unknown quark or type provokes.\<close>

definition bm_connection_lookup_setting_type_by_quark :: "string \<Rightarrow> setting_class option" where
  "bm_connection_lookup_setting_type_by_quark quark =
     map_option info_type (find (\<lambda>i. info_error_quark i = quark) default_map)"

definition bm_connection_create_setting :: "transform \<Rightarrow> string \<Rightarrow> setting option" where
  "bm_connection_create_setting tr name =
     (case bm_connection_lookup_setting_type name of
        Some cls \<Rightarrow> g_object_newv tr cls [] | None \<Rightarrow> None)"

section \<open>The settings of a connection\<close>

record connection =
  conn_settings :: "(string, setting) ghash"
  conn_scope :: u32
  conn_path :: cstr

definition BM_CONNECTION_SCOPE_UNKNOWN :: u32 where "BM_CONNECTION_SCOPE_UNKNOWN = 0"
definition BM_CONNECTION_SCOPE_SYSTEM :: u32 where "BM_CONNECTION_SCOPE_SYSTEM = 1"
definition BM_CONNECTION_SCOPE_USER :: u32 where "BM_CONNECTION_SCOPE_USER = 2"

definition bm_connection_new :: connection where
  "bm_connection_new = \<lparr>conn_settings = gh_new, conn_scope = BM_CONNECTION_SCOPE_UNKNOWN, conn_path = None\<rparr>"

definition bm_connection_add_setting :: "setting \<Rightarrow> connection \<Rightarrow> connection" where
  "bm_connection_add_setting s c =
     c\<lparr>conn_settings := gh_insert (type_name (object_type s)) s (conn_settings c)\<rparr>"

definition bm_connection_remove_setting :: "setting_class \<Rightarrow> connection \<Rightarrow> connection" where
  "bm_connection_remove_setting cls c = c\<lparr>conn_settings := gh_remove (type_name cls) (conn_settings c)\<rparr>"

definition bm_connection_get_setting :: "connection \<Rightarrow> setting_class \<Rightarrow> setting option" where
  "bm_connection_get_setting c cls = gh_lookup (conn_settings c) (type_name cls)"

definition bm_connection_get_setting_by_name :: "connection \<Rightarrow> string \<Rightarrow> setting option" where
  "bm_connection_get_setting_by_name c name =
     (case bm_connection_lookup_setting_type name of
        Some cls \<Rightarrow> bm_connection_get_setting c cls | None \<Rightarrow> None)"

definition parse_one_setting ::
    "transform \<Rightarrow> string \<Rightarrow> (string, gvalue) ghash \<Rightarrow> connection \<Rightarrow> connection" where
  "parse_one_setting tr key value c =
     (case bm_connection_lookup_setting_type key of
        None \<Rightarrow> c
      | Some cls \<Rightarrow>
          (case bm_setting_new_from_hash tr cls value of
             Some s \<Rightarrow> bm_connection_add_setting s c | None \<Rightarrow> c))"

section \<open>Verification\<close>

fun verify_loop :: "setting list \<Rightarrow> setting list \<Rightarrow> bm_error + unit" where
  "verify_loop [] all_settings = Inr ()"
| "verify_loop (s # ss) all_settings =
     (case bm_setting_verify s all_settings of
        Inl e \<Rightarrow> Inl e | Inr _ \<Rightarrow> verify_loop ss all_settings)"

definition bm_connection_verify :: "connection \<Rightarrow> bm_error + unit" where
  "bm_connection_verify c =
     (case bm_connection_get_setting c BM_TYPE_SETTING_CONNECTION of
        None \<Rightarrow> Inl (BM_CONNECTION_ERROR_CONNECTION_SETTING_NOT_FOUND ''connection setting not found'')
      | Some s_con \<Rightarrow>
          (let all_settings = gh_values (conn_settings c)
           in verify_loop (gh_values (conn_settings c)) all_settings))"

text \<open>The connection after the call, and its result.\<close>

definition bm_connection_replace_settings ::
    "transform \<Rightarrow> (string, (string, gvalue) ghash) ghash \<Rightarrow> connection \<Rightarrow> connection \<times> (bm_error + unit)" where
  "bm_connection_replace_settings tr new_settings c =
     (let c' = gh_foreach (parse_one_setting tr) new_settings (c\<lparr>conn_settings := gh_new\<rparr>)
      in (c', bm_connection_verify c'))"

definition bm_connection_new_from_hash ::
    "transform \<Rightarrow> (string, (string, gvalue) ghash) ghash \<Rightarrow> bm_error + connection" where
  "bm_connection_new_from_hash tr hash =
     (let c = gh_foreach (parse_one_setting tr) hash bm_connection_new
      in case bm_connection_verify c of Inl e \<Rightarrow> Inl e | Inr _ \<Rightarrow> Inr c)"

section \<open>Comparing and diffing\<close>

definition compare_one_setting ::
    "numbering \<Rightarrow> connection \<Rightarrow> u32 \<Rightarrow> string \<Rightarrow> setting \<Rightarrow> bool \<Rightarrow> bool" where
  "compare_one_setting gt other flags key s failed =
     (if failed then failed
      else (case bm_connection_get_setting other (object_type s) of
              Some other_setting \<Rightarrow> \<not> bm_setting_compare gt s other_setting flags
            | None \<Rightarrow> True))"

definition bm_connection_compare ::
    "numbering \<Rightarrow> connection option \<Rightarrow> connection option \<Rightarrow> u32 \<Rightarrow> bool" where
  "bm_connection_compare gt a b flags =
     (case (a, b) of
        (None, None) \<Rightarrow> True
      | (Some a, Some b) \<Rightarrow>
          (let failed = gh_foreach (compare_one_setting gt b flags) (conn_settings a) False;
               failed' = (if \<not> failed then gh_foreach (compare_one_setting gt a flags) (conn_settings b) False
                          else failed)
           in \<not> failed')
      | _ \<Rightarrow> False)"

text \<open>The diff tables are kept under the settings' names.\<close>

type_synonym diff_table = "(string, u32) ghash"

definition diff_lookup_table :: "(cstr, diff_table option) ghash \<Rightarrow> cstr \<Rightarrow> diff_table option" where
  "diff_lookup_table diffs name = (case gh_lookup diffs name of Some t \<Rightarrow> t | None \<Rightarrow> None)"

text \<open>\<^verbatim>\<open>results\<close> is the table itself, so an existing one is changed in place.\<close>

definition diff_one_setting ::
    "numbering \<Rightarrow> connection option \<Rightarrow> u32 \<Rightarrow> bool \<Rightarrow> string \<Rightarrow> setting \<Rightarrow>
     (cstr, diff_table option) ghash \<Rightarrow> (cstr, diff_table option) ghash" where
  "diff_one_setting gt b flags invert_results key a_setting diffs =
     (let setting_name = set_name a_setting;
          b_setting = (case b of Some b \<Rightarrow> bm_connection_get_setting b (object_type a_setting) | None \<Rightarrow> None);
          results = diff_lookup_table diffs setting_name
      in case bm_setting_diff gt a_setting b_setting flags invert_results results of
           (same, results') \<Rightarrow> if \<not> same then gh_insert setting_name results' diffs else diffs)"

definition diff_one_connection ::
    "numbering \<Rightarrow> connection \<Rightarrow> connection option \<Rightarrow> u32 \<Rightarrow> bool \<Rightarrow>
     (cstr, diff_table option) ghash \<Rightarrow> (cstr, diff_table option) ghash" where
  "diff_one_connection gt a b flags invert_results diffs =
     gh_foreach (diff_one_setting gt b flags invert_results) (conn_settings a) diffs"

text \<open>\<open>same_object\<close> is the outcome of \<^verbatim>\<open>a == b\<close>, a comparison of pointers.\<close>

definition bm_connection_diff ::
    "numbering \<Rightarrow> bool \<Rightarrow> connection \<Rightarrow> connection option \<Rightarrow> u32 \<Rightarrow>
     bool \<times> (cstr, diff_table option) ghash option" where
  "bm_connection_diff gt same_object a b flags =
     (if same_object then (True, None)
      else
        (let diffs = diff_one_connection gt a b flags False gh_new;
             diffs' = (case b of Some b' \<Rightarrow> diff_one_connection gt b' (Some a) flags True diffs | None \<Rightarrow> diffs);
             out_settings = (if gh_size diffs' = 0 then None else Some diffs')
         in (out_settings = None, out_settings)))"

section \<open>Secrets\<close>

datatype connection_signal = SECRETS_UPDATED string

definition bm_connection_update_secrets ::
    "transform \<Rightarrow> string \<Rightarrow> (string, gvalue) ghash \<Rightarrow> connection \<Rightarrow>
     connection \<times> (bm_error + unit) \<times> connection_signal list" where
  "bm_connection_update_secrets tr setting_name setting_secrets c =
     (case bm_connection_get_setting_by_name c setting_name of
        None \<Rightarrow> (c, Inl (BM_CONNECTION_ERROR_CONNECTION_SETTING_NOT_FOUND setting_name), [])
      | Some s \<Rightarrow>
          (case bm_setting_update_secrets tr s setting_secrets of
             (err, s') \<Rightarrow>
               (let c' = bm_connection_add_setting s' c
                in case err of
                     None \<Rightarrow> (c', Inr (), [SECRETS_UPDATED setting_name])
                   | Some e \<Rightarrow> (c', Inl e, []))))"

definition setting_priority_compare :: "setting \<Rightarrow> setting \<Rightarrow> int" where
  "setting_priority_compare a b =
     (let prio_a = get_priority_for_setting_type (object_type a);
          prio_b = get_priority_for_setting_type (object_type b)
      in if prio_a < prio_b then -1 else if prio_a = prio_b then 0 else 1)"

text \<open>\<^verbatim>\<open>g_slist_insert_sorted\<close>: before the first element that is not smaller.\<close>

fun slist_insert_sorted :: "('a \<Rightarrow> 'a \<Rightarrow> int) \<Rightarrow> 'a \<Rightarrow> 'a list \<Rightarrow> 'a list" where
  "slist_insert_sorted f x [] = [x]"
| "slist_insert_sorted f x (y # ys) =
     (if f x y > 0 then y # slist_insert_sorted f x ys else x # y # ys)"

definition add_setting_to_list :: "string \<Rightarrow> setting \<Rightarrow> setting list \<Rightarrow> setting list" where
  "add_setting_to_list key data xs = slist_insert_sorted setting_priority_compare data xs"

fun need_secrets_loop :: "setting list \<Rightarrow> (cstr \<times> string list) option" where
  "need_secrets_loop [] = None"
| "need_secrets_loop (s # ss) =
     (case bm_setting_need_secrets s of
        Some secrets \<Rightarrow> Some (set_name s, secrets) | None \<Rightarrow> need_secrets_loop ss)"

text \<open>The name of the setting and the hints.\<close>

definition bm_connection_need_secrets :: "connection \<Rightarrow> (cstr \<times> string list) option" where
  "bm_connection_need_secrets c = need_secrets_loop (gh_foreach add_setting_to_list (conn_settings c) [])"

definition bm_connection_clear_secrets :: "transform \<Rightarrow> connection \<Rightarrow> connection" where
  "bm_connection_clear_secrets tr c =
     c\<lparr>conn_settings := map (\<lambda>(key, data). (key, bm_setting_clear_secrets tr data)) (conn_settings c)\<rparr>"

section \<open>Serialising, enumerating and duplicating\<close>

text \<open>A \<^verbatim>\<open>NULL\<close> name cannot be a key; \<open>connection_ok\<close> below excludes it.\<close>

definition setting_key :: "setting \<Rightarrow> string" where
  "setting_key s = (case set_name s of Some n \<Rightarrow> n | None \<Rightarrow> [])"

definition add_one_setting_to_hash ::
    "numbering \<Rightarrow> string \<Rightarrow> setting \<Rightarrow> (string, (string, gvalue) ghash) ghash \<Rightarrow>
     (string, (string, gvalue) ghash) ghash" where
  "add_one_setting_to_hash gt key data connection_hash =
     gh_insert (setting_key data) (bm_setting_to_hash gt data) connection_hash"

definition bm_connection_to_hash ::
    "numbering \<Rightarrow> connection \<Rightarrow> (string, (string, gvalue) ghash) ghash option" where
  "bm_connection_to_hash gt c =
     (let connection_hash = gh_foreach (add_one_setting_to_hash gt) (conn_settings c) gh_new
      in if gh_size connection_hash < 1 then None else Some connection_hash)"

definition bm_connection_for_each_setting_value ::
    "connection \<Rightarrow> (setting \<Rightarrow> param_spec \<Rightarrow> gvalue \<Rightarrow> 'u \<Rightarrow> 'u) \<Rightarrow> 'u \<Rightarrow> 'u" where
  "bm_connection_for_each_setting_value c func user_data =
     gh_foreach (\<lambda>key value u. bm_setting_enumerate_values value func u) (conn_settings c) user_data"

definition bm_connection_dump :: "numbering \<Rightarrow> (gvalue \<Rightarrow> string) \<Rightarrow> connection \<Rightarrow> string" where
  "bm_connection_dump gt contents c =
     gh_foreach (\<lambda>key value out. out @ bm_setting_to_string gt contents value @ [CHR 0x0A]) (conn_settings c) []"

definition bm_connection_set_scope :: "u32 \<Rightarrow> connection \<Rightarrow> connection" where
  "bm_connection_set_scope scope c = c\<lparr>conn_scope := scope\<rparr>"

definition bm_connection_get_scope :: "connection \<Rightarrow> u32" where
  "bm_connection_get_scope c = conn_scope c"

definition bm_connection_set_path :: "cstr \<Rightarrow> connection \<Rightarrow> connection" where
  "bm_connection_set_path path c = c\<lparr>conn_path := path\<rparr>"

definition bm_connection_get_path :: "connection \<Rightarrow> cstr" where
  "bm_connection_get_path c = conn_path c"

text \<open>\<^verbatim>\<open>g_object_unref\<close> apart, \<^verbatim>\<open>bm_setting_duplicate\<close> of a live setting never returns \<^verbatim>\<open>NULL\<close>.\<close>

definition duplicate_cb :: "transform \<Rightarrow> string \<Rightarrow> setting \<Rightarrow> connection \<Rightarrow> connection" where
  "duplicate_cb tr key value dup =
     (case bm_setting_duplicate tr value of Some s \<Rightarrow> bm_connection_add_setting s dup | None \<Rightarrow> dup)"

definition bm_connection_duplicate :: "transform \<Rightarrow> connection \<Rightarrow> connection" where
  "bm_connection_duplicate tr c =
     gh_foreach (duplicate_cb tr) (conn_settings c)
       (bm_connection_set_path (bm_connection_get_path c)
         (bm_connection_set_scope (bm_connection_get_scope c) bm_connection_new))"

text \<open>The object's own properties \<^verbatim>\<open>scope\<close> and \<^verbatim>\<open>path\<close>.\<close>

definition connection_set_prop :: "string \<Rightarrow> gvalue \<Rightarrow> connection \<Rightarrow> connection" where
  "connection_set_prop n v c =
     (if n = ''scope'' then bm_connection_set_scope (value_uint v) c
      else if n = ''path'' then bm_connection_set_path (value_string v) c
      else c)"

definition connection_get_prop :: "string \<Rightarrow> connection \<Rightarrow> gvalue option" where
  "connection_get_prop n c =
     (if n = ''scope'' then Some (GUInt (bm_connection_get_scope c))
      else if n = ''path'' then Some (GString (bm_connection_get_path c))
      else None)"


section \<open>The registry\<close>

lemma type_name_inj [simp]: "type_name a = type_name b \<longleftrightarrow> a = b"
  by (cases a; cases b) simp_all

lemma class_name_inj [simp]: "class_name a = class_name b \<longleftrightarrow> a = b"
  by (cases a; cases b) simp_all

lemma registered_settings_eq:
  "registered_settings =
     [(''connection'', ''BMSettingConnection''), (''bluetooth'', ''BMSettingBluetooth''),
      (''serial'', ''BMSettingSerial'')]"
  by (simp add: registered_settings_def default_map_def setting_register_def gh_new_def gh_insert_def)

lemma lookup_setting_type [simp]: "bm_connection_lookup_setting_type (class_name c) = Some c"
  by (cases c) (simp_all add: bm_connection_lookup_setting_type_def registered_settings_eq type_from_name_def)

lemma lookup_setting_type_iff:
  "bm_connection_lookup_setting_type n = Some c \<longleftrightarrow> n = class_name c"
proof
  assume "bm_connection_lookup_setting_type n = Some c"
  then show "n = class_name c"
    by (auto simp: bm_connection_lookup_setting_type_def registered_settings_eq type_from_name_def
        split: if_splits option.splits)
qed simp

lemma lookup_setting_type_none: "bm_connection_lookup_setting_type n = None \<longleftrightarrow> (\<forall>c. n \<noteq> class_name c)"
  using lookup_setting_type_iff [of n] by (cases "bm_connection_lookup_setting_type n") auto

section \<open>The invariant of the settings table\<close>

text \<open>Every setting is kept under the name of its type, so there is at most one of each class.\<close>

definition connection_wf :: "connection \<Rightarrow> bool" where
  "connection_wf c \<longleftrightarrow> gh_wf (conn_settings c) \<and>
     (\<forall>k s. gh_lookup (conn_settings c) k = Some s \<longrightarrow> k = type_name (object_type s))"

lemma new_wf: "connection_wf bm_connection_new"
  by (simp add: connection_wf_def bm_connection_new_def gh_simps ght.invar_new)

lemma add_setting_wf [bm_inv]: "connection_wf c \<Longrightarrow> connection_wf (bm_connection_add_setting s c)"
  by (simp add: connection_wf_def bm_connection_add_setting_def gh_simps ght.invar_ins)

lemma remove_setting_wf [bm_inv]: "connection_wf c \<Longrightarrow> connection_wf (bm_connection_remove_setting cls c)"
  by (simp add: connection_wf_def bm_connection_remove_setting_def gh_simps ght.invar_del)

lemma get_add_setting [bm_simps]:
  "bm_connection_get_setting (bm_connection_add_setting s c) cls =
     (if cls = object_type s then Some s else bm_connection_get_setting c cls)"
  by (simp add: bm_connection_get_setting_def bm_connection_add_setting_def gh_simps)

lemma get_remove_setting [bm_simps]:
  "connection_wf c \<Longrightarrow> bm_connection_get_setting (bm_connection_remove_setting cls' c) cls =
     (if cls = cls' then None else bm_connection_get_setting c cls)"
  by (simp add: bm_connection_get_setting_def bm_connection_remove_setting_def gh_simps connection_wf_def)

lemma get_new [bm_simps]: "bm_connection_get_setting bm_connection_new cls = None"
  by (simp add: bm_connection_get_setting_def bm_connection_new_def gh_simps)

lemma get_setting_type: "connection_wf c \<Longrightarrow> bm_connection_get_setting c cls = Some s \<Longrightarrow> object_type s = cls"
  unfolding connection_wf_def bm_connection_get_setting_def by (metis type_name_inj)

lemma connection_wf_entry:
  "connection_wf c \<Longrightarrow> (k, s) \<in> set (conn_settings c) \<longleftrightarrow>
     k = type_name (object_type s) \<and> bm_connection_get_setting c (object_type s) = Some s"
  using ght.entries_look [of "conn_settings c" k s]
  by (auto simp: connection_wf_def bm_connection_get_setting_def)

lemma settings_of:
  "connection_wf c \<Longrightarrow> s \<in> set (gh_values (conn_settings c)) \<longleftrightarrow> bm_connection_get_setting c (object_type s) = Some s"
  by (auto simp: gh_values_def connection_wf_entry
      intro: image_eqI [where x = "(type_name (object_type s), s)"])

section \<open>Building a connection from a hash table\<close>

lemma foldl_cls: "object_type (f s x) = object_type s \<Longrightarrow> object_type s = c \<Longrightarrow> object_type (f s x) = c"
  by simp

lemma g_object_set_property_type [simp]: "object_type (g_object_set_property tr s ps v) = object_type s"
  by (simp add: g_object_set_property_def object_type_set split: option.split)

lemma newv_type: "g_object_newv tr cls params = Some s \<Longrightarrow> object_type s = cls"
proof -
  have "object_type (foldl (construct_step tr ps) s pss) = object_type s" for ps s pss
    by (induction pss arbitrary: s) (simp_all add: construct_step_def)
  moreover have "object_type (foldl (param_step tr cls) s kvs) = object_type s" for s kvs
    by (induction kvs arbitrary: s) (simp_all add: param_step_def split: option.split)
  moreover assume "g_object_newv tr cls params = Some s"
  ultimately show ?thesis
    by (auto simp: g_object_newv_def setting_constructor_def split: if_splits)
qed

lemma new_from_hash_type: "bm_setting_new_from_hash tr cls h = Some s \<Longrightarrow> object_type s = cls"
  by (simp add: bm_setting_new_from_hash_def newv_type)

lemma parse_one_wf [bm_inv]: "connection_wf c \<Longrightarrow> connection_wf (parse_one_setting tr key value c)"
  by (simp add: parse_one_setting_def add_setting_wf split: option.split)

lemma parse_wf [bm_inv]: "connection_wf c \<Longrightarrow> connection_wf (gh_foreach (parse_one_setting tr) H c)"
  by (induction H arbitrary: c) (auto simp: parse_one_wf)

lemma parse_get:
  "gh_wf H \<Longrightarrow> bm_connection_get_setting (gh_foreach (parse_one_setting tr) H c) cls =
     (case gh_lookup H (class_name cls) of
        Some h \<Rightarrow> (case bm_setting_new_from_hash tr cls h of
                     Some s \<Rightarrow> Some s | None \<Rightarrow> bm_connection_get_setting c cls)
      | None \<Rightarrow> bm_connection_get_setting c cls)"
proof (induction H arbitrary: c)
  case (Cons kh H)
  obtain k h where kh: "kh = (k, h)" by (cases kh)
  have one: "bm_connection_get_setting (parse_one_setting tr k h c) cls =
      (if k = class_name cls then (case bm_setting_new_from_hash tr cls h of
         Some s \<Rightarrow> Some s | None \<Rightarrow> bm_connection_get_setting c cls) else bm_connection_get_setting c cls)"
  proof (cases "bm_connection_lookup_setting_type k")
    case None
    then have "k \<noteq> class_name cls" by auto
    then show ?thesis by (simp add: parse_one_setting_def None)
  next
    case (Some cls')
    then have "k = class_name cls'" by (simp add: lookup_setting_type_iff)
    then show ?thesis
      by (auto simp: parse_one_setting_def get_add_setting dest: new_from_hash_type split: option.split)
  qed
  have "gh_lookup H (class_name cls) = None" if "k = class_name cls"
    using Cons.prems kh that by (simp add: ght.keys_look)
  with Cons show ?case
    by (auto simp: kh one split: option.split)
qed simp

lemma parse_scope_path [simp]:
  "conn_scope (gh_foreach (parse_one_setting tr) H c) = conn_scope c"
  "conn_path (gh_foreach (parse_one_setting tr) H c) = conn_path c"
  by (induction H arbitrary: c)
     (auto simp: parse_one_setting_def bm_connection_add_setting_def split: option.split)

section \<open>Verification\<close>

lemma verify_loop_ok: "verify_loop ss all = Inr () \<longleftrightarrow> (\<forall>s \<in> set ss. bm_setting_verify s all = Inr ())"
  by (induction ss) (auto split: sum.split)

lemma verify_loop_error:
  "verify_loop ss all = Inl e \<Longrightarrow> \<exists>s \<in> set ss. bm_setting_verify s all = Inl e"
  by (induction ss) (auto split: sum.splits)

text \<open>Only the set of the settings of the connection matters, not their order.\<close>

lemma setting_verify_set:
  assumes "set xs = set ys"
  shows "bm_setting_verify s xs = bm_setting_verify s ys"
proof -
  have "find_setting_by_name xs t = None \<longleftrightarrow> find_setting_by_name ys t = None" for t
    using assms by (simp add: find_setting_by_name_def find_None_iff)
  moreover have "xs = [] \<longleftrightarrow> ys = []"
    using assms by (metis set_empty)
  ultimately show ?thesis
    by (cases "set_priv s")
       (auto split: option.split simp: bm_setting_verify_def connection_verify_def bluetooth_verify_def serial_verify_def)
qed

lemma connection_verify_ok:
  "bm_connection_verify c = Inr () \<longleftrightarrow>
     bm_connection_get_setting c BM_TYPE_SETTING_CONNECTION \<noteq> None \<and>
     (\<forall>s \<in> set (gh_values (conn_settings c)). bm_setting_verify s (gh_values (conn_settings c)) = Inr ())"
  by (auto simp: bm_connection_verify_def verify_loop_ok split: option.split)

lemma connection_verify_same:
  assumes "connection_wf c" "connection_wf d"
    and "\<And>cls. bm_connection_get_setting d cls = bm_connection_get_setting c cls"
  shows "bm_connection_verify d = Inr () \<longleftrightarrow> bm_connection_verify c = Inr ()"
proof -
  have same: "set (gh_values (conn_settings d)) = set (gh_values (conn_settings c))"
    using assms by (auto simp: settings_of)
  then show ?thesis
    using setting_verify_set [OF same] by (simp add: connection_verify_ok assms(3))
qed

section \<open>The round trip through a hash table\<close>

definition connection_ok :: "connection \<Rightarrow> bool" where
  "connection_ok c \<longleftrightarrow> connection_wf c \<and>
     (\<forall>cls s. bm_connection_get_setting c cls = Some s \<longrightarrow> setting_ok s)"

lemma connection_ok_name:
  "connection_ok c \<Longrightarrow> bm_connection_get_setting c cls = Some s \<Longrightarrow>
     set_name s = Some (class_name cls) \<and> setting_key s = class_name cls \<and> object_type s = cls"
  by (metis connection_ok_def get_setting_type option.simps(5) setting_key_def setting_ok_def)

lemma connection_ok_entry:
  assumes "connection_ok c" "(k, s) \<in> set (conn_settings c)"
  shows "k = type_name (object_type s) \<and> setting_key s = class_name (object_type s) \<and>
    set_name s = Some (class_name (object_type s)) \<and> setting_ok s"
proof -
  have k: "k = type_name (object_type s)" and get: "bm_connection_get_setting c (object_type s) = Some s"
    using assms connection_wf_entry [of c k s] unfolding connection_ok_def by blast+
  have "setting_ok s"
    using assms(1) get unfolding connection_ok_def by blast
  then show ?thesis
    using k connection_ok_name [OF assms(1) get] by simp
qed

lemma map_of_rekey:
  assumes "\<And>k s. (k, s) \<in> set xs \<Longrightarrow> k = type_name (object_type s) \<and> key s = class_name (object_type s)"
  shows "map_of (map (\<lambda>(k, s). (key s, f s)) xs) (class_name cls) = map_option f (map_of xs (type_name cls))"
  using assms
proof (induction xs)
  case (Cons ks xs)
  obtain k s where ks: "ks = (k, s)" by (cases ks)
  have "k = type_name (object_type s)" "key s = class_name (object_type s)"
    using Cons.prems [of k s] ks by auto
  moreover have "map_of (map (\<lambda>(k, s). (key s, f s)) xs) (class_name cls) = map_option f (map_of xs (type_name cls))"
    by (rule Cons.IH, rule Cons.prems) simp
  ultimately show ?case
    by (simp add: ks)
qed simp

lemma rekey_distinct:
  assumes "\<And>k s. (k, s) \<in> set xs \<Longrightarrow> k = type_name (object_type s) \<and> key s = class_name (object_type s)"
    and "gh_wf xs"
  shows "distinct (map fst (map (\<lambda>(k, s). (key s, f s)) xs))"
  using assms
proof (induction xs)
  case (Cons ks xs)
  obtain k s where ks: "ks = (k, s)" by (cases ks)
  have "key s \<noteq> key s'" if "(k', s') \<in> set xs" for k' s'
  proof -
    have "k \<noteq> k'"
      using Cons.prems(2) that ks by (metis fst_conv gh_keys_def gh_wf_Cons image_eqI image_set)
    then show ?thesis
      using Cons.prems(1) [of k s] Cons.prems(1) [of k' s'] that ks by auto
  qed
  with Cons ks show ?case by fastforce
qed simp

lemma to_hash_foreach:
  "gh_foreach (add_one_setting_to_hash gt) xs t =
     foldl (\<lambda>t (k, v). gh_insert k v t) t (map (\<lambda>(k, s). (setting_key s, bm_setting_to_hash gt s)) xs)"
  by (induction xs arbitrary: t) (auto simp: add_one_setting_to_hash_def)

lemma connection_to_hash_lookup:
  assumes "connection_ok c"
  shows "gh_lookup (gh_foreach (add_one_setting_to_hash gt) (conn_settings c) gh_new) (class_name cls) =
    map_option (bm_setting_to_hash gt) (bm_connection_get_setting c cls)"
proof -
  have "gh_wf (conn_settings c)"
    using assms by (simp add: connection_ok_def connection_wf_def)
  then have "distinct (map fst (map (\<lambda>(k, s). (setting_key s, bm_setting_to_hash gt s)) (conn_settings c)))"
    using connection_ok_entry [OF assms] by (intro rekey_distinct) auto
  then show ?thesis
    using connection_ok_entry [OF assms]
    by (simp add: to_hash_foreach ght.look_ins_all_distinct bm_connection_get_setting_def
          gh_lookup_def map_of_rekey)
qed

lemma connection_to_hash_lookup_other:
  assumes "connection_ok c" "\<forall>cls. n \<noteq> class_name cls"
  shows "gh_lookup (gh_foreach (add_one_setting_to_hash gt) (conn_settings c) gh_new) n = None"
proof -
  have "n \<notin> fst ` set (map (\<lambda>(k, s). (setting_key s, bm_setting_to_hash gt s)) (conn_settings c))"
    using connection_ok_entry [OF assms(1)] assms(2) by force
  then show ?thesis
    by (simp add: to_hash_foreach ght.look_ins_all ght.look_new map_add_def map_of_eq_None_iff
        rev_map [symmetric] split: option.split)
qed

text \<open>Two serialised connections with the same entries, whatever the order in their tables.\<close>

definition same_tables ::
    "(string, (string, gvalue) ghash) ghash \<Rightarrow> (string, (string, gvalue) ghash) ghash \<Rightarrow> bool" where
  "same_tables H K \<longleftrightarrow> gh_wf H \<and>
     (\<forall>n. rel_option (\<lambda>h k. gh_wf h \<and> gh_lookup h = gh_lookup k) (gh_lookup H n) (gh_lookup K n))"

lemma same_tables_get:
  assumes "connection_ok c"
    and H: "same_tables H (gh_foreach (add_one_setting_to_hash gt) (conn_settings c) gh_new)"
  shows "rel_option (\<lambda>h k. gh_wf h \<and> gh_lookup h = gh_lookup k) (gh_lookup H (class_name cls))
    (map_option (bm_setting_to_hash gt) (bm_connection_get_setting c cls))"
proof -
  have "rel_option (\<lambda>h k. gh_wf h \<and> gh_lookup h = gh_lookup k) (gh_lookup H (class_name cls))
      (gh_lookup (gh_foreach (add_one_setting_to_hash gt) (conn_settings c) gh_new) (class_name cls))"
    using H unfolding same_tables_def by blast
  then show ?thesis
    by (simp only: connection_to_hash_lookup [OF assms(1)])
qed

lemma parse_roundtrip:
  assumes "inj gt" "connection_ok c"
    and H: "same_tables H (gh_foreach (add_one_setting_to_hash gt) (conn_settings c) gh_new)"
  shows "bm_connection_get_setting (gh_foreach (parse_one_setting tr) H bm_connection_new) cls =
    bm_connection_get_setting c cls"
proof -
  have wf: "gh_wf H"
    using H unfolding same_tables_def by blast
  show ?thesis
  proof (cases "bm_connection_get_setting c cls")
    case None
    then show ?thesis
      using same_tables_get [OF assms(2) H, of cls] by (simp add: parse_get [OF wf] get_new)
  next
    case (Some s)
    then obtain h where h: "gh_lookup H (class_name cls) = Some h" "gh_wf h"
        "gh_lookup h = gh_lookup (bm_setting_to_hash gt s)"
      using same_tables_get [OF assms(2) H, of cls] by (auto simp: option_rel_Some2)
    have s: "object_type s = cls" "setting_ok s"
      using Some assms(2) connection_ok_name [OF assms(2) Some] unfolding connection_ok_def by blast+
    have "bm_setting_new_from_hash tr cls h = Some s"
      using new_from_hash [OF assms(1) s(2), of h tr] h s(1) by (simp add: hash_of_def)
    then show ?thesis
      by (simp add: parse_get [OF wf] h(1) Some)
  qed
qed

section \<open>Comparing\<close>

definition setting_differs :: "numbering \<Rightarrow> connection \<Rightarrow> u32 \<Rightarrow> setting \<Rightarrow> bool" where
  "setting_differs gt other flags s =
     (case bm_connection_get_setting other (object_type s) of
        Some t \<Rightarrow> \<not> bm_setting_compare gt s t flags | None \<Rightarrow> True)"

lemma compare_foreach:
  "gh_foreach (compare_one_setting gt other flags) xs failed \<longleftrightarrow>
     failed \<or> (\<exists>s \<in> set (gh_values xs). setting_differs gt other flags s)"
proof (induction xs arbitrary: failed)
  case (Cons ks xs)
  obtain k s where ks: "ks = (k, s)" by (cases ks)
  have "compare_one_setting gt other flags k s failed \<longleftrightarrow> failed \<or> setting_differs gt other flags s"
    by (simp add: compare_one_setting_def setting_differs_def)
  then show ?case
    by (auto simp: ks Cons.IH gh_values_def)
qed (simp add: gh_values_def)

lemma compare_side:
  assumes "inj gt" "connection_wf a"
  shows "gh_foreach (compare_one_setting gt b flags) (conn_settings a) False \<longleftrightarrow>
    \<not> (\<forall>cls s. bm_connection_get_setting a cls = Some s \<longrightarrow>
        (\<exists>t. bm_connection_get_setting b cls = Some t \<and> same_properties s t flags))"
proof -
  have "setting_differs gt b flags s \<longleftrightarrow>
      \<not> (\<exists>t. bm_connection_get_setting b (object_type s) = Some t \<and> same_properties s t flags)" for s
    by (auto simp: setting_differs_def compare_same_properties [OF assms(1)] split: option.split)
  then show ?thesis
    unfolding compare_foreach Bex_def settings_of [OF assms(2)]
    using get_setting_type [OF assms(2)] by metis
qed

lemma rel_option_both:
  "(\<And>s t. P s t = P t s) \<Longrightarrow> rel_option P x y \<longleftrightarrow>
     (\<forall>s. x = Some s \<longrightarrow> (\<exists>t. y = Some t \<and> P s t)) \<and> (\<forall>t. y = Some t \<longrightarrow> (\<exists>s. x = Some s \<and> P t s))"
  by (cases x; cases y) auto

lemma connection_compare_iff:
  assumes "inj gt" "connection_wf a" "connection_wf b"
  shows "bm_connection_compare gt (Some a) (Some b) flags \<longleftrightarrow>
    (\<forall>cls. rel_option (\<lambda>s t. same_properties s t flags)
       (bm_connection_get_setting a cls) (bm_connection_get_setting b cls))"
proof -
  have eq: "bm_connection_compare gt (Some a) (Some b) flags \<longleftrightarrow>
      \<not> gh_foreach (compare_one_setting gt b flags) (conn_settings a) False \<and>
      \<not> gh_foreach (compare_one_setting gt a flags) (conn_settings b) False"
    by (simp add: bm_connection_compare_def Let_def)
  have sym: "same_properties s t flags = same_properties t s flags" for s t
    using same_properties_equiv(2) by blast
  show ?thesis
    unfolding eq compare_side [OF assms(1,2)] compare_side [OF assms(1,3)] not_not
      rel_option_both [where P = "\<lambda>s t. same_properties s t flags", OF sym]
    by blast
qed

section \<open>Diffing\<close>

abbreviation "dir_a invert \<equiv> (if invert then DIFF_IN_B else DIFF_IN_A)"
abbreviation "dir_b invert \<equiv> (if invert then DIFF_IN_A else DIFF_IN_B)"

lemma setting_diff_first:
  assumes "\<And>t. b = Some t \<Longrightarrow> object_type s = object_type t"
  shows "bm_setting_diff gt s b flags iv None =
    (let T = foldl (diff_step gt s b flags (dir_a iv) (dir_b iv)) gh_new (class_properties (object_type s))
     in if \<forall>n. gh_lookup T n = None then (True, None) else (False, Some T))"
  using assms by (cases b) (simp_all add: bm_setting_diff_def Let_def gh_size_0_iff)

lemma setting_diff_again:
  assumes "\<And>t. b = Some t \<Longrightarrow> object_type s = object_type t"
  shows "bm_setting_diff gt s b flags iv (Some T) =
    (False, Some (foldl (diff_step gt s b flags (dir_a iv) (dir_b iv)) T (class_properties (object_type s))))"
  using assms by (cases b) (simp_all add: bm_setting_diff_def Let_def)

lemma setting_diff_fst:
  assumes "inj gt" "object_type s = object_type t" "set_name s = set_name t"
  shows "fst (bm_setting_diff gt s (Some t) flags iv None) \<longleftrightarrow> same_properties s t flags"
proof -
  have "fst (bm_setting_diff gt s (Some t) flags iv None) \<longleftrightarrow>
      (\<forall>n. diff_bits s t flags (dir_a iv) (dir_b iv) n = None)"
    using setting_diff_first [of "Some t" s gt flags iv] assms(2) diff_table [OF assms(1,2)]
    by (simp add: Let_def)
  also have "\<dots> \<longleftrightarrow> same_properties s t flags"
    unfolding diff_bits_None [OF assms(2)] same_properties_def
    using assms(2,3) by (auto simp: setting_get_name)
  finally show ?thesis .
qed

text \<open>A property of a setting that the other connection lacks.\<close>

definition missing_bits :: "setting \<Rightarrow> u32 \<Rightarrow> u32 \<Rightarrow> string \<Rightarrow> u32 option" where
  "missing_bits s flags r n =
     (case find_property (object_type s) n of
        None \<Rightarrow> None
      | Some ps \<Rightarrow> if should_compare_prop s ps flags \<and> n \<noteq> ''name'' then Some r else None)"

lemma missing_table:
  "gh_lookup (foldl (diff_step gt s None flags ar br) gh_new (class_properties (object_type s))) n =
     missing_bits s flags ar n"
  by (simp add: diff_lookup missing_bits_def diff_property_def ght.look_new split: option.split)

lemma missing_bits_some: "\<exists>n. missing_bits s flags r n \<noteq> None"
proof -
  have "\<exists>ps. find_property c (case c of BM_TYPE_SETTING_CONNECTION \<Rightarrow> ''type''
        | BM_TYPE_SETTING_BLUETOOTH \<Rightarrow> ''bdaddr'' | BM_TYPE_SETTING_SERIAL \<Rightarrow> ''baud'') = Some ps \<and>
      \<not> ps_fuzzy_ignore ps \<and> \<not> ps_secret ps" for c
    by (cases c) (simp_all add: find_property_def property_table_defs)
  then obtain ps where ps': "find_property (object_type s) (case object_type s of BM_TYPE_SETTING_CONNECTION \<Rightarrow> ''type''
        | BM_TYPE_SETTING_BLUETOOTH \<Rightarrow> ''bdaddr'' | BM_TYPE_SETTING_SERIAL \<Rightarrow> ''baud'') = Some ps"
      and flags: "\<not> ps_fuzzy_ignore ps" "\<not> ps_secret ps"
    by blast
  define n where "n = (case object_type s of BM_TYPE_SETTING_CONNECTION \<Rightarrow> ''type''
        | BM_TYPE_SETTING_BLUETOOTH \<Rightarrow> ''bdaddr'' | BM_TYPE_SETTING_SERIAL \<Rightarrow> ''baud'')"
  have ps: "find_property (object_type s) n = Some ps"
    using ps' by (simp only: n_def)
  have n: "n \<noteq> ''name''" "n \<noteq> ''id''"
    unfolding n_def by (cases "object_type s"; simp)+
  have "ps_name ps \<noteq> ''id''"
    using find_property_SomeD [OF ps(1)] n by simp
  then have "missing_bits s flags r n = Some r"
    using ps flags n by (simp add: missing_bits_def should_compare_prop_def)
  then show ?thesis by blast
qed

lemma setting_diff_missing: "\<not> fst (bm_setting_diff gt s None flags iv None)"
  using missing_bits_some [of s flags "dir_a iv"] setting_diff_first [of None s gt flags iv]
  by (simp add: Let_def missing_table)

definition other_setting :: "connection option \<Rightarrow> setting_class \<Rightarrow> setting option" where
  "other_setting b cls = (case b of Some b \<Rightarrow> bm_connection_get_setting b cls | None \<Rightarrow> None)"

lemma diff_one_setting_eq:
  "diff_one_setting gt b flags iv k s diffs =
     (let r = bm_setting_diff gt s (other_setting b (object_type s)) flags iv (diff_lookup_table diffs (set_name s))
      in if fst r then diffs else gh_insert (set_name s) (snd r) diffs)"
  by (simp add: diff_one_setting_def other_setting_def Let_def split: prod.split)

lemma diff_foreach_empty:
  "gh_foreach (diff_one_setting gt b flags iv) xs diffs = [] \<longleftrightarrow> diffs = [] \<and>
     (\<forall>s \<in> set (gh_values xs). fst (bm_setting_diff gt s (other_setting b (object_type s)) flags iv None))"
proof (induction xs arbitrary: diffs)
  case (Cons ks xs)
  obtain k s where ks: "ks = (k, s)" by (cases ks)
  have "diff_one_setting gt b flags iv k s diffs = [] \<longleftrightarrow>
      diffs = [] \<and> fst (bm_setting_diff gt s (other_setting b (object_type s)) flags iv None)"
    by (cases "diffs = []")
       (auto simp: diff_one_setting_eq Let_def gh_insert_not_empty diff_lookup_table_def)
  then show ?case
    by (auto simp: ks Cons.IH gh_values_def)
qed (simp add: gh_values_def)

lemma connection_diff_fst:
  assumes "inj gt" "connection_ok a" "connection_ok b"
  shows "fst (bm_connection_diff gt False a (Some b) flags) \<longleftrightarrow>
    bm_connection_compare gt (Some a) (Some b) flags"
proof -
  have wf: "connection_wf a" "connection_wf b"
    using assms unfolding connection_ok_def by blast+
  have side: "(\<forall>s \<in> set (gh_values (conn_settings c)).
        fst (bm_setting_diff gt s (other_setting (Some d) (object_type s)) flags iv None)) \<longleftrightarrow>
      \<not> gh_foreach (compare_one_setting gt d flags) (conn_settings c) False"
    if c: "connection_ok c" and d: "connection_ok d" for c d iv
  proof -
    have "fst (bm_setting_diff gt s (other_setting (Some d) (object_type s)) flags iv None) \<longleftrightarrow>
        \<not> setting_differs gt d flags s"
      if "s \<in> set (gh_values (conn_settings c))" for s
    proof (cases "bm_connection_get_setting d (object_type s)")
      case None
      then show ?thesis
        by (simp add: other_setting_def setting_differs_def setting_diff_missing)
    next
      case (Some t)
      have nm: "set_name s = set_name t" and ty: "object_type s = object_type t"
        using that c connection_ok_name [OF c, of "object_type s" s] connection_ok_name [OF d Some]
        by (auto simp: connection_ok_def settings_of)
      show ?thesis
        by (simp add: other_setting_def setting_differs_def Some setting_diff_fst [OF assms(1) ty nm]
            compare_same_properties [OF assms(1)])
    qed
    then show ?thesis
      by (simp add: compare_foreach)
  qed
  have "fst (bm_connection_diff gt False a (Some b) flags) \<longleftrightarrow>
      diff_one_connection gt b (Some a) flags True (diff_one_connection gt a (Some b) flags False gh_new) = []"
    by (simp add: bm_connection_diff_def Let_def gh_size_def)
  then show ?thesis
    unfolding diff_one_connection_def diff_foreach_empty side [OF assms(2,3)] side [OF assms(3,2)]
    by (simp add: gh_new_def bm_connection_compare_def Let_def)
qed

section \<open>Secrets and duplicates\<close>

lemma priority_compare:
  "setting_priority_compare a b > 0 \<longleftrightarrow>
     get_priority_for_setting_type (object_type b) < get_priority_for_setting_type (object_type a)"
  by (auto simp: setting_priority_compare_def Let_def)

lemma insert_sorted_set: "set (slist_insert_sorted f x xs) = insert x (set xs)"
  by (induction xs) auto

lemma insert_sorted_length: "length (slist_insert_sorted f x xs) = Suc (length xs)"
  by (induction xs) auto

abbreviation "setting_prio s \<equiv> get_priority_for_setting_type (object_type s)"

lemma insert_sorted_sorted:
  "sorted_wrt (\<lambda>a b. setting_prio a \<le> setting_prio b) xs \<Longrightarrow>
     sorted_wrt (\<lambda>a b. setting_prio a \<le> setting_prio b) (slist_insert_sorted setting_priority_compare s xs)"
  by (induction xs) (auto simp: priority_compare insert_sorted_set not_less)

lemma settings_by_priority:
  "sorted_wrt (\<lambda>a b. setting_prio a \<le> setting_prio b) ys \<Longrightarrow>
     sorted_wrt (\<lambda>a b. setting_prio a \<le> setting_prio b) (gh_foreach add_setting_to_list xs ys) \<and>
     set (gh_foreach add_setting_to_list xs ys) = set (gh_values xs) \<union> set ys \<and>
     length (gh_foreach add_setting_to_list xs ys) = length xs + length ys"
proof (induction xs arbitrary: ys)
  case (Cons ks xs)
  obtain k s where ks: "ks = (k, s)" by (cases ks)
  have "sorted_wrt (\<lambda>a b. setting_prio a \<le> setting_prio b) (add_setting_to_list k s ys)"
    using Cons.prems by (simp add: add_setting_to_list_def insert_sorted_sorted)
  from Cons.IH [OF this] show ?case
    by (auto simp: ks add_setting_to_list_def insert_sorted_set insert_sorted_length gh_values_def)
qed (simp add: gh_values_def)

lemma need_secrets_none: "need_secrets_loop ss = None"
proof (induction ss)
  case (Cons s ss)
  then show ?case
    by (cases "object_type s") (simp_all add: bm_setting_need_secrets_def)
qed simp

lemma clear_secrets_same: "bm_setting_clear_secrets tr s = s"
proof -
  have "foldl (\<lambda>s ps. if ps_secret ps then g_object_set_property tr s ps (ps_default ps) else s) s pss = s"
    if "set pss \<subseteq> set (class_properties (object_type s))" for pss
    using that by (induction pss) (auto simp: ps_not_secret)
  then show ?thesis
    by (simp add: bm_setting_clear_secrets_def)
qed

lemma connection_clear_secrets_same: "bm_connection_clear_secrets tr c = c"
  by (simp add: bm_connection_clear_secrets_def clear_secrets_same)

lemma set_scope_path_get [simp]:
  "bm_connection_get_setting (bm_connection_set_scope sc c) cls = bm_connection_get_setting c cls"
  "bm_connection_get_setting (bm_connection_set_path p c) cls = bm_connection_get_setting c cls"
  by (simp_all add: bm_connection_get_setting_def bm_connection_set_scope_def bm_connection_set_path_def)

lemma set_scope_path_wf [bm_inv]:
  "connection_wf c \<Longrightarrow> connection_wf (bm_connection_set_scope sc c)"
  "connection_wf c \<Longrightarrow> connection_wf (bm_connection_set_path p c)"
  by (simp_all add: connection_wf_def bm_connection_set_scope_def bm_connection_set_path_def)

text \<open>When every setting is valid the duplicate's table has the settings in the same order.\<close>

lemma duplicate_foreach:
  assumes "\<And>k s. (k, s) \<in> set xs \<Longrightarrow> k = type_name (object_type s) \<and> setting_valid s"
    and "distinct (gh_keys (conn_settings d) @ gh_keys xs)"
  shows "gh_foreach (duplicate_cb tr) xs d = d\<lparr>conn_settings := conn_settings d @ xs\<rparr>"
  using assms
proof (induction xs arbitrary: d)
  case (Cons ks xs)
  obtain k s where ks: "ks = (k, s)" by (cases ks)
  have k: "k = type_name (object_type s)" "setting_valid s"
    using Cons.prems(1) [of k s] ks by auto
  have "gh_lookup (conn_settings d) k = None"
    using Cons.prems(2) ks ght.keys_look [of k "conn_settings d"] by auto
  then have one: "duplicate_cb tr k s d = d\<lparr>conn_settings := conn_settings d @ [(k, s)]\<rparr>"
    by (simp add: duplicate_cb_def duplicate_same [OF k(2)] bm_connection_add_setting_def gh_insert_new
        k(1) [symmetric])
  have "gh_foreach (duplicate_cb tr) xs (duplicate_cb tr k s d) =
      (duplicate_cb tr k s d)\<lparr>conn_settings := conn_settings (duplicate_cb tr k s d) @ xs\<rparr>"
  proof (rule Cons.IH)
    show "k' = type_name (object_type s') \<and> setting_valid s'" if "(k', s') \<in> set xs" for k' s'
      using Cons.prems(1) [of k' s'] that by simp
    show "distinct (gh_keys (conn_settings (duplicate_cb tr k s d)) @ gh_keys xs)"
      using Cons.prems(2) by (auto simp: one ks gh_keys_def)
  qed
  then show ?case
    by (simp add: ks one)
qed simp

lemma connection_duplicate_same:
  assumes "connection_ok c"
  shows "bm_connection_duplicate tr c = c"
proof -
  have "gh_foreach (duplicate_cb tr) (conn_settings c) d = d\<lparr>conn_settings := conn_settings c\<rparr>"
    if "conn_settings d = gh_new" for d
    using duplicate_foreach [of "conn_settings c" d tr] connection_ok_entry [OF assms] that assms
    by (simp add: setting_ok_def gh_new_def connection_ok_def connection_wf_def gh_wf_def)
  then show ?thesis
    by (simp add: bm_connection_duplicate_def bm_connection_new_def bm_connection_set_scope_def
        bm_connection_set_path_def bm_connection_get_scope_def bm_connection_get_path_def)
qed

section \<open>What a diff records\<close>

lemma diff_lookup_insert [simp]:
  "diff_lookup_table (gh_insert k v t) n = (if n = k then v else diff_lookup_table t n)"
  by (simp add: diff_lookup_table_def ght.look_ins)

lemma diff_pass:
  assumes "\<And>k s. (k, s) \<in> set xs \<Longrightarrow>
      k = type_name (object_type s) \<and> set_name s = Some (class_name (object_type s))"
    and "gh_wf xs"
  shows "diff_lookup_table (gh_foreach (diff_one_setting gt b flags iv) xs diffs) (Some (class_name cls)) =
    (case gh_lookup xs (type_name cls) of
       None \<Rightarrow> diff_lookup_table diffs (Some (class_name cls))
     | Some s \<Rightarrow>
         (let r = bm_setting_diff gt s (other_setting b cls) flags iv (diff_lookup_table diffs (Some (class_name cls)))
          in if fst r then diff_lookup_table diffs (Some (class_name cls)) else snd r))"
  using assms
proof (induction xs arbitrary: diffs)
  case (Cons ks xs)
  obtain k s where ks: "ks = (k, s)" by (cases ks)
  have k: "k = type_name (object_type s)" and nm: "set_name s = Some (class_name (object_type s))"
    using Cons.prems(1) [of k s] ks by auto
  have none: "gh_lookup xs k = None"
    using Cons.prems(2) ks ght.keys_look [of k xs] by auto
  have IH: "diff_lookup_table (gh_foreach (diff_one_setting gt b flags iv) xs d) (Some (class_name cls)) =
      (case gh_lookup xs (type_name cls) of
         None \<Rightarrow> diff_lookup_table d (Some (class_name cls))
       | Some s \<Rightarrow>
           (let r = bm_setting_diff gt s (other_setting b cls) flags iv (diff_lookup_table d (Some (class_name cls)))
            in if fst r then diff_lookup_table d (Some (class_name cls)) else snd r))" for d
    using Cons.prems by (intro Cons.IH) (auto simp: ks)
  show ?case
  proof (cases "cls = object_type s")
    case True
    have "diff_lookup_table (diff_one_setting gt b flags iv k s diffs) (Some (class_name cls)) =
        (let r = bm_setting_diff gt s (other_setting b cls) flags iv (diff_lookup_table diffs (Some (class_name cls)))
         in if fst r then diff_lookup_table diffs (Some (class_name cls)) else snd r)"
      by (simp add: diff_one_setting_eq nm Let_def True)
    moreover have "gh_lookup xs (type_name cls) = None" "gh_lookup (ks # xs) (type_name cls) = Some s"
      using none by (simp_all add: ks k True)
    ultimately show ?thesis
      by (simp add: ks IH)
  next
    case False
    then have "diff_lookup_table (diff_one_setting gt b flags iv k s diffs) (Some (class_name cls)) =
        diff_lookup_table diffs (Some (class_name cls))"
      by (simp add: diff_one_setting_eq nm Let_def)
    then show ?thesis
      using False by (cases "gh_lookup xs (type_name cls)") (simp_all add: ks IH k Let_def)
  qed
qed simp

text \<open>The bits for a property of the setting of a class, over both connections.\<close>

definition connection_diff_bits :: "connection \<Rightarrow> connection \<Rightarrow> u32 \<Rightarrow> setting_class \<Rightarrow> string \<Rightarrow> u32 option" where
  "connection_diff_bits a b flags cls n =
     (case (bm_connection_get_setting a cls, bm_connection_get_setting b cls) of
        (Some s, Some t) \<Rightarrow> diff_bits s t flags DIFF_IN_A DIFF_IN_B n
      | (Some s, None) \<Rightarrow> missing_bits s flags DIFF_IN_A n
      | (None, Some t) \<Rightarrow> missing_bits t flags DIFF_IN_B n
      | (None, None) \<Rightarrow> None)"

definition recorded_bits :: "(cstr, diff_table option) ghash option \<Rightarrow> setting_class \<Rightarrow> string \<Rightarrow> u32 option" where
  "recorded_bits out cls n =
     (case out of None \<Rightarrow> None
      | Some diffs \<Rightarrow>
          (case diff_lookup_table diffs (Some (class_name cls)) of
             None \<Rightarrow> None | Some t \<Rightarrow> gh_lookup t n))"

lemma diff_bits_swap:
  "object_type s = object_type t \<Longrightarrow>
     diff_bits t s flags br ar n = diff_bits s t flags ar br n"
  by (auto simp: diff_bits_def should_compare_prop_def or.commute split: option.split)

lemma table_bits_first:
  assumes "inj gt" "object_type s = object_type t"
  shows "bm_setting_diff gt s (Some t) flags iv None =
    (if \<forall>n. diff_bits s t flags (dir_a iv) (dir_b iv) n = None then (True, None)
     else (False, Some (foldl (diff_step gt s (Some t) flags (dir_a iv) (dir_b iv)) gh_new
            (class_properties (object_type s)))))"
  using setting_diff_first [of "Some t" s gt flags iv] assms(2) diff_table [OF assms, of flags "dir_a iv" "dir_b iv"]
  by (simp add: Let_def)

text \<open>The second pass, with the roles exchanged, sets the bits the first one set.\<close>

lemma table_bits_again:
  assumes "inj gt" "object_type s = object_type t"
    and T: "\<And>n. gh_lookup T n = diff_bits s t flags DIFF_IN_A DIFF_IN_B n"
  shows "gh_lookup (foldl (diff_step gt t (Some s) flags DIFF_IN_B DIFF_IN_A) T (class_properties (object_type t))) n =
    diff_bits s t flags DIFF_IN_A DIFF_IN_B n"
proof (cases "find_property (object_type t) n")
  case None
  then show ?thesis
    by (simp add: diff_lookup T)
next
  case (Some ps)
  have ps: "ps \<in> set (class_properties (object_type t))"
    using find_property_SomeD [OF Some] by blast
  have same: "gh_lookup (foldl (diff_step gt t (Some s) flags DIFF_IN_B DIFF_IN_A) gh_new
      (class_properties (object_type t))) n = diff_bits s t flags DIFF_IN_A DIFF_IN_B n"
    using diff_table [OF assms(1), of t s flags DIFF_IN_B DIFF_IN_A n] assms(2)
      diff_bits_swap [OF assms(2), of flags DIFF_IN_B DIFF_IN_A n] by simp
  show ?thesis
    using same
    by (cases "diff_property gt t (Some s) DIFF_IN_B DIFF_IN_A ps")
       (auto simp: diff_lookup Some T ght.look_new split: if_splits option.splits)
qed

definition recorded_table :: "diff_table option \<Rightarrow> string \<Rightarrow> u32 option" where
  "recorded_table t n = (case t of None \<Rightarrow> None | Some t \<Rightarrow> gh_lookup t n)"

lemma connection_diff_recorded:
  "recorded_bits (snd (bm_connection_diff gt False a (Some b) flags)) cls n =
     recorded_table (diff_lookup_table
       (diff_one_connection gt b (Some a) flags True (diff_one_connection gt a (Some b) flags False gh_new))
       (Some (class_name cls))) n"
proof -
  have "diff_lookup_table [] k = None" for k :: cstr
    by (simp add: diff_lookup_table_def)
  then show ?thesis
    by (auto simp: bm_connection_diff_def Let_def recorded_bits_def recorded_table_def gh_size_def)
qed

lemma connection_diff_pass:
  assumes "connection_ok a"
  shows "diff_lookup_table (diff_one_connection gt a b flags iv diffs) (Some (class_name cls)) =
    (case bm_connection_get_setting a cls of
       None \<Rightarrow> diff_lookup_table diffs (Some (class_name cls))
     | Some s \<Rightarrow>
         (let r = bm_setting_diff gt s (other_setting b cls) flags iv (diff_lookup_table diffs (Some (class_name cls)))
          in if fst r then diff_lookup_table diffs (Some (class_name cls)) else snd r))"
  unfolding diff_one_connection_def bm_connection_get_setting_def
proof (rule diff_pass)
  show "gh_wf (conn_settings a)"
    using assms unfolding connection_ok_def connection_wf_def by blast
qed (use connection_ok_entry [OF assms] in blast)

lemma missing_diff:
  "recorded_table (snd (bm_setting_diff gt s None flags iv None)) n = missing_bits s flags (dir_a iv) n"
  using setting_diff_first [of None s gt flags iv] missing_bits_some [of s flags "dir_a iv"]
  by (simp add: Let_def missing_table recorded_table_def)

lemma connection_diff_bits_correct:
  assumes inj: "inj gt" and a: "connection_ok a" and b: "connection_ok b"
  shows "recorded_bits (snd (bm_connection_diff gt False a (Some b) flags)) cls n =
    connection_diff_bits a b flags cls n"
proof -
  have new: "diff_lookup_table gh_new k = None" for k :: cstr
    by (simp add: diff_lookup_table_def ght.look_new)
  note pass = connection_diff_recorded connection_diff_pass [OF a] connection_diff_pass [OF b] new other_setting_def
  show ?thesis
  proof (cases "bm_connection_get_setting a cls")
    case None
    then show ?thesis
      by (cases "bm_connection_get_setting b cls")
         (simp_all add: pass connection_diff_bits_def Let_def setting_diff_missing missing_diff recorded_table_def
            [of None])
  next
    case (Some s)
    note s = Some
    show ?thesis
    proof (cases "bm_connection_get_setting b cls")
      case None
      then show ?thesis
        using s by (simp add: pass connection_diff_bits_def Let_def setting_diff_missing missing_diff)
    next
      case (Some t)
      have st: "object_type s = object_type t"
        using connection_ok_name [OF a s] connection_ok_name [OF b Some] by simp
      let ?none = "\<forall>n. diff_bits s t flags DIFF_IN_A DIFF_IN_B n = None"
      let ?T = "foldl (diff_step gt s (Some t) flags DIFF_IN_A DIFF_IN_B) gh_new (class_properties (object_type s))"
      have first: "bm_setting_diff gt s (Some t) flags False None = (if ?none then (True, None) else (False, Some ?T))"
        using table_bits_first [OF inj st, of flags False] by simp
      have second: "bm_setting_diff gt t (Some s) flags True None = (True, None)" if ?none
        using table_bits_first [OF inj st [symmetric], of flags True] diff_bits_swap [OF st] that by simp
      have again: "bm_setting_diff gt t (Some s) flags True (Some ?T) =
          (False, Some (foldl (diff_step gt t (Some s) flags DIFF_IN_B DIFF_IN_A) ?T (class_properties (object_type t))))"
        using setting_diff_again [of "Some s" t gt flags True ?T] st by simp
      have bits: "gh_lookup (foldl (diff_step gt t (Some s) flags DIFF_IN_B DIFF_IN_A) ?T
          (class_properties (object_type t))) m = diff_bits s t flags DIFF_IN_A DIFF_IN_B m" for m
        by (rule table_bits_again [OF inj st]) (simp add: diff_table [OF inj st])
      show ?thesis
      proof (cases ?none)
        case True
        then show ?thesis
          by (simp add: pass connection_diff_bits_def Let_def s Some first second recorded_table_def)
      next
        case False
        then have "bm_setting_diff gt s (Some t) flags False None = (False, Some ?T)"
          using first by simp
        then show ?thesis
          by (simp add: pass connection_diff_bits_def Let_def s Some again bits recorded_table_def)
      qed
    qed
  qed
qed

section \<open>Properties\<close>

text \<open>A connection to apply the properties to: a connection setting and a bluetooth setting.\<close>

definition sample_connection :: connection where
  "sample_connection =
     \<lparr>conn_settings =
        [(''BMSettingBluetooth'', \<lparr>set_name = Some ''bluetooth'',
           set_priv = Bluetooth_Priv \<lparr>bt_bdaddr = Some [1, 2], bt_type = Some ''panu''\<rparr>\<rparr>),
         (''BMSettingConnection'', \<lparr>set_name = Some ''connection'',
           set_priv = Connection_Priv \<lparr>con_id = Some ''x'', con_uuid = Some ''0-f'', con_type = Some ''bluetooth'',
             con_autoconnect = True, con_timestamp = 7, con_read_only = False\<rparr>\<rparr>)],
      conn_scope = BM_CONNECTION_SCOPE_USER, conn_path = Some ''/c/1''\<rparr>"

lemma sample_connection_ok: "connection_ok sample_connection" "connection_wf sample_connection"
proof -
  show "connection_wf sample_connection"
    by (simp add: connection_wf_def sample_connection_def gh_wf_def object_type_def)
  then show "connection_ok sample_connection"
    by (auto simp: connection_ok_def bm_connection_get_setting_def sample_connection_def setting_ok_def
        setting_valid_def object_type_def property_table_defs g_object_get_property_def
        property_access_defs split: if_splits)
qed

lemma sample_connection_verify: "bm_connection_verify sample_connection = Inr ()"
  by (simp add: bm_connection_verify_def bm_connection_get_setting_def sample_connection_def
      gh_values_def bm_setting_verify_def connection_verify_def bluetooth_verify_def
      validate_uuid_def isxdigit_def char_code_def find_setting_by_name_def)

lemma bm_setting_to_hash_wf: "rel_option (\<lambda>h k. gh_wf h \<and> gh_lookup h = gh_lookup k) (map_option (bm_setting_to_hash gt) x) (map_option (bm_setting_to_hash gt) x)"
  by (cases x) (simp_all add: to_hash_wf)

lemma to_hash_same_tables:
  assumes "connection_ok c"
  shows "same_tables (gh_foreach (add_one_setting_to_hash gt) (conn_settings c) gh_new)
    (gh_foreach (add_one_setting_to_hash gt) (conn_settings c) gh_new)"
proof -
  have "gh_wf (gh_foreach (add_one_setting_to_hash gt) (conn_settings c) gh_new)"
    by (simp add: to_hash_foreach ght.invar_ins_all ght.invar_new)
  moreover have "rel_option (\<lambda>h k. gh_wf h \<and> gh_lookup h = gh_lookup k)
      (gh_lookup (gh_foreach (add_one_setting_to_hash gt) (conn_settings c) gh_new) n)
      (gh_lookup (gh_foreach (add_one_setting_to_hash gt) (conn_settings c) gh_new) n)" for n
  proof (cases "\<exists>cls. n = class_name cls")
    case True
    then obtain cls where "n = class_name cls" by blast
    then show ?thesis
      by (simp only: connection_to_hash_lookup [OF assms] bm_setting_to_hash_wf)
  next
    case False
    then show ?thesis
      using connection_to_hash_lookup_other [OF assms, of n gt] by simp
  qed
  ultimately show ?thesis
    unfolding same_tables_def by blast
qed

text \<open>Tables with the content of a valid connection give a connection with the same settings.\<close>

lemma new_from_same_tables:
  assumes "inj gt" "connection_ok c" "bm_connection_verify c = Inr ()"
    and H: "same_tables H (gh_foreach (add_one_setting_to_hash gt) (conn_settings c) gh_new)"
  shows "\<exists>d. bm_connection_new_from_hash tr H = Inr d \<and> connection_ok d \<and>
    (\<forall>cls. bm_connection_get_setting d cls = bm_connection_get_setting c cls) \<and>
    conn_scope d = BM_CONNECTION_SCOPE_UNKNOWN \<and> conn_path d = None"
proof -
  let ?d = "gh_foreach (parse_one_setting tr) H bm_connection_new"
  have same: "bm_connection_get_setting ?d cls = bm_connection_get_setting c cls" for cls
    by (rule parse_roundtrip [OF assms(1,2) H])
  have wf: "connection_wf ?d" "connection_wf c"
    using assms(2) by (simp_all add: parse_wf new_wf connection_ok_def)
  have "bm_connection_verify ?d = Inr ()"
    using connection_verify_same [OF wf(2,1) same] assms(3) by simp
  moreover have "connection_ok ?d"
    using wf assms(2) by (simp add: connection_ok_def same)
  ultimately show ?thesis
    by (simp add: bm_connection_new_from_hash_def Let_def same) (simp add: bm_connection_new_def)
qed

definition sample_settings :: "(string, (string, gvalue) ghash) ghash" where
  "sample_settings = gh_foreach (add_one_setting_to_hash sample_gt) (conn_settings sample_connection) gh_new"

lemma new_from_sample_settings:
  "\<exists>d. bm_connection_new_from_hash tr sample_settings = Inr d \<and>
     (\<forall>cls. bm_connection_get_setting d cls = bm_connection_get_setting sample_connection cls)"
  unfolding sample_settings_def
  using new_from_same_tables [OF inj_sample_gt sample_connection_ok(1) sample_connection_verify
      to_hash_same_tables [OF sample_connection_ok(1)]] by blast

text \<open>C7: Serialising a valid connection and building a connection from the tables succeeds, whatever
  the order of the outer and inner tables, and the new connection holds the same settings; its
  scope and path, which are not serialised, are those of a new connection.\<close>

theorem connection_hash_roundtrip:
  assumes "inj gt" "connection_ok c" "bm_connection_verify c = Inr ()"
    and "bm_connection_to_hash gt c = Some K" "same_tables H K"
  shows "\<exists>d. bm_connection_new_from_hash tr H = Inr d \<and> connection_ok d \<and>
    (\<forall>cls. bm_connection_get_setting d cls = bm_connection_get_setting c cls) \<and>
    conn_scope d = BM_CONNECTION_SCOPE_UNKNOWN \<and> conn_path d = None"
proof -
  have "same_tables H (gh_foreach (add_one_setting_to_hash gt) (conn_settings c) gh_new)"
    using assms(4,5) by (simp add: bm_connection_to_hash_def Let_def split: if_splits)
  then show ?thesis
    by (rule new_from_same_tables [OF assms(1-3)])
qed

theorem connection_hash_roundtrip_witness:
  "\<exists>K d. bm_connection_to_hash sample_gt sample_connection = Some K \<and>
     bm_connection_new_from_hash (\<lambda>_ _. None) K = Inr d \<and>
     bm_connection_get_setting d BM_TYPE_SETTING_BLUETOOTH =
       Some \<lparr>set_name = Some ''bluetooth'',
             set_priv = Bluetooth_Priv \<lparr>bt_bdaddr = Some [1, 2], bt_type = Some ''panu''\<rparr>\<rparr>"
proof -
  let ?K = "gh_foreach (add_one_setting_to_hash sample_gt) (conn_settings sample_connection) gh_new"
  have "?K \<noteq> []"
    by (simp add: sample_connection_def add_one_setting_to_hash_def gh_insert_not_empty)
  then have K: "bm_connection_to_hash sample_gt sample_connection = Some ?K"
    by (simp add: bm_connection_to_hash_def Let_def gh_size_def)
  have "bm_connection_get_setting sample_connection BM_TYPE_SETTING_BLUETOOTH =
      Some \<lparr>set_name = Some ''bluetooth'',
            set_priv = Bluetooth_Priv \<lparr>bt_bdaddr = Some [1, 2], bt_type = Some ''panu''\<rparr>\<rparr>"
    by (simp add: bm_connection_get_setting_def sample_connection_def)
  then show ?thesis
    using connection_hash_roundtrip [OF inj_sample_gt sample_connection_ok(1) sample_connection_verify K
        to_hash_same_tables [OF sample_connection_ok(1)], of "\<lambda>_ _. None"] K by metis
qed

text \<open>Two connections compare as equal exactly when they have settings of the same classes and the
  settings of each class agree under the flags, so a setting that only the second connection has
  makes them differ; a \<^verbatim>\<open>NULL\<close> connection equals only another one.\<close>

theorem connection_compare_correct:
  assumes "inj gt" "connection_wf a" "connection_wf b"
  shows "(bm_connection_compare gt (Some a) (Some b) flags \<longleftrightarrow>
      (\<forall>cls. rel_option (\<lambda>s t. bm_setting_compare gt s t flags)
         (bm_connection_get_setting a cls) (bm_connection_get_setting b cls))) \<and>
    (bm_connection_compare gt (Some a) (Some b) FLAG_EXACT \<longleftrightarrow>
      bm_connection_get_setting a = bm_connection_get_setting b) \<and>
    \<not> bm_connection_compare gt (Some a) None flags \<and> \<not> bm_connection_compare gt None (Some b) flags \<and>
    bm_connection_compare gt None None flags"
  by (simp add: connection_compare_iff [OF assms] compare_same_properties [OF assms(1)]
      same_properties_exact option.rel_eq fun_eq_iff)
     (simp add: bm_connection_compare_def)

theorem connection_compare_correct_witness:
  "bm_connection_compare sample_gt (Some sample_connection) (Some sample_connection) FLAG_EXACT \<and>
   connection_wf sample_connection"
  using connection_compare_correct [OF inj_sample_gt sample_connection_ok(2) sample_connection_ok(2)]
    sample_connection_ok(2) by blast

text \<open>C8: The diff of two connections reports no difference exactly when they compare as equal.  What
  it records, after its two passes, is for each class and property: the properties in which the
  settings of both connections differ, with the sides that hold a value other than the default,
  and all compared properties of a setting that only one connection has, marked with its side.\<close>

theorem connection_diff_correct:
  assumes "inj gt" "connection_ok a" "connection_ok b"
  shows "(fst (bm_connection_diff gt False a (Some b) flags) \<longleftrightarrow>
      bm_connection_compare gt (Some a) (Some b) flags) \<and>
    recorded_bits (snd (bm_connection_diff gt False a (Some b) flags)) cls n =
      connection_diff_bits a b flags cls n"
  using connection_diff_fst [OF assms] connection_diff_bits_correct [OF assms] by blast

theorem connection_diff_correct_witness:
  "connection_ok bm_connection_new \<and>
   recorded_bits (snd (bm_connection_diff sample_gt False bm_connection_new (Some sample_connection) FLAG_EXACT))
     BM_TYPE_SETTING_BLUETOOTH ''bdaddr'' = Some DIFF_IN_B"
proof -
  have new: "connection_ok bm_connection_new"
    by (simp add: connection_ok_def new_wf get_new)
  moreover have "connection_diff_bits bm_connection_new sample_connection FLAG_EXACT BM_TYPE_SETTING_BLUETOOTH ''bdaddr'' =
      Some DIFF_IN_B"
    by (simp add: connection_diff_bits_def bm_connection_new_def gh_new_def bm_connection_get_setting_def
        sample_connection_def missing_bits_def find_property_def object_type_def property_table_defs)
  ultimately show ?thesis
    using connection_diff_correct [OF inj_sample_gt new sample_connection_ok(1)] by simp
qed

text \<open>A connection passes verification exactly when it has a connection setting and every setting
  passes its own verification against all the settings of the connection; a missing connection
  setting is reported as such, and any other error is one that a setting of the connection
  reports.\<close>

theorem connection_verify_errors:
  assumes "connection_wf c"
  shows "(case bm_connection_verify c of
      Inr _ \<Rightarrow> bm_connection_get_setting c BM_TYPE_SETTING_CONNECTION \<noteq> None \<and>
        (\<forall>cls s. bm_connection_get_setting c cls = Some s \<longrightarrow>
           bm_setting_verify s (gh_values (conn_settings c)) = Inr ())
    | Inl e \<Rightarrow>
        if bm_connection_get_setting c BM_TYPE_SETTING_CONNECTION = None
        then e = BM_CONNECTION_ERROR_CONNECTION_SETTING_NOT_FOUND ''connection setting not found''
        else \<exists>cls s. bm_connection_get_setting c cls = Some s \<and>
               bm_setting_verify s (gh_values (conn_settings c)) = Inl e)"
proof (cases "bm_connection_verify c")
  case (Inl e)
  show ?thesis
  proof (cases "bm_connection_get_setting c BM_TYPE_SETTING_CONNECTION")
    case None
    then show ?thesis
      using Inl by (simp add: bm_connection_verify_def)
  next
    case (Some s)
    then have "\<exists>s \<in> set (gh_values (conn_settings c)). bm_setting_verify s (gh_values (conn_settings c)) = Inl e"
      using Inl by (simp add: bm_connection_verify_def verify_loop_error)
    then show ?thesis
      using settings_of [OF assms] by (simp add: Inl Some) blast
  qed
next
  case (Inr u)
  then have ok: "bm_connection_verify c = Inr ()" by simp
  have "bm_setting_verify s (gh_values (conn_settings c)) = Inr ()"
    if "bm_connection_get_setting c cls = Some s" for cls s
    using that ok get_setting_type [OF assms that] settings_of [OF assms, of s]
    by (simp add: connection_verify_ok)
  moreover have "bm_connection_get_setting c BM_TYPE_SETTING_CONNECTION \<noteq> None"
    using ok unfolding connection_verify_ok by blast
  ultimately show ?thesis
    by (simp add: ok)
qed

theorem connection_verify_errors_witness:
  "connection_wf (bm_connection_remove_setting BM_TYPE_SETTING_CONNECTION sample_connection) \<and>
   bm_connection_verify (bm_connection_remove_setting BM_TYPE_SETTING_CONNECTION sample_connection) =
     Inl (BM_CONNECTION_ERROR_CONNECTION_SETTING_NOT_FOUND ''connection setting not found'')"
proof -
  let ?c = "bm_connection_remove_setting BM_TYPE_SETTING_CONNECTION sample_connection"
  have wf: "connection_wf ?c"
    by (rule remove_setting_wf [OF sample_connection_ok(2)])
  have "bm_connection_get_setting ?c BM_TYPE_SETTING_CONNECTION = None"
    by (simp add: get_remove_setting sample_connection_ok(2))
  then show ?thesis
    using connection_verify_errors [OF wf] wf by (cases "bm_connection_verify ?c") auto
qed

text \<open>\<^verbatim>\<open>bm_connection_replace_settings\<close> discards the old settings before it looks at the new ones: a
  class that the new tables do not yield is gone, and all of this stays when the result fails
  verification, although the operation then reports \<^verbatim>\<open>FALSE\<close>.  Scope and path are kept.\<close>

theorem replace_settings_always_replaces:
  assumes "gh_wf H"
  shows "let r = bm_connection_replace_settings tr H c in
    snd r = bm_connection_verify (fst r) \<and> connection_wf (fst r) \<and>
    conn_scope (fst r) = conn_scope c \<and> conn_path (fst r) = conn_path c \<and>
    (\<forall>cls. bm_connection_get_setting (fst r) cls =
       (case gh_lookup H (class_name cls) of
          None \<Rightarrow> None | Some h \<Rightarrow> bm_setting_new_from_hash tr cls h))"
proof -
  have wf: "connection_wf (c\<lparr>conn_settings := gh_new\<rparr>)"
    by (simp add: connection_wf_def gh_simps ght.invar_new)
  have none: "bm_connection_get_setting (c\<lparr>conn_settings := gh_new\<rparr>) cls = None" for cls
    by (simp add: bm_connection_get_setting_def gh_simps)
  show ?thesis
    by (auto simp: bm_connection_replace_settings_def Let_def parse_wf [OF wf] parse_get [OF assms] none
        split: option.split)
qed

theorem replace_settings_always_replaces_witness:
  "bm_connection_replace_settings (\<lambda>_ _. None) [] sample_connection =
     (sample_connection\<lparr>conn_settings := []\<rparr>,
      Inl (BM_CONNECTION_ERROR_CONNECTION_SETTING_NOT_FOUND ''connection setting not found''))"
  using replace_settings_always_replaces [of "[]" "\<lambda>_ _. None" sample_connection]
  by (simp add: bm_connection_replace_settings_def Let_def gh_new_def bm_connection_verify_def
      bm_connection_get_setting_def)

text \<open>The settings that are asked for secrets are ordered by priority, the connection setting
  first, and are exactly the settings of the connection; as no class asks for any, the answer is
  that none is needed, and clearing the secrets changes nothing.\<close>

theorem need_secrets_priority:
  "sorted_wrt (\<lambda>a b. get_priority_for_setting_type (object_type a) \<le> get_priority_for_setting_type (object_type b))
     (gh_foreach add_setting_to_list (conn_settings c) []) \<and>
   set (gh_foreach add_setting_to_list (conn_settings c) []) = set (gh_values (conn_settings c)) \<and>
   length (gh_foreach add_setting_to_list (conn_settings c) []) = gh_size (conn_settings c) \<and>
   bm_connection_need_secrets c = None \<and> bm_connection_clear_secrets tr c = c"
  using settings_by_priority [of "[]" "conn_settings c"]
  by (simp add: bm_connection_need_secrets_def need_secrets_none connection_clear_secrets_same gh_size_def)

text \<open>Updating the secrets of a setting leaves the settings of the connection as they are, since no
  property is a secret.  The signal is emitted exactly on success: the connection has the named
  setting and every key names one of its properties.\<close>

theorem update_secrets_signal:
  assumes "connection_wf c"
  shows "case bm_connection_update_secrets tr n h c of (d, r, sigs) \<Rightarrow>
    bm_connection_get_setting d = bm_connection_get_setting c \<and>
    (r = Inr () \<longleftrightarrow> sigs = [SECRETS_UPDATED n]) \<and> (r \<noteq> Inr () \<longleftrightarrow> sigs = []) \<and>
    (r = Inr () \<longleftrightarrow> (\<exists>s. bm_connection_get_setting_by_name c n = Some s \<and>
       (\<forall>(k, v) \<in> set h. find_property (object_type s) k \<noteq> None)))"
proof (cases "bm_connection_get_setting_by_name c n")
  case (Some s)
  then obtain cls where cls: "bm_connection_get_setting c cls = Some s"
    by (auto simp: bm_connection_get_setting_by_name_def split: option.splits)
  then have "bm_connection_get_setting (bm_connection_add_setting s c) = bm_connection_get_setting c"
    using get_setting_type [OF assms cls] by (auto simp: get_add_setting fun_eq_iff)
  moreover have "find (\<lambda>(k, _). find_property (object_type s) k = None) h = None \<longleftrightarrow>
      (\<forall>(k, v) \<in> set h. find_property (object_type s) k \<noteq> None)"
    by (auto simp: find_None_iff)
  ultimately show ?thesis
    by (cases "find (\<lambda>(k, _). find_property (object_type s) k = None) h")
       (simp_all add: bm_connection_update_secrets_def Some update_secrets_eq Let_def split: prod.split)
qed (simp add: bm_connection_update_secrets_def)

theorem update_secrets_signal_witness:
  "connection_wf sample_connection \<and>
   snd (snd (bm_connection_update_secrets (\<lambda>_ _. None) ''bluetooth'' [(''type'', GString None)] sample_connection)) =
     [SECRETS_UPDATED ''bluetooth'']"
proof -
  have "bm_connection_get_setting_by_name sample_connection ''bluetooth'' =
      Some \<lparr>set_name = Some ''bluetooth'', set_priv = Bluetooth_Priv \<lparr>bt_bdaddr = Some [1, 2], bt_type = Some ''panu''\<rparr>\<rparr>"
    using lookup_setting_type [of BM_TYPE_SETTING_BLUETOOTH]
    by (simp add: bm_connection_get_setting_by_name_def bm_connection_get_setting_def sample_connection_def)
  then show ?thesis
    using update_secrets_signal [OF sample_connection_ok(2), where tr = "\<lambda>_ _. None" and n = "''bluetooth''"
        and h = "[(''type'', GString None)]"] sample_connection_ok(2)
    by (cases "bm_connection_update_secrets (\<lambda>_ _. None) ''bluetooth'' [(''type'', GString None)] sample_connection")
       (simp add: find_property_def object_type_def property_table_defs)
qed

text \<open>Duplicating a connection whose settings are valid gives an equal connection: the same
  settings, scope and path.\<close>

theorem connection_duplicate_equal:
  assumes "connection_ok c"
  shows "bm_connection_duplicate tr c = c"
  using assms by (rule connection_duplicate_same)

theorem connection_duplicate_equal_witness:
  "bm_connection_duplicate (\<lambda>_ _. None) sample_connection = sample_connection \<and>
   conn_scope sample_connection = BM_CONNECTION_SCOPE_USER"
  using connection_duplicate_equal [OF sample_connection_ok(1)] by (simp add: sample_connection_def)

text \<open>A number outside its range is refused for a construct property, but the property's default is
  not used in its place: a serial setting built from a table with such a number of bits has zero
  bits, a value the property excludes, and passes verification.\<close>

theorem serial_out_of_range_bits:
  assumes "w < 5 \<or> 8 < w"
  shows "\<exists>s. bm_setting_new_from_hash tr BM_TYPE_SETTING_SERIAL [(''bits'', GUInt w)] = Some s \<and>
    setting_get_property s ''bits'' = Some (GUInt 0) \<and> \<not> setting_valid s \<and> bm_setting_verify s [] = Inr ()"
proof -
  have "\<not> (5 \<le> w \<and> w \<le> 8)"
    using assms by auto
  then show ?thesis
    by (simp add: bm_setting_new_from_hash_def one_property_cb_def find_property_def property_table_defs
        g_object_newv_def setting_constructor_def setting_instance_init_def construct_step_def param_step_def
        g_object_set_property_def coerce_def ps_type_def ps_default_def setting_set_property_def
        setting_get_property_def serial_set_property_def serial_get_property_def bm_setting_verify_def
        serial_verify_def setting_valid_def object_type_def g_object_get_property_def)
qed

theorem serial_out_of_range_bits_witness:
  "\<exists>s. bm_setting_new_from_hash (\<lambda>_ _. None) BM_TYPE_SETTING_SERIAL [(''bits'', GUInt 9)] = Some s \<and>
    setting_get_property s ''bits'' = Some (GUInt 0) \<and> \<not> setting_valid s \<and> bm_setting_verify s [] = Inr ()"
  by (rule serial_out_of_range_bits) simp

end
