(* ===== verification/Auth_Chain.thy ===== *)
theory Auth_Chain
  imports GHash_Table
begin

text \<open>
  Authorization chains, \<^verbatim>\<open>src/barcode-manager/src/bm-manager-auth.c\<close>: a chain collects the answers
  of PolicyKit to several requests and calls its owner back when the last one is in.  Chains and
  the pending PolicyKit calls are heap objects that refer to each other, so they live in an
  explicit store, under numbers that stand for their addresses; a freed object has no entry.  The
  chain's data are pointer-sized numbers, with zero for \<^verbatim>\<open>NULL\<close>.  What a chain calls when it is
  done is the parameter \<open>run\<close>, applied to the chain's callback; the contract of these callbacks is
  the interface \<open>auth_client\<close>.
\<close>

section \<open>Chains and calls\<close>

datatype call_result =
    BM_AUTH_CALL_RESULT_UNKNOWN | BM_AUTH_CALL_RESULT_YES | BM_AUTH_CALL_RESULT_AUTH | BM_AUTH_CALL_RESULT_NO

fun result_num :: "call_result \<Rightarrow> nat" where
  "result_num BM_AUTH_CALL_RESULT_UNKNOWN = 0"
| "result_num BM_AUTH_CALL_RESULT_YES = 1"
| "result_num BM_AUTH_CALL_RESULT_AUTH = 2"
| "result_num BM_AUTH_CALL_RESULT_NO = 3"

record 'f auth_chain =
  ch_refcount :: u32
  ch_calls :: "nat list"
  ch_data :: "(string, nat) ghash"
  ch_error :: "string option"
  ch_owner :: string
  ch_done :: 'f

record polkit_call =
  call_chain :: nat
  call_permission :: string
  call_interaction :: bool
  call_disposed :: bool

record 'f auth =
  au_chains :: "nat \<Rightarrow> 'f auth_chain option"
  au_calls :: "nat \<Rightarrow> polkit_call option"
  au_next :: nat

definition auth_init :: "'f auth" where
  "auth_init = \<lparr>au_chains = (\<lambda>_. None), au_calls = (\<lambda>_. None), au_next = 0\<rparr>"

definition update_chain :: "nat \<Rightarrow> ('f auth_chain \<Rightarrow> 'f auth_chain) \<Rightarrow> 'f auth \<Rightarrow> 'f auth" where
  "update_chain c f au = au\<lparr>au_chains := (au_chains au)(c := map_option f (au_chains au c))\<rparr>"

text \<open>The owner is the bus name of the proxy or the sender of the request; without one there is no
  chain.\<close>

definition bm_auth_chain_new :: "cstr \<Rightarrow> 'f \<Rightarrow> 'f auth \<Rightarrow> nat option \<times> 'f auth" where
  "bm_auth_chain_new owner done_func au =
     (case owner of
        None \<Rightarrow> (None, au)
      | Some n \<Rightarrow>
          (Some (au_next au),
           au\<lparr>au_chains := (au_chains au)(au_next au \<mapsto>
                \<lparr>ch_refcount = 1, ch_calls = [], ch_data = gh_new, ch_error = None, ch_owner = n,
                 ch_done = done_func\<rparr>),
              au_next := Suc (au_next au)\<rparr>))"

definition bm_auth_chain_get_data :: "nat \<Rightarrow> string \<Rightarrow> 'f auth \<Rightarrow> nat" where
  "bm_auth_chain_get_data c tag au =
     (case au_chains au c of
        None \<Rightarrow> 0
      | Some ch \<Rightarrow> (case gh_lookup (ch_data ch) tag of Some d \<Rightarrow> d | None \<Rightarrow> 0))"

definition chain_set_data :: "string \<Rightarrow> nat \<Rightarrow> 'f auth_chain \<Rightarrow> 'f auth_chain" where
  "chain_set_data tag data ch =
     ch\<lparr>ch_data := (if data = 0 then gh_remove tag (ch_data ch) else gh_insert tag data (ch_data ch))\<rparr>"

definition bm_auth_chain_set_data :: "nat \<Rightarrow> string \<Rightarrow> nat \<Rightarrow> 'f auth \<Rightarrow> 'f auth" where
  "bm_auth_chain_set_data c tag data au = update_chain c (chain_set_data tag data) au"

definition bm_auth_chain_add_call :: "nat \<Rightarrow> string \<Rightarrow> bool \<Rightarrow> 'f auth \<Rightarrow> 'f auth" where
  "bm_auth_chain_add_call c permission allow_interaction au =
     update_chain c (\<lambda>ch. ch\<lparr>ch_calls := ch_calls ch @ [au_next au]\<rparr>)
       (au\<lparr>au_calls := (au_calls au)(au_next au \<mapsto>
             \<lparr>call_chain = c, call_permission = permission, call_interaction = allow_interaction,
              call_disposed = False\<rparr>),
           au_next := Suc (au_next au)\<rparr>)"

definition polkit_call_cancel :: "nat \<Rightarrow> 'f auth \<Rightarrow> 'f auth" where
  "polkit_call_cancel k au =
     au\<lparr>au_calls := (au_calls au)(k := map_option (call_disposed_update (\<lambda>_. True)) (au_calls au k))\<rparr>"

definition polkit_call_free :: "nat \<Rightarrow> 'f auth \<Rightarrow> 'f auth" where
  "polkit_call_free k au = au\<lparr>au_calls := (au_calls au)(k := None)\<rparr>"

definition bm_auth_chain_unref :: "nat \<Rightarrow> 'f auth \<Rightarrow> 'f auth" where
  "bm_auth_chain_unref c au =
     (case au_chains au c of
        None \<Rightarrow> au
      | Some ch \<Rightarrow>
          (let refcount = ch_refcount ch - 1
           in if refcount > 0 then update_chain c (ch_refcount_update (\<lambda>_. refcount)) au
              else (foldl (\<lambda>au k. polkit_call_cancel k au) au (ch_calls ch))
                     \<lparr>au_chains := (au_chains au)(c := None)\<rparr>))"

section \<open>The answers of PolicyKit\<close>

datatype pk_reply = Pk_Error string | Pk_Result bool bool

fun reply_result :: "pk_reply \<Rightarrow> call_result" where
  "reply_result (Pk_Error _) = BM_AUTH_CALL_RESULT_UNKNOWN"
| "reply_result (Pk_Result authorized challenge) =
     (if authorized then BM_AUTH_CALL_RESULT_YES
      else if challenge then BM_AUTH_CALL_RESULT_AUTH
      else BM_AUTH_CALL_RESULT_NO)"

definition default_call_func :: "string \<Rightarrow> bool \<Rightarrow> call_result \<Rightarrow> 'f auth_chain \<Rightarrow> 'f auth_chain" where
  "default_call_func permission failed result ch =
     (if \<not> failed then chain_set_data permission (result_num result) ch else ch)"

type_synonym ('f, 's) done_funcs = "'f \<Rightarrow> nat \<Rightarrow> string option \<Rightarrow> 'f auth \<times> 's \<Rightarrow> 'f auth \<times> 's"

text \<open>The chain stays alive across the callback.\<close>

definition bm_auth_chain_check_done :: "('f, 's) done_funcs \<Rightarrow> nat \<Rightarrow> 'f auth \<times> 's \<Rightarrow> 'f auth \<times> 's" where
  "bm_auth_chain_check_done run c w =
     (case au_chains (fst w) c of
        None \<Rightarrow> w
      | Some ch \<Rightarrow>
          if ch_calls ch = []
          then apfst (bm_auth_chain_unref c)
                 (run (ch_done ch) c (ch_error ch)
                    (apfst (update_chain c (\<lambda>ch. ch\<lparr>ch_refcount := ch_refcount ch + 1\<rparr>)) w))
          else w)"

definition record_reply :: "nat \<Rightarrow> string \<Rightarrow> pk_reply \<Rightarrow> 'f auth_chain \<Rightarrow> 'f auth_chain" where
  "record_reply k permission reply ch =
     (let ch1 = ch\<lparr>ch_calls := remove1 k (ch_calls ch)\<rparr>
      in case reply of
           Pk_Error e \<Rightarrow>
             default_call_func permission True (reply_result reply)
               (if ch_error ch1 = None then ch1\<lparr>ch_error := Some e\<rparr> else ch1)
         | Pk_Result _ _ \<Rightarrow> default_call_func permission False (reply_result reply) ch1)"

definition pk_call_cb :: "('f, 's) done_funcs \<Rightarrow> nat \<Rightarrow> pk_reply \<Rightarrow> 'f auth \<times> 's \<Rightarrow> 'f auth \<times> 's" where
  "pk_call_cb run k reply w =
     (case au_calls (fst w) k of
        None \<Rightarrow> w
      | Some call \<Rightarrow>
          if call_disposed call then apfst (polkit_call_free k) w
          else apfst (polkit_call_free k)
                 (bm_auth_chain_check_done run (call_chain call)
                    (apfst (update_chain (call_chain call) (record_reply k (call_permission call) reply)) w)))"

section \<open>The identity of a requestor\<close>

datatype auth_desc =
    Could_not_determine_requestor | Could_not_get_system_bus | Could_not_determine_uid
  | No_user_settings_service | No_service_name | No_service_owner | No_service_uid | Uid_mismatch

text \<open>\<open>unix_user\<close> is \<^verbatim>\<open>dbus_bus_get_unix_user\<close>, \<open>name_owner\<close> is \<^verbatim>\<open>bm_dbus_manager_get_name_owner\<close>.\<close>

definition bm_auth_get_caller_uid :: "cstr \<Rightarrow> bool \<Rightarrow> (string \<Rightarrow> u64 option) \<Rightarrow> auth_desc + u64" where
  "bm_auth_get_caller_uid sender connected unix_user =
     (case sender of
        None \<Rightarrow> Inl Could_not_determine_requestor
      | Some n \<Rightarrow>
          if \<not> connected then Inl Could_not_get_system_bus
          else (case unix_user n of None \<Rightarrow> Inl Could_not_determine_uid | Some uid \<Rightarrow> Inr uid))"

text \<open>The proxy's bus name, when there is a proxy.\<close>

definition bm_auth_uid_authorized ::
    "u64 \<Rightarrow> cstr option \<Rightarrow> bool \<Rightarrow> (string \<Rightarrow> cstr) \<Rightarrow> (string \<Rightarrow> u64 option) \<Rightarrow> auth_desc + unit" where
  "bm_auth_uid_authorized uid user_proxy connected name_owner unix_user =
     (case user_proxy of
        None \<Rightarrow> Inl No_user_settings_service
      | Some None \<Rightarrow> Inl No_service_name
      | Some (Some service_name) \<Rightarrow>
          if \<not> connected then Inl Could_not_get_system_bus
          else (case name_owner service_name of
                  None \<Rightarrow> Inl No_service_owner
                | Some service_owner \<Rightarrow>
                    (case unix_user service_owner of
                       None \<Rightarrow> Inl No_service_uid
                     | Some service_uid \<Rightarrow> if uid \<noteq> service_uid then Inl Uid_mismatch else Inr ())))"

section \<open>The store invariant\<close>

text \<open>Between events a live chain has one reference; its calls are exactly the pending calls that
  refer to it and are not cancelled.\<close>

definition chain_ok :: "'f auth \<Rightarrow> nat \<Rightarrow> 'f auth_chain \<Rightarrow> bool" where
  "chain_ok au c ch \<longleftrightarrow>
     c < au_next au \<and> ch_refcount ch = 1 \<and> distinct (ch_calls ch) \<and> gh_wf (ch_data ch) \<and>
     (\<forall>k \<in> set (ch_calls ch). \<exists>call. au_calls au k = Some call \<and> call_chain call = c \<and> \<not> call_disposed call)"

definition call_ok :: "'f auth \<Rightarrow> nat \<Rightarrow> polkit_call \<Rightarrow> bool" where
  "call_ok au k call \<longleftrightarrow>
     k < au_next au \<and> call_chain call < au_next au \<and>
     (\<not> call_disposed call \<longrightarrow> (\<exists>ch. au_chains au (call_chain call) = Some ch \<and> k \<in> set (ch_calls ch)))"

definition auth_wf :: "'f auth \<Rightarrow> bool" where
  "auth_wf au \<longleftrightarrow>
     (\<forall>c ch. au_chains au c = Some ch \<longrightarrow> chain_ok au c ch) \<and>
     (\<forall>k call. au_calls au k = Some call \<longrightarrow> call_ok au k call)"

section \<open>Lemmas on the store\<close>

lemma update_chain_simps [simp]:
  "au_chains (update_chain c f au) x = (if x = c then map_option f (au_chains au c) else au_chains au x)"
  "au_calls (update_chain c f au) = au_calls au"
  "au_next (update_chain c f au) = au_next au"
  by (simp_all add: update_chain_def)

lemma call_free_simps [simp]:
  "au_chains (polkit_call_free k au) = au_chains au"
  "au_calls (polkit_call_free k au) x = (if x = k then None else au_calls au x)"
  "au_next (polkit_call_free k au) = au_next au"
  by (simp_all add: polkit_call_free_def)

lemma cancel_simps [simp]:
  "au_chains (polkit_call_cancel k au) = au_chains au"
  "au_next (polkit_call_cancel k au) = au_next au"
  "au_calls (polkit_call_cancel k au) x =
     (if x = k then map_option (call_disposed_update (\<lambda>_. True)) (au_calls au k) else au_calls au x)"
  by (simp_all add: polkit_call_cancel_def)

lemma cancel_all_simps [simp]:
  "au_chains (foldl (\<lambda>au k. polkit_call_cancel k au) au ks) = au_chains au"
  "au_next (foldl (\<lambda>au k. polkit_call_cancel k au) au ks) = au_next au"
  "au_calls (foldl (\<lambda>au k. polkit_call_cancel k au) au ks) x =
     (if x \<in> set ks then map_option (call_disposed_update (\<lambda>_. True)) (au_calls au x) else au_calls au x)"
  by (induction ks arbitrary: au) (auto simp: option.map_comp comp_def)

lemma unref_none [simp]: "au_chains au c = None \<Longrightarrow> bm_auth_chain_unref c au = au"
  by (simp add: bm_auth_chain_unref_def)

lemma unref_last:
  assumes "au_chains au c = Some ch" "ch_refcount ch = 1"
  shows "au_chains (bm_auth_chain_unref c au) = (au_chains au)(c := None)"
    and "au_calls (bm_auth_chain_unref c au) x =
      (if x \<in> set (ch_calls ch) then map_option (call_disposed_update (\<lambda>_. True)) (au_calls au x) else au_calls au x)"
    and "au_next (bm_auth_chain_unref c au) = au_next au"
  using assms by (simp_all add: bm_auth_chain_unref_def Let_def)

lemma unref_shared:
  "au_chains au c = Some ch \<Longrightarrow> ch_refcount ch = 2 \<Longrightarrow>
     bm_auth_chain_unref c au = update_chain c (ch_refcount_update (\<lambda>_. 1)) au"
  by (simp add: bm_auth_chain_unref_def Let_def)

lemma record_reply_simps [simp]:
  "ch_calls (record_reply k p r ch) = remove1 k (ch_calls ch)"
  "ch_refcount (record_reply k p r ch) = ch_refcount ch"
  "ch_done (record_reply k p r ch) = ch_done ch"
  "ch_owner (record_reply k p r ch) = ch_owner ch"
  "ch_error (record_reply k p r ch) =
     (case ch_error ch of Some e \<Rightarrow> Some e
      | None \<Rightarrow> (case r of Pk_Error e \<Rightarrow> Some e | Pk_Result _ _ \<Rightarrow> None))"
  by (cases r; cases "ch_error ch"; simp add: record_reply_def default_call_func_def chain_set_data_def Let_def)+

lemma reply_result_nonzero: "result_num (reply_result (Pk_Result a b)) \<noteq> 0"
  by simp

lemma record_reply_data:
  "ch_data (record_reply k p r ch) =
     (case r of Pk_Error _ \<Rightarrow> ch_data ch
      | Pk_Result _ _ \<Rightarrow> gh_insert p (result_num (reply_result r)) (ch_data ch))"
  using reply_result_nonzero
  by (cases r; cases "ch_error ch")
     (simp_all add: record_reply_def default_call_func_def chain_set_data_def Let_def)

section \<open>Preservation of the store invariant\<close>

lemma auth_wfI:
  "(\<And>c ch. au_chains au c = Some ch \<Longrightarrow> chain_ok au c ch) \<Longrightarrow>
   (\<And>k call. au_calls au k = Some call \<Longrightarrow> call_ok au k call) \<Longrightarrow> auth_wf au"
  by (simp add: auth_wf_def)

lemma auth_wf_chain: "auth_wf au \<Longrightarrow> au_chains au c = Some ch \<Longrightarrow> chain_ok au c ch"
  by (simp add: auth_wf_def)

lemma auth_wf_call: "auth_wf au \<Longrightarrow> au_calls au k = Some call \<Longrightarrow> call_ok au k call"
  by (simp add: auth_wf_def)

lemma auth_wf_fresh: "auth_wf au \<Longrightarrow> au_chains au (au_next au) = None \<and> au_calls au (au_next au) = None"
  using auth_wf_chain [of au "au_next au"] auth_wf_call [of au "au_next au"]
  by (cases "au_chains au (au_next au)"; cases "au_calls au (au_next au)")
     (auto simp: chain_ok_def call_ok_def)

lemma auth_wf_init [bm_inv]: "auth_wf auth_init"
  by (simp add: auth_wf_def auth_init_def)

lemma auth_wf_new [bm_inv]:
  assumes wf: "auth_wf au"
  shows "auth_wf (snd (bm_auth_chain_new owner f au))"
proof (cases owner)
  case (Some n)
  show ?thesis
  proof (rule auth_wfI)
    fix c ch assume "au_chains (snd (bm_auth_chain_new owner f au)) c = Some ch"
    then show "chain_ok (snd (bm_auth_chain_new owner f au)) c ch"
      using auth_wf_chain [OF wf, of c ch]
      by (auto simp: bm_auth_chain_new_def Some chain_ok_def ght.invar_new split: if_splits)
  next
    fix k call assume "au_calls (snd (bm_auth_chain_new owner f au)) k = Some call"
    then show "call_ok (snd (bm_auth_chain_new owner f au)) k call"
      using auth_wf_call [OF wf, of k call]
      by (auto simp: bm_auth_chain_new_def Some call_ok_def)
  qed
qed (simp add: bm_auth_chain_new_def wf)

lemma auth_wf_update:
  assumes wf: "auth_wf au"
    and f: "\<And>ch. au_chains au c = Some ch \<Longrightarrow>
      ch_refcount (f ch) = ch_refcount ch \<and> ch_calls (f ch) = ch_calls ch \<and> gh_wf (ch_data (f ch))"
  shows "auth_wf (update_chain c f au)"
proof (rule auth_wfI)
  fix d ch assume d: "au_chains (update_chain c f au) d = Some ch"
  then obtain ch' where "au_chains au d = Some ch'" "ch = (if d = c then f ch' else ch')"
    by (auto split: if_splits)
  then show "chain_ok (update_chain c f au) d ch"
    using f [of ch'] auth_wf_chain [OF wf, of d ch'] by (auto simp: chain_ok_def)
next
  fix k call assume "au_calls (update_chain c f au) k = Some call"
  then have ok: "call_ok au k call"
    using auth_wf_call [OF wf] by simp
  show "call_ok (update_chain c f au) k call"
  proof (cases "call_chain call = c")
    case True
    then show ?thesis
      using ok f by (fastforce simp: call_ok_def)
  qed (use ok in \<open>simp add: call_ok_def\<close>)
qed

lemma auth_wf_set_data [bm_inv]: "auth_wf au \<Longrightarrow> auth_wf (bm_auth_chain_set_data c tag d au)"
  unfolding bm_auth_chain_set_data_def
  by (rule auth_wf_update)
     (auto simp: chain_set_data_def ght.invar_del ght.invar_ins chain_ok_def dest: auth_wf_chain)

lemma auth_wf_add_call [bm_inv]:
  assumes wf: "auth_wf au" and c: "au_chains au c = Some ch"
  shows "auth_wf (bm_auth_chain_add_call c p i au)"
proof (rule auth_wfI)
  have fresh: "au_next au \<notin> set (ch_calls ch)"
    using auth_wf_chain [OF wf c] auth_wf_fresh [OF wf] by (auto simp: chain_ok_def)
  fix d ch' assume d: "au_chains (bm_auth_chain_add_call c p i au) d = Some ch'"
  show "chain_ok (bm_auth_chain_add_call c p i au) d ch'"
  proof (cases "d = c")
    case True
    then have "ch' = ch\<lparr>ch_calls := ch_calls ch @ [au_next au]\<rparr>"
      using d c by (simp add: bm_auth_chain_add_call_def)
    then show ?thesis
      using auth_wf_chain [OF wf c] fresh True by (auto simp: chain_ok_def bm_auth_chain_add_call_def)
  next
    case False
    then have "au_chains au d = Some ch'"
      using d by (simp add: bm_auth_chain_add_call_def)
    then show ?thesis
      using auth_wf_chain [OF wf, of d ch'] auth_wf_fresh [OF wf]
      by (fastforce simp: chain_ok_def bm_auth_chain_add_call_def)
  qed
next
  fix k call assume k: "au_calls (bm_auth_chain_add_call c p i au) k = Some call"
  show "call_ok (bm_auth_chain_add_call c p i au) k call"
  proof (cases "k = au_next au")
    case True
    then show ?thesis
      using k c auth_wf_chain [OF wf c] by (auto simp: call_ok_def bm_auth_chain_add_call_def chain_ok_def)
  next
    case False
    then have "call_ok au k call"
      using k auth_wf_call [OF wf, of k call] by (simp add: bm_auth_chain_add_call_def)
    then show ?thesis
      using c by (cases "call_chain call = c") (auto simp: call_ok_def bm_auth_chain_add_call_def)
  qed
qed

lemma auth_wf_unref [bm_inv]:
  assumes wf: "auth_wf au"
  shows "auth_wf (bm_auth_chain_unref c au)"
proof (cases "au_chains au c")
  case (Some ch)
  then have ok: "chain_ok au c ch"
    by (rule auth_wf_chain [OF wf])
  then have r: "ch_refcount ch = 1"
    by (simp add: chain_ok_def)
  note last = unref_last [OF Some r]
  show ?thesis
  proof (rule auth_wfI)
    fix d ch' assume "au_chains (bm_auth_chain_unref c au) d = Some ch'"
    then have d: "au_chains au d = Some ch'" "d \<noteq> c"
      by (auto simp: last split: if_splits)
    have "k \<notin> set (ch_calls ch)" if "k \<in> set (ch_calls ch')" for k
      using that ok auth_wf_chain [OF wf d(1)] d(2) by (fastforce simp: chain_ok_def)
    then show "chain_ok (bm_auth_chain_unref c au) d ch'"
      using auth_wf_chain [OF wf d(1)] by (auto simp: chain_ok_def last)
  next
    fix k call assume "au_calls (bm_auth_chain_unref c au) k = Some call"
    then obtain call' where k: "au_calls au k = Some call'"
        "call = (if k \<in> set (ch_calls ch) then call'\<lparr>call_disposed := True\<rparr> else call')"
      by (auto simp: last split: if_splits)
    then show "call_ok (bm_auth_chain_unref c au) k call"
      using auth_wf_call [OF wf k(1)] Some by (auto simp: call_ok_def last)
  qed
qed (simp add: wf)

section \<open>The contract of the callbacks\<close>

text \<open>The store a callback sees: the last reply is recorded and the chain has a second reference.\<close>

definition callback_store :: "nat \<Rightarrow> string \<Rightarrow> pk_reply \<Rightarrow> nat \<Rightarrow> 'f auth \<Rightarrow> 'f auth" where
  "callback_store k p r c au =
     update_chain c (\<lambda>ch. ch\<lparr>ch_refcount := ch_refcount ch + 1\<rparr>) (update_chain c (record_reply k p r) au)"

text \<open>The replies of PolicyKit, one after the other, and what they leave in the chain.\<close>

definition deliver :: "('f, 's) done_funcs \<Rightarrow> (nat \<times> pk_reply) list \<Rightarrow> 'f auth \<times> 's \<Rightarrow> 'f auth \<times> 's" where
  "deliver run krs w = foldl (\<lambda>w (k, r). pk_call_cb run k r w) w krs"

definition replies_chain :: "'f auth \<Rightarrow> (nat \<times> pk_reply) list \<Rightarrow> 'f auth_chain \<Rightarrow> 'f auth_chain" where
  "replies_chain au krs ch =
     foldl (\<lambda>ch (k, r). record_reply k (call_permission (the (au_calls au k))) r ch) ch krs"

fun first_error :: "(nat \<times> pk_reply) list \<Rightarrow> string option" where
  "first_error [] = None"
| "first_error ((k, Pk_Error e) # krs) = Some e"
| "first_error ((k, Pk_Result _ _) # krs) = first_error krs"

lemma replies_chain_simps:
  "ch_calls (replies_chain au krs ch) = foldl (\<lambda>ks k. remove1 k ks) (ch_calls ch) (map fst krs)"
  "ch_refcount (replies_chain au krs ch) = ch_refcount ch"
  "ch_done (replies_chain au krs ch) = ch_done ch"
  by (induction krs arbitrary: ch) (auto simp: replies_chain_def)

lemma replies_chain_error:
  "ch_error (replies_chain au krs ch) =
     (case ch_error ch of Some e \<Rightarrow> Some e | None \<Rightarrow> first_error krs)"
proof (induction krs arbitrary: ch)
  case (Cons kr krs)
  obtain k r where kr: "kr = (k, r)" by (cases kr)
  show ?case
    using Cons.IH by (cases r) (auto simp: kr replies_chain_def split: option.split)
qed (simp add: replies_chain_def split: option.split)

definition granted :: "'f auth \<Rightarrow> (nat \<times> pk_reply) list \<Rightarrow> (string \<times> nat) list" where
  "granted au krs = concat (map (\<lambda>(k, r). case r of Pk_Error _ \<Rightarrow> []
     | Pk_Result _ _ \<Rightarrow> [(call_permission (the (au_calls au k)), result_num (reply_result r))]) krs)"

lemma replies_chain_data:
  "gh_lookup (ch_data (replies_chain au krs ch)) = gh_lookup (ch_data ch) ++ map_of (rev (granted au krs))"
proof (induction krs arbitrary: ch)
  case (Cons kr krs)
  obtain k r where kr: "kr = (k, r)" by (cases kr)
  show ?case
    using Cons.IH
    by (cases r)
       (auto simp: kr replies_chain_def granted_def record_reply_data ght.look_ins fun_eq_iff map_add_def
          simp del: reply_result.simps split: option.split)
qed (simp add: replies_chain_def granted_def)

lemma remove_all_set:
  "distinct ks \<Longrightarrow> set (foldl (\<lambda>ks k. remove1 k ks) ks js) = set ks - set js"
  by (induction js arbitrary: ks) auto

text \<open>A callback gives up the reference of the chain it is called for and leaves the other chains and
  calls alone; what it does to the rest of the program is its own affair.\<close>

locale auth_client =
  fixes run :: "('f, 's) done_funcs"
  assumes run_auth: "fst (run f c e (au, s)) = bm_auth_chain_unref c au"
begin

lemma disposed_call:
  "au_calls au k = Some call \<Longrightarrow> call_disposed call \<Longrightarrow>
     pk_call_cb run k r (au, s) = (polkit_call_free k au, s)"
  by (simp add: pk_call_cb_def)

lemma call_not_last:
  assumes "au_calls au k = Some call" "\<not> call_disposed call" "au_chains au (call_chain call) = Some ch"
    and "remove1 k (ch_calls ch) \<noteq> []"
  shows "pk_call_cb run k r (au, s) =
    (polkit_call_free k (update_chain (call_chain call) (record_reply k (call_permission call) r) au), s)"
  using assms by (simp add: pk_call_cb_def bm_auth_chain_check_done_def)

lemma call_last:
  assumes k: "au_calls au k = Some call" "\<not> call_disposed call"
    and c: "au_chains au (call_chain call) = Some ch" "ch_refcount ch = 1"
    and last: "remove1 k (ch_calls ch) = []"
  shows "snd (pk_call_cb run k r (au, s)) =
      snd (run (ch_done ch) (call_chain call) (ch_error (record_reply k (call_permission call) r ch))
        (callback_store k (call_permission call) r (call_chain call) au, s))"
    and "au_chains (fst (pk_call_cb run k r (au, s))) = (au_chains au)(call_chain call := None)"
    and "au_calls (fst (pk_call_cb run k r (au, s))) = (au_calls au)(k := None)"
    and "au_next (fst (pk_call_cb run k r (au, s))) = au_next au"
proof -
  let ?c = "call_chain call"
  let ?au = "callback_store k (call_permission call) r ?c au"
  have au: "au_chains ?au ?c = Some ((record_reply k (call_permission call) r ch)\<lparr>ch_refcount := 2\<rparr>)"
    "au_calls ?au = au_calls au" "au_next ?au = au_next au" "\<And>d. d \<noteq> ?c \<Longrightarrow> au_chains ?au d = au_chains au d"
    using c by (simp_all add: callback_store_def)
  have "bm_auth_chain_unref ?c ?au = update_chain ?c (ch_refcount_update (\<lambda>_. 1)) ?au"
    by (rule unref_shared [OF au(1)]) simp
  then have one: "au_chains (bm_auth_chain_unref ?c ?au) ?c =
      Some ((record_reply k (call_permission call) r ch)\<lparr>ch_refcount := 1\<rparr>)"
    "au_calls (bm_auth_chain_unref ?c ?au) = au_calls au" "au_next (bm_auth_chain_unref ?c ?au) = au_next au"
    "\<And>d. d \<noteq> ?c \<Longrightarrow> au_chains (bm_auth_chain_unref ?c ?au) d = au_chains au d"
    using au by simp_all
  have eq: "pk_call_cb run k r (au, s) =
      apfst (polkit_call_free k) (apfst (bm_auth_chain_unref ?c)
        (run (ch_done ch) ?c (ch_error (record_reply k (call_permission call) r ch)) (?au, s)))"
    using k c last by (simp add: pk_call_cb_def bm_auth_chain_check_done_def callback_store_def)
  then show "snd (pk_call_cb run k r (au, s)) =
      snd (run (ch_done ch) ?c (ch_error (record_reply k (call_permission call) r ch)) (?au, s))"
    by simp
  have fst_eq: "fst (pk_call_cb run k r (au, s)) =
      polkit_call_free k (bm_auth_chain_unref ?c (bm_auth_chain_unref ?c ?au))"
    by (simp add: eq run_auth)
  note two = unref_last [OF one(1)]
  show "au_chains (fst (pk_call_cb run k r (au, s))) = (au_chains au)(?c := None)"
    by (rule ext) (simp add: fst_eq two one)
  show "au_calls (fst (pk_call_cb run k r (au, s))) = (au_calls au)(k := None)"
    by (rule ext) (simp add: fst_eq two one last)
  show "au_next (fst (pk_call_cb run k r (au, s))) = au_next au"
    by (simp add: fst_eq two one)
qed

lemma auth_wf_free_disposed:
  assumes wf: "auth_wf au" and k: "au_calls au k = Some call" "call_disposed call"
  shows "auth_wf (polkit_call_free k au)"
proof (rule auth_wfI)
  fix c ch assume "au_chains (polkit_call_free k au) c = Some ch"
  then have "chain_ok au c ch"
    using auth_wf_chain [OF wf] by simp
  then show "chain_ok (polkit_call_free k au) c ch"
    using k by (fastforce simp: chain_ok_def)
next
  fix j call' assume "au_calls (polkit_call_free k au) j = Some call'"
  then show "call_ok (polkit_call_free k au) j call'"
    using auth_wf_call [OF wf, of j call'] by (simp add: call_ok_def split: if_splits)
qed

lemma auth_wf_not_last:
  assumes wf: "auth_wf au" and k: "au_calls au k = Some call" "\<not> call_disposed call"
    and c: "au_chains au (call_chain call) = Some ch"
  shows "auth_wf (polkit_call_free k (update_chain (call_chain call) (record_reply k p r) au))"
    (is "auth_wf ?au")
proof (rule auth_wfI)
  have ok: "chain_ok au (call_chain call) ch"
    using wf c by (rule auth_wf_chain)
  fix d ch' assume d: "au_chains ?au d = Some ch'"
  show "chain_ok ?au d ch'"
  proof (cases "d = call_chain call")
    case True
    then have "ch' = record_reply k p r ch"
      using d c by simp
    then show ?thesis
      using ok True
      by (auto simp: chain_ok_def record_reply_data ght.invar_ins split: pk_reply.split dest: notin_set_remove1)
  next
    case False
    then have "chain_ok au d ch'"
      using d auth_wf_chain [OF wf] by simp
    then show ?thesis
      using k False by (fastforce simp: chain_ok_def)
  qed
next
  fix j call' assume j: "au_calls ?au j = Some call'"
  then have jk: "j \<noteq> k" "call_ok au j call'"
    using auth_wf_call [OF wf, of j call'] by (auto split: if_splits)
  then show "call_ok ?au j call'"
    using c by (cases "call_chain call' = call_chain call") (auto simp: call_ok_def in_set_remove1)
qed

lemma auth_wf_last:
  assumes wf: "auth_wf au" and k: "au_calls au k = Some call" "\<not> call_disposed call"
    and c: "au_chains au (call_chain call) = Some ch" and last: "remove1 k (ch_calls ch) = []"
    and b: "au_chains b = (au_chains au)(call_chain call := None)" "au_calls b = (au_calls au)(k := None)"
      "au_next b = au_next au"
  shows "auth_wf b"
proof (rule auth_wfI)
  fix d ch' assume "au_chains b d = Some ch'"
  then have d: "d \<noteq> call_chain call" "chain_ok au d ch'"
    using auth_wf_chain [OF wf, of d ch'] by (auto simp: b split: if_splits)
  then show "chain_ok b d ch'"
    using k by (fastforce simp: chain_ok_def b)
next
  fix j call' assume "au_calls b j = Some call'"
  then have j: "j \<noteq> k" "au_calls au j = Some call'"
    by (auto simp: b split: if_splits)
  have "j \<notin> set (ch_calls ch)"
    using j(1) last by (metis in_set_remove1 list.set(1) empty_iff)
  then show "call_ok b j call'"
    using auth_wf_call [OF wf j(2)] c by (auto simp: call_ok_def b)
qed

lemma pk_call_cb_wf:
  assumes wf: "auth_wf au"
  shows "auth_wf (fst (pk_call_cb run k r (au, s)))"
proof (cases "au_calls au k")
  case (Some call)
  show ?thesis
  proof (cases "call_disposed call")
    case True
    then show ?thesis
      using auth_wf_free_disposed [OF wf Some] by (simp add: disposed_call [OF Some])
  next
    case False
    then obtain ch where ch: "au_chains au (call_chain call) = Some ch"
      using auth_wf_call [OF wf Some] by (auto simp: call_ok_def)
    then have "ch_refcount ch = 1"
      using auth_wf_chain [OF wf ch] by (simp add: chain_ok_def)
    then show ?thesis
      using auth_wf_last [OF wf Some False ch] call_last [OF Some False ch]
        auth_wf_not_last [OF wf Some False ch] call_not_last [OF Some False ch]
      by (cases "remove1 k (ch_calls ch) = []") auto
  qed
qed (simp add: pk_call_cb_def wf)

lemma deliver_pending:
  assumes wf: "auth_wf au" and c: "au_chains au c = Some ch"
  shows "distinct (map fst krs) \<Longrightarrow> set (map fst krs) \<subset> set (ch_calls ch) \<Longrightarrow>
    snd (deliver run krs (au, s)) = s \<and> auth_wf (fst (deliver run krs (au, s))) \<and>
    au_chains (fst (deliver run krs (au, s))) c = Some (replies_chain au krs ch) \<and>
    (\<forall>k. k \<notin> set (map fst krs) \<longrightarrow> au_calls (fst (deliver run krs (au, s))) k = au_calls au k)"
proof (induction krs rule: rev_induct)
  case Nil
  then show ?case
    using wf c by (simp add: deliver_def replies_chain_def)
next
  case (snoc kr krs)
  obtain k r where kr: "kr = (k, r)" by (cases kr)
  let ?w = "deliver run krs (au, s)"
  have ok: "chain_ok au c ch"
    using wf c by (rule auth_wf_chain)
  have IH: "snd ?w = s" "auth_wf (fst ?w)" "au_chains (fst ?w) c = Some (replies_chain au krs ch)"
      "\<And>k. k \<notin> set (map fst krs) \<Longrightarrow> au_calls (fst ?w) k = au_calls au k"
    using snoc.IH snoc.prems by (simp_all add: kr psubset_eq) auto
  have k: "k \<notin> set (map fst krs)" "k \<in> set (ch_calls ch)"
    using snoc.prems by (auto simp: kr)
  obtain call where call: "au_calls au k = Some call" "call_chain call = c" "\<not> call_disposed call"
    using ok k(2) by (auto simp: chain_ok_def)
  have set_calls: "set (ch_calls (replies_chain au xs ch)) = set (ch_calls ch) - set (map fst xs)" for xs
    using ok by (simp add: replies_chain_simps remove_all_set chain_ok_def)
  have rest: "remove1 k (ch_calls (replies_chain au krs ch)) \<noteq> []"
    using snoc.prems set_calls [of "krs @ [kr]"]
    by (auto simp: kr replies_chain_simps)
  have w: "?w = (fst ?w, s)"
    using IH(1) by (metis prod.collapse)
  have callw: "au_calls (fst ?w) k = Some call"
    using IH(4) [OF k(1)] call(1) by simp
  have step: "deliver run (krs @ [kr]) (au, s) =
      (polkit_call_free k (update_chain c (record_reply k (call_permission call) r) (fst ?w)), s)"
    using call_not_last [of "fst ?w" k call "replies_chain au krs ch" r s] callw call IH(3) rest w
    by (simp add: deliver_def kr)
  have "auth_wf (fst (pk_call_cb run k r (fst ?w, s)))"
    by (rule pk_call_cb_wf [OF IH(2)])
  moreover have "fst (pk_call_cb run k r (fst ?w, s)) = fst (deliver run (krs @ [kr]) (au, s))"
    using w by (simp add: deliver_def kr)
  ultimately show ?case
    using IH(3,4) by (simp add: step [unfolded kr] replies_chain_def kr call(1))
qed

lemma deliver_complete:
  assumes wf: "auth_wf au" and c: "au_chains au c = Some ch"
    and krs: "distinct (map fst krs)" "set (map fst krs) = set (ch_calls ch)" "krs \<noteq> []"
  shows "\<exists>au1. au_chains au1 c = Some ((replies_chain au krs ch)\<lparr>ch_refcount := 2\<rparr>) \<and>
    snd (deliver run krs (au, s)) = snd (run (ch_done ch) c (ch_error (replies_chain au krs ch)) (au1, s)) \<and>
    au_chains (fst (deliver run krs (au, s))) c = None"
proof -
  obtain k r js where js: "krs = js @ [(k, r)]"
    using krs(3) by (metis rev_exhaust surj_pair)
  have sub: "set (map fst js) \<subset> set (ch_calls ch)"
    using krs(1,2) by (auto simp: js psubset_eq)
  let ?w = "deliver run js (au, s)"
  have w: "snd ?w = s" "au_chains (fst ?w) c = Some (replies_chain au js ch)"
      "au_calls (fst ?w) k = au_calls au k"
    using deliver_pending [OF wf c, of js s] sub krs(1) by (auto simp: js)
  have ok: "chain_ok au c ch"
    using wf c by (rule auth_wf_chain)
  moreover have "k \<in> set (ch_calls ch)"
    using krs(2) by (auto simp: js)
  ultimately obtain call where call: "au_calls au k = Some call" "call_chain call = c" "\<not> call_disposed call"
    unfolding chain_ok_def by blast
  have "set (foldl (\<lambda>ks k. remove1 k ks) (ch_calls ch) (map fst krs)) = {}"
    using ok krs(1,2) by (simp add: remove_all_set chain_ok_def)
  then have last: "remove1 k (ch_calls (replies_chain au js ch)) = []"
    by (simp add: js replies_chain_simps)
  have one: "ch_refcount (replies_chain au js ch) = 1"
    using ok by (simp add: replies_chain_simps chain_ok_def)
  have rc: "record_reply k (call_permission call) r (replies_chain au js ch) = replies_chain au krs ch"
    by (simp add: js replies_chain_def call(1))
  have callw: "au_calls (fst ?w) k = Some call" and chw: "au_chains (fst ?w) (call_chain call) = Some (replies_chain au js ch)"
    using w call by simp_all
  note fin = call_last [OF callw call(3) chw one last, of r s]
  have full: "deliver run krs (au, s) = pk_call_cb run k r (fst ?w, s)"
    using w(1) by (simp add: deliver_def js) (metis deliver_def prod.collapse)
  have "au_chains (callback_store k (call_permission call) r c (fst ?w)) c =
      Some ((replies_chain au krs ch)\<lparr>ch_refcount := 2\<rparr>)"
    using w(2) ok by (simp add: callback_store_def rc replies_chain_simps chain_ok_def)
  moreover have "snd (deliver run krs (au, s)) = snd (run (ch_done ch) c (ch_error (replies_chain au krs ch))
      (callback_store k (call_permission call) r c (fst ?w), s))"
    using fin(1) by (simp add: full rc call(2) replies_chain_simps)
  moreover have "au_chains (fst (deliver run krs (au, s))) c = None"
    using fin(2) by (simp add: full call(2))
  ultimately show ?thesis by blast
qed

end

section \<open>Properties\<close>

text \<open>C4: However the replies of PolicyKit to the calls of a chain are ordered, the chain calls back
  exactly when the last one is in, and is then freed: before it the rest of the program is
  unchanged; the callback gets the first error, and finds under each permission the last answer
  that was not an error.\<close>

theorem auth_chain_calls_back_once:
  assumes run: "\<And>f c e au s. fst (run f c e (au, s)) = bm_auth_chain_unref c au"
    and wf: "auth_wf au" and c: "au_chains au c = Some ch" and new: "ch_error ch = None"
    and krs: "distinct (map fst krs)" "set (map fst krs) = set (ch_calls ch)" "krs \<noteq> []"
  shows "(\<forall>j < length krs. snd (deliver run (take j krs) (au, s)) = s) \<and>
    au_chains (fst (deliver run krs (au, s))) c = None \<and>
    (\<exists>au1 ch1. snd (deliver run krs (au, s)) = snd (run (ch_done ch) c (first_error krs) (au1, s)) \<and>
       au_chains au1 c = Some ch1 \<and>
       gh_lookup (ch_data ch1) = gh_lookup (ch_data ch) ++ map_of (rev (granted au krs)))"
proof -
  have client: "auth_client run"
    by (rule auth_client.intro) (rule run)
  have "snd (deliver run (take j krs) (au, s)) = s" if "j < length krs" for j
  proof -
    have dist: "distinct (map fst (take j krs))"
      using krs(1) by (simp add: take_map [symmetric])
    moreover have "length (map fst (take j krs)) < length (map fst krs)"
      using that by simp
    ultimately have "card (set (map fst (take j krs))) < card (set (map fst krs))"
      using krs(1) by (metis distinct_card)
    moreover have "set (map fst (take j krs)) \<subseteq> set (map fst krs)"
      by (auto dest: in_set_takeD)
    ultimately have "set (map fst (take j krs)) \<subset> set (ch_calls ch)"
      using krs(2) by auto
    then show ?thesis
      using auth_client.deliver_pending [OF client wf c dist] by blast
  qed
  moreover obtain au1 where "au_chains au1 c = Some ((replies_chain au krs ch)\<lparr>ch_refcount := 2\<rparr>)"
    "snd (deliver run krs (au, s)) = snd (run (ch_done ch) c (ch_error (replies_chain au krs ch)) (au1, s))"
    "au_chains (fst (deliver run krs (au, s))) c = None"
    using auth_client.deliver_complete [OF client wf c krs, of s] by blast
  ultimately show ?thesis
    by (auto simp: replies_chain_error new replies_chain_data intro!: exI [of _ au1])
qed

text \<open>A chain for two permissions, whose callback notes the error and the two answers.\<close>

definition sample_auth :: "unit auth" where
  "sample_auth = bm_auth_chain_add_call 0 ''b'' True (bm_auth_chain_add_call 0 ''a'' False
     (snd (bm_auth_chain_new (Some '':1.1'') () auth_init)))"

definition sample_run :: "(unit, (string option \<times> nat \<times> nat) list) done_funcs" where
  "sample_run f c e w =
     (bm_auth_chain_unref c (fst w),
      (e, bm_auth_chain_get_data c ''a'' (fst w), bm_auth_chain_get_data c ''b'' (fst w)) # snd w)"

lemma sample_auth_wf:
  "auth_wf sample_auth"
  "au_chains sample_auth 0 = Some \<lparr>ch_refcount = 1, ch_calls = [1, 2], ch_data = gh_new, ch_error = None,
     ch_owner = '':1.1'', ch_done = ()\<rparr>"
proof -
  have c: "au_chains (snd (bm_auth_chain_new (Some '':1.1'') () auth_init)) 0 =
      Some \<lparr>ch_refcount = 1, ch_calls = [], ch_data = gh_new, ch_error = None, ch_owner = '':1.1'', ch_done = ()\<rparr>"
    by (simp add: bm_auth_chain_new_def auth_init_def)
  have d: "au_chains (bm_auth_chain_add_call 0 ''a'' False (snd (bm_auth_chain_new (Some '':1.1'') () auth_init))) 0 =
      Some \<lparr>ch_refcount = 1, ch_calls = [1], ch_data = gh_new, ch_error = None, ch_owner = '':1.1'', ch_done = ()\<rparr>"
    by (simp add: bm_auth_chain_new_def auth_init_def bm_auth_chain_add_call_def)
  show "auth_wf sample_auth"
    unfolding sample_auth_def
    by (rule auth_wf_add_call [OF auth_wf_add_call [OF auth_wf_new [OF auth_wf_init] c] d])
  show "au_chains sample_auth 0 = Some \<lparr>ch_refcount = 1, ch_calls = [1, 2], ch_data = gh_new, ch_error = None,
     ch_owner = '':1.1'', ch_done = ()\<rparr>"
    by (simp add: sample_auth_def bm_auth_chain_new_def auth_init_def bm_auth_chain_add_call_def)
qed

theorem auth_chain_calls_back_once_witness:
  "snd (deliver sample_run [(2, Pk_Error ''no agent''), (1, Pk_Result True False)] (sample_auth, [])) =
     [(Some ''no agent'', 1, 0)] \<and>
   au_chains (fst (deliver sample_run [(2, Pk_Error ''no agent''), (1, Pk_Result True False)] (sample_auth, []))) 0 = None"
proof -
  let ?krs = "[(2, Pk_Error ''no agent''), (1, Pk_Result True False)]"
  have run: "fst (sample_run f c e (au, s)) = bm_auth_chain_unref c au" for f c e au s
    by (simp add: sample_run_def)
  have "au_calls sample_auth 1 = Some \<lparr>call_chain = 0, call_permission = ''a'', call_interaction = False, call_disposed = False\<rparr>"
    by (simp add: sample_auth_def bm_auth_chain_new_def auth_init_def bm_auth_chain_add_call_def)
  then have granted: "granted sample_auth ?krs = [(''a'', 1)]"
    by (simp add: granted_def)
  obtain au1 ch1 where "au_chains (fst (deliver sample_run ?krs (sample_auth, []))) 0 = None"
    "snd (deliver sample_run ?krs (sample_auth, [])) = snd (sample_run () 0 (Some ''no agent'') (au1, []))"
    "au_chains au1 0 = Some ch1" "gh_lookup (ch_data ch1) = gh_lookup gh_new ++ map_of (rev [(''a'', 1)])"
    using auth_chain_calls_back_once [where run = sample_run and s = "[]" and krs = ?krs, OF run sample_auth_wf]
    by (auto simp: granted [simplified] insert_commute)
  then show ?thesis
    by (simp add: sample_run_def bm_auth_chain_get_data_def ght.look_new map_add_def)
qed

text \<open>Once a chain is freed, the calls it still had pending are cancelled: a late reply to one of
  them only frees the call, and calls nobody back.\<close>

theorem freed_chain_ignores_replies:
  assumes "auth_wf au" "au_chains au c = Some ch" "k \<in> set (ch_calls ch)"
  shows "pk_call_cb run k r (bm_auth_chain_unref c au, s) = (polkit_call_free k (bm_auth_chain_unref c au), s)"
proof -
  have "chain_ok au c ch"
    using assms(1,2) by (rule auth_wf_chain)
  then obtain call where "au_calls au k = Some call" "ch_refcount ch = 1"
    using assms(3) by (auto simp: chain_ok_def)
  then have "au_calls (bm_auth_chain_unref c au) k = Some (call\<lparr>call_disposed := True\<rparr>)"
    using assms(2,3) by (simp add: unref_last)
  then show ?thesis
    by (simp add: pk_call_cb_def)
qed

theorem freed_chain_ignores_replies_witness:
  "pk_call_cb sample_run 2 (Pk_Result True False) (bm_auth_chain_unref 0 sample_auth, []) =
     (polkit_call_free 2 (bm_auth_chain_unref 0 sample_auth), [])"
  by (rule freed_chain_ignores_replies [OF sample_auth_wf]) simp

end
