(* ===== verification/Device.thy ===== *)
theory Device
  imports Setting_Classes
begin

text \<open>
  Devices, \<^verbatim>\<open>src/barcode-manager/src/bm-device.c\<close>: the private data of a device, its construction
  from properties, and the questions the manager asks it.  \<^verbatim>\<open>bm_device_get_state\<close> is declared and
  used but defined nowhere in the repository: it is the parameter \<open>gs\<close> of the operations that
  call it.
\<close>

section \<open>State\<close>

datatype device_state =
    BM_DEVICE_STATE_UNKNOWN | BM_DEVICE_STATE_UNMANAGED | BM_DEVICE_STATE_UNAVAILABLE
  | BM_DEVICE_STATE_DISCONNECTED | BM_DEVICE_STATE_PREPARE | BM_DEVICE_STATE_CONFIG
  | BM_DEVICE_STATE_NEED_AUTH | BM_DEVICE_STATE_IP_CONFIG | BM_DEVICE_STATE_ACTIVATED
  | BM_DEVICE_STATE_FAILED

fun device_state_num :: "device_state \<Rightarrow> u32" where
  "device_state_num BM_DEVICE_STATE_UNKNOWN = 0"
| "device_state_num BM_DEVICE_STATE_UNMANAGED = 1"
| "device_state_num BM_DEVICE_STATE_UNAVAILABLE = 2"
| "device_state_num BM_DEVICE_STATE_DISCONNECTED = 3"
| "device_state_num BM_DEVICE_STATE_PREPARE = 4"
| "device_state_num BM_DEVICE_STATE_CONFIG = 5"
| "device_state_num BM_DEVICE_STATE_NEED_AUTH = 6"
| "device_state_num BM_DEVICE_STATE_IP_CONFIG = 7"
| "device_state_num BM_DEVICE_STATE_ACTIVATED = 8"
| "device_state_num BM_DEVICE_STATE_FAILED = 9"

record device =
  dev_disposed :: bool
  dev_initialized :: bool
  dev_state :: device_state
  dev_udi :: cstr
  dev_path :: cstr
  dev_iface :: cstr
  dev_type :: u32
  dev_type_desc :: cstr
  dev_capabilities :: u32
  dev_driver :: cstr
  dev_managed :: bool
  dev_firmware_missing :: bool
  dev_act_source_id :: u32

definition BM_DEVICE_TYPE_UNKNOWN :: u32 where "BM_DEVICE_TYPE_UNKNOWN = 0"
definition BM_DEVICE_TYPE_SERIAL :: u32 where "BM_DEVICE_TYPE_SERIAL = 1"
definition BM_DEVICE_TYPE_HIDRAW :: u32 where "BM_DEVICE_TYPE_HIDRAW = 2"
definition BM_DEVICE_TYPE_BT :: u32 where "BM_DEVICE_TYPE_BT = 3"

definition bm_device_init :: device where
  "bm_device_init =
     \<lparr>dev_disposed = False, dev_initialized = False, dev_state = BM_DEVICE_STATE_UNMANAGED, dev_udi = None,
      dev_path = None, dev_iface = None, dev_type = BM_DEVICE_TYPE_UNKNOWN, dev_type_desc = None,
      dev_capabilities = 0, dev_driver = None, dev_managed = False, dev_firmware_missing = False,
      dev_act_source_id = 0\<rparr>"

section \<open>Properties and construction\<close>

text \<open>The type can be set once only.\<close>

definition device_set_property :: "device \<Rightarrow> string \<times> gvalue \<Rightarrow> device" where
  "device_set_property d nv =
     (let n = fst nv; v = snd nv
      in if n = ''udi'' then d\<lparr>dev_udi := value_string v\<rparr>
         else if n = ''interface'' then d\<lparr>dev_iface := value_string v\<rparr>
         else if n = ''driver'' then d\<lparr>dev_driver := value_string v\<rparr>
         else if n = ''capabilities'' then d\<lparr>dev_capabilities := value_uint v\<rparr>
         else if n = ''device-type''
              then (if dev_type d = BM_DEVICE_TYPE_UNKNOWN then d\<lparr>dev_type := value_uint v\<rparr> else d)
         else if n = ''type-desc'' then d\<lparr>dev_type_desc := value_string v\<rparr>
         else d)"

definition device_get_property :: "device \<Rightarrow> string \<Rightarrow> gvalue option" where
  "device_get_property d n =
     (if n = ''interface'' then Some (GString (dev_iface d))
      else if n = ''driver'' then Some (GString (dev_driver d))
      else if n = ''capabilities'' then Some (GUInt (dev_capabilities d))
      else if n = ''state'' then Some (GUInt (device_state_num (dev_state d)))
      else if n = ''device-type'' then Some (GUInt (dev_type d))
      else if n = ''type-desc'' then Some (GString (dev_type_desc d))
      else None)"

definition device_constructor :: "device \<Rightarrow> device option" where
  "device_constructor d =
     (if dev_udi d = None then None
      else if dev_iface d = None then None
      else Some (d\<lparr>dev_initialized := True\<rparr>))"

text \<open>\<^verbatim>\<open>g_object_new\<close> with the properties in the order of the call.\<close>

definition device_new :: "(string \<times> gvalue) list \<Rightarrow> device option" where
  "device_new params = device_constructor (foldl device_set_property bm_device_init params)"

definition device_dispose :: "device \<Rightarrow> device" where
  "device_dispose d =
     (if dev_disposed d \<or> \<not> dev_initialized d then d else d\<lparr>dev_disposed := True\<rparr>)"

section \<open>Accessors\<close>

definition bm_device_set_path :: "string \<Rightarrow> device \<Rightarrow> device" where
  "bm_device_set_path path d = (if dev_path d = None then d\<lparr>dev_path := Some path\<rparr> else d)"

definition bm_device_get_path :: "device \<Rightarrow> cstr" where
  "bm_device_get_path d = dev_path d"

definition bm_device_get_iface :: "device \<Rightarrow> cstr" where
  "bm_device_get_iface d = dev_iface d"

definition bm_device_get_driver :: "device \<Rightarrow> cstr" where
  "bm_device_get_driver d = dev_driver d"

definition bm_device_get_device_type :: "device \<Rightarrow> u32" where
  "bm_device_get_device_type d = dev_type d"

definition bm_device_get_priority :: "device \<Rightarrow> int" where
  "bm_device_get_priority d = sint (bm_device_get_device_type d)"

definition bm_device_get_capabilities :: "device \<Rightarrow> u32" where
  "bm_device_get_capabilities d = dev_capabilities d"

definition real_get_type_capabilities :: "device \<Rightarrow> u32" where
  "real_get_type_capabilities d = 0"

definition real_get_generic_capabilities :: "device \<Rightarrow> u32" where
  "real_get_generic_capabilities d = 0"

text \<open>The method of the device's class, or the default.\<close>

definition bm_device_get_type_capabilities :: "(device \<Rightarrow> u32) option \<Rightarrow> device \<Rightarrow> u32" where
  "bm_device_get_type_capabilities m d =
     (case m of Some f \<Rightarrow> f d | None \<Rightarrow> real_get_type_capabilities d)"

definition bm_device_hw_is_up :: "(device \<Rightarrow> bool) option \<Rightarrow> device \<Rightarrow> bool" where
  "bm_device_hw_is_up m d = (case m of Some f \<Rightarrow> f d | None \<Rightarrow> True)"

definition bm_device_get_type_desc :: "device \<Rightarrow> cstr" where
  "bm_device_get_type_desc d = dev_type_desc d"

definition bm_device_is_activating :: "(device \<Rightarrow> device_state) \<Rightarrow> device \<Rightarrow> bool" where
  "bm_device_is_activating gs d =
     (if gs d = BM_DEVICE_STATE_PREPARE \<or> gs d = BM_DEVICE_STATE_CONFIG \<or>
         gs d = BM_DEVICE_STATE_NEED_AUTH \<or> gs d = BM_DEVICE_STATE_IP_CONFIG then True
      else if dev_act_source_id d \<noteq> 0 then True
      else False)"

definition bm_device_is_available :: "(device \<Rightarrow> bool) option \<Rightarrow> device \<Rightarrow> bool" where
  "bm_device_is_available m d =
     (if dev_firmware_missing d then False
      else (case m of Some f \<Rightarrow> f d | None \<Rightarrow> True))"

text \<open>One handler's answer to \<^verbatim>\<open>autoconnect-allowed\<close>; emission goes on whatever it is.\<close>

definition autoconnect_allowed_accumulator :: "bool \<Rightarrow> bool \<Rightarrow> bool \<times> bool" where
  "autoconnect_allowed_accumulator accu handler_return =
     (True, if \<not> handler_return then False else accu)"

definition autoconnect_allowed :: "bool \<Rightarrow> bool list \<Rightarrow> bool" where
  "autoconnect_allowed initial handlers =
     foldl (\<lambda>accu r. snd (autoconnect_allowed_accumulator accu r)) initial handlers"

section \<open>Lemmas\<close>

lemma autoconnect_allowed_iff: "autoconnect_allowed a rs \<longleftrightarrow> a \<and> list_all id rs"
proof (induction rs arbitrary: a)
  case (Cons r rs)
  have "autoconnect_allowed a (r # rs) = autoconnect_allowed (if \<not> r then False else a) rs"
    by (simp add: autoconnect_allowed_def autoconnect_allowed_accumulator_def)
  then show ?case
    by (auto simp: Cons.IH)
qed (simp add: autoconnect_allowed_def)

lemma set_path_once [simp]: "bm_device_set_path q (bm_device_set_path p d) = bm_device_set_path p d"
  by (simp add: bm_device_set_path_def)

lemma set_path_other [simp]:
  "dev_iface (bm_device_set_path p d) = dev_iface d" "dev_state (bm_device_set_path p d) = dev_state d"
  "dev_type_desc (bm_device_set_path p d) = dev_type_desc d"
  by (simp_all add: bm_device_set_path_def)

lemma device_new_identified:
  "device_new params = Some d \<Longrightarrow> dev_udi d \<noteq> None \<and> dev_iface d \<noteq> None \<and> dev_initialized d"
  by (auto simp: device_new_def device_constructor_def split: if_splits)

lemma device_params_path: "dev_path (foldl device_set_property d params) = dev_path d"
  by (induction params arbitrary: d) (simp_all add: device_set_property_def Let_def)

lemma device_new_no_path: "device_new params = Some d \<Longrightarrow> dev_path d = None"
  by (auto simp: device_new_def device_constructor_def device_params_path bm_device_init_def split: if_splits)

end
