(* ===== verification/Manager.thy ===== *)
theory Manager
  imports Connection Auth_Chain Device Logging
begin

text \<open>
  The manager, \<^verbatim>\<open>src/barcode-manager/src/bm-manager.c\<close>: the list of devices and the overall state
  derived from it, the connections that the user settings service provides, and the enabling and
  disabling of networking under PolicyKit's control.  The manager and the store of its
  authorization chains form a \<open>world\<close>; everything it sends out, signals, method replies and
  D-Bus calls, is appended to \<open>mg_out\<close>.  The asynchronous replies it waits for are kept in the
  state, so that any order of their arrival can be considered (\<open>Manager_Events\<close>).
\<close>

section \<open>State\<close>

datatype bm_state =
    BM_STATE_UNKNOWN | BM_STATE_ASLEEP | BM_STATE_CONNECTING | BM_STATE_CONNECTED | BM_STATE_DISCONNECTED

fun state_num :: "bm_state \<Rightarrow> u32" where
  "state_num BM_STATE_UNKNOWN = 0"
| "state_num BM_STATE_ASLEEP = 1"
| "state_num BM_STATE_CONNECTING = 2"
| "state_num BM_STATE_CONNECTED = 3"
| "state_num BM_STATE_DISCONNECTED = 4"

datatype denial =
    Denied_Caller auth_desc | Denied_No_PolicyKit string | Denied_Request_Failed string | Denied_Not_Authorized

datatype manager_error =
    BM_MANAGER_ERROR_PERMISSION_DENIED denial
  | BM_MANAGER_ERROR_ALREADY_ENABLED_OR_DISABLED string

datatype effect =
    DEVICE_ADDED cstr | DEVICE_REMOVED cstr
  | SYSCONFIG_DEVICE_ADDED cstr | SYSCONFIG_DEVICE_REMOVED cstr
  | STATE_CHANGED bm_state | STATE_CHANGE bm_state
  | NOTIFY string
  | CONNECTIONS_ADDED u32 | CONNECTION_ADDED connection u32 | CONNECTION_UPDATED connection u32
  | CONNECTION_REMOVED connection u32
  | USER_PERMISSIONS_CHANGED
  | METHOD_RETURN nat | METHOD_ERROR nat manager_error
  | LIST_CONNECTIONS | GET_SETTINGS string
  | ASSERTION_FAILED

text \<open>The proxy of the user settings service, and whether its signals are connected.\<close>

record user_proxy =
  up_owner :: string
  up_connected :: bool

record get_settings_info =
  gi_path :: string
  gi_connection :: "connection option"
  gi_calls :: "nat option"

datatype kf_value = KF_BOOLEAN bool | KF_INT int | KF_STRING string

type_synonym key_file = "string \<times> string \<Rightarrow> kf_value option"

text \<open>The counters of batched calls and the pending \<^verbatim>\<open>GetSettings\<close> calls are heap objects; the static
  \<^verbatim>\<open>devcount\<close> is \<open>mg_devcount\<close>.  \<open>mg_disk\<close> is the content of the key files, \<open>mg_disk_writable\<close> whether
  writing one succeeds.\<close>

record manager =
  mg_devices :: "device list"
  mg_state :: bm_state
  mg_user_connections :: "(string, connection) ghash option"
  mg_user_proxy :: "user_proxy option"
  mg_user_con_perm :: nat
  mg_user_net_perm :: nat
  mg_system_connections :: "(string, connection) ghash option"
  mg_sleeping :: bool
  mg_net_enabled :: bool
  mg_state_file :: cstr
  mg_authority :: bool
  mg_auth_chains :: "nat list"
  mg_disposed :: bool
  mg_devcount :: u32
  mg_counters :: "nat \<Rightarrow> u32 option"
  mg_calls :: "nat \<Rightarrow> get_settings_info option"
  mg_next :: nat
  mg_disk :: "string \<Rightarrow> key_file"
  mg_disk_writable :: bool
  mg_out :: "effect list"

definition emit :: "effect \<Rightarrow> manager \<Rightarrow> manager" where
  "emit out m = m\<lparr>mg_out := mg_out m @ [out]\<rparr>"

text \<open>The callbacks the manager gives to its authorization chains; the number is the request.\<close>

datatype mgr_done = USER_PROXY_AUTH_DONE | ENABLE_NET_DONE nat

type_synonym world = "mgr_done auth \<times> manager"

text \<open>What the manager relies on: the numbering of GLib's types, GLib's value transformations, the
  state of a device, whether the system bus is connected, and the user behind a bus name.\<close>

record env =
  env_gt :: numbering
  env_tr :: transform
  env_gs :: "device \<Rightarrow> device_state"
  env_connected :: bool
  env_unix_user :: "string \<Rightarrow> u64 option"

text \<open>A destroyed table is \<open>None\<close>.\<close>

definition ht_lookup :: "(string, 'v) ghash option \<Rightarrow> string \<Rightarrow> 'v option" where
  "ht_lookup t k = (case t of Some t \<Rightarrow> gh_lookup t k | None \<Rightarrow> None)"

definition bm_manager_init :: manager where
  "bm_manager_init =
     \<lparr>mg_devices = [], mg_state = BM_STATE_DISCONNECTED, mg_user_connections = Some gh_new,
      mg_user_proxy = None, mg_user_con_perm = 0, mg_user_net_perm = 0, mg_system_connections = Some gh_new,
      mg_sleeping = False, mg_net_enabled = True, mg_state_file = None, mg_authority = False,
      mg_auth_chains = [], mg_disposed = False, mg_devcount = 0, mg_counters = (\<lambda>_. None),
      mg_calls = (\<lambda>_. None), mg_next = 0, mg_disk = (\<lambda>_ _. None), mg_disk_writable = True, mg_out = []\<rparr>"

section \<open>The overall state\<close>

definition manager_sleeping :: "manager \<Rightarrow> bool" where
  "manager_sleeping m = (if mg_sleeping m \<or> \<not> mg_net_enabled m then True else False)"

fun devices_state :: "(device \<Rightarrow> device_state) \<Rightarrow> device list \<Rightarrow> bm_state \<Rightarrow> bm_state" where
  "devices_state gs [] new_state = new_state"
| "devices_state gs (d # ds) new_state =
     (if gs d = BM_DEVICE_STATE_ACTIVATED then BM_STATE_CONNECTED
      else if bm_device_is_activating gs d then devices_state gs ds BM_STATE_CONNECTING
      else devices_state gs ds new_state)"

definition bm_manager_update_state :: "(device \<Rightarrow> device_state) \<Rightarrow> manager \<Rightarrow> manager" where
  "bm_manager_update_state gs m =
     (let new_state = (if manager_sleeping m then BM_STATE_ASLEEP
                       else devices_state gs (mg_devices m) BM_STATE_DISCONNECTED)
      in if mg_state m \<noteq> new_state
         then emit (STATE_CHANGE new_state) (emit (STATE_CHANGED new_state)
                (emit (NOTIFY ''state'') (m\<lparr>mg_state := new_state\<rparr>)))
         else m)"

definition do_sleep_wake :: "(device \<Rightarrow> device_state) \<Rightarrow> manager \<Rightarrow> manager" where
  "do_sleep_wake gs m = bm_manager_update_state gs m"

definition manager_device_state_changed ::
    "(device \<Rightarrow> device_state) \<Rightarrow> device_state \<Rightarrow> manager \<Rightarrow> manager" where
  "manager_device_state_changed gs new_state m =
     bm_manager_update_state gs
       (if new_state \<in> {BM_DEVICE_STATE_UNMANAGED, BM_DEVICE_STATE_UNAVAILABLE, BM_DEVICE_STATE_DISCONNECTED,
                        BM_DEVICE_STATE_PREPARE, BM_DEVICE_STATE_FAILED}
        then emit (NOTIFY ''active-connections'') m else m)"

section \<open>Devices\<close>

definition remove_one_device :: "device \<Rightarrow> manager \<Rightarrow> manager" where
  "remove_one_device d m =
     (let m1 = emit (DEVICE_REMOVED (dev_path d)) (emit (SYSCONFIG_DEVICE_REMOVED (dev_path d)) m)
      in m1\<lparr>mg_devices := remove1 d (mg_devices m1)\<rparr>)"

definition bm_manager_get_device_by_path :: "manager \<Rightarrow> string \<Rightarrow> device option" where
  "bm_manager_get_device_by_path m path = find (\<lambda>d. bm_device_get_path d = Some path) (mg_devices m)"

definition find_device_by_iface :: "manager \<Rightarrow> string \<Rightarrow> device option" where
  "find_device_by_iface m iface = find (\<lambda>d. bm_device_get_iface d = Some iface) (mg_devices m)"

definition impl_manager_get_devices :: "manager \<Rightarrow> cstr list" where
  "impl_manager_get_devices m = map bm_device_get_path (mg_devices m)"

definition device_object_path :: "u32 \<Rightarrow> string" where
  "device_object_path n = ''/org/freedesktop/BarcodeManager/Devices/'' @ print_int (sint n)"

text \<open>The device that is appended is the object whose path is set afterwards; a device without a
  type description is an assertion failure.\<close>

definition add_device :: "device \<Rightarrow> manager \<Rightarrow> manager" where
  "add_device d m =
     (if bm_device_get_type_desc d = None
      then emit ASSERTION_FAILED (m\<lparr>mg_devices := mg_devices m @ [d]\<rparr>)
      else
        (let path = device_object_path (mg_devcount m);
             d' = bm_device_set_path path d;
             m1 = m\<lparr>mg_devices := mg_devices m @ [d'], mg_devcount := mg_devcount m + 1\<rparr>
         in emit (DEVICE_ADDED (dev_path d')) (emit (SYSCONFIG_DEVICE_ADDED (dev_path d')) m1)))"

text \<open>\<open>creator\<close> is the creator function the udev manager found, applied to the sleeping flag.\<close>

definition udev_device_added_cb :: "(bool \<Rightarrow> device option) \<Rightarrow> manager \<Rightarrow> manager" where
  "udev_device_added_cb creator m =
     (case creator (manager_sleeping m) of Some d \<Rightarrow> add_device d m | None \<Rightarrow> m)"

definition udev_device_removed_cb :: "string \<Rightarrow> manager \<Rightarrow> manager" where
  "udev_device_removed_cb name m =
     (case find_device_by_iface m name of Some d \<Rightarrow> remove_one_device d m | None \<Rightarrow> m)"

section \<open>User connections\<close>

definition emit_removed :: "string \<Rightarrow> connection \<Rightarrow> manager \<Rightarrow> manager" where
  "emit_removed key c m = emit (CONNECTION_REMOVED c (bm_connection_get_scope c)) m"

definition user_proxy_cleanup :: "manager \<Rightarrow> manager" where
  "user_proxy_cleanup m =
     (let m1 = (case mg_user_connections m of
                  Some t \<Rightarrow> (gh_foreach emit_removed t m)\<lparr>mg_user_connections := Some gh_new\<rparr>
                | None \<Rightarrow> m)
      in m1\<lparr>mg_user_proxy := None\<rparr>)"

definition free_get_settings_info :: "get_settings_info \<Rightarrow> manager \<Rightarrow> manager" where
  "free_get_settings_info info m =
     (case gi_calls info of
        None \<Rightarrow> m
      | Some n \<Rightarrow>
          (case mg_counters m n of
             None \<Rightarrow> m
           | Some v \<Rightarrow>
               if v - 1 = 0
               then emit (CONNECTIONS_ADDED BM_CONNECTION_SCOPE_USER) (m\<lparr>mg_counters := (mg_counters m)(n := None)\<rparr>)
               else m\<lparr>mg_counters := (mg_counters m)(n \<mapsto> v - 1)\<rparr>))"

text \<open>\<open>None\<close> is an error reply.\<close>

definition user_connection_get_settings_cb ::
    "env \<Rightarrow> (string, (string, gvalue) ghash) ghash option \<Rightarrow> get_settings_info \<Rightarrow> manager \<Rightarrow> manager" where
  "user_connection_get_settings_cb E reply info m =
     (case reply of
        None \<Rightarrow> m
      | Some settings \<Rightarrow>
          (case gi_connection info of
             Some _ \<Rightarrow> m
           | None \<Rightarrow>
               (case bm_connection_new_from_hash (env_tr E) settings of
                  Inl e \<Rightarrow> m
                | Inr c0 \<Rightarrow>
                    (let path = gi_path info;
                         c = bm_connection_set_scope BM_CONNECTION_SCOPE_USER (bm_connection_set_path (Some path) c0);
                         existing = ht_lookup (mg_user_connections m) path;
                         store = (existing = None \<or> \<not> bm_connection_compare (env_gt E) existing (Some c) FLAG_EXACT);
                         m1 = (if store then m\<lparr>mg_user_connections := map_option (gh_insert path c) (mg_user_connections m)\<rparr>
                               else m);
                         existing' = (if store then None else existing)
                     in if gi_calls info = None \<and> existing' = None
                        then emit (CONNECTION_ADDED c BM_CONNECTION_SCOPE_USER) m1 else m1))))"

definition remove_user_connection :: "connection \<Rightarrow> manager \<Rightarrow> manager" where
  "remove_user_connection c m =
     emit (CONNECTION_REMOVED c (bm_connection_get_scope c))
       (case bm_connection_get_path c of
          Some path \<Rightarrow> m\<lparr>mg_user_connections := map_option (gh_remove path) (mg_user_connections m)\<rparr>
        | None \<Rightarrow> m)"

definition user_connection_removed_cb :: "string \<Rightarrow> manager \<Rightarrow> manager" where
  "user_connection_removed_cb path m =
     (case ht_lookup (mg_user_connections m) path of
        Some c \<Rightarrow> remove_user_connection c m | None \<Rightarrow> m)"

text \<open>The old connection is changed in place, in the table.\<close>

definition user_connection_updated_cb ::
    "env \<Rightarrow> string \<Rightarrow> (string, (string, gvalue) ghash) ghash \<Rightarrow> manager \<Rightarrow> manager" where
  "user_connection_updated_cb E path settings m =
     (case ht_lookup (mg_user_connections m) path of
        None \<Rightarrow> m
      | Some old \<Rightarrow>
          (case bm_connection_new_from_hash (env_tr E) settings of
             Inl e \<Rightarrow> remove_user_connection old m
           | Inr _ \<Rightarrow>
               (case bm_connection_replace_settings (env_tr E) settings old of
                  (old', r) \<Rightarrow>
                    (let m1 = m\<lparr>mg_user_connections := map_option (gh_insert path old') (mg_user_connections m)\<rparr>
                     in if r = Inr ()
                        then emit (CONNECTION_UPDATED old' (bm_connection_get_scope old')) m1
                        else remove_user_connection old' m1))))"

definition user_internal_new_connection_cb :: "string \<Rightarrow> nat option \<Rightarrow> manager \<Rightarrow> manager" where
  "user_internal_new_connection_cb path counter m =
     (let info = \<lparr>gi_path = path, gi_connection = None, gi_calls = counter\<rparr>;
          m1 = (case counter of
                  Some n \<Rightarrow> m\<lparr>mg_counters := (mg_counters m)(n := map_option (\<lambda>v. v + 1) (mg_counters m n))\<rparr>
                | None \<Rightarrow> m)
      in emit (GET_SETTINGS path)
           (m1\<lparr>mg_calls := (mg_calls m1)(mg_next m1 \<mapsto> info), mg_next := Suc (mg_next m1)\<rparr>))"

definition user_list_connections_cb :: "string list option \<Rightarrow> manager \<Rightarrow> manager" where
  "user_list_connections_cb reply m =
     (case reply of
        None \<Rightarrow> m
      | Some ops \<Rightarrow>
          (let counter = mg_next m;
               m1 = m\<lparr>mg_counters := (mg_counters m)(counter \<mapsto> 0), mg_next := Suc counter\<rparr>
           in foldl (\<lambda>m op. user_internal_new_connection_cb op (Some counter) m) m1 ops))"

definition user_proxy_destroyed_cb :: "manager \<Rightarrow> manager" where
  "user_proxy_destroyed_cb m = user_proxy_cleanup (m\<lparr>mg_user_proxy := None\<rparr>)"

definition user_new_connection_cb :: "string \<Rightarrow> manager \<Rightarrow> manager" where
  "user_new_connection_cb path m = user_internal_new_connection_cb path None m"

definition PERMISSION_ENABLE_DISABLE_NETWORK :: string where
  "PERMISSION_ENABLE_DISABLE_NETWORK = ''org.freedesktop.NetworkManager.enable-disable-network''"
definition PERMISSION_USE_USER_CONNECTIONS :: string where
  "PERMISSION_USE_USER_CONNECTIONS = ''org.freedesktop.NetworkManager.use-user-connections''"
definition PERMISSION_NETWORK_CONTROL :: string where
  "PERMISSION_NETWORK_CONTROL = ''org.freedesktop.NetworkManager.network-control''"

definition user_settings_authorized :: "nat \<Rightarrow> mgr_done auth \<Rightarrow> manager \<Rightarrow> bool \<times> manager" where
  "user_settings_authorized chain au m =
     (let net = bm_auth_chain_get_data chain PERMISSION_NETWORK_CONTROL au;
          con = bm_auth_chain_get_data chain PERMISSION_USE_USER_CONNECTIONS au;
          m1 = m\<lparr>mg_user_net_perm := net, mg_user_con_perm := con\<rparr>;
          m2 = (if mg_user_net_perm m \<noteq> net \<or> mg_user_con_perm m \<noteq> con then emit USER_PERMISSIONS_CHANGED m1 else m1)
      in (if net = result_num BM_AUTH_CALL_RESULT_UNKNOWN \<or> net = result_num BM_AUTH_CALL_RESULT_NO then False
          else if con = result_num BM_AUTH_CALL_RESULT_UNKNOWN \<or> con = result_num BM_AUTH_CALL_RESULT_NO then False
          else True, m2))"

text \<open>With a proxy that is gone by then, dbus-glib refuses the calls.\<close>

definition user_proxy_auth_done :: "nat \<Rightarrow> string option \<Rightarrow> world \<Rightarrow> world" where
  "user_proxy_auth_done chain error w =
     (let au = fst w;
          m = (snd w)\<lparr>mg_auth_chains := remove1 chain (mg_auth_chains (snd w))\<rparr>;
          (authorized, m1) = (if error \<noteq> None then (False, m) else user_settings_authorized chain au m);
          m2 = (if authorized
                then (case mg_user_proxy m1 of
                        Some p \<Rightarrow> emit LIST_CONNECTIONS (m1\<lparr>mg_user_proxy := Some (p\<lparr>up_connected := True\<rparr>)\<rparr>)
                      | None \<Rightarrow> m1)
                else user_proxy_cleanup m1)
      in (bm_auth_chain_unref chain au, m2))"

text \<open>Whether the service has an owner, and the owner of the proxy that can be made for it.\<close>

definition user_proxy_init :: "bool \<Rightarrow> cstr \<Rightarrow> world \<Rightarrow> world" where
  "user_proxy_init has_owner proxy w =
     (if mg_user_proxy (snd w) \<noteq> None then w
      else if \<not> has_owner then w
      else (case proxy of
              None \<Rightarrow> w
            | Some owner \<Rightarrow>
                (let m = (snd w)\<lparr>mg_user_proxy := Some \<lparr>up_owner = owner, up_connected = False\<rparr>\<rparr>
                 in case bm_auth_chain_new (Some owner) USER_PROXY_AUTH_DONE (fst w) of
                      (Some chain, au) \<Rightarrow>
                        (bm_auth_chain_add_call chain PERMISSION_NETWORK_CONTROL False
                           (bm_auth_chain_add_call chain PERMISSION_USE_USER_CONNECTIONS False au),
                         m\<lparr>mg_auth_chains := chain # mg_auth_chains m\<rparr>)
                    | (None, au) \<Rightarrow> (au, m))))"

definition BM_DBUS_SERVICE_USER_SETTINGS :: string where
  "BM_DBUS_SERVICE_USER_SETTINGS = ''org.freedesktop.BarcodeManagerUserSettings''"

definition bm_manager_name_owner_changed ::
    "string \<Rightarrow> cstr \<Rightarrow> cstr \<Rightarrow> bool \<Rightarrow> cstr \<Rightarrow> world \<Rightarrow> world" where
  "bm_manager_name_owner_changed name old new has_owner proxy w =
     (let old_owner_good = given old; new_owner_good = given new
      in if name = BM_DBUS_SERVICE_USER_SETTINGS
         then (if \<not> old_owner_good \<and> new_owner_good then user_proxy_init has_owner proxy w
               else apsnd user_proxy_cleanup w)
         else w)"

section \<open>System connections\<close>

definition system_connection_removed_cb :: "connection \<Rightarrow> manager \<Rightarrow> manager" where
  "system_connection_removed_cb c m =
     (case bm_connection_get_path c of
        None \<Rightarrow> m
      | Some path \<Rightarrow>
          (case ht_lookup (mg_system_connections m) path of
             None \<Rightarrow> m
           | Some c' \<Rightarrow>
               emit (CONNECTION_REMOVED c' (bm_connection_get_scope c'))
                 (case bm_connection_get_path c' of
                    Some path' \<Rightarrow>
                      m\<lparr>mg_system_connections := map_option (gh_remove path') (mg_system_connections m)\<rparr>
                  | None \<Rightarrow> m)))"

definition manager_dispose :: "manager \<Rightarrow> manager" where
  "manager_dispose m =
     (if mg_disposed m then m
      else
        (let m1 = (user_proxy_cleanup (m\<lparr>mg_disposed := True\<rparr>))\<lparr>mg_user_connections := None\<rparr>;
             m2 = (case mg_system_connections m1 of
                     Some t \<Rightarrow> gh_foreach emit_removed t m1 | None \<Rightarrow> m1)
         in m2\<lparr>mg_system_connections := None\<rparr>))"

section \<open>Enabling and disabling\<close>

text \<open>The file is read, changed at one key and written back.\<close>

definition write_value_to_state_file :: "string \<Rightarrow> string \<Rightarrow> string \<Rightarrow> kf_value \<Rightarrow> manager \<Rightarrow> bool \<times> manager" where
  "write_value_to_state_file filename grp key v m =
     (if mg_disk_writable m
      then (True, m\<lparr>mg_disk := (mg_disk m)(filename := (mg_disk m filename)((grp, key) \<mapsto> v))\<rparr>)
      else (False, m))"

definition internal_enable :: "(device \<Rightarrow> device_state) \<Rightarrow> bool \<Rightarrow> manager \<Rightarrow> manager" where
  "internal_enable gs enable m =
     (let m1 = (case mg_state_file m of
                  Some f \<Rightarrow> snd (write_value_to_state_file f ''main'' ''NetworkingEnabled'' (KF_BOOLEAN enable) m)
                | None \<Rightarrow> m)
      in emit (NOTIFY ''networking-enabled'') (do_sleep_wake gs (m1\<lparr>mg_net_enabled := enable\<rparr>)))"

definition enable_net_done_cb ::
    "(device \<Rightarrow> device_state) \<Rightarrow> nat \<Rightarrow> nat \<Rightarrow> string option \<Rightarrow> world \<Rightarrow> world" where
  "enable_net_done_cb gs context chain error w =
     (let au = fst w;
          m = (snd w)\<lparr>mg_auth_chains := remove1 chain (mg_auth_chains (snd w))\<rparr>;
          result = bm_auth_chain_get_data chain PERMISSION_ENABLE_DISABLE_NETWORK au;
          m1 = (case error of
                  Some e \<Rightarrow> emit (METHOD_ERROR context (BM_MANAGER_ERROR_PERMISSION_DENIED (Denied_Request_Failed e))) m
                | None \<Rightarrow>
                    if result \<noteq> result_num BM_AUTH_CALL_RESULT_YES
                    then emit (METHOD_ERROR context (BM_MANAGER_ERROR_PERMISSION_DENIED Denied_Not_Authorized)) m
                    else emit (METHOD_RETURN context)
                           (internal_enable gs (bm_auth_chain_get_data chain ''enable'' au \<noteq> 0) m))
      in (bm_auth_chain_unref chain au, m1))"

definition manager_done :: "(device \<Rightarrow> device_state) \<Rightarrow> (mgr_done, manager) done_funcs" where
  "manager_done gs f chain error w =
     (case f of
        USER_PROXY_AUTH_DONE \<Rightarrow> user_proxy_auth_done chain error w
      | ENABLE_NET_DONE context \<Rightarrow> enable_net_done_cb gs context chain error w)"

definition return_no_pk_error :: "string \<Rightarrow> nat \<Rightarrow> manager \<Rightarrow> bool \<times> manager" where
  "return_no_pk_error detail context m =
     (if \<not> mg_authority m
      then (False, emit (METHOD_ERROR context (BM_MANAGER_ERROR_PERMISSION_DENIED (Denied_No_PolicyKit detail))) m)
      else (True, m))"

definition impl_manager_enable :: "env \<Rightarrow> bool \<Rightarrow> nat \<Rightarrow> cstr \<Rightarrow> world \<Rightarrow> world" where
  "impl_manager_enable E enable context sender w =
     (let au = fst w; m = snd w
      in if mg_net_enabled m = enable
         then (au, emit (METHOD_ERROR context (BM_MANAGER_ERROR_ALREADY_ENABLED_OR_DISABLED
                     (if enable then ''enabled'' else ''disabled''))) m)
         else (case bm_auth_get_caller_uid sender (env_connected E) (env_unix_user E) of
                 Inl desc \<Rightarrow>
                   (au, emit (METHOD_ERROR context (BM_MANAGER_ERROR_PERMISSION_DENIED (Denied_Caller desc))) m)
               | Inr uid \<Rightarrow>
                   if uid = 0 then (au, emit (METHOD_RETURN context) (internal_enable (env_gs E) enable m))
                   else (case return_no_pk_error ''Enable/disable'' context m of
                           (False, m1) \<Rightarrow> (au, m1)
                         | (True, m1) \<Rightarrow>
                             (case bm_auth_chain_new sender (ENABLE_NET_DONE context) au of
                                (None, au1) \<Rightarrow> (au1, emit ASSERTION_FAILED m1)
                              | (Some chain, au1) \<Rightarrow>
                                  (bm_auth_chain_add_call chain PERMISSION_ENABLE_DISABLE_NETWORK True
                                     (bm_auth_chain_set_data chain ''enable'' (if enable then 1 else 0) au1),
                                   m1\<lparr>mg_auth_chains := mg_auth_chains m1 @ [chain]\<rparr>)))))"

section \<open>Properties, logging and start\<close>

definition manager_set_property :: "string \<Rightarrow> gvalue \<Rightarrow> manager \<Rightarrow> manager" where
  "manager_set_property n v m =
     (if n = ''networking-enabled'' then m\<lparr>mg_net_enabled := value_boolean v\<rparr> else m)"

definition manager_get_property :: "string \<Rightarrow> string \<Rightarrow> manager \<Rightarrow> gvalue option" where
  "manager_get_property version n m =
     (if n = ''version'' then Some (GString (Some version))
      else if n = ''state'' then Some (GUInt (state_num (mg_state m)))
      else if n = ''networking-enabled'' then Some (GBoolean (mg_net_enabled m))
      else if n = ''sleeping'' then Some (GBoolean (mg_sleeping m))
      else None)"

text \<open>A message on the bus, as far as the property filter looks at it.\<close>

datatype dbus_arg = A_String string | A_Variant_Boolean bool | A_Variant_Other | A_Other

record dbus_message =
  msg_is_set :: bool
  msg_args :: "dbus_arg list"
  msg_sender :: cstr

datatype filter_reply = Not_Yet_Handled | Replied | Replied_Permission_Denied string

text \<open>\<^verbatim>\<open>glib_propname\<close> is \<^verbatim>\<open>NULL\<close> when \<^verbatim>\<open>g_object_set\<close> is called, which ends its property list at once.\<close>

definition prop_filter :: "env \<Rightarrow> dbus_message \<Rightarrow> manager \<Rightarrow> filter_reply \<times> manager" where
  "prop_filter E msg m =
     (if \<not> msg_is_set msg then (Not_Yet_Handled, m)
      else (case msg_args msg of
              A_String propiface # A_String propname # A_Variant_Boolean set_enabled # _ \<Rightarrow>
                if propiface \<noteq> ''org.freedesktop.BarcodeManager'' then (Not_Yet_Handled, m)
                else (case msg_sender msg of
                        None \<Rightarrow> (Replied_Permission_Denied ''Could not determine D-Bus requestor'', m)
                      | Some sender \<Rightarrow>
                          (case env_unix_user E sender of
                             None \<Rightarrow>
                               (Replied_Permission_Denied ''Could not determine the user ID of the requestor'', m)
                           | Some uid \<Rightarrow> (Replied, m)))
            | _ \<Rightarrow> (Not_Yet_Handled, m)))"

definition impl_manager_set_logging :: "string \<Rightarrow> string \<Rightarrow> logging \<Rightarrow> (logging_error + unit) \<times> logging" where
  "impl_manager_set_logging level domains st = bm_logging_setup (Some level) (Some domains) st"

text \<open>\<open>devices\<close> are the devices that udev already knows, as creator functions.\<close>

definition bm_manager_start :: "bool \<Rightarrow> cstr \<Rightarrow> (bool \<Rightarrow> device option) list \<Rightarrow> world \<Rightarrow> world" where
  "bm_manager_start has_owner proxy devices w =
     apsnd (\<lambda>m. foldl (\<lambda>m creator. udev_device_added_cb creator m) m devices) (user_proxy_init has_owner proxy w)"

section \<open>Bluetooth connections\<close>

definition hex_digit :: "nat \<Rightarrow> char" where
  "hex_digit n = (if n < 10 then char_of (48 + n) else char_of (55 + n))"

text \<open>\<^verbatim>\<open>%02X\<close>.\<close>

definition hex_byte :: "u8 \<Rightarrow> string" where
  "hex_byte b = [hex_digit (unat b div 16), hex_digit (unat b mod 16)]"

definition bdaddr_matches_connection :: "bluetooth_priv \<Rightarrow> string \<Rightarrow> bool" where
  "bdaddr_matches_connection s_bt bdaddr =
     (case bm_setting_bluetooth_get_bdaddr s_bt of
        None \<Rightarrow> False
      | Some arr \<Rightarrow> if length arr = 6 then join_with '':'' (map hex_byte arr) = bdaddr else False)"

definition BM_BT_CAPABILITY_DUN :: u32 where "BM_BT_CAPABILITY_DUN = 1"
definition BM_BT_CAPABILITY_NAP :: u32 where "BM_BT_CAPABILITY_NAP = 2"

text \<open>\<open>connections\<close> is what \<^verbatim>\<open>bm_manager_get_connections\<close>, declared but defined nowhere, would return:
  the system connections, then the user connections.\<close>

fun bluez_manager_find_connection :: "connection list \<Rightarrow> string \<Rightarrow> u32 \<Rightarrow> connection option checked" where
  "bluez_manager_find_connection [] bdaddr capabilities = Returned None"
| "bluez_manager_find_connection (candidate # l) bdaddr capabilities =
     (case map_option set_priv (bm_connection_get_setting candidate BM_TYPE_SETTING_CONNECTION) of
        Some (Connection_Priv s_con) \<Rightarrow>
          (case con_type s_con of
             None \<Rightarrow> Assertion_Violated
           | Some con_type' \<Rightarrow>
               if con_type' \<noteq> ''bluetooth'' then bluez_manager_find_connection l bdaddr capabilities
               else (case map_option set_priv (bm_connection_get_setting candidate BM_TYPE_SETTING_BLUETOOTH) of
                       Some (Bluetooth_Priv s_bt) \<Rightarrow>
                         if \<not> bdaddr_matches_connection s_bt bdaddr
                         then bluez_manager_find_connection l bdaddr capabilities
                         else (case bm_setting_bluetooth_get_connection_type s_bt of
                                 None \<Rightarrow> Null_Dereferenced
                               | Some bt_type' \<Rightarrow>
                                   if bt_type' = ''dun'' \<and> capabilities AND BM_BT_CAPABILITY_DUN = 0
                                   then bluez_manager_find_connection l bdaddr capabilities
                                   else if bt_type' = ''panu'' \<and> capabilities AND BM_BT_CAPABILITY_NAP = 0
                                   then bluez_manager_find_connection l bdaddr capabilities
                                   else Returned (Some candidate))
                     | _ \<Rightarrow> bluez_manager_find_connection l bdaddr capabilities))
      | _ \<Rightarrow> Assertion_Violated)"

section \<open>The callbacks keep the contract of authorization chains\<close>

lemma manager_done_fst: "fst (manager_done gs f c e w) = bm_auth_chain_unref c (fst w)"
  by (cases f) (simp_all add: manager_done_def user_proxy_auth_done_def enable_net_done_cb_def Let_def split: prod.split)

interpretation mgr: auth_client "manager_done gs" for gs
  by unfold_locales (simp add: manager_done_fst)

section \<open>What the operations leave alone\<close>

lemma emit_simps [simp]:
  "mg_devices (emit x m) = mg_devices m" "mg_state (emit x m) = mg_state m"
  "mg_user_connections (emit x m) = mg_user_connections m" "mg_user_proxy (emit x m) = mg_user_proxy m"
  "mg_sleeping (emit x m) = mg_sleeping m" "mg_net_enabled (emit x m) = mg_net_enabled m"
  "mg_authority (emit x m) = mg_authority m" "mg_devcount (emit x m) = mg_devcount m"
  "mg_counters (emit x m) = mg_counters m" "mg_calls (emit x m) = mg_calls m" "mg_next (emit x m) = mg_next m"
  "mg_out (emit x m) = mg_out m @ [x]" "mg_state_file (emit x m) = mg_state_file m" "mg_disk (emit x m) = mg_disk m"
  "mg_disk_writable (emit x m) = mg_disk_writable m" "mg_auth_chains (emit x m) = mg_auth_chains m"
  by (simp_all add: emit_def)

lemma manager_sleeping_emit [simp]: "manager_sleeping (emit x m) = manager_sleeping m"
  by (simp add: manager_sleeping_def)

lemma update_state_fields [simp]:
  "mg_devices (bm_manager_update_state gs m) = mg_devices m"
  "mg_user_connections (bm_manager_update_state gs m) = mg_user_connections m"
  "mg_user_proxy (bm_manager_update_state gs m) = mg_user_proxy m"
  "mg_sleeping (bm_manager_update_state gs m) = mg_sleeping m"
  "mg_net_enabled (bm_manager_update_state gs m) = mg_net_enabled m"
  "mg_authority (bm_manager_update_state gs m) = mg_authority m"
  "mg_devcount (bm_manager_update_state gs m) = mg_devcount m"
  "mg_counters (bm_manager_update_state gs m) = mg_counters m"
  "mg_calls (bm_manager_update_state gs m) = mg_calls m"
  "mg_next (bm_manager_update_state gs m) = mg_next m"
  by (simp_all add: bm_manager_update_state_def Let_def)

lemma internal_enable_fields [simp]:
  "mg_devices (internal_enable gs b m) = mg_devices m"
  "mg_user_connections (internal_enable gs b m) = mg_user_connections m"
  "mg_user_proxy (internal_enable gs b m) = mg_user_proxy m"
  "mg_net_enabled (internal_enable gs b m) = b"
  "mg_authority (internal_enable gs b m) = mg_authority m"
  "mg_devcount (internal_enable gs b m) = mg_devcount m"
  "mg_counters (internal_enable gs b m) = mg_counters m"
  "mg_calls (internal_enable gs b m) = mg_calls m"
  "mg_next (internal_enable gs b m) = mg_next m"
  by (simp_all add: internal_enable_def do_sleep_wake_def write_value_to_state_file_def Let_def split: option.split)

lemma foreach_emit_removed:
  "gh_foreach emit_removed t m =
     m\<lparr>mg_out := mg_out m @ map (\<lambda>(k, c). CONNECTION_REMOVED c (bm_connection_get_scope c)) t\<rparr>"
  by (induction t arbitrary: m) (auto simp: emit_removed_def emit_def)

lemma cleanup_fields [simp]:
  "mg_devices (user_proxy_cleanup m) = mg_devices m"
  "mg_user_connections (user_proxy_cleanup m) = map_option (\<lambda>_. gh_new) (mg_user_connections m)"
  "mg_user_proxy (user_proxy_cleanup m) = None"
  "mg_net_enabled (user_proxy_cleanup m) = mg_net_enabled m"
  "mg_authority (user_proxy_cleanup m) = mg_authority m"
  "mg_devcount (user_proxy_cleanup m) = mg_devcount m"
  "mg_counters (user_proxy_cleanup m) = mg_counters m"
  "mg_calls (user_proxy_cleanup m) = mg_calls m"
  "mg_next (user_proxy_cleanup m) = mg_next m"
  by (simp_all add: user_proxy_cleanup_def foreach_emit_removed Let_def split: option.split)

lemma free_info_fields [simp]:
  "mg_devices (free_get_settings_info i m) = mg_devices m"
  "mg_user_connections (free_get_settings_info i m) = mg_user_connections m"
  "mg_user_proxy (free_get_settings_info i m) = mg_user_proxy m"
  "mg_net_enabled (free_get_settings_info i m) = mg_net_enabled m"
  "mg_authority (free_get_settings_info i m) = mg_authority m"
  "mg_devcount (free_get_settings_info i m) = mg_devcount m"
  "mg_calls (free_get_settings_info i m) = mg_calls m"
  "mg_next (free_get_settings_info i m) = mg_next m"
  by (simp_all add: free_get_settings_info_def split: option.split)

lemma get_settings_cb_fields [simp]:
  "mg_devices (user_connection_get_settings_cb E r i m) = mg_devices m"
  "mg_user_proxy (user_connection_get_settings_cb E r i m) = mg_user_proxy m"
  "mg_net_enabled (user_connection_get_settings_cb E r i m) = mg_net_enabled m"
  "mg_authority (user_connection_get_settings_cb E r i m) = mg_authority m"
  "mg_devcount (user_connection_get_settings_cb E r i m) = mg_devcount m"
  "mg_counters (user_connection_get_settings_cb E r i m) = mg_counters m"
  "mg_calls (user_connection_get_settings_cb E r i m) = mg_calls m"
  "mg_next (user_connection_get_settings_cb E r i m) = mg_next m"
  by (simp_all add: user_connection_get_settings_cb_def Let_def split: option.split sum.split)

lemma remove_user_fields [simp]:
  "mg_devices (remove_user_connection c m) = mg_devices m"
  "mg_user_proxy (remove_user_connection c m) = mg_user_proxy m"
  "mg_net_enabled (remove_user_connection c m) = mg_net_enabled m"
  "mg_authority (remove_user_connection c m) = mg_authority m"
  "mg_devcount (remove_user_connection c m) = mg_devcount m"
  "mg_counters (remove_user_connection c m) = mg_counters m"
  "mg_calls (remove_user_connection c m) = mg_calls m"
  "mg_next (remove_user_connection c m) = mg_next m"
  by (simp_all add: remove_user_connection_def split: option.split)

lemma updated_cb_fields [simp]:
  "mg_devices (user_connection_updated_cb E p h m) = mg_devices m"
  "mg_user_proxy (user_connection_updated_cb E p h m) = mg_user_proxy m"
  "mg_net_enabled (user_connection_updated_cb E p h m) = mg_net_enabled m"
  "mg_authority (user_connection_updated_cb E p h m) = mg_authority m"
  "mg_devcount (user_connection_updated_cb E p h m) = mg_devcount m"
  "mg_counters (user_connection_updated_cb E p h m) = mg_counters m"
  "mg_calls (user_connection_updated_cb E p h m) = mg_calls m"
  "mg_next (user_connection_updated_cb E p h m) = mg_next m"
  by (simp_all add: user_connection_updated_cb_def Let_def split: option.split sum.split prod.split)

lemma removed_cb_fields [simp]:
  "mg_devices (user_connection_removed_cb p m) = mg_devices m"
  "mg_user_proxy (user_connection_removed_cb p m) = mg_user_proxy m"
  "mg_net_enabled (user_connection_removed_cb p m) = mg_net_enabled m"
  "mg_authority (user_connection_removed_cb p m) = mg_authority m"
  "mg_devcount (user_connection_removed_cb p m) = mg_devcount m"
  "mg_counters (user_connection_removed_cb p m) = mg_counters m"
  "mg_calls (user_connection_removed_cb p m) = mg_calls m"
  "mg_next (user_connection_removed_cb p m) = mg_next m"
  by (simp_all add: user_connection_removed_cb_def split: option.split)

lemma new_connection_fields [simp]:
  "mg_devices (user_internal_new_connection_cb p n m) = mg_devices m"
  "mg_user_connections (user_internal_new_connection_cb p n m) = mg_user_connections m"
  "mg_user_proxy (user_internal_new_connection_cb p n m) = mg_user_proxy m"
  "mg_net_enabled (user_internal_new_connection_cb p n m) = mg_net_enabled m"
  "mg_authority (user_internal_new_connection_cb p n m) = mg_authority m"
  "mg_devcount (user_internal_new_connection_cb p n m) = mg_devcount m"
  "mg_out (user_internal_new_connection_cb p n m) = mg_out m @ [GET_SETTINGS p]"
  "mg_next (user_internal_new_connection_cb p n m) = Suc (mg_next m)"
  "mg_calls (user_internal_new_connection_cb p n m) =
     (mg_calls m)(mg_next m \<mapsto> \<lparr>gi_path = p, gi_connection = None, gi_calls = n\<rparr>)"
  by (simp_all add: user_internal_new_connection_cb_def Let_def split: option.split)

lemma list_cb_fields [simp]:
  "mg_devices (user_list_connections_cb r m) = mg_devices m"
  "mg_user_connections (user_list_connections_cb r m) = mg_user_connections m"
  "mg_user_proxy (user_list_connections_cb r m) = mg_user_proxy m"
  "mg_net_enabled (user_list_connections_cb r m) = mg_net_enabled m"
  "mg_authority (user_list_connections_cb r m) = mg_authority m"
  "mg_devcount (user_list_connections_cb r m) = mg_devcount m"
proof -
  have "mg_devices (foldl (\<lambda>m op. user_internal_new_connection_cb op n m) x ops) = mg_devices x \<and>
      mg_user_connections (foldl (\<lambda>m op. user_internal_new_connection_cb op n m) x ops) = mg_user_connections x \<and>
      mg_user_proxy (foldl (\<lambda>m op. user_internal_new_connection_cb op n m) x ops) = mg_user_proxy x \<and>
      mg_net_enabled (foldl (\<lambda>m op. user_internal_new_connection_cb op n m) x ops) = mg_net_enabled x \<and>
      mg_authority (foldl (\<lambda>m op. user_internal_new_connection_cb op n m) x ops) = mg_authority x \<and>
      mg_devcount (foldl (\<lambda>m op. user_internal_new_connection_cb op n m) x ops) = mg_devcount x" for n x ops
    by (induction ops arbitrary: x) simp_all
  then show
    "mg_devices (user_list_connections_cb r m) = mg_devices m"
    "mg_user_connections (user_list_connections_cb r m) = mg_user_connections m"
    "mg_user_proxy (user_list_connections_cb r m) = mg_user_proxy m"
    "mg_net_enabled (user_list_connections_cb r m) = mg_net_enabled m"
    "mg_authority (user_list_connections_cb r m) = mg_authority m"
    "mg_devcount (user_list_connections_cb r m) = mg_devcount m"
    by (simp_all add: user_list_connections_cb_def Let_def split: option.split)
qed

lemma add_device_fields [simp]:
  "mg_user_connections (add_device d m) = mg_user_connections m"
  "mg_user_proxy (add_device d m) = mg_user_proxy m"
  "mg_net_enabled (add_device d m) = mg_net_enabled m"
  "mg_authority (add_device d m) = mg_authority m"
  "mg_counters (add_device d m) = mg_counters m"
  "mg_calls (add_device d m) = mg_calls m"
  "mg_next (add_device d m) = mg_next m"
  "mg_sleeping (add_device d m) = mg_sleeping m"
  by (simp_all add: add_device_def Let_def)

lemma udev_added_fields [simp]:
  "mg_user_connections (udev_device_added_cb creator m) = mg_user_connections m"
  "mg_user_proxy (udev_device_added_cb creator m) = mg_user_proxy m"
  "mg_net_enabled (udev_device_added_cb creator m) = mg_net_enabled m"
  "mg_authority (udev_device_added_cb creator m) = mg_authority m"
  "mg_counters (udev_device_added_cb creator m) = mg_counters m"
  "mg_calls (udev_device_added_cb creator m) = mg_calls m"
  "mg_next (udev_device_added_cb creator m) = mg_next m"
  "mg_sleeping (udev_device_added_cb creator m) = mg_sleeping m"
  by (simp_all add: udev_device_added_cb_def split: option.split)

lemma udev_removed_fields [simp]:
  "mg_user_connections (udev_device_removed_cb n m) = mg_user_connections m"
  "mg_user_proxy (udev_device_removed_cb n m) = mg_user_proxy m"
  "mg_net_enabled (udev_device_removed_cb n m) = mg_net_enabled m"
  "mg_authority (udev_device_removed_cb n m) = mg_authority m"
  "mg_counters (udev_device_removed_cb n m) = mg_counters m"
  "mg_calls (udev_device_removed_cb n m) = mg_calls m"
  "mg_next (udev_device_removed_cb n m) = mg_next m"
  "mg_sleeping (udev_device_removed_cb n m) = mg_sleeping m"
  by (simp_all add: udev_device_removed_cb_def remove_one_device_def Let_def split: option.split)

lemma device_state_fields [simp]:
  "mg_user_connections (manager_device_state_changed gs s m) = mg_user_connections m"
  "mg_user_proxy (manager_device_state_changed gs s m) = mg_user_proxy m"
  "mg_net_enabled (manager_device_state_changed gs s m) = mg_net_enabled m"
  "mg_authority (manager_device_state_changed gs s m) = mg_authority m"
  "mg_counters (manager_device_state_changed gs s m) = mg_counters m"
  "mg_calls (manager_device_state_changed gs s m) = mg_calls m"
  "mg_next (manager_device_state_changed gs s m) = mg_next m"
  "mg_sleeping (manager_device_state_changed gs s m) = mg_sleeping m"
  "mg_devices (manager_device_state_changed gs s m) = mg_devices m"
  "mg_devcount (manager_device_state_changed gs s m) = mg_devcount m"
  by (simp_all add: manager_device_state_changed_def)

lemma prop_filter_snd [simp]: "snd (prop_filter E msg m) = m"
  by (simp add: prop_filter_def split: list.split dbus_arg.split option.split)

lemma destroyed_fields [simp]:
  "mg_devices (user_proxy_destroyed_cb m) = mg_devices m"
  "mg_user_connections (user_proxy_destroyed_cb m) = map_option (\<lambda>_. gh_new) (mg_user_connections m)"
  "mg_user_proxy (user_proxy_destroyed_cb m) = None"
  "mg_net_enabled (user_proxy_destroyed_cb m) = mg_net_enabled m"
  "mg_authority (user_proxy_destroyed_cb m) = mg_authority m"
  "mg_devcount (user_proxy_destroyed_cb m) = mg_devcount m"
  "mg_counters (user_proxy_destroyed_cb m) = mg_counters m"
  "mg_calls (user_proxy_destroyed_cb m) = mg_calls m"
  "mg_next (user_proxy_destroyed_cb m) = mg_next m"
  by (simp_all add: user_proxy_destroyed_cb_def)

section \<open>The overall state\<close>

text \<open>What the state should be: asleep when the manager sleeps or networking is disabled, connected
  when a device is activated, connecting when one is activating and none activated.\<close>

definition expected_state :: "(device \<Rightarrow> device_state) \<Rightarrow> manager \<Rightarrow> bm_state" where
  "expected_state gs m =
     (if mg_sleeping m \<or> \<not> mg_net_enabled m then BM_STATE_ASLEEP
      else if \<exists>d \<in> set (mg_devices m). gs d = BM_DEVICE_STATE_ACTIVATED then BM_STATE_CONNECTED
      else if \<exists>d \<in> set (mg_devices m). bm_device_is_activating gs d then BM_STATE_CONNECTING
      else BM_STATE_DISCONNECTED)"

lemma devices_state_eq:
  "devices_state gs ds s =
     (if \<exists>d \<in> set ds. gs d = BM_DEVICE_STATE_ACTIVATED then BM_STATE_CONNECTED
      else if \<exists>d \<in> set ds. bm_device_is_activating gs d then BM_STATE_CONNECTING else s)"
  by (induction ds arbitrary: s) auto

lemma update_state_eq:
  "bm_manager_update_state gs m =
     (if mg_state m = expected_state gs m then m
      else m\<lparr>mg_state := expected_state gs m,
             mg_out := mg_out m @ [NOTIFY ''state'', STATE_CHANGED (expected_state gs m),
                                   STATE_CHANGE (expected_state gs m)]\<rparr>)"
  by (auto simp: bm_manager_update_state_def expected_state_def manager_sleeping_def devices_state_eq
      emit_def Let_def)

section \<open>User connections\<close>

text \<open>Every user connection is kept under its path, has user scope, and passes verification.\<close>

definition user_connection_ok :: "string \<Rightarrow> connection \<Rightarrow> bool" where
  "user_connection_ok path c \<longleftrightarrow>
     conn_path c = Some path \<and> conn_scope c = BM_CONNECTION_SCOPE_USER \<and> connection_wf c \<and>
     bm_connection_verify c = Inr ()"

definition user_table_ok :: "manager \<Rightarrow> bool" where
  "user_table_ok m \<longleftrightarrow>
     (\<forall>t. mg_user_connections m = Some t \<longrightarrow>
        gh_wf t \<and> (\<forall>path c. gh_lookup t path = Some c \<longrightarrow> user_connection_ok path c))"

lemma verify_settings: "conn_settings c = conn_settings d \<Longrightarrow> bm_connection_verify c = bm_connection_verify d"
  by (simp add: bm_connection_verify_def bm_connection_get_setting_def split: option.split)

lemma wf_settings: "conn_settings c = conn_settings d \<Longrightarrow> connection_wf c = connection_wf d"
  by (simp add: connection_wf_def)

lemma parse_settings:
  "conn_settings c = conn_settings d \<Longrightarrow>
     conn_settings (gh_foreach (parse_one_setting tr) H c) = conn_settings (gh_foreach (parse_one_setting tr) H d)"
proof (induction H arbitrary: c d)
  case (Cons kh H)
  have "conn_settings (parse_one_setting tr k h c) = conn_settings (parse_one_setting tr k h d)" for k h
    using Cons.prems by (simp add: parse_one_setting_def bm_connection_add_setting_def split: option.split)
  then show ?case
    by (cases kh) (auto intro: Cons.IH)
qed simp

text \<open>Replacing the settings succeeds when a connection can be built from the same tables.\<close>

lemma replace_settings_ok:
  assumes "bm_connection_new_from_hash tr H = Inr d"
  shows "snd (bm_connection_replace_settings tr H c) = Inr ()"
    and "conn_settings (fst (bm_connection_replace_settings tr H c)) = conn_settings d"
    and "conn_path (fst (bm_connection_replace_settings tr H c)) = conn_path c"
    and "conn_scope (fst (bm_connection_replace_settings tr H c)) = conn_scope c"
proof -
  have d: "d = gh_foreach (parse_one_setting tr) H bm_connection_new" "bm_connection_verify d = Inr ()"
    using assms by (auto simp: bm_connection_new_from_hash_def Let_def split: sum.splits)
  have same: "conn_settings (gh_foreach (parse_one_setting tr) H (c\<lparr>conn_settings := gh_new\<rparr>)) = conn_settings d"
    unfolding d(1) by (rule parse_settings) (simp add: bm_connection_new_def)
  then show "conn_settings (fst (bm_connection_replace_settings tr H c)) = conn_settings d"
    by (simp add: bm_connection_replace_settings_def Let_def)
  show "snd (bm_connection_replace_settings tr H c) = Inr ()"
    using verify_settings [OF same] d(2) by (simp add: bm_connection_replace_settings_def Let_def)
  show "conn_path (fst (bm_connection_replace_settings tr H c)) = conn_path c"
    "conn_scope (fst (bm_connection_replace_settings tr H c)) = conn_scope c"
    by (simp_all add: bm_connection_replace_settings_def Let_def)
qed

lemma new_from_hash_ok:
  "bm_connection_new_from_hash tr H = Inr d \<Longrightarrow> connection_wf d \<and> bm_connection_verify d = Inr ()"
  by (auto simp: bm_connection_new_from_hash_def Let_def parse_wf new_wf split: sum.splits)

lemma set_path_scope_fields [simp]:
  "conn_settings (bm_connection_set_scope s c) = conn_settings c"
  "conn_settings (bm_connection_set_path p c) = conn_settings c"
  "conn_scope (bm_connection_set_scope s c) = s" "conn_path (bm_connection_set_scope s c) = conn_path c"
  "conn_path (bm_connection_set_path p c) = p"
  by (simp_all add: bm_connection_set_scope_def bm_connection_set_path_def)

lemma user_table_emit [simp]: "user_table_ok (emit x m) = user_table_ok m"
  by (simp add: user_table_ok_def)

lemma user_table_same: "mg_user_connections m = mg_user_connections n \<Longrightarrow> user_table_ok m = user_table_ok n"
  by (simp add: user_table_ok_def)

lemma user_table_insert:
  "user_table_ok m \<Longrightarrow> user_connection_ok path c \<Longrightarrow>
     user_table_ok (m\<lparr>mg_user_connections := map_option (gh_insert path c) (mg_user_connections m)\<rparr>)"
  by (auto simp: user_table_ok_def gh_simps ght.invar_ins split: if_splits)

lemma user_table_remove:
  "user_table_ok m \<Longrightarrow> user_table_ok (m\<lparr>mg_user_connections := map_option (gh_remove path) (mg_user_connections m)\<rparr>)"
  by (auto simp: user_table_ok_def gh_simps ght.invar_del split: if_splits)

lemma user_table_lookup:
  "user_table_ok m \<Longrightarrow> ht_lookup (mg_user_connections m) path = Some c \<Longrightarrow> user_connection_ok path c"
  by (auto simp: user_table_ok_def ht_lookup_def split: option.splits)

lemma get_settings_cb_table [bm_inv]:
  assumes ok: "user_table_ok m"
  shows "user_table_ok (user_connection_get_settings_cb E r i m)"
proof -
  have "user_table_ok (m\<lparr>mg_user_connections := map_option (gh_insert (gi_path i)
      (bm_connection_set_scope BM_CONNECTION_SCOPE_USER (bm_connection_set_path (Some (gi_path i)) d)))
      (mg_user_connections m)\<rparr>)" if "bm_connection_new_from_hash (env_tr E) H = Inr d" for H d
  proof (rule user_table_insert [OF ok])
    show "user_connection_ok (gi_path i)
        (bm_connection_set_scope BM_CONNECTION_SCOPE_USER (bm_connection_set_path (Some (gi_path i)) d))"
      using new_from_hash_ok [OF that]
        verify_settings [of "bm_connection_set_scope BM_CONNECTION_SCOPE_USER (bm_connection_set_path (Some (gi_path i)) d)" d]
      by (simp add: user_connection_ok_def set_scope_path_wf)
  qed
  then show ?thesis
    using ok by (auto simp: user_connection_get_settings_cb_def Let_def split: option.splits sum.splits)
qed

lemma remove_user_table [bm_inv]: "user_table_ok m \<Longrightarrow> user_table_ok (remove_user_connection c m)"
  by (simp add: remove_user_connection_def user_table_remove split: option.split)

lemma removed_cb_table [bm_inv]: "user_table_ok m \<Longrightarrow> user_table_ok (user_connection_removed_cb p m)"
  by (simp add: user_connection_removed_cb_def remove_user_table split: option.split)

text \<open>What an update does to a connection that is there.\<close>

lemma updated_cb_cases:
  assumes "ht_lookup (mg_user_connections m) path = Some old"
  shows "user_connection_updated_cb E path H m =
    (case bm_connection_new_from_hash (env_tr E) H of
       Inl _ \<Rightarrow> remove_user_connection old m
     | Inr _ \<Rightarrow>
         (let new = fst (bm_connection_replace_settings (env_tr E) H old)
          in emit (CONNECTION_UPDATED new (conn_scope old))
               (m\<lparr>mg_user_connections := map_option (gh_insert path new) (mg_user_connections m)\<rparr>)))"
  using replace_settings_ok [of "env_tr E" H _ old]
  by (auto simp: user_connection_updated_cb_def assms Let_def bm_connection_get_scope_def split: sum.split prod.split)

lemma updated_cb_table [bm_inv]:
  assumes ok: "user_table_ok m"
  shows "user_table_ok (user_connection_updated_cb E path H m)"
proof (cases "ht_lookup (mg_user_connections m) path")
  case None
  then show ?thesis
    using ok by (simp add: user_connection_updated_cb_def)
next
  case (Some old)
  have old: "user_connection_ok path old"
    by (rule user_table_lookup [OF ok Some])
  show ?thesis
  proof (cases "bm_connection_new_from_hash (env_tr E) H")
    case (Inl e)
    then show ?thesis
      using ok by (simp add: updated_cb_cases [OF Some] remove_user_table)
  next
    case (Inr d)
    note new = replace_settings_ok [OF Inr, of old]
    have "user_connection_ok path (fst (bm_connection_replace_settings (env_tr E) H old))"
      using old new_from_hash_ok [OF Inr] wf_settings [OF new(2)] verify_settings [OF new(2)] new(3,4)
      by (simp add: user_connection_ok_def)
    then show ?thesis
      by (simp add: updated_cb_cases [OF Some] Inr Let_def user_table_insert [OF ok])
  qed
qed

section \<open>Devices\<close>

lemma device_object_path_inj [simp]: "device_object_path a = device_object_path b \<longleftrightarrow> a = b"
  by (simp add: device_object_path_def word_eq_iff_signed [symmetric])

end
