(* ===== verification/Manager_Invariants.thy ===== *)
theory Manager_Invariants
  imports Manager
begin

text \<open>
  The invariants of the manager and what each operation of \<open>Manager\<close> does to them: the paths of
  the devices, and the batches of \<^verbatim>\<open>GetSettings\<close> calls with their counters.
\<close>

section \<open>The paths of the devices\<close>

text \<open>After \<open>n\<close> devices were added, each device that is left has the path of one of the numbers below
  \<open>n\<close>, and no two have the same.\<close>

definition devices_ok :: "nat \<Rightarrow> manager \<Rightarrow> bool" where
  "devices_ok n m \<longleftrightarrow>
     mg_devcount m = of_nat n \<and>
     (\<forall>d \<in> set (mg_devices m). \<exists>i < n. dev_path d = Some (device_object_path (of_nat i))) \<and>
     (n \<le> 2 ^ 32 \<longrightarrow> distinct (map dev_path (mg_devices m)))"

lemma devices_same:
  "mg_devices m = mg_devices m' \<Longrightarrow> mg_devcount m = mg_devcount m' \<Longrightarrow> devices_ok n m = devices_ok n m'"
  by (simp add: devices_ok_def)

lemma of_nat_u32_inj:
  assumes "i < 2 ^ 32" "j < 2 ^ 32" "(of_nat i :: u32) = of_nat j"
  shows "i = j"
proof -
  have "unat (of_nat i :: u32) = unat (of_nat j :: u32)"
    by (simp only: assms(3))
  then show ?thesis
    using assms(1,2) by (simp add: unat_of_nat)
qed

lemma add_device_eq:
  assumes "dev_type_desc d \<noteq> None" "dev_path d = None"
  shows "mg_devices (add_device d m) = mg_devices m @ [d\<lparr>dev_path := Some (device_object_path (mg_devcount m))\<rparr>]"
    and "mg_devcount (add_device d m) = mg_devcount m + 1"
    and "mg_out (add_device d m) = mg_out m @
      [SYSCONFIG_DEVICE_ADDED (Some (device_object_path (mg_devcount m))),
       DEVICE_ADDED (Some (device_object_path (mg_devcount m)))]"
  using assms by (auto simp: add_device_def Let_def bm_device_get_type_desc_def bm_device_set_path_def)

lemma add_device_ok [bm_inv]:
  assumes ok: "devices_ok n m" and d: "dev_type_desc d \<noteq> None" "dev_path d = None"
  shows "devices_ok (Suc n) (add_device d m)"
proof -
  let ?p = "Some (device_object_path (of_nat n))"
  have new: "?p \<notin> dev_path ` set (mg_devices m)" if "Suc n \<le> 2 ^ 32"
  proof
    assume "?p \<in> dev_path ` set (mg_devices m)"
    then obtain i where "i < n" "(of_nat i :: u32) = of_nat n"
      using ok by (auto simp: devices_ok_def)
    then show False
      using that of_nat_u32_inj [of i n] by simp
  qed
  have "\<exists>i < Suc n. dev_path e = Some (device_object_path (of_nat i))" if "e \<in> set (mg_devices m)" for e
    using ok that less_SucI unfolding devices_ok_def by blast
  moreover have "mg_devcount m = of_nat n"
    using ok by (simp add: devices_ok_def)
  moreover have "distinct (map dev_path (mg_devices m))" if "Suc n \<le> 2 ^ 32"
    using ok that by (simp add: devices_ok_def)
  ultimately show ?thesis
    using new by (auto simp: devices_ok_def add_device_eq [OF d])
qed

lemma distinct_map_remove1: "distinct (map f xs) \<Longrightarrow> distinct (map f (remove1 x xs))"
  by (induction xs) (auto dest: subsetD [OF set_remove1_subset])

lemma udev_removed_ok [bm_inv]:
  assumes ok: "devices_ok n m"
  shows "devices_ok n (udev_device_removed_cb name m)"
proof (cases "find_device_by_iface m name")
  case (Some d)
  then have "mg_devices (udev_device_removed_cb name m) = remove1 d (mg_devices m)"
    "mg_devcount (udev_device_removed_cb name m) = mg_devcount m"
    by (simp_all add: udev_device_removed_cb_def remove_one_device_def Let_def)
  then show ?thesis
    using ok distinct_map_remove1 [of dev_path "mg_devices m" d] notin_set_remove1
    unfolding devices_ok_def by metis
qed (simp add: udev_device_removed_cb_def ok)

lemma device_state_ok [bm_inv]:
  assumes ok: "devices_ok n m" and i: "i < length (mg_devices m)" "dev_path d = dev_path (mg_devices m ! i)"
  shows "devices_ok n (manager_device_state_changed gs s (m\<lparr>mg_devices := (mg_devices m)[i := d]\<rparr>))"
proof -
  have paths: "map dev_path ((mg_devices m)[i := d]) = map dev_path (mg_devices m)"
    using i by (simp add: map_update) (metis i(1) length_map list_update_id nth_map)
  have "\<exists>i < n. dev_path e = Some (device_object_path (of_nat i))" if "e \<in> set ((mg_devices m)[i := d])" for e
  proof -
    have "dev_path e \<in> set (map dev_path (mg_devices m))"
      unfolding paths [symmetric] using that by simp
    then show ?thesis
      using ok by (auto simp: devices_ok_def)
  qed
  then show ?thesis
    using ok paths by (simp add: devices_ok_def)
qed

section \<open>Batches of calls\<close>

text \<open>A batch's counter is the number of its pending calls.\<close>

definition pending :: "nat \<Rightarrow> manager \<Rightarrow> nat set" where
  "pending n m = {i. \<exists>info. mg_calls m i = Some info \<and> gi_calls info = Some n}"

definition batches_ok :: "manager \<Rightarrow> bool" where
  "batches_ok m \<longleftrightarrow>
     (\<forall>i info. mg_calls m i = Some info \<longrightarrow>
        i < mg_next m \<and> gi_connection info = None \<and>
        (\<forall>n. gi_calls info = Some n \<longrightarrow> mg_counters m n \<noteq> None)) \<and>
     (\<forall>n v. mg_counters m n = Some v \<longrightarrow> n < mg_next m \<and> unat v = card (pending n m))"

lemma batches_same:
  "mg_calls m = mg_calls m' \<Longrightarrow> mg_counters m = mg_counters m' \<Longrightarrow> mg_next m = mg_next m' \<Longrightarrow>
     batches_ok m = batches_ok m'"
  by (simp add: batches_ok_def pending_def)

lemma batches_call:
  assumes "batches_ok m" "mg_calls m i = Some info"
  shows "i < mg_next m" "gi_connection info = None" "gi_calls info = Some n \<Longrightarrow> \<exists>v. mg_counters m n = Some v"
  using assms unfolding batches_ok_def by blast+

lemma batches_counter:
  assumes "batches_ok m" "mg_counters m n = Some v"
  shows "n < mg_next m" "unat v = card (pending n m)"
  using assms unfolding batches_ok_def by blast+

lemma pending_finite: "batches_ok m \<Longrightarrow> finite (pending n m)"
  by (rule finite_subset [of _ "{..<mg_next m}"]) (auto simp: pending_def dest: batches_call(1))

text \<open>The calls a list of connections starts.\<close>

lemma start_calls:
  assumes "mg_counters m n = Some v"
  defines "f \<equiv> \<lambda>m op. user_internal_new_connection_cb op (Some n) m"
  shows "mg_next (foldl f m ops) = mg_next m + length ops \<and>
    mg_counters (foldl f m ops) = (mg_counters m)(n \<mapsto> v + of_nat (length ops)) \<and>
    (\<forall>i. mg_calls (foldl f m ops) i =
      (if mg_next m \<le> i \<and> i < mg_next m + length ops
       then Some \<lparr>gi_path = ops ! (i - mg_next m), gi_connection = None, gi_calls = Some n\<rparr> else mg_calls m i)) \<and>
    mg_out (foldl f m ops) = mg_out m @ map GET_SETTINGS ops"
proof (induction ops rule: rev_induct)
  case Nil
  then show ?case
    using assms(1) by (auto simp: fun_upd_idem)
next
  case (snoc op ops)
  let ?m = "foldl f m ops"
  have f: "foldl f m (ops @ [op]) = user_internal_new_connection_cb op (Some n) ?m"
    by (simp add: f_def)
  have "mg_counters (foldl f m (ops @ [op])) = (mg_counters m)(n \<mapsto> v + of_nat (length (ops @ [op])))"
    using snoc.IH unfolding f by (simp add: user_internal_new_connection_cb_def Let_def algebra_simps fun_eq_iff)
  moreover have "mg_calls (foldl f m (ops @ [op])) i =
      (if mg_next m \<le> i \<and> i < mg_next m + length (ops @ [op])
       then Some \<lparr>gi_path = (ops @ [op]) ! (i - mg_next m), gi_connection = None, gi_calls = Some n\<rparr>
       else mg_calls m i)" for i
    using snoc.IH unfolding f by (auto simp: nth_append)
  ultimately show ?case
    using snoc.IH unfolding f by simp
qed

lemma list_cb_ok [bm_inv]:
  assumes ok: "batches_ok m" and len: "length ops < 2 ^ 32"
  shows "batches_ok (user_list_connections_cb (Some ops) m)"
proof -
  let ?n = "mg_next m" and ?l = "length ops"
  let ?m1 = "m\<lparr>mg_counters := (mg_counters m)(?n \<mapsto> 0), mg_next := Suc ?n\<rparr>"
  let ?m = "user_list_connections_cb (Some ops) m"
  have fresh: "mg_counters m ?n = None" "mg_calls m i = Some info \<Longrightarrow> gi_calls info \<noteq> Some ?n" for i info
    using batches_counter(1) [OF ok] batches_call(3) [OF ok] by (metis less_irrefl option.exhaust)+
  have m: "mg_next ?m = Suc ?n + ?l" "mg_counters ?m = (mg_counters m)(?n \<mapsto> of_nat ?l)"
    "\<And>i. mg_calls ?m i = (if Suc ?n \<le> i \<and> i < Suc ?n + ?l
       then Some \<lparr>gi_path = ops ! (i - Suc ?n), gi_connection = None, gi_calls = Some ?n\<rparr> else mg_calls m i)"
    using start_calls [of ?m1 ?n 0 ops] by (simp_all add: user_list_connections_cb_def Let_def)
  have old: "mg_calls m i = None" if "?n \<le> i" for i
    using batches_call(1) [OF ok, of i] that by (metis leD option.exhaust)
  have new: "pending ?n ?m = {Suc ?n..<Suc ?n + ?l}"
    using fresh(2) by (auto simp: pending_def m(3))
  have others: "pending k ?m = pending k m" if "k \<noteq> ?n" for k
    using that old by (auto simp: pending_def m(3) split: if_splits)
  have "i < mg_next ?m \<and> gi_connection info = None \<and>
      (\<forall>k. gi_calls info = Some k \<longrightarrow> mg_counters ?m k \<noteq> None)" if "mg_calls ?m i = Some info" for i info
    using that batches_call [OF ok, of i info] by (auto simp: m split: if_splits)
  moreover have "k < mg_next ?m \<and> unat v = card (pending k ?m)" if "mg_counters ?m k = Some v" for k v
  proof (cases "k = ?n")
    case True
    then show ?thesis
      using that len by (auto simp: m(1,2) new unat_of_nat)
  next
    case False
    then show ?thesis
      using that batches_counter [OF ok, of k v] by (simp add: m(1,2) others)
  qed
  ultimately show ?thesis
    unfolding batches_ok_def by blast
qed

lemma new_connection_ok [bm_inv]:
  assumes ok: "batches_ok m"
  shows "batches_ok (user_new_connection_cb path m)"
proof -
  let ?m = "user_new_connection_cb path m"
  have m: "mg_next ?m = Suc (mg_next m)" "mg_counters ?m = mg_counters m"
    "mg_calls ?m = (mg_calls m)(mg_next m \<mapsto> \<lparr>gi_path = path, gi_connection = None, gi_calls = None\<rparr>)"
    by (simp_all add: user_new_connection_cb_def user_internal_new_connection_cb_def Let_def)
  have same: "pending k ?m = pending k m" for k
    using batches_call(1) [OF ok, of "mg_next m"] by (auto simp: pending_def m)
  show ?thesis
    using ok unfolding batches_ok_def same m(1,2) by (auto simp: m(3) less_SucI)
qed

text \<open>The reply of a call is consumed, and its data freed after the callback.\<close>

definition finish_get_settings :: "nat \<Rightarrow> get_settings_info \<Rightarrow> manager \<Rightarrow> manager" where
  "finish_get_settings i info m =
     free_get_settings_info info (m\<lparr>mg_calls := (mg_calls m)(i := None)\<rparr>)"

lemma finish_single:
  "gi_calls info = None \<Longrightarrow> finish_get_settings i info m = m\<lparr>mg_calls := (mg_calls m)(i := None)\<rparr>"
  by (simp add: finish_get_settings_def free_get_settings_info_def)

lemma finish_batch:
  assumes ok: "batches_ok m" and i: "mg_calls m i = Some info" "gi_calls info = Some n"
  shows "finish_get_settings i info m =
    (if pending n m = {i}
     then emit (CONNECTIONS_ADDED BM_CONNECTION_SCOPE_USER)
            (m\<lparr>mg_calls := (mg_calls m)(i := None), mg_counters := (mg_counters m)(n := None)\<rparr>)
     else m\<lparr>mg_calls := (mg_calls m)(i := None),
            mg_counters := (mg_counters m)(n \<mapsto> of_nat (card (pending n m - {i})))\<rparr>)"
proof -
  obtain v where v: "mg_counters m n = Some v"
    using batches_call(3) [OF ok i] by blast
  have fin: "finite (pending n m)" and mem: "i \<in> pending n m"
    using pending_finite [OF ok] i by (auto simp: pending_def)
  have card: "unat v = Suc (card (pending n m - {i}))"
    using batches_counter(2) [OF ok v] card.remove [OF fin mem] by simp
  have "v = of_nat (unat v)"
    by simp
  then have "v = of_nat (Suc (card (pending n m - {i})))"
    unfolding card .
  then have less: "v - 1 = of_nat (card (pending n m - {i}))"
    by simp
  have "v - 1 = 0 \<longleftrightarrow> unat v = 1"
    by (simp add: word_unat_eq_iff [of v 1])
  also have "\<dots> \<longleftrightarrow> card (pending n m - {i}) = 0"
    by (simp only: card) simp
  also have "\<dots> \<longleftrightarrow> pending n m = {i}"
    using fin mem by (simp only: card_0_eq [OF finite_Diff]) blast
  finally show ?thesis
    using v less by (simp add: finish_get_settings_def free_get_settings_info_def i(2))
qed

lemma pending_finish:
  "mg_calls m' = (mg_calls m)(i := None) \<Longrightarrow> pending n m' = pending n m - {i}"
  by (auto simp: pending_def)

lemma finish_ok [bm_inv]:
  assumes ok: "batches_ok m" and i: "mg_calls m i = Some info"
  shows "batches_ok (finish_get_settings i info m)"
proof -
  let ?m = "finish_get_settings i info m"
  have m: "mg_calls ?m = (mg_calls m)(i := None)" "mg_next ?m = mg_next m"
    by (simp_all add: finish_get_settings_def)
  note pend = pending_finish [OF m(1)]
  have counters: "mg_counters ?m k = (if gi_calls info = Some k
      then (if pending k m = {i} then None else Some (of_nat (card (pending k m - {i})))) else mg_counters m k)" for k
    using finish_single [of info i m] finish_batch [OF ok i] by (cases "gi_calls info") auto
  have "j < mg_next ?m \<and> gi_connection info' = None \<and>
      (\<forall>k. gi_calls info' = Some k \<longrightarrow> mg_counters ?m k \<noteq> None)" if j: "mg_calls ?m j = Some info'" for j info'
  proof -
    have j': "j \<noteq> i" "mg_calls m j = Some info'"
      using j by (auto simp: m split: if_splits)
    have "mg_counters ?m k \<noteq> None" if k: "gi_calls info' = Some k" for k
    proof -
      have "j \<in> pending k m"
        using j' k by (simp add: pending_def)
      then show ?thesis
        using j'(1) batches_call(3) [OF ok j'(2) k] by (auto simp: counters)
    qed
    then show ?thesis
      using batches_call(1,2) [OF ok j'(2)] by (simp add: m)
  qed
  moreover have "k < mg_next ?m \<and> unat v = card (pending k ?m)" if v: "mg_counters ?m k = Some v" for k v
  proof (cases "gi_calls info = Some k")
    case True
    obtain v0 where v0: "mg_counters m k = Some v0"
      using batches_call(3) [OF ok i True] by blast
    have "card (pending k m - {i}) \<le> unat v0"
      using batches_counter(2) [OF ok v0] by (simp add: card_Diff1_le)
    then have "card (pending k m - {i}) < 2 ^ 32"
      using unsigned_less [of v0, where ?'a = nat] by simp
    then have "unat (of_nat (card (pending k m - {i})) :: u32) = card (pending k m - {i})"
      by (simp add: unat_of_nat)
    then show ?thesis
      using v True batches_counter(1) [OF ok v0] by (auto simp: counters pend m split: if_splits)
  next
    case False
    then have "i \<notin> pending k m"
      using i by (simp add: pending_def)
    then show ?thesis
      using v False batches_counter [OF ok, of k v] by (simp add: counters pend m)
  qed
  ultimately show ?thesis
    unfolding batches_ok_def by blast
qed

end
