(* ===== verification/Manager_Events.thy ===== *)
theory Manager_Events
  imports Manager_Invariants
begin

text \<open>
  The life of the manager as a sequence of events: the D-Bus methods that are called, the replies
  that arrive, the signals of the bus, of udev and of the devices.  \<open>handle\<close> runs the handler that
  \<^verbatim>\<open>bm-manager.c\<close> registers for an event; \<open>enabled\<close> says when an event can happen, because a reply
  is pending or a signal is connected.  \<open>reachable\<close> are the worlds after any sequence of events
  from the freshly initialised manager; the number counts the devices added on the way.
\<close>

section \<open>Events\<close>

datatype event =
    Ev_Enable bool nat cstr
  | Ev_Polkit nat pk_reply
  | Ev_Name_Owner string cstr cstr bool cstr
  | Ev_Start bool cstr
  | Ev_Proxy_Destroyed
  | Ev_List_Reply "string list option"
  | Ev_New_Connection string
  | Ev_Get_Settings nat "(string, (string, gvalue) ghash) ghash option"
  | Ev_Get_Settings_Cancelled nat
  | Ev_Updated string "(string, (string, gvalue) ghash) ghash"
  | Ev_Removed string
  | Ev_Udev_Added "bool \<Rightarrow> device option"
  | Ev_Udev_Removed string
  | Ev_Device_State nat device device_state
  | Ev_Set_Property dbus_message

fun handle :: "env \<Rightarrow> event \<Rightarrow> world \<Rightarrow> world" where
  "handle E (Ev_Enable enable context sender) w = impl_manager_enable E enable context sender w"
| "handle E (Ev_Polkit k r) w = pk_call_cb (manager_done (env_gs E)) k r w"
| "handle E (Ev_Name_Owner name old new has_owner proxy) w =
     bm_manager_name_owner_changed name old new has_owner proxy w"
| "handle E (Ev_Start has_owner proxy) w = bm_manager_start has_owner proxy [] w"
| "handle E Ev_Proxy_Destroyed w = apsnd user_proxy_destroyed_cb w"
| "handle E (Ev_List_Reply reply) w = apsnd (user_list_connections_cb reply) w"
| "handle E (Ev_New_Connection path) w = apsnd (user_new_connection_cb path) w"
| "handle E (Ev_Get_Settings i reply) w =
     (case mg_calls (snd w) i of
        None \<Rightarrow> w
      | Some info \<Rightarrow>
          apsnd (\<lambda>m. finish_get_settings i info (user_connection_get_settings_cb E reply info m)) w)"
| "handle E (Ev_Get_Settings_Cancelled i) w =
     (case mg_calls (snd w) i of
        None \<Rightarrow> w
      | Some info \<Rightarrow> apsnd (finish_get_settings i info) w)"
| "handle E (Ev_Updated path settings) w = apsnd (user_connection_updated_cb E path settings) w"
| "handle E (Ev_Removed path) w = apsnd (user_connection_removed_cb path) w"
| "handle E (Ev_Udev_Added creator) w = apsnd (udev_device_added_cb creator) w"
| "handle E (Ev_Udev_Removed name) w = apsnd (udev_device_removed_cb name) w"
| "handle E (Ev_Device_State i d new_state) w =
     apsnd (\<lambda>m. manager_device_state_changed (env_gs E) new_state
              (m\<lparr>mg_devices := (mg_devices m)[i := d]\<rparr>)) w"
| "handle E (Ev_Set_Property msg) w = apsnd (\<lambda>m. snd (prop_filter E msg m)) w"

definition proxy_connected :: "manager \<Rightarrow> bool" where
  "proxy_connected m = (case mg_user_proxy m of Some p \<Rightarrow> up_connected p | None \<Rightarrow> False)"

text \<open>PolicyKit replies only to an authority that exists; the list of connections and the new
  connections come from a proxy whose signals are connected; a D-Bus array holds less than
  \<open>2 ^ 32\<close> paths; a device that is created has a type description and no path yet, and a device keeps
  its path.\<close>

fun enabled :: "event \<Rightarrow> world \<Rightarrow> bool" where
  "enabled (Ev_Polkit k r) w = mg_authority (snd w)"
| "enabled Ev_Proxy_Destroyed w = proxy_connected (snd w)"
| "enabled (Ev_List_Reply reply) w =
     (proxy_connected (snd w) \<and>
      (case reply of None \<Rightarrow> True | Some ops \<Rightarrow> length ops < 2 ^ 32))"
| "enabled (Ev_New_Connection path) w = proxy_connected (snd w)"
| "enabled (Ev_Get_Settings i reply) w = (mg_calls (snd w) i \<noteq> None)"
| "enabled (Ev_Get_Settings_Cancelled i) w = (mg_calls (snd w) i \<noteq> None)"
| "enabled (Ev_Udev_Added creator) w = (case creator (manager_sleeping (snd w)) of
        Some d \<Rightarrow> dev_path d = None \<and> dev_type_desc d \<noteq> None
      | None \<Rightarrow> True)"
| "enabled (Ev_Device_State i d new_state) w =
     (i < length (mg_devices (snd w)) \<and> dev_path d = dev_path (mg_devices (snd w) ! i))"
| "enabled _ w = True"

definition devices_added :: "event \<Rightarrow> world \<Rightarrow> nat" where
  "devices_added e w =
     (case e of Ev_Udev_Added creator \<Rightarrow> (if creator (manager_sleeping (snd w)) \<noteq> None then 1 else 0) | _ \<Rightarrow> 0)"

text \<open>The initial world; the real one has no authority.\<close>

definition world_init :: "bool \<Rightarrow> bool \<Rightarrow> cstr \<Rightarrow> world" where
  "world_init authority net_enabled state_file =
     (auth_init, bm_manager_init\<lparr>mg_authority := authority, mg_net_enabled := net_enabled,
        mg_state_file := state_file\<rparr>)"

inductive reachable :: "env \<Rightarrow> world \<Rightarrow> nat \<Rightarrow> world \<Rightarrow> bool" for E :: env and w0 :: world where
  start: "reachable E w0 0 w0"
| step: "reachable E w0 n w \<Longrightarrow> enabled e w \<Longrightarrow> reachable E w0 (n + devices_added e w) (handle E e w)"

inductive_cases reachable_cases: "reachable E w0 n w"

section \<open>Effects on the store of authorization chains\<close>

lemma start_empty: "bm_manager_start has_owner proxy [] w = user_proxy_init has_owner proxy w"
  by (cases "user_proxy_init has_owner proxy w") (simp add: bm_manager_start_def)

lemma proxy_init_cases:
  obtains (same) "user_proxy_init has_owner proxy w = w"
  | (chain) owner where "proxy = Some owner"
      "user_proxy_init has_owner proxy w =
        (bm_auth_chain_add_call (au_next (fst w)) PERMISSION_NETWORK_CONTROL False
           (bm_auth_chain_add_call (au_next (fst w)) PERMISSION_USE_USER_CONNECTIONS False
             (snd (bm_auth_chain_new (Some owner) USER_PROXY_AUTH_DONE (fst w)))),
         (snd w)\<lparr>mg_user_proxy := Some \<lparr>up_owner = owner, up_connected = False\<rparr>,
                 mg_auth_chains := au_next (fst w) # mg_auth_chains (snd w)\<rparr>)"
proof (cases "mg_user_proxy (snd w) \<noteq> None \<or> \<not> has_owner \<or> proxy = None")
  case True
  then show ?thesis
    by (intro same) (auto simp: user_proxy_init_def)
next
  case False
  then obtain owner where "mg_user_proxy (snd w) = None" "has_owner" "proxy = Some owner"
    by auto
  then show ?thesis
    by (intro chain [of owner]) (simp_all add: user_proxy_init_def bm_auth_chain_new_def Let_def)
qed

lemma enable_cases:
  obtains (refused) x where "impl_manager_enable E enable context sender w = (fst w, emit x (snd w))"
  | (root) s where "sender = Some s" "env_unix_user E s = Some 0" "mg_net_enabled (snd w) \<noteq> enable"
      "impl_manager_enable E enable context sender w =
        (fst w, emit (METHOD_RETURN context) (internal_enable (env_gs E) enable (snd w)))"
  | (chain) s where "sender = Some s" "mg_authority (snd w)"
      "impl_manager_enable E enable context sender w =
        (bm_auth_chain_add_call (au_next (fst w)) PERMISSION_ENABLE_DISABLE_NETWORK True
           (bm_auth_chain_set_data (au_next (fst w)) ''enable'' (if enable then 1 else 0)
             (snd (bm_auth_chain_new (Some s) (ENABLE_NET_DONE context) (fst w)))),
         (snd w)\<lparr>mg_auth_chains := mg_auth_chains (snd w) @ [au_next (fst w)]\<rparr>)"
proof (cases "mg_net_enabled (snd w) = enable")
  case True
  then show ?thesis
    by (intro refused) (simp add: impl_manager_enable_def)
next
  case ne: False
  show ?thesis
  proof (cases "bm_auth_get_caller_uid sender (env_connected E) (env_unix_user E)")
    case (Inl d)
    then show ?thesis
      using ne by (intro refused) (simp add: impl_manager_enable_def)
  next
    case (Inr uid)
    then obtain s where s: "sender = Some s" "env_unix_user E s = Some uid"
      by (auto simp: bm_auth_get_caller_uid_def split: option.splits if_splits)
    show ?thesis
    proof (cases "uid = 0")
      case True
      then show ?thesis
        using ne Inr s by (intro root) (auto simp: impl_manager_enable_def)
    next
      case False
      show ?thesis
      proof (cases "mg_authority (snd w)")
        case True
        then show ?thesis
          using ne Inr s False
          by (intro chain) (auto simp: impl_manager_enable_def return_no_pk_error_def bm_auth_chain_new_def Let_def)
      next
        case no: False
        then show ?thesis
          using ne Inr False by (intro refused) (simp add: impl_manager_enable_def return_no_pk_error_def)
      qed
    qed
  qed
qed

section \<open>The chains of enable requests\<close>

text \<open>A pending enable request has one call, for the right permission, and no answer yet.\<close>

definition enable_chain_ok :: "mgr_done auth \<Rightarrow> mgr_done auth_chain \<Rightarrow> bool" where
  "enable_chain_ok au ch \<longleftrightarrow>
     (\<forall>context. ch_done ch = ENABLE_NET_DONE context \<longrightarrow>
        ch_error ch = None \<and> gh_wf (ch_data ch) \<and>
        gh_lookup (ch_data ch) PERMISSION_ENABLE_DISABLE_NETWORK = None \<and>
        (\<exists>k call. ch_calls ch = [k] \<and> au_calls au k = Some call \<and>
           call_permission call = PERMISSION_ENABLE_DISABLE_NETWORK))"

definition chains_inv :: "mgr_done auth \<Rightarrow> bool" where
  "chains_inv au \<longleftrightarrow> auth_wf au \<and> (\<forall>c ch. au_chains au c = Some ch \<longrightarrow> enable_chain_ok au ch)"

lemma enable_chain_mono:
  assumes "enable_chain_ok au ch"
    and "\<And>k. k \<in> set (ch_calls ch) \<Longrightarrow> au_calls au' k = au_calls au k"
  shows "enable_chain_ok au' ch"
  using assms unfolding enable_chain_ok_def by (metis list.set_intros(1))

lemma new_chain_simps:
  "au_chains (snd (bm_auth_chain_new (Some n) f au)) c =
     (if c = au_next au then Some \<lparr>ch_refcount = 1, ch_calls = [], ch_data = gh_new, ch_error = None,
        ch_owner = n, ch_done = f\<rparr> else au_chains au c)"
  "au_calls (snd (bm_auth_chain_new (Some n) f au)) = au_calls au"
  "au_next (snd (bm_auth_chain_new (Some n) f au)) = Suc (au_next au)"
  by (simp_all add: bm_auth_chain_new_def)

lemma add_call_simps:
  "au_chains (bm_auth_chain_add_call c p i au) d =
     (if d = c then map_option (\<lambda>ch. ch\<lparr>ch_calls := ch_calls ch @ [au_next au]\<rparr>) (au_chains au c) else au_chains au d)"
  "au_calls (bm_auth_chain_add_call c p i au) k =
     (if k = au_next au then Some \<lparr>call_chain = c, call_permission = p, call_interaction = i, call_disposed = False\<rparr>
      else au_calls au k)"
  "au_next (bm_auth_chain_add_call c p i au) = Suc (au_next au)"
  by (simp_all add: bm_auth_chain_add_call_def)

lemma old_chain_calls:
  "auth_wf au \<Longrightarrow> au_chains au c = Some ch \<Longrightarrow> k \<in> set (ch_calls ch) \<Longrightarrow> k < au_next au"
  using auth_wf_chain [of au c ch] auth_wf_call [of au k] by (fastforce simp: chain_ok_def call_ok_def)

lemma chains_inv_proxy_init [bm_inv]:
  assumes inv: "chains_inv (fst w)"
  shows "chains_inv (fst (user_proxy_init has_owner proxy w))"
proof (cases rule: proxy_init_cases [of has_owner proxy w])
  case same
  then show ?thesis using inv by simp
next
  case (chain owner)
  let ?n = "au_next (fst w)"
  let ?a = "snd (bm_auth_chain_new (Some owner) USER_PROXY_AUTH_DONE (fst w))"
  let ?b = "bm_auth_chain_add_call ?n PERMISSION_USE_USER_CONNECTIONS False ?a"
  let ?c = "bm_auth_chain_add_call ?n PERMISSION_NETWORK_CONTROL False ?b"
  have wf: "auth_wf (fst w)"
    using inv by (simp add: chains_inv_def)
  have "auth_wf ?b"
    by (rule auth_wf_add_call [OF auth_wf_new [OF wf]]) (simp add: new_chain_simps)
  then have "auth_wf ?c"
    by (rule auth_wf_add_call) (simp add: new_chain_simps add_call_simps)
  moreover have "enable_chain_ok ?c ch" if ch: "au_chains ?c d = Some ch" for d ch
  proof (cases "d = ?n")
    case True
    have "map_option ch_done (au_chains ?c ?n) = Some USER_PROXY_AUTH_DONE"
      by (simp add: add_call_simps new_chain_simps)
    then have "ch_done ch = USER_PROXY_AUTH_DONE"
      using ch True by simp
    then show ?thesis
      by (simp add: enable_chain_ok_def)
  next
    case False
    then have old: "au_chains (fst w) d = Some ch"
      using ch by (simp add: add_call_simps new_chain_simps)
    then have "enable_chain_ok (fst w) ch"
      using inv by (simp add: chains_inv_def)
    then show ?thesis
    proof (rule enable_chain_mono)
      fix k assume "k \<in> set (ch_calls ch)"
      then have "k < au_next (fst w)"
        by (rule old_chain_calls [OF wf old])
      then show "au_calls ?c k = au_calls (fst w) k"
        by (simp add: add_call_simps new_chain_simps)
    qed
  qed
  ultimately show ?thesis
    unfolding chains_inv_def chain(2) fst_conv by blast
qed

lemma chains_inv_enable [bm_inv]:
  assumes inv: "chains_inv (fst w)"
  shows "chains_inv (fst (impl_manager_enable E enable context sender w))"
proof (cases rule: enable_cases [of E enable "context" sender w])
  case (chain s)
  let ?n = "au_next (fst w)"
  let ?a = "snd (bm_auth_chain_new (Some s) (ENABLE_NET_DONE context) (fst w))"
  let ?b = "bm_auth_chain_set_data ?n ''enable'' (if enable then 1 else 0) ?a"
  let ?c = "bm_auth_chain_add_call ?n PERMISSION_ENABLE_DISABLE_NETWORK True ?b"
  have wf: "auth_wf (fst w)"
    using inv by (simp add: chains_inv_def)
  have b: "au_chains ?b ?n = Some (chain_set_data ''enable'' (if enable then 1 else 0)
      \<lparr>ch_refcount = 1, ch_calls = [], ch_data = gh_new, ch_error = None, ch_owner = s,
       ch_done = ENABLE_NET_DONE context\<rparr>)" "au_calls ?b = au_calls (fst w)" "au_next ?b = Suc ?n"
    by (simp_all add: bm_auth_chain_set_data_def new_chain_simps)
  have "auth_wf ?c"
    by (rule auth_wf_add_call [OF auth_wf_set_data [OF auth_wf_new [OF wf]] b(1)])
  moreover have "enable_chain_ok ?c ch" if ch: "au_chains ?c d = Some ch" for d ch
  proof (cases "d = ?n")
    case True
    have "au_chains ?c ?n = map_option (\<lambda>ch. ch\<lparr>ch_calls := ch_calls ch @ [Suc ?n]\<rparr>) (au_chains ?b ?n)"
      by (simp only: add_call_simps b(3) if_True refl)
    then have "ch = (chain_set_data ''enable'' (if enable then 1 else 0)
      \<lparr>ch_refcount = 1, ch_calls = [], ch_data = gh_new, ch_error = None, ch_owner = s,
       ch_done = ENABLE_NET_DONE context\<rparr>)\<lparr>ch_calls := [Suc ?n]\<rparr>"
      using ch True b(1) by (simp add: chain_set_data_def)
    moreover have "au_calls ?c (Suc ?n) = Some \<lparr>call_chain = ?n,
        call_permission = PERMISSION_ENABLE_DISABLE_NETWORK, call_interaction = True, call_disposed = False\<rparr>"
      by (simp only: add_call_simps b(3) if_True refl)
    moreover have "gh_lookup (ch_data (chain_set_data ''enable'' (if enable then 1 else 0)
      \<lparr>ch_refcount = 1, ch_calls = [], ch_data = gh_new, ch_error = None, ch_owner = s,
       ch_done = ENABLE_NET_DONE context\<rparr>)) PERMISSION_ENABLE_DISABLE_NETWORK = None"
      by (cases enable) (simp_all add: chain_set_data_def gh_simps ght.invar_new
          PERMISSION_ENABLE_DISABLE_NETWORK_def)
    ultimately show ?thesis
      by (cases enable) (simp_all add: enable_chain_ok_def chain_set_data_def ght.invar_new ght.invar_ins ght.invar_del)
  next
    case False
    then have old: "au_chains (fst w) d = Some ch"
      using ch by (simp add: add_call_simps new_chain_simps bm_auth_chain_set_data_def)
    then have "enable_chain_ok (fst w) ch"
      using inv by (simp add: chains_inv_def)
    then show ?thesis
    proof (rule enable_chain_mono)
      fix k assume "k \<in> set (ch_calls ch)"
      then have "k < au_next (fst w)"
        by (rule old_chain_calls [OF wf old])
      then show "au_calls ?c k = au_calls (fst w) k"
        by (simp add: add_call_simps b(2,3))
    qed
  qed
  ultimately show ?thesis
    unfolding chains_inv_def chain(3) fst_conv by blast
qed (use inv in simp_all)

lemma chains_inv_pk_call [bm_inv]:
  assumes inv: "chains_inv (fst w)"
  shows "chains_inv (fst (pk_call_cb (manager_done gs) k r w))"
proof -
  obtain au m where w: "w = (au, m)" by (cases w)
  have wf: "auth_wf au" and ok: "\<And>c ch. au_chains au c = Some ch \<Longrightarrow> enable_chain_ok au ch"
    using inv w by (auto simp: chains_inv_def)
  have wf': "auth_wf (fst (pk_call_cb (manager_done gs) k r w))"
    unfolding w by (rule mgr.pk_call_cb_wf [OF wf])
  have other: "enable_chain_ok au' ch" if "au_chains au d = Some ch" "k \<notin> set (ch_calls ch)"
      "\<And>j. j \<noteq> k \<Longrightarrow> au_calls au' j = au_calls au j" for au' d ch
    using ok [OF that(1)] by (rule enable_chain_mono) (use that in \<open>metis\<close>)
  have "enable_chain_ok (fst (pk_call_cb (manager_done gs) k r w)) ch"
    if ch: "au_chains (fst (pk_call_cb (manager_done gs) k r w)) d = Some ch" for d ch
  proof (cases "au_calls au k")
    case None
    then show ?thesis
      using ch ok by (simp add: w pk_call_cb_def)
  next
    case (Some call)
    show ?thesis
    proof (cases "call_disposed call")
      case True
      note eq = mgr.disposed_call [OF Some True, of gs r m]
      have d: "au_chains au d = Some ch"
        using ch by (simp add: w eq)
      have "k \<notin> set (ch_calls ch)"
        using auth_wf_chain [OF wf d] Some True by (auto simp: chain_ok_def)
      then show ?thesis
        unfolding w eq fst_conv by (rule other [OF d]) simp
    next
      case False
      then obtain ch0 where ch0: "au_chains au (call_chain call) = Some ch0" "k \<in> set (ch_calls ch0)"
        using auth_wf_call [OF wf Some] by (auto simp: call_ok_def)
      have elsewhere: "k \<notin> set (ch_calls ch)" if "au_chains au d = Some ch" "d \<noteq> call_chain call"
        using auth_wf_chain [OF wf that(1)] Some that(2) by (auto simp: chain_ok_def)
      show ?thesis
      proof (cases "remove1 k (ch_calls ch0) = []")
        case True
        have "ch_refcount ch0 = 1"
          using auth_wf_chain [OF wf ch0(1)] by (simp add: chain_ok_def)
        note eq = mgr.call_last [OF Some False ch0(1) this True, of gs r m]
        have d: "au_chains au d = Some ch" "d \<noteq> call_chain call"
          using ch by (auto simp: w eq split: if_splits)
        show ?thesis
          unfolding w by (rule other [OF d(1) elsewhere [OF d]]) (simp add: eq)
      next
        case more: False
        note eq = mgr.call_not_last [OF Some False ch0(1) more, of gs r m]
        show ?thesis
        proof (cases "d = call_chain call")
          case True
          then have "ch = record_reply k (call_permission call) r ch0"
            using ch ch0(1) by (simp add: w eq)
          moreover have "\<not> (\<exists>context. ch_done ch0 = ENABLE_NET_DONE context)"
            using ok [OF ch0(1)] ch0(2) more by (auto simp: enable_chain_ok_def)
          ultimately show ?thesis
            by (simp add: enable_chain_ok_def)
        next
          case other_chain: False
          then have d: "au_chains au d = Some ch"
            using ch by (simp add: w eq)
          show ?thesis
            unfolding w eq fst_conv by (rule other [OF d elsewhere [OF d other_chain]]) simp
        qed
      qed
    qed
  qed
  then show ?thesis
    using wf' by (simp add: chains_inv_def)
qed

section \<open>What the handlers leave alone\<close>

lemma pk_call_manager:
  "P (snd w) \<Longrightarrow> (\<And>f c e au. P (snd (run f c e (au, snd w)))) \<Longrightarrow> P (snd (pk_call_cb run k r w))"
  by (cases w) (auto simp: pk_call_cb_def bm_auth_chain_check_done_def split: option.split)

lemma user_settings_fields [simp]:
  "mg_devices (snd (user_settings_authorized c au m)) = mg_devices m"
  "mg_devcount (snd (user_settings_authorized c au m)) = mg_devcount m"
  "mg_counters (snd (user_settings_authorized c au m)) = mg_counters m"
  "mg_calls (snd (user_settings_authorized c au m)) = mg_calls m"
  "mg_next (snd (user_settings_authorized c au m)) = mg_next m"
  "mg_authority (snd (user_settings_authorized c au m)) = mg_authority m"
  "mg_user_connections (snd (user_settings_authorized c au m)) = mg_user_connections m"
  "mg_user_proxy (snd (user_settings_authorized c au m)) = mg_user_proxy m"
  "mg_net_enabled (snd (user_settings_authorized c au m)) = mg_net_enabled m"
  by (simp_all add: user_settings_authorized_def Let_def)

lemma manager_done_fields [simp]:
  "mg_devices (snd (manager_done gs f c e w)) = mg_devices (snd w)"
  "mg_devcount (snd (manager_done gs f c e w)) = mg_devcount (snd w)"
  "mg_counters (snd (manager_done gs f c e w)) = mg_counters (snd w)"
  "mg_calls (snd (manager_done gs f c e w)) = mg_calls (snd w)"
  "mg_next (snd (manager_done gs f c e w)) = mg_next (snd w)"
  "mg_authority (snd (manager_done gs f c e w)) = mg_authority (snd w)"
  by (cases f; cases e; cases "user_settings_authorized c (fst w) ((snd w)\<lparr>mg_auth_chains := remove1 c (mg_auth_chains (snd w))\<rparr>)";
      use user_settings_fields [of c "fst w" "(snd w)\<lparr>mg_auth_chains := remove1 c (mg_auth_chains (snd w))\<rparr>"] in
        \<open>simp add: manager_done_def user_proxy_auth_done_def enable_net_done_cb_def Let_def split: option.split\<close>)+

lemma pk_call_fields [simp]:
  "mg_devices (snd (pk_call_cb (manager_done gs) k r w)) = mg_devices (snd w)"
  "mg_devcount (snd (pk_call_cb (manager_done gs) k r w)) = mg_devcount (snd w)"
  "mg_counters (snd (pk_call_cb (manager_done gs) k r w)) = mg_counters (snd w)"
  "mg_calls (snd (pk_call_cb (manager_done gs) k r w)) = mg_calls (snd w)"
  "mg_next (snd (pk_call_cb (manager_done gs) k r w)) = mg_next (snd w)"
  "mg_authority (snd (pk_call_cb (manager_done gs) k r w)) = mg_authority (snd w)"
  by (rule pk_call_manager; simp)+

lemma proxy_init_fields [simp]:
  "mg_devices (snd (user_proxy_init has_owner proxy w)) = mg_devices (snd w)"
  "mg_devcount (snd (user_proxy_init has_owner proxy w)) = mg_devcount (snd w)"
  "mg_counters (snd (user_proxy_init has_owner proxy w)) = mg_counters (snd w)"
  "mg_calls (snd (user_proxy_init has_owner proxy w)) = mg_calls (snd w)"
  "mg_next (snd (user_proxy_init has_owner proxy w)) = mg_next (snd w)"
  "mg_authority (snd (user_proxy_init has_owner proxy w)) = mg_authority (snd w)"
  by (cases rule: proxy_init_cases [of has_owner proxy w]; simp)+

lemma name_owner_fields [simp]:
  "mg_devices (snd (bm_manager_name_owner_changed n old new has_owner proxy w)) = mg_devices (snd w)"
  "mg_devcount (snd (bm_manager_name_owner_changed n old new has_owner proxy w)) = mg_devcount (snd w)"
  "mg_counters (snd (bm_manager_name_owner_changed n old new has_owner proxy w)) = mg_counters (snd w)"
  "mg_calls (snd (bm_manager_name_owner_changed n old new has_owner proxy w)) = mg_calls (snd w)"
  "mg_next (snd (bm_manager_name_owner_changed n old new has_owner proxy w)) = mg_next (snd w)"
  "mg_authority (snd (bm_manager_name_owner_changed n old new has_owner proxy w)) = mg_authority (snd w)"
  by (simp_all add: bm_manager_name_owner_changed_def Let_def)

lemma enable_fields [simp]:
  "mg_devices (snd (impl_manager_enable E b x sender w)) = mg_devices (snd w)"
  "mg_devcount (snd (impl_manager_enable E b x sender w)) = mg_devcount (snd w)"
  "mg_counters (snd (impl_manager_enable E b x sender w)) = mg_counters (snd w)"
  "mg_calls (snd (impl_manager_enable E b x sender w)) = mg_calls (snd w)"
  "mg_next (snd (impl_manager_enable E b x sender w)) = mg_next (snd w)"
  "mg_authority (snd (impl_manager_enable E b x sender w)) = mg_authority (snd w)"
  by (cases rule: enable_cases [of E b x sender w]; simp)+

section \<open>The table of user connections\<close>

definition cleared_or_same :: "manager \<Rightarrow> manager \<Rightarrow> bool" where
  "cleared_or_same m m' \<longleftrightarrow>
     mg_user_connections m' = mg_user_connections m \<or>
     mg_user_connections m' = map_option (\<lambda>_. gh_new) (mg_user_connections m)"

lemma cleared_table: "cleared_or_same m m' \<Longrightarrow> user_table_ok m \<Longrightarrow> user_table_ok m'"
  by (auto simp: cleared_or_same_def user_table_ok_def ght.invar_new ght.look_new)

lemma done_cleared: "cleared_or_same (snd w) (snd (manager_done gs f c e w))"
proof -
  let ?m = "(snd w)\<lparr>mg_auth_chains := remove1 c (mg_auth_chains (snd w))\<rparr>"
  show ?thesis
    using user_settings_fields(7) [of c "fst w" ?m]
    by (cases f; cases e; cases "user_settings_authorized c (fst w) ?m")
       (simp_all add: cleared_or_same_def manager_done_def user_proxy_auth_done_def enable_net_done_cb_def
         Let_def split: option.split)
qed

lemma pk_call_cleared: "cleared_or_same (snd w) (snd (pk_call_cb (manager_done gs) k r w))"
  by (rule pk_call_manager [of "cleared_or_same (snd w)"])
     (use done_cleared [of "(au, snd w)" for au] in \<open>simp_all add: cleared_or_same_def\<close>)

lemma name_owner_cleared: "cleared_or_same (snd w) (snd (bm_manager_name_owner_changed n old new has_owner proxy w))"
  by (cases rule: proxy_init_cases [of has_owner proxy w])
     (simp_all add: bm_manager_name_owner_changed_def cleared_or_same_def Let_def)

lemma start_cleared: "cleared_or_same (snd w) (snd (bm_manager_start has_owner proxy [] w))"
  unfolding start_empty
  by (cases rule: proxy_init_cases [of has_owner proxy w]) (simp_all add: cleared_or_same_def)

lemma enable_cleared: "cleared_or_same (snd w) (snd (impl_manager_enable E b x sender w))"
  by (cases rule: enable_cases [of E b x sender w]) (simp_all add: cleared_or_same_def)

lemma finish_fields [simp]:
  "mg_user_connections (finish_get_settings i info m) = mg_user_connections m"
  "mg_user_proxy (finish_get_settings i info m) = mg_user_proxy m"
  "mg_devices (finish_get_settings i info m) = mg_devices m"
  "mg_devcount (finish_get_settings i info m) = mg_devcount m"
  "mg_net_enabled (finish_get_settings i info m) = mg_net_enabled m"
  "mg_authority (finish_get_settings i info m) = mg_authority m"
  by (simp_all add: finish_get_settings_def)

lemma new_cb_fields [simp]:
  "mg_user_connections (user_new_connection_cb p m) = mg_user_connections m"
  "mg_user_proxy (user_new_connection_cb p m) = mg_user_proxy m"
  "mg_devices (user_new_connection_cb p m) = mg_devices m"
  "mg_devcount (user_new_connection_cb p m) = mg_devcount m"
  "mg_net_enabled (user_new_connection_cb p m) = mg_net_enabled m"
  "mg_authority (user_new_connection_cb p m) = mg_authority m"
  by (simp_all add: user_new_connection_cb_def)

lemma handle_table [bm_inv]:
  assumes ok: "user_table_ok (snd w)"
  shows "user_table_ok (snd (handle E e w))"
proof (cases e)
  case (Ev_Enable b x sender)
  then show ?thesis using cleared_table [OF enable_cleared ok] by simp
next
  case (Ev_Polkit k r)
  then show ?thesis using cleared_table [OF pk_call_cleared ok] by simp
next
  case (Ev_Name_Owner n old new has_owner proxy)
  then show ?thesis using cleared_table [OF name_owner_cleared ok] by simp
next
  case (Ev_Start has_owner proxy)
  then show ?thesis using cleared_table [OF start_cleared ok] by simp
next
  case Ev_Proxy_Destroyed
  have "cleared_or_same (snd w) (user_proxy_destroyed_cb (snd w))"
    by (simp add: cleared_or_same_def)
  then show ?thesis using Ev_Proxy_Destroyed cleared_table [OF _ ok] by simp
next
  case (Ev_Get_Settings i reply)
  have "user_table_ok (finish_get_settings i info (user_connection_get_settings_cb E reply info (snd w)))" for info
    using get_settings_cb_table [OF ok] user_table_same [OF finish_fields(1)] by blast
  then show ?thesis using Ev_Get_Settings ok by (simp split: option.split)
next
  case (Ev_Updated path settings)
  then show ?thesis using updated_cb_table [OF ok] by simp
next
  case (Ev_Removed path)
  then show ?thesis using removed_cb_table [OF ok] by simp
qed (use ok in \<open>simp_all add: user_table_ok_def split: option.split\<close>)

section \<open>Devices and batches\<close>

lemma handle_devices [bm_inv]:
  assumes ok: "devices_ok n (snd w)" and en: "enabled e w"
  shows "devices_ok (n + devices_added e w) (snd (handle E e w))"
proof (cases e)
  case (Ev_Udev_Added creator)
  then show ?thesis
    using ok en add_device_ok [OF ok]
    by (auto simp: udev_device_added_cb_def devices_added_def split: option.split)
next
  case (Ev_Udev_Removed name)
  then show ?thesis using udev_removed_ok [OF ok] by (simp add: devices_added_def)
next
  case (Ev_Device_State i d s)
  then show ?thesis using device_state_ok [OF ok] en by (simp add: devices_added_def)
qed (use ok in \<open>simp_all add: devices_added_def devices_ok_def start_empty split: option.split\<close>)

lemma handle_batches [bm_inv]:
  assumes ok: "batches_ok (snd w)" and en: "enabled e w"
  shows "batches_ok (snd (handle E e w))"
proof (cases e)
  case (Ev_List_Reply reply)
  show ?thesis
  proof (cases reply)
    case None
    then show ?thesis using Ev_List_Reply ok by (simp add: user_list_connections_cb_def)
  next
    case (Some ops)
    then show ?thesis using Ev_List_Reply en list_cb_ok [OF ok] by simp
  qed
next
  case (Ev_New_Connection path)
  then show ?thesis using new_connection_ok [OF ok] by simp
next
  case (Ev_Get_Settings i reply)
  obtain info where i: "mg_calls (snd w) i = Some info"
    using en Ev_Get_Settings by auto
  let ?m = "user_connection_get_settings_cb E reply info (snd w)"
  have "batches_ok ?m"
    using ok batches_same [of ?m "snd w"] by simp
  then show ?thesis
    using Ev_Get_Settings i finish_ok [of ?m i info] by simp
next
  case (Ev_Get_Settings_Cancelled i)
  then show ?thesis using en finish_ok [OF ok] by auto
qed (use ok in \<open>simp_all add: batches_ok_def pending_def start_empty\<close>)

section \<open>The answer to an enable request\<close>

lemma enable_reply:
  assumes inv: "chains_inv au" and c: "au_chains au c = Some ch" "ch_done ch = ENABLE_NET_DONE context"
    and k: "k \<in> set (ch_calls ch)"
  shows "snd (pk_call_cb (manager_done gs) k r (au, m)) =
    (let m' = m\<lparr>mg_auth_chains := remove1 c (mg_auth_chains m)\<rparr>
     in case r of
          Pk_Error e \<Rightarrow> emit (METHOD_ERROR context (BM_MANAGER_ERROR_PERMISSION_DENIED (Denied_Request_Failed e))) m'
        | Pk_Result authorized challenge \<Rightarrow>
            if authorized
            then emit (METHOD_RETURN context) (internal_enable gs (bm_auth_chain_get_data c ''enable'' au \<noteq> 0) m')
            else emit (METHOD_ERROR context (BM_MANAGER_ERROR_PERMISSION_DENIED Denied_Not_Authorized)) m')"
    and "au_chains (fst (pk_call_cb (manager_done gs) k r (au, m))) c = None"
proof -
  have wf: "auth_wf au" and ok: "enable_chain_ok au ch"
    using inv c(1) by (auto simp: chains_inv_def)
  have calls: "ch_calls ch = [k]" and err: "ch_error ch = None"
    using ok c(2) k by (auto simp: enable_chain_ok_def)
  obtain call where call: "au_calls au k = Some call" "call_permission call = PERMISSION_ENABLE_DISABLE_NETWORK"
      "gh_lookup (ch_data ch) PERMISSION_ENABLE_DISABLE_NETWORK = None" "gh_wf (ch_data ch)"
    using ok c(2) calls by (auto simp: enable_chain_ok_def)
  have live: "call_chain call = c" "\<not> call_disposed call" and one: "ch_refcount ch = 1"
    using auth_wf_chain [OF wf c(1)] call(1) calls by (simp_all add: chain_ok_def)
  have ch: "au_chains au (call_chain call) = Some ch"
    using c(1) live(1) by simp
  note last = mgr.call_last [OF call(1) live(2) ch one, of gs r m]
  let ?p = PERMISSION_ENABLE_DISABLE_NETWORK
  let ?au = "callback_store k ?p r c au"
  have perm: "bm_auth_chain_get_data c ?p ?au =
      (case r of Pk_Error _ \<Rightarrow> 0 | Pk_Result _ _ \<Rightarrow> result_num (reply_result r))"
    using c(1) call(3,4)
    by (cases r) (simp_all add: bm_auth_chain_get_data_def callback_store_def record_reply_data ght.look_ins)
  have flag: "bm_auth_chain_get_data c ''enable'' ?au = bm_auth_chain_get_data c ''enable'' au"
    using c(1) call(4)
    by (cases r) (simp_all add: bm_auth_chain_get_data_def callback_store_def record_reply_data ght.look_ins
        PERMISSION_ENABLE_DISABLE_NETWORK_def)
  show "au_chains (fst (pk_call_cb (manager_done gs) k r (au, m))) c = None"
    using last(2) calls live(1) by simp
  have "snd (pk_call_cb (manager_done gs) k r (au, m)) =
      snd (enable_net_done_cb gs context c (ch_error (record_reply k ?p r ch)) (?au, m))"
    using last(1) calls by (simp add: live(1) call(2) c(2) manager_done_def)
  then show "snd (pk_call_cb (manager_done gs) k r (au, m)) =
    (let m' = m\<lparr>mg_auth_chains := remove1 c (mg_auth_chains m)\<rparr>
     in case r of
          Pk_Error e \<Rightarrow> emit (METHOD_ERROR context (BM_MANAGER_ERROR_PERMISSION_DENIED (Denied_Request_Failed e))) m'
        | Pk_Result authorized challenge \<Rightarrow>
            if authorized
            then emit (METHOD_RETURN context) (internal_enable gs (bm_auth_chain_get_data c ''enable'' au \<noteq> 0) m')
            else emit (METHOD_ERROR context (BM_MANAGER_ERROR_PERMISSION_DENIED Denied_Not_Authorized)) m')"
    using perm flag by (cases r) (auto simp: enable_net_done_cb_def err Let_def)
qed

lemma done_net:
  "mg_net_enabled (snd (manager_done gs f c e w)) \<noteq> mg_net_enabled (snd w) \<Longrightarrow> \<exists>context. f = ENABLE_NET_DONE context"
  using user_settings_fields(9) [of c "fst w" "(snd w)\<lparr>mg_auth_chains := remove1 c (mg_auth_chains (snd w))\<rparr>"]
  by (cases f; cases e; cases "user_settings_authorized c (fst w) ((snd w)\<lparr>mg_auth_chains := remove1 c (mg_auth_chains (snd w))\<rparr>)")
     (auto simp: manager_done_def user_proxy_auth_done_def Let_def split: option.splits if_splits)

text \<open>The setting changes only when the permission to do so was granted.\<close>

lemma pk_call_net:
  assumes inv: "chains_inv (fst w)"
    and change: "mg_net_enabled (snd (pk_call_cb (manager_done gs) k r w)) \<noteq> mg_net_enabled (snd w)"
  shows "\<exists>challenge call ch context. r = Pk_Result True challenge \<and> au_calls (fst w) k = Some call \<and>
    call_permission call = PERMISSION_ENABLE_DISABLE_NETWORK \<and>
    au_chains (fst w) (call_chain call) = Some ch \<and> ch_done ch = ENABLE_NET_DONE context"
proof -
  obtain au m where w: "w = (au, m)" by (cases w)
  have wf: "auth_wf au"
    using inv by (simp add: w chains_inv_def)
  obtain call where call: "au_calls au k = Some call"
    using change by (cases "au_calls au k") (auto simp: w pk_call_cb_def)
  have live: "\<not> call_disposed call"
    using change mgr.disposed_call [OF call] by (auto simp: w)
  then obtain ch where ch: "au_chains au (call_chain call) = Some ch" "k \<in> set (ch_calls ch)"
    using auth_wf_call [OF wf call] by (auto simp: call_ok_def)
  have last: "remove1 k (ch_calls ch) = []"
    using change mgr.call_not_last [OF call live ch(1), of gs r m]
    by (cases "remove1 k (ch_calls ch) = []") (simp_all add: w)
  have one: "ch_refcount ch = 1"
    using auth_wf_chain [OF wf ch(1)] by (simp add: chain_ok_def)
  obtain x where f: "ch_done ch = ENABLE_NET_DONE x"
    using change mgr.call_last(1) [OF call live ch(1) one last, of gs r m] done_net
    by (fastforce simp: w)
  have "call_permission call = PERMISSION_ENABLE_DISABLE_NETWORK"
    using inv ch f call by (fastforce simp: w chains_inv_def enable_chain_ok_def)
  moreover have "\<exists>challenge. r = Pk_Result True challenge"
    using change enable_reply(1) [OF _ ch(1) f ch(2), of gs r m] inv
    by (cases r) (auto simp: w Let_def split: if_splits)
  ultimately show ?thesis
    using call ch(1) f by (auto simp: w)
qed

lemma handle_chains [bm_inv]:
  assumes inv: "chains_inv (fst w)"
  shows "chains_inv (fst (handle E e w))"
proof (cases e)
  case (Ev_Name_Owner n old new has_owner proxy)
  then show ?thesis
    using chains_inv_proxy_init [OF inv] inv by (simp add: bm_manager_name_owner_changed_def Let_def)
next
  case (Ev_Start has_owner proxy)
  then show ?thesis
    using chains_inv_proxy_init [OF inv] by (simp add: start_empty)
qed (use inv chains_inv_enable [OF inv] chains_inv_pk_call [OF inv] in \<open>simp_all split: option.split\<close>)

section \<open>Reachable worlds\<close>

lemma init_fields:
  "fst (world_init a ne sf) = auth_init" "mg_authority (snd (world_init a ne sf)) = a"
  "mg_user_connections (snd (world_init a ne sf)) = Some gh_new" "mg_user_proxy (snd (world_init a ne sf)) = None"
  "mg_calls (snd (world_init a ne sf)) = (\<lambda>_. None)" "mg_counters (snd (world_init a ne sf)) = (\<lambda>_. None)"
  "mg_devices (snd (world_init a ne sf)) = []" "mg_devcount (snd (world_init a ne sf)) = 0"
  by (simp_all add: world_init_def bm_manager_init_def)

lemma chains_init: "chains_inv auth_init"
  using auth_wf_init by (simp add: chains_inv_def) (simp add: auth_init_def)

lemma reachable_chains: "reachable E (world_init a ne sf) n w \<Longrightarrow> chains_inv (fst w)"
  by (induction rule: reachable.induct) (simp_all add: init_fields chains_init handle_chains)

lemma reachable_table: "reachable E (world_init a ne sf) n w \<Longrightarrow> user_table_ok (snd w)"
  by (induction rule: reachable.induct)
     (simp_all add: user_table_ok_def [of "snd (world_init a ne sf)"] init_fields ght.invar_new ght.look_new handle_table)

lemma reachable_devices: "reachable E (world_init a ne sf) n w \<Longrightarrow> devices_ok n (snd w)"
  by (induction rule: reachable.induct)
     (simp_all add: devices_ok_def [of 0] init_fields handle_devices)

lemma reachable_batches: "reachable E (world_init a ne sf) n w \<Longrightarrow> batches_ok (snd w)"
  by (induction rule: reachable.induct)
     (simp_all add: batches_ok_def [of "snd (world_init a ne sf)"] init_fields handle_batches)

lemma handle_authority [simp]: "mg_authority (snd (handle E e w)) = mg_authority (snd w)"
  by (cases e) (simp_all add: start_empty split: option.split)

lemma reachable_authority: "reachable E (world_init a ne sf) n w \<Longrightarrow> mg_authority (snd w) = a"
  by (induction rule: reachable.induct) (simp_all add: init_fields)

text \<open>A list of events, run one after the other.\<close>

fun run_events :: "env \<Rightarrow> event list \<Rightarrow> world \<Rightarrow> world" where
  "run_events E [] w = w"
| "run_events E (e # es) w = run_events E es (handle E e w)"

fun all_enabled :: "env \<Rightarrow> event list \<Rightarrow> world \<Rightarrow> bool" where
  "all_enabled E [] w = True"
| "all_enabled E (e # es) w = (enabled e w \<and> all_enabled E es (handle E e w))"

fun all_added :: "env \<Rightarrow> event list \<Rightarrow> world \<Rightarrow> nat" where
  "all_added E [] w = 0"
| "all_added E (e # es) w = devices_added e w + all_added E es (handle E e w)"

lemma reachable_run:
  "reachable E w0 n w \<Longrightarrow> all_enabled E es w \<Longrightarrow> reachable E w0 (n + all_added E es w) (run_events E es w)"
proof (induction es arbitrary: n w)
  case (Cons e es)
  then show ?case
    using Cons.IH [OF reachable.step [of E w0 n w e]] by (simp add: add.assoc)
qed simp

end
