(* ===== verification/Manager_Properties.thy ===== *)
theory Manager_Properties
  imports Manager_Events
begin

text \<open>
  What the manager guarantees in every world it can reach, and the sample runs that show that
  these worlds are not empty.
\<close>

section \<open>Sample runs\<close>

definition sample_env :: env where
  "sample_env = \<lparr>env_gt = sample_gt, env_tr = (\<lambda>_ _. None), env_gs = dev_state, env_connected = True,
     env_unix_user = (\<lambda>s. Some (if s = '':1.0'' then 0 else 1000))\<rparr>"

lemmas eval_auth = bm_auth_chain_new_def bm_auth_chain_add_call_def update_chain_def pk_call_cb_def
  bm_auth_chain_check_done_def record_reply_def default_call_func_def chain_set_data_def
  bm_auth_chain_unref_def polkit_call_free_def polkit_call_cancel_def bm_auth_chain_get_data_def
  bm_auth_chain_set_data_def auth_init_def gh_simps ght.invar_new ght.invar_ins ght.invar_del

lemmas eval_manager = world_init_def bm_manager_init_def start_empty user_proxy_init_def
  manager_done_def user_proxy_auth_done_def user_settings_authorized_def emit_def
  PERMISSION_USE_USER_CONNECTIONS_def PERMISSION_NETWORK_CONTROL_def PERMISSION_ENABLE_DISABLE_NETWORK_def

text \<open>The user settings service is found and authorized, and lists two connections.\<close>

definition authorized_events :: "event list" where
  "authorized_events = [Ev_Start True (Some '':1.5''), Ev_Polkit 1 (Pk_Result True False),
     Ev_Polkit 2 (Pk_Result False True)]"

definition listing_events :: "event list" where
  "listing_events = authorized_events @ [Ev_List_Reply (Some [''/c/1'', ''/c/2''])]"

lemma run_append: "run_events E (es @ fs) w = run_events E fs (run_events E es w)"
  by (induction es arbitrary: w) simp_all

lemma all_enabled_append:
  "all_enabled E (es @ fs) w \<longleftrightarrow> all_enabled E es w \<and> all_enabled E fs (run_events E es w)"
  by (induction es arbitrary: w) simp_all

lemma all_added_append: "all_added E (es @ fs) w = all_added E es w + all_added E fs (run_events E es w)"
  by (induction es arbitrary: w) simp_all

definition authorized_manager :: manager where
  "authorized_manager =
     bm_manager_init\<lparr>mg_authority := True, mg_user_proxy := Some \<lparr>up_owner = '':1.5'', up_connected = True\<rparr>,
       mg_user_con_perm := 1, mg_user_net_perm := 2, mg_out := [USER_PERMISSIONS_CHANGED, LIST_CONNECTIONS]\<rparr>"

lemma authorized_run:
  "all_enabled E authorized_events (world_init True True None)"
  "snd (run_events E authorized_events (world_init True True None)) = authorized_manager"
  "all_added E authorized_events (world_init True True None) = 0"
  by (simp_all add: authorized_events_def authorized_manager_def eval_auth eval_manager devices_added_def)

definition listing_manager :: manager where
  "listing_manager = user_list_connections_cb (Some [''/c/1'', ''/c/2'']) authorized_manager"

lemma listing_run:
  "all_enabled E listing_events (world_init True True None)"
  "snd (run_events E listing_events (world_init True True None)) = listing_manager"
  "all_added E listing_events (world_init True True None) = 0"
  by (simp_all add: listing_events_def listing_manager_def all_enabled_append run_append all_added_append
      authorized_run devices_added_def proxy_connected_def) (simp add: authorized_manager_def)

lemma listing_reachable:
  "reachable E (world_init True True None) 0 (run_events E listing_events (world_init True True None))"
  using reachable_run [OF reachable.start listing_run(1)] by (simp add: listing_run(3))

lemma listing_fields:
  "mg_calls listing_manager 1 = Some \<lparr>gi_path = ''/c/1'', gi_connection = None, gi_calls = Some 0\<rparr>"
  "mg_calls listing_manager 2 = Some \<lparr>gi_path = ''/c/2'', gi_connection = None, gi_calls = Some 0\<rparr>"
  "mg_user_connections listing_manager = Some gh_new" "mg_authority listing_manager"
  "mg_out listing_manager = [USER_PERMISSIONS_CHANGED, LIST_CONNECTIONS, GET_SETTINGS ''/c/1'', GET_SETTINGS ''/c/2'']"
  by (simp_all add: listing_manager_def authorized_manager_def bm_manager_init_def user_list_connections_cb_def
      user_internal_new_connection_cb_def emit_def)

text \<open>The settings of the second connection arrive.\<close>

definition stored_world :: world where
  "stored_world = handle sample_env (Ev_Get_Settings 2 (Some sample_settings))
     (run_events sample_env listing_events (world_init True True None))"

lemma stored_reachable: "reachable sample_env (world_init True True None) 0 stored_world"
proof -
  have "enabled (Ev_Get_Settings 2 (Some sample_settings)) (run_events sample_env listing_events (world_init True True None))"
    by (simp add: listing_run(2) listing_fields)
  then show ?thesis
    using reachable.step [OF listing_reachable, of "Ev_Get_Settings 2 (Some sample_settings)" sample_env]
    by (simp add: devices_added_def stored_world_def)
qed

lemma stored_connection: "\<exists>c. ht_lookup (mg_user_connections (snd stored_world)) ''/c/2'' = Some c"
proof -
  obtain d where "bm_connection_new_from_hash (env_tr sample_env) sample_settings = Inr d"
    using new_from_sample_settings by blast
  then show ?thesis
    by (simp add: stored_world_def listing_run(2) listing_fields user_connection_get_settings_cb_def ht_lookup_def
        gh_simps ght.invar_new Let_def)
qed

section \<open>User connections\<close>

text \<open>C1: In every world the manager can reach, each user connection is filed under its own D-Bus path,
  has user scope and passes verification, whatever the services sent and in whatever order the
  replies, updates and removals arrived.\<close>

theorem user_connections_valid:
  assumes "reachable E (world_init authority net_enabled state_file) n w"
    and "ht_lookup (mg_user_connections (snd w)) path = Some c"
  shows "conn_path c = Some path \<and> conn_scope c = BM_CONNECTION_SCOPE_USER \<and> bm_connection_verify c = Inr ()"
  using user_table_lookup [OF reachable_table [OF assms(1)] assms(2)] by (simp add: user_connection_ok_def)

theorem user_connections_valid_witness:
  "\<exists>c. ht_lookup (mg_user_connections (snd stored_world)) ''/c/2'' = Some c \<and> conn_path c = Some ''/c/2'' \<and>
     bm_connection_verify c = Inr ()"
  using stored_connection user_connections_valid [OF stored_reachable] by blast

section \<open>Networking\<close>

text \<open>C2: Whether networking is enabled changes only when root asks for it, or when PolicyKit grants the
  permission to do so to the chain of a pending request; no other event changes it.\<close>

theorem networking_needs_permission:
  assumes "reachable E (world_init authority net_enabled state_file) n w" "enabled e w"
    and "mg_net_enabled (snd (handle E e w)) \<noteq> mg_net_enabled (snd w)"
  shows "(\<exists>enable x s. e = Ev_Enable enable x (Some s) \<and> env_unix_user E s = Some 0) \<or>
    (\<exists>k challenge call ch x. e = Ev_Polkit k (Pk_Result True challenge) \<and> authority \<and>
       au_calls (fst w) k = Some call \<and> call_permission call = PERMISSION_ENABLE_DISABLE_NETWORK \<and>
       au_chains (fst w) (call_chain call) = Some ch \<and> ch_done ch = ENABLE_NET_DONE x)"
proof (cases e)
  case (Ev_Enable enable x sender)
  then show ?thesis
    using assms(3) by (cases rule: enable_cases [of E enable x sender w]) simp_all
next
  case (Ev_Polkit k r)
  then show ?thesis
    using pk_call_net [OF reachable_chains [OF assms(1)], of "env_gs E" k r] assms(2,3)
      reachable_authority [OF assms(1)] by auto
next
  case (Ev_Name_Owner name old new has_owner proxy)
  then show ?thesis
    using assms(3)
    by (cases rule: proxy_init_cases [of has_owner proxy w])
       (simp_all add: bm_manager_name_owner_changed_def Let_def split: if_splits)
next
  case (Ev_Start has_owner proxy)
  then show ?thesis
    using assms(3) by (cases rule: proxy_init_cases [of has_owner proxy w]) (simp_all add: start_empty)
qed (use assms(3) in \<open>simp_all split: option.splits\<close>)

text \<open>A user's request to disable networking is pending.\<close>

definition asking_events :: "event list" where
  "asking_events = [Ev_Enable False 7 (Some '':1.9'')]"

lemma asking_run:
  "all_enabled sample_env asking_events (world_init True True None)"
  "all_added sample_env asking_events (world_init True True None) = 0"
  "run_events sample_env asking_events (world_init True True None) =
     (let au = bm_auth_chain_add_call 0 PERMISSION_ENABLE_DISABLE_NETWORK True
                 (snd (bm_auth_chain_new (Some '':1.9'') (ENABLE_NET_DONE 7) auth_init))
      in (au, bm_manager_init\<lparr>mg_authority := True, mg_auth_chains := [0]\<rparr>))"
  by (simp_all add: asking_events_def devices_added_def impl_manager_enable_def bm_auth_get_caller_uid_def
      sample_env_def return_no_pk_error_def eval_auth world_init_def bm_manager_init_def
      gh_remove_def gh_new_def)

lemma asking_reachable:
  "reachable sample_env (world_init True True None) 0 (run_events sample_env asking_events (world_init True True None))"
  using reachable_run [OF reachable.start asking_run(1)] by (simp add: asking_run(2))

lemma asking_chain:
  "au_chains (fst (run_events sample_env asking_events (world_init True True None))) 0 =
     Some \<lparr>ch_refcount = 1, ch_calls = [1], ch_data = gh_new, ch_error = None, ch_owner = '':1.9'',
       ch_done = ENABLE_NET_DONE 7\<rparr>"
  "mg_authority (snd (run_events sample_env asking_events (world_init True True None)))"
  "mg_net_enabled (snd (run_events sample_env asking_events (world_init True True None)))"
  by (simp_all add: asking_run Let_def bm_manager_init_def)
     (simp add: bm_auth_chain_add_call_def bm_auth_chain_new_def auth_init_def)



theorem networking_needs_permission_witness:
  "let w = run_events sample_env asking_events (world_init True True None)
   in mg_net_enabled (snd (handle sample_env (Ev_Polkit 1 (Pk_Result True False)) w)) \<noteq> mg_net_enabled (snd w) \<and>
      (\<exists>call ch x. au_calls (fst w) 1 = Some call \<and> call_permission call = PERMISSION_ENABLE_DISABLE_NETWORK \<and>
         au_chains (fst w) (call_chain call) = Some ch \<and> ch_done ch = ENABLE_NET_DONE x)"
proof -
  let ?w = "run_events sample_env asking_events (world_init True True None)"
  have "bm_auth_chain_get_data 0 ''enable'' (fst ?w) = 0"
    by (simp add: bm_auth_chain_get_data_def asking_chain ght.look_new)
  then have "\<not> mg_net_enabled (snd (handle sample_env (Ev_Polkit 1 (Pk_Result True False)) ?w))"
    using enable_reply(1) [OF reachable_chains [OF asking_reachable] asking_chain(1), of 7 1 "env_gs sample_env"
        "Pk_Result True False" "snd ?w"]
    by (simp add: Let_def)
  then show ?thesis
    using networking_needs_permission [OF asking_reachable, of "Ev_Polkit 1 (Pk_Result True False)"]
      asking_chain(2,3) by (auto simp: Let_def)
qed

section \<open>The manager without an authority\<close>

text \<open>Nothing in the program sets the manager's authority, so this is the manager that runs.\<close>

definition no_services :: "manager \<Rightarrow> bool" where
  "no_services m \<longleftrightarrow>
     mg_user_connections m = Some gh_new \<and> mg_calls m = (\<lambda>_. None) \<and> \<not> proxy_connected m"

lemma no_services_handle:
  assumes no: "no_services (snd w)" and au: "\<not> mg_authority (snd w)" and en: "enabled e w"
  shows "no_services (snd (handle E e w))"
proof (cases e)
  case (Ev_Enable b x sender)
  then show ?thesis
    using no by (cases rule: enable_cases [of E b x sender w]) (simp_all add: no_services_def proxy_connected_def)
next
  case (Ev_Name_Owner name old new has_owner proxy)
  then show ?thesis
    using no by (cases rule: proxy_init_cases [of has_owner proxy w])
      (simp_all add: no_services_def proxy_connected_def bm_manager_name_owner_changed_def Let_def)
next
  case (Ev_Start has_owner proxy)
  then show ?thesis
    using no by (cases rule: proxy_init_cases [of has_owner proxy w])
      (simp_all add: no_services_def proxy_connected_def start_empty)
next
  case (Ev_Updated path settings)
  then show ?thesis
    using no by (simp add: no_services_def user_connection_updated_cb_def ht_lookup_def ght.look_new)
next
  case (Ev_Removed path)
  then show ?thesis
    using no by (simp add: no_services_def user_connection_removed_cb_def ht_lookup_def ght.look_new)
qed (use no au en in \<open>simp_all add: no_services_def proxy_connected_def split: option.split\<close>)

lemma reachable_no_services:
  "reachable E (world_init False ne sf) n w \<Longrightarrow> no_services (snd w)"
proof (induction rule: reachable.induct)
  case start
  show ?case
    by (simp add: no_services_def init_fields proxy_connected_def)
next
  case (step n w e)
  then show ?case
    using no_services_handle reachable_authority by blast
qed

lemma enable_without_authority:
  assumes "\<not> mg_authority (snd w)" "env_unix_user E s \<noteq> Some 0"
  shows "\<exists>e. impl_manager_enable E enable request (Some s) w = (fst w, emit (METHOD_ERROR request e) (snd w))"
proof (cases "mg_net_enabled (snd w) = enable")
  case True
  then show ?thesis
    by (auto simp: impl_manager_enable_def Let_def)
next
  case False
  show ?thesis
  proof (cases "bm_auth_get_caller_uid (Some s) (env_connected E) (env_unix_user E)")
    case (Inl desc)
    then show ?thesis
      using False by (auto simp: impl_manager_enable_def Let_def)
  next
    case (Inr uid)
    then have "uid \<noteq> 0"
      using assms(2) by (auto simp: bm_auth_get_caller_uid_def split: if_splits option.splits)
    then show ?thesis
      using False Inr assms(1) by (auto simp: impl_manager_enable_def return_no_pk_error_def Let_def)
  qed
qed

text \<open>A manager without an authority, as the daemon creates it, never has a user connection and never
  asks a user settings service for one, whatever happens; it refuses every request to switch
  networking that does not come from root.\<close>

theorem no_authority_no_user_connections:
  assumes "reachable E (world_init False net_enabled state_file) n w"
  shows "mg_user_connections (snd w) = Some gh_new \<and> \<not> proxy_connected (snd w) \<and> mg_calls (snd w) i = None \<and>
    (env_unix_user E s \<noteq> Some 0 \<longrightarrow>
       (\<exists>e. handle E (Ev_Enable enable request (Some s)) w = (fst w, emit (METHOD_ERROR request e) (snd w))))"
proof -
  have "\<exists>e. handle E (Ev_Enable enable request (Some s)) w = (fst w, emit (METHOD_ERROR request e) (snd w))"
    if "env_unix_user E s \<noteq> Some 0"
    using enable_without_authority [OF _ that] reachable_authority [OF assms] by simp
  then show ?thesis
    using reachable_no_services [OF assms] by (simp add: no_services_def)
qed

theorem no_authority_no_user_connections_witness:
  "\<exists>e. handle sample_env (Ev_Enable False 7 (Some '':1.9'')) (world_init False True None) =
     (fst (world_init False True None), emit (METHOD_ERROR 7 e) (snd (world_init False True None)))"
proof -
  have "env_unix_user sample_env '':1.9'' \<noteq> Some 0"
    by (simp add: sample_env_def)
  then show ?thesis
    using no_authority_no_user_connections [OF reachable.start] by blast
qed

section \<open>Devices\<close>

text \<open>C12: Until \<open>2 ^ 32\<close> devices were added, no two devices of the manager have the same object path, and
  looking up the path of a device finds this device.\<close>

theorem device_paths_unique:
  assumes "reachable E (world_init authority net_enabled state_file) n w" "n \<le> 2 ^ 32"
  shows "distinct (map dev_path (mg_devices (snd w))) \<and>
    (\<forall>d \<in> set (mg_devices (snd w)). \<exists>path.
       bm_device_get_path d = Some path \<and> bm_manager_get_device_by_path (snd w) path = Some d)"
proof -
  have ok: "devices_ok n (snd w)"
    by (rule reachable_devices [OF assms(1)])
  then have dist: "distinct (map dev_path (mg_devices (snd w)))"
    using assms(2) by (simp add: devices_ok_def)
  have "bm_manager_get_device_by_path (snd w) path = Some d"
    if d: "d \<in> set (mg_devices (snd w))" "dev_path d = Some path" for d path
  proof -
    have "find (\<lambda>e. dev_path e = Some path) ds = Some d" if "d \<in> set ds" "distinct (map dev_path ds)" for ds
      using that d(2) by (induction ds) (auto, metis image_eqI)
    then show ?thesis
      using d(1) dist by (simp add: bm_manager_get_device_by_path_def bm_device_get_path_def)
  qed
  then show ?thesis
    using ok dist unfolding devices_ok_def bm_device_get_path_def by blast
qed

definition sample_device :: "cstr \<Rightarrow> device" where
  "sample_device iface = bm_device_init\<lparr>dev_udi := Some ''/u'', dev_iface := iface, dev_type_desc := Some ''Hidraw'',
     dev_initialized := True\<rparr>"

definition device_events :: "event list" where
  "device_events = [Ev_Udev_Added (\<lambda>_. Some (sample_device (Some ''hidraw0''))),
     Ev_Udev_Added (\<lambda>_. Some (sample_device (Some ''hidraw1'')))]"

lemma device_run:
  "all_enabled E device_events (world_init a ne None)" "all_added E device_events (world_init a ne None) = 2"
  "map dev_iface (mg_devices (snd (run_events E device_events (world_init a ne None)))) = [Some ''hidraw0'', Some ''hidraw1'']"
  by (simp_all add: device_events_def sample_device_def bm_device_init_def devices_added_def
      udev_device_added_cb_def add_device_def bm_device_get_type_desc_def bm_device_set_path_def
      Let_def init_fields)

theorem device_paths_unique_witness:
  "let w = run_events sample_env device_events (world_init False True None)
   in length (mg_devices (snd w)) = 2 \<and> distinct (map dev_path (mg_devices (snd w)))"
proof -
  have "length (mg_devices (snd (run_events sample_env device_events (world_init False True None)))) = 2"
    using arg_cong [OF device_run(3) [of sample_env False True], of length] by simp
  moreover have "reachable sample_env (world_init False True None) (0 + 2)
      (run_events sample_env device_events (world_init False True None))"
    using reachable_run [OF reachable.start device_run(1)] by (simp add: device_run(2))
  ultimately show ?thesis
    using device_paths_unique [of sample_env False True None "0 + 2"] by (simp add: Let_def)
qed

section \<open>Batches of replies\<close>

text \<open>C6: When a call of a batch ends, with any reply or none, \<^verbatim>\<open>connections-added\<close> is sent exactly if it was
  the last pending call of its batch, and no single \<^verbatim>\<open>connection-added\<close> is sent for it.\<close>

theorem batch_signals_at_the_end:
  assumes "reachable E (world_init authority net_enabled state_file) n w"
    and "mg_calls (snd w) i = Some info" "gi_calls info = Some batch"
    and "e = Ev_Get_Settings i reply \<or> e = Ev_Get_Settings_Cancelled i"
  shows "mg_out (snd (handle E e w)) = mg_out (snd w) @
    (if pending batch (snd w) = {i} then [CONNECTIONS_ADDED BM_CONNECTION_SCOPE_USER] else [])"
proof -
  have ok: "batches_ok (snd w)"
    by (rule reachable_batches [OF assms(1)])
  let ?m = "user_connection_get_settings_cb E reply info (snd w)"
  have quiet: "mg_out ?m = mg_out (snd w)"
    using assms(3) by (simp add: user_connection_get_settings_cb_def Let_def split: option.split sum.split)
  have ok': "batches_ok ?m"
    using ok batches_same [of ?m "snd w"] by simp
  have pend: "pending batch ?m = pending batch (snd w)"
    by (simp add: pending_def)
  have reply: "mg_out (finish_get_settings i info ?m) = mg_out (snd w) @
      (if pending batch (snd w) = {i} then [CONNECTIONS_ADDED BM_CONNECTION_SCOPE_USER] else [])"
    using finish_batch [OF ok', of i info batch] assms(2,3) by (simp add: pend quiet)
  have cancelled: "mg_out (finish_get_settings i info (snd w)) = mg_out (snd w) @
      (if pending batch (snd w) = {i} then [CONNECTIONS_ADDED BM_CONNECTION_SCOPE_USER] else [])"
    using finish_batch [OF ok assms(2,3)] by simp
  show ?thesis
    using assms(4)
    by (elim disjE) (simp_all only: handle.simps assms(2) option.case snd_apsnd reply cancelled)
qed

theorem batch_signals_at_the_end_witness:
  "\<exists>w1. w1 = handle sample_env (Ev_Get_Settings_Cancelled 2) (run_events sample_env listing_events (world_init True True None)) \<and>
     mg_out (snd w1) = [USER_PERMISSIONS_CHANGED, LIST_CONNECTIONS, GET_SETTINGS ''/c/1'', GET_SETTINGS ''/c/2'']"
proof -
  let ?w = "run_events sample_env listing_events (world_init True True None)"
  have "1 \<in> pending 0 (snd ?w)"
    using listing_fields(1) by (simp add: pending_def listing_run(2))
  then have "pending 0 (snd ?w) \<noteq> {2}"
    by auto
  moreover have "mg_calls (snd ?w) 2 = Some \<lparr>gi_path = ''/c/2'', gi_connection = None, gi_calls = Some 0\<rparr>"
    by (simp add: listing_run(2) listing_fields)
  ultimately show ?thesis
    using batch_signals_at_the_end [where i = 2 and batch = 0 and e = "Ev_Get_Settings_Cancelled 2", OF listing_reachable]
    by (simp add: listing_run(2) listing_fields del: handle.simps)
qed

text \<open>The counter of a batch with no calls stays: nothing counts it down.\<close>

lemma fresh_counter_stays:
  assumes ok: "batches_ok (snd w)" and n: "mg_counters (snd w) n = Some 0" and en: "enabled e w"
  shows "mg_counters (snd (handle E e w)) n = Some 0"
proof (cases e)
  case (Ev_List_Reply reply)
  have "n < mg_next (snd w)"
    by (rule batches_counter(1) [OF ok n])
  then have "mg_counters (user_list_connections_cb (Some ops) (snd w)) n = Some 0" for ops
    using n start_calls [of "(snd w)\<lparr>mg_counters := (mg_counters (snd w))(mg_next (snd w) \<mapsto> 0),
        mg_next := Suc (mg_next (snd w))\<rparr>" "mg_next (snd w)" 0 ops]
    by (simp add: user_list_connections_cb_def Let_def)
  then show ?thesis
    using Ev_List_Reply n by (cases reply) (simp_all add: user_list_connections_cb_def)
next
  case (Ev_New_Connection path)
  then show ?thesis
    using n by (simp add: user_new_connection_cb_def user_internal_new_connection_cb_def Let_def)
next
  have keep: "mg_counters (finish_get_settings i info m) n = Some 0"
    if "batches_ok m" "mg_counters m n = Some 0" "mg_calls m i = Some info" for i info m
  proof -
    have "card (pending n m) = 0"
      using batches_counter(2) [OF that(1,2)] by simp
    then have "pending n m = {}"
      using pending_finite [OF that(1)] by simp
    then have "gi_calls info \<noteq> Some n"
      using that(3) by (auto simp: pending_def)
    then show ?thesis
      using that(2) finish_single [of info i m] finish_batch [OF that(1,3)] by (cases "gi_calls info") auto
  qed
  {
    case (Ev_Get_Settings i reply)
    obtain info where i: "mg_calls (snd w) i = Some info"
      using en Ev_Get_Settings by auto
    let ?m = "user_connection_get_settings_cb E reply info (snd w)"
    have "batches_ok ?m"
      using ok batches_same [of ?m "snd w"] by simp
    then show ?thesis
      using keep [of ?m i info] i n Ev_Get_Settings by simp
  next
    case (Ev_Get_Settings_Cancelled i)
    then show ?thesis
      using keep [OF ok n] en by auto
  }
qed (use n in \<open>simp_all add: start_empty\<close>)

text \<open>A user settings service that lists no connections starts a batch without calls: no
  \<^verbatim>\<open>connections-added\<close> is sent for it, and its counter is never freed, whatever happens later.\<close>

theorem empty_list_leaks_its_counter:
  assumes "reachable E (world_init authority net_enabled state_file) n w" "enabled (Ev_List_Reply (Some [])) w"
    and "all_enabled E es (handle E (Ev_List_Reply (Some [])) w)"
  shows "mg_out (snd (handle E (Ev_List_Reply (Some [])) w)) = mg_out (snd w) \<and>
    mg_counters (snd (run_events E es (handle E (Ev_List_Reply (Some [])) w))) (mg_next (snd w)) = Some 0"
proof -
  let ?w = "handle E (Ev_List_Reply (Some [])) w"
  have "mg_counters (snd (run_events E es w')) k = Some 0"
    if "batches_ok (snd w')" "mg_counters (snd w') k = Some 0" "all_enabled E es w'" for k w'
    using that by (induction es arbitrary: w') (simp_all add: fresh_counter_stays handle_batches)
  moreover have "batches_ok (snd ?w)"
    by (rule handle_batches [OF reachable_batches [OF assms(1)] assms(2)])
  moreover have "mg_counters (snd ?w) (mg_next (snd w)) = Some 0" "mg_out (snd ?w) = mg_out (snd w)"
    by (simp_all add: user_list_connections_cb_def Let_def)
  ultimately show ?thesis
    using assms(3) by blast
qed

theorem empty_list_leaks_its_counter_witness:
  "mg_counters (snd (run_events sample_env [Ev_Proxy_Destroyed]
     (handle sample_env (Ev_List_Reply (Some [])) (run_events sample_env authorized_events (world_init True True None))))) 0 = Some 0"
proof -
  let ?w = "run_events sample_env authorized_events (world_init True True None)"
  have "reachable sample_env (world_init True True None) 0 ?w"
    using reachable_run [OF reachable.start authorized_run(1)] by (simp add: authorized_run(3))
  moreover have "enabled (Ev_List_Reply (Some [])) ?w" "mg_next (snd ?w) = 0"
    "all_enabled sample_env [Ev_Proxy_Destroyed] (handle sample_env (Ev_List_Reply (Some [])) ?w)"
    by (simp_all add: authorized_run proxy_connected_def authorized_manager_def bm_manager_init_def)
  ultimately show ?thesis
    using empty_list_leaks_its_counter [of sample_env True True None 0 ?w "[Ev_Proxy_Destroyed]"] by simp
qed

section \<open>The user settings service\<close>

lemma foreach_new: "gh_foreach f gh_new m = m"
  by (simp add: gh_new_def)

text \<open>One service is replaced by another while the answers for the first are outstanding.\<close>

definition handover_events :: "event list" where
  "handover_events = [Ev_Start True (Some '':1.5''),
     Ev_Name_Owner BM_DBUS_SERVICE_USER_SETTINGS (Some '':1.5'') None False None,
     Ev_Name_Owner BM_DBUS_SERVICE_USER_SETTINGS None (Some '':1.9'') True (Some '':1.9''),
     Ev_Polkit 1 (Pk_Result True False), Ev_Polkit 2 (Pk_Result True False)]"

text \<open>An authorization outlives the service it was asked for: there is a run in which the answers for one
  service arrive after another one took its place, and the manager then connects to the second
  service and asks it for its connections although no answer for the second has come.\<close>

theorem authorization_outlives_its_service:
  "\<exists>es c ch. all_enabled E es (world_init True True None) \<and>
     mg_user_proxy (snd (run_events E es (world_init True True None))) = Some \<lparr>up_owner = '':1.9'', up_connected = True\<rparr> \<and>
     last (mg_out (snd (run_events E es (world_init True True None)))) = LIST_CONNECTIONS \<and>
     au_chains (fst (run_events E es (world_init True True None))) c = Some ch \<and>
     ch_owner ch = '':1.9'' \<and> length (ch_calls ch) = 2"
proof -
  let ?ch = "\<lparr>ch_refcount = 1, ch_calls = [4, 5], ch_data = gh_new, ch_error = None, ch_owner = '':1.9'',
    ch_done = USER_PROXY_AUTH_DONE\<rparr>"
  let ?w = "run_events E handover_events (world_init True True None)"
  have "all_enabled E handover_events (world_init True True None)"
    "mg_user_proxy (snd ?w) = Some \<lparr>up_owner = '':1.9'', up_connected = True\<rparr>"
    "last (mg_out (snd ?w)) = LIST_CONNECTIONS" "au_chains (fst ?w) 3 = Some ?ch"
    by (simp_all add: handover_events_def eval_auth eval_manager bm_manager_name_owner_changed_def given_def
        user_proxy_cleanup_def BM_DBUS_SERVICE_USER_SETTINGS_def Let_def foreach_new)
  then show ?thesis
    by (intro exI [of _ handover_events] exI [of _ 3] exI [of _ ?ch]) simp
qed

text \<open>A reply that can lead to an authorization.\<close>

fun promising :: "pk_reply \<Rightarrow> bool" where
  "promising (Pk_Error _) = False"
| "promising (Pk_Result authorized challenge) = (authorized \<or> challenge)"

lemma promising_num: "promising r \<longleftrightarrow> (\<exists>a c. r = Pk_Result a c \<and> reply_result r \<noteq> BM_AUTH_CALL_RESULT_NO)"
  by (cases r) auto

definition good_answer :: "nat \<Rightarrow> bool" where
  "good_answer d \<longleftrightarrow> d \<noteq> result_num BM_AUTH_CALL_RESULT_UNKNOWN \<and> d \<noteq> result_num BM_AUTH_CALL_RESULT_NO"

lemma user_settings_authorized_eq:
  "fst (user_settings_authorized c au m) \<longleftrightarrow>
     good_answer (bm_auth_chain_get_data c PERMISSION_NETWORK_CONTROL au) \<and>
     good_answer (bm_auth_chain_get_data c PERMISSION_USE_USER_CONNECTIONS au)"
  "LIST_CONNECTIONS \<in> set (mg_out (snd (user_settings_authorized c au m))) \<longleftrightarrow> LIST_CONNECTIONS \<in> set (mg_out m)"
  by (auto simp: user_settings_authorized_def good_answer_def Let_def)

lemma proxy_auth_done_outcome:
  fixes au m c
  defines "ok \<equiv> good_answer (bm_auth_chain_get_data c PERMISSION_NETWORK_CONTROL au) \<and>
    good_answer (bm_auth_chain_get_data c PERMISSION_USE_USER_CONNECTIONS au)"
  shows "mg_user_proxy (snd (user_proxy_auth_done c err (au, m))) =
      (if err = None \<and> ok then map_option (\<lambda>p. p\<lparr>up_connected := True\<rparr>) (mg_user_proxy m) else None)"
    and "LIST_CONNECTIONS \<in> set (mg_out (snd (user_proxy_auth_done c err (au, m)))) \<longleftrightarrow>
      LIST_CONNECTIONS \<in> set (mg_out m) \<or> err = None \<and> ok \<and> mg_user_proxy m \<noteq> None"
proof -
  let ?m = "m\<lparr>mg_auth_chains := remove1 c (mg_auth_chains m)\<rparr>"
  obtain b m1 where r: "user_settings_authorized c au ?m = (b, m1)"
    by (cases "user_settings_authorized c au ?m")
  have b: "b = ok" "LIST_CONNECTIONS \<in> set (mg_out m1) \<longleftrightarrow> LIST_CONNECTIONS \<in> set (mg_out m)"
      "mg_user_proxy m1 = mg_user_proxy m"
    using user_settings_authorized_eq [of c au ?m] user_settings_fields(8) [of c au ?m] by (simp_all add: r ok_def)
  have clean: "LIST_CONNECTIONS \<in> set (mg_out (user_proxy_cleanup x)) \<longleftrightarrow> LIST_CONNECTIONS \<in> set (mg_out x)" for x
    by (auto simp: user_proxy_cleanup_def foreach_emit_removed Let_def split: option.split)
  show "mg_user_proxy (snd (user_proxy_auth_done c err (au, m))) =
      (if err = None \<and> ok then map_option (\<lambda>p. p\<lparr>up_connected := True\<rparr>) (mg_user_proxy m) else None)"
    by (cases err; cases "mg_user_proxy m") (simp_all add: user_proxy_auth_done_def r b(1,3) Let_def)
  show "LIST_CONNECTIONS \<in> set (mg_out (snd (user_proxy_auth_done c err (au, m)))) \<longleftrightarrow>
      LIST_CONNECTIONS \<in> set (mg_out m) \<or> err = None \<and> ok \<and> mg_user_proxy m \<noteq> None"
    by (cases err; cases "mg_user_proxy m") (simp_all add: user_proxy_auth_done_def r b Let_def clean)
qed

text \<open>The chain of a proxy that was just made.\<close>

lemma proxy_init_chain:
  fixes owner :: string
  assumes "mg_user_proxy (snd w) = None"
  defines "n \<equiv> au_next (fst w)" and "w1 \<equiv> user_proxy_init True (Some owner) w"
  shows "au_chains (fst w1) n = Some \<lparr>ch_refcount = 1, ch_calls = [n + 1, n + 2], ch_data = gh_new, ch_error = None,
      ch_owner = owner, ch_done = USER_PROXY_AUTH_DONE\<rparr>"
    and "au_calls (fst w1) (n + 1) = Some \<lparr>call_chain = n, call_permission = PERMISSION_USE_USER_CONNECTIONS,
      call_interaction = False, call_disposed = False\<rparr>"
    and "au_calls (fst w1) (n + 2) = Some \<lparr>call_chain = n, call_permission = PERMISSION_NETWORK_CONTROL,
      call_interaction = False, call_disposed = False\<rparr>"
    and "mg_user_proxy (snd w1) = Some \<lparr>up_owner = owner, up_connected = False\<rparr>" "mg_out (snd w1) = mg_out (snd w)"
  by (simp_all add: w1_def n_def user_proxy_init_def assms(1) bm_auth_chain_new_def bm_auth_chain_add_call_def
      update_chain_def Let_def)



text \<open>An update of a known user connection removes it, with a signal, when the new settings are invalid, and
  otherwise gives it exactly the new settings under the same path, with a signal; the other
  connections stay as they are.\<close>

theorem user_connection_update:
  assumes "reachable E (world_init authority net_enabled state_file) n w"
    and "ht_lookup (mg_user_connections (snd w)) path = Some old"
  shows "let m = snd (handle E (Ev_Updated path settings) w)
    in (case bm_connection_new_from_hash (env_tr E) settings of
          Inl e \<Rightarrow>
            ht_lookup (mg_user_connections m) path = None \<and>
            mg_out m = mg_out (snd w) @ [CONNECTION_REMOVED old BM_CONNECTION_SCOPE_USER]
        | Inr d \<Rightarrow>
            (\<exists>new. ht_lookup (mg_user_connections m) path = Some new \<and> conn_settings new = conn_settings d \<and>
               conn_path new = Some path \<and>
               mg_out m = mg_out (snd w) @ [CONNECTION_UPDATED new BM_CONNECTION_SCOPE_USER])) \<and>
       (\<forall>p. p \<noteq> path \<longrightarrow> ht_lookup (mg_user_connections m) p = ht_lookup (mg_user_connections (snd w)) p)"
proof -
  have table: "user_table_ok (snd w)"
    by (rule reachable_table [OF assms(1)])
  then have old: "conn_path old = Some path" "conn_scope old = BM_CONNECTION_SCOPE_USER"
    using user_table_lookup assms(2) by (simp_all add: user_connection_ok_def)
  obtain t where t: "mg_user_connections (snd w) = Some t" "gh_wf t"
    using table assms(2) by (auto simp: user_table_ok_def ht_lookup_def split: option.splits)
  show ?thesis
  proof (cases "bm_connection_new_from_hash (env_tr E) settings")
    case (Inl e)
    then show ?thesis
      by (simp add: updated_cb_cases [OF assms(2)] remove_user_connection_def bm_connection_get_path_def
          bm_connection_get_scope_def old t ht_lookup_def gh_simps Let_def)
  next
    case (Inr d)
    then show ?thesis
      using replace_settings_ok [OF Inr, of old]
      by (simp add: updated_cb_cases [OF assms(2)] old t ht_lookup_def gh_simps Let_def)
  qed
qed

theorem user_connection_update_witness:
  "ht_lookup (mg_user_connections (snd (handle sample_env (Ev_Updated ''/c/2'' gh_new) stored_world))) ''/c/2'' = None"
proof -
  obtain e where "bm_connection_new_from_hash (env_tr sample_env) gh_new = Inl e"
    by (simp add: bm_connection_new_from_hash_def foreach_new bm_connection_verify_def bm_connection_new_def
        bm_connection_get_setting_def ght.look_new Let_def)
  moreover obtain c where "ht_lookup (mg_user_connections (snd stored_world)) ''/c/2'' = Some c"
    using stored_connection by blast
  ultimately show ?thesis
    using user_connection_update [OF stored_reachable, of "''/c/2''" c gh_new]
    by (simp add: Let_def del: handle.simps)
qed

section \<open>The overall state\<close>

definition state_signals :: "effect list \<Rightarrow> effect list" where
  "state_signals out = filter (\<lambda>x. \<exists>s. x = STATE_CHANGED s \<or> x = STATE_CHANGE s) out"

lemma expected_state_same [simp]:
  "expected_state gs (bm_manager_update_state gs m) = expected_state gs m"
  "expected_state gs (emit x m) = expected_state gs m"
  by (simp_all add: expected_state_def)

lemma update_state_outcome:
  fixes gs m
  defines "m' \<equiv> bm_manager_update_state gs m"
  shows "mg_state m' = expected_state gs m"
    and "state_signals (mg_out m') = state_signals (mg_out m) @
      (if mg_state m' = mg_state m then [] else [STATE_CHANGED (mg_state m'), STATE_CHANGE (mg_state m')])"
  by (simp_all add: m'_def update_state_eq state_signals_def)

lemma state_signals_simps:
  "state_signals (out @ out') = state_signals out @ state_signals out'" "state_signals [] = []"
  "state_signals (NOTIFY n # out) = state_signals out" "state_signals (METHOD_RETURN i # out) = state_signals out"
  by (simp_all add: state_signals_def)

text \<open>C11: After a change of a device's state, and after networking is switched by root, the overall state is
  the one that the devices and the flags call for, and it is signalled, in both forms, exactly if it changed.\<close>

theorem state_follows_devices:
  assumes "e = Ev_Device_State i d s \<or>
      (e = Ev_Enable enable x (Some sender) \<and> env_connected E \<and> env_unix_user E sender = Some 0 \<and>
       mg_net_enabled (snd w) \<noteq> enable)"
  shows "let m = snd w; m' = snd (handle E e w)
    in mg_state m' = expected_state (env_gs E) m' \<and>
       state_signals (mg_out m') = state_signals (mg_out m) @
         (if mg_state m' = mg_state m then [] else [STATE_CHANGED (mg_state m'), STATE_CHANGE (mg_state m')])"
  using assms
proof (elim disjE conjE)
  assume e: "e = Ev_Device_State i d s"
  let ?m = "(snd w)\<lparr>mg_devices := (mg_devices (snd w))[i := d]\<rparr>"
  show ?thesis
    using update_state_outcome [of "env_gs E" ?m] update_state_outcome [of "env_gs E" "emit (NOTIFY ''active-connections'') ?m"]
    by (simp add: e manager_device_state_changed_def state_signals_simps Let_def)
next
  assume e: "e = Ev_Enable enable x (Some sender)" "env_connected E" "env_unix_user E sender = Some 0"
    "mg_net_enabled (snd w) \<noteq> enable"
  obtain m1 where m1: "internal_enable (env_gs E) enable (snd w) =
      emit (NOTIFY ''networking-enabled'') (bm_manager_update_state (env_gs E) (m1\<lparr>mg_net_enabled := enable\<rparr>))"
      "mg_out m1 = mg_out (snd w)" "mg_state m1 = mg_state (snd w)"
    by (cases "mg_state_file (snd w)")
       (simp_all add: internal_enable_def do_sleep_wake_def write_value_to_state_file_def Let_def)
  have "snd (handle E e w) = emit (METHOD_RETURN x) (internal_enable (env_gs E) enable (snd w))"
    using e(4) by (simp add: e(1-3) impl_manager_enable_def bm_auth_get_caller_uid_def Let_def)
  then show ?thesis
    using update_state_outcome [of "env_gs E" "m1\<lparr>mg_net_enabled := enable\<rparr>"]
    by (simp add: m1 state_signals_simps Let_def)
qed

theorem state_follows_devices_witness:
  "mg_state (snd (handle sample_env (Ev_Enable False 7 (Some '':1.0'')) (world_init False True None))) = BM_STATE_ASLEEP"
proof -
  let ?w = "world_init False True None" and ?e = "Ev_Enable False 7 (Some '':1.0'')"
  have "mg_net_enabled (snd (handle sample_env ?e ?w)) = False"
    by (simp add: impl_manager_enable_def bm_auth_get_caller_uid_def sample_env_def world_init_def Let_def)
  then show ?thesis
    using state_follows_devices [of ?e _ _ _ False 7 "'':1.0''" sample_env ?w]
    by (simp add: Let_def expected_state_def sample_env_def world_init_def del: handle.simps)
qed

definition active_device :: device where
  "active_device = (sample_device (Some ''hidraw0''))\<lparr>dev_path := Some (device_object_path 0), dev_state := BM_DEVICE_STATE_ACTIVATED\<rparr>"

text \<open>Removing a device does not bring the overall state up to date: there is a run after which the manager
  has no devices and still reports that it is connected.\<close>

theorem removal_leaves_the_state:
  "\<exists>es. all_enabled sample_env es (world_init False True None) \<and>
     mg_devices (snd (run_events sample_env es (world_init False True None))) = [] \<and>
     mg_state (snd (run_events sample_env es (world_init False True None))) = BM_STATE_CONNECTED \<and>
     expected_state (env_gs sample_env) (snd (run_events sample_env es (world_init False True None))) = BM_STATE_DISCONNECTED"
proof -
  let ?es = "[Ev_Udev_Added (\<lambda>_. Some (sample_device (Some ''hidraw0''))),
    Ev_Device_State 0 active_device BM_DEVICE_STATE_ACTIVATED, Ev_Udev_Removed ''hidraw0'']"
  let ?w = "run_events sample_env ?es (world_init False True None)"
  have "all_enabled sample_env ?es (world_init False True None)" "mg_devices (snd ?w) = []"
    "mg_state (snd ?w) = BM_STATE_CONNECTED" "expected_state (env_gs sample_env) (snd ?w) = BM_STATE_DISCONNECTED"
    by (simp_all add: sample_device_def active_device_def bm_device_init_def udev_device_added_cb_def add_device_def
        bm_device_get_type_desc_def bm_device_set_path_def bm_device_get_iface_def init_fields
        udev_device_removed_cb_def find_device_by_iface_def remove_one_device_def manager_device_state_changed_def
        update_state_eq expected_state_def sample_env_def world_init_def bm_manager_init_def Let_def)
  then show ?thesis
    by blast
qed

end
