(* ===== verification/Bluetooth_Search.thy ===== *)
theory Bluetooth_Search
  imports Manager
begin

text \<open>
  The manager's search for the connection of a bluetooth device: with verified connections it
  returns the first one that matches the device's address and capabilities, and none of its
  assertions fails.
\<close>

section \<open>Addresses\<close>

lemma hex_digit_inj: "a < 16 \<Longrightarrow> b < 16 \<Longrightarrow> hex_digit a = hex_digit b \<longleftrightarrow> a = b"
  using inj_on_eq_iff [of char_of "{..<256::nat}" ] by (auto simp: hex_digit_def)

lemma hex_byte_inj [simp]: "hex_byte a = hex_byte b \<longleftrightarrow> a = b"
proof
  assume eq: "hex_byte a = hex_byte b"
  have less: "unat a div 16 < 16" "unat b div 16 < 16"
    using unsigned_less [of a, where ?'a = nat] unsigned_less [of b, where ?'a = nat] by simp_all
  then have "unat a div 16 = unat b div 16" "unat a mod 16 = unat b mod 16"
    using eq by (simp_all add: hex_byte_def hex_digit_inj)
  then show "a = b"
    by (metis div_mult_mod_eq word_unat_eq_iff)
qed simp

lemma hex_byte_length: "\<exists>x y. hex_byte a = [x, y]"
  by (simp add: hex_byte_def)

lemma formatted_address_inj:
  "length xs = length ys \<Longrightarrow> join_with '':'' (map hex_byte xs) = join_with '':'' (map hex_byte ys) \<longleftrightarrow> xs = ys"
proof (induction xs ys rule: list_induct2)
  case (Cons x xs y ys)
  then show ?case
    by (cases xs; cases ys) (auto simp: hex_byte_def, (metis hex_byte_def hex_byte_inj)+)
qed simp

section \<open>The search\<close>

text \<open>The connection is for the device with this address, and asks for a service that the device has.\<close>

definition bluetooth_match :: "string \<Rightarrow> u32 \<Rightarrow> connection \<Rightarrow> bool" where
  "bluetooth_match bdaddr capabilities c =
     (case (map_option set_priv (bm_connection_get_setting c BM_TYPE_SETTING_CONNECTION),
            map_option set_priv (bm_connection_get_setting c BM_TYPE_SETTING_BLUETOOTH)) of
        (Some (Connection_Priv s), Some (Bluetooth_Priv b)) \<Rightarrow>
          con_type s = Some ''bluetooth'' \<and> bdaddr_matches_connection b bdaddr \<and>
          (bt_type b = Some ''dun'' \<and> capabilities AND BM_BT_CAPABILITY_DUN \<noteq> 0 \<or>
           bt_type b = Some ''panu'' \<and> capabilities AND BM_BT_CAPABILITY_NAP \<noteq> 0)
      | _ \<Rightarrow> False)"

lemma verified_setting:
  assumes wf: "connection_wf c" and ok: "bm_connection_verify c = Inr ()"
    and s: "bm_connection_get_setting c cls = Some s"
  shows "object_type s = cls" "\<exists>ss. priv_verify (set_priv s) ss = Inr ()"
proof -
  show cls: "object_type s = cls"
    using wf s by (rule get_setting_type)
  have "s \<in> set (gh_values (conn_settings c))"
    using s by (simp add: settings_of [OF wf] cls)
  then show "\<exists>ss. priv_verify (set_priv s) ss = Inr ()"
    using ok unfolding connection_verify_ok bm_setting_verify_def by blast
qed

lemma verified_connection_setting:
  assumes "connection_wf c" "bm_connection_verify c = Inr ()"
  obtains p t where "map_option set_priv (bm_connection_get_setting c BM_TYPE_SETTING_CONNECTION) = Some (Connection_Priv p)"
    "con_type p = Some t"
proof -
  obtain s where s: "bm_connection_get_setting c BM_TYPE_SETTING_CONNECTION = Some s"
    using assms(2) by (auto simp: connection_verify_ok)
  note v = verified_setting [OF assms s]
  obtain p where p: "set_priv s = Connection_Priv p"
    using v(1) by (cases "set_priv s") (simp_all add: object_type_def)
  then obtain t where "con_type p = Some t"
    using v(2) by (auto simp: connection_verify_def split: if_splits option.splits)
  then show ?thesis
    using that s p by simp
qed

lemma verified_bluetooth_setting:
  assumes "connection_wf c" "bm_connection_verify c = Inr ()"
    and s: "bm_connection_get_setting c BM_TYPE_SETTING_BLUETOOTH = Some s"
  obtains b where "set_priv s = Bluetooth_Priv b" "bt_type b = Some ''dun'' \<or> bt_type b = Some ''panu''"
proof -
  note v = verified_setting [OF assms]
  obtain b where b: "set_priv s = Bluetooth_Priv b"
    using v(1) by (cases "set_priv s") (simp_all add: object_type_def)
  then have "bt_type b = Some ''dun'' \<or> bt_type b = Some ''panu''"
    using v(2) by (auto simp: bluetooth_verify_def split: if_splits option.splits)
  then show ?thesis
    using that b by blast
qed

lemma find_step:
  assumes "connection_wf c" "bm_connection_verify c = Inr ()"
  shows "bluez_manager_find_connection (c # l) bdaddr capabilities =
    (if bluetooth_match bdaddr capabilities c then Returned (Some c) else bluez_manager_find_connection l bdaddr capabilities)"
proof -
  obtain p t where p: "map_option set_priv (bm_connection_get_setting c BM_TYPE_SETTING_CONNECTION) = Some (Connection_Priv p)"
    "con_type p = Some t"
    using verified_connection_setting [OF assms] by blast
  show ?thesis
  proof (cases "bm_connection_get_setting c BM_TYPE_SETTING_BLUETOOTH")
    case None
    then show ?thesis
      by (simp add: bluetooth_match_def p)
  next
    case (Some s)
    obtain b where "set_priv s = Bluetooth_Priv b" "bt_type b = Some ''dun'' \<or> bt_type b = Some ''panu''"
      using verified_bluetooth_setting [OF assms Some] by blast
    then show ?thesis
      by (auto simp: bluetooth_match_def p Some bm_setting_bluetooth_get_connection_type_def)
  qed
qed

text \<open>C13: Among verified connections the search returns the first one that is for a bluetooth device with the
  given address and asks for a service the device has, or nothing; it never runs into one of its
  assertions or a missing type.  An address matches at most one six-byte value.\<close>

theorem bluetooth_search_correct:
  assumes "\<forall>c \<in> set l. connection_wf c \<and> bm_connection_verify c = Inr ()"
  shows "bluez_manager_find_connection l bdaddr capabilities = Returned (find (bluetooth_match bdaddr capabilities) l) \<and>
    (bdaddr_matches_connection b bdaddr \<and> bdaddr_matches_connection b' bdaddr \<longrightarrow> bt_bdaddr b = bt_bdaddr b')"
proof -
  have "bt_bdaddr b = bt_bdaddr b'" if "bdaddr_matches_connection b bdaddr" "bdaddr_matches_connection b' bdaddr"
    using that formatted_address_inj
    by (auto simp: bdaddr_matches_connection_def bm_setting_bluetooth_get_bdaddr_def split: option.splits if_splits)
  moreover have "bluez_manager_find_connection l bdaddr capabilities = Returned (find (bluetooth_match bdaddr capabilities) l)"
    using assms by (induction l) (simp_all add: find_step del: bluez_manager_find_connection.simps(2))
  ultimately show ?thesis
    by blast
qed

definition bluetooth_connection :: connection where
  "bluetooth_connection = sample_connection\<lparr>conn_settings :=
     [(''BMSettingBluetooth'', \<lparr>set_name = Some ''bluetooth'',
         set_priv = Bluetooth_Priv \<lparr>bt_bdaddr = Some [0, 17, 34, 171, 205, 255], bt_type = Some ''panu''\<rparr>\<rparr>),
      (''BMSettingConnection'', \<lparr>set_name = Some ''connection'',
         set_priv = Connection_Priv \<lparr>con_id = Some ''y'', con_uuid = Some ''1-f'', con_type = Some ''bluetooth'',
           con_autoconnect = True, con_timestamp = 7, con_read_only = False\<rparr>\<rparr>)]\<rparr>"

lemma bluetooth_connection_ok:
  "connection_wf bluetooth_connection" "bm_connection_verify bluetooth_connection = Inr ()"
  by (simp_all add: connection_wf_def bluetooth_connection_def gh_wf_def object_type_def)
     (simp add: bm_connection_verify_def bm_connection_get_setting_def
      gh_values_def bm_setting_verify_def connection_verify_def bluetooth_verify_def
      validate_uuid_def isxdigit_def char_code_def find_setting_by_name_def)

lemma bluetooth_matches:
  "\<not> bluetooth_match ''00:11:22:AB:CD:FF'' BM_BT_CAPABILITY_NAP sample_connection"
  "bluetooth_match ''00:11:22:AB:CD:FF'' BM_BT_CAPABILITY_NAP bluetooth_connection"
  by (simp_all add: bluetooth_match_def bm_connection_get_setting_def sample_connection_def bluetooth_connection_def
      bdaddr_matches_connection_def bm_setting_bluetooth_get_bdaddr_def hex_byte_def hex_digit_def char_of_def bit_Suc_0_iff BM_BT_CAPABILITY_NAP_def)

theorem bluetooth_search_correct_witness:
  "bluez_manager_find_connection [sample_connection, bluetooth_connection] ''00:11:22:AB:CD:FF'' BM_BT_CAPABILITY_NAP =
     Returned (Some bluetooth_connection)"
proof -
  have "\<forall>c \<in> set [sample_connection, bluetooth_connection]. connection_wf c \<and> bm_connection_verify c = Inr ()"
    using sample_connection_ok(2) sample_connection_verify bluetooth_connection_ok by simp
  from bluetooth_search_correct [OF this] show ?thesis
    by (simp add: bluetooth_matches)
qed

end
