(* ===== verification/Properties_Changed.thy ===== *)
theory Properties_Changed
  imports GHash_Table GValue_Compare
begin

text \<open>
  The announcement of changed properties, \<^verbatim>\<open>src/barcode-manager/src/bm-properties-changed-signal.c\<close>:
  the class's \<^verbatim>\<open>notify\<close> collects the new values of the exported properties in a table and
  schedules an idle source, which sends the table with one \<^verbatim>\<open>properties-changed\<close> signal and empties it.
\<close>

section \<open>Names\<close>

fun wincaps_from :: "bool \<Rightarrow> string \<Rightarrow> string" where
  "wincaps_from last_was_uscore [] = []"
| "wincaps_from last_was_uscore (c # cs) =
     (if c = CHR ''-'' \<or> c = CHR ''_'' then wincaps_from True cs
      else if last_was_uscore then ascii_toupper c # wincaps_from False cs
      else c # wincaps_from False cs)"

definition uscore_to_wincaps :: "cstr \<Rightarrow> string" where
  "uscore_to_wincaps uscore = (case uscore of None \<Rightarrow> [] | Some s \<Rightarrow> wincaps_from True s)"

section \<open>State\<close>

text \<open>The table and whether an idle source is scheduled; an object has them from its first exported
  change on, until it is destroyed.  \<open>nt_sent\<close> are the tables that were sent.\<close>

record changed_info =
  pc_hash :: "(string, gvalue) ghash"
  pc_idle :: bool

record notifier =
  nt_info :: "changed_info option"
  nt_sent :: "(string, gvalue) ghash list"

definition notifier_init :: notifier where
  "notifier_init = \<lparr>nt_info = None, nt_sent = []\<rparr>"

definition properties_changed_info_new :: changed_info where
  "properties_changed_info_new = \<lparr>pc_hash = gh_new, pc_idle = False\<rparr>"

text \<open>A change of a property: whether it is kept from export, its name, its new value.\<close>

type_synonym change = "bool \<times> string \<times> gvalue"

definition notify :: "change \<Rightarrow> notifier \<Rightarrow> notifier" where
  "notify ch st =
     (case ch of (no_export, n, v) \<Rightarrow>
        if no_export then st
        else (let info = (case nt_info st of Some i \<Rightarrow> i | None \<Rightarrow> properties_changed_info_new)
              in st\<lparr>nt_info := Some \<lparr>pc_hash = gh_insert (uscore_to_wincaps (Some n)) v (pc_hash info), pc_idle = True\<rparr>\<rparr>))"

definition notify_each :: "change list \<Rightarrow> notifier \<Rightarrow> notifier" where
  "notify_each chs st = foldl (\<lambda>st ch. notify ch st) st chs"

text \<open>The idle callback; \<open>during\<close> are the changes that the handlers of the signal make.  \<open>None\<close> is a failed
  assertion.\<close>

definition properties_changed :: "change list \<Rightarrow> notifier \<Rightarrow> notifier option" where
  "properties_changed during st =
     (case nt_info st of
        None \<Rightarrow> None
      | Some info \<Rightarrow>
          (let st1 = notify_each during (st\<lparr>nt_sent := nt_sent st @ [pc_hash info]\<rparr>)
           in Some (st1\<lparr>nt_info := map_option (\<lambda>i. i\<lparr>pc_hash := gh_new\<rparr>) (nt_info st1)\<rparr>)))"

definition idle_id_reset :: "notifier \<Rightarrow> notifier" where
  "idle_id_reset st = st\<lparr>nt_info := map_option (\<lambda>i. i\<lparr>pc_idle := False\<rparr>) (nt_info st)\<rparr>"

text \<open>One round of the main loop: the source runs if it is scheduled, and is then removed.\<close>

definition run_idle :: "change list \<Rightarrow> notifier \<Rightarrow> notifier option" where
  "run_idle during st =
     (case nt_info st of
        Some info \<Rightarrow> if pc_idle info then map_option idle_id_reset (properties_changed during st) else Some st
      | None \<Rightarrow> Some st)"

definition properties_changed_info_destroy :: "notifier \<Rightarrow> notifier" where
  "properties_changed_info_destroy st = st\<lparr>nt_info := None\<rparr>"

section \<open>Lemmas\<close>

text \<open>The words between dashes and underscores, each with a capital.\<close>

fun capitalise :: "string \<Rightarrow> string" where
  "capitalise [] = []"
| "capitalise (c # cs) = ascii_toupper c # cs"

lemma split_tokens_not_Nil: "split_tokens seps s \<noteq> []"
  by (induction s) (auto split: list.split)

lemma wincaps_from_words:
  "wincaps_from True s = concat (map capitalise (split_tokens ''-_'' s)) \<and>
   wincaps_from False s = hd (split_tokens ''-_'' s) @ concat (map capitalise (tl (split_tokens ''-_'' s)))"
proof (induction s)
  case (Cons c s)
  then show ?case
    using split_tokens_not_Nil [of "''-_''" s] by (cases "split_tokens ''-_'' s") auto
qed simp

text \<open>A pending source means something to send, and the other way round.\<close>

definition info_ok :: "notifier \<Rightarrow> bool" where
  "info_ok st \<longleftrightarrow> (\<forall>i. nt_info st = Some i \<longrightarrow> (pc_idle i \<longleftrightarrow> pc_hash i \<noteq> []))"

lemma notify_ok [bm_inv]: "info_ok st \<Longrightarrow> info_ok (notify ch st)"
  by (cases ch) (auto simp: info_ok_def notify_def gh_insert_not_empty Let_def)

lemma run_idle_ok [bm_inv]: "info_ok st \<Longrightarrow> run_idle during st = Some st' \<Longrightarrow> info_ok st'"
  by (auto simp: info_ok_def run_idle_def properties_changed_def idle_id_reset_def gh_new_def Let_def
      split: option.splits if_splits)

text \<open>The last exported value under each name.\<close>

definition announced :: "change list \<Rightarrow> string \<Rightarrow> gvalue option" where
  "announced chs = map_of (rev (map (\<lambda>(_, n, v). (uscore_to_wincaps (Some n), v)) (filter (\<lambda>(no_export, _). \<not> no_export) chs)))"

lemma announced_snoc:
  "announced (chs @ [ch]) = (case ch of (no_export, n, v) \<Rightarrow>
     if no_export then announced chs else (announced chs)(uscore_to_wincaps (Some n) \<mapsto> v))"
  by (cases ch) (auto simp: announced_def)

definition pending_lookup :: "notifier \<Rightarrow> string \<Rightarrow> gvalue option" where
  "pending_lookup st = (case nt_info st of None \<Rightarrow> Map.empty | Some i \<Rightarrow> gh_lookup (pc_hash i))"

lemma notify_lookup:
  "pending_lookup (notify (e, n, v) st) = (if e then pending_lookup st else (pending_lookup st)(uscore_to_wincaps (Some n) \<mapsto> v))"
  by (auto simp: pending_lookup_def notify_def properties_changed_info_new_def gh_simps ght.look_new
      Let_def fun_eq_iff split: option.split)

lemma notify_sent [simp]: "nt_sent (notify ch st) = nt_sent st"
  by (cases ch) (simp add: notify_def Let_def)

lemma notify_each_simps [simp]:
  "notify_each [] st = st" "notify_each (chs @ [ch]) st = notify ch (notify_each chs st)"
  by (simp_all add: notify_each_def)

lemma notify_all:
  "pending_lookup (notify_each chs st) = pending_lookup st ++ announced chs \<and>
   nt_sent (notify_each chs st) = nt_sent st"
proof (induction chs rule: rev_induct)
  case (snoc ch chs)
  then show ?case
    by (cases ch) (simp add: notify_lookup announced_snoc)
qed (simp add: announced_def)

lemma notify_all_ok: "info_ok st \<Longrightarrow> info_ok (notify_each chs st)"
  by (induction chs rule: rev_induct) (simp_all add: notify_ok)

lemma gh_lookup_empty_iff: "gh_lookup t = Map.empty \<longleftrightarrow> t = []"
  unfolding gh_lookup_def by simp

lemma notify_wf: "pred_option (\<lambda>i. gh_wf (pc_hash i)) (nt_info st) \<Longrightarrow> pred_option (\<lambda>i. gh_wf (pc_hash i)) (nt_info (notify ch st))"
  by (cases ch) (auto simp: notify_def properties_changed_info_new_def ght.invar_ins ght.invar_new Let_def split: option.split)

lemma hash_wf:
  assumes "info_ok st" "pending_lookup st = Map.empty"
  shows "pred_option (\<lambda>i. gh_wf (pc_hash i)) (nt_info (notify_each chs st))"
proof (induction chs rule: rev_induct)
  case Nil
  have "gh_wf (pc_hash i)" if "nt_info st = Some i" for i
  proof -
    have "pc_hash i = []"
      using assms(2) that unfolding gh_lookup_empty_iff [symmetric] by (simp add: pending_lookup_def)
    then show ?thesis
      by (simp add: gh_wf_def gh_keys_def)
  qed
  then show ?case
    by (cases "nt_info st") simp_all
next
  case (snoc ch chs)
  then show ?case
    by (simp only: notify_each_simps notify_wf)
qed

lemma announced_next_round:
  assumes "info_ok st" "pending_lookup st = Map.empty"
  shows "\<exists>st'. run_idle [] (notify_each chs st) = Some st' \<and> pending_lookup st' = Map.empty \<and>
    (if announced chs = Map.empty then nt_sent st' = nt_sent st
     else \<exists>h. nt_sent st' = nt_sent st @ [h] \<and> gh_lookup h = announced chs \<and> gh_wf h)"
proof -
  let ?st = "notify_each chs st"
  have all: "pending_lookup ?st = announced chs" "nt_sent ?st = nt_sent st" "info_ok ?st"
    using notify_all [of chs st] notify_all_ok [OF assms(1), of chs] assms(2) by simp_all
  show ?thesis
  proof (cases "nt_info ?st")
    case None
    then show ?thesis
      using all by (simp add: run_idle_def pending_lookup_def)
  next
    case (Some info)
    then have "pc_idle info \<longleftrightarrow> announced chs \<noteq> Map.empty" "gh_lookup (pc_hash info) = announced chs"
      "gh_wf (pc_hash info)"
      using all hash_wf [OF assms, of chs] gh_lookup_empty_iff [of "pc_hash info"] by (auto simp: info_ok_def pending_lookup_def)
    note info = this
    show ?thesis
    proof (cases "pc_idle info")
      case True
      then have "announced chs \<noteq> Map.empty"
        using info(1) by simp
      then show ?thesis
        using all(2) Some True info(2,3)
        by (simp add: run_idle_def properties_changed_def idle_id_reset_def pending_lookup_def ght.look_new [abs_def] Let_def)
    next
      case False
      then show ?thesis
        using all(1,2) Some info(1) by (simp add: run_idle_def)
    qed
  qed
qed

section \<open>Properties\<close>



text \<open>A change that a handler of the signal makes is never announced: it goes into the table that is emptied
  as soon as the handlers return.\<close>

theorem changes_by_handlers_are_lost:
  assumes "info_ok st" "nt_info st = Some info" "pc_idle info"
  shows "\<exists>st'. run_idle during st = Some st' \<and> nt_sent st' = nt_sent st @ [pc_hash info] \<and>
    pending_lookup st' = Map.empty \<and> run_idle [] st' = Some st'"
proof -
  let ?st = "notify_each during (st\<lparr>nt_sent := nt_sent st @ [pc_hash info]\<rparr>)"
  have "nt_sent ?st = nt_sent st @ [pc_hash info]"
    using notify_all [of during "st\<lparr>nt_sent := nt_sent st @ [pc_hash info]\<rparr>"] by simp
  then show ?thesis
    using assms(2,3)
    by (cases "nt_info ?st")
       (auto simp: run_idle_def properties_changed_def idle_id_reset_def pending_lookup_def ght.look_new fun_eq_iff Let_def)
qed

theorem changes_by_handlers_are_lost_witness:
  "\<exists>st'. run_idle [(False, ''state'', GUInt 3)] (notify (False, ''state'', GUInt 1) notifier_init) = Some st' \<and>
     length (nt_sent st') = 1 \<and> run_idle [] st' = Some st'"
proof -
  let ?st = "notify (False, ''state'', GUInt 1) notifier_init"
  have "info_ok notifier_init"
    by (simp add: notifier_init_def info_ok_def)
  then have "info_ok ?st" "nt_sent ?st = []"
    by (simp_all only: notify_ok) (simp_all add: notifier_init_def)
  moreover obtain info where "nt_info ?st = Some info" "pc_idle info"
    by (simp add: notify_def notifier_init_def)
  ultimately show ?thesis
    using changes_by_handlers_are_lost [of ?st info "[(False, ''state'', GUInt 3)]"] by fastforce
qed

end
