(* ===== verification/Call_Store.thy ===== *)
theory Call_Store
  imports GHash_Table
begin

text \<open>
  The store of pending calls, \<^verbatim>\<open>src/barcode-manager/src/bm-call-store.c\<close>: for each object the
  identifiers of its calls, in a table of tables.  The inner tables are heap objects that the walk over
  the store holds on to while its callbacks change the store, so they live in an explicit heap; a freed
  table has no entry.  Objects, call identifiers and tables are addresses, zero is \<^verbatim>\<open>NULL\<close>.
  What the store promises is the interface \<open>call_registry\<close>: a set of pairs.
\<close>

section \<open>The store and its operations\<close>

record call_store =
  cs_objects :: "(nat, nat) ghash"
  cs_tables :: "nat \<Rightarrow> (nat, unit) ghash option"
  cs_next :: nat
  cs_weak :: "nat list"
  cs_log :: "string list"

definition bm_call_store_new :: call_store where
  "bm_call_store_new = \<lparr>cs_objects = gh_new, cs_tables = (\<lambda>_. None), cs_next = 1, cs_weak = [], cs_log = []\<rparr>"

definition cs_warn :: "string \<Rightarrow> call_store \<Rightarrow> call_store" where
  "cs_warn msg st = st\<lparr>cs_log := cs_log st @ [msg]\<rparr>"

text \<open>\<^verbatim>\<open>g_hash_table_remove\<close> on the outer table, whose values are destroyed with it.\<close>

definition drop_object :: "nat \<Rightarrow> call_store \<Rightarrow> call_store" where
  "drop_object obj st =
     (case gh_lookup (cs_objects st) obj of
        None \<Rightarrow> st
      | Some t \<Rightarrow> st\<lparr>cs_objects := gh_remove obj (cs_objects st), cs_tables := (cs_tables st)(t := None)\<rparr>)"

definition bm_call_store_add :: "nat \<Rightarrow> nat \<Rightarrow> call_store \<Rightarrow> call_store" where
  "bm_call_store_add obj call_id st =
     (if obj = 0 \<or> call_id = 0 then st
      else (case gh_lookup (cs_objects st) obj of
              Some t \<Rightarrow> st\<lparr>cs_tables := (cs_tables st)(t := map_option (gh_insert call_id ()) (cs_tables st t))\<rparr>
            | None \<Rightarrow>
                st\<lparr>cs_objects := gh_insert obj (cs_next st) (cs_objects st),
                   cs_tables := (cs_tables st)(cs_next st \<mapsto> gh_insert call_id () gh_new),
                   cs_next := Suc (cs_next st),
                   cs_weak := obj # cs_weak st\<rparr>))"

definition NON_EXISTANT :: string where
  "NON_EXISTANT = ''Trying to remove a non-existant call id.''"

definition bm_call_store_remove :: "nat \<Rightarrow> nat \<Rightarrow> call_store \<Rightarrow> call_store" where
  "bm_call_store_remove obj call_id st =
     (if obj = 0 \<or> call_id = 0 then st
      else (case gh_lookup (cs_objects st) obj of
              None \<Rightarrow> cs_warn NON_EXISTANT st
            | Some t \<Rightarrow>
                (case cs_tables st t of
                   None \<Rightarrow> st
                 | Some ids \<Rightarrow>
                     (let ids' = gh_remove call_id ids;
                          st1 = (if gh_lookup ids call_id = None then cs_warn NON_EXISTANT st else st);
                          st2 = st1\<lparr>cs_tables := (cs_tables st1)(t \<mapsto> ids')\<rparr>
                      in if gh_size ids' = 0
                         then (drop_object obj st2)\<lparr>cs_weak := remove1 obj (cs_weak st2)\<rparr>
                         else st2))))"

text \<open>The end of an object runs its weak references and forgets them.\<close>

definition object_destroyed_cb :: "nat \<Rightarrow> call_store \<Rightarrow> call_store" where
  "object_destroyed_cb obj st =
     (if obj \<in> set (cs_weak st)
      then (drop_object obj st)\<lparr>cs_weak := filter (\<lambda>x. x \<noteq> obj) (cs_weak st)\<rparr> else st)"

definition bm_call_store_clear :: "call_store \<Rightarrow> call_store" where
  "bm_call_store_clear st =
     (let st1 = gh_foreach (\<lambda>obj t st. st\<lparr>cs_weak := remove1 obj (cs_weak st)\<rparr>) (cs_objects st) st
      in foldl (\<lambda>st obj. drop_object obj st) st1 (gh_keys (cs_objects st)))"

section \<open>Walking over the store\<close>

text \<open>A callback sees the object, the call, its user data and the store; it may change both.\<close>

type_synonym 'u store_func = "nat \<Rightarrow> nat \<Rightarrow> 'u \<times> call_store \<Rightarrow> bool \<times> 'u \<times> call_store"

definition call_callback :: "'u store_func \<Rightarrow> nat \<Rightarrow> int \<times> 'u \<times> call_store \<Rightarrow> nat \<Rightarrow> int \<times> 'u \<times> call_store" where
  "call_callback cb obj w call_id =
     (case w of (count, s) \<Rightarrow>
        if count \<ge> 0 then (case cb obj call_id s of (go_on, s') \<Rightarrow> (if go_on then count + 1 else -1, s'))
        else w)"

definition get_call_ids :: "(nat, unit) ghash \<Rightarrow> nat list" where
  "get_call_ids ids = gh_foreach (\<lambda>k _ l. k # l) ids []"

text \<open>Over the copy of the outer table; \<open>None\<close> is a visit to a table that has been freed.\<close>

fun call_all_callbacks ::
    "'u store_func \<Rightarrow> (nat \<times> nat) list \<Rightarrow> int \<times> 'u \<times> call_store \<Rightarrow> (int \<times> 'u \<times> call_store) option" where
  "call_all_callbacks cb [] w = Some w"
| "call_all_callbacks cb ((obj, t) # rest) w =
     (case cs_tables (snd (snd w)) t of
        None \<Rightarrow> None
      | Some ids \<Rightarrow> call_all_callbacks cb rest (foldl (call_callback cb obj) w (get_call_ids ids)))"

definition bm_call_store_foreach ::
    "nat \<Rightarrow> 'u store_func \<Rightarrow> 'u \<times> call_store \<Rightarrow> (int \<times> 'u \<times> call_store) option" where
  "bm_call_store_foreach obj cb s =
     (if obj \<noteq> 0
      then (case gh_lookup (cs_objects (snd s)) obj of
              None \<Rightarrow> Some (-1, fst s, cs_warn ''Object not in store'' (snd s))
            | Some t \<Rightarrow>
                (case cs_tables (snd s) t of
                   None \<Rightarrow> None
                 | Some ids \<Rightarrow> Some (foldl (call_callback cb obj) (0, s) (get_call_ids ids))))
      else call_all_callbacks cb (gh_foreach gh_insert (cs_objects (snd s)) gh_new) (0, s))"

section \<open>What a registry of calls promises\<close>

locale call_registry =
  fixes add remove :: "nat \<Rightarrow> nat \<Rightarrow> 's \<Rightarrow> 's"
    and drop :: "nat \<Rightarrow> 's \<Rightarrow> 's"
    and clear :: "'s \<Rightarrow> 's"
    and calls :: "'s \<Rightarrow> (nat \<times> nat) set"
    and invar :: "'s \<Rightarrow> bool"
  assumes calls_add: "invar s \<Longrightarrow> calls (add obj i s) = (if obj = 0 \<or> i = 0 then calls s else insert (obj, i) (calls s))"
    and calls_remove: "invar s \<Longrightarrow> calls (remove obj i s) = calls s - {(obj, i)}"
    and calls_drop: "invar s \<Longrightarrow> calls (drop obj s) = calls s - {obj} \<times> UNIV"
    and calls_clear: "invar s \<Longrightarrow> calls (clear s) = {}"
    and invar_add: "invar s \<Longrightarrow> invar (add obj i s)"
    and invar_remove: "invar s \<Longrightarrow> invar (remove obj i s)"
    and invar_drop: "invar s \<Longrightarrow> invar (drop obj s)"
    and invar_clear: "invar s \<Longrightarrow> invar (clear s)"
begin

lemma remove_each:
  "invar s \<Longrightarrow> invar (foldl (\<lambda>s i. remove obj i s) s is) \<and>
     calls (foldl (\<lambda>s i. remove obj i s) s is) = calls s - {obj} \<times> set is"
  by (induction "is" arbitrary: s) (auto simp: calls_remove invar_remove)

end

section \<open>The store is one\<close>

text \<open>Each object of the store has a table of its own, which is not empty; the store holds exactly one weak
  reference to each of its objects.\<close>

definition cs_wf :: "call_store \<Rightarrow> bool" where
  "cs_wf st \<longleftrightarrow>
     gh_wf (cs_objects st) \<and>
     (\<forall>obj t. gh_lookup (cs_objects st) obj = Some t \<longrightarrow>
        obj \<noteq> 0 \<and> t < cs_next st \<and> (\<exists>ids. cs_tables st t = Some ids \<and> gh_wf ids \<and> ids \<noteq> [] \<and> gh_lookup ids 0 = None)) \<and>
     inj_on (gh_lookup (cs_objects st)) (dom (gh_lookup (cs_objects st))) \<and>
     distinct (cs_weak st) \<and> set (cs_weak st) = set (gh_keys (cs_objects st))"

definition cs_table :: "call_store \<Rightarrow> nat \<Rightarrow> (nat, unit) ghash option" where
  "cs_table st obj = (case gh_lookup (cs_objects st) obj of None \<Rightarrow> None | Some t \<Rightarrow> cs_tables st t)"

definition cs_calls :: "call_store \<Rightarrow> (nat \<times> nat) set" where
  "cs_calls st = {(obj, i). \<exists>ids. cs_table st obj = Some ids \<and> gh_lookup ids i \<noteq> None}"


lemma cs_wf_objects: "cs_wf st \<Longrightarrow> gh_wf (cs_objects st)"
  by (simp add: cs_wf_def)

lemma cs_wf_entry:
  assumes "cs_wf st" "gh_lookup (cs_objects st) obj = Some t"
  obtains ids where "cs_tables st t = Some ids" "gh_wf ids" "ids \<noteq> []" "gh_lookup ids 0 = None" "t < cs_next st" "obj \<noteq> 0"
  using assms unfolding cs_wf_def by blast

lemma cs_wf_inj:
  assumes "cs_wf st" "gh_lookup (cs_objects st) x = Some t" "gh_lookup (cs_objects st) y = Some t"
  shows "x = y"
  using assms unfolding cs_wf_def inj_on_def by (metis domI)

lemma cs_wf_weak: "cs_wf st \<Longrightarrow> x \<in> set (cs_weak st) \<longleftrightarrow> gh_lookup (cs_objects st) x \<noteq> None"
  by (simp add: cs_wf_def ght.keys_look)

lemma cs_wf_new [simp]: "cs_wf bm_call_store_new"
  by (simp add: cs_wf_def bm_call_store_new_def gh_new_def inj_on_def dom_def)

lemma cs_wf_log [simp]: "cs_wf (cs_warn msg st) = cs_wf st" "cs_table (cs_warn msg st) = cs_table st"
  by (simp_all add: cs_wf_def cs_warn_def cs_table_def fun_eq_iff split: option.split)

text \<open>The step all removals share.\<close>

lemma drop_object_wf:
  assumes "cs_wf st"
  shows "cs_wf ((drop_object obj st)\<lparr>cs_weak := filter (\<lambda>x. x \<noteq> obj) (cs_weak st)\<rparr>) \<and>
    cs_table ((drop_object obj st)\<lparr>cs_weak := weak\<rparr>) = (cs_table st)(obj := None)"
proof (cases "gh_lookup (cs_objects st) obj")
  case None
  then have "filter (\<lambda>x. x \<noteq> obj) (cs_weak st) = cs_weak st"
    using cs_wf_weak [OF assms, of obj] by (metis (mono_tags, lifting) filter_True)
  with None assms show ?thesis
    by (auto simp: drop_object_def cs_table_def fun_eq_iff split: option.split)
next
  case (Some t)
  let ?st = "(drop_object obj st)\<lparr>cs_weak := filter (\<lambda>x. x \<noteq> obj) (cs_weak st)\<rparr>"
  have look: "gh_lookup (cs_objects ?st) = (gh_lookup (cs_objects st))(obj := None)"
    using Some assms by (simp add: drop_object_def ght.look_del cs_wf_def)
  have other: "t' \<noteq> t" if "gh_lookup (cs_objects st) x = Some t'" "x \<noteq> obj" for x t'
    using cs_wf_inj [OF assms Some] that by blast
  have "cs_table ((drop_object obj st)\<lparr>cs_weak := weak\<rparr>) = (cs_table st)(obj := None)"
    using Some other assms by (auto simp: drop_object_def cs_table_def fun_eq_iff cs_wf_def ght.look_del split: option.split)
  moreover have "cs_wf ?st"
  proof -
    have "inj_on (gh_lookup (cs_objects ?st)) (dom (gh_lookup (cs_objects ?st)))"
      using assms unfolding look cs_wf_def inj_on_def by auto
    moreover have "gh_wf (cs_objects ?st)" "set (gh_keys (cs_objects ?st)) = set (gh_keys (cs_objects st)) - {obj}"
      using Some cs_wf_objects [OF assms] by (simp_all add: drop_object_def ght.invar_del ght.keys_del)
    ultimately show ?thesis
      using assms Some other unfolding cs_wf_def look
      by (auto simp: drop_object_def split: if_splits)
  qed
  ultimately show ?thesis
    by blast
qed

lemma object_destroyed_wf [bm_inv]: "cs_wf st \<Longrightarrow> cs_wf (object_destroyed_cb obj st)"
  by (simp add: object_destroyed_cb_def drop_object_wf)

lemma object_destroyed_table:
  assumes "cs_wf st"
  shows "cs_table (object_destroyed_cb obj st) = (cs_table st)(obj := None)"
proof (cases "obj \<in> set (cs_weak st)")
  case False
  then have "cs_table st obj = None"
    using cs_wf_weak [OF assms, of obj] by (simp add: cs_table_def)
  then show ?thesis
    using False by (auto simp: object_destroyed_cb_def fun_eq_iff)
qed (simp add: object_destroyed_cb_def drop_object_wf [OF assms])

text \<open>Changing the table of one object.\<close>

lemma set_table:
  assumes "cs_wf st" "gh_lookup (cs_objects st) obj = Some t" "gh_wf ids" "ids \<noteq> []" "gh_lookup ids 0 = None"
  shows "cs_wf (st\<lparr>cs_tables := (cs_tables st)(t \<mapsto> ids)\<rparr>)"
    and "cs_table (st\<lparr>cs_tables := (cs_tables st)(t \<mapsto> ids)\<rparr>) = (cs_table st)(obj \<mapsto> ids)"
proof -
  have other: "t' \<noteq> t" if "gh_lookup (cs_objects st) x = Some t'" "x \<noteq> obj" for x t'
    using cs_wf_inj [OF assms(1,2)] that by blast
  show "cs_wf (st\<lparr>cs_tables := (cs_tables st)(t \<mapsto> ids)\<rparr>)"
    using assms unfolding cs_wf_def by simp
  show "cs_table (st\<lparr>cs_tables := (cs_tables st)(t \<mapsto> ids)\<rparr>) = (cs_table st)(obj \<mapsto> ids)"
    using assms(2) other by (auto simp: cs_table_def fun_eq_iff split: option.split)
qed

lemma new_table:
  assumes "cs_wf st" "gh_lookup (cs_objects st) obj = None" "obj \<noteq> 0" "gh_wf ids" "ids \<noteq> []" "gh_lookup ids 0 = None"
  defines "st' \<equiv> st\<lparr>cs_objects := gh_insert obj (cs_next st) (cs_objects st), cs_tables := (cs_tables st)(cs_next st \<mapsto> ids),
     cs_next := Suc (cs_next st), cs_weak := obj # cs_weak st\<rparr>"
  shows "cs_wf st'" and "cs_table st' = (cs_table st)(obj \<mapsto> ids)"
proof -
  have look: "gh_lookup (cs_objects st') = (gh_lookup (cs_objects st))(obj \<mapsto> cs_next st)"
    by (simp add: st'_def ght.look_ins)
  have old: "t < cs_next st" if "gh_lookup (cs_objects st) x = Some t" for x t
    using cs_wf_entry [OF assms(1) that] by blast
  then have new: "gh_lookup (cs_objects st) x \<noteq> Some (cs_next st)" for x
    by blast
  show "cs_table st' = (cs_table st)(obj \<mapsto> ids)"
    using old by (fastforce simp: cs_table_def fun_eq_iff st'_def ght.look_ins split: option.split)
  have "inj_on (gh_lookup (cs_objects st')) (dom (gh_lookup (cs_objects st')))"
    using assms(1) new unfolding look cs_wf_def inj_on_def by (auto split: if_splits)
  moreover have "gh_wf (cs_objects st')" "set (gh_keys (cs_objects st')) = insert obj (set (gh_keys (cs_objects st)))"
    using cs_wf_objects [OF assms(1)] by (simp_all add: st'_def ght.invar_ins ght.keys_ins)
  moreover have "obj \<notin> set (cs_weak st)"
    using cs_wf_weak [OF assms(1)] assms(2) by simp
  ultimately show "cs_wf st'"
    using assms(1,3-6) unfolding cs_wf_def look
    by (auto simp: st'_def less_Suc_eq)
qed

lemma add_wf_table:
  assumes "cs_wf st"
  shows "cs_wf (bm_call_store_add obj i st) \<and>
    cs_table (bm_call_store_add obj i st) =
      (if obj = 0 \<or> i = 0 then cs_table st
       else (cs_table st)(obj \<mapsto> gh_insert i () (case cs_table st obj of None \<Rightarrow> gh_new | Some ids \<Rightarrow> ids)))"
proof (cases "obj = 0 \<or> i = 0")
  case False
  show ?thesis
  proof (cases "gh_lookup (cs_objects st) obj")
    case None
    have "cs_table st obj = None"
      using None by (simp add: cs_table_def)
    then show ?thesis
      using new_table [OF assms None, of "gh_insert i () gh_new"] None False
      by (simp add: bm_call_store_add_def gh_new_def gh_insert_def)
  next
    case (Some t)
    obtain ids where t: "cs_tables st t = Some ids" "gh_wf ids" "ids \<noteq> []" "gh_lookup ids 0 = None"
      using cs_wf_entry [OF assms Some] by blast
    have ids: "gh_insert i () ids \<noteq> []" "gh_lookup (gh_insert i () ids) 0 = None"
      using t(4) False by (simp_all add: gh_insert_not_empty ght.look_ins)
    have "cs_table st obj = Some ids"
      using Some t by (simp add: cs_table_def)
    then show ?thesis
      using set_table [OF assms Some ght.invar_ins [OF t(2)] ids] Some t(1) False
      by (simp add: bm_call_store_add_def)
  qed
qed (use assms in \<open>auto simp: bm_call_store_add_def\<close>)

lemma drop_object_set: 
  "gh_lookup (cs_objects st) obj = Some t \<Longrightarrow>
   drop_object obj (st\<lparr>cs_tables := (cs_tables st)(t \<mapsto> ids)\<rparr>) = drop_object obj st"
  by (simp add: drop_object_def)

lemma remove_wf_table:
  assumes "cs_wf st" "obj \<noteq> 0" "i \<noteq> 0"
  shows "cs_wf (bm_call_store_remove obj i st) \<and>
    cs_table (bm_call_store_remove obj i st) =
      (case cs_table st obj of
         None \<Rightarrow> cs_table st
       | Some ids \<Rightarrow> (cs_table st)(obj := if gh_remove i ids = [] then None else Some (gh_remove i ids)))"
proof (cases "gh_lookup (cs_objects st) obj")
  case None
  then show ?thesis
    using assms by (simp add: bm_call_store_remove_def cs_table_def)
next
  case (Some t)
  obtain ids where t: "cs_tables st t = Some ids" "gh_wf ids" "gh_lookup ids 0 = None"
    using cs_wf_entry [OF assms(1) Some] by blast
  define st1 where "st1 = (if gh_lookup ids i = None then cs_warn NON_EXISTANT st else st)"
  have st1: "cs_wf st1" "cs_table st1 = cs_table st" "gh_lookup (cs_objects st1) obj = Some t" "distinct (cs_weak st1)"
    using assms(1) Some by (auto simp: st1_def cs_warn_def cs_wf_def cs_table_def fun_eq_iff split: option.split)
  have table: "cs_table st obj = Some ids"
    using Some t by (simp add: cs_table_def)
  have eq: "bm_call_store_remove obj i st =
    (let st2 = st1\<lparr>cs_tables := (cs_tables st1)(t \<mapsto> gh_remove i ids)\<rparr>
     in if gh_remove i ids = [] then (drop_object obj st2)\<lparr>cs_weak := remove1 obj (cs_weak st2)\<rparr> else st2)"
    using Some t assms(2,3) by (simp add: bm_call_store_remove_def st1_def gh_size_def Let_def)
  show ?thesis
  proof (cases "gh_remove i ids = []")
    case True
    have "bm_call_store_remove obj i st = (drop_object obj st1)\<lparr>cs_weak := filter (\<lambda>x. x \<noteq> obj) (cs_weak st1)\<rparr>"
      using True st1(3,4) drop_object_set [OF st1(3)] unfolding eq
      by (simp add: remove1_distinct)
    then show ?thesis
    using drop_object_wf [OF st1(1), of obj] True table st1(2) by simp
  next
    case False
    have "gh_lookup (gh_remove i ids) 0 = None"
      using t by (simp add: ght.look_del)
    then show ?thesis
      using set_table [OF st1(1,3) ght.invar_del [OF t(2)] False] False table st1(2) unfolding eq by simp
  qed
qed

section \<open>Clearing\<close>

lemma drop_object_fields [simp]:
  "cs_objects (drop_object obj st) = gh_remove obj (cs_objects st)"
  "cs_weak (drop_object obj st) = cs_weak st"
proof -
  have "gh_remove obj (cs_objects st) = cs_objects st" if "gh_lookup (cs_objects st) obj = None"
    using that unfolding gh_remove_def gh_lookup_def by (intro filter_True) (auto simp: map_of_eq_None_iff image_iff)
  then show "cs_objects (drop_object obj st) = gh_remove obj (cs_objects st)"
      "cs_weak (drop_object obj st) = cs_weak st"
    by (auto simp: drop_object_def split: option.split)
qed

lemma drop_objects_fields:
  "cs_objects (foldl (\<lambda>st obj. drop_object obj st) st ks) = filter (\<lambda>(k, _). k \<notin> set ks) (cs_objects st)"
  "cs_weak (foldl (\<lambda>st obj. drop_object obj st) st ks) = cs_weak st"
proof (induction ks arbitrary: st)
  case (Cons k ks)
  case 1
  show ?case
    by (simp add: Cons.IH gh_remove_def) (auto intro!: filter_cong)
  case 2
  show ?case
    by (simp add: Cons.IH)
qed simp_all

lemma drop_object_frees:
  "cs_tables st t = None \<Longrightarrow> cs_tables (drop_object obj st) t = None"
  "gh_lookup (cs_objects st) obj = Some t \<Longrightarrow> cs_tables (drop_object obj st) t = None"
  by (auto simp: drop_object_def split: option.split)

lemma drop_objects_free:
  "cs_tables st t = None \<Longrightarrow> cs_tables (foldl (\<lambda>st obj. drop_object obj st) st ks) t = None"
  by (induction ks arbitrary: st) (simp_all add: drop_object_frees)

lemma drop_objects_free_all:
  "gh_wf (cs_objects st) \<Longrightarrow> gh_lookup (cs_objects st) obj = Some t \<Longrightarrow> obj \<in> set ks \<Longrightarrow>
     cs_tables (foldl (\<lambda>st obj. drop_object obj st) st ks) t = None"
proof (induction ks arbitrary: st)
  case (Cons k ks)
  show ?case
  proof (cases "k = obj")
    case True
    then show ?thesis
      using Cons.prems by (simp add: drop_objects_free drop_object_frees)
  next
    case False
    then show ?thesis
      using Cons by (simp add: ght.look_del ght.invar_del)
  qed
qed simp

definition unweak :: "nat \<Rightarrow> nat \<Rightarrow> call_store \<Rightarrow> call_store" where
  "unweak obj t st = st\<lparr>cs_weak := remove1 obj (cs_weak st)\<rparr>"

lemma unweak_all:
  "cs_objects (gh_foreach unweak t st) = cs_objects st \<and> cs_tables (gh_foreach unweak t st) = cs_tables st \<and>
   (distinct (cs_weak st) \<longrightarrow> cs_weak (gh_foreach unweak t st) = filter (\<lambda>x. x \<notin> set (gh_keys t)) (cs_weak st))"
proof (induction t arbitrary: st)
  case (Cons e t)
  then show ?case
    by (cases e) (auto simp: unweak_def remove1_distinct intro!: filter_cong)
qed (simp add: gh_keys_def)

lemma clear_eq:
  "bm_call_store_clear st =
     foldl (\<lambda>st obj. drop_object obj st) (gh_foreach unweak (cs_objects st) st) (gh_keys (cs_objects st))"
  unfolding bm_call_store_clear_def unweak_def Let_def ..

lemma clear_empties:
  assumes "cs_wf st"
  shows "cs_objects (bm_call_store_clear st) = []" "cs_weak (bm_call_store_clear st) = []"
proof -
  show "cs_objects (bm_call_store_clear st) = []"
    by (auto simp: clear_eq drop_objects_fields unweak_all filter_empty_conv gh_keys_def image_iff)
  show "cs_weak (bm_call_store_clear st) = []"
    using assms unfolding clear_eq drop_objects_fields cs_wf_def by (simp add: unweak_all filter_empty_conv)
qed

lemma clear_frees:
  "cs_tables st t = None \<Longrightarrow> cs_tables (bm_call_store_clear st) t = None"
  "cs_wf st \<Longrightarrow> gh_lookup (cs_objects st) obj = Some t \<Longrightarrow> cs_tables (bm_call_store_clear st) t = None"
  unfolding clear_eq
  by (simp_all add: drop_objects_free drop_objects_free_all unweak_all cs_wf_objects ght.keys_look)

section \<open>The refinement\<close>

lemma cs_calls_not_null:
  assumes "cs_wf st" "(obj, i) \<in> cs_calls st"
  shows "obj \<noteq> 0 \<and> i \<noteq> 0"
proof -
  obtain t ids where "gh_lookup (cs_objects st) obj = Some t" "cs_tables st t = Some ids" "gh_lookup ids i \<noteq> None"
    using assms(2) by (auto simp: cs_calls_def cs_table_def split: option.splits)
  then show ?thesis
    using assms(1) by (cases i) (auto elim: cs_wf_entry [rotated])
qed

lemma cs_table_wf: "cs_wf st \<Longrightarrow> cs_table st obj = Some ids \<Longrightarrow> gh_wf ids"
  by (auto simp: cs_table_def split: option.splits elim!: cs_wf_entry)

interpretation cs: call_registry bm_call_store_add bm_call_store_remove object_destroyed_cb bm_call_store_clear cs_calls cs_wf
proof unfold_locales
  fix s :: call_store and obj i :: nat
  assume wf: "cs_wf s"
  show "cs_wf (bm_call_store_add obj i s)" "cs_wf (object_destroyed_cb obj s)"
    using wf by (simp_all add: add_wf_table object_destroyed_wf)
  show "cs_calls (bm_call_store_add obj i s) = (if obj = 0 \<or> i = 0 then cs_calls s else insert (obj, i) (cs_calls s))"
    using add_wf_table [OF wf] by (auto simp: cs_calls_def ght.look_ins ght.look_new split: option.splits if_splits)
  show "cs_calls (object_destroyed_cb obj s) = cs_calls s - {obj} \<times> UNIV"
    by (auto simp: cs_calls_def object_destroyed_table [OF wf] split: if_splits)
  show "cs_wf (bm_call_store_clear s)"
    by (simp add: cs_wf_def clear_empties [OF wf] inj_on_def dom_def gh_keys_def)
  show "cs_calls (bm_call_store_clear s) = {}"
    by (simp add: cs_calls_def cs_table_def clear_empties [OF wf])
  show "cs_wf (bm_call_store_remove obj i s)"
    using remove_wf_table [OF wf] wf by (cases "obj = 0 \<or> i = 0") (auto simp: bm_call_store_remove_def)
  show "cs_calls (bm_call_store_remove obj i s) = cs_calls s - {(obj, i)}"
  proof (cases "obj = 0 \<or> i = 0")
    case True
    then show ?thesis
      using cs_calls_not_null [OF wf] by (auto simp: bm_call_store_remove_def)
  next
    case False
    then show ?thesis
      using remove_wf_table [OF wf, of obj i] cs_table_wf [OF wf, of obj]
      by (auto simp: cs_calls_def ght.look_del split: option.splits if_splits)
         (metis ght.look_del fun_upd_apply gh_lookup_Nil option.distinct(1))+
  qed
qed

text \<open>The operations as one sequence, and what they mean for a set of pairs.\<close>

datatype store_op = Op_Add nat nat | Op_Remove nat nat | Op_Destroyed nat | Op_Clear

fun store_step :: "call_store \<Rightarrow> store_op \<Rightarrow> call_store" where
  "store_step st (Op_Add obj i) = bm_call_store_add obj i st"
| "store_step st (Op_Remove obj i) = bm_call_store_remove obj i st"
| "store_step st (Op_Destroyed obj) = object_destroyed_cb obj st"
| "store_step st Op_Clear = bm_call_store_clear st"

fun pairs_step :: "(nat \<times> nat) set \<Rightarrow> store_op \<Rightarrow> (nat \<times> nat) set" where
  "pairs_step S (Op_Add obj i) = (if obj = 0 \<or> i = 0 then S else insert (obj, i) S)"
| "pairs_step S (Op_Remove obj i) = S - {(obj, i)}"
| "pairs_step S (Op_Destroyed obj) = {p \<in> S. fst p \<noteq> obj}"
| "pairs_step S Op_Clear = {}"

lemma store_step_refines:
  "cs_wf st \<Longrightarrow> cs_wf (store_step st op) \<and> cs_calls (store_step st op) = pairs_step (cs_calls st) op"
  by (cases op)
     (auto simp: cs.calls_add cs.calls_remove cs.calls_drop cs.calls_clear cs.invar_add cs.invar_remove cs.invar_drop cs.invar_clear)

lemma store_steps_refine:
  "cs_wf st \<Longrightarrow> cs_wf (foldl store_step st ops) \<and> cs_calls (foldl store_step st ops) = foldl pairs_step (cs_calls st) ops"
  by (induction ops arbitrary: st) (simp_all add: store_step_refines)

lemma cs_weak_calls: "cs_wf st \<Longrightarrow> set (cs_weak st) = fst ` cs_calls st"
proof -
  assume wf: "cs_wf st"
  have "\<exists>ids i. cs_tables st t = Some ids \<and> gh_lookup ids i \<noteq> None" if that: "gh_lookup (cs_objects st) obj = Some t" for obj t
  proof -
    from cs_wf_entry [OF wf that] obtain ids where ids: "cs_tables st t = Some ids" "ids \<noteq> []"
      by blast
    then obtain i x rest where "ids = (i, x) # rest"
      by (metis list.exhaust surj_pair)
    with ids show ?thesis
      by auto
  qed
  then show ?thesis
    by (auto simp: set_eq_iff cs_wf_weak [OF wf] cs_calls_def cs_table_def image_iff split: option.splits) fast+
qed

section \<open>The walk\<close>

lemma fold_callbacks_stopped: "count < 0 \<Longrightarrow> foldl (call_callback cb obj) (count, s) ids = (count, s)"
  by (induction ids) (simp_all add: call_callback_def)

text \<open>A callback that notes the call and removes it from the store.\<close>

definition finish_call :: "(nat \<times> nat) list store_func" where
  "finish_call obj i s = (case s of (seen, st) \<Rightarrow> (True, seen @ [(obj, i)], bm_call_store_remove obj i st))"

lemma fold_finish_call:
  "count \<ge> 0 \<Longrightarrow> foldl (call_callback finish_call obj) (count, seen, st) ids =
     (count + int (length ids), seen @ map (Pair obj) ids, foldl (\<lambda>st i. bm_call_store_remove obj i st) st ids)"
  by (induction ids arbitrary: count seen st) (simp_all add: call_callback_def finish_call_def)

lemma get_call_ids_eq: "get_call_ids ids = rev (gh_keys ids)"
proof -
  have "gh_foreach (\<lambda>k _ l. k # l) ids acc = rev (gh_keys ids) @ acc" for acc
    by (induction ids arbitrary: acc) (auto simp: gh_keys_def)
  then show ?thesis
    by (simp add: get_call_ids_def)
qed

lemma copy_objects: "gh_wf t \<Longrightarrow> gh_foreach gh_insert t gh_new = t"
proof -
  assume "gh_wf t"
  have "gh_wf (u @ t) \<Longrightarrow> gh_foreach gh_insert t u = u @ t" for u :: "('a, 'b) ghash"
  proof (induction t arbitrary: u)
    case (Cons e t)
    then obtain k v where e: "e = (k, v)"
      by (cases e)
    have "gh_lookup u k = None"
      using Cons.prems e by (auto simp: gh_wf_def gh_keys_def gh_lookup_def map_of_eq_None_iff)
    then show ?case
      using Cons e by (simp add: gh_insert_new)
  qed simp
  then show ?thesis
    using \<open>gh_wf t\<close> by (simp add: gh_new_def)
qed

lemma remove_keeps_others:
  "x \<noteq> obj \<Longrightarrow> gh_lookup (cs_objects st) x = Some t \<Longrightarrow> cs_wf st \<Longrightarrow>
     gh_lookup (cs_objects (bm_call_store_remove obj i st)) x = Some t"
  by (auto simp: bm_call_store_remove_def cs_warn_def Let_def ght.look_del cs_wf_def split: option.split)

lemma removes_keep_others:
  "cs_wf st \<Longrightarrow> x \<noteq> obj \<Longrightarrow> gh_lookup (cs_objects st) x = Some t \<Longrightarrow>
     gh_lookup (cs_objects (foldl (\<lambda>st i. bm_call_store_remove obj i st) st is)) x = Some t"
  by (induction "is" arbitrary: st) (simp_all add: remove_keeps_others cs.invar_remove)

text \<open>The walk with \<^const>\<open>finish_call\<close>, from any point of the copy on.\<close>

lemma call_all_finish:
  assumes "cs_wf st" "distinct (map fst rest)" "count \<ge> 0"
    and "\<forall>(obj, t) \<in> set rest. gh_lookup (cs_objects st) obj = Some t"
  shows "\<exists>new st'. call_all_callbacks finish_call rest (count, seen, st) = Some (count + int (length new), seen @ new, st') \<and>
    distinct new \<and> set new = {p \<in> cs_calls st. fst p \<in> fst ` set rest} \<and>
    cs_wf st' \<and> cs_calls st' = {p \<in> cs_calls st. fst p \<notin> fst ` set rest}"
  using assms
proof (induction rest arbitrary: count seen st)
  case (Cons e rest)
  obtain obj t where e: "e = (obj, t)"
    by (cases e)
  have look: "gh_lookup (cs_objects st) obj = Some t"
    using Cons.prems(4) e by simp
  then obtain ids where ids: "cs_tables st t = Some ids" "gh_wf ids"
    using cs_wf_entry [OF Cons.prems(1)] by metis
  define ks st1 where "ks = rev (gh_keys ids)" and "st1 = foldl (\<lambda>st i. bm_call_store_remove obj i st) st (rev (gh_keys ids))"
  have "i \<in> set ks \<longleftrightarrow> (obj, i) \<in> cs_calls st" for i
    using ids look by (simp add: ks_def cs_calls_def cs_table_def ght.keys_look)
  then have calls: "set (map (Pair obj) ks) = {p \<in> cs_calls st. fst p = obj}"
    by auto
  have st1: "cs_wf st1" "cs_calls st1 = cs_calls st - {obj} \<times> set ks"
    using cs.remove_each [OF Cons.prems(1), of obj ks] by (simp_all add: st1_def ks_def)
  then have rest_calls: "cs_calls st1 = {p \<in> cs_calls st. fst p \<noteq> obj}"
    using calls by auto
  have "\<forall>(x, t) \<in> set rest. gh_lookup (cs_objects st1) x = Some t"
  proof (intro ballI, clarify)
    fix x t'
    assume "(x, t') \<in> set rest"
    with Cons.prems(2,4) e have "x \<noteq> obj" "gh_lookup (cs_objects st) x = Some t'"
      by force+
    then show "gh_lookup (cs_objects st1) x = Some t'"
      unfolding st1_def by (intro removes_keep_others [OF Cons.prems(1)])
  qed
  moreover have "distinct (map fst rest)" "count + int (length ks) \<ge> 0"
    using Cons.prems by simp_all
  ultimately obtain new st' where IH:
    "call_all_callbacks finish_call rest (count + int (length ks), seen @ map (Pair obj) ks, st1) =
       Some (count + int (length ks) + int (length new), (seen @ map (Pair obj) ks) @ new, st')"
    "distinct new" "set new = {p \<in> cs_calls st1. fst p \<in> fst ` set rest}"
    "cs_wf st'" "cs_calls st' = {p \<in> cs_calls st1. fst p \<notin> fst ` set rest}"
    using Cons.IH [OF st1(1), of "count + int (length ks)" "seen @ map (Pair obj) ks"] by blast
  have "call_all_callbacks finish_call (e # rest) (count, seen, st) =
      Some (count + int (length (map (Pair obj) ks @ new)), seen @ (map (Pair obj) ks @ new), st')"
    using IH(1) ids Cons.prems(3) by (simp add: e get_call_ids_eq fold_finish_call ks_def st1_def)
  moreover have "distinct (map (Pair obj) ks @ new)"
    using IH(2,3) ids(2) by (auto simp: ks_def gh_wf_def distinct_map inj_on_def rest_calls)
  moreover have "set (map (Pair obj) ks @ new) = {p \<in> cs_calls st. fst p \<in> fst ` set (e # rest)}"
    using IH(3) calls by (auto simp: rest_calls e)
  moreover have "cs_calls st' = {p \<in> cs_calls st. fst p \<notin> fst ` set (e # rest)}"
    using IH(5) by (auto simp: rest_calls e)
  ultimately show ?case
    using IH(4) by blast
qed auto

section \<open>Properties\<close>

text \<open>C18: Whatever the order of additions, removals, ends of objects and clearings, the store holds the calls a
  set of pairs would hold: an addition puts one pair in, a removal takes at most that one out, the end
  of an object takes out all its pairs and no other.  At every moment it has exactly one weak reference
  to each object with a pending call and none to other objects.\<close>

theorem call_store_refines_pairs:
  "cs_calls (foldl store_step bm_call_store_new ops) = foldl pairs_step {} ops \<and>
   distinct (cs_weak (foldl store_step bm_call_store_new ops)) \<and>
   set (cs_weak (foldl store_step bm_call_store_new ops)) = fst ` foldl pairs_step {} ops"
proof -
  have "cs_calls bm_call_store_new = {}"
    by (simp add: cs_calls_def cs_table_def bm_call_store_new_def gh_new_def)
  then have "cs_wf (foldl store_step bm_call_store_new ops)"
      "cs_calls (foldl store_step bm_call_store_new ops) = foldl pairs_step {} ops"
    using store_steps_refine [OF cs_wf_new, of ops] by simp_all
  then show ?thesis
    using cs_weak_calls [of "foldl store_step bm_call_store_new ops"] by (simp add: cs_wf_def)
qed

text \<open>A walk over the whole store with a callback that removes each call it is given never touches a freed
  table, calls back once for every pending call, returns their number and leaves the store empty.\<close>

theorem call_store_walk_finishes_all:
  assumes "cs_wf st"
  shows "\<exists>seen st'. bm_call_store_foreach 0 finish_call ([], st) = Some (int (card (cs_calls st)), seen, st') \<and>
    distinct seen \<and> set seen = cs_calls st \<and> cs_calls st' = {}"
proof -
  have wf: "gh_wf (cs_objects st)"
    using assms by (rule cs_wf_objects)
  then have "\<forall>(obj, t) \<in> set (cs_objects st). gh_lookup (cs_objects st) obj = Some t" "distinct (map fst (cs_objects st))"
    using ght.entries_look [OF wf] by (auto simp: gh_wf_def gh_keys_def)
  then obtain seen st' where w:
    "call_all_callbacks finish_call (cs_objects st) (0, [], st) = Some (int (length seen), seen, st')" "distinct seen"
    "set seen = {p \<in> cs_calls st. fst p \<in> fst ` set (cs_objects st)}"
    "cs_calls st' = {p \<in> cs_calls st. fst p \<notin> fst ` set (cs_objects st)}"
    using call_all_finish [OF assms, of "cs_objects st" 0 "[]"] by auto
  have "\<forall>p \<in> cs_calls st. fst p \<in> fst ` set (cs_objects st)"
    by (auto simp: cs_calls_def cs_table_def gh_lookup_def split: option.splits dest!: map_of_SomeD) force
  then have "set seen = cs_calls st" "cs_calls st' = {}"
    using w by auto
  then show ?thesis
    using w distinct_card [OF w(2)] by (simp add: bm_call_store_foreach_def copy_objects wf)
qed

theorem call_store_walk_finishes_all_witness:
  "\<exists>seen st'. bm_call_store_foreach 0 finish_call ([], foldl store_step bm_call_store_new
       [Op_Add 5 7, Op_Add 5 8, Op_Add 6 7, Op_Remove 5 8]) = Some (2, seen, st') \<and> set seen = {(5, 7), (6, 7)}"
proof -
  let ?ops = "[Op_Add 5 7, Op_Add 5 8, Op_Add 6 7, Op_Remove 5 8]"
  have "cs_calls bm_call_store_new = {}"
    by (simp add: cs_calls_def cs_table_def bm_call_store_new_def gh_new_def)
  then have st: "cs_wf (foldl store_step bm_call_store_new ?ops)"
      "cs_calls (foldl store_step bm_call_store_new ?ops) = {(5, 7), (6, 7)}"
    using store_steps_refine [OF cs_wf_new, of ?ops] by auto
  show ?thesis
    using call_store_walk_finishes_all [OF st(1)] unfolding st(2) by auto
qed

text \<open>The copy that the walk makes of the outer table does not let callbacks change the store freely, as its
  comment says: the copy still points to the tables of the store, so when the callback clears a store of
  two or more objects the walk goes on to a table that has been freed.\<close>

theorem call_store_walk_uses_freed_table:
  assumes "cs_wf st" "gh_size (cs_objects st) \<ge> 2"
  shows "bm_call_store_foreach 0 (\<lambda>obj i (u, st). (go_on u, u, bm_call_store_clear st)) (u, st) = None"
proof -
  let ?cb = "\<lambda>obj i (u, st). (go_on u, u, bm_call_store_clear st)"
  obtain o1 t1 o2 t2 rest where objs: "cs_objects st = (o1, t1) # (o2, t2) # rest"
    using assms(2) by (cases "cs_objects st"; cases "tl (cs_objects st)") (auto simp: gh_size_def)
  have look: "gh_lookup (cs_objects st) o1 = Some t1" "gh_lookup (cs_objects st) o2 = Some t2"
    using cs_wf_objects [OF assms(1)] by (auto simp: objs)
  obtain ids where ids: "cs_tables st t1 = Some ids" "ids \<noteq> []"
    using cs_wf_entry [OF assms(1) look(1)] by metis
  then obtain i ks where "get_call_ids ids = i # ks"
    by (cases "get_call_ids ids") (auto simp: get_call_ids_eq gh_keys_def)
  moreover have "cs_tables (snd (snd (foldl (call_callback ?cb o1) (n, v, st') ks))) t2 = None"
    if "cs_tables st' t2 = None" for n v st'
    using that by (induction ks arbitrary: n v st') (auto simp: call_callback_def clear_frees)
  ultimately have "cs_tables (snd (snd (foldl (call_callback ?cb o1) (0, u, st) (get_call_ids ids)))) t2 = None"
    using clear_frees(2) [OF assms(1) look(2)] by (simp add: call_callback_def)
  then show ?thesis
    using ids cs_wf_objects [OF assms(1)] copy_objects [of "cs_objects st"]
    by (simp add: bm_call_store_foreach_def objs)
qed

theorem call_store_walk_uses_freed_table_witness:
  "bm_call_store_foreach 0 (\<lambda>obj i (u, st). (True, u, bm_call_store_clear st))
     ((), foldl store_step bm_call_store_new [Op_Add 5 7, Op_Add 6 7]) = None"
proof -
  let ?st = "foldl store_step bm_call_store_new [Op_Add 5 7, Op_Add 6 7]"
  have "cs_wf ?st"
    using store_steps_refine [OF cs_wf_new] by blast
  moreover have "gh_size (cs_objects ?st) \<ge> 2"
    by (simp add: bm_call_store_add_def bm_call_store_new_def gh_new_def gh_insert_def gh_size_def)
  ultimately show ?thesis
    using call_store_walk_uses_freed_table [of ?st "\<lambda>_. True" "()"] by simp
qed

end
