(* ===== verification/System_Connection.thy ===== *)
theory System_Connection
  imports Connection Auth_Chain
begin

text \<open>
  A system connection on the bus: \<^verbatim>\<open>src/barcode-manager/libbm-glib/bm-exported-connection.c\<close>, the default
  methods of \<^verbatim>\<open>bm-settings-connection-interface.c\<close> beside it, and the subclass that asks PolicyKit,
  \<^verbatim>\<open>src/barcode-manager/src/system-settings/bm-sysconfig-connection.c\<close>.  A request to update, delete or
  reveal secrets starts a PolicyKit call, which lives in a heap until its answer; the answer does the
  work and replies on the bus.  Bus invocations are numbers.
\<close>

section \<open>State\<close>

datatype settings_error =
    BM_SETTINGS_INTERFACE_ERROR_INVALID_CONNECTION
  | BM_SETTINGS_INTERFACE_ERROR_READ_ONLY_CONNECTION
  | BM_SETTINGS_INTERFACE_ERROR_INVALID_SETTING
  | BM_SETTINGS_INTERFACE_ERROR_INTERNAL_ERROR
  | BM_SETTINGS_INTERFACE_ERROR_PERMISSION_DENIED
  | BM_SYSCONFIG_SETTINGS_ERROR_GENERAL
  | BM_SYSCONFIG_SETTINGS_ERROR_NOT_PRIVILEGED
  | BM_SYSCONFIG_SETTINGS_ERROR_ADD_NOT_SUPPORTED
  | BM_SYSCONFIG_SETTINGS_ERROR_ADD_FAILED "string option"
  | BM_SYSCONFIG_SETTINGS_ERROR_SAVE_HOSTNAME_NOT_SUPPORTED
  | BM_SYSCONFIG_SETTINGS_ERROR_SAVE_HOSTNAME_FAILED
  | Settings_Error bm_error
  | Polkit_Error string

type_synonym settings_hash = "(string, (string, gvalue) ghash) ghash"

text \<open>What a PolicyKit call of a connection is for.\<close>

datatype sc_request = Rq_Update connection | Rq_Delete | Rq_Secrets string

record sc_call =
  sk_context :: nat
  sk_request :: sc_request
  sk_disposed :: bool

datatype sc_output =
    UPDATED "settings_hash option"
  | REMOVED
  | REPLY nat
  | REPLY_SECRETS nat settings_hash
  | REPLY_ERROR nat settings_error

record sys_connection =
  sc_conn :: connection
  sc_secrets :: "connection option"
  sc_timestamp :: "u64 option"
  sc_authority :: bool
  sc_calls :: "nat \<Rightarrow> sc_call option"
  sc_pk_calls :: "nat list"
  sc_next :: nat
  sc_alive :: bool
  sc_out :: "sc_output list"

definition bm_sysconfig_connection_init :: "bool \<Rightarrow> connection \<Rightarrow> sys_connection" where
  "bm_sysconfig_connection_init authority c =
     \<lparr>sc_conn = c, sc_secrets = None, sc_timestamp = None, sc_authority = authority, sc_calls = (\<lambda>_. None),
      sc_pk_calls = [], sc_next = 0, sc_alive = True, sc_out = []\<rparr>"

definition sc_emit :: "sc_output \<Rightarrow> sys_connection \<Rightarrow> sys_connection" where
  "sc_emit x st = st\<lparr>sc_out := sc_out st @ [x]\<rparr>"

section \<open>The exported connection\<close>

text \<open>The time stamp of the object's data takes the place of the setting's; \<open>None\<close> is a failed assertion.\<close>

definition substitute_timestamp :: "transform \<Rightarrow> u64 option \<Rightarrow> connection \<Rightarrow> connection option" where
  "substitute_timestamp tr timestamp c =
     (case timestamp of
        None \<Rightarrow> Some c
      | Some t \<Rightarrow>
          (case bm_connection_get_setting c BM_TYPE_SETTING_CONNECTION of
             None \<Rightarrow> None
           | Some s_con \<Rightarrow>
               (case find_property (object_type s_con) ''timestamp'' of
                  None \<Rightarrow> Some c
                | Some ps \<Rightarrow> Some (bm_connection_add_setting (g_object_set_property tr s_con ps (GUInt64 t)) c))))"

definition real_get_settings :: "numbering \<Rightarrow> transform \<Rightarrow> sys_connection \<Rightarrow> settings_hash option" where
  "real_get_settings gt tr st =
     (let no_secrets = bm_connection_clear_secrets tr (bm_connection_duplicate tr (sc_conn st))
      in case substitute_timestamp tr (sc_timestamp st) no_secrets of
           None \<Rightarrow> None | Some c \<Rightarrow> bm_connection_to_hash gt c)"

definition check_writable :: "connection \<Rightarrow> settings_error option" where
  "check_writable c =
     (case bm_connection_get_setting c BM_TYPE_SETTING_CONNECTION of
        Some s \<Rightarrow>
          (case set_priv s of
             Connection_Priv s_con \<Rightarrow>
               (if bm_setting_connection_get_read_only s_con
                then Some BM_SETTINGS_INTERFACE_ERROR_READ_ONLY_CONNECTION else None)
           | _ \<Rightarrow> Some BM_SETTINGS_INTERFACE_ERROR_INVALID_CONNECTION)
      | None \<Rightarrow> Some BM_SETTINGS_INTERFACE_ERROR_INVALID_CONNECTION)"

definition bm_settings_connection_interface_emit_updated ::
    "numbering \<Rightarrow> transform \<Rightarrow> sys_connection \<Rightarrow> sys_connection" where
  "bm_settings_connection_interface_emit_updated gt tr st =
     (let tmp = bm_connection_clear_secrets tr (bm_connection_duplicate tr (sc_conn st))
      in sc_emit (UPDATED (bm_connection_to_hash gt tmp)) st)"

text \<open>The interface's operations; the callback never sees an error from the first two.\<close>

definition connection_update ::
    "numbering \<Rightarrow> transform \<Rightarrow> (settings_error option \<Rightarrow> sys_connection \<Rightarrow> sys_connection) \<Rightarrow> sys_connection \<Rightarrow> sys_connection" where
  "connection_update gt tr callback st = callback None (bm_settings_connection_interface_emit_updated gt tr st)"

definition do_delete :: "(settings_error option \<Rightarrow> sys_connection \<Rightarrow> sys_connection) \<Rightarrow> sys_connection \<Rightarrow> sys_connection" where
  "do_delete callback st = callback None (sc_emit REMOVED st)"

section \<open>Updating and secrets\<close>

definition bm_sysconfig_connection_update ::
    "numbering \<Rightarrow> transform \<Rightarrow> connection \<Rightarrow> bool \<Rightarrow> sys_connection \<Rightarrow> (settings_error option) \<times> sys_connection" where
  "bm_sysconfig_connection_update gt tr new signal_update st =
     (if bm_connection_compare gt (Some (sc_conn st)) (Some new) FLAG_EXACT then (None, st)
      else
        (let new_settings = (case bm_connection_to_hash gt new of Some h \<Rightarrow> h | None \<Rightarrow> gh_new)
         in case bm_connection_replace_settings tr new_settings (sc_conn st) of
              (c, Inl e) \<Rightarrow> (Some (Settings_Error e), st\<lparr>sc_conn := c\<rparr>)
            | (c, Inr _) \<Rightarrow>
                (let st1 = st\<lparr>sc_conn := c, sc_secrets := Some (bm_connection_duplicate tr c)\<rparr>
                 in (None, if signal_update then connection_update gt tr (\<lambda>_ st. st) st1 else st1))))"

definition copy_one_secret :: "string \<Rightarrow> gvalue \<Rightarrow> (string, gvalue) ghash \<Rightarrow> (string, gvalue) ghash" where
  "copy_one_secret key v secrets =
     (case v of GString (Some s) \<Rightarrow> gh_insert key (GString (Some s)) secrets | _ \<Rightarrow> secrets)"

definition add_secrets :: "setting \<Rightarrow> param_spec \<Rightarrow> gvalue \<Rightarrow> (string, gvalue) ghash \<Rightarrow> (string, gvalue) ghash" where
  "add_secrets setting ps v secrets =
     (if \<not> ps_secret ps then secrets
      else (case v of
              GString (Some s) \<Rightarrow> gh_insert (ps_name ps) (GString (Some s)) secrets
            | GMap T_STRING T_STRING (Some m) \<Rightarrow> gh_foreach copy_one_secret m secrets
            | GCollection T_UCHAR (Some a) \<Rightarrow> gh_insert (ps_name ps) (GCollection T_UCHAR (Some a)) secrets
            | _ \<Rightarrow> secrets))"

definition get_secrets ::
    "string \<Rightarrow> (settings_hash option \<Rightarrow> settings_error option \<Rightarrow> sys_connection \<Rightarrow> sys_connection) \<Rightarrow> sys_connection \<Rightarrow> sys_connection" where
  "get_secrets setting_name callback st =
     (case sc_secrets st of
        None \<Rightarrow> callback None (Some BM_SETTINGS_INTERFACE_ERROR_INVALID_CONNECTION) st
      | Some c \<Rightarrow>
          (case bm_connection_get_setting_by_name c setting_name of
             None \<Rightarrow> callback None (Some BM_SETTINGS_INTERFACE_ERROR_INVALID_SETTING) st
           | Some s \<Rightarrow>
               callback (Some (gh_insert setting_name (bm_setting_enumerate_values s add_secrets gh_new) gh_new)) None st))"

section \<open>Requests from the bus\<close>

definition sc_check :: "sc_request \<Rightarrow> nat \<Rightarrow> sys_connection \<Rightarrow> sys_connection" where
  "sc_check request ctx st =
     st\<lparr>sc_calls := (sc_calls st)(sc_next st \<mapsto> \<lparr>sk_context = ctx, sk_request = request, sk_disposed = False\<rparr>),
        sc_pk_calls := sc_next st # sc_pk_calls st, sc_next := Suc (sc_next st)\<rparr>"

definition dbus_update :: "transform \<Rightarrow> settings_hash \<Rightarrow> nat \<Rightarrow> sys_connection \<Rightarrow> sys_connection" where
  "dbus_update tr new_settings ctx st =
     (case bm_connection_new_from_hash tr new_settings of
        Inl e \<Rightarrow> sc_emit (REPLY_ERROR ctx (Settings_Error e)) st
      | Inr tmp \<Rightarrow> sc_check (Rq_Update tmp) ctx st)"

definition impl_exported_connection_update :: "transform \<Rightarrow> settings_hash \<Rightarrow> nat \<Rightarrow> sys_connection \<Rightarrow> sys_connection" where
  "impl_exported_connection_update tr new_settings ctx st =
     (case check_writable (sc_conn st) of
        Some e \<Rightarrow> sc_emit (REPLY_ERROR ctx e) st
      | None \<Rightarrow>
          (case bm_connection_new_from_hash tr new_settings of
             Inl e \<Rightarrow> sc_emit (REPLY_ERROR ctx (Settings_Error e)) st
           | Inr _ \<Rightarrow> dbus_update tr new_settings ctx st))"

definition dbus_delete :: "nat \<Rightarrow> sys_connection \<Rightarrow> sys_connection" where
  "dbus_delete ctx st = sc_check Rq_Delete ctx st"

definition impl_exported_connection_delete :: "nat \<Rightarrow> sys_connection \<Rightarrow> sys_connection" where
  "impl_exported_connection_delete ctx st =
     (case check_writable (sc_conn st) of
        Some e \<Rightarrow> sc_emit (REPLY_ERROR ctx e) st | None \<Rightarrow> dbus_delete ctx st)"

definition dbus_get_secrets :: "string \<Rightarrow> nat \<Rightarrow> sys_connection \<Rightarrow> sys_connection" where
  "dbus_get_secrets setting_name ctx st = sc_check (Rq_Secrets setting_name) ctx st"

section \<open>The answers of PolicyKit\<close>

definition sc_free :: "nat \<Rightarrow> sys_connection \<Rightarrow> sys_connection" where
  "sc_free k st = st\<lparr>sc_calls := (sc_calls st)(k := None)\<rparr>"

text \<open>The callbacks that reply and free the call.\<close>

definition con_done_cb :: "nat \<Rightarrow> nat \<Rightarrow> settings_error option \<Rightarrow> sys_connection \<Rightarrow> sys_connection" where
  "con_done_cb k ctx error st =
     sc_free k (sc_emit (case error of Some e \<Rightarrow> REPLY_ERROR ctx e | None \<Rightarrow> REPLY ctx) st)"

definition con_secrets_cb :: "nat \<Rightarrow> nat \<Rightarrow> settings_hash option \<Rightarrow> settings_error option \<Rightarrow> sys_connection \<Rightarrow> sys_connection" where
  "con_secrets_cb k ctx secrets error st =
     sc_free k (sc_emit (case error of
        Some e \<Rightarrow> REPLY_ERROR ctx e
      | None \<Rightarrow> REPLY_SECRETS ctx (case secrets of Some h \<Rightarrow> h | None \<Rightarrow> gh_new)) st)"

text \<open>The part the three callbacks share: a disposed call, an error, an insufficient answer.  What an
  authorized caller gets is \<open>work\<close>.\<close>

definition pk_answer ::
    "nat \<Rightarrow> sc_call \<Rightarrow> pk_reply \<Rightarrow> (sys_connection \<Rightarrow> sys_connection) \<Rightarrow> sys_connection \<Rightarrow> sys_connection" where
  "pk_answer k call reply work st =
     (if sk_disposed call
      then sc_free k (sc_emit (REPLY_ERROR (sk_context call) BM_SYSCONFIG_SETTINGS_ERROR_GENERAL) st)
      else
        (let st1 = st\<lparr>sc_pk_calls := remove1 k (sc_pk_calls st)\<rparr>
         in case reply of
              Pk_Error e \<Rightarrow> sc_free k (sc_emit (REPLY_ERROR (sk_context call) (Polkit_Error e)) st1)
            | Pk_Result authorized challenge \<Rightarrow>
                if \<not> authorized
                then sc_free k (sc_emit (REPLY_ERROR (sk_context call) BM_SYSCONFIG_SETTINGS_ERROR_NOT_PRIVILEGED) st1)
                else work st1))"

definition pk_update_cb :: "numbering \<Rightarrow> transform \<Rightarrow> nat \<Rightarrow> sc_call \<Rightarrow> connection \<Rightarrow> pk_reply \<Rightarrow> sys_connection \<Rightarrow> sys_connection" where
  "pk_update_cb gt tr k call new reply st =
     pk_answer k call reply
       (\<lambda>st. case bm_sysconfig_connection_update gt tr new False st of
               (Some e, st1) \<Rightarrow> sc_free k (sc_emit (REPLY_ERROR (sk_context call) e) st1)
             | (None, st1) \<Rightarrow> connection_update gt tr (con_done_cb k (sk_context call)) st1) st"

definition pk_delete_cb :: "nat \<Rightarrow> sc_call \<Rightarrow> pk_reply \<Rightarrow> sys_connection \<Rightarrow> sys_connection" where
  "pk_delete_cb k call reply st = pk_answer k call reply (do_delete (con_done_cb k (sk_context call))) st"

definition pk_secrets_cb :: "nat \<Rightarrow> sc_call \<Rightarrow> string \<Rightarrow> pk_reply \<Rightarrow> sys_connection \<Rightarrow> sys_connection" where
  "pk_secrets_cb k call setting_name reply st =
     pk_answer k call reply (get_secrets setting_name (con_secrets_cb k (sk_context call))) st"

text \<open>The end of the object; its calls stay until their answers.\<close>

definition sysconfig_connection_dispose :: "sys_connection \<Rightarrow> sys_connection" where
  "sysconfig_connection_dispose st =
     st\<lparr>sc_secrets := None,
        sc_calls := (\<lambda>k. if k \<in> set (sc_pk_calls st) then map_option (sk_disposed_update (\<lambda>_. True)) (sc_calls st k)
                          else sc_calls st k),
        sc_pk_calls := [], sc_alive := False\<rparr>"

section \<open>The connection as a state machine\<close>

datatype sc_event =
    Sev_Update settings_hash nat
  | Sev_Delete nat
  | Sev_Get_Secrets string nat
  | Sev_Polkit nat pk_reply
  | Sev_Plugin_Update connection
  | Sev_Dispose

definition sc_polkit :: "numbering \<Rightarrow> transform \<Rightarrow> nat \<Rightarrow> pk_reply \<Rightarrow> sys_connection \<Rightarrow> sys_connection" where
  "sc_polkit gt tr k reply st =
     (case sc_calls st k of
        None \<Rightarrow> st
      | Some call \<Rightarrow>
          (case sk_request call of
             Rq_Update new \<Rightarrow> pk_update_cb gt tr k call new reply st
           | Rq_Delete \<Rightarrow> pk_delete_cb k call reply st
           | Rq_Secrets setting_name \<Rightarrow> pk_secrets_cb k call setting_name reply st))"

fun sc_handle :: "numbering \<Rightarrow> transform \<Rightarrow> sc_event \<Rightarrow> sys_connection \<Rightarrow> sys_connection" where
  "sc_handle gt tr (Sev_Update settings ctx) st = impl_exported_connection_update tr settings ctx st"
| "sc_handle gt tr (Sev_Delete ctx) st = impl_exported_connection_delete ctx st"
| "sc_handle gt tr (Sev_Get_Secrets setting_name ctx) st = dbus_get_secrets setting_name ctx st"
| "sc_handle gt tr (Sev_Polkit k reply) st = sc_polkit gt tr k reply st"
| "sc_handle gt tr (Sev_Plugin_Update new) st = snd (bm_sysconfig_connection_update gt tr new True st)"
| "sc_handle gt tr Sev_Dispose st = sysconfig_connection_dispose st"

text \<open>PolicyKit answers each call once, and only where there is an authority to ask; everything else comes
  to a live object.\<close>

fun sc_enabled :: "sc_event \<Rightarrow> sys_connection \<Rightarrow> bool" where
  "sc_enabled (Sev_Polkit k reply) st = (sc_authority st \<and> sc_calls st k \<noteq> None)"
| "sc_enabled _ st = sc_alive st"

inductive sc_reachable :: "numbering \<Rightarrow> transform \<Rightarrow> bool \<Rightarrow> connection \<Rightarrow> sc_event list \<Rightarrow> sys_connection \<Rightarrow> bool"
  for gt tr authority c where
  sc_start: "sc_reachable gt tr authority c [] (bm_sysconfig_connection_init authority c)"
| sc_step: "sc_reachable gt tr authority c es st \<Longrightarrow> sc_enabled e st \<Longrightarrow>
     sc_reachable gt tr authority c (es @ [e]) (sc_handle gt tr e st)"

fun request_context :: "sc_event \<Rightarrow> nat list" where
  "request_context (Sev_Update settings ctx) = [ctx]"
| "request_context (Sev_Delete ctx) = [ctx]"
| "request_context (Sev_Get_Secrets n ctx) = [ctx]"
| "request_context _ = []"

fun reply_context :: "sc_output \<Rightarrow> nat list" where
  "reply_context (REPLY ctx) = [ctx]"
| "reply_context (REPLY_SECRETS ctx h) = [ctx]"
| "reply_context (REPLY_ERROR ctx e) = [ctx]"
| "reply_context _ = []"

definition sc_replies :: "sys_connection \<Rightarrow> nat \<Rightarrow> nat" where
  "sc_replies st ctx = count_list (concat (map reply_context (sc_out st))) ctx"

definition sc_pending :: "sys_connection \<Rightarrow> nat \<Rightarrow> nat set" where
  "sc_pending st ctx = {k. \<exists>call. sc_calls st k = Some call \<and> sk_context call = ctx}"

section \<open>Lemmas\<close>

lemma sc_fields [simp]:
  "sc_conn (sc_emit x st) = sc_conn st" "sc_calls (sc_emit x st) = sc_calls st"
  "sc_out (sc_emit x st) = sc_out st @ [x]" "sc_next (sc_emit x st) = sc_next st"
  "sc_authority (sc_emit x st) = sc_authority st" "sc_alive (sc_emit x st) = sc_alive st"
  "sc_secrets (sc_emit x st) = sc_secrets st" "sc_pk_calls (sc_emit x st) = sc_pk_calls st"
  "sc_conn (sc_free k st) = sc_conn st" "sc_calls (sc_free k st) = (sc_calls st)(k := None)"
  "sc_out (sc_free k st) = sc_out st" "sc_next (sc_free k st) = sc_next st"
  "sc_authority (sc_free k st) = sc_authority st" "sc_alive (sc_free k st) = sc_alive st"
  "sc_secrets (sc_free k st) = sc_secrets st" "sc_pk_calls (sc_free k st) = sc_pk_calls st"
  by (simp_all add: sc_emit_def sc_free_def)

lemma sc_check_fields [simp]:
  "sc_conn (sc_check r ctx st) = sc_conn st" "sc_out (sc_check r ctx st) = sc_out st"
  "sc_next (sc_check r ctx st) = Suc (sc_next st)" "sc_authority (sc_check r ctx st) = sc_authority st"
  "sc_calls (sc_check r ctx st) = (sc_calls st)(sc_next st \<mapsto> \<lparr>sk_context = ctx, sk_request = r, sk_disposed = False\<rparr>)"
  "sc_alive (sc_check r ctx st) = sc_alive st"
  by (simp_all add: sc_check_def)

lemma emit_updated_fields [simp]:
  "sc_conn (bm_settings_connection_interface_emit_updated gt tr st) = sc_conn st"
  "sc_calls (bm_settings_connection_interface_emit_updated gt tr st) = sc_calls st"
  "sc_next (bm_settings_connection_interface_emit_updated gt tr st) = sc_next st"
  "sc_authority (bm_settings_connection_interface_emit_updated gt tr st) = sc_authority st"
  "sc_alive (bm_settings_connection_interface_emit_updated gt tr st) = sc_alive st"
  "sc_pk_calls (bm_settings_connection_interface_emit_updated gt tr st) = sc_pk_calls st"
  "concat (map reply_context (sc_out (bm_settings_connection_interface_emit_updated gt tr st))) =
     concat (map reply_context (sc_out st))"
  by (simp_all add: bm_settings_connection_interface_emit_updated_def)

lemma update_fields [simp]:
  "sc_calls (snd (bm_sysconfig_connection_update gt tr new sg st)) = sc_calls st"
  "sc_next (snd (bm_sysconfig_connection_update gt tr new sg st)) = sc_next st"
  "sc_authority (snd (bm_sysconfig_connection_update gt tr new sg st)) = sc_authority st"
  "sc_alive (snd (bm_sysconfig_connection_update gt tr new sg st)) = sc_alive st"
  "sc_pk_calls (snd (bm_sysconfig_connection_update gt tr new sg st)) = sc_pk_calls st"
  "concat (map reply_context (sc_out (snd (bm_sysconfig_connection_update gt tr new sg st)))) =
     concat (map reply_context (sc_out st))"
  by (simp_all add: bm_sysconfig_connection_update_def connection_update_def Let_def split: prod.split sum.split)

lemma update_result:
  assumes "bm_sysconfig_connection_update gt tr new sg st = (r, st1)"
  shows "sc_calls st1 = sc_calls st" "sc_next st1 = sc_next st" "sc_authority st1 = sc_authority st"
    "sc_alive st1 = sc_alive st" "sc_pk_calls st1 = sc_pk_calls st" "concat (map reply_context (sc_out st1)) = concat (map reply_context (sc_out st))"
  using update_fields [of gt tr new sg st] unfolding assms by simp_all

lemma sc_replies_snoc:
  "sc_replies (sc_emit x st) ctx = sc_replies st ctx + (if reply_context x = [ctx] then 1 else 0)"
  by (cases x) (simp_all add: sc_replies_def)

text \<open>An answer to a pending call replies to its request, once, and ends the call.\<close>

lemma polkit_replies:
  assumes "sc_calls st k = Some call"
  shows "sc_calls (sc_polkit gt tr k reply st) = (sc_calls st)(k := None) \<and>
    sc_next (sc_polkit gt tr k reply st) = sc_next st \<and> sc_alive (sc_polkit gt tr k reply st) = sc_alive st \<and>
    sc_authority (sc_polkit gt tr k reply st) = sc_authority st \<and>
    sc_pk_calls (sc_polkit gt tr k reply st) = (if sk_disposed call then sc_pk_calls st else remove1 k (sc_pk_calls st)) \<and>
    concat (map reply_context (sc_out (sc_polkit gt tr k reply st))) =
      concat (map reply_context (sc_out st)) @ [sk_context call]"
proof -
  have answer: "sc_calls (pk_answer k call reply work st) = (sc_calls st)(k := None) \<and>
      sc_next (pk_answer k call reply work st) = sc_next st \<and> sc_alive (pk_answer k call reply work st) = sc_alive st \<and>
      sc_authority (pk_answer k call reply work st) = sc_authority st \<and>
      sc_pk_calls (pk_answer k call reply work st) = (if sk_disposed call then sc_pk_calls st else remove1 k (sc_pk_calls st)) \<and>
      concat (map reply_context (sc_out (pk_answer k call reply work st))) =
        concat (map reply_context (sc_out st)) @ [sk_context call]"
    if "\<And>st. sc_calls (work st) = (sc_calls st)(k := None) \<and> sc_next (work st) = sc_next st \<and> sc_alive (work st) = sc_alive st \<and>
      sc_authority (work st) = sc_authority st \<and> sc_pk_calls (work st) = sc_pk_calls st \<and>
      concat (map reply_context (sc_out (work st))) = concat (map reply_context (sc_out st)) @ [sk_context call]" for work
    using that by (simp add: pk_answer_def Let_def split: pk_reply.split)
  show ?thesis
  proof (cases "sk_request call")
    case (Rq_Update new)
    have "sc_polkit gt tr k reply st = pk_answer k call reply
       (\<lambda>st. case bm_sysconfig_connection_update gt tr new False st of
               (Some e, st1) \<Rightarrow> sc_free k (sc_emit (REPLY_ERROR (sk_context call) e) st1)
             | (None, st1) \<Rightarrow> connection_update gt tr (con_done_cb k (sk_context call)) st1) st"
      using assms Rq_Update by (simp add: sc_polkit_def pk_update_cb_def)
    then show ?thesis
      by (simp only:) (rule answer, simp add: connection_update_def con_done_cb_def update_result split: prod.split option.split)
  next
    case Rq_Delete
    then have "sc_polkit gt tr k reply st = pk_answer k call reply (do_delete (con_done_cb k (sk_context call))) st"
      using assms by (simp add: sc_polkit_def pk_delete_cb_def)
    then show ?thesis
      by (simp only:) (rule answer, simp add: do_delete_def con_done_cb_def)
  next
    case (Rq_Secrets n)
    then have "sc_polkit gt tr k reply st =
        pk_answer k call reply (get_secrets n (con_secrets_cb k (sk_context call))) st"
      using assms by (simp add: sc_polkit_def pk_secrets_cb_def)
    then show ?thesis
      by (simp only:) (rule answer, simp add: get_secrets_def con_secrets_cb_def split: option.split)
  qed
qed

section \<open>Every request is answered once\<close>

definition sc_ok :: "sys_connection \<Rightarrow> bool" where
  "sc_ok st \<longleftrightarrow> (\<forall>k \<ge> sc_next st. sc_calls st k = None)"

lemma sc_pending_finite: "sc_ok st \<Longrightarrow> finite (sc_pending st ctx)"
proof -
  assume "sc_ok st"
  then have "sc_pending st ctx \<subseteq> {..<sc_next st}"
    by (auto simp: sc_ok_def sc_pending_def) (metis not_le_imp_less option.distinct(1))
  then show ?thesis
    using finite_subset by blast
qed

text \<open>Calls started plus replies sent, for one bus invocation.\<close>

definition sc_served :: "sys_connection \<Rightarrow> nat \<Rightarrow> nat" where
  "sc_served st ctx = sc_replies st ctx + card (sc_pending st ctx)"

lemma served_check:
  assumes "sc_ok st"
  shows "sc_ok (sc_check r ctx st)"
    "sc_served (sc_check r ctx st) x = sc_served st x + (if x = ctx then 1 else 0)"
proof -
  show "sc_ok (sc_check r ctx st)"
    using assms by (simp add: sc_ok_def)
  have new: "sc_calls st (sc_next st) = None"
    using assms by (simp add: sc_ok_def)
  then have "sc_pending (sc_check r ctx st) x = (if x = ctx then insert (sc_next st) (sc_pending st x) else sc_pending st x)"
    by (auto simp: sc_pending_def)
  moreover have "sc_next st \<notin> sc_pending st x"
    using new by (simp add: sc_pending_def)
  ultimately show "sc_served (sc_check r ctx st) x = sc_served st x + (if x = ctx then 1 else 0)"
    using sc_pending_finite [OF assms, of x] by (auto simp: sc_served_def sc_replies_def)
qed

lemma served_error:
  "sc_ok (sc_emit (REPLY_ERROR ctx e) st) = sc_ok st"
  "sc_served (sc_emit (REPLY_ERROR ctx e) st) x = sc_served st x + (if x = ctx then 1 else 0)"
  by (simp_all add: sc_ok_def sc_served_def sc_pending_def sc_replies_snoc)

lemma served_polkit:
  assumes "sc_ok st"
  shows "sc_ok (sc_polkit gt tr k reply st) \<and> sc_served (sc_polkit gt tr k reply st) x = sc_served st x"
proof (cases "sc_calls st k")
  case None
  then show ?thesis
    using assms by (simp add: sc_polkit_def)
next
  case (Some call)
  let ?st = "sc_polkit gt tr k reply st"
  have fields: "sc_calls ?st = (sc_calls st)(k := None)" "sc_next ?st = sc_next st"
      "concat (map reply_context (sc_out ?st)) = concat (map reply_context (sc_out st)) @ [sk_context call]"
    using polkit_replies [OF Some, of gt tr reply] by simp_all
  have "sc_pending ?st x = (if x = sk_context call then sc_pending st x - {k} else sc_pending st x)"
    using Some fields by (auto simp: sc_pending_def)
  moreover have "x = sk_context call \<Longrightarrow> k \<in> sc_pending st x"
    using Some by (simp add: sc_pending_def)
  moreover have "card (sc_pending st x - {k}) = card (sc_pending st x) - 1" "0 < card (sc_pending st x)" if "k \<in> sc_pending st x"
    using that sc_pending_finite [OF assms, of x] by (auto simp: card_gt_0_iff)
  ultimately show ?thesis
    using assms fields by (auto simp: sc_served_def sc_replies_def sc_ok_def)
qed

lemma served_dispose:
  "sc_ok st \<Longrightarrow> sc_ok (sysconfig_connection_dispose st)"
  "sc_served (sysconfig_connection_dispose st) x = sc_served st x"
proof -
  have "sc_pending (sysconfig_connection_dispose st) x = sc_pending st x"
    by (force simp: sc_pending_def sysconfig_connection_dispose_def)
  then show "sc_served (sysconfig_connection_dispose st) x = sc_served st x"
    by (simp add: sc_served_def sc_replies_def sysconfig_connection_dispose_def)
  show "sc_ok st \<Longrightarrow> sc_ok (sysconfig_connection_dispose st)"
    by (auto simp: sc_ok_def sysconfig_connection_dispose_def)
qed

lemma served_update:
  "sc_ok (snd (bm_sysconfig_connection_update gt tr new sg st)) = sc_ok st"
  "sc_served (snd (bm_sysconfig_connection_update gt tr new sg st)) x = sc_served st x"
  by (simp_all add: sc_ok_def sc_served_def sc_pending_def sc_replies_def)

lemma served_handle:
  assumes "sc_ok st"
  shows "sc_ok (sc_handle gt tr e st) \<and>
    sc_served (sc_handle gt tr e st) x = sc_served st x + count_list (request_context e) x"
  using assms
  by (cases e)
     (auto simp: impl_exported_connection_update_def impl_exported_connection_delete_def dbus_update_def dbus_delete_def
        dbus_get_secrets_def served_check served_error served_polkit served_dispose served_update
        split: option.split sum.split)

lemma reachable_served:
  "sc_reachable gt tr authority c es st \<Longrightarrow>
     sc_ok st \<and> sc_served st x = count_list (concat (map request_context es)) x"
proof (induction rule: sc_reachable.induct)
  case sc_start
  show ?case
    by (simp add: sc_ok_def sc_served_def sc_replies_def sc_pending_def bm_sysconfig_connection_init_def)
next
  case (sc_step es st e)
  then show ?case
    using served_handle [of st gt tr e x] by simp
qed

section \<open>Nothing happens without authorization\<close>

text \<open>A call that has not been disposed is on the list of the live object, and an update waits with settings
  that were valid.\<close>

definition sc_calls_ok :: "bool \<Rightarrow> sys_connection \<Rightarrow> bool" where
  "sc_calls_ok authority st \<longleftrightarrow> sc_authority st = authority \<and>
     (\<forall>k call. sc_calls st k = Some call \<longrightarrow>
        (\<not> sk_disposed call \<longrightarrow> sc_alive st \<and> k \<in> set (sc_pk_calls st)) \<and>
        (\<forall>new. sk_request call = Rq_Update new \<longrightarrow> connection_wf new \<and> bm_connection_verify new = Inr ()))"

lemma parsed_hash_ok:
  "bm_connection_new_from_hash tr h = Inr c \<Longrightarrow> connection_wf c \<and> bm_connection_verify c = Inr ()"
  by (auto simp: bm_connection_new_from_hash_def Let_def parse_wf new_wf split: sum.splits)

lemma calls_ok_handle:
  assumes "sc_calls_ok authority st" "sc_enabled e st"
  shows "sc_calls_ok authority (sc_handle gt tr e st)"
proof (cases e)
  case (Sev_Polkit k reply)
  then obtain call where "sc_calls st k = Some call"
    using assms(2) by auto
  then show ?thesis
    using assms(1) polkit_replies [of st k call gt tr reply] Sev_Polkit
    by (auto simp: sc_calls_ok_def split: if_splits)
next
  case (Sev_Update settings ctx)
  then show ?thesis
    using assms
    by (auto simp: impl_exported_connection_update_def dbus_update_def sc_calls_ok_def sc_check_def dest: parsed_hash_ok
        split: option.split sum.split)
next
  case (Sev_Plugin_Update new)
  then show ?thesis
    using assms by (simp add: sc_calls_ok_def)
next
  case Sev_Dispose
  then show ?thesis
    using assms by (auto simp: sc_calls_ok_def sysconfig_connection_dispose_def split: if_splits)
qed (use assms in \<open>auto simp: impl_exported_connection_delete_def dbus_delete_def dbus_get_secrets_def sc_calls_ok_def
       sc_check_def split: option.split\<close>)

lemma reachable_calls_ok: "sc_reachable gt tr authority c es st \<Longrightarrow> sc_calls_ok authority st"
  by (induction rule: sc_reachable.induct)
     (auto simp: calls_ok_handle, simp add: sc_calls_ok_def bm_sysconfig_connection_init_def)

text \<open>What an event sends.\<close>

definition sc_sent :: "numbering \<Rightarrow> transform \<Rightarrow> sc_event \<Rightarrow> sys_connection \<Rightarrow> sc_output list" where
  "sc_sent gt tr e st = drop (length (sc_out st)) (sc_out (sc_handle gt tr e st))"

definition only_errors :: "sc_output list \<Rightarrow> bool" where
  "only_errors xs \<longleftrightarrow> (\<forall>x \<in> set xs. case x of REPLY_ERROR _ _ \<Rightarrow> True | _ \<Rightarrow> False)"

lemma requests_only_check:
  assumes "(\<exists>settings ctx. e = Sev_Update settings ctx) \<or> (\<exists>ctx. e = Sev_Delete ctx) \<or>
    (\<exists>n ctx. e = Sev_Get_Secrets n ctx) \<or> e = Sev_Dispose"
  shows "sc_conn (sc_handle gt tr e st) = sc_conn st \<and> only_errors (sc_sent gt tr e st)"
  using assms
  by (auto simp: sc_sent_def only_errors_def impl_exported_connection_update_def impl_exported_connection_delete_def
      dbus_update_def dbus_delete_def dbus_get_secrets_def sysconfig_connection_dispose_def split: option.splits sum.splits)

lemma polkit_refused:
  assumes "sc_calls st k = Some call" "sk_disposed call \<or> (\<forall>challenge. reply \<noteq> Pk_Result True challenge)"
  shows "sc_conn (sc_polkit gt tr k reply st) = sc_conn st \<and> only_errors (sc_sent gt tr (Sev_Polkit k reply) st)"
  using assms
  by (cases reply)
     (auto simp: sc_sent_def only_errors_def sc_polkit_def pk_update_cb_def pk_delete_cb_def pk_secrets_cb_def pk_answer_def
        Let_def split: sc_request.split)

lemma polkit_granted:
  assumes "sc_calls st k = Some call" "\<not> sk_disposed call"
  shows "sc_polkit gt tr k (Pk_Result True challenge) st =
    (let st1 = st\<lparr>sc_pk_calls := remove1 k (sc_pk_calls st)\<rparr>
     in case sk_request call of
          Rq_Update new \<Rightarrow>
            (case bm_sysconfig_connection_update gt tr new False st1 of
               (Some e, st2) \<Rightarrow> sc_free k (sc_emit (REPLY_ERROR (sk_context call) e) st2)
             | (None, st2) \<Rightarrow> connection_update gt tr (con_done_cb k (sk_context call)) st2)
        | Rq_Delete \<Rightarrow> do_delete (con_done_cb k (sk_context call)) st1
        | Rq_Secrets setting_name \<Rightarrow> get_secrets setting_name (con_secrets_cb k (sk_context call)) st1)"
  using assms
  by (simp add: sc_polkit_def pk_update_cb_def pk_delete_cb_def pk_secrets_cb_def pk_answer_def Let_def split: sc_request.split)

text \<open>What an authorized caller gets, one request at a time.\<close>

lemma update_sends:
  "\<exists>xs. sc_out (snd (bm_sysconfig_connection_update gt tr new False st)) = sc_out st \<and>
     fst (bm_sysconfig_connection_update gt tr new False st) = xs"
  by (simp add: bm_sysconfig_connection_update_def Let_def split: prod.split sum.split)

lemma granted_delete:
  assumes "sc_calls st k = Some call" "\<not> sk_disposed call" "sk_request call = Rq_Delete"
  shows "sc_conn (sc_polkit gt tr k (Pk_Result True challenge) st) = sc_conn st"
    "sc_sent gt tr (Sev_Polkit k (Pk_Result True challenge)) st = [REMOVED, REPLY (sk_context call)]"
  using assms by (simp_all add: sc_sent_def polkit_granted do_delete_def con_done_cb_def Let_def)

lemma granted_secrets:
  assumes "sc_calls st k = Some call" "\<not> sk_disposed call" "sk_request call = Rq_Secrets n"
  shows "sc_conn (sc_polkit gt tr k (Pk_Result True challenge) st) = sc_conn st"
    "REMOVED \<notin> set (sc_sent gt tr (Sev_Polkit k (Pk_Result True challenge)) st)"
  using assms
  by (auto simp: sc_sent_def polkit_granted get_secrets_def con_secrets_cb_def Let_def split: option.splits)

lemma granted_update:
  assumes "sc_calls st k = Some call" "\<not> sk_disposed call" "sk_request call = Rq_Update new"
  shows "sc_sent gt tr (Sev_Polkit k (Pk_Result True challenge)) st =
      (case fst (bm_sysconfig_connection_update gt tr new False (st\<lparr>sc_pk_calls := remove1 k (sc_pk_calls st)\<rparr>)) of
         Some e \<Rightarrow> [REPLY_ERROR (sk_context call) e]
       | None \<Rightarrow> [UPDATED (bm_connection_to_hash gt (bm_connection_clear_secrets tr (bm_connection_duplicate tr
             (sc_conn (sc_polkit gt tr k (Pk_Result True challenge) st))))), REPLY (sk_context call)])"
    "sc_conn (sc_polkit gt tr k (Pk_Result True challenge) st) =
      sc_conn (snd (bm_sysconfig_connection_update gt tr new False (st\<lparr>sc_pk_calls := remove1 k (sc_pk_calls st)\<rparr>)))"
proof -
  let ?st = "st\<lparr>sc_pk_calls := remove1 k (sc_pk_calls st)\<rparr>"
  obtain r st2 where u: "bm_sysconfig_connection_update gt tr new False ?st = (r, st2)"
    by (cases "bm_sysconfig_connection_update gt tr new False ?st")
  have "sc_out st2 = sc_out st"
    using update_sends [of gt tr new ?st] by (simp add: u)
  then show "sc_sent gt tr (Sev_Polkit k (Pk_Result True challenge)) st =
      (case fst (bm_sysconfig_connection_update gt tr new False ?st) of
         Some e \<Rightarrow> [REPLY_ERROR (sk_context call) e]
       | None \<Rightarrow> [UPDATED (bm_connection_to_hash gt (bm_connection_clear_secrets tr (bm_connection_duplicate tr
             (sc_conn (sc_polkit gt tr k (Pk_Result True challenge) st))))), REPLY (sk_context call)])"
    "sc_conn (sc_polkit gt tr k (Pk_Result True challenge) st) = sc_conn (snd (bm_sysconfig_connection_update gt tr new False ?st))"
    using assms
    by (simp_all add: u sc_sent_def polkit_granted connection_update_def con_done_cb_def Let_def
        bm_settings_connection_interface_emit_updated_def split: option.split)
qed

section \<open>The effect of an update\<close>

text \<open>Two connections with the same settings, whatever the order of their tables.\<close>

definition same_settings :: "connection \<Rightarrow> connection \<Rightarrow> bool" where
  "same_settings a b \<longleftrightarrow> (\<forall>cls. bm_connection_get_setting a cls = bm_connection_get_setting b cls)"

lemma compare_exact:
  assumes "inj gt" "connection_wf a" "connection_wf b"
  shows "bm_connection_compare gt (Some a) (Some b) FLAG_EXACT \<longleftrightarrow> same_settings a b"
  unfolding connection_compare_iff [OF assms] same_settings_def same_properties_exact option.rel_eq ..

lemma to_hash_valid:
  assumes "connection_ok c" "bm_connection_verify c = Inr ()"
  shows "bm_connection_to_hash gt c = Some (gh_foreach (add_one_setting_to_hash gt) (conn_settings c) gh_new)"
proof -
  obtain s where "bm_connection_get_setting c BM_TYPE_SETTING_CONNECTION = Some s"
    using assms(2) by (auto simp: connection_verify_ok)
  then have "gh_lookup (gh_foreach (add_one_setting_to_hash gt) (conn_settings c) gh_new)
      (class_name BM_TYPE_SETTING_CONNECTION) \<noteq> None"
    unfolding connection_to_hash_lookup [OF assms(1)] by simp
  then have "gh_foreach (add_one_setting_to_hash gt) (conn_settings c) gh_new \<noteq> []"
    by (metis gh_lookup_Nil)
  then show ?thesis
    by (simp add: bm_connection_to_hash_def gh_size_def Let_def)
qed

text \<open>\<open>to_hash\<close> after \<open>new_from_hash\<close>: what a valid connection says of itself describes it.\<close>

lemma to_hash_describes:
  assumes "inj gt" "connection_ok c" "bm_connection_verify c = Inr ()"
  obtains H d where "bm_connection_to_hash gt c = Some H" "bm_connection_new_from_hash tr H = Inr d"
    "same_settings d c"
  using new_from_same_tables [OF assms to_hash_same_tables [OF assms(2)], of tr] to_hash_valid [OF assms(2,3)]
  unfolding same_settings_def by blast

lemma ok_same_settings:
  "connection_wf a \<Longrightarrow> connection_ok b \<Longrightarrow> same_settings a b \<Longrightarrow> connection_ok a"
  by (simp add: connection_ok_def same_settings_def)

lemma verify_same_settings:
  "connection_wf a \<Longrightarrow> connection_wf b \<Longrightarrow> same_settings a b \<Longrightarrow>
     bm_connection_verify a = Inr () \<longleftrightarrow> bm_connection_verify b = Inr ()"
  using connection_verify_same [of b a] by (simp add: same_settings_def)

text \<open>Replacing by the tables of a valid connection cannot fail.\<close>

lemma replace_by_valid:
  assumes "inj gt" "connection_ok new" "bm_connection_verify new = Inr ()" "bm_connection_to_hash gt new = Some H"
  shows "\<exists>c'. bm_connection_replace_settings tr H c = (c', Inr ()) \<and> connection_wf c' \<and> same_settings c' new \<and>
    conn_path c' = conn_path c \<and> conn_scope c' = conn_scope c"
proof -
  let ?c = "c\<lparr>conn_settings := gh_new\<rparr>" and ?c' = "gh_foreach (parse_one_setting tr) H (c\<lparr>conn_settings := gh_new\<rparr>)"
  have H: "same_tables H (gh_foreach (add_one_setting_to_hash gt) (conn_settings new) gh_new)"
    using assms(4) to_hash_valid [OF assms(2,3), of gt] to_hash_same_tables [OF assms(2), of gt] by simp
  then have gwf: "gh_wf H"
    by (simp add: same_tables_def)
  have wf: "connection_wf ?c"
    by (simp add: connection_wf_def gh_simps ght.invar_new)
  have "bm_connection_get_setting ?c' cls = bm_connection_get_setting (gh_foreach (parse_one_setting tr) H bm_connection_new) cls"
    for cls
  proof -
    have "bm_connection_get_setting ?c cls = None"
      by (simp add: bm_connection_get_setting_def gh_simps)
    then show ?thesis
      by (simp add: parse_get [OF gwf] get_new split: option.split)
  qed
  then have same: "same_settings ?c' new"
    using parse_roundtrip [OF assms(1,2) H] by (simp add: same_settings_def)
  then have "bm_connection_verify ?c' = Inr ()"
    using verify_same_settings [OF parse_wf [OF wf] _ same] assms(2,3) by (simp add: connection_ok_def)
  then show ?thesis
    using same parse_wf [OF wf] by (simp add: bm_connection_replace_settings_def)
qed

lemma sysconfig_update_effect:
  assumes "inj gt" "connection_wf (sc_conn st)" "connection_ok new" "bm_connection_verify new = Inr ()"
  shows "\<exists>st'. bm_sysconfig_connection_update gt tr new False st = (None, st') \<and> connection_ok (sc_conn st') \<and>
    same_settings (sc_conn st') new \<and> conn_path (sc_conn st') = conn_path (sc_conn st) \<and>
    conn_scope (sc_conn st') = conn_scope (sc_conn st)"
proof (cases "bm_connection_compare gt (Some (sc_conn st)) (Some new) FLAG_EXACT")
  case True
  then have "same_settings (sc_conn st) new"
    using compare_exact [OF assms(1,2)] assms(3) by (simp add: connection_ok_def)
  then show ?thesis
    using True ok_same_settings [OF assms(2,3)] by (simp add: bm_sysconfig_connection_update_def)
next
  case False
  obtain H where H: "bm_connection_to_hash gt new = Some H"
    using to_hash_valid [OF assms(3,4)] by blast
  obtain c' where "bm_connection_replace_settings tr H (sc_conn st) = (c', Inr ())" "connection_wf c'" "same_settings c' new"
      "conn_path c' = conn_path (sc_conn st)" "conn_scope c' = conn_scope (sc_conn st)"
    using replace_by_valid [OF assms(1,3,4) H] by blast
  then show ?thesis
    using False H ok_same_settings [OF _ assms(3)] by (simp add: bm_sysconfig_connection_update_def)
qed

lemma update_wf: "connection_wf (sc_conn st) \<Longrightarrow> connection_wf (sc_conn (snd (bm_sysconfig_connection_update gt tr new sg st)))"
proof -
  assume "connection_wf (sc_conn st)"
  moreover have "connection_wf (fst (bm_connection_replace_settings tr H c))" for H c
    using parse_wf [of "c\<lparr>conn_settings := gh_new\<rparr>" tr H]
    by (simp add: bm_connection_replace_settings_def Let_def) (simp add: connection_wf_def gh_simps ght.invar_new)
  ultimately show ?thesis
    by (auto simp: bm_sysconfig_connection_update_def connection_update_def Let_def split: prod.split sum.split)
       (metis fst_conv)+
qed

lemma handle_conn:
  "sc_conn (sc_handle gt tr e st) = sc_conn st \<or>
     (\<exists>new sg st0. sc_conn st0 = sc_conn st \<and> sc_conn (sc_handle gt tr e st) = sc_conn (snd (bm_sysconfig_connection_update gt tr new sg st0)))"
proof (cases e)
  case (Sev_Polkit k reply)
  show ?thesis
  proof (cases "sc_calls st k")
    case (Some call)
    show ?thesis
    proof (cases "sk_disposed call \<or> (\<forall>challenge. reply \<noteq> Pk_Result True challenge)")
      case True
      then show ?thesis
        using polkit_refused [OF Some] Sev_Polkit by simp
    next
      case False
      then obtain ch where "reply = Pk_Result True ch"
        by blast
      then show ?thesis
      proof (cases "sk_request call")
        case (Rq_Update new)
        then show ?thesis
          using False \<open>reply = Pk_Result True ch\<close> Sev_Polkit granted_update(2) [OF Some _ Rq_Update, of gt tr ch]
          by (intro disjI2 exI [of _ new] exI [of _ False] exI [of _ "st\<lparr>sc_pk_calls := remove1 k (sc_pk_calls st)\<rparr>"]) simp
      qed (use False \<open>reply = Pk_Result True ch\<close> Sev_Polkit granted_delete [OF Some] granted_secrets [OF Some] in simp_all)
    qed
  qed (simp add: Sev_Polkit sc_polkit_def)
next
  case (Sev_Plugin_Update new)
  then show ?thesis
    by auto
qed (use requests_only_check [of e gt tr st] in auto)

lemma reachable_conn_wf: "sc_reachable gt tr authority c es st \<Longrightarrow> connection_wf c \<Longrightarrow> connection_wf (sc_conn st)"
proof (induction rule: sc_reachable.induct)
  case (sc_step es st e)
  then show ?case
    using handle_conn [of gt tr e st] update_wf by metis
qed (simp add: bm_sysconfig_connection_init_def)

text \<open>No event of the connection changes its path or scope.\<close>

lemma update_path:
  "conn_path (sc_conn (snd (bm_sysconfig_connection_update gt tr new sg st))) = conn_path (sc_conn st) \<and>
   conn_scope (sc_conn (snd (bm_sysconfig_connection_update gt tr new sg st))) = conn_scope (sc_conn st)"
proof -
  have "conn_path (fst (bm_connection_replace_settings tr H c)) = conn_path c \<and>
      conn_scope (fst (bm_connection_replace_settings tr H c)) = conn_scope c" for H c
    by (simp add: bm_connection_replace_settings_def Let_def)
  then show ?thesis
    by (auto simp: bm_sysconfig_connection_update_def connection_update_def Let_def split: prod.split sum.split)
       (metis fst_conv)+
qed

lemma handle_path:
  "conn_path (sc_conn (sc_handle gt tr e st)) = conn_path (sc_conn st)"
  "conn_scope (sc_conn (sc_handle gt tr e st)) = conn_scope (sc_conn st)"
  using handle_conn [of gt tr e st] update_path by metis+

section \<open>Runs\<close>

fun sc_all_enabled :: "numbering \<Rightarrow> transform \<Rightarrow> sc_event list \<Rightarrow> sys_connection \<Rightarrow> bool" where
  "sc_all_enabled gt tr [] st = True"
| "sc_all_enabled gt tr (e # es) st = (sc_enabled e st \<and> sc_all_enabled gt tr es (sc_handle gt tr e st))"

fun sc_run :: "numbering \<Rightarrow> transform \<Rightarrow> sc_event list \<Rightarrow> sys_connection \<Rightarrow> sys_connection" where
  "sc_run gt tr [] st = st"
| "sc_run gt tr (e # es) st = sc_run gt tr es (sc_handle gt tr e st)"

lemma reachable_continue:
  "sc_reachable gt tr authority c fs st \<Longrightarrow> sc_all_enabled gt tr es st \<Longrightarrow>
     sc_reachable gt tr authority c (fs @ es) (sc_run gt tr es st)"
proof (induction es arbitrary: fs st)
  case (Cons e es)
  then show ?case
    using Cons.IH [of "fs @ [e]" "sc_handle gt tr e st"] sc_step [of gt tr authority c fs st e] by simp
qed simp

lemma reachable_run_from_start:
  "sc_all_enabled gt tr es (bm_sysconfig_connection_init authority c) \<Longrightarrow>
     sc_reachable gt tr authority c es (sc_run gt tr es (bm_sysconfig_connection_init authority c))"
  using reachable_continue [OF sc_start] by simp

lemmas sc_eval = bm_sysconfig_connection_init_def impl_exported_connection_delete_def dbus_delete_def dbus_get_secrets_def
  check_writable_def bm_connection_get_setting_def bm_setting_connection_get_read_only_def

section \<open>Properties\<close>

text \<open>C17: Every request to update, delete or reveal secrets is answered exactly once: in every reachable state
  the replies sent to a bus invocation and the PolicyKit calls still pending for it add up to the
  requests it made, and the answer to a pending call, whatever it is, also after the connection is
  gone, sends one reply to the call's own invocation and ends that call alone.\<close>

theorem system_connection_answers_once:
  assumes "sc_reachable gt tr authority c es st"
  shows "sc_replies st ctx + card (sc_pending st ctx) = count_list (concat (map request_context es)) ctx \<and>
    (\<forall>k \<in> sc_pending st ctx. \<forall>reply x. let st' = sc_handle gt tr (Sev_Polkit k reply) st in
       sc_replies st' x = sc_replies st x + (if x = ctx then 1 else 0) \<and> sc_pending st' x = sc_pending st x - {k})"
proof (intro conjI ballI allI)
  show "sc_replies st ctx + card (sc_pending st ctx) = count_list (concat (map request_context es)) ctx"
    using reachable_served [OF assms, of ctx] by (simp add: sc_served_def)
next
  fix k reply x
  assume "k \<in> sc_pending st ctx"
  then obtain call where call: "sc_calls st k = Some call" "sk_context call = ctx"
    by (auto simp: sc_pending_def)
  then show "let st' = sc_handle gt tr (Sev_Polkit k reply) st in
       sc_replies st' x = sc_replies st x + (if x = ctx then 1 else 0) \<and> sc_pending st' x = sc_pending st x - {k}"
    using polkit_replies [OF call(1), of gt tr reply] by (auto simp: sc_replies_def sc_pending_def Let_def)
qed

theorem system_connection_answers_once_witness:
  "\<exists>st. sc_reachable sample_gt (\<lambda>_ _. None) True sample_connection [Sev_Delete 9, Sev_Get_Secrets ''serial'' 9, Sev_Dispose] st \<and>
     card (sc_pending st 9) = 2 - sc_replies st 9"
proof -
  let ?es = "[Sev_Delete 9, Sev_Get_Secrets ''serial'' 9, Sev_Dispose]" and ?tr = "\<lambda>_ _. None"
  have "sc_all_enabled sample_gt ?tr ?es (bm_sysconfig_connection_init True sample_connection)"
    by (simp add: sc_eval sample_connection_def)
  note r = reachable_run_from_start [OF this]
  have "sc_replies (sc_run sample_gt ?tr ?es (bm_sysconfig_connection_init True sample_connection)) 9 +
      card (sc_pending (sc_run sample_gt ?tr ?es (bm_sysconfig_connection_init True sample_connection)) 9) = 2"
    using system_connection_answers_once [OF r, of 9] by simp
  then show ?thesis
    by (intro exI [of _ "sc_run sample_gt ?tr ?es (bm_sysconfig_connection_init True sample_connection)"] conjI r) simp
qed

text \<open>C15: A client of the bus changes a system connection, deletes it or reads its secrets only with the
  authorization of PolicyKit: when the settings change or one of these is sent, the event is an
  update by the connection's own plugin or a positive answer to a pending call of that kind, of a
  connection that has not been disposed of, and new settings had passed verification.\<close>

theorem system_connection_protected:
  assumes "sc_reachable gt tr authority c es st" "sc_enabled e st"
    and "sc_conn (sc_handle gt tr e st) \<noteq> sc_conn st \<or> REMOVED \<in> set (sc_sent gt tr e st) \<or>
      (\<exists>ctx h. REPLY_SECRETS ctx h \<in> set (sc_sent gt tr e st))"
  shows "(\<exists>new. e = Sev_Plugin_Update new) \<or>
    (\<exists>k challenge call. e = Sev_Polkit k (Pk_Result True challenge) \<and> authority \<and> sc_alive st \<and>
       sc_calls st k = Some call \<and>
       (sc_conn (sc_handle gt tr e st) \<noteq> sc_conn st \<longrightarrow>
          (\<exists>new. sk_request call = Rq_Update new \<and> bm_connection_verify new = Inr ())) \<and>
       (REMOVED \<in> set (sc_sent gt tr e st) \<longrightarrow> sk_request call = Rq_Delete) \<and>
       (\<forall>ctx h. REPLY_SECRETS ctx h \<in> set (sc_sent gt tr e st) \<longrightarrow>
          ctx = sk_context call \<and> (\<exists>n. sk_request call = Rq_Secrets n)))"
proof -
  have quiet: "\<not> only_errors (sc_sent gt tr e st) \<or> sc_conn (sc_handle gt tr e st) \<noteq> sc_conn st"
    using assms(3) by (force simp: only_errors_def)
  show ?thesis
  proof (cases e)
    case (Sev_Polkit k reply)
    then obtain call where call: "sc_calls st k = Some call" "sc_authority st"
      using assms(2) by auto
    have live: "\<not> sk_disposed call" and "\<exists>ch. reply = Pk_Result True ch"
      using polkit_refused [OF call(1), of reply gt tr] quiet Sev_Polkit by auto
    then obtain ch where reply: "reply = Pk_Result True ch"
      by blast
    have ok: "sc_calls_ok authority st"
      by (rule reachable_calls_ok [OF assms(1)])
    have "sc_alive st" "authority" "sk_request call = Rq_Update new \<Longrightarrow> bm_connection_verify new = Inr ()" for new
      using ok call live by (auto simp: sc_calls_ok_def)
    moreover have "sc_conn (sc_handle gt tr e st) = sc_conn st" "REMOVED \<notin> set (sc_sent gt tr e st)"
        "REPLY_SECRETS ctx h \<in> set (sc_sent gt tr e st) \<longrightarrow> ctx = sk_context call" if "sk_request call = Rq_Secrets n" for n ctx h
      using granted_secrets [OF call(1) live that, of gt tr ch] call(1) live that Sev_Polkit reply
      by (auto simp: sc_sent_def polkit_granted get_secrets_def con_secrets_cb_def Let_def split: option.splits)
    moreover have "sc_conn (sc_handle gt tr e st) = sc_conn st" "REPLY_SECRETS ctx h \<notin> set (sc_sent gt tr e st)"
      if "sk_request call = Rq_Delete" for ctx h
      using granted_delete [OF call(1) live that, of gt tr ch] Sev_Polkit reply by simp_all
    moreover have "REMOVED \<notin> set (sc_sent gt tr e st)" "REPLY_SECRETS ctx h \<notin> set (sc_sent gt tr e st)"
      if "sk_request call = Rq_Update new" for new ctx h
      using granted_update(1) [OF call(1) live that, of gt tr ch] Sev_Polkit reply by (auto split: option.splits)
    ultimately show ?thesis
      using Sev_Polkit reply call(1) by (cases "sk_request call") (simp_all, blast+)
  next
    case (Sev_Plugin_Update new)
    then show ?thesis
      by simp
  qed (use requests_only_check [of e gt tr st] quiet in auto)
qed

theorem system_connection_protected_witness:
  "\<exists>st. sc_reachable sample_gt (\<lambda>_ _. None) True sample_connection [Sev_Delete 9] st \<and>
     REMOVED \<in> set (sc_sent sample_gt (\<lambda>_ _. None) (Sev_Polkit 0 (Pk_Result True False)) st) \<and>
     (\<exists>call. sc_calls st 0 = Some call \<and> sk_request call = Rq_Delete)"
proof -
  let ?tr = "\<lambda>_ _. None"
  have "sc_all_enabled sample_gt ?tr [Sev_Delete 9] (bm_sysconfig_connection_init True sample_connection)"
    by (simp add: sc_eval)
  note r = reachable_run_from_start [OF this]
  let ?st = "sc_run sample_gt ?tr [Sev_Delete 9] (bm_sysconfig_connection_init True sample_connection)"
  let ?e = "Sev_Polkit 0 (Pk_Result True False)"
  have call: "sc_calls ?st 0 = Some \<lparr>sk_context = 9, sk_request = Rq_Delete, sk_disposed = False\<rparr>" "sc_authority ?st"
    by (simp_all add: sc_eval sample_connection_def sc_check_def)
  have sent: "REMOVED \<in> set (sc_sent sample_gt ?tr ?e ?st)"
    using granted_delete(2) [OF call(1)] by simp
  have "sc_enabled ?e ?st"
    using call by simp
  from system_connection_protected [OF r this] sent
  have "\<exists>call. sc_calls ?st 0 = Some call \<and> sk_request call = Rq_Delete"
    by blast
  then show ?thesis
    using r sent by blast
qed

text \<open>C16: When PolicyKit authorizes a pending update the connection has exactly the settings that were requested,
  whether they differ from the old ones or not, and keeps its path and scope; everyone is told settings
  from which the same connection can be built, and the caller gets one positive reply.  The error
  branch after the authorization cannot be reached, as its comment says.\<close>

theorem authorized_update_takes_effect:
  assumes "sc_reachable gt tr authority c es st" "connection_wf c" "inj gt"
    and "sc_calls st k = Some call" "\<not> sk_disposed call" "sk_request call = Rq_Update new" "connection_ok new"
  shows "let e = Sev_Polkit k (Pk_Result True challenge); st' = sc_handle gt tr e st
    in same_settings (sc_conn st') new \<and> conn_path (sc_conn st') = conn_path (sc_conn st) \<and>
       conn_scope (sc_conn st') = conn_scope (sc_conn st) \<and>
       (\<exists>H d. sc_sent gt tr e st = [UPDATED (Some H), REPLY (sk_context call)] \<and>
          bm_connection_new_from_hash tr H = Inr d \<and> same_settings d new)"
proof -
  let ?st = "st\<lparr>sc_pk_calls := remove1 k (sc_pk_calls st)\<rparr>" and ?st' = "sc_polkit gt tr k (Pk_Result True challenge) st"
  have new: "bm_connection_verify new = Inr ()" "connection_wf new"
    using reachable_calls_ok [OF assms(1)] assms(4,6) by (auto simp: sc_calls_ok_def)
  have "connection_wf (sc_conn ?st)"
    using reachable_conn_wf [OF assms(1,2)] by simp
  then obtain st2 where u: "bm_sysconfig_connection_update gt tr new False ?st = (None, st2)" "connection_ok (sc_conn st2)"
      "same_settings (sc_conn st2) new" "conn_path (sc_conn st2) = conn_path (sc_conn st)"
      "conn_scope (sc_conn st2) = conn_scope (sc_conn st)"
    using sysconfig_update_effect [OF assms(3) _ assms(7) new(1), of ?st tr] by auto
  note granted = granted_update [OF assms(4-6), of gt tr challenge, unfolded u(1)]
  have "bm_connection_verify (sc_conn st2) = Inr ()"
    using verify_same_settings [OF _ new(2) u(3)] u(2) new(1) by (simp add: connection_ok_def)
  then obtain H d where H: "bm_connection_to_hash gt (sc_conn st2) = Some H" "bm_connection_new_from_hash tr H = Inr d"
      "same_settings d (sc_conn st2)"
    using to_hash_describes [OF assms(3) u(2)] by blast
  then show ?thesis
    using granted u by (auto simp: connection_duplicate_same connection_clear_secrets_same same_settings_def)
qed

theorem authorized_update_takes_effect_witness:
  "\<exists>st. sc_reachable sample_gt (\<lambda>_ _. None) True (sample_connection\<lparr>conn_path := None\<rparr>) [Sev_Update sample_settings 9] st \<and>
     same_settings (sc_conn (sc_handle sample_gt (\<lambda>_ _. None) (Sev_Polkit 0 (Pk_Result True False)) st)) sample_connection"
proof -
  let ?tr = "\<lambda>_ _. None" and ?c = "sample_connection\<lparr>conn_path := None\<rparr>"
  obtain d where d: "bm_connection_new_from_hash ?tr sample_settings = Inr d" "connection_ok d" "same_settings d sample_connection"
    using new_from_same_tables [OF inj_sample_gt sample_connection_ok(1) sample_connection_verify
        to_hash_same_tables [OF sample_connection_ok(1)], of ?tr]
    unfolding sample_settings_def same_settings_def by blast
  have "sc_all_enabled sample_gt ?tr [Sev_Update sample_settings 9] (bm_sysconfig_connection_init True ?c)"
    by (simp add: bm_sysconfig_connection_init_def)
  note r = reachable_run_from_start [OF this]
  let ?st = "sc_run sample_gt ?tr [Sev_Update sample_settings 9] (bm_sysconfig_connection_init True ?c)"
  have call: "sc_calls ?st 0 = Some \<lparr>sk_context = 9, sk_request = Rq_Update d, sk_disposed = False\<rparr>"
    by (simp add: sc_eval impl_exported_connection_update_def dbus_update_def d(1) sc_check_def sample_connection_def)
  have wf: "connection_wf ?c"
    using sample_connection_ok(2) by (simp add: connection_wf_def)
  have "same_settings (sc_conn (sc_handle sample_gt ?tr (Sev_Polkit 0 (Pk_Result True False)) ?st)) d"
    using authorized_update_takes_effect [OF r wf inj_sample_gt call, of d False] d(2) by (simp add: Let_def)
  then show ?thesis
    using r d(3) unfolding same_settings_def by metis
qed

section \<open>The settings a connection shows\<close>

definition with_timestamp :: "u64 \<Rightarrow> setting \<Rightarrow> setting" where
  "with_timestamp t s =
     (case set_priv s of Connection_Priv p \<Rightarrow> s\<lparr>set_priv := Connection_Priv (p\<lparr>con_timestamp := t\<rparr>)\<rparr> | _ \<Rightarrow> s)"

lemma connection_setting_priv:
  "connection_wf c \<Longrightarrow> bm_connection_get_setting c BM_TYPE_SETTING_CONNECTION = Some s \<Longrightarrow>
     \<exists>p. set_priv s = Connection_Priv p \<and> object_type s = BM_TYPE_SETTING_CONNECTION"
  using get_setting_type [of c BM_TYPE_SETTING_CONNECTION s] by (cases "set_priv s") (auto simp: object_type_def)

lemma substitute_timestamp_eq:
  assumes "connection_wf c" "bm_connection_get_setting c BM_TYPE_SETTING_CONNECTION = Some s"
  shows "substitute_timestamp tr (Some t) c = Some (bm_connection_add_setting (with_timestamp t s) c)"
proof -
  obtain p where p: "set_priv s = Connection_Priv p" "object_type s = BM_TYPE_SETTING_CONNECTION"
    using connection_setting_priv [OF assms] by blast
  have "setting_set_property s ''timestamp'' (GUInt64 t) = with_timestamp t s"
    using p by (simp add: with_timestamp_def property_access_defs)
  then show ?thesis
    using assms p
    by (simp add: substitute_timestamp_def find_property_def property_table_defs g_object_set_property_def coerce_def ps_type_def)
qed

lemma with_timestamp_ok:
  assumes "setting_ok s" "set_priv s = Connection_Priv p"
  shows "setting_ok (with_timestamp t s)" "object_type (with_timestamp t s) = object_type s"
    "set_name (with_timestamp t s) = set_name s" "bm_setting_verify (with_timestamp t s) ss = bm_setting_verify s ss"
  using assms
  by (simp_all add: setting_ok_def setting_valid_def with_timestamp_def object_type_def property_table_defs
      g_object_get_property_def property_access_defs bm_setting_verify_def connection_verify_def)

text \<open>The verification of a setting looks at the names of the others only.\<close>

lemma setting_verify_names:
  assumes "set_name ` set xs = set_name ` set ys"
  shows "bm_setting_verify s xs = bm_setting_verify s ys"
proof -
  have "find_setting_by_name zs t = None \<longleftrightarrow> Some t \<notin> set_name ` set zs" for zs t
    by (auto simp: find_setting_by_name_def find_None_iff image_iff)
  moreover have "xs = [] \<longleftrightarrow> ys = []"
    using assms by (metis image_is_empty set_empty)
  ultimately show ?thesis
    using assms
    by (cases "set_priv s")
       (auto split: option.split simp: bm_setting_verify_def connection_verify_def bluetooth_verify_def serial_verify_def)
qed

lemma timestamped_ok:
  fixes t :: u64
  assumes "connection_ok c" "bm_connection_verify c = Inr ()"
    and s: "bm_connection_get_setting c BM_TYPE_SETTING_CONNECTION = Some s"
  defines "c' \<equiv> bm_connection_add_setting (with_timestamp t s) c"
  shows "connection_ok c' \<and> bm_connection_verify c' = Inr () \<and>
    (\<forall>cls. bm_connection_get_setting c' cls =
       (if cls = BM_TYPE_SETTING_CONNECTION then Some (with_timestamp t s) else bm_connection_get_setting c cls))"
proof -
  have wf: "connection_wf c" "connection_wf c'"
    using assms(1) by (simp_all add: connection_ok_def c'_def add_setting_wf)
  obtain p where p: "set_priv s = Connection_Priv p" "object_type s = BM_TYPE_SETTING_CONNECTION"
    using connection_setting_priv [OF wf(1) s] by blast
  have ok: "setting_ok s"
    using assms(1) s by (auto simp: connection_ok_def)
  note w = with_timestamp_ok [OF ok p(1)]
  have get: "bm_connection_get_setting c' cls =
      (if cls = BM_TYPE_SETTING_CONNECTION then Some (with_timestamp t s) else bm_connection_get_setting c cls)" for cls
    by (simp add: c'_def get_add_setting w(2) p(2))
  define R where "R = {x \<in> set (gh_values (conn_settings c)). object_type x \<noteq> BM_TYPE_SETTING_CONNECTION}"
  have "x \<in> set (gh_values (conn_settings c')) \<longleftrightarrow> x \<in> insert (with_timestamp t s) R" for x
    unfolding settings_of [OF wf(1)] settings_of [OF wf(2)] get R_def using p(2) w(2) [of t] by auto
  then have vals': "set (gh_values (conn_settings c')) = insert (with_timestamp t s) R"
    by blast
  have "x \<in> set (gh_values (conn_settings c)) \<longleftrightarrow> x \<in> insert s R" for x
    unfolding settings_of [OF wf(1)] R_def using p(2) s by auto
  then have vals: "set (gh_values (conn_settings c)) = insert s R"
    by blast
  have "set_name ` set (gh_values (conn_settings c')) = set_name ` set (gh_values (conn_settings c))"
    unfolding vals vals' image_insert w(3) ..
  then have same: "bm_setting_verify x (gh_values (conn_settings c')) = bm_setting_verify x (gh_values (conn_settings c))" for x
    by (rule setting_verify_names)
  have "bm_connection_verify c' = Inr ()"
    using assms(2) unfolding connection_verify_ok same get unfolding vals vals' ball_simps(7) w(4) by simp
  moreover have "connection_ok c'"
    using wf(2) assms(1) w(1) by (auto simp: connection_ok_def get)
  ultimately show ?thesis
    using get by blast
qed

lemma get_settings_shows:
  assumes "inj gt" "connection_ok (sc_conn st)" "bm_connection_verify (sc_conn st) = Inr ()"
  shows "\<exists>H d. real_get_settings gt tr st = Some H \<and> bm_connection_new_from_hash tr H = Inr d \<and>
    (\<forall>cls. bm_connection_get_setting d cls =
       (if cls = BM_TYPE_SETTING_CONNECTION
        then map_option (case sc_timestamp st of Some t \<Rightarrow> with_timestamp t | None \<Rightarrow> \<lambda>s. s)
               (bm_connection_get_setting (sc_conn st) cls)
        else bm_connection_get_setting (sc_conn st) cls))"
proof -
  let ?c = "sc_conn st"
  obtain s where s: "bm_connection_get_setting ?c BM_TYPE_SETTING_CONNECTION = Some s"
    using assms(3) by (auto simp: connection_verify_ok)
  have wf: "connection_wf ?c"
    using assms(2) by (simp add: connection_ok_def)
  show ?thesis
  proof (cases "sc_timestamp st")
    case None
    obtain H d where "bm_connection_to_hash gt ?c = Some H" "bm_connection_new_from_hash tr H = Inr d" "same_settings d ?c"
      using to_hash_describes [OF assms] by blast
    then show ?thesis
      using None assms(2)
      by (simp add: real_get_settings_def connection_duplicate_same connection_clear_secrets_same substitute_timestamp_def
          same_settings_def option.map_ident)
  next
    case (Some t)
    let ?c' = "bm_connection_add_setting (with_timestamp t s) ?c"
    note c' = timestamped_ok [OF assms(2,3) s, of t]
    obtain H d where "bm_connection_to_hash gt ?c' = Some H" "bm_connection_new_from_hash tr H = Inr d" "same_settings d ?c'"
      using to_hash_describes [OF assms(1), of ?c' tr] c' by blast
    then show ?thesis
      using Some assms(2) c' s
      by (simp add: real_get_settings_def connection_duplicate_same connection_clear_secrets_same
          substitute_timestamp_eq [OF wf s] same_settings_def)
  qed
qed

text \<open>\<^verbatim>\<open>GetSettings\<close> shows the whole connection, whatever its secrets: from what it returns the same
  connection can be built again, except that the time stamp is the one of the time stamp file, if one
  was read, and not the one of the setting.\<close>

theorem get_settings_describes_connection:
  assumes "inj gt" "connection_ok (sc_conn st)" "bm_connection_verify (sc_conn st) = Inr ()"
  shows "\<exists>H d. real_get_settings gt tr st = Some H \<and> bm_connection_new_from_hash tr H = Inr d \<and>
    (\<forall>cls. bm_connection_get_setting d cls =
       (if cls = BM_TYPE_SETTING_CONNECTION
        then map_option (case sc_timestamp st of Some t \<Rightarrow> with_timestamp t | None \<Rightarrow> \<lambda>s. s)
               (bm_connection_get_setting (sc_conn st) cls)
        else bm_connection_get_setting (sc_conn st) cls))"
  by (rule get_settings_shows [OF assms])

theorem get_settings_describes_connection_witness:
  "\<exists>H d s. real_get_settings sample_gt (\<lambda>_ _. None)
       ((bm_sysconfig_connection_init True sample_connection)\<lparr>sc_timestamp := Some 99\<rparr>) = Some H \<and>
     bm_connection_new_from_hash (\<lambda>_ _. None) H = Inr d \<and>
     bm_connection_get_setting d BM_TYPE_SETTING_CONNECTION = Some s \<and>
     (\<exists>p. set_priv s = Connection_Priv p \<and> con_timestamp p = 99)"
proof -
  let ?st = "(bm_sysconfig_connection_init True sample_connection)\<lparr>sc_timestamp := Some 99\<rparr>"
  have c: "sc_conn ?st = sample_connection"
    by (simp add: bm_sysconfig_connection_init_def)
  obtain s where s: "bm_connection_get_setting sample_connection BM_TYPE_SETTING_CONNECTION = Some s"
    by (simp add: bm_connection_get_setting_def sample_connection_def)
  then have "\<exists>p. set_priv (with_timestamp 99 s) = Connection_Priv p \<and> con_timestamp p = 99"
    using connection_setting_priv [OF sample_connection_ok(2) s] by (auto simp: with_timestamp_def)
  then show ?thesis
    using get_settings_describes_connection [OF inj_sample_gt, of ?st "\<lambda>_ _. None"] sample_connection_ok(1)
      sample_connection_verify s unfolding c by fastforce
qed

end
