(* ===== verification/Settings_Service.thy ===== *)
theory Settings_Service
  imports System_Connection Properties_Changed
begin

text \<open>
  The settings service, \<^verbatim>\<open>src/barcode-manager/libbm-glib/bm-settings-service.c\<close>: the abstract object that
  exports connections on the bus under numbered paths and answers the requests for the list of
  connections and for a new one.  A connection is an object of the heap \<open>sv_heap\<close>, under a number that
  stands for its address; the virtual methods of the class, which list and add the connections, are
  parameters of the operations that call them.
\<close>

section \<open>State\<close>

datatype sv_output =
    REGISTERED string
  | NEW_CONNECTION nat
  | PROPERTY_CHANGED string gvalue
  | CHECK_PERMISSIONS
  | SV_REPLY nat
  | SV_REPLY_PATHS nat "cstr list"
  | SV_REPLY_PERMISSIONS nat u32
  | SV_REPLY_ERROR nat settings_error
  | LOCAL_DONE nat "settings_error option"
  | LOCAL_PERMISSIONS nat u32
  | SV_ASSERTION

text \<open>\<open>sv_counter\<close> is the static \<^verbatim>\<open>ec_counter\<close>.\<close>

record service =
  sv_bus :: bool
  sv_scope :: u32
  sv_exported :: bool
  sv_disposed :: bool
  sv_counter :: u32
  sv_heap :: "nat \<Rightarrow> sys_connection"
  sv_out :: "sv_output list"

definition sv_emit :: "sv_output \<Rightarrow> ('a :: type) service_scheme \<Rightarrow> 'a service_scheme" where
  "sv_emit x s = s\<lparr>sv_out := sv_out s @ [x]\<rparr>"

definition BM_DBUS_PATH_SETTINGS :: string where
  "BM_DBUS_PATH_SETTINGS = ''/org/freedesktop/BarcodeManagerSettings''"

definition sv_path :: "'a service_scheme \<Rightarrow> nat \<Rightarrow> cstr" where
  "sv_path s obj = bm_connection_get_path (sc_conn (sv_heap s obj))"

section \<open>Exporting\<close>

definition bm_settings_service_export :: "'a service_scheme \<Rightarrow> 'a service_scheme" where
  "bm_settings_service_export s =
     (if \<not> sv_bus s \<or> sv_exported s then s
      else sv_emit (REGISTERED BM_DBUS_PATH_SETTINGS) (s\<lparr>sv_exported := True\<rparr>))"

definition settings_object_path :: "u32 \<Rightarrow> string" where
  "settings_object_path n = BM_DBUS_PATH_SETTINGS @ ''/'' @ print_nat (unat n)"

definition bm_settings_service_export_connection :: "nat \<Rightarrow> 'a service_scheme \<Rightarrow> 'a service_scheme" where
  "bm_settings_service_export_connection obj s =
     (if \<not> sv_bus s \<or> sv_path s obj \<noteq> None then s
      else
        (let path = settings_object_path (sv_counter s);
             x = sv_heap s obj;
             x' = x\<lparr>sc_conn := bm_connection_set_scope (sv_scope s) (bm_connection_set_path (Some path) (sc_conn x))\<rparr>
         in sv_emit (REGISTERED path) (s\<lparr>sv_heap := (sv_heap s)(obj := x'), sv_counter := sv_counter s + 1\<rparr>)))"

section \<open>Listing and adding\<close>

text \<open>\<open>list_conns\<close> is the class's \<^verbatim>\<open>list_connections\<close>.\<close>

definition impl_settings_list_connections ::
    "('a service_scheme \<Rightarrow> nat list \<times> 'a service_scheme) \<Rightarrow> nat \<Rightarrow> 'a service_scheme \<Rightarrow> 'a service_scheme" where
  "impl_settings_list_connections list_conns ctx s =
     (case list_conns s of (objs, s1) \<Rightarrow> sv_emit (SV_REPLY_PATHS ctx (map (sv_path s1) objs)) s1)"

fun find_path :: "'a service_scheme \<Rightarrow> string \<Rightarrow> nat list \<Rightarrow> nat option checked" where
  "find_path s path [] = Returned None"
| "find_path s path (obj # objs) =
     (case sv_path s obj of
        None \<Rightarrow> Null_Dereferenced
      | Some p \<Rightarrow> if strcmp p path = 0 then Returned (Some obj) else find_path s path objs)"

definition get_connection_by_path ::
    "('a service_scheme \<Rightarrow> nat list \<times> 'a service_scheme) \<Rightarrow> string \<Rightarrow> 'a service_scheme \<Rightarrow> nat option checked \<times> 'a service_scheme" where
  "get_connection_by_path list_conns path s =
     (case list_conns s of (objs, s1) \<Rightarrow> (find_path s1 path objs, s1))"

text \<open>What is called when an addition has ended: the reply to the bus, or the callback of a caller in the
  same process.\<close>

datatype add_callback = Dbus_Add nat | Local_Add nat

fun add_callback_run :: "add_callback \<Rightarrow> settings_error option \<Rightarrow> 'a service_scheme \<Rightarrow> 'a service_scheme" where
  "add_callback_run (Dbus_Add ctx) error s =
     sv_emit (case error of Some e \<Rightarrow> SV_REPLY_ERROR ctx e | None \<Rightarrow> SV_REPLY ctx) s"
| "add_callback_run (Local_Add u) error s = sv_emit (LOCAL_DONE u error) s"

text \<open>\<open>add_conn\<close> is the class's \<^verbatim>\<open>add_connection\<close>, if it has one: the connection, the bus invocation if
  there is one, the callback.\<close>

type_synonym 'a add_method = "connection \<Rightarrow> nat option \<Rightarrow> add_callback \<Rightarrow> 'a service_scheme \<Rightarrow> 'a service_scheme"

definition add_connection_interface :: "'a add_method option \<Rightarrow> connection \<Rightarrow> nat \<Rightarrow> 'a service_scheme \<Rightarrow> 'a service_scheme" where
  "add_connection_interface add_conn c u s =
     (case add_conn of
        Some f \<Rightarrow> f c None (Local_Add u) s
      | None \<Rightarrow> add_callback_run (Local_Add u) (Some BM_SETTINGS_INTERFACE_ERROR_INTERNAL_ERROR) s)"

definition impl_settings_add_connection ::
    "transform \<Rightarrow> 'a add_method option \<Rightarrow> settings_hash \<Rightarrow> nat \<Rightarrow> 'a service_scheme \<Rightarrow> 'a service_scheme" where
  "impl_settings_add_connection tr add_conn settings ctx s =
     (case bm_connection_new_from_hash tr settings of
        Inl e \<Rightarrow> sv_emit (SV_REPLY_ERROR ctx (Settings_Error e)) s
      | Inr tmp \<Rightarrow>
          (case add_conn of
             Some f \<Rightarrow> f tmp (Some ctx) (Dbus_Add ctx) s
           | None \<Rightarrow> sv_emit (SV_REPLY_ERROR ctx BM_SETTINGS_INTERFACE_ERROR_INTERNAL_ERROR) s))"

section \<open>Lemmas\<close>

lemma sv_emit_fields [simp]:
  "sv_heap (sv_emit x s) = sv_heap s" "sv_counter (sv_emit x s) = sv_counter s" "sv_bus (sv_emit x s) = sv_bus s"
  "sv_scope (sv_emit x s) = sv_scope s" "sv_out (sv_emit x s) = sv_out s @ [x]"
  "sv_path (sv_emit x s) = sv_path s" "service.more (sv_emit x s) = service.more s"
  by (simp_all add: sv_emit_def sv_path_def fun_eq_iff)

text \<open>The exported objects have consecutive numbers, so their paths differ until the counter wraps.\<close>

definition exported_objects :: "'a service_scheme \<Rightarrow> nat set" where
  "exported_objects s = {obj. sv_path s obj \<noteq> None}"

definition paths_numbered :: "'a service_scheme \<Rightarrow> bool" where
  "paths_numbered s \<longleftrightarrow>
     (\<exists>num. bij_betw num (exported_objects s) {..<card (exported_objects s)} \<and> finite (exported_objects s) \<and>
        sv_counter s = of_nat (card (exported_objects s)) \<and>
        (\<forall>obj \<in> exported_objects s. sv_path s obj = Some (settings_object_path (of_nat (num obj))) \<and>
           conn_scope (sc_conn (sv_heap s obj)) = sv_scope s))"

lemma export_path:
  "sv_path (bm_settings_service_export_connection obj s) x =
     (if x = obj \<and> sv_bus s \<and> sv_path s obj = None then Some (settings_object_path (sv_counter s)) else sv_path s x)"
  by (simp add: bm_settings_service_export_connection_def sv_path_def Let_def bm_connection_set_scope_def
      bm_connection_set_path_def bm_connection_get_path_def)

lemma export_fields [simp]:
  "sv_bus (bm_settings_service_export_connection obj s) = sv_bus s"
  "sv_scope (bm_settings_service_export_connection obj s) = sv_scope s"
  "service.more (bm_settings_service_export_connection obj s) = service.more s"
  by (simp_all add: bm_settings_service_export_connection_def Let_def)

lemma export_numbered [bm_inv]:
  assumes "paths_numbered s"
  shows "paths_numbered (bm_settings_service_export_connection obj s)"
proof (cases "sv_bus s \<and> sv_path s obj = None")
  case True
  let ?s = "bm_settings_service_export_connection obj s" and ?n = "card (exported_objects s)"
  obtain num where num: "bij_betw num (exported_objects s) {..<?n}" "finite (exported_objects s)"
      "sv_counter s = of_nat ?n"
      "\<forall>x \<in> exported_objects s. sv_path s x = Some (settings_object_path (of_nat (num x))) \<and>
         conn_scope (sc_conn (sv_heap s x)) = sv_scope s"
    using assms unfolding paths_numbered_def by blast
  have new: "obj \<notin> exported_objects s"
    using True by (simp add: exported_objects_def)
  have exp: "exported_objects ?s = insert obj (exported_objects s)"
    using True by (auto simp: exported_objects_def export_path)
  have card: "card (exported_objects ?s) = Suc ?n"
    using new num(2) by (simp add: exp)
  have "bij_betw (num(obj := ?n)) (exported_objects s \<union> {obj}) ({..<?n} \<union> {?n})"
  proof (rule bij_betw_combine)
    show "bij_betw (num(obj := ?n)) (exported_objects s) {..<?n}"
      using num(1) new by (metis bij_betw_cong fun_upd_other)
    show "bij_betw (num(obj := ?n)) {obj} {?n}"
      by (simp add: bij_betw_def)
  qed simp
  then have "bij_betw (num(obj := ?n)) (exported_objects ?s) {..<card (exported_objects ?s)}"
    by (simp add: exp card[unfolded exp] lessThan_Suc Un_commute)
  moreover have "sv_counter ?s = sv_counter s + 1"
    using True by (simp add: bm_settings_service_export_connection_def Let_def)
  then have "sv_counter ?s = of_nat (card (exported_objects ?s))"
    unfolding card num(3) by simp
  moreover have "\<forall>x \<in> exported_objects ?s. sv_path ?s x = Some (settings_object_path (of_nat ((num(obj := ?n)) x))) \<and>
      conn_scope (sc_conn (sv_heap ?s x)) = sv_scope ?s"
    using True num(3,4) new
    by (auto simp: exp export_path) (auto simp: bm_settings_service_export_connection_def Let_def bm_connection_set_scope_def)
  ultimately show ?thesis
    using num(2) unfolding paths_numbered_def exp by blast
next
  case False
  then have "bm_settings_service_export_connection obj s = s"
    by (auto simp: bm_settings_service_export_connection_def)
  then show ?thesis
    using assms by simp
qed

lemma paths_numbered_inj:
  assumes "paths_numbered s" "card (exported_objects s) \<le> 2 ^ 32" "sv_path s x = Some p" "sv_path s y = Some p"
  shows "x = y"
proof -
  obtain num where num: "bij_betw num (exported_objects s) {..<card (exported_objects s)}"
      "\<forall>obj \<in> exported_objects s. sv_path s obj = Some (settings_object_path (of_nat (num obj)))"
    using assms(1) unfolding paths_numbered_def by blast
  have xy: "x \<in> exported_objects s" "y \<in> exported_objects s"
    using assms(3,4) by (simp_all add: exported_objects_def)
  then have "unat (of_nat (num x) :: u32) = unat (of_nat (num y) :: u32)"
    using num(2) assms(3,4) by (auto simp: settings_object_path_def)
  moreover have "num x < 2 ^ 32" "num y < 2 ^ 32"
    using bij_betwE [OF num(1)] xy assms(2) by (force intro: less_le_trans)+
  ultimately have "num x = num y"
    by (simp add: unat_of_nat)
  then show ?thesis
    using num(1) xy by (metis bij_betw_imp_inj_on inj_onD)
qed

lemma find_path_iff:
  assumes "\<forall>x \<in> set objs. sv_path s x \<noteq> None" "\<forall>x \<in> set objs. \<forall>y \<in> set objs. sv_path s x = sv_path s y \<longrightarrow> x = y"
  shows "\<exists>r. find_path s path objs = Returned r \<and> (\<forall>obj. r = Some obj \<longleftrightarrow> obj \<in> set objs \<and> sv_path s obj = Some path)"
  using assms by (induction objs) auto

end
