(* ===== verification/Sysconfig_Settings.thy ===== *)
theory Sysconfig_Settings
  imports Settings_Service
begin

text \<open>
  The system settings service, \<^verbatim>\<open>src/barcode-manager/src/system-settings/bm-sysconfig-settings.c\<close>, with the
  calls of \<^verbatim>\<open>bm-system-config-interface.c\<close>: it collects the connections and the unmanaged devices of its
  plugins, exports the connections and answers requests to add one, to set the host name and to tell the
  caller's permissions, which ask PolicyKit.  The plugins are not part of the repository: a plugin is what
  it answers to the calls of its interface, and \<open>module\<close> is what loading the plugin of a name gives.  The time
  stamp file is the content of its group, or \<open>None\<close> when it cannot be read.
\<close>

section \<open>Plugins and state\<close>

definition CAP_NONE :: u32 where "CAP_NONE = 0"
definition CAP_MODIFY_CONNECTIONS :: u32 where "CAP_MODIFY_CONNECTIONS = 1"
definition CAP_MODIFY_HOSTNAME :: u32 where "CAP_MODIFY_HOSTNAME = 2"

definition PERMISSION_CONNECTION_MODIFY :: u32 where "PERMISSION_CONNECTION_MODIFY = 1"
definition PERMISSION_WIFI_SHARE_PROTECTED :: u32 where "PERMISSION_WIFI_SHARE_PROTECTED = 2"
definition PERMISSION_WIFI_SHARE_OPEN :: u32 where "PERMISSION_WIFI_SHARE_OPEN = 4"
definition PERMISSION_HOSTNAME_MODIFY :: u32 where "PERMISSION_HOSTNAME_MODIFY = 8"

text \<open>\<open>pl_add\<close> is whether the plugin took a new connection, and the error it set, if any.\<close>

record plugin =
  pl_name :: cstr
  pl_caps :: u32
  pl_hostname :: cstr
  pl_connections :: "nat list"
  pl_specs :: "string list"
  pl_add :: "connection \<Rightarrow> bool \<times> string option"

datatype module_result = Module_Missing string | Factory_Missing | Invalid_Object | Loaded plugin

datatype load_error = Could_Not_Load string string | No_Factory string | Invalid_Plugin string

datatype sy_request =
    Rq_Add connection add_callback
  | Rq_Hostname string
  | Rq_Permissions u32 u32

record sy_call =
  sl_context :: nat
  sl_request :: sy_request
  sl_disposed :: bool

record permissions_call =
  pc_call :: nat
  pc_permission :: u32
  pc_disposed :: bool

record sysconfig = service +
  sy_authority :: bool
  sy_plugins :: "plugin list"
  sy_loaded :: bool
  sy_connections :: "(nat, unit) ghash"
  sy_specs :: "string list"
  sy_timestamps :: "(string, string) ghash option"
  sy_calls :: "nat \<Rightarrow> sy_call option"
  sy_pk_calls :: "nat list"
  sy_perms :: "nat \<Rightarrow> permissions_call option"
  sy_perm_calls :: "nat list"
  sy_next :: nat

definition bm_sysconfig_settings_init :: "bool \<Rightarrow> bool \<Rightarrow> (string, string) ghash option \<Rightarrow> (nat \<Rightarrow> sys_connection) \<Rightarrow> sysconfig" where
  "bm_sysconfig_settings_init bus authority timestamps heap =
     \<lparr>sv_bus = bus, sv_scope = BM_CONNECTION_SCOPE_SYSTEM, sv_exported = False, sv_disposed = False, sv_counter = 0,
      sv_heap = heap, sv_out = [], sy_authority = authority, sy_plugins = [], sy_loaded = False,
      sy_connections = gh_new, sy_specs = [], sy_timestamps = timestamps, sy_calls = (\<lambda>_. None), sy_pk_calls = [],
      sy_perms = (\<lambda>_. None), sy_perm_calls = [], sy_next = 0\<rparr>"

section \<open>Capabilities and host name\<close>

definition get_plugin :: "sysconfig \<Rightarrow> u32 \<Rightarrow> plugin option" where
  "get_plugin s capability = find (\<lambda>p. pl_caps p AND capability \<noteq> 0) (sy_plugins s)"

fun first_hostname :: "plugin list \<Rightarrow> cstr" where
  "first_hostname [] = None"
| "first_hostname (p # ps) =
     (if pl_caps p AND CAP_MODIFY_HOSTNAME \<noteq> 0
      then (case pl_hostname p of Some h \<Rightarrow> if h \<noteq> [] then Some h else first_hostname ps | None \<Rightarrow> first_hostname ps)
      else first_hostname ps)"

definition bm_sysconfig_settings_get_hostname :: "sysconfig \<Rightarrow> cstr" where
  "bm_sysconfig_settings_get_hostname s = first_hostname (sy_plugins s)"

section \<open>Connections\<close>

text \<open>The setting of the connection, and its UUID; \<open>None\<close> is a failed assertion.\<close>

definition connection_uuid :: "sysconfig \<Rightarrow> nat \<Rightarrow> cstr option" where
  "connection_uuid s obj =
     (case map_option set_priv (bm_connection_get_setting (sc_conn (sv_heap s obj)) BM_TYPE_SETTING_CONNECTION) of
        Some (Connection_Priv p) \<Rightarrow> Some (bm_setting_connection_get_uuid p)
      | _ \<Rightarrow> None)"

text \<open>The stamp to store with the connection; nothing is stored when the key cannot be read.  A \<^verbatim>\<open>NULL\<close> key is
  refused without an error, so that the stamp is then zero.\<close>

definition read_timestamp :: "(string, string) ghash option \<Rightarrow> cstr \<Rightarrow> u64 option" where
  "read_timestamp file uuid =
     (case uuid of
        None \<Rightarrow> Some 0
      | Some u \<Rightarrow> (case file of None \<Rightarrow> None | Some t \<Rightarrow> map_option strtoull (gh_lookup t u)))"

definition set_timestamp :: "u64 option \<Rightarrow> sys_connection \<Rightarrow> sys_connection" where
  "set_timestamp t x = (case t of None \<Rightarrow> x | Some t \<Rightarrow> x\<lparr>sc_timestamp := Some t\<rparr>)"

definition claim_connection :: "nat \<Rightarrow> bool \<Rightarrow> sysconfig \<Rightarrow> sysconfig" where
  "claim_connection obj do_export s =
     (if gh_lookup (sy_connections s) obj \<noteq> None then s
      else (case connection_uuid s obj of
              None \<Rightarrow> sv_emit SV_ASSERTION s
            | Some uuid \<Rightarrow>
                (let x = set_timestamp (read_timestamp (sy_timestamps s) uuid) (sv_heap s obj);
                     s1 = s\<lparr>sv_heap := (sv_heap s)(obj := x), sy_connections := gh_insert obj () (sy_connections s)\<rparr>
                 in if do_export
                    then sv_emit (NEW_CONNECTION obj) (bm_settings_service_export_connection obj s1)
                    else s1)))"

text \<open>\<open>writable\<close> is whether the time stamp file could be written.\<close>

definition connection_removed :: "bool \<Rightarrow> nat \<Rightarrow> sysconfig \<Rightarrow> sysconfig" where
  "connection_removed writable obj s =
     (let s1 = s\<lparr>sy_connections := gh_remove obj (sy_connections s)\<rparr>
      in case connection_uuid s1 obj of
           None \<Rightarrow> sv_emit SV_ASSERTION s1
         | Some uuid \<Rightarrow>
             (case (uuid, sy_timestamps s1) of
                (Some u, Some t) \<Rightarrow> if writable then s1\<lparr>sy_timestamps := Some (gh_remove u t)\<rparr> else s1
              | _ \<Rightarrow> s1))"

text \<open>The signal of the connection runs the handler above, as for every removal.\<close>

definition remove_connection :: "bool \<Rightarrow> nat \<Rightarrow> sysconfig \<Rightarrow> sysconfig" where
  "remove_connection writable obj s =
     (if gh_lookup (sy_connections s) obj \<noteq> None
      then (let s1 = connection_removed writable obj
                      (s\<lparr>sv_heap := (sv_heap s)(obj := sc_emit REMOVED (sv_heap s obj))\<rparr>)
            in s1\<lparr>sy_connections := gh_remove obj (sy_connections s1)\<rparr>)
      else s)"

section \<open>Unmanaged devices\<close>

definition find_unmanaged_device :: "sysconfig \<Rightarrow> string \<Rightarrow> bool" where
  "find_unmanaged_device s needle = list_ex (\<lambda>x. strcmp x needle = 0) (sy_specs s)"

definition add_spec :: "sysconfig \<Rightarrow> string \<Rightarrow> sysconfig" where
  "add_spec s spec = (if \<not> find_unmanaged_device s spec then s\<lparr>sy_specs := spec # sy_specs s\<rparr> else s)"

definition collect_specs :: "sysconfig \<Rightarrow> sysconfig" where
  "collect_specs s = foldl (\<lambda>s p. foldl add_spec s (pl_specs p)) (s\<lparr>sy_specs := []\<rparr>) (sy_plugins s)"

text \<open>The class's \<^verbatim>\<open>notify\<close> sends the value that \<^verbatim>\<open>get_property\<close> gives.\<close>

definition announce_specs :: "sysconfig \<Rightarrow> sysconfig" where
  "announce_specs s =
     sv_emit (PROPERTY_CHANGED (uscore_to_wincaps (Some ''unmanaged-specs''))
               (GCollection T_STRING (Some (map (\<lambda>x. GString (Some x)) (sy_specs s))))) s"

definition announce_hostname :: "sysconfig \<Rightarrow> sysconfig" where
  "announce_hostname s =
     sv_emit (PROPERTY_CHANGED (uscore_to_wincaps (Some ''hostname''))
               (GString (Some (case bm_sysconfig_settings_get_hostname s of Some h \<Rightarrow> h | None \<Rightarrow> [])))) s"

definition claim_each :: "nat list \<Rightarrow> sysconfig \<Rightarrow> sysconfig" where
  "claim_each objs s = foldl (\<lambda>s obj. claim_connection obj True s) s objs"

text \<open>Reading the property loads the connections, so the announcement at the end finds them loaded.\<close>

definition load_connections :: "sysconfig \<Rightarrow> sysconfig" where
  "load_connections s =
     (if sy_loaded s then s
      else (let s1 = foldl (\<lambda>s p. claim_each (pl_connections p) s) s (sy_plugins s)
            in announce_specs (collect_specs (s1\<lparr>sy_loaded := True\<rparr>))))"

definition unmanaged_specs_changed :: "sysconfig \<Rightarrow> sysconfig" where
  "unmanaged_specs_changed s = announce_specs (load_connections (collect_specs s))"

definition bm_sysconfig_settings_get_unmanaged_specs :: "sysconfig \<Rightarrow> string list \<times> sysconfig" where
  "bm_sysconfig_settings_get_unmanaged_specs s = (let s1 = load_connections s in (sy_specs s1, s1))"

text \<open>The connections in the order of the table: prepended, then reversed.\<close>

definition sysconfig_list_connections :: "sysconfig \<Rightarrow> nat list \<times> sysconfig" where
  "sysconfig_list_connections s =
     (let s1 = load_connections s
      in (rev (gh_foreach (\<lambda>key _ l. key # l) (sy_connections s1) []), s1))"

definition plugin_connection_added :: "nat \<Rightarrow> sysconfig \<Rightarrow> sysconfig" where
  "plugin_connection_added obj s = claim_connection obj True s"

definition hostname_changed :: "sysconfig \<Rightarrow> sysconfig" where
  "hostname_changed s = announce_hostname s"

section \<open>Loading plugins\<close>

definition add_plugin :: "plugin \<Rightarrow> sysconfig \<Rightarrow> sysconfig" where
  "add_plugin p s = s\<lparr>sy_plugins := sy_plugins s @ [p]\<rparr>"

definition find_plugin :: "plugin list \<Rightarrow> string \<Rightarrow> plugin option" where
  "find_plugin list pname = find (\<lambda>p. pl_name p = Some pname) list"

fun load_loop :: "(string \<Rightarrow> module_result) \<Rightarrow> string list \<Rightarrow> plugin list \<Rightarrow> sysconfig \<Rightarrow> load_error option \<times> sysconfig" where
  "load_loop module [] list s = (None, s)"
| "load_loop module (token # tokens) list s =
     (let pname = (if strstrip token = ''ifcfg-fedora'' then ''ifcfg-rh'' else strstrip token)
      in if find_plugin list pname \<noteq> None then load_loop module tokens list s
         else (case module (''bm-settings-plugin-'' @ pname) of
                 Module_Missing e \<Rightarrow> (Some (Could_Not_Load pname e), s)
               | Factory_Missing \<Rightarrow> (Some (No_Factory pname), s)
               | Invalid_Object \<Rightarrow> (Some (Invalid_Plugin pname), s)
               | Loaded p \<Rightarrow> load_loop module tokens (list @ [p]) (add_plugin p s)))"

definition load_plugins :: "(string \<Rightarrow> module_result) \<Rightarrow> string \<Rightarrow> sysconfig \<Rightarrow> load_error option \<times> sysconfig" where
  "load_plugins module plugins s = load_loop module (strsplit_set '','' plugins) [] s"

definition bm_sysconfig_settings_new ::
    "(string \<Rightarrow> module_result) \<Rightarrow> cstr \<Rightarrow> bool \<Rightarrow> bool \<Rightarrow> (string, string) ghash option \<Rightarrow> (nat \<Rightarrow> sys_connection) \<Rightarrow>
     load_error + sysconfig" where
  "bm_sysconfig_settings_new module plugins bus authority timestamps heap =
     (let s = bm_sysconfig_settings_init bus authority timestamps heap
      in case plugins of
           None \<Rightarrow> Inr s
         | Some ps \<Rightarrow>
             (case load_plugins module ps s of
                (Some e, _) \<Rightarrow> Inl e
              | (None, s1) \<Rightarrow> Inr (unmanaged_specs_changed s1)))"

section \<open>Adding a connection\<close>

text \<open>The plugins in turn, until one takes the connection; the error is the one the last plugin set.\<close>

fun add_loop :: "connection \<Rightarrow> plugin list \<Rightarrow> string option \<Rightarrow> bool \<times> string option" where
  "add_loop c [] last_error = (False, last_error)"
| "add_loop c (p # ps) last_error =
     (case pl_add p c of (success, err) \<Rightarrow> if success then (True, None) else add_loop c ps err)"

definition add_new_connection :: "sysconfig \<Rightarrow> connection \<Rightarrow> bool \<times> string option" where
  "add_new_connection s c = add_loop c (sy_plugins s) None"

definition sy_start :: "sy_request \<Rightarrow> nat \<Rightarrow> sysconfig \<Rightarrow> sysconfig" where
  "sy_start request ctx s =
     s\<lparr>sy_calls := (sy_calls s)(sy_next s \<mapsto> \<lparr>sl_context = ctx, sl_request = request, sl_disposed = False\<rparr>),
       sy_next := Suc (sy_next s)\<rparr>"

definition sy_free :: "nat \<Rightarrow> sysconfig \<Rightarrow> sysconfig" where
  "sy_free k s = s\<lparr>sy_calls := (sy_calls s)(k := None)\<rparr>"

definition sy_add_connection :: "connection \<Rightarrow> nat option \<Rightarrow> add_callback \<Rightarrow> sysconfig \<Rightarrow> sysconfig" where
  "sy_add_connection c ctx callback s =
     (if get_plugin s CAP_MODIFY_CONNECTIONS = None
      then add_callback_run callback (Some BM_SYSCONFIG_SETTINGS_ERROR_ADD_NOT_SUPPORTED) s
      else (case ctx of
              None \<Rightarrow> sv_emit SV_ASSERTION s
            | Some x \<Rightarrow> (sy_start (Rq_Add c callback) x s)\<lparr>sy_pk_calls := sy_pk_calls s @ [sy_next s]\<rparr>))"

definition pk_add_cb :: "nat \<Rightarrow> sy_call \<Rightarrow> connection \<Rightarrow> add_callback \<Rightarrow> pk_reply \<Rightarrow> sysconfig \<Rightarrow> sysconfig" where
  "pk_add_cb k call c callback reply s =
     (if sl_disposed call
      then sy_free k (sv_emit (SV_REPLY_ERROR (sl_context call) BM_SYSCONFIG_SETTINGS_ERROR_GENERAL) s)
      else
        (let s1 = s\<lparr>sy_pk_calls := remove1 k (sy_pk_calls s)\<rparr>
         in sy_free k
              (case reply of
                 Pk_Error e \<Rightarrow> add_callback_run callback (Some (Polkit_Error e)) s1
               | Pk_Result authorized challenge \<Rightarrow>
                   if \<not> authorized
                   then add_callback_run callback (Some BM_SYSCONFIG_SETTINGS_ERROR_NOT_PRIVILEGED) s1
                   else (case add_new_connection s1 c of
                           (True, _) \<Rightarrow> add_callback_run callback None s1
                         | (False, e) \<Rightarrow> add_callback_run callback (Some (BM_SYSCONFIG_SETTINGS_ERROR_ADD_FAILED e)) s1))))"

section \<open>Setting the host name\<close>

definition impl_settings_save_hostname :: "string \<Rightarrow> nat \<Rightarrow> sysconfig \<Rightarrow> sysconfig" where
  "impl_settings_save_hostname hostname ctx s =
     (if get_plugin s CAP_MODIFY_HOSTNAME = None
      then sv_emit (SV_REPLY_ERROR ctx BM_SYSCONFIG_SETTINGS_ERROR_SAVE_HOSTNAME_NOT_SUPPORTED) s
      else (sy_start (Rq_Hostname hostname) ctx s)\<lparr>sy_pk_calls := sy_pk_calls s @ [sy_next s]\<rparr>)"

text \<open>Setting the property of a plugin notifies: the announcement is made after each of them, with the plugins
  before it already changed.\<close>

fun set_hostnames :: "string \<Rightarrow> plugin list \<Rightarrow> plugin list \<Rightarrow> bool \<Rightarrow> sysconfig \<Rightarrow> bool \<times> sysconfig" where
  "set_hostnames hostname done_plugins [] success s = (success, s)"
| "set_hostnames hostname done_plugins (p # ps) success s =
     (if pl_caps p AND CAP_MODIFY_HOSTNAME \<noteq> 0
      then (let p' = p\<lparr>pl_hostname := Some hostname\<rparr>
            in set_hostnames hostname (done_plugins @ [p']) ps True
                 (hostname_changed (s\<lparr>sy_plugins := done_plugins @ p' # ps\<rparr>)))
      else set_hostnames hostname (done_plugins @ [p]) ps success s)"

definition pk_hostname_cb :: "nat \<Rightarrow> sy_call \<Rightarrow> string \<Rightarrow> pk_reply \<Rightarrow> sysconfig \<Rightarrow> sysconfig" where
  "pk_hostname_cb k call hostname reply s =
     (if sl_disposed call
      then sy_free k (sv_emit (SV_REPLY_ERROR (sl_context call) BM_SYSCONFIG_SETTINGS_ERROR_GENERAL) s)
      else
        (let s1 = s\<lparr>sy_pk_calls := remove1 k (sy_pk_calls s)\<rparr>
         in sy_free k
              (case reply of
                 Pk_Error e \<Rightarrow> sv_emit (SV_REPLY_ERROR (sl_context call) (Polkit_Error e)) s1
               | Pk_Result authorized challenge \<Rightarrow>
                   if \<not> authorized
                   then sv_emit (SV_REPLY_ERROR (sl_context call) BM_SYSCONFIG_SETTINGS_ERROR_NOT_PRIVILEGED) s1
                   else (case set_hostnames hostname [] (sy_plugins s1) False s1 of
                           (True, s2) \<Rightarrow> sv_emit (SV_REPLY (sl_context call)) s2
                         | (False, s2) \<Rightarrow>
                             sv_emit (SV_REPLY_ERROR (sl_context call) BM_SYSCONFIG_SETTINGS_ERROR_SAVE_HOSTNAME_FAILED) s2))))"

definition pk_authority_changed_cb :: "sysconfig \<Rightarrow> sysconfig" where
  "pk_authority_changed_cb s = sv_emit CHECK_PERMISSIONS s"

section \<open>Telling the permissions\<close>

definition update_permissions :: "nat \<Rightarrow> (u32 \<Rightarrow> u32 \<Rightarrow> u32 \<times> u32) \<Rightarrow> sysconfig \<Rightarrow> sysconfig" where
  "update_permissions p f s =
     s\<lparr>sy_calls := (sy_calls s)(p := map_option
         (\<lambda>call. case sl_request call of
                   Rq_Permissions perms n \<Rightarrow> (case f perms n of (perms', n') \<Rightarrow> call\<lparr>sl_request := Rq_Permissions perms' n'\<rparr>)
                 | _ \<Rightarrow> call) (sy_calls s p))\<rparr>"

definition start_permission_check :: "nat \<Rightarrow> u32 \<Rightarrow> sysconfig \<Rightarrow> sysconfig" where
  "start_permission_check p permission s =
     (let s1 = update_permissions p (\<lambda>perms n. (perms, n + 1)) s
      in s1\<lparr>sy_perms := (sy_perms s1)(sy_next s1 \<mapsto> \<lparr>pc_call = p, pc_permission = permission, pc_disposed = False\<rparr>),
            sy_perm_calls := sy_perm_calls s1 @ [sy_next s1], sy_next := Suc (sy_next s1)\<rparr>)"

definition impl_settings_get_permissions :: "nat \<Rightarrow> sysconfig \<Rightarrow> sysconfig" where
  "impl_settings_get_permissions ctx s =
     (let p = sy_next s;
          s1 = sy_start (Rq_Permissions 0 0) ctx s;
          s2 = (if get_plugin s1 CAP_MODIFY_CONNECTIONS \<noteq> None
                then start_permission_check p PERMISSION_CONNECTION_MODIFY s1 else s1)
      in if get_plugin s2 CAP_MODIFY_HOSTNAME \<noteq> None
         then start_permission_check p PERMISSION_HOSTNAME_MODIFY s2 else s2)"

text \<open>The end of one check: count it, and reply after the last.\<close>

definition permission_done :: "nat \<Rightarrow> permissions_call \<Rightarrow> sysconfig \<Rightarrow> sysconfig" where
  "permission_done k call s =
     (let s1 = update_permissions (pc_call call) (\<lambda>perms n. (perms, n - 1)) s;
          s2 = (case sy_calls s1 (pc_call call) of
                  Some pk \<Rightarrow>
                    (case sl_request pk of
                       Rq_Permissions perms n \<Rightarrow>
                         if n = 0
                         then sy_free (pc_call call)
                                (sv_emit (if pc_disposed call
                                          then SV_REPLY_ERROR (sl_context pk) BM_SYSCONFIG_SETTINGS_ERROR_GENERAL
                                          else SV_REPLY_PERMISSIONS (sl_context pk) perms) s1)
                         else s1
                     | _ \<Rightarrow> s1)
                | None \<Rightarrow> s1)
      in s2\<lparr>sy_perms := (sy_perms s2)(k := None)\<rparr>)"

definition permission_call_done :: "nat \<Rightarrow> permissions_call \<Rightarrow> pk_reply \<Rightarrow> sysconfig \<Rightarrow> sysconfig" where
  "permission_call_done k call reply s =
     (if pc_disposed call then permission_done k call s
      else
        (let s1 = s\<lparr>sy_perm_calls := remove1 k (sy_perm_calls s)\<rparr>;
             s2 = (case reply of
                     Pk_Error e \<Rightarrow> s1
                   | Pk_Result authorized challenge \<Rightarrow>
                       if authorized \<or> challenge
                       then update_permissions (pc_call call) (\<lambda>perms n. (perms OR pc_permission call, n)) s1
                       else s1)
         in permission_done k call s2))"

text \<open>The caller in the same process needs no authorization.\<close>

definition sysconfig_get_permissions :: "nat \<Rightarrow> sysconfig \<Rightarrow> sysconfig" where
  "sysconfig_get_permissions u s =
     (let p0 = 0;
          p1 = (if get_plugin s CAP_MODIFY_CONNECTIONS \<noteq> None then p0 OR PERMISSION_CONNECTION_MODIFY else p0);
          p2 = (if get_plugin s CAP_MODIFY_HOSTNAME \<noteq> None then p1 OR PERMISSION_HOSTNAME_MODIFY else p1)
      in sv_emit (LOCAL_PERMISSIONS u ((p2 OR PERMISSION_WIFI_SHARE_OPEN) OR PERMISSION_WIFI_SHARE_PROTECTED)) s)"

section \<open>The end of the service\<close>

definition sysconfig_dispose :: "sysconfig \<Rightarrow> sysconfig" where
  "sysconfig_dispose s =
     s\<lparr>sy_calls := (\<lambda>k. if k \<in> set (sy_pk_calls s) then map_option (sl_disposed_update (\<lambda>_. True)) (sy_calls s k) else sy_calls s k),
       sy_pk_calls := [],
       sy_perms := (\<lambda>k. if k \<in> set (sy_perm_calls s) then map_option (pc_disposed_update (\<lambda>_. True)) (sy_perms s k) else sy_perms s k),
       sy_perm_calls := [], sv_disposed := True\<rparr>"

section \<open>Lemmas: unmanaged devices\<close>

lemma add_spec_sy: "add_spec s x = s\<lparr>sy_specs := List.insert x (sy_specs s)\<rparr>"
  by (auto simp: add_spec_def find_unmanaged_device_def list_ex_iff List.insert_def)

lemma add_specs_sy: "foldl add_spec s xs = s\<lparr>sy_specs := foldl (\<lambda>l x. List.insert x l) (sy_specs s) xs\<rparr>"
  by (induction xs arbitrary: s) (simp_all add: add_spec_sy)

lemma insert_all_set: "set (foldl (\<lambda>l x. List.insert x l) l xs) = set l \<union> set xs"
  by (induction xs arbitrary: l) auto

lemma insert_all_distinct: "distinct l \<Longrightarrow> distinct (foldl (\<lambda>l x. List.insert x l) l xs)"
  by (induction xs arbitrary: l) auto

lemma collect_specs_eq:
  "collect_specs s = s\<lparr>sy_specs := foldl (\<lambda>l x. List.insert x l) [] (concat (map pl_specs (sy_plugins s)))\<rparr>"
proof -
  have "foldl (\<lambda>s p. foldl add_spec s (pl_specs p)) s ps =
      s\<lparr>sy_specs := foldl (\<lambda>l x. List.insert x l) (sy_specs s) (concat (map pl_specs ps))\<rparr>" for ps :: "plugin list" and s :: sysconfig
    by (induction ps arbitrary: s) (simp_all add: add_specs_sy)
  then show ?thesis
    unfolding collect_specs_def by simp
qed

section \<open>The service as a state machine\<close>

datatype sy_event =
    Yev_Export
  | Yev_List nat
  | Yev_Add settings_hash nat
  | Yev_Local_Add connection nat
  | Yev_Hostname string nat
  | Yev_Permissions nat
  | Yev_Local_Permissions nat
  | Yev_Polkit nat pk_reply
  | Yev_Permission nat pk_reply
  | Yev_Authority_Changed
  | Yev_Connection_Added nat
  | Yev_Specs_Changed "plugin list"
  | Yev_Connection nat sc_event bool
  | Yev_Dispose

text \<open>An answer of PolicyKit to a request of the service.\<close>

definition sy_polkit :: "nat \<Rightarrow> pk_reply \<Rightarrow> sysconfig \<Rightarrow> sysconfig" where
  "sy_polkit k reply s =
     (case sy_calls s k of
        None \<Rightarrow> s
      | Some call \<Rightarrow>
          (case sl_request call of
             Rq_Add c callback \<Rightarrow> pk_add_cb k call c callback reply s
           | Rq_Hostname hostname \<Rightarrow> pk_hostname_cb k call hostname reply s
           | Rq_Permissions _ _ \<Rightarrow> s))"

text \<open>A connection of the service runs by itself; its \<^verbatim>\<open>removed\<close> signal reaches the handler that was connected
  when it was claimed.\<close>

definition sy_connection_event :: "numbering \<Rightarrow> transform \<Rightarrow> nat \<Rightarrow> sc_event \<Rightarrow> bool \<Rightarrow> sysconfig \<Rightarrow> sysconfig" where
  "sy_connection_event gt tr obj e writable s =
     (let x = sv_heap s obj;
          s1 = s\<lparr>sv_heap := (sv_heap s)(obj := sc_handle gt tr e x)\<rparr>
      in if REMOVED \<in> set (sc_sent gt tr e x) \<and> sv_path s obj \<noteq> None then connection_removed writable obj s1 else s1)"

fun sy_handle :: "numbering \<Rightarrow> transform \<Rightarrow> sy_event \<Rightarrow> sysconfig \<Rightarrow> sysconfig" where
  "sy_handle gt tr Yev_Export s = bm_settings_service_export s"
| "sy_handle gt tr (Yev_List ctx) s = impl_settings_list_connections sysconfig_list_connections ctx s"
| "sy_handle gt tr (Yev_Add settings ctx) s = impl_settings_add_connection tr (Some sy_add_connection) settings ctx s"
| "sy_handle gt tr (Yev_Local_Add c u) s = add_connection_interface (Some sy_add_connection) c u s"
| "sy_handle gt tr (Yev_Hostname hostname ctx) s = impl_settings_save_hostname hostname ctx s"
| "sy_handle gt tr (Yev_Permissions ctx) s = impl_settings_get_permissions ctx s"
| "sy_handle gt tr (Yev_Local_Permissions u) s = sysconfig_get_permissions u s"
| "sy_handle gt tr (Yev_Polkit k reply) s = sy_polkit k reply s"
| "sy_handle gt tr (Yev_Permission k reply) s =
     (case sy_perms s k of None \<Rightarrow> s | Some call \<Rightarrow> permission_call_done k call reply s)"
| "sy_handle gt tr Yev_Authority_Changed s = pk_authority_changed_cb s"
| "sy_handle gt tr (Yev_Connection_Added obj) s = plugin_connection_added obj s"
| "sy_handle gt tr (Yev_Specs_Changed ps) s = unmanaged_specs_changed (s\<lparr>sy_plugins := ps\<rparr>)"
| "sy_handle gt tr (Yev_Connection obj e writable) s = sy_connection_event gt tr obj e writable s"
| "sy_handle gt tr Yev_Dispose s = sysconfig_dispose s"

fun sy_enabled :: "sy_event \<Rightarrow> sysconfig \<Rightarrow> bool" where
  "sy_enabled (Yev_Polkit k reply) s =
     (sy_authority s \<and> (case sy_calls s k of
        Some call \<Rightarrow> (case sl_request call of Rq_Permissions _ _ \<Rightarrow> False | _ \<Rightarrow> True) | None \<Rightarrow> False))"
| "sy_enabled (Yev_Permission k reply) s = (sy_authority s \<and> sy_perms s k \<noteq> None)"
| "sy_enabled (Yev_Connection obj e writable) s = sc_enabled e (sv_heap s obj)"
| "sy_enabled (Yev_Specs_Changed ps) s = (\<not> sv_disposed s \<and> map pl_name ps = map pl_name (sy_plugins s))"
| "sy_enabled _ s = (\<not> sv_disposed s)"

inductive sy_reachable :: "numbering \<Rightarrow> transform \<Rightarrow> sysconfig \<Rightarrow> sysconfig \<Rightarrow> bool" for gt tr s0 where
  sy_start: "sy_reachable gt tr s0 s0"
| sy_step: "sy_reachable gt tr s0 s \<Longrightarrow> sy_enabled e s \<Longrightarrow> sy_reachable gt tr s0 (sy_handle gt tr e s)"

section \<open>Lemmas: the exported connections\<close>

text \<open>The service has a bus, every object in the table is exported, and the exported paths are numbered.\<close>

definition table_ok :: "sysconfig \<Rightarrow> bool" where
  "table_ok s \<longleftrightarrow> sv_bus s \<and> sv_scope s = BM_CONNECTION_SCOPE_SYSTEM \<and> gh_wf (sy_connections s) \<and> paths_numbered s \<and>
     (\<forall>obj \<in> set (gh_keys (sy_connections s)). sv_path s obj \<noteq> None)"

text \<open>What \<^const>\<open>table_ok\<close> looks at.\<close>

lemma table_ok_same:
  assumes "table_ok s" "sv_bus s' = sv_bus s" "sv_scope s' = sv_scope s" "sv_counter s' = sv_counter s"
    and "\<And>obj. sv_path s' obj = sv_path s obj \<and> conn_scope (sc_conn (sv_heap s' obj)) = conn_scope (sc_conn (sv_heap s obj))"
    and "gh_wf (sy_connections s')" "set (gh_keys (sy_connections s')) \<subseteq> set (gh_keys (sy_connections s))"
  shows "table_ok s'"
proof -
  have "exported_objects s' = exported_objects s"
    using assms(5) by (simp add: exported_objects_def)
  moreover have "paths_numbered s"
    using assms(1) by (simp add: table_ok_def)
  ultimately have "paths_numbered s'"
    using assms(3,4,5) unfolding paths_numbered_def by simp
  then show ?thesis
    using assms unfolding table_ok_def by auto
qed

lemma table_ok_emit [simp]: "table_ok (sv_emit x s) = table_ok s"
  by (simp add: table_ok_def paths_numbered_def exported_objects_def sv_emit_def sv_path_def)

lemma claim_ok [bm_inv]:
  assumes "table_ok s"
  shows "table_ok (claim_connection obj True s)"
proof (cases "gh_lookup (sy_connections s) obj \<noteq> None \<or> connection_uuid s obj = None")
  case True
  then show ?thesis
    using assms by (auto simp: claim_connection_def)
next
  case False
  then obtain uuid where uuid: "connection_uuid s obj = Some uuid" "gh_lookup (sy_connections s) obj = None"
    by blast
  let ?x = "set_timestamp (read_timestamp (sy_timestamps s) uuid) (sv_heap s obj)"
  let ?s1 = "s\<lparr>sv_heap := (sv_heap s)(obj := ?x), sy_connections := gh_insert obj () (sy_connections s)\<rparr>"
  let ?s0 = "s\<lparr>sv_heap := (sv_heap s)(obj := ?x)\<rparr>"
  have "sc_conn ?x = sc_conn (sv_heap s obj)"
    by (simp add: set_timestamp_def split: option.split)
  then have s0: "table_ok ?s0"
    using assms by (intro table_ok_same [OF assms]) (auto simp: sv_path_def table_ok_def)
  then have "paths_numbered ?s0"
    by (simp add: table_ok_def)
  then have "paths_numbered ?s1"
    by (simp add: paths_numbered_def exported_objects_def sv_path_def)
  then have "paths_numbered (bm_settings_service_export_connection obj ?s1)"
    by (rule export_numbered)
  moreover have "sy_connections (bm_settings_service_export_connection obj ?s1) = gh_insert obj () (sy_connections s)"
    by (simp add: bm_settings_service_export_connection_def sv_emit_def Let_def)
  moreover have "sv_path ?s1 y = sv_path ?s0 y" for y
    by (simp add: sv_path_def)
  ultimately have "table_ok (bm_settings_service_export_connection obj ?s1)"
    using s0 unfolding table_ok_def by (auto simp: ght.invar_ins ght.keys_ins export_path)
  then show ?thesis
    using uuid by (simp add: claim_connection_def Let_def)
qed

lemma claims_ok: "table_ok s \<Longrightarrow> table_ok (foldl (\<lambda>s p. claim_each (pl_connections p) s) s ps)"
proof -
  have each: "table_ok s \<Longrightarrow> table_ok (claim_each objs s)" for objs and s :: sysconfig
    unfolding claim_each_def by (rule foldl_invariant [where P = table_ok]) (simp_all add: claim_ok)
  show "table_ok s \<Longrightarrow> table_ok (foldl (\<lambda>s p. claim_each (pl_connections p) s) s ps)"
    by (rule foldl_invariant [where P = table_ok]) (simp_all add: each)
qed

text \<open>The part of the state the table rests on.\<close>

definition same_table :: "sysconfig \<Rightarrow> sysconfig \<Rightarrow> bool" where
  "same_table s s' \<longleftrightarrow> sv_bus s' = sv_bus s \<and> sv_scope s' = sv_scope s \<and> sv_counter s' = sv_counter s \<and>
     sv_heap s' = sv_heap s \<and> sy_connections s' = sy_connections s"

lemma same_table_ok: "table_ok s \<Longrightarrow> same_table s s' \<Longrightarrow> table_ok s'"
  by (rule table_ok_same) (auto simp: same_table_def sv_path_def table_ok_def)

lemma same_table_refl [simp]: "same_table s s"
  by (simp add: same_table_def)

lemma same_table_emit [simp]: "same_table s (sv_emit x s') = same_table s s'"
  by (simp add: same_table_def sv_emit_def)

lemma same_table_updates [simp]:
  "same_table s (sy_calls_update f s') = same_table s s'" "same_table s (sy_next_update g s') = same_table s s'"
  "same_table s (sy_pk_calls_update h s') = same_table s s'" "same_table s (sy_perms_update i s') = same_table s s'"
  "same_table s (sy_perm_calls_update j s') = same_table s s'" "same_table s (sy_plugins_update l s') = same_table s s'"
  "same_table s (sy_specs_update m s') = same_table s s'" "same_table s (sy_loaded_update n s') = same_table s s'"
  "same_table s (sv_disposed_update q s') = same_table s s'" "same_table s (sy_timestamps_update r s') = same_table s s'"
  "same_table s (sv_exported_update v s') = same_table s s'"
  by (simp_all add: same_table_def)

lemma load_ok [bm_inv]: "table_ok s \<Longrightarrow> table_ok (load_connections s)"
proof -
  assume ok: "table_ok s"
  let ?s1 = "foldl (\<lambda>s p. claim_each (pl_connections p) s) s (sy_plugins s)"
  have "same_table ?s1 (collect_specs (?s1\<lparr>sy_loaded := True\<rparr>))"
    by (simp add: collect_specs_eq)
  then show ?thesis
    using ok claims_ok [OF ok, of "sy_plugins s"] same_table_ok
    by (simp add: load_connections_def announce_specs_def Let_def)
qed

lemma specs_changed_ok [bm_inv]: "table_ok s \<Longrightarrow> table_ok (unmanaged_specs_changed s)"
proof -
  assume "table_ok s"
  then have "table_ok (collect_specs s)"
    using same_table_ok [of s "collect_specs s"] by (simp add: collect_specs_eq)
  then show ?thesis
    by (simp add: unmanaged_specs_changed_def announce_specs_def load_ok)
qed

lemma same_table_callback [simp]: "same_table s (add_callback_run cb e s') = same_table s s'"
  by (cases cb) simp_all

lemma same_table_add: "same_table s (sy_add_connection c ctx cb s)"
  by (simp add: sy_add_connection_def sy_start_def split: option.split)

lemma same_table_hostnames: "same_table s s' \<Longrightarrow> same_table s (snd (set_hostnames h ds ps b s'))"
proof (induction ps arbitrary: ds b s')
  case (Cons p ps)
  then show ?case
    by (simp add: hostname_changed_def announce_hostname_def Let_def)
qed simp

lemma same_table_polkit: "same_table s (sy_polkit k reply s)"
proof -
  have "same_table s (snd (set_hostnames h [] ps False s'))" if "same_table s s'" for h ps s'
    using that by (rule same_table_hostnames)
  then show ?thesis
    by (auto simp: sy_polkit_def pk_add_cb_def pk_hostname_cb_def sy_free_def Let_def
        split: option.split sy_request.split pk_reply.split prod.split bool.split) (metis same_table_refl same_table_updates(3) snd_conv)+
qed

lemma same_table_permissions: "same_table s (update_permissions p f s') = same_table s s'"
  by (simp add: update_permissions_def)

lemma same_table_permission_done: "same_table s (permission_call_done k call reply s)"
proof -
  have "same_table s (permission_done k call s') = same_table s s'" for s'
    by (auto simp: permission_done_def same_table_permissions sy_free_def Let_def split: option.split sy_request.split)
  then show ?thesis
    by (simp add: permission_call_done_def same_table_permissions Let_def split: pk_reply.split)
qed

lemma same_table_get_permissions: "same_table s (impl_settings_get_permissions ctx s)"
  by (simp add: impl_settings_get_permissions_def start_permission_check_def same_table_permissions sy_start_def Let_def)

lemma removed_ok [bm_inv]: "table_ok s \<Longrightarrow> table_ok (connection_removed writable obj s)"
proof -
  assume ok: "table_ok s"
  let ?s1 = "s\<lparr>sy_connections := gh_remove obj (sy_connections s)\<rparr>"
  have "table_ok ?s1"
    using ok by (intro table_ok_same [OF ok]) (auto simp: table_ok_def ght.invar_del ght.keys_del sv_path_def)
  moreover have "same_table ?s1 (?s1\<lparr>sy_timestamps := t\<rparr>)" for t
    by simp
  ultimately show ?thesis
    using same_table_ok by (simp add: connection_removed_def Let_def split: option.split)
qed

lemma connection_event_ok [bm_inv]: "table_ok s \<Longrightarrow> table_ok (sy_connection_event gt tr obj e writable s)"
proof -
  assume ok: "table_ok s"
  have "table_ok (s\<lparr>sv_heap := (sv_heap s)(obj := sc_handle gt tr e (sv_heap s obj))\<rparr>)"
    using ok by (intro table_ok_same [OF ok])
      (auto simp: table_ok_def sv_path_def bm_connection_get_path_def handle_path)
  then show ?thesis
    by (simp add: sy_connection_event_def removed_ok Let_def)
qed

lemma handle_ok [bm_inv]: "table_ok s \<Longrightarrow> table_ok (sy_handle gt tr e s)"
proof (cases e)
  case Yev_Export
  then show "table_ok s \<Longrightarrow> table_ok (sy_handle gt tr e s)"
    using same_table_ok [of s] by (simp add: bm_settings_service_export_def)
next
  case (Yev_List ctx)
  then show "table_ok s \<Longrightarrow> table_ok (sy_handle gt tr e s)"
    by (simp add: impl_settings_list_connections_def sysconfig_list_connections_def load_ok Let_def)
next
  case (Yev_Add settings ctx)
  then show "table_ok s \<Longrightarrow> table_ok (sy_handle gt tr e s)"
    using same_table_ok [OF _ same_table_add] by (simp add: impl_settings_add_connection_def split: sum.split)
next
  case (Yev_Local_Add c u)
  then show "table_ok s \<Longrightarrow> table_ok (sy_handle gt tr e s)"
    using same_table_ok [OF _ same_table_add] by (simp add: add_connection_interface_def)
next
  case (Yev_Hostname h ctx)
  then show "table_ok s \<Longrightarrow> table_ok (sy_handle gt tr e s)"
    using same_table_ok [of s] by (simp add: impl_settings_save_hostname_def sy_start_def)
next
  case (Yev_Permissions ctx)
  then show "table_ok s \<Longrightarrow> table_ok (sy_handle gt tr e s)"
    using same_table_ok [OF _ same_table_get_permissions] by simp
next
  case (Yev_Polkit k reply)
  then show "table_ok s \<Longrightarrow> table_ok (sy_handle gt tr e s)"
    using same_table_ok [OF _ same_table_polkit] by simp
next
  case (Yev_Permission k reply)
  then show "table_ok s \<Longrightarrow> table_ok (sy_handle gt tr e s)"
    using same_table_ok [OF _ same_table_permission_done] by (simp split: option.split)
next
  case (Yev_Specs_Changed ps)
  then show "table_ok s \<Longrightarrow> table_ok (sy_handle gt tr e s)"
    using same_table_ok [of s "s\<lparr>sy_plugins := ps\<rparr>"] by (simp add: specs_changed_ok)
next
  case Yev_Dispose
  then show "table_ok s \<Longrightarrow> table_ok (sy_handle gt tr e s)"
    using same_table_ok [of s] by (simp add: sysconfig_dispose_def)
qed (simp_all add: sysconfig_get_permissions_def pk_authority_changed_cb_def plugin_connection_added_def claim_ok
      connection_event_ok Let_def)

lemma init_ok: "\<forall>obj. conn_path (sc_conn (heap obj)) = None \<Longrightarrow> table_ok (bm_sysconfig_settings_init True authority timestamps heap)"
proof -
  assume "\<forall>obj. conn_path (sc_conn (heap obj)) = None"
  then have "exported_objects (bm_sysconfig_settings_init True authority timestamps heap) = {}"
    by (simp add: exported_objects_def sv_path_def bm_sysconfig_settings_init_def bm_connection_get_path_def)
  then show ?thesis
    by (simp add: table_ok_def paths_numbered_def gh_new_def bij_betw_def) (simp add: bm_sysconfig_settings_init_def gh_new_def)
qed

lemma load_loop_table: "same_table s s' \<Longrightarrow> same_table s (snd (load_loop module tokens list s'))"
  by (induction module tokens list s' rule: load_loop.induct)
     (auto simp: Let_def add_plugin_def split: module_result.split)

lemma new_ok:
  assumes "bm_sysconfig_settings_new module plugins True authority timestamps heap = Inr s"
    and "\<forall>obj. conn_path (sc_conn (heap obj)) = None"
  shows "table_ok s"
proof -
  let ?s = "bm_sysconfig_settings_init True authority timestamps heap"
  note init = init_ok [OF assms(2), of authority timestamps]
  have "same_table ?s (snd (load_plugins module ps ?s))" for ps
    by (simp add: load_plugins_def load_loop_table)
  then have "table_ok (snd (load_plugins module ps ?s))" for ps
    using same_table_ok [OF init] by blast
  then show ?thesis
    using assms(1) init
    by (auto simp: bm_sysconfig_settings_new_def specs_changed_ok Let_def split: option.splits prod.splits) (metis snd_conv specs_changed_ok)
qed

lemma reachable_table_ok: "sy_reachable gt tr s0 s \<Longrightarrow> table_ok s0 \<Longrightarrow> table_ok s"
  by (induction rule: sy_reachable.induct) (simp_all add: handle_ok)

section \<open>Lemmas: requests\<close>

definition pk_allows :: "pk_reply \<Rightarrow> bool" where
  "pk_allows r = (case r of Pk_Error _ \<Rightarrow> False | Pk_Result authorized challenge \<Rightarrow> authorized \<or> challenge)"

text \<open>One check of a permissions request: \<open>n\<close> are still open.\<close>

lemma permission_step:
  fixes gt :: numbering and tr :: transform and reply :: pk_reply
  assumes "sy_calls s p = Some \<lparr>sl_context = ctx, sl_request = Rq_Permissions perms n, sl_disposed = d\<rparr>"
    and "sy_perms s k = Some \<lparr>pc_call = p, pc_permission = pbit, pc_disposed = False\<rparr>"
  defines "s' \<equiv> sy_handle gt tr (Yev_Permission k reply) s" and "perms' \<equiv> (if pk_allows reply then perms OR pbit else perms)"
  shows "sy_perms s' = (sy_perms s)(k := None)"
    and "sv_out s' = sv_out s @ (if n = 1 then [SV_REPLY_PERMISSIONS ctx perms'] else [])"
    and "sy_calls s' = (sy_calls s)(p := if n = 1 then None
        else Some \<lparr>sl_context = ctx, sl_request = Rq_Permissions perms' (n - 1), sl_disposed = d\<rparr>)"
proof -
  have "n - 1 = 0 \<longleftrightarrow> n = 1"
    by (metis eq_iff_diff_eq_0)
  then show "sy_perms s' = (sy_perms s)(k := None)"
    "sv_out s' = sv_out s @ (if n = 1 then [SV_REPLY_PERMISSIONS ctx perms'] else [])"
    "sy_calls s' = (sy_calls s)(p := if n = 1 then None
        else Some \<lparr>sl_context = ctx, sl_request = Rq_Permissions perms' (n - 1), sl_disposed = d\<rparr>)"
    using assms(1,2) unfolding s'_def perms'_def
    by (cases reply; simp add: permission_call_done_def permission_done_def update_permissions_def sy_free_def sv_emit_def
        pk_allows_def Let_def)+
qed

definition sy_deliver :: "numbering \<Rightarrow> transform \<Rightarrow> (nat \<times> pk_reply) list \<Rightarrow> sysconfig \<Rightarrow> sysconfig" where
  "sy_deliver gt tr krs s = foldl (\<lambda>s kr. sy_handle gt tr (Yev_Permission (fst kr) (snd kr)) s) s krs"

lemma sy_deliver_simps:
  "sy_deliver gt tr [] s = s"
  "sy_deliver gt tr ((k, r) # krs) s = sy_deliver gt tr krs (sy_handle gt tr (Yev_Permission k r) s)"
  by (simp_all add: sy_deliver_def del: sy_handle.simps)

lemma deliver_permissions:
  assumes "sy_calls s p = Some \<lparr>sl_context = ctx, sl_request = Rq_Permissions perms (of_nat (length krs)), sl_disposed = d\<rparr>"
    and "\<And>k. k \<in> set (map fst krs) \<Longrightarrow> sy_perms s k = Some \<lparr>pc_call = p, pc_permission = pbit k, pc_disposed = False\<rparr>"
    and "distinct (map fst krs)" "krs \<noteq> []" "length krs < 2 ^ 32"
  shows "sv_out (sy_deliver gt tr krs s) = sv_out s @
      [SV_REPLY_PERMISSIONS ctx (foldl (\<lambda>m (k, r). if pk_allows r then m OR pbit k else m) perms krs)] \<and>
    sy_calls (sy_deliver gt tr krs s) p = None"
  using assms
proof (induction krs arbitrary: s perms)
  case (Cons kr krs)
  obtain k r where kr: "kr = (k, r)"
    by (cases kr)
  let ?s = "sy_handle gt tr (Yev_Permission k r) s" and ?perms = "if pk_allows r then perms OR pbit k else perms"
  have k: "sy_perms s k = Some \<lparr>pc_call = p, pc_permission = pbit k, pc_disposed = False\<rparr>"
    using Cons.prems(2) [of k] kr by simp
  note step = permission_step [OF Cons.prems(1) k, of gt tr r]
  show ?case
  proof (cases "krs = []")
    case True
    then show ?thesis
      using step by (simp add: kr sy_deliver_simps del: sy_handle.simps)
  next
    case False
    have "unat (of_nat n :: u32) = n" if "n < 2 ^ 32" for n
      using that by (simp add: unat_of_nat)
    from this [OF Cons.prems(5)] have "unat (of_nat (length (kr # krs)) :: u32) = length (kr # krs)" .
    moreover have "length (kr # krs) \<noteq> 1"
      using False by simp
    ultimately have n: "(of_nat (length (kr # krs)) :: u32) \<noteq> 1"
      by (metis unat_1)
    have "(of_nat (length (kr # krs)) :: u32) - 1 = of_nat (length krs)"
      by simp
    then have "sy_calls ?s p = Some \<lparr>sl_context = ctx, sl_request = Rq_Permissions ?perms (of_nat (length krs)), sl_disposed = d\<rparr>"
      unfolding step(3) using n by simp
    moreover have "sy_perms ?s x = Some \<lparr>pc_call = p, pc_permission = pbit x, pc_disposed = False\<rparr>" if "x \<in> set (map fst krs)" for x
      unfolding step(1) using Cons.prems(2) [of x] Cons.prems(3) kr that by auto
    ultimately have "sv_out (sy_deliver gt tr krs ?s) = sv_out ?s @
        [SV_REPLY_PERMISSIONS ctx (foldl (\<lambda>m (k, r). if pk_allows r then m OR pbit k else m) ?perms krs)] \<and>
      sy_calls (sy_deliver gt tr krs ?s) p = None"
      using Cons.prems(3,5) False by (intro Cons.IH) simp_all
    then show ?thesis
      using step(2) n by (simp add: kr sy_deliver_simps del: sy_handle.simps)
  qed
qed simp

text \<open>What the request starts: the checks have the numbers after its own.\<close>

lemma get_permissions_starts:
  fixes ctx :: nat and s :: sysconfig
  defines "md \<equiv> get_plugin s CAP_MODIFY_CONNECTIONS \<noteq> None" and "host \<equiv> get_plugin s CAP_MODIFY_HOSTNAME \<noteq> None"
  defines "s' \<equiv> impl_settings_get_permissions ctx s" and "p \<equiv> sy_next s"
  defines "bits \<equiv> (if md then [PERMISSION_CONNECTION_MODIFY] else []) @ (if host then [PERMISSION_HOSTNAME_MODIFY] else [])"
  shows "sy_next s' = Suc p + length bits" "sv_out s' = sv_out s"
    and "sy_calls s' p = Some \<lparr>sl_context = ctx, sl_request = Rq_Permissions 0 (of_nat (length bits)), sl_disposed = False\<rparr>"
    and "i < length bits \<Longrightarrow> sy_perms s' (Suc p + i) = Some \<lparr>pc_call = p, pc_permission = bits ! i, pc_disposed = False\<rparr>"
  by (auto simp: s'_def p_def bits_def md_def host_def impl_settings_get_permissions_def start_permission_check_def
      update_permissions_def sy_start_def get_plugin_def Let_def less_Suc_eq)

lemma add_loop_result:
  "add_loop c ps e = (if \<exists>p \<in> set ps. fst (pl_add p c) then (True, None)
     else (False, if ps = [] then e else snd (pl_add (last ps) c)))"
  by (induction ps arbitrary: e) (auto split: prod.split)

text \<open>The plugins and the time stamps are not touched by loading.\<close>

lemma claim_other [simp]:
  "sy_plugins (claim_connection obj b s) = sy_plugins s" "sy_specs (claim_connection obj b s) = sy_specs s"
  "sy_timestamps (claim_connection obj b s) = sy_timestamps s"
proof -
  have "sysconfig.sy_plugins (bm_settings_service_export_connection obj s) = sy_plugins s"
    "sysconfig.sy_specs (bm_settings_service_export_connection obj s) = sy_specs s"
    "sysconfig.sy_timestamps (bm_settings_service_export_connection obj s) = sy_timestamps s" for s :: sysconfig
    by (simp_all add: bm_settings_service_export_connection_def sv_emit_def Let_def)
  then show "sy_plugins (claim_connection obj b s) = sy_plugins s" "sy_specs (claim_connection obj b s) = sy_specs s"
    "sy_timestamps (claim_connection obj b s) = sy_timestamps s"
    by (simp_all add: claim_connection_def sv_emit_def Let_def split: option.split)
qed

lemma claims_other [simp]:
  "sy_plugins (foldl (\<lambda>s p. claim_each (pl_connections p) s) s ps) = sy_plugins s"
proof -
  have "sy_plugins (claim_each objs s) = sy_plugins s" for objs and s :: sysconfig
    by (induction objs arbitrary: s) (simp_all add: claim_each_def)
  then show ?thesis
    by (induction ps arbitrary: s) simp_all
qed

definition all_specs :: "sysconfig \<Rightarrow> string list" where
  "all_specs s = concat (map pl_specs (sy_plugins s))"

lemma collect_specs_result:
  "distinct (sy_specs (collect_specs s))" "set (sy_specs (collect_specs s)) = set (all_specs s)"
  "sy_plugins (collect_specs s) = sy_plugins s"
  by (simp_all add: collect_specs_eq insert_all_set insert_all_distinct all_specs_def)

lemma emit_sysconfig [simp]:
  "sy_specs (sv_emit x s) = sy_specs s" "sy_plugins (sv_emit x s) = sy_plugins s" "sy_loaded (sv_emit x s) = sy_loaded s"
  "sy_connections (sv_emit x s) = sy_connections s" "sy_timestamps (sv_emit x s) = sy_timestamps s"
  by (simp_all add: sv_emit_def)

lemma load_specs:
  assumes "distinct (sy_specs s)" "set (sy_specs s) = set (all_specs s)"
  shows "distinct (sy_specs (load_connections s))" "set (sy_specs (load_connections s)) = set (all_specs s)"
    "sy_plugins (load_connections s) = sy_plugins s"
  using assms collect_specs_result
  by (simp_all add: load_connections_def announce_specs_def all_specs_def Let_def)

section \<open>Properties\<close>

text \<open>After a plugin has announced a change the unmanaged devices are those that any plugin names, each
  once, and the last signal sent carries exactly this list; reading the list gives the same devices.\<close>

theorem unmanaged_specs_complete:
  "let s' = unmanaged_specs_changed s
   in distinct (sy_specs s') \<and> set (sy_specs s') = (\<Union>p \<in> set (sy_plugins s). set (pl_specs p)) \<and>
      last (sv_out s') = PROPERTY_CHANGED ''UnmanagedSpecs''
        (GCollection T_STRING (Some (map (\<lambda>x. GString (Some x)) (sy_specs s')))) \<and>
      sy_specs s' = fst (bm_sysconfig_settings_get_unmanaged_specs s')"
proof -
  let ?s = "load_connections (collect_specs s)"
  have c: "distinct (sy_specs (collect_specs s))" "set (sy_specs (collect_specs s)) = set (all_specs (collect_specs s))"
    using collect_specs_result [of s] by (simp_all add: all_specs_def)
  have "sy_loaded ?s"
    by (simp add: load_connections_def announce_specs_def collect_specs_eq Let_def)
  then have "load_connections (announce_specs ?s) = announce_specs ?s"
    by (simp add: load_connections_def announce_specs_def)
  moreover have "uscore_to_wincaps (Some ''unmanaged-specs'') = ''UnmanagedSpecs''"
    by (simp add: uscore_to_wincaps_def ascii_toupper_def char_code_def)
  moreover have "set (all_specs (collect_specs s)) = (\<Union>p \<in> set (sy_plugins s). set (pl_specs p))"
    by (simp add: all_specs_def collect_specs_result)
  ultimately show ?thesis
    using load_specs [OF c]
    by (simp add: unmanaged_specs_changed_def bm_sysconfig_settings_get_unmanaged_specs_def Let_def) (simp add: announce_specs_def)
qed

text \<open>The answers come in any order, but each sets its own bit.\<close>

lemma bit_fold_answers:
  "bit (foldl (\<lambda>m (k, r). if P r then m OR f k else m) (m :: u32) krs) n \<longleftrightarrow>
   bit m n \<or> (\<exists>(k, r) \<in> set krs. P r \<and> bit (f k) n)"
  by (induction krs arbitrary: m) (auto simp: bit_simps split: if_splits)

lemma bit_foldr_or_map: "bit (foldr (OR) (map f is) (0 :: u32)) n \<longleftrightarrow> (\<exists>i \<in> set is. bit (f i) n)"
  by (induction "is") (auto simp: bit_simps)

lemma permission_mask:
  assumes "distinct (map fst krs)" "set (map fst krs) = {p<..<Suc p + length perms}"
  shows "foldl (\<lambda>m (k, r). if pk_allows r then m OR perms ! (k - Suc p) else m) 0 krs =
    foldr (OR) (map (\<lambda>i. if case map_of krs (Suc p + i) of Some r \<Rightarrow> pk_allows r | None \<Rightarrow> False then perms ! i else 0)
      [0..<length perms]) (0 :: u32)"
proof (rule bit_eqI, goal_cases)
  case (1 n)
  have index: "k = Suc p + (k - Suc p) \<and> k - Suc p < length perms" if "(k, r) \<in> set krs" for k r
  proof -
    have "k \<in> {p<..<Suc p + length perms}"
      using that unfolding assms(2) [symmetric] by (simp add: rev_image_eqI)
    then show ?thesis
      by auto
  qed
  have "(\<exists>(k, r) \<in> set krs. pk_allows r \<and> bit (perms ! (k - Suc p)) n) \<longleftrightarrow>
      (\<exists>i < length perms. \<exists>r. (Suc p + i, r) \<in> set krs \<and> pk_allows r \<and> bit (perms ! i) n)" (is "?l \<longleftrightarrow> ?r")
  proof
    assume ?l
    then show ?r
      using index by (metis (no_types, lifting) case_prodE)
  next
    assume ?r
    then show ?l
      by (metis (no_types, lifting) add_diff_cancel_left' case_prodI)
  qed
  also have "\<dots> \<longleftrightarrow> (\<exists>i < length perms. \<exists>r. map_of krs (Suc p + i) = Some r \<and> pk_allows r \<and> bit (perms ! i) n)"
    using assms(1) by (simp add: map_of_eq_Some_iff)
  also have "\<dots> \<longleftrightarrow> (\<exists>i < length perms. bit (if case map_of krs (Suc p + i) of Some r \<Rightarrow> pk_allows r | None \<Rightarrow> False
      then perms ! i else 0) n)"
    by (intro ex_cong1 conj_cong refl) (auto split: option.split)
  finally show ?case
    by (simp add: bit_fold_answers bit_foldr_or_map Bex_def)
qed

text \<open>The permissions request is answered once, when PolicyKit has answered its last check, whatever the
  order of the answers, with one bit for each action that some plugin supports and the caller is or
  can become authorized for.  Without any such plugin no check is started and nobody ever answers.\<close>

theorem permissions_request_answered:
  assumes "s1 = sy_handle gt tr (Yev_Permissions ctx) s" "sy_next s = p"
    and "distinct (map fst krs)" "set (map fst krs) = {p<..<sy_next s1}"
  shows "let can_modify = (\<exists>x \<in> set (sy_plugins s). pl_caps x AND CAP_MODIFY_CONNECTIONS \<noteq> 0);
             can_name = (\<exists>x \<in> set (sy_plugins s). pl_caps x AND CAP_MODIFY_HOSTNAME \<noteq> 0);
             allowed = (\<lambda>k. case map_of krs k of Some r \<Rightarrow> pk_allows r | None \<Rightarrow> False);
             s2 = sy_deliver gt tr krs s1
         in if \<not> can_modify \<and> \<not> can_name
            then krs = [] \<and> sv_out s2 = sv_out s \<and> sy_calls s2 p \<noteq> None
            else sy_calls s2 p = None \<and> sv_out s2 = sv_out s @ [SV_REPLY_PERMISSIONS ctx
               ((if can_modify \<and> allowed (Suc p) then PERMISSION_CONNECTION_MODIFY else 0) OR
                (if can_name \<and> allowed (if can_modify then Suc (Suc p) else Suc p) then PERMISSION_HOSTNAME_MODIFY else 0))]"
proof -
  define md host where "md \<longleftrightarrow> get_plugin s CAP_MODIFY_CONNECTIONS \<noteq> None" and "host \<longleftrightarrow> get_plugin s CAP_MODIFY_HOSTNAME \<noteq> None"
  have can: "(\<exists>x \<in> set (sy_plugins s). pl_caps x AND CAP_MODIFY_CONNECTIONS \<noteq> 0) = md"
      "(\<exists>x \<in> set (sy_plugins s). pl_caps x AND CAP_MODIFY_HOSTNAME \<noteq> 0) = host"
    by (simp_all add: md_def host_def get_plugin_def find_None_iff Bex_def)
  define pbits where "pbits = (if md then [PERMISSION_CONNECTION_MODIFY] else []) @ (if host then [PERMISSION_HOSTNAME_MODIFY] else [])"
  have s1: "s1 = impl_settings_get_permissions ctx s"
    using assms(1) by simp
  note start = get_permissions_starts [where ctx = ctx and s = s, folded md_def host_def s1, folded pbits_def, unfolded assms(2)]
  have keys: "set (map fst krs) = {p<..<Suc p + length pbits}"
    using assms(4) start(1) by simp
  then have len: "length krs = length pbits"
    using distinct_card [OF assms(3)] by simp
  show ?thesis
  proof (cases "md \<or> host")
    case False
    then show ?thesis
      using start len unfolding can Let_def by (simp add: pbits_def sy_deliver_simps)
  next
    case True
    have calls: "sy_calls s1 p = Some \<lparr>sl_context = ctx, sl_request = Rq_Permissions 0 (of_nat (length krs)), sl_disposed = False\<rparr>"
      using start(3) len by simp
    have perms: "sy_perms s1 k = Some \<lparr>pc_call = p, pc_permission = pbits ! (k - Suc p), pc_disposed = False\<rparr>"
      if "k \<in> set (map fst krs)" for k
      using start(4) [where i = "k - Suc p"] that unfolding keys by auto
    have "krs \<noteq> []" "length krs < 2 ^ 32"
      using True len by (auto simp: pbits_def)
    from deliver_permissions [OF calls perms assms(3) this, of gt tr]
    show ?thesis
      using start(2) True unfolding can Let_def permission_mask [OF assms(3) keys]
      by (auto simp: pbits_def or.commute)
  qed
qed

text \<open>A service with one plugin that takes everything, and a connection for it.\<close>

definition sample_plugin :: plugin where
  "sample_plugin = \<lparr>pl_name = Some ''keyfile'', pl_caps = 3, pl_hostname = Some ''host'', pl_connections = [5],
     pl_specs = [''mac:00'', ''mac:00''], pl_add = (\<lambda>c. (True, None))\<rparr>"

definition sample_heap :: "nat \<Rightarrow> sys_connection" where
  "sample_heap obj = bm_sysconfig_connection_init True (sample_connection\<lparr>conn_path := None\<rparr>)"

definition sample_service :: sysconfig where
  "sample_service = (bm_sysconfig_settings_init True True (Some [(''0-f'', ''17'')]) sample_heap)\<lparr>sy_plugins := [sample_plugin]\<rparr>"

lemmas sample_service_eval = sample_service_def bm_sysconfig_settings_init_def sample_plugin_def get_plugin_def
  CAP_MODIFY_CONNECTIONS_def CAP_MODIFY_HOSTNAME_def

theorem permissions_request_answered_witness:
  "\<exists>s2. s2 = sy_deliver sample_gt (\<lambda>_ _. None) [(2, Pk_Result False True), (1, Pk_Result False False)]
       (sy_handle sample_gt (\<lambda>_ _. None) (Yev_Permissions 9) sample_service) \<and>
     sv_out s2 = [SV_REPLY_PERMISSIONS 9 PERMISSION_HOSTNAME_MODIFY]"
proof -
  let ?s1 = "sy_handle sample_gt (\<lambda>_ _. None) (Yev_Permissions 9) sample_service"
  let ?krs = "[(2 :: nat, Pk_Result False True), (1, Pk_Result False False)]"
  have caps: "get_plugin sample_service CAP_MODIFY_CONNECTIONS \<noteq> None" "get_plugin sample_service CAP_MODIFY_HOSTNAME \<noteq> None"
    by (simp_all add: sample_service_eval)
  have next0: "sy_next sample_service = 0" "sv_out sample_service = []"
    by (simp_all add: sample_service_def bm_sysconfig_settings_init_def)
  have "sy_next ?s1 = 3"
    using get_permissions_starts(1) [of 9 sample_service] caps next0 by simp
  then have "distinct (map fst ?krs)" "set (map fst ?krs) = {0<..<sy_next ?s1}"
    by auto
  from permissions_request_answered [OF refl next0(1) this]
  show ?thesis
    using caps next0(2) by (auto simp: Let_def get_plugin_def find_None_iff pk_allows_def sample_service_eval)
qed



text \<open>A caller in the same process has no bus invocation, and runs into the assertion on the new call, although
  the comment on the method says that the invocation is only present for calls from the bus.\<close>

lemma local_addition_aborts:
  "get_plugin s CAP_MODIFY_CONNECTIONS \<noteq> None \<Longrightarrow> sy_handle gt tr (Yev_Local_Add c u) s = sv_emit SV_ASSERTION s"
  by (auto simp: add_connection_interface_def sy_add_connection_def)

text \<open>Until \<open>2 ^ 32\<close> connections have been exported the connections that \<^verbatim>\<open>ListConnections\<close> shows have the
  system scope and distinct paths, and looking up a path finds exactly the listed connection that has
  it, without ever meeting a connection without a path.\<close>

theorem settings_paths_unique:
  assumes "bm_sysconfig_settings_new module plugins True authority timestamps heap = Inr s0"
    and "\<forall>obj. conn_path (sc_conn (heap obj)) = None" "sy_reachable gt tr s0 s"
    and "card (exported_objects (load_connections s)) \<le> 2 ^ 32"
  shows "case sysconfig_list_connections s of (objs, s') \<Rightarrow>
    distinct objs \<and> set objs = set (gh_keys (sy_connections s')) \<and> distinct (map (sv_path s') objs) \<and>
    (\<forall>obj \<in> set objs. conn_scope (sc_conn (sv_heap s' obj)) = BM_CONNECTION_SCOPE_SYSTEM) \<and>
    (\<forall>path. \<exists>r. fst (get_connection_by_path sysconfig_list_connections path s) = Returned r \<and>
       (\<forall>obj. r = Some obj \<longleftrightarrow> obj \<in> set objs \<and> sv_path s' obj = Some path))"
proof -
  let ?s = "load_connections s" and ?objs = "gh_keys (sy_connections (load_connections s))"
  have ok: "table_ok ?s"
    using reachable_table_ok [OF assms(3) new_ok [OF assms(1,2)]] by (rule load_ok)
  have "gh_foreach (\<lambda>key _ l. key # l) (t :: (nat, unit) ghash) acc = rev (gh_keys t) @ acc" for t acc
    by (induction t arbitrary: acc) (auto simp: gh_keys_def)
  then have list: "sysconfig_list_connections s = (?objs, ?s)"
    by (simp add: sysconfig_list_connections_def Let_def)
  have paths: "\<forall>obj \<in> set ?objs. sv_path ?s obj \<noteq> None" and num: "paths_numbered ?s"
    and scope: "sv_scope ?s = BM_CONNECTION_SCOPE_SYSTEM" and dist: "distinct ?objs"
    using ok by (simp_all add: table_ok_def gh_wf_def)
  have inj: "x = y" if "x \<in> set ?objs" "y \<in> set ?objs" "sv_path ?s x = sv_path ?s y" for x y
    using paths_numbered_inj [OF num assms(4)] paths that by (metis option.exhaust)
  have "distinct (map (sv_path ?s) ?objs)"
    using dist inj by (simp add: distinct_map inj_on_def)
  moreover have "\<forall>obj \<in> set ?objs. conn_scope (sc_conn (sv_heap ?s obj)) = BM_CONNECTION_SCOPE_SYSTEM"
    using num scope paths unfolding paths_numbered_def exported_objects_def by auto
  moreover have "\<exists>r. fst (get_connection_by_path sysconfig_list_connections path s) = Returned r \<and>
       (\<forall>obj. r = Some obj \<longleftrightarrow> obj \<in> set ?objs \<and> sv_path ?s obj = Some path)" for path
    using find_path_iff [of ?objs ?s path] paths inj by (auto simp: get_connection_by_path_def list)
  ultimately show ?thesis
    using dist unfolding list by simp
qed

theorem settings_paths_unique_witness:
  "\<exists>s0. bm_sysconfig_settings_new (\<lambda>n. if n = ''bm-settings-plugin-keyfile'' then Loaded sample_plugin else Invalid_Object)
       (Some ''keyfile'') True True None sample_heap = Inr s0 \<and>
     snd (sysconfig_list_connections s0) = s0 \<and>
     (\<exists>r. fst (get_connection_by_path sysconfig_list_connections ''/x'' s0) = Returned r)"
proof -
  let ?module = "\<lambda>n. if n = ''bm-settings-plugin-keyfile'' then Loaded sample_plugin else Invalid_Object"
  have tokens: "strsplit_set '','' ''keyfile'' = [''keyfile'']" "strstrip ''keyfile'' = ''keyfile''"
    by (simp_all add: strsplit_set_def strstrip_def ascii_isspace_def char_code_def)
  obtain s0 where s0: "bm_sysconfig_settings_new ?module (Some ''keyfile'') True True None sample_heap = Inr s0"
      "s0 = unmanaged_specs_changed (add_plugin sample_plugin (bm_sysconfig_settings_init True True None sample_heap))"
    by (simp add: bm_sysconfig_settings_new_def load_plugins_def tokens find_plugin_def)
  have heap: "\<forall>obj. conn_path (sc_conn (sample_heap obj)) = None"
    by (simp add: sample_heap_def bm_sysconfig_connection_init_def)
  have loaded: "sy_loaded s0" "load_connections s0 = s0"
    by (simp_all add: s0(2) unmanaged_specs_changed_def load_connections_def announce_specs_def collect_specs_eq Let_def)
  have "exported_objects s0 \<subseteq> {5}"
    by (auto simp: exported_objects_def s0(2) unmanaged_specs_changed_def load_connections_def announce_specs_def
        collect_specs_eq add_plugin_def bm_sysconfig_settings_init_def sample_plugin_def claim_each_def claim_connection_def
        sv_path_def bm_settings_service_export_connection_def sv_emit_def sample_heap_def bm_connection_get_path_def
        bm_sysconfig_connection_init_def set_timestamp_def Let_def split: if_splits option.splits)
  then have "card (exported_objects s0) \<le> 1"
    by (metis card_mono card.empty card_insert_disjoint empty_iff finite.emptyI finite_insert One_nat_def)
  then have "card (exported_objects (load_connections s0)) \<le> 2 ^ 32"
    by (simp add: loaded(2))
  from settings_paths_unique [OF s0(1) heap sy_start this] show ?thesis
    using s0(1) loaded(2) by (auto simp: sysconfig_list_connections_def Let_def)
qed

text \<open>The time stamp of a connection is kept in a file of its own: a connection that a plugin announces gets
  the stamp written there under its UUID, as a decimal number of 64 bits, and \<^verbatim>\<open>GetSettings\<close> shows it in
  place of the setting's; when the connection is removed its line, and no other, leaves the file and
  the connection leaves the table.\<close>

theorem timestamp_lifecycle:
  assumes "inj gt" "connection_ok (sc_conn (sv_heap s obj))" "bm_connection_verify (sc_conn (sv_heap s obj)) = Inr ()"
    and "connection_uuid s obj = Some (Some u)" "sy_timestamps s = Some file" "gh_wf file"
    and "gh_lookup file u = Some (print_nat (unat t))" "gh_lookup (sy_connections s) obj = None" "gh_wf (sy_connections s)"
  shows "let s1 = sy_handle gt tr (Yev_Connection_Added obj) s; s2 = connection_removed True obj s1
    in gh_lookup (sy_connections s1) obj \<noteq> None \<and>
       (\<exists>H d x p. real_get_settings gt tr (sv_heap s1 obj) = Some H \<and> bm_connection_new_from_hash tr H = Inr d \<and>
          bm_connection_get_setting d BM_TYPE_SETTING_CONNECTION = Some x \<and> set_priv x = Connection_Priv p \<and>
          con_timestamp p = t \<and> con_uuid p = Some u) \<and>
       gh_lookup (sy_connections s2) obj = None \<and>
       (\<exists>file'. sy_timestamps s2 = Some file' \<and> gh_lookup file' = (gh_lookup file)(u := None))"
proof -
  let ?s1 = "claim_connection obj True s"
  let ?x = "(sv_heap s obj)\<lparr>sc_timestamp := Some t\<rparr>"
  let ?s0 = "s\<lparr>sv_heap := (sv_heap s)(obj := ?x), sy_connections := gh_insert obj () (sy_connections s)\<rparr>"
  have s1: "?s1 = sv_emit (NEW_CONNECTION obj) (bm_settings_service_export_connection obj ?s0)"
    using assms(4,5,7,8) by (simp add: claim_connection_def read_timestamp_def set_timestamp_def strtoull_print Let_def)
  have heap: "sc_timestamp (sv_heap ?s1 obj) = Some t \<and> same_settings (sc_conn (sv_heap ?s1 obj)) (sc_conn (sv_heap s obj)) \<and>
      connection_wf (sc_conn (sv_heap ?s1 obj))"
    using assms(2) set_scope_path_wf
    by (simp add: s1 bm_settings_service_export_connection_def same_settings_def Let_def) (simp add: connection_ok_def)
  have table: "sy_connections ?s1 = gh_insert obj () (sy_connections s)" "sy_timestamps ?s1 = Some file"
    by (simp_all add: s1 bm_settings_service_export_connection_def assms(5) Let_def)
  have wf: "connection_wf (sc_conn (sv_heap s obj))"
    using assms(2) by (simp add: connection_ok_def)
  have ok: "connection_ok (sc_conn (sv_heap ?s1 obj))" "bm_connection_verify (sc_conn (sv_heap ?s1 obj)) = Inr ()"
    using ok_same_settings [OF _ assms(2)] verify_same_settings [OF _ wf] heap assms(3) by blast+
  obtain c p where c: "bm_connection_get_setting (sc_conn (sv_heap s obj)) BM_TYPE_SETTING_CONNECTION = Some c"
      "set_priv c = Connection_Priv p" "con_uuid p = Some u"
    using assms(4) by (auto simp: connection_uuid_def bm_setting_connection_get_uuid_def split: option.splits setting_priv.splits)
  then have same: "bm_connection_get_setting (sc_conn (sv_heap ?s1 obj)) BM_TYPE_SETTING_CONNECTION = Some c"
    using heap by (simp add: same_settings_def)
  obtain H d where "real_get_settings gt tr (sv_heap ?s1 obj) = Some H" "bm_connection_new_from_hash tr H = Inr d"
      "bm_connection_get_setting d BM_TYPE_SETTING_CONNECTION = Some (with_timestamp t c)"
    using get_settings_shows [OF assms(1) ok, of tr] heap same by auto
  moreover have "set_priv (with_timestamp t c) = Connection_Priv (p\<lparr>con_timestamp := t\<rparr>)"
    using c(2) by (simp add: with_timestamp_def)
  moreover have "connection_uuid (?s1\<lparr>sy_connections := gh_remove obj (sy_connections ?s1)\<rparr>) obj = Some (Some u)"
    using same c by (simp add: connection_uuid_def bm_setting_connection_get_uuid_def)
  ultimately show ?thesis
    using table c(3) assms(6,9)
    by (simp add: Let_def plugin_connection_added_def connection_removed_def ght.look_ins ght.look_del ght.invar_ins)
qed

theorem timestamp_lifecycle_witness:
  "gh_lookup (sy_connections (sy_handle sample_gt (\<lambda>_ _. None) (Yev_Connection_Added 5) sample_service)) 5 \<noteq> None \<and>
   (\<exists>file'. sy_timestamps (connection_removed True 5
       (sy_handle sample_gt (\<lambda>_ _. None) (Yev_Connection_Added 5) sample_service)) = Some file' \<and> gh_lookup file' ''0-f'' = None)"
proof -
  have conn: "sc_conn (sv_heap sample_service 5) = sample_connection\<lparr>conn_path := None\<rparr>"
    by (simp add: sample_service_def bm_sysconfig_settings_init_def sample_heap_def bm_sysconfig_connection_init_def)
  have same: "same_settings (sample_connection\<lparr>conn_path := None\<rparr>) sample_connection"
    by (simp add: same_settings_def bm_connection_get_setting_def)
  have wf: "connection_wf (sample_connection\<lparr>conn_path := None\<rparr>)"
    using sample_connection_ok(2) by (simp add: connection_wf_def)
  have ok: "connection_ok (sample_connection\<lparr>conn_path := None\<rparr>)" "bm_connection_verify (sample_connection\<lparr>conn_path := None\<rparr>) = Inr ()"
    using ok_same_settings [OF wf sample_connection_ok(1) same] verify_same_settings [OF wf sample_connection_ok(2) same]
      sample_connection_verify by simp_all
  have uuid: "connection_uuid sample_service 5 = Some (Some ''0-f'')"
    by (simp add: connection_uuid_def conn bm_connection_get_setting_def sample_connection_def bm_setting_connection_get_uuid_def)
  have "print_nat (unat (17 :: u64)) = ''17''"
    by (simp add: print_nat.simps [of 17] print_nat.simps [of "Suc 0"] char_of_def bit_Suc_0_iff)
  then have stamps: "sy_timestamps sample_service = Some [(''0-f'', ''17'')]" "gh_lookup [(''0-f'', ''17'')] ''0-f'' = Some (print_nat (unat (17 :: u64)))"
    by (simp_all add: sample_service_def bm_sysconfig_settings_init_def)
  have "gh_wf [(''0-f'', ''17'')]" "gh_lookup (sy_connections sample_service) 5 = None" "gh_wf (sy_connections sample_service)"
    by (simp_all add: sample_service_def bm_sysconfig_settings_init_def gh_new_def gh_keys_def)
  from timestamp_lifecycle [OF inj_sample_gt _ _ uuid stamps(1) this(1) stamps(2) this(2,3), of "\<lambda>_ _. None"]
  show ?thesis
    unfolding conn using ok by (auto simp: Let_def)
qed

end
