(* ===== verification/Device_Bt.thy ===== *)
theory Device_Bt
  imports Bluetooth_Search
begin

text \<open>
  Bluetooth devices, \<^verbatim>\<open>src/barcode-manager/src/bm-device-bt.c\<close>: the private data of the subclass, its
  properties, the choice of a connection to activate automatically and the check whether a connection
  is for the device; and the dispatch of \<^verbatim>\<open>bm-device-interface.c\<close>, whose methods a class may leave out.
  The proxies, the timeout and the interface name of the private data are freed by \<^verbatim>\<open>finalize\<close> and never set.
\<close>

section \<open>State and properties\<close>

record bt_device = device +
  bd_addr :: cstr
  bd_name :: cstr
  bd_caps :: u32

datatype bt_error =
    BM_BT_ERROR_CONNECTION_NOT_BT
  | BM_BT_ERROR_CONNECTION_INVALID
  | BM_BT_ERROR_CONNECTION_INCOMPATIBLE

definition BM_BT_CAPABILITY_NONE :: u32 where "BM_BT_CAPABILITY_NONE = 0"
definition BM_DEVICE_CAP_BM_SUPPORTED :: u32 where "BM_DEVICE_CAP_BM_SUPPORTED = 1"

definition bt_set_property :: "bt_device \<Rightarrow> string \<times> gvalue \<Rightarrow> bt_device" where
  "bt_set_property d nv =
     (let n = fst nv; v = snd nv
      in if n = ''hw-address'' then d\<lparr>bd_addr := map_option (map ascii_toupper) (value_string v)\<rparr>
         else if n = ''name'' then d\<lparr>bd_name := value_string v\<rparr>
         else if n = ''bt-capabilities'' then d\<lparr>bd_caps := value_uint v\<rparr>
         else d)"

definition bt_get_property :: "bt_device \<Rightarrow> string \<Rightarrow> gvalue option" where
  "bt_get_property d n =
     (if n = ''hw-address'' then Some (GString (bd_addr d))
      else if n = ''name'' then Some (GString (bd_name d))
      else if n = ''bt-capabilities'' then Some (GUInt (bd_caps d))
      else None)"

definition bm_device_bt_get_capabilities :: "bt_device \<Rightarrow> u32" where
  "bm_device_bt_get_capabilities d = bd_caps d"

definition bm_device_bt_get_hw_address :: "bt_device \<Rightarrow> cstr" where
  "bm_device_bt_get_hw_address d = bd_addr d"

definition bt_get_generic_capabilities :: "bt_device \<Rightarrow> u32" where
  "bt_get_generic_capabilities d = BM_DEVICE_CAP_BM_SUPPORTED"

definition bt_device_init :: bt_device where
  "bt_device_init = device.extend bm_device_init \<lparr>bd_addr = None, bd_name = None, bd_caps = BM_BT_CAPABILITY_NONE\<rparr>"

section \<open>The service a connection asks for\<close>

definition bluetooth_setting :: "connection \<Rightarrow> bluetooth_priv option" where
  "bluetooth_setting c =
     (case map_option set_priv (bm_connection_get_setting c BM_TYPE_SETTING_BLUETOOTH) of
        Some (Bluetooth_Priv b) \<Rightarrow> Some b
      | _ \<Rightarrow> None)"

definition connection_setting :: "connection \<Rightarrow> connection_priv option" where
  "connection_setting c =
     (case map_option set_priv (bm_connection_get_setting c BM_TYPE_SETTING_CONNECTION) of
        Some (Connection_Priv p) \<Rightarrow> Some p
      | _ \<Rightarrow> None)"

definition get_connection_bt_type :: "connection \<Rightarrow> u32 checked" where
  "get_connection_bt_type c =
     (case bluetooth_setting c of
        None \<Rightarrow> Returned BM_BT_CAPABILITY_NONE
      | Some s_bt \<Rightarrow>
          (case bm_setting_bluetooth_get_connection_type s_bt of
             None \<Rightarrow> Assertion_Violated
           | Some bt_type' \<Rightarrow>
               Returned (if bt_type' = ''dun'' then BM_BT_CAPABILITY_DUN
                         else if bt_type' = ''panu'' then BM_BT_CAPABILITY_NAP
                         else BM_BT_CAPABILITY_NONE)))"

section \<open>Automatic connections\<close>

fun real_get_best_auto_connection :: "bt_device \<Rightarrow> connection list \<Rightarrow> connection option checked" where
  "real_get_best_auto_connection d [] = Returned None"
| "real_get_best_auto_connection d (c # connections) =
     (case connection_setting c of
        None \<Rightarrow> Assertion_Violated
      | Some s_con \<Rightarrow>
          if \<not> bm_setting_connection_get_autoconnect s_con then real_get_best_auto_connection d connections
          else (case con_type s_con of
             None \<Rightarrow> Null_Dereferenced
           | Some con_type' \<Rightarrow>
               if con_type' \<noteq> ''bluetooth'' then real_get_best_auto_connection d connections
               else (case get_connection_bt_type c of
                  Returned bt_type' \<Rightarrow>
                    if bt_type' AND bd_caps d = 0 then real_get_best_auto_connection d connections
                    else Returned (Some c)
                | Assertion_Violated \<Rightarrow> Assertion_Violated
                | Null_Dereferenced \<Rightarrow> Null_Dereferenced)))"

section \<open>Compatibility\<close>

text \<open>The result and the error that is set.\<close>

definition real_check_connection_compatible :: "bt_device \<Rightarrow> connection \<Rightarrow> (bool \<times> bt_error option) checked" where
  "real_check_connection_compatible d c =
     (case connection_setting c of
        None \<Rightarrow> Assertion_Violated
      | Some s_con \<Rightarrow>
          (case con_type s_con of
             None \<Rightarrow> Null_Dereferenced
           | Some con_type' \<Rightarrow>
               if con_type' \<noteq> ''bluetooth'' then Returned (False, Some BM_BT_ERROR_CONNECTION_NOT_BT)
               else (case bluetooth_setting c of
                  None \<Rightarrow> Returned (False, Some BM_BT_ERROR_CONNECTION_INVALID)
                | Some s_bt \<Rightarrow>
                    (case bm_setting_bluetooth_get_bdaddr s_bt of
                       None \<Rightarrow> Returned (False, Some BM_BT_ERROR_CONNECTION_INVALID)
                     | Some arr \<Rightarrow>
                         if length arr \<noteq> 6 then Returned (False, Some BM_BT_ERROR_CONNECTION_INVALID)
                         else (case get_connection_bt_type c of
                            Returned bt_type' \<Rightarrow>
                              if bt_type' AND bd_caps d = 0 then Returned (False, Some BM_BT_ERROR_CONNECTION_INCOMPATIBLE)
                              else (case bd_addr d of
                                 None \<Rightarrow> Null_Dereferenced
                               | Some addr \<Rightarrow> Returned (addr = join_with '':'' (map hex_byte arr), None))
                          | Assertion_Violated \<Rightarrow> Assertion_Violated
                          | Null_Dereferenced \<Rightarrow> Null_Dereferenced)))))"

text \<open>The interface asks the method of the object's class, if the class has one.\<close>

definition bm_device_interface_check_connection_compatible ::
    "('d \<Rightarrow> connection \<Rightarrow> (bool \<times> 'e option) checked) option \<Rightarrow> 'd \<Rightarrow> connection \<Rightarrow> (bool \<times> 'e option) checked" where
  "bm_device_interface_check_connection_compatible m d c =
     (case m of Some f \<Rightarrow> f d c | None \<Rightarrow> Returned (True, None))"

text \<open>Neither \<^verbatim>\<open>bm_device_bt_class_init\<close> nor the interface of the base class installs the method.\<close>

definition bt_check_method :: "(bt_device \<Rightarrow> connection \<Rightarrow> (bool \<times> bt_error option) checked) option" where
  "bt_check_method = None"

section \<open>What the choices amount to\<close>

text \<open>The connection is a bluetooth connection that asks for a service the device has.\<close>

definition bluetooth_service :: "u32 \<Rightarrow> connection \<Rightarrow> bool" where
  "bluetooth_service capabilities c \<longleftrightarrow>
     (\<exists>p b. connection_setting c = Some p \<and> bluetooth_setting c = Some b \<and> con_type p = Some ''bluetooth'' \<and>
        (bt_type b = Some ''dun'' \<and> capabilities AND BM_BT_CAPABILITY_DUN \<noteq> 0 \<or>
         bt_type b = Some ''panu'' \<and> capabilities AND BM_BT_CAPABILITY_NAP \<noteq> 0))"

definition automatic_for :: "u32 \<Rightarrow> connection \<Rightarrow> bool" where
  "automatic_for capabilities c \<longleftrightarrow>
     (\<exists>p. connection_setting c = Some p \<and> con_autoconnect p) \<and> bluetooth_service capabilities c"

definition has_address :: "connection \<Rightarrow> bool" where
  "has_address c \<longleftrightarrow> (\<exists>b arr. bluetooth_setting c = Some b \<and> bt_bdaddr b = Some arr \<and> length arr = 6)"

lemma bluetooth_match_iff:
  "bluetooth_match a caps c \<longleftrightarrow>
     bluetooth_service caps c \<and> (\<exists>b. bluetooth_setting c = Some b \<and> bdaddr_matches_connection b a)"
  by (auto simp: bluetooth_match_def bluetooth_service_def connection_setting_def bluetooth_setting_def
      split: option.splits setting_priv.splits)

lemma verified_type:
  assumes "connection_wf c" "bm_connection_verify c = Inr ()"
  obtains p t where "connection_setting c = Some p" "con_type p = Some t"
proof -
  obtain p t where "map_option set_priv (bm_connection_get_setting c BM_TYPE_SETTING_CONNECTION) = Some (Connection_Priv p)"
    "con_type p = Some t"
    using verified_connection_setting [OF assms] by blast
  moreover from this(1) have "connection_setting c = Some p"
    by (auto simp: connection_setting_def)
  ultimately show ?thesis
    using that by blast
qed

lemma bt_type_verified:
  assumes "connection_wf c" "bm_connection_verify c = Inr ()"
  shows "\<exists>n. get_connection_bt_type c = Returned n \<and>
    (\<forall>p. connection_setting c = Some p \<longrightarrow> con_type p = Some ''bluetooth'' \<longrightarrow> (n AND caps \<noteq> 0 \<longleftrightarrow> bluetooth_service caps c))"
proof (cases "bm_connection_get_setting c BM_TYPE_SETTING_BLUETOOTH")
  case None
  then show ?thesis
    by (simp add: get_connection_bt_type_def bluetooth_setting_def bluetooth_service_def BM_BT_CAPABILITY_NONE_def)
next
  case (Some s)
  obtain b where b: "set_priv s = Bluetooth_Priv b" "bt_type b = Some ''dun'' \<or> bt_type b = Some ''panu''"
    using verified_bluetooth_setting [OF assms Some] by blast
  then have "bluetooth_setting c = Some b"
    by (simp add: bluetooth_setting_def Some)
  then show ?thesis
    using b(2)
    by (auto simp: get_connection_bt_type_def bm_setting_bluetooth_get_connection_type_def bluetooth_service_def and.commute)
qed

text \<open>For a verified connection and a device with an address, the device's own check never aborts and says
  yes exactly when the manager's search would match the connection to the device's address and
  capabilities.  A refusal sets an error, except when only the address differs.\<close>

theorem device_check_agrees_with_search:
  assumes "connection_wf c" "bm_connection_verify c = Inr ()" "bd_addr d = Some a"
  shows "\<exists>e. real_check_connection_compatible d c = Returned (bluetooth_match a (bd_caps d) c, e) \<and>
    (e = None \<longleftrightarrow> bluetooth_service (bd_caps d) c \<and> has_address c)"
proof -
  obtain p t where p: "connection_setting c = Some p" "con_type p = Some t"
    using verified_type [OF assms(1,2)] by blast
  obtain n where n: "get_connection_bt_type c = Returned n"
      "t = ''bluetooth'' \<Longrightarrow> n AND bd_caps d \<noteq> 0 \<longleftrightarrow> bluetooth_service (bd_caps d) c"
    using bt_type_verified [OF assms(1,2), of "bd_caps d"] p by auto
  have no_match: "\<not> bluetooth_match a (bd_caps d) c" if "\<not> bluetooth_service (bd_caps d) c"
    using that by (simp add: bluetooth_match_iff)
  show ?thesis
  proof (cases "t = ''bluetooth''")
    case False
    then have "\<not> bluetooth_service (bd_caps d) c"
      using p by (simp add: bluetooth_service_def)
    then show ?thesis
      using False p no_match by (simp add: real_check_connection_compatible_def)
  next
    case True
    note compat = real_check_connection_compatible_def p n(1) bm_setting_bluetooth_get_bdaddr_def assms(3)
    show ?thesis
    proof (cases "has_address c")
      case False
      then have "\<not> bluetooth_match a (bd_caps d) c"
        by (auto simp: bluetooth_match_iff has_address_def bdaddr_matches_connection_def
            bm_setting_bluetooth_get_bdaddr_def split: option.splits if_splits)
      moreover have "real_check_connection_compatible d c = Returned (False, Some BM_BT_ERROR_CONNECTION_INVALID)"
        using False by (auto simp: compat True has_address_def split: option.splits)
      ultimately show ?thesis
        using False by simp
    next
      case addr: True
      then obtain b arr where b: "bluetooth_setting c = Some b" "bt_bdaddr b = Some arr" "length arr = 6"
        by (auto simp: has_address_def)
      show ?thesis
      proof (cases "bluetooth_service (bd_caps d) c")
        case False
        then show ?thesis
          using n(2) [OF True] no_match by (simp add: compat True b)
      next
        case service: True
        then have "n AND bd_caps d \<noteq> 0"
          using n(2) [OF True] by simp
        then show ?thesis
          using service addr by (auto simp: compat True b bluetooth_match_iff bdaddr_matches_connection_def)
      qed
    qed
  qed
qed

definition sample_bt_device :: bt_device where
  "sample_bt_device = foldl bt_set_property bt_device_init
     [(''hw-address'', GString (Some ''00:11:22:ab:cd:ff'')), (''bt-capabilities'', GUInt BM_BT_CAPABILITY_NAP)]"

lemma sample_bt_device_fields:
  "bd_addr sample_bt_device = Some ''00:11:22:AB:CD:FF''" "bd_caps sample_bt_device = BM_BT_CAPABILITY_NAP"
  by (simp_all add: sample_bt_device_def bt_set_property_def Let_def value_string.simps value_uint.simps
      ascii_toupper_def char_code_def)

theorem device_check_agrees_with_search_witness:
  "\<exists>e. real_check_connection_compatible sample_bt_device bluetooth_connection = Returned (True, e)"
  using device_check_agrees_with_search [OF bluetooth_connection_ok sample_bt_device_fields(1)] bluetooth_matches(2)
  by (auto simp: sample_bt_device_fields)

text \<open>Among verified connections the automatic choice is the first one that may be activated automatically
  and asks for a service of the device, whatever device its address names; the check the interface
  offers accepts every connection, because no class installs one.\<close>

theorem auto_connection_ignores_address:
  assumes "\<forall>c \<in> set l. connection_wf c \<and> bm_connection_verify c = Inr ()"
  shows "real_get_best_auto_connection d l =
      Returned (find (automatic_for (bd_caps d)) l) \<and>
    real_get_best_auto_connection (d\<lparr>bd_addr := a\<rparr>) l = real_get_best_auto_connection d l \<and>
    bm_device_interface_check_connection_compatible bt_check_method d c = Returned (True, None)"
proof -
  have step: "real_get_best_auto_connection d (c # l) =
      (if automatic_for (bd_caps d) c then Returned (Some c)
       else real_get_best_auto_connection d l)"
    if v: "connection_wf c" "bm_connection_verify c = Inr ()" for d c l
  proof -
    obtain p t where p: "connection_setting c = Some p" "con_type p = Some t"
      using verified_type [OF v] by blast
    obtain n where "get_connection_bt_type c = Returned n"
        "t = ''bluetooth'' \<Longrightarrow> n AND bd_caps d \<noteq> 0 \<longleftrightarrow> bluetooth_service (bd_caps d) c"
      using bt_type_verified [OF v, of "bd_caps d"] p by auto
    then show ?thesis
      using p by (auto simp: bm_setting_connection_get_autoconnect_def automatic_for_def bluetooth_service_def)
  qed
  have "real_get_best_auto_connection d l =
      Returned (find (automatic_for (bd_caps d)) l)" for d
    using assms by (induction l) (simp_all add: step del: real_get_best_auto_connection.simps(2))
  then show ?thesis
    by (simp add: bm_device_interface_check_connection_compatible_def bt_check_method_def)
qed

theorem auto_connection_ignores_address_witness:
  "real_get_best_auto_connection (sample_bt_device\<lparr>bd_addr := Some ''FF:FF:FF:FF:FF:FF''\<rparr>) [sample_connection, bluetooth_connection] =
     Returned (Some sample_connection) \<and> \<not> has_address sample_connection"
proof -
  have ok: "\<forall>c \<in> set [sample_connection, bluetooth_connection]. connection_wf c \<and> bm_connection_verify c = Inr ()"
    using sample_connection_ok(2) sample_connection_verify bluetooth_connection_ok by simp
  have "automatic_for BM_BT_CAPABILITY_NAP sample_connection" "\<not> has_address sample_connection"
    by (simp_all add: automatic_for_def has_address_def bluetooth_service_def connection_setting_def bluetooth_setting_def
        bm_connection_get_setting_def sample_connection_def BM_BT_CAPABILITY_NAP_def)
  then show ?thesis
    using auto_connection_ignores_address [OF ok, of sample_bt_device] by (simp add: sample_bt_device_fields)
qed

end
