(* ===== verification/Udev_Manager.thy ===== *)
theory Udev_Manager
  imports Manager_Events
begin

text \<open>
  The discovery of devices, \<^verbatim>\<open>src/barcode-manager/src/bm-udev-manager.c\<close>, with the construction of HID raw
  devices, \<^verbatim>\<open>bm-device-hidraw.c\<close>: the events of udev are filtered and handed to the manager, together with
  the function that creates the device.  A udev device is what udev tells about it, its parent
  included; an absent \<^verbatim>\<open>type\<close> attribute reads as 0.  What the manager expects of a source of devices is the interface
  \<open>device_source\<close>.
\<close>

section \<open>Devices of udev\<close>

datatype udev_device =
  Udev_Device (ud_name: cstr) (ud_path: cstr) (ud_driver: cstr) (ud_subsystem: cstr) (ud_type: int)
    (ud_devtype: cstr) (ud_parent: "udev_device option")

definition bm_device_hidraw_new :: "cstr \<Rightarrow> cstr \<Rightarrow> cstr \<Rightarrow> device option" where
  "bm_device_hidraw_new udi bdaddr nm =
     (if udi = None \<or> bdaddr = None \<or> nm = None then None
      else device_new [(''udi'', GString udi), (''interface'', GString bdaddr), (''driver'', GString (Some ''hidraw'')),
        (''type-desc'', GString (Some ''Hidraw'')), (''device-type'', GUInt BM_DEVICE_TYPE_HIDRAW)])"

text \<open>The driver, or that of the parent, or that of the grandparent on one bus.\<close>

definition find_driver :: "udev_device \<Rightarrow> cstr" where
  "find_driver dev =
     (case ud_driver dev of
        Some driver \<Rightarrow> Some driver
      | None \<Rightarrow>
          (case ud_parent dev of
             None \<Rightarrow> None
           | Some parent \<Rightarrow>
               (case ud_driver parent of
                  Some driver \<Rightarrow> Some driver
                | None \<Rightarrow>
                    if ud_subsystem parent = Some ''ibmebus''
                    then (case ud_parent parent of Some grandparent \<Rightarrow> ud_driver grandparent | None \<Rightarrow> None)
                    else None)))"

definition device_creator :: "udev_device \<Rightarrow> bool \<Rightarrow> device option checked" where
  "device_creator dev sleeping =
     (case ud_name dev of
        None \<Rightarrow> Assertion_Violated
      | Some ifname \<Rightarrow>
          if ud_path dev = None then Returned None
          else (case find_driver dev of
                  None \<Rightarrow> Returned None
                | Some driver \<Rightarrow> Returned (bm_device_hidraw_new (ud_path dev) (Some ifname) (Some driver))))"

section \<open>Events\<close>

text \<open>The emission of \<^verbatim>\<open>device-added\<close> runs the manager's handler, which calls the creator.\<close>

definition emit_device_added :: "(bool \<Rightarrow> device option checked) \<Rightarrow> manager \<Rightarrow> manager checked" where
  "emit_device_added creator m =
     (case creator (manager_sleeping m) of
        Returned d \<Rightarrow> Returned (udev_device_added_cb (\<lambda>sleeping. d) m)
      | Assertion_Violated \<Rightarrow> Assertion_Violated
      | Null_Dereferenced \<Rightarrow> Null_Dereferenced)"

definition udev_add :: "udev_device \<Rightarrow> manager \<Rightarrow> manager checked" where
  "udev_add dev m =
     (if ud_type dev \<noteq> 0 then Returned m
      else if ud_devtype dev = Some ''wwan'' then Returned m
      else if ud_name dev = None then Returned m
      else emit_device_added (device_creator dev) m)"

text \<open>The manager compares the name with those of its devices, also when there is none.\<close>

definition udev_remove :: "udev_device \<Rightarrow> manager \<Rightarrow> manager checked" where
  "udev_remove dev m =
     (case ud_name dev of
        Some name \<Rightarrow> Returned (udev_device_removed_cb name m)
      | None \<Rightarrow> if mg_devices m = [] then Returned m else Null_Dereferenced)"

definition handle_uevent :: "cstr \<Rightarrow> udev_device \<Rightarrow> manager \<Rightarrow> manager checked" where
  "handle_uevent action dev m =
     (if action = None then Returned m
      else if ud_subsystem dev = None then Returned m
      else if action = Some ''add'' then udev_add dev m
      else if action = Some ''remove'' then udev_remove dev m
      else Returned m)"

text \<open>\<open>devices\<close> is what udev knows of the subsystem when it is asked.\<close>

fun bm_udev_manager_query_devices :: "udev_device list \<Rightarrow> manager \<Rightarrow> manager checked" where
  "bm_udev_manager_query_devices [] m = Returned m"
| "bm_udev_manager_query_devices (dev # devices) m =
     (case udev_add dev m of
        Returned m1 \<Rightarrow> bm_udev_manager_query_devices devices m1
      | Assertion_Violated \<Rightarrow> Assertion_Violated
      | Null_Dereferenced \<Rightarrow> Null_Dereferenced)"

fun handle_uevents :: "(cstr \<times> udev_device) list \<Rightarrow> manager \<Rightarrow> manager checked" where
  "handle_uevents [] m = Returned m"
| "handle_uevents ((action, dev) # es) m =
     (case handle_uevent action dev m of
        Returned m1 \<Rightarrow> handle_uevents es m1
      | Assertion_Violated \<Rightarrow> Assertion_Violated
      | Null_Dereferenced \<Rightarrow> Null_Dereferenced)"

section \<open>Sources of devices\<close>

text \<open>What the manager relies on: a new device has no path yet, and can be described.\<close>

locale device_source =
  fixes create :: "bool \<Rightarrow> device option"
  assumes fresh: "create sleeping = Some d \<Longrightarrow> dev_path d = None"
    and described: "create sleeping = Some d \<Longrightarrow> dev_type_desc d \<noteq> None"
begin

lemma added_enabled: "enabled (Ev_Udev_Added create) w"
  using fresh described by (auto split: option.split)

lemma added_devices:
  "mg_devices (udev_device_added_cb create m) = mg_devices m @
     (case create (manager_sleeping m) of Some d \<Rightarrow> [bm_device_set_path (device_object_path (mg_devcount m)) d] | None \<Rightarrow> [])"
  using described [of "manager_sleeping m"]
  by (auto simp: udev_device_added_cb_def add_device_def bm_device_get_type_desc_def Let_def split: option.split)

lemma added_ifaces:
  "map dev_iface (mg_devices (udev_device_added_cb create m)) = map dev_iface (mg_devices m) @
     (case create (manager_sleeping m) of Some d \<Rightarrow> [dev_iface d] | None \<Rightarrow> [])"
  by (simp add: added_devices split: option.split)

end

definition hidraw_device :: "string \<Rightarrow> string \<Rightarrow> device" where
  "hidraw_device path name = bm_device_init\<lparr>dev_initialized := True, dev_udi := Some path, dev_iface := Some name,
     dev_driver := Some ''hidraw'', dev_type_desc := Some ''Hidraw'', dev_type := BM_DEVICE_TYPE_HIDRAW\<rparr>"

lemma hidraw_new: "bm_device_hidraw_new (Some path) (Some name) (Some driver) = Some (hidraw_device path name)"
  by (simp add: bm_device_hidraw_new_def device_new_def device_constructor_def device_set_property_def bm_device_init_def
      hidraw_device_def Let_def)

text \<open>The device that a udev device becomes, if the filters let it through.\<close>

definition udev_created :: "udev_device \<Rightarrow> device option" where
  "udev_created dev =
     (if ud_type dev = 0 \<and> ud_devtype dev \<noteq> Some ''wwan'' \<and> find_driver dev \<noteq> None
      then (case (ud_path dev, ud_name dev) of (Some path, Some name) \<Rightarrow> Some (hidraw_device path name) | _ \<Rightarrow> None)
      else None)"

interpretation udev: device_source "\<lambda>sleeping. udev_created dev" for dev
  by unfold_locales (auto simp: udev_created_def hidraw_device_def bm_device_init_def split: if_splits option.splits)

lemma udev_add_event: "udev_add dev m = Returned (udev_device_added_cb (\<lambda>sleeping. udev_created dev) m)"
  by (auto simp: udev_add_def emit_device_added_def device_creator_def udev_created_def udev_device_added_cb_def
      hidraw_new split: option.splits)

lemma query_step:
  "bm_udev_manager_query_devices (dev # devices) m =
   bm_udev_manager_query_devices devices (udev_device_added_cb (\<lambda>sleeping. udev_created dev) m)"
  by (simp add: udev_add_event)


lemma uevents_append:
  "handle_uevents es m = Returned m1 \<Longrightarrow> handle_uevents (es @ es') m = handle_uevents es' m1"
  by (induction es m rule: handle_uevents.induct) (auto split: checked.splits)

lemma plugged:
  assumes "udev_created dev = Some d" "ud_name dev = Some name" "ud_subsystem dev = Some subsys"
  shows "\<exists>m1 ds. handle_uevents (replicate k (Some ''add'', dev)) m = Returned m1 \<and> mg_devices m1 = mg_devices m @ ds \<and>
    map dev_iface ds = replicate k (Some name)"
proof (induction k arbitrary: m)
  case (Suc k)
  let ?m = "udev_device_added_cb (\<lambda>sleeping. udev_created dev) m"
  have "dev_iface d = Some name"
    using assms(1,2) by (auto simp: udev_created_def hidraw_device_def split: if_splits option.splits)
  moreover have "handle_uevents (replicate (Suc k) (Some ''add'', dev)) m = handle_uevents (replicate k (Some ''add'', dev)) ?m"
    using assms(3) by (simp add: handle_uevent_def udev_add_event)
  ultimately show ?case
    using Suc.IH [of ?m] udev.added_devices [of dev m] assms(1) by auto
qed simp

lemma remove_first:
  assumes "Some name \<notin> dev_iface ` set ds" "dev_iface d = Some name" "mg_devices m = ds @ d # ds'"
  shows "mg_devices (udev_device_removed_cb name m) = ds @ ds'"
proof -
  have "find (\<lambda>d. dev_iface d = Some name) (ds @ d # ds') = Some d"
    using assms(1,2) by (induction ds) auto
  moreover have "d \<notin> set ds"
    using assms(1,2) by force
  ultimately show ?thesis
    using assms(3)
    by (simp add: udev_device_removed_cb_def find_device_by_iface_def bm_device_get_iface_def remove_one_device_def Let_def
        remove1_append)
qed

text \<open>Plugging in a new device once and pulling it out restores the manager's list of devices.  But each
  event for the device adds it again, while its removal takes away one entry only: after one event too many
  the manager keeps a device that is gone.\<close>

theorem plug_and_unplug:
  assumes "udev_created dev = Some d" "ud_name dev = Some name" "ud_subsystem dev = Some subsys"
    and "Some name \<notin> dev_iface ` set (mg_devices m)"
  shows "\<exists>m1 ds. handle_uevents (replicate (Suc k) (Some ''add'', dev) @ [(Some ''remove'', dev)]) m = Returned m1 \<and>
    mg_devices m1 = mg_devices m @ ds \<and> map dev_iface ds = replicate k (Some name)"
proof -
  obtain m1 ds where m1: "handle_uevents (replicate (Suc k) (Some ''add'', dev)) m = Returned m1"
      "mg_devices m1 = mg_devices m @ ds" "map dev_iface ds = Some name # replicate k (Some name)"
    using plugged [OF assms(1-3), of "Suc k" m] by auto
  then obtain e es where ds: "ds = e # es" "dev_iface e = Some name" "map dev_iface es = replicate k (Some name)"
    by auto
  have "handle_uevents (replicate (Suc k) (Some ''add'', dev) @ [(Some ''remove'', dev)]) m = Returned (udev_device_removed_cb name m1)"
    unfolding uevents_append [OF m1(1)] using assms(2,3) by (simp add: handle_uevent_def udev_remove_def)
  moreover have "mg_devices (udev_device_removed_cb name m1) = mg_devices m @ es"
    using remove_first [OF assms(4) ds(2)] m1(2) ds(1) by simp
  ultimately show ?thesis
    using ds(3) by blast
qed

definition sample_udev_device :: udev_device where
  "sample_udev_device = Udev_Device (Some ''hidraw0'') (Some ''/sys/hidraw0'') None (Some ''hidraw'') 0 None
     (Some (Udev_Device (Some ''usb'') None (Some ''usbhid'') None 0 None None))"

theorem plug_and_unplug_witness:
  "\<exists>m1 d. handle_uevents [(Some ''add'', sample_udev_device), (Some ''add'', sample_udev_device), (Some ''remove'', sample_udev_device)]
     bm_manager_init = Returned m1 \<and> mg_devices m1 = [d] \<and> dev_iface d = Some ''hidraw0''"
proof -
  have "udev_created sample_udev_device = Some (hidraw_device ''/sys/hidraw0'' ''hidraw0'')"
    by (simp add: udev_created_def find_driver_def sample_udev_device_def)
  moreover have "ud_name sample_udev_device = Some ''hidraw0''" "ud_subsystem sample_udev_device = Some ''hidraw''"
    by (simp_all add: sample_udev_device_def)
  moreover have "Some ''hidraw0'' \<notin> dev_iface ` set (mg_devices bm_manager_init)"
    by (simp add: bm_manager_init_def)
  ultimately show ?thesis
    using plug_and_unplug [of sample_udev_device "hidraw_device ''/sys/hidraw0'' ''hidraw0''" "''hidraw0''" "''hidraw''" bm_manager_init 1]
    by (auto simp: numeral_2_eq_2 bm_manager_init_def length_Suc_conv)
qed

end
