(* ===== verification/Activation.thy ===== *)
theory Activation
  imports Manager
begin

text \<open>
  Activation requests, \<^verbatim>\<open>src/barcode-manager/src/bm-activation-request.c\<close>, with the helpers of
  \<^verbatim>\<open>bm-active-connection.c\<close>, and the interface of secrets providers that they implement,
  \<^verbatim>\<open>bm-secrets-provider-interface.c\<close>: a request follows the state of its device and puts the
  secrets it is given into its connection.  What the interface expects of a provider is \<open>secrets_provider\<close>.
\<close>

section \<open>Secrets providers\<close>

datatype secrets_caller =
    SECRETS_CALLER_NONE | SECRETS_CALLER_ETHERNET | SECRETS_CALLER_WIFI
  | SECRETS_CALLER_MOBILE_BROADBAND | SECRETS_CALLER_PPP | SECRETS_CALLER_VPN

datatype secrets_error = Provider_Error string | No_Secrets_Received | No_Valid_Settings

type_synonym secrets_table = "(string, (string, gvalue) ghash option) ghash"

definition add_one_key_to_list :: "string \<Rightarrow> (string, gvalue) ghash option \<Rightarrow> string list \<Rightarrow> string list" where
  "add_one_key_to_list key data l = l @ [key]"

text \<open>\<open>upd\<close> is the method \<^verbatim>\<open>update_setting\<close>.  The list collects the name that was asked for, once for each setting
  that was updated.\<close>

definition update_one ::
    "(string \<Rightarrow> (string, gvalue) ghash \<Rightarrow> 's \<Rightarrow> bool \<times> 's) \<Rightarrow> string \<Rightarrow> secrets_table \<Rightarrow>
     string list \<times> 's \<Rightarrow> string \<Rightarrow> string list \<times> 's" where
  "update_one upd setting_name settings us name =
     (case gh_lookup settings name of
        Some (Some hash) \<Rightarrow>
          (case upd name hash (snd us) of
             (ok, s) \<Rightarrow> (if ok then fst us @ [setting_name] else fst us, s))
      | _ \<Rightarrow> us)"

text \<open>\<open>res\<close> is the method \<^verbatim>\<open>result\<close>, with the updated names and the error.\<close>

definition bm_secrets_provider_interface_get_secrets_result ::
    "(string \<Rightarrow> (string, gvalue) ghash \<Rightarrow> 's \<Rightarrow> bool \<times> 's) \<Rightarrow>
     (string \<Rightarrow> secrets_caller \<Rightarrow> string list \<Rightarrow> secrets_error option \<Rightarrow> 's \<Rightarrow> 's) \<Rightarrow>
     string \<Rightarrow> secrets_caller \<Rightarrow> secrets_table \<Rightarrow> string option \<Rightarrow> 's \<Rightarrow> 's" where
  "bm_secrets_provider_interface_get_secrets_result upd res setting_name caller settings error s =
     (case error of
        Some e \<Rightarrow> res setting_name caller [] (Some (Provider_Error e)) s
      | None \<Rightarrow>
          if gh_size settings = 0 then res setting_name caller [] (Some No_Secrets_Received) s
          else (case foldl (update_one upd setting_name settings) ([], s) (gh_foreach add_one_key_to_list settings []) of
                  (updated, s1) \<Rightarrow>
                    if length updated \<noteq> 0 then res setting_name caller updated None s1
                    else res setting_name caller [] (Some No_Valid_Settings) s1))"

section \<open>Active connections\<close>

definition BM_DBUS_PATH :: string where
  "BM_DBUS_PATH = ''/org/freedesktop/BarcodeManager''"

text \<open>The counter is a static variable.\<close>

definition bm_active_connection_get_next_object_path :: "u32 \<Rightarrow> string \<times> u32" where
  "bm_active_connection_get_next_object_path counter =
     (BM_DBUS_PATH @ ''/ActiveConnection/'' @ print_int (sint counter), counter + 1)"

text \<open>An unknown scope leaves the value as it is.\<close>

definition bm_active_connection_scope_to_value :: "connection option \<Rightarrow> cstr \<Rightarrow> cstr" where
  "bm_active_connection_scope_to_value c val =
     (case c of
        None \<Rightarrow> Some ''''
      | Some c' \<Rightarrow>
          if bm_connection_get_scope c' = BM_CONNECTION_SCOPE_SYSTEM
          then Some ''org.freedesktop.BarcodeManagerSystemSettings''
          else if bm_connection_get_scope c' = BM_CONNECTION_SCOPE_USER
          then Some BM_DBUS_SERVICE_USER_SETTINGS
          else val)"

section \<open>Activation requests\<close>

datatype active_state =
    BM_ACTIVE_CONNECTION_STATE_UNKNOWN
  | BM_ACTIVE_CONNECTION_STATE_ACTIVATING
  | BM_ACTIVE_CONNECTION_STATE_ACTIVATED

fun active_state_num :: "active_state \<Rightarrow> u32" where
  "active_state_num BM_ACTIVE_CONNECTION_STATE_UNKNOWN = 0"
| "active_state_num BM_ACTIVE_CONNECTION_STATE_ACTIVATING = 1"
| "active_state_num BM_ACTIVE_CONNECTION_STATE_ACTIVATED = 2"

datatype act_output =
    AR_NOTIFY string
  | CONNECTION_SECRETS_FAILED string secrets_caller
  | CONNECTION_SECRETS_UPDATED "string list" secrets_caller
  | AR_REGISTERED cstr

text \<open>The device is another object; the request reads its path only.\<close>

record act_request =
  ar_disposed :: bool
  ar_connection :: connection
  ar_specific_object :: cstr
  ar_device_path :: cstr
  ar_user_requested :: bool
  ar_state :: active_state
  ar_default :: bool
  ar_default6 :: bool
  ar_ac_path :: cstr
  ar_assumed :: bool
  ar_connected :: bool
  ar_out :: "act_output list"

definition ar_emit :: "act_output \<Rightarrow> act_request \<Rightarrow> act_request" where
  "ar_emit x r = r\<lparr>ar_out := ar_out r @ [x]\<rparr>"

text \<open>The path of the request is never set, so it is exported under \<^verbatim>\<open>NULL\<close>.\<close>

definition bm_act_request_new :: "connection \<Rightarrow> cstr \<Rightarrow> bool \<Rightarrow> bool \<Rightarrow> cstr \<Rightarrow> act_request" where
  "bm_act_request_new c specific_object user_requested assumed device_path =
     \<lparr>ar_disposed = False, ar_connection = c, ar_specific_object = specific_object, ar_device_path = device_path,
      ar_user_requested = user_requested, ar_state = BM_ACTIVE_CONNECTION_STATE_UNKNOWN, ar_default = False,
      ar_default6 = False, ar_ac_path = None, ar_assumed = assumed, ar_connected = True, ar_out = [AR_REGISTERED None]\<rparr>"

definition act_request_dispose :: "act_request \<Rightarrow> act_request" where
  "act_request_dispose r = (if ar_disposed r then r else r\<lparr>ar_disposed := True, ar_connected := False\<rparr>)"

definition new_active_state :: "device_state \<Rightarrow> active_state" where
  "new_active_state new_state =
     (if new_state = BM_DEVICE_STATE_PREPARE \<or> new_state = BM_DEVICE_STATE_CONFIG \<or>
         new_state = BM_DEVICE_STATE_NEED_AUTH \<or> new_state = BM_DEVICE_STATE_IP_CONFIG
      then BM_ACTIVE_CONNECTION_STATE_ACTIVATING
      else if new_state = BM_DEVICE_STATE_ACTIVATED then BM_ACTIVE_CONNECTION_STATE_ACTIVATED
      else BM_ACTIVE_CONNECTION_STATE_UNKNOWN)"

definition device_state_changed :: "device_state \<Rightarrow> act_request \<Rightarrow> act_request" where
  "device_state_changed new_state r =
     (let new_ac_state = new_active_state new_state;
          new_default = (if new_state = BM_DEVICE_STATE_ACTIVATED then ar_default r else False);
          new_default6 = (if new_state = BM_DEVICE_STATE_ACTIVATED then ar_default6 r else False);
          r1 = (if new_ac_state \<noteq> ar_state r then ar_emit (AR_NOTIFY ''state'') (r\<lparr>ar_state := new_ac_state\<rparr>) else r);
          r2 = (if new_default \<noteq> ar_default r1 then ar_emit (AR_NOTIFY ''default'') (r1\<lparr>ar_default := new_default\<rparr>) else r1)
      in if new_default6 \<noteq> ar_default6 r2
         then ar_emit (AR_NOTIFY ''default6'') (r2\<lparr>ar_default6 := new_default6\<rparr>) else r2)"

definition bm_act_request_set_default :: "bool \<Rightarrow> act_request \<Rightarrow> act_request" where
  "bm_act_request_set_default is_default r =
     (if ar_default r = is_default then r else ar_emit (AR_NOTIFY ''default'') (r\<lparr>ar_default := is_default\<rparr>))"

definition bm_act_request_set_default6 :: "bool \<Rightarrow> act_request \<Rightarrow> act_request" where
  "bm_act_request_set_default6 is_default6 r =
     (if ar_default6 r = is_default6 then r else ar_emit (AR_NOTIFY ''default6'') (r\<lparr>ar_default6 := is_default6\<rparr>))"

definition bm_act_request_set_specific_object :: "string \<Rightarrow> act_request \<Rightarrow> act_request" where
  "bm_act_request_set_specific_object specific_object r = r\<lparr>ar_specific_object := Some specific_object\<rparr>"

datatype act_value = Act_Path cstr | Act_Paths "cstr list" | Act_UInt u32 | Act_Boolean bool

definition act_request_get_property :: "act_request \<Rightarrow> string \<Rightarrow> act_value option" where
  "act_request_get_property r n =
     (if n = ''connection'' then Some (Act_Path (bm_connection_get_path (ar_connection r)))
      else if n = ''specific-object''
      then Some (Act_Path (case ar_specific_object r of Some s \<Rightarrow> Some s | None \<Rightarrow> Some ''/''))
      else if n = ''devices'' then Some (Act_Paths [ar_device_path r])
      else if n = ''state'' then Some (Act_UInt (active_state_num (ar_state r)))
      else if n = ''default'' then Some (Act_Boolean (ar_default r))
      else if n = ''default6'' then Some (Act_Boolean (ar_default6 r))
      else if n = ''vpn'' then Some (Act_Boolean False)
      else None)"

definition secrets_update_setting ::
    "transform \<Rightarrow> string \<Rightarrow> (string, gvalue) ghash \<Rightarrow> act_request \<Rightarrow> bool \<times> act_request" where
  "secrets_update_setting tr setting_name new r =
     (case bm_connection_lookup_setting_type setting_name of
        None \<Rightarrow> (False, r)
      | Some cls \<Rightarrow>
          (True,
           (case bm_setting_new_from_hash tr cls new of
              Some s \<Rightarrow> r\<lparr>ar_connection := bm_connection_add_setting s (ar_connection r)\<rparr>
            | None \<Rightarrow> r\<lparr>ar_connection := fst (bm_connection_update_secrets tr setting_name new (ar_connection r))\<rparr>)))"

definition secrets_result ::
    "string \<Rightarrow> secrets_caller \<Rightarrow> string list \<Rightarrow> secrets_error option \<Rightarrow> act_request \<Rightarrow> act_request" where
  "secrets_result setting_name caller updated error r =
     ar_emit (if error \<noteq> None then CONNECTION_SECRETS_FAILED setting_name caller
              else CONNECTION_SECRETS_UPDATED updated caller) r"

section \<open>The contract of a provider\<close>

lemma keys_collected [simp]: "gh_foreach add_one_key_to_list settings l = l @ gh_keys settings"
  by (induction settings arbitrary: l) (auto simp: add_one_key_to_list_def)

text \<open>\<open>msgs\<close> are the results a provider has announced: an update announces nothing, a result announces
  itself.  \<open>known\<close> are the settings an update accepts.\<close>

locale secrets_provider =
  fixes upd :: "string \<Rightarrow> (string, gvalue) ghash \<Rightarrow> 's \<Rightarrow> bool \<times> 's"
    and res :: "string \<Rightarrow> secrets_caller \<Rightarrow> string list \<Rightarrow> secrets_error option \<Rightarrow> 's \<Rightarrow> 's"
    and msgs :: "'s \<Rightarrow> 'm list"
    and msg :: "string \<Rightarrow> secrets_caller \<Rightarrow> string list \<Rightarrow> secrets_error option \<Rightarrow> 'm"
    and known :: "string \<Rightarrow> bool"
  assumes update_known: "fst (upd name hash s) \<longleftrightarrow> known name"
    and update_silent: "msgs (snd (upd name hash s)) = msgs s"
    and result_msg: "msgs (res setting_name caller updated error s) = msgs s @ [msg setting_name caller updated error]"
begin

abbreviation names_known :: "secrets_table \<Rightarrow> string list \<Rightarrow> string list" where
  "names_known settings names \<equiv> filter (\<lambda>n. known n \<and> (\<exists>h. gh_lookup settings n = Some (Some h))) names"

lemma update_step:
  "update_one upd setting_name settings (l, s) name =
     (if \<exists>h. gh_lookup settings name = Some (Some h)
      then (if known name then l @ [setting_name] else l, snd (upd name (the (the (gh_lookup settings name))) s)) else (l, s))"
  using update_known by (auto simp: update_one_def split_beta split: option.split)

lemma updates:
  "\<exists>s'. foldl (update_one upd setting_name settings) (l, s) names =
     (l @ map (\<lambda>n. setting_name) (names_known settings names), s') \<and> msgs s' = msgs s"
proof (induction names arbitrary: l s)
  case (Cons name names)
  show ?case
  proof (cases "\<exists>h. gh_lookup settings name = Some (Some h)")
    case True
    then obtain h where "gh_lookup settings name = Some (Some h)"
      by blast
    then show ?thesis
      using Cons.IH [of "if known name then l @ [setting_name] else l" "snd (upd name h s)"] update_silent
      by (cases "known name") (simp_all add: update_step)
  qed (use Cons.IH [of l s] in \<open>auto simp: update_step\<close>)
qed simp

lemma one_result:
  "msgs (bm_secrets_provider_interface_get_secrets_result upd res setting_name caller settings error s) =
     msgs s @ [case error of
         Some e \<Rightarrow> msg setting_name caller [] (Some (Provider_Error e))
       | None \<Rightarrow>
           if settings = [] then msg setting_name caller [] (Some No_Secrets_Received)
           else if names_known settings (gh_keys settings) = [] then msg setting_name caller [] (Some No_Valid_Settings)
           else msg setting_name caller (map (\<lambda>n. setting_name) (names_known settings (gh_keys settings))) None]"
proof -
  obtain s' where s': "foldl (update_one upd setting_name settings) ([], s) (gh_keys settings) =
      (map (\<lambda>n. setting_name) (names_known settings (gh_keys settings)), s')" "msgs s' = msgs s"
    using updates [of setting_name settings "[]" s "gh_keys settings"] by auto
  show ?thesis
    using s' by (auto simp: bm_secrets_provider_interface_get_secrets_result_def keys_collected gh_size_def result_msg
        split: option.split)
qed

end

interpretation act: secrets_provider "secrets_update_setting tr" secrets_result ar_out
    "\<lambda>setting_name caller updated error.
       if error \<noteq> None then CONNECTION_SECRETS_FAILED setting_name caller else CONNECTION_SECRETS_UPDATED updated caller"
    "\<lambda>name. bm_connection_lookup_setting_type name \<noteq> None" for tr
  by unfold_locales (auto simp: secrets_update_setting_def secrets_result_def ar_emit_def split: option.split)

section \<open>Settings are always built\<close>

lemma set_property_keeps_name: "ps_name ps \<noteq> ''name'' \<Longrightarrow> set_name (g_object_set_property tr s ps v) = set_name s"
  by (simp add: g_object_set_property_def setting_set_property_def split: option.split)

lemma construct_names: "ps \<in> set (class_properties cls) \<Longrightarrow> ps_construct ps \<or> ps_serialize ps \<Longrightarrow> ps_name ps \<noteq> ''name''"
  by (cases cls) (auto simp: property_table_defs)

lemma new_from_hash_total: "\<exists>s. bm_setting_new_from_hash tr cls H = Some s"
proof -
  define params where "params = gh_foreach (one_property_cb cls) H []"
  have "\<forall>(n, v) \<in> set (gh_foreach (one_property_cb cls) H l). (n, v) \<in> set l \<or>
      (\<exists>ps. find_property cls n = Some ps \<and> ps_serialize ps)" for l
    by (induction H arbitrary: l) (fastforce simp: one_property_cb_def split: option.splits if_splits)+
  then have params: "\<exists>ps. find_property cls n = Some ps \<and> ps_serialize ps" if "(n, v) \<in> set params" for n v
    using that unfolding params_def by fastforce
  have construct: "set_name (foldl (construct_step tr params) s pss) = set_name s" if "set pss \<subseteq> set (class_properties cls)" for s pss
    using that
    by (induction pss arbitrary: s) (auto simp: construct_step_def set_property_keeps_name construct_names)
  have "set_name (foldl (param_step tr cls) s kvs) = set_name s" if "set kvs \<subseteq> set params" for s kvs
    using that
  proof (induction kvs arbitrary: s)
    case (Cons nv kvs)
    obtain ps where "find_property cls (fst nv) = Some ps" "ps_serialize ps"
      using params [of "fst nv" "snd nv"] Cons.prems by auto
    moreover from this have "ps_name ps \<noteq> ''name''"
      using construct_names find_property_SomeD by blast
    ultimately show ?case
      using Cons by (simp add: param_step_def set_property_keeps_name)
  qed simp
  then show ?thesis
    using construct [of "class_properties cls" "setting_instance_init cls"]
    by (simp add: bm_setting_new_from_hash_def g_object_newv_def setting_constructor_def setting_instance_init_def params_def)
qed

section \<open>What a request does with a reply\<close>

lemma update_setting_connection:
  "connection_wf (ar_connection r) \<Longrightarrow>
   connection_wf (ar_connection (snd (secrets_update_setting tr name H r))) \<and>
   bm_connection_get_setting (ar_connection (snd (secrets_update_setting tr name H r))) cls =
     (if name = class_name cls then bm_setting_new_from_hash tr cls H else bm_connection_get_setting (ar_connection r) cls)"
proof (cases "bm_connection_lookup_setting_type name")
  case (Some c)
  then have name: "name = class_name c"
    by (simp add: lookup_setting_type_iff)
  obtain s where "bm_setting_new_from_hash tr c H = Some s"
    using new_from_hash_total by blast
  moreover from this have "object_type s = c"
    by (rule new_from_hash_type)
  moreover assume "connection_wf (ar_connection r)"
  ultimately show ?thesis
    by (auto simp: secrets_update_setting_def name add_setting_wf get_add_setting)
next
  case None
  moreover from this have "name \<noteq> class_name cls"
    by (auto simp: lookup_setting_type_none)
  moreover assume "connection_wf (ar_connection r)"
  ultimately show ?thesis
    by (simp add: secrets_update_setting_def)
qed

definition reply_setting :: "transform \<Rightarrow> secrets_table \<Rightarrow> setting_class \<Rightarrow> setting option \<Rightarrow> setting option" where
  "reply_setting tr settings cls old =
     (case gh_lookup settings (class_name cls) of Some (Some H) \<Rightarrow> bm_setting_new_from_hash tr cls H | _ \<Rightarrow> old)"

lemma updates_connection:
  assumes "distinct names" "connection_wf (ar_connection r)"
  shows "bm_connection_get_setting (ar_connection (snd (foldl (update_one (secrets_update_setting tr) setting_name settings) (l, r) names))) cls =
    (if class_name cls \<in> set names then reply_setting tr settings cls (bm_connection_get_setting (ar_connection r) cls)
     else bm_connection_get_setting (ar_connection r) cls)"
  using assms
proof (induction names arbitrary: l r)
  case (Cons name names)
  show ?case
  proof (cases "\<exists>H. gh_lookup settings name = Some (Some H)")
    case True
    then obtain H where H: "gh_lookup settings name = Some (Some H)"
      by blast
    let ?r = "snd (secrets_update_setting tr name H r)"
    have step: "foldl (update_one (secrets_update_setting tr) setting_name settings) (l, r) (name # names) =
        foldl (update_one (secrets_update_setting tr) setting_name settings)
          (if bm_connection_lookup_setting_type name \<noteq> None then l @ [setting_name] else l, ?r) names"
      using H by (simp only: foldl.simps act.update_step) simp
    have conn: "connection_wf (ar_connection ?r)"
        "bm_connection_get_setting (ar_connection ?r) cls =
           (if name = class_name cls then bm_setting_new_from_hash tr cls H else bm_connection_get_setting (ar_connection r) cls)"
      using update_setting_connection [OF Cons.prems(2)] by blast+
    have ih: "distinct names" "name \<notin> set names"
      using Cons.prems(1) by simp_all
    show ?thesis
      unfolding step Cons.IH [OF ih(1) conn(1)] conn(2) using ih(2) H
      by (cases "name = class_name cls") (simp_all add: reply_setting_def)
  next
    case False
    then have step: "foldl (update_one (secrets_update_setting tr) setting_name settings) (l, r) (name # names) =
        foldl (update_one (secrets_update_setting tr) setting_name settings) (l, r) names"
      by (simp only: foldl.simps act.update_step) simp
    have "reply_setting tr settings cls old = old" if "name = class_name cls" for old
      using False that by (auto simp: reply_setting_def split: option.split)
    then show ?thesis
      unfolding step using Cons.IH [of r l] Cons.prems by simp
  qed
qed simp

text \<open>A reply with secrets is announced by exactly one signal: that the secrets failed, when the reply is an
  error, is empty, or has no known setting in it; otherwise that they were updated, naming the setting that was
  asked for as often as settings were updated.  A setting that was delivered replaces the one in the
  connection as a whole, with the properties the reply leaves out at their defaults; the branch that would
  update single secrets is never taken.\<close>

theorem secrets_reply:
  assumes "gh_wf settings" "connection_wf (ar_connection r)"
  shows "let r' = bm_secrets_provider_interface_get_secrets_result (secrets_update_setting tr) secrets_result
              setting_name caller settings error r;
             known = filter (\<lambda>n. bm_connection_lookup_setting_type n \<noteq> None \<and> (\<exists>H. gh_lookup settings n = Some (Some H)))
               (gh_keys settings)
         in ar_out r' = ar_out r @ [if error \<noteq> None \<or> known = [] then CONNECTION_SECRETS_FAILED setting_name caller
                else CONNECTION_SECRETS_UPDATED (map (\<lambda>n. setting_name) known) caller] \<and>
            bm_connection_get_setting (ar_connection r') cls =
              (if error = None then reply_setting tr settings cls (bm_connection_get_setting (ar_connection r) cls)
               else bm_connection_get_setting (ar_connection r) cls) \<and>
            bm_setting_new_from_hash tr cls H \<noteq> None"
proof -
  have "distinct (gh_keys settings)"
    using assms(1) by (simp add: gh_wf_def)
  note conn = updates_connection [OF this assms(2), of tr setting_name settings "[]" cls]
  have other: "reply_setting tr settings cls old = old" if "class_name cls \<notin> set (gh_keys settings)" for old
    using that by (simp add: reply_setting_def ght.keys_look)
  have out: "ar_connection (secrets_result n c u e x) = ar_connection x" for n c u e x
    by (simp add: secrets_result_def ar_emit_def)
  have "bm_connection_get_setting (ar_connection (bm_secrets_provider_interface_get_secrets_result
        (secrets_update_setting tr) secrets_result setting_name caller settings error r)) cls =
      (if error = None then reply_setting tr settings cls (bm_connection_get_setting (ar_connection r) cls)
       else bm_connection_get_setting (ar_connection r) cls)"
  proof (cases "error = None \<and> settings \<noteq> []")
    case True
    then show ?thesis
      using conn other
      by (simp add: bm_secrets_provider_interface_get_secrets_result_def out gh_size_def split_beta)
  next
    case False
    then show ?thesis
      using other
      by (auto simp: bm_secrets_provider_interface_get_secrets_result_def out gh_size_def split: option.split)
  qed
  then show ?thesis
    using new_from_hash_total [of tr cls H] by (auto simp: Let_def act.one_result split: option.split)
qed

definition sample_request :: act_request where
  "sample_request = bm_act_request_new sample_connection None True False (Some ''/d/0'')"

text \<open>A reply with one property of the bluetooth setting loses the others, and the connection with it.\<close>

theorem secrets_reply_witness:
  "let r' = bm_secrets_provider_interface_get_secrets_result (secrets_update_setting (\<lambda>_ _. None)) secrets_result
        ''ppp'' SECRETS_CALLER_PPP [(''bluetooth'', Some [(''type'', GString (Some ''dun''))]), (''x'', Some [])] None sample_request
   in ar_out r' = [AR_REGISTERED None, CONNECTION_SECRETS_UPDATED [''ppp''] SECRETS_CALLER_PPP] \<and>
      bm_connection_verify sample_connection = Inr () \<and>
      map_option set_priv (bm_connection_get_setting (ar_connection r') BM_TYPE_SETTING_BLUETOOTH) =
        Some (Bluetooth_Priv \<lparr>bt_bdaddr = None, bt_type = Some ''dun''\<rparr>)"
proof -
  let ?H = "[(''type'', GString (Some ''dun''))]"
  let ?settings = "[(''bluetooth'', Some ?H), (''x'', Some [])] :: secrets_table"
  have new: "map_option set_priv (bm_setting_new_from_hash (\<lambda>_ _. None) BM_TYPE_SETTING_BLUETOOTH ?H) =
      Some (Bluetooth_Priv \<lparr>bt_bdaddr = None, bt_type = Some ''dun''\<rparr>)"
    by (simp add: bm_setting_new_from_hash_def one_property_cb_def g_object_newv_def setting_constructor_def find_property_def
        property_table_defs property_access_defs setting_instance_init_def construct_step_def param_step_def
        g_object_set_property_def coerce_def ps_type_def)
  have lookup: "bm_connection_lookup_setting_type ''bluetooth'' = Some BM_TYPE_SETTING_BLUETOOTH" "bm_connection_lookup_setting_type ''x'' = None"
    using lookup_setting_type [of BM_TYPE_SETTING_BLUETOOTH] by (simp_all add: bm_connection_lookup_setting_type_def registered_settings_eq)
  have "gh_wf ?settings" "connection_wf (ar_connection sample_request)"
    using sample_connection_ok(2) by (simp_all add: sample_request_def bm_act_request_new_def)
  from secrets_reply [OF this, of "\<lambda>_ _. None" "''ppp''" SECRETS_CALLER_PPP None BM_TYPE_SETTING_BLUETOOTH "[]"]
  show ?thesis
    using new lookup sample_connection_verify
    by (simp add: Let_def reply_setting_def) (simp add: sample_request_def bm_act_request_new_def)
qed

section \<open>The state of a request\<close>

definition device_states :: "device_state list \<Rightarrow> act_request \<Rightarrow> act_request" where
  "device_states ds r = foldl (\<lambda>r d. device_state_changed d r) r ds"

definition state_notifications :: "act_request \<Rightarrow> nat" where
  "state_notifications r = count_list (ar_out r) (AR_NOTIFY ''state'')"

lemma state_changed_fields:
  "ar_state (device_state_changed d r) = new_active_state d"
  "ar_default (device_state_changed d r) \<longleftrightarrow> ar_default r \<and> d = BM_DEVICE_STATE_ACTIVATED"
  "ar_default6 (device_state_changed d r) \<longleftrightarrow> ar_default6 r \<and> d = BM_DEVICE_STATE_ACTIVATED"
  "state_notifications (device_state_changed d r) = state_notifications r + (if new_active_state d = ar_state r then 0 else 1)"
  by (auto simp: device_state_changed_def ar_emit_def state_notifications_def Let_def)

text \<open>After any sequence of states of its device a request is in the state that the last of them stands for, and
  has notified once for each change.  It stays the default connection only while the device stays activated:
  once the device has left that state, reaching it again does not make the request the default again.\<close>

theorem request_follows_device:
  "ar_state (device_states ds r) = last (ar_state r # map new_active_state ds) \<and>
   state_notifications (device_states ds r) + 1 =
     state_notifications r + length (remdups_adj (ar_state r # map new_active_state ds)) \<and>
   (ar_default (device_states ds r) \<longleftrightarrow> ar_default r \<and> set ds \<subseteq> {BM_DEVICE_STATE_ACTIVATED}) \<and>
   (ar_default6 (device_states ds r) \<longleftrightarrow> ar_default6 r \<and> set ds \<subseteq> {BM_DEVICE_STATE_ACTIVATED})"
proof (induction ds arbitrary: r)
  case (Cons d ds)
  have "device_states (d # ds) r = device_states ds (device_state_changed d r)"
    by (simp add: device_states_def)
  then show ?case
    using Cons.IH [of "device_state_changed d r"] by (auto simp: state_changed_fields)
qed (simp add: device_states_def)

end
