(* ===== verification/Dbus_Manager.thy ===== *)
theory Dbus_Manager
  imports BM_Prelude
begin

text \<open>
  The connection to the system bus, \<^verbatim>\<open>src/barcode-manager/src/bm-dbus-manager.c\<close>: it is opened once, the daemon's
  two names are requested on it, and when the bus goes away a timer tries to come back.  The bus is a parameter: \<open>open\<close> is
  \<^verbatim>\<open>dbus_g_bus_get\<close> and \<open>request\<close> the call of \<^verbatim>\<open>RequestName\<close>, whose result is the bus's reply code, or
  \<open>None\<close> when the call failed; both change the state \<open>'b\<close> of the bus.  Releasing the proxy may emit its \<^verbatim>\<open>destroy\<close>
  signal, as dbus-glib's proxies do; \<open>destroys\<close> says whether it does.
\<close>

section \<open>State\<close>

datatype dm_output = CONNECTION_CHANGED bool | DM_NAME_OWNER_CHANGED string string string

text \<open>\<open>dm_connection\<close> stands for both pointers to the connection, which are set and cleared together;
  \<open>dm_destroy\<close> for the connected handler of the proxy's \<^verbatim>\<open>destroy\<close> signal, \<open>dm_reconnect\<close> for the timer.\<close>

record 'b dbus_manager =
  dm_connection :: bool
  dm_started :: bool
  dm_proxy :: bool
  dm_destroy :: bool
  dm_reconnect :: bool
  dm_bus :: 'b
  dm_out :: "dm_output list"

definition dbus_manager_init :: "'b \<Rightarrow> 'b dbus_manager" where
  "dbus_manager_init b =
     \<lparr>dm_connection = False, dm_started = False, dm_proxy = False, dm_destroy = False, dm_reconnect = False,
      dm_bus = b, dm_out = []\<rparr>"

definition dm_emit :: "dm_output \<Rightarrow> 'b dbus_manager \<Rightarrow> 'b dbus_manager" where
  "dm_emit x d = d\<lparr>dm_out := dm_out d @ [x]\<rparr>"

definition BM_DBUS_SERVICE :: string where "BM_DBUS_SERVICE = ''org.freedesktop.BarcodeManager''"
definition BM_DBUS_SERVICE_SYSTEM_SETTINGS :: string where
  "BM_DBUS_SERVICE_SYSTEM_SETTINGS = ''org.freedesktop.BarcodeManagerSystemSettings''"

text \<open>The replies to \<^verbatim>\<open>RequestName\<close> in the D-Bus specification.\<close>

definition REPLY_PRIMARY_OWNER :: u32 where "REPLY_PRIMARY_OWNER = 1"
definition REPLY_EXISTS :: u32 where "REPLY_EXISTS = 3"
definition REPLY_ALREADY_OWNER :: u32 where "REPLY_ALREADY_OWNER = 4"

section \<open>Operations\<close>

definition start_reconnection_timeout :: "'b dbus_manager \<Rightarrow> 'b dbus_manager" where
  "start_reconnection_timeout d = d\<lparr>dm_reconnect := True\<rparr>"

text \<open>The connection and the flag, once the proxy is gone.\<close>

definition drop_connection :: "'b dbus_manager \<Rightarrow> 'b dbus_manager" where
  "drop_connection d = (if dm_connection d then d\<lparr>dm_connection := False\<rparr> else d)\<lparr>dm_started := False\<rparr>"

text \<open>\<^verbatim>\<open>destroy_cb\<close> clears the proxy first, so the clean-up it calls does not release it again.\<close>

definition destroy_cb :: "'b dbus_manager \<Rightarrow> 'b dbus_manager" where
  "destroy_cb d =
     start_reconnection_timeout (dm_emit (CONNECTION_CHANGED False) (drop_connection (d\<lparr>dm_proxy := False, dm_destroy := False\<rparr>)))"

definition bm_dbus_manager_cleanup :: "bool \<Rightarrow> bool \<Rightarrow> 'b dbus_manager \<Rightarrow> 'b dbus_manager" where
  "bm_dbus_manager_cleanup destroys dispose d =
     (let d1 = (if dm_proxy d
                then (let d' = (if dispose then d\<lparr>dm_destroy := False\<rparr> else d);
                          d'' = (if destroys \<and> dm_destroy d' then destroy_cb d' else d')
                      in d''\<lparr>dm_proxy := False, dm_destroy := False\<rparr>)
                else d)
      in drop_connection d1)"

definition bm_dbus_manager_init_bus :: "('b \<Rightarrow> bool \<times> 'b) \<Rightarrow> 'b dbus_manager \<Rightarrow> bool \<times> 'b dbus_manager" where
  "bm_dbus_manager_init_bus open d =
     (if dm_connection d then (False, d)
      else (case open (dm_bus d) of
              (ok, b) \<Rightarrow>
                if \<not> ok then (False, d\<lparr>dm_bus := b\<rparr>)
                else (True, d\<lparr>dm_bus := b, dm_connection := True, dm_proxy := True, dm_destroy := True\<rparr>)))"

definition bm_dbus_manager_start_service :: "('b \<Rightarrow> string \<Rightarrow> u32 option \<times> 'b) \<Rightarrow> 'b dbus_manager \<Rightarrow> bool \<times> 'b dbus_manager" where
  "bm_dbus_manager_start_service request d =
     (if dm_started d then (False, d)
      else (case request (dm_bus d) BM_DBUS_SERVICE of
              (None, b) \<Rightarrow> (False, d\<lparr>dm_bus := b\<rparr>)
            | (Some result, b) \<Rightarrow>
                if result \<noteq> REPLY_PRIMARY_OWNER then (False, d\<lparr>dm_bus := b\<rparr>)
                else (case request b BM_DBUS_SERVICE_SYSTEM_SETTINGS of
                        (None, b') \<Rightarrow> (False, d\<lparr>dm_bus := b'\<rparr>)
                      | (Some result', b') \<Rightarrow>
                          if result' \<noteq> REPLY_PRIMARY_OWNER then (False, d\<lparr>dm_bus := b'\<rparr>)
                          else (True, d\<lparr>dm_bus := b', dm_started := True\<rparr>))))"

text \<open>The timer is removed when its function returns \<^verbatim>\<open>FALSE\<close>.\<close>

definition bm_dbus_manager_reconnect ::
    "bool \<Rightarrow> ('b \<Rightarrow> bool \<times> 'b) \<Rightarrow> ('b \<Rightarrow> string \<Rightarrow> u32 option \<times> 'b) \<Rightarrow> 'b dbus_manager \<Rightarrow> 'b dbus_manager" where
  "bm_dbus_manager_reconnect destroys open request d =
     (case bm_dbus_manager_init_bus open d of
        (True, d1) \<Rightarrow>
          (case bm_dbus_manager_start_service request d1 of
             (True, d2) \<Rightarrow> (dm_emit (CONNECTION_CHANGED (dm_connection d2)) d2)\<lparr>dm_reconnect := False\<rparr>
           | (False, d2) \<Rightarrow> bm_dbus_manager_cleanup destroys False d2)
      | (False, d1) \<Rightarrow> bm_dbus_manager_cleanup destroys False d1)"

definition bm_dbus_manager_get :: "('b \<Rightarrow> bool \<times> 'b) \<Rightarrow> 'b \<Rightarrow> 'b dbus_manager" where
  "bm_dbus_manager_get open b =
     (case bm_dbus_manager_init_bus open (dbus_manager_init b) of
        (True, d) \<Rightarrow> d
      | (False, d) \<Rightarrow> start_reconnection_timeout d)"

definition bm_dbus_manager_dispose :: "bool \<Rightarrow> 'b dbus_manager \<Rightarrow> 'b dbus_manager" where
  "bm_dbus_manager_dispose destroys d = (bm_dbus_manager_cleanup destroys True d)\<lparr>dm_reconnect := False\<rparr>"

definition proxy_name_owner_changed :: "string \<Rightarrow> string \<Rightarrow> string \<Rightarrow> 'b dbus_manager \<Rightarrow> 'b dbus_manager" where
  "proxy_name_owner_changed name old_owner new_owner d = dm_emit (DM_NAME_OWNER_CHANGED name old_owner new_owner) d"

text \<open>\<open>answer\<close> is the reply of \<^verbatim>\<open>NameHasOwner\<close>, unless the call failed.\<close>

definition bm_dbus_manager_name_has_owner :: "(string \<Rightarrow> bool option) \<Rightarrow> string \<Rightarrow> bool" where
  "bm_dbus_manager_name_has_owner answer name = (case answer name of Some has_owner \<Rightarrow> has_owner | None \<Rightarrow> False)"

section \<open>The life of the connection\<close>

text \<open>After the start the bus can disappear, which destroys the proxy, and the timer can run; in between the
  state of the bus itself can change in any way that \<open>change\<close> allows.\<close>

inductive dm_step ::
    "bool \<Rightarrow> ('b \<Rightarrow> bool \<times> 'b) \<Rightarrow> ('b \<Rightarrow> string \<Rightarrow> u32 option \<times> 'b) \<Rightarrow> ('b \<Rightarrow> 'b \<Rightarrow> bool) \<Rightarrow>
     'b dbus_manager \<Rightarrow> 'b dbus_manager \<Rightarrow> bool"
  for destroys opn request change where
  disconnected: "dm_destroy d \<Longrightarrow> dm_step destroys opn request change d (destroy_cb d)"
| timer: "dm_reconnect d \<Longrightarrow> dm_step destroys opn request change d (bm_dbus_manager_reconnect destroys opn request d)"
| owner: "dm_proxy d \<Longrightarrow> dm_step destroys opn request change d (proxy_name_owner_changed name old new d)"
| bus: "change (dm_bus d) b \<Longrightarrow> dm_step destroys opn request change d (d\<lparr>dm_bus := b\<rparr>)"

inductive_cases dm_stepE: "dm_step destroys opn request change d d'"

text \<open>The daemon starts the service after it got the manager; it ends when that fails.\<close>

inductive dm_reachable ::
    "bool \<Rightarrow> ('b \<Rightarrow> bool \<times> 'b) \<Rightarrow> ('b \<Rightarrow> string \<Rightarrow> u32 option \<times> 'b) \<Rightarrow> ('b \<Rightarrow> 'b \<Rightarrow> bool) \<Rightarrow> 'b \<Rightarrow>
     'b dbus_manager \<Rightarrow> bool"
  for destroys opn request change b0 where
  got: "dm_reachable destroys opn request change b0 (bm_dbus_manager_get opn b0)"
| service: "dm_reachable destroys opn request change b0 d \<Longrightarrow> bm_dbus_manager_start_service request d = (True, d') \<Longrightarrow>
     dm_proxy d \<Longrightarrow> dm_reachable destroys opn request change b0 d'"
| step: "dm_reachable destroys opn request change b0 d \<Longrightarrow> dm_step destroys opn request change d d' \<Longrightarrow>
     dm_reachable destroys opn request change b0 d'"

text \<open>The pieces of the connection come and go together; without it a timer is running.\<close>

definition dm_inv :: "'b dbus_manager \<Rightarrow> bool" where
  "dm_inv d \<longleftrightarrow> (dm_connection d \<longleftrightarrow> dm_proxy d) \<and> (dm_connection d \<longleftrightarrow> dm_destroy d) \<and>
     (dm_started d \<longrightarrow> dm_connection d) \<and> (dm_reconnect d \<longleftrightarrow> \<not> dm_connection d)"

lemma emit_fields [simp]:
  "dm_connection (dm_emit x d) = dm_connection d" "dm_started (dm_emit x d) = dm_started d"
  "dm_proxy (dm_emit x d) = dm_proxy d" "dm_destroy (dm_emit x d) = dm_destroy d"
  "dm_reconnect (dm_emit x d) = dm_reconnect d" "dm_bus (dm_emit x d) = dm_bus d"
  by (simp_all add: dm_emit_def)

lemma destroy_fields [simp]:
  "\<not> dm_connection (destroy_cb d)" "\<not> dm_started (destroy_cb d)" "\<not> dm_proxy (destroy_cb d)" "\<not> dm_destroy (destroy_cb d)"
  "dm_reconnect (destroy_cb d)" "dm_bus (destroy_cb d) = dm_bus d"
  by (simp_all add: destroy_cb_def drop_connection_def start_reconnection_timeout_def)

lemma dm_cleanup_fields [simp]:
  "\<not> dm_connection (bm_dbus_manager_cleanup destroys dispose d)"
  "\<not> dm_started (bm_dbus_manager_cleanup destroys dispose d)"
  "dm_bus (bm_dbus_manager_cleanup destroys dispose d) = dm_bus d"
  by (simp_all add: bm_dbus_manager_cleanup_def drop_connection_def Let_def)

lemma cleanup_pieces:
  "dm_inv d \<Longrightarrow> \<not> dm_proxy (bm_dbus_manager_cleanup destroys dispose d) \<and> \<not> dm_destroy (bm_dbus_manager_cleanup destroys dispose d)"
  "dm_reconnect d \<Longrightarrow> dm_reconnect (bm_dbus_manager_cleanup destroys dispose d)"
  by (auto simp: bm_dbus_manager_cleanup_def drop_connection_def Let_def dm_inv_def)

lemma start_service_fields:
  assumes "bm_dbus_manager_start_service request d = (ok, d')"
  shows "dm_connection d' = dm_connection d" "dm_proxy d' = dm_proxy d" "dm_destroy d' = dm_destroy d"
    "dm_reconnect d' = dm_reconnect d" "dm_started d' \<longleftrightarrow> dm_started d \<or> ok" "dm_out d' = dm_out d"
  using assms by (auto simp: bm_dbus_manager_start_service_def split: if_splits option.splits prod.splits)

lemma init_bus_fields:
  assumes "bm_dbus_manager_init_bus opn d = (ok, d')"
  shows "dm_connection d' \<longleftrightarrow> dm_connection d \<or> ok" "dm_proxy d' \<longleftrightarrow> dm_proxy d \<or> ok" "dm_destroy d' \<longleftrightarrow> dm_destroy d \<or> ok"
    "dm_reconnect d' = dm_reconnect d" "dm_started d' = dm_started d" "dm_out d' = dm_out d"
  using assms by (auto simp: bm_dbus_manager_init_bus_def split: if_splits prod.splits)

lemma cleanup_inv:
  "dm_connection d \<longleftrightarrow> dm_proxy d \<Longrightarrow> dm_connection d \<longleftrightarrow> dm_destroy d \<Longrightarrow> dm_reconnect d \<Longrightarrow>
   dm_inv (bm_dbus_manager_cleanup destroys dispose d)"
  by (auto simp: bm_dbus_manager_cleanup_def drop_connection_def Let_def dm_inv_def)

text \<open>The ends of one run of the timer.\<close>

lemma reconnect_cases:
  obtains (lost) d1 where "bm_dbus_manager_init_bus opn d = (False, d1)"
      "bm_dbus_manager_reconnect destroys opn request d = bm_dbus_manager_cleanup destroys False d1"
  | (refused) d1 d2 where "bm_dbus_manager_init_bus opn d = (True, d1)" "bm_dbus_manager_start_service request d1 = (False, d2)"
      "bm_dbus_manager_reconnect destroys opn request d = bm_dbus_manager_cleanup destroys False d2"
  | (joined) d1 d2 where "bm_dbus_manager_init_bus opn d = (True, d1)" "bm_dbus_manager_start_service request d1 = (True, d2)"
      "bm_dbus_manager_reconnect destroys opn request d = (dm_emit (CONNECTION_CHANGED True) d2)\<lparr>dm_reconnect := False\<rparr>"
proof -
  obtain ok d1 where d1: "bm_dbus_manager_init_bus opn d = (ok, d1)"
    by fastforce
  obtain ok' d2 where d2: "bm_dbus_manager_start_service request d1 = (ok', d2)"
    by fastforce
  show ?thesis
  proof (cases ok)
    case False
    then show ?thesis
      using lost [of d1] d1 by (simp add: bm_dbus_manager_reconnect_def)
  next
    case True
    then have "dm_connection d2"
      using init_bus_fields [OF d1] start_service_fields [OF d2] by simp
    then show ?thesis
      using refused [of d1 d2] joined [of d1 d2] d1 d2 True by (cases ok') (simp_all add: bm_dbus_manager_reconnect_def)
  qed
qed

lemma inv_reconnect:
  assumes "dm_inv d" "dm_reconnect d"
  shows "dm_inv (bm_dbus_manager_reconnect destroys opn request d)"
  using reconnect_cases [of opn d destroys request]
proof cases
  case (lost d1)
  then show ?thesis
    unfolding lost(2) by (intro cleanup_inv) (use init_bus_fields [OF lost(1)] assms in \<open>auto simp: dm_inv_def\<close>)
next
  case (refused d1 d2)
  then show ?thesis
    unfolding refused(3)
    by (intro cleanup_inv)
       (use init_bus_fields [OF refused(1)] start_service_fields [OF refused(2)] assms in \<open>auto simp: dm_inv_def\<close>)
next
  case (joined d1 d2)
  then show ?thesis
    using init_bus_fields [OF joined(1)] start_service_fields [OF joined(2)] assms by (simp add: dm_inv_def)
qed

lemma inv_step: "dm_step destroys opn request change d d' \<Longrightarrow> dm_inv d \<Longrightarrow> dm_inv d'"
  by (induction rule: dm_step.induct) (simp_all add: inv_reconnect proxy_name_owner_changed_def, auto simp: dm_inv_def)

lemma reachable_inv: "dm_reachable destroys opn request change b0 d \<Longrightarrow> dm_inv d"
proof (induction rule: dm_reachable.induct)
  case got
  show ?case
    by (auto simp: bm_dbus_manager_get_def bm_dbus_manager_init_bus_def dbus_manager_init_def
        start_reconnection_timeout_def dm_inv_def split: prod.split)
next
  case (service d d')
  then show ?case
    using start_service_fields [OF service(2)] by (auto simp: dm_inv_def)
qed (rule inv_step)

text \<open>C21: Whatever the bus does, the daemon never gives up on it: it has a connection, with its proxy and the handler
  of the proxy's end, or a timer is running; and when both names are free the next run of the
  timer brings the service back, stops the timer and announces the connection once.\<close>

theorem bus_connection_recovers:
  assumes "dm_reachable destroys opn request change b0 d"
  shows "(dm_connection d \<longleftrightarrow> dm_proxy d \<and> dm_destroy d) \<and> (dm_started d \<longrightarrow> dm_connection d) \<and>
    (dm_reconnect d \<longleftrightarrow> \<not> dm_connection d) \<and>
    (\<not> dm_connection d \<and> opn (dm_bus d) = (True, b1) \<and> request b1 BM_DBUS_SERVICE = (Some REPLY_PRIMARY_OWNER, b2) \<and>
     request b2 BM_DBUS_SERVICE_SYSTEM_SETTINGS = (Some REPLY_PRIMARY_OWNER, b3) \<longrightarrow>
       (\<exists>d'. dm_step destroys opn request change d d' \<and> dm_started d' \<and> \<not> dm_reconnect d' \<and>
          dm_out d' = dm_out d @ [CONNECTION_CHANGED True]))"
proof -
  have inv: "dm_inv d"
    using assms by (rule reachable_inv)
  have "\<exists>d'. dm_step destroys opn request change d d' \<and> dm_started d' \<and> \<not> dm_reconnect d' \<and>
      dm_out d' = dm_out d @ [CONNECTION_CHANGED True]"
    if "\<not> dm_connection d" "opn (dm_bus d) = (True, b1)" "request b1 BM_DBUS_SERVICE = (Some REPLY_PRIMARY_OWNER, b2)"
      "request b2 BM_DBUS_SERVICE_SYSTEM_SETTINGS = (Some REPLY_PRIMARY_OWNER, b3)"
  proof (intro exI conjI)
    show "dm_step destroys opn request change d (bm_dbus_manager_reconnect destroys opn request d)"
      using inv that(1) by (intro dm_step.timer) (simp add: dm_inv_def)
  qed (use inv that in \<open>simp_all add: bm_dbus_manager_reconnect_def bm_dbus_manager_init_bus_def
      bm_dbus_manager_start_service_def dm_inv_def dm_emit_def\<close>)
  then show ?thesis
    using inv by (auto simp: dm_inv_def)
qed

text \<open>A bus for examples: whether it is there, the names the daemon owns and those that others own.\<close>

type_synonym sample_bus = "bool \<times> string list \<times> string list"

fun sample_open :: "sample_bus \<Rightarrow> bool \<times> sample_bus" where
  "sample_open (up, mine, others) = (up, (up, mine, others))"

fun sample_request :: "sample_bus \<Rightarrow> string \<Rightarrow> u32 option \<times> sample_bus" where
  "sample_request (up, mine, others) n =
     (if n \<in> set mine then (Some REPLY_ALREADY_OWNER, (up, mine, others))
      else if n \<in> set others then (Some REPLY_EXISTS, (up, mine, others))
      else (Some REPLY_PRIMARY_OWNER, (up, n # mine, others)))"

lemma names_differ: "BM_DBUS_SERVICE \<noteq> BM_DBUS_SERVICE_SYSTEM_SETTINGS"
  by (simp add: BM_DBUS_SERVICE_def BM_DBUS_SERVICE_SYSTEM_SETTINGS_def)

theorem bus_connection_recovers_witness:
  "\<exists>d'. dm_step True sample_open sample_request (\<lambda>b b'. True)
     ((bm_dbus_manager_get sample_open (False, [], []))\<lparr>dm_bus := (True, [], [])\<rparr>) d' \<and> dm_started d'"
proof -
  let ?d = "(bm_dbus_manager_get sample_open (False, [], []))\<lparr>dm_bus := (True, [], [])\<rparr>"
  have "dm_reachable True sample_open sample_request (\<lambda>b b'. True) (False, [], []) ?d"
    by (rule dm_reachable.step [OF dm_reachable.got]) (rule dm_step.bus, simp)
  moreover have "\<not> dm_connection ?d" "sample_open (dm_bus ?d) = (True, (True, [], []))"
    by (simp_all add: bm_dbus_manager_get_def bm_dbus_manager_init_bus_def dbus_manager_init_def start_reconnection_timeout_def)
  ultimately show ?thesis
    using bus_connection_recovers [of True sample_open sample_request "\<lambda>b b'. True" "(False, [], [])" ?d] names_differ
    by fastforce
qed

section \<open>When the second name is taken\<close>

text \<open>The daemon's own names are its own for as long as the bus is there: asking again gives the reply that it already owns
  them, opening the shared connection again does not release them, and neither do requests or changes
  elsewhere.\<close>

definition keeps_names ::
    "('b \<Rightarrow> bool \<times> 'b) \<Rightarrow> ('b \<Rightarrow> string \<Rightarrow> u32 option \<times> 'b) \<Rightarrow> ('b \<Rightarrow> 'b \<Rightarrow> bool) \<Rightarrow> ('b \<Rightarrow> string \<Rightarrow> bool) \<Rightarrow> bool" where
  "keeps_names opn request change own \<longleftrightarrow>
     (\<forall>b n. own b n \<longrightarrow> fst (request b n) = Some REPLY_ALREADY_OWNER) \<and>
     (\<forall>b n. fst (request b n) = Some REPLY_PRIMARY_OWNER \<longrightarrow> own (snd (request b n)) n) \<and>
     (\<forall>b n m. own b n \<longrightarrow> own (snd (request b m)) n) \<and>
     (\<forall>b n. own b n \<longrightarrow> own (snd (opn b)) n) \<and>
     (\<forall>b b' n. change b b' \<longrightarrow> own b n \<longrightarrow> own b' n)"

lemma refused_when_own:
  assumes "keeps_names opn request change own" "own (dm_bus d) BM_DBUS_SERVICE" "\<not> dm_started d"
  shows "\<exists>d'. bm_dbus_manager_start_service request d = (False, d') \<and> own (dm_bus d') BM_DBUS_SERVICE"
proof -
  obtain r b where r: "request (dm_bus d) BM_DBUS_SERVICE = (r, b)"
    by fastforce
  moreover have "r = Some REPLY_ALREADY_OWNER" "own b BM_DBUS_SERVICE"
    using assms(1,2) r unfolding keeps_names_def by (metis fst_conv, metis snd_conv)
  ultimately show ?thesis
    using assms(3) by (simp add: bm_dbus_manager_start_service_def REPLY_ALREADY_OWNER_def REPLY_PRIMARY_OWNER_def)
qed

lemma own_step:
  assumes "dm_step destroys opn request change d d'" "keeps_names opn request change own"
    and "own (dm_bus d) BM_DBUS_SERVICE" "\<not> dm_started d"
  shows "own (dm_bus d') BM_DBUS_SERVICE \<and> \<not> dm_started d'"
  using assms(1)
proof cases
  case timer
  have opened: "own (dm_bus d1) BM_DBUS_SERVICE" if "bm_dbus_manager_init_bus opn d = (ok, d1)" for ok d1
    using that assms(2,3) unfolding keeps_names_def
    by (auto simp: bm_dbus_manager_init_bus_def split: if_splits prod.splits) (metis snd_conv)+
  show ?thesis
    using reconnect_cases [of opn d destroys request]
  proof cases
    case (lost d1)
    then show ?thesis
      using opened [OF lost(1)] timer by simp
  next
    case (refused d1 d2)
    then show ?thesis
      using refused_when_own [OF assms(2) opened [OF refused(1)]] init_bus_fields(5) [OF refused(1)] assms(4) timer by simp
  next
    case (joined d1 d2)
    then show ?thesis
      using refused_when_own [OF assms(2) opened [OF joined(1)]] init_bus_fields(5) [OF joined(1)] assms(4) by simp
  qed
qed (use assms in \<open>auto simp: proxy_name_owner_changed_def keeps_names_def\<close>)

text \<open>When the first of the two names could be acquired and the second was taken, the start fails, and
  every later attempt fails too, also after the second name has become free: the first name is still
  owned, and the reply that says so counts as a refusal.\<close>

theorem second_name_taken_is_final:
  assumes "keeps_names opn request change own"
    and "request (dm_bus d) BM_DBUS_SERVICE = (Some REPLY_PRIMARY_OWNER, b1)"
    and "fst (request b1 BM_DBUS_SERVICE_SYSTEM_SETTINGS) \<noteq> Some REPLY_PRIMARY_OWNER" "\<not> dm_started d"
    and "bm_dbus_manager_start_service request d = (ok, d1)"
    and "(dm_step destroys opn request change)\<^sup>*\<^sup>* (bm_dbus_manager_cleanup destroys False d1) d2"
  shows "\<not> ok \<and> \<not> dm_started d2 \<and> \<not> fst (bm_dbus_manager_start_service request d2)"
proof -
  obtain r b2 where r: "request b1 BM_DBUS_SERVICE_SYSTEM_SETTINGS = (r, b2)" "r \<noteq> Some REPLY_PRIMARY_OWNER"
    using assms(3) by (cases "request b1 BM_DBUS_SERVICE_SYSTEM_SETTINGS") auto
  have own: "own b2 BM_DBUS_SERVICE"
    using assms(1,2) r(1) unfolding keeps_names_def by (metis fst_conv snd_conv)
  have d1: "\<not> ok" "dm_bus d1 = b2"
    using assms(2,4,5) r by (auto simp: bm_dbus_manager_start_service_def split: option.splits if_splits)
  from assms(6) have "own (dm_bus d2) BM_DBUS_SERVICE \<and> \<not> dm_started d2"
  proof (induction rule: rtranclp_induct)
    case (step d d')
    then show ?case
      using own_step [OF step(2) assms(1)] by blast
  qed (simp add: d1 own)
  then show ?thesis
    using refused_when_own [OF assms(1)] d1(1) by fastforce
qed

theorem second_name_taken_is_final_witness:
  "let d = bm_dbus_manager_get sample_open (True, [], [BM_DBUS_SERVICE_SYSTEM_SETTINGS]);
       d1 = snd (bm_dbus_manager_start_service sample_request d);
       d2 = (bm_dbus_manager_cleanup False False d1)\<lparr>dm_bus := (True, [BM_DBUS_SERVICE], [])\<rparr>
   in dm_bus d1 = (True, [BM_DBUS_SERVICE], [BM_DBUS_SERVICE_SYSTEM_SETTINGS]) \<and>
      \<not> fst (bm_dbus_manager_start_service sample_request d2)"
proof -
  let ?own = "\<lambda>b :: sample_bus. \<lambda>n. n \<in> set (fst (snd b))"
  let ?change = "\<lambda>b b' :: sample_bus. fst (snd b') = fst (snd b)"
  define d where "d = bm_dbus_manager_get sample_open (True, [], [BM_DBUS_SERVICE_SYSTEM_SETTINGS])"
  obtain ok d1 where d1: "bm_dbus_manager_start_service sample_request d = (ok, d1)"
    by fastforce
  let ?d2 = "(bm_dbus_manager_cleanup False False d1)\<lparr>dm_bus := (True, [BM_DBUS_SERVICE], [])\<rparr>"
  have keeps: "keeps_names sample_open sample_request ?change ?own"
    by (auto simp: keeps_names_def REPLY_ALREADY_OWNER_def REPLY_PRIMARY_OWNER_def REPLY_EXISTS_def)
  have bus: "dm_bus d = (True, [], [BM_DBUS_SERVICE_SYSTEM_SETTINGS])" "\<not> dm_started d"
    by (simp_all add: d_def bm_dbus_manager_get_def bm_dbus_manager_init_bus_def dbus_manager_init_def)
  then have req: "sample_request (dm_bus d) BM_DBUS_SERVICE =
      (Some REPLY_PRIMARY_OWNER, (True, [BM_DBUS_SERVICE], [BM_DBUS_SERVICE_SYSTEM_SETTINGS]))"
    "fst (sample_request (True, [BM_DBUS_SERVICE], [BM_DBUS_SERVICE_SYSTEM_SETTINGS]) BM_DBUS_SERVICE_SYSTEM_SETTINGS) \<noteq>
      Some REPLY_PRIMARY_OWNER"
    using names_differ by (simp_all add: REPLY_EXISTS_def REPLY_PRIMARY_OWNER_def)
  have bus1: "dm_bus d1 = (True, [BM_DBUS_SERVICE], [BM_DBUS_SERVICE_SYSTEM_SETTINGS])"
    using d1 bus names_differ
    by (auto simp: bm_dbus_manager_start_service_def REPLY_EXISTS_def REPLY_PRIMARY_OWNER_def)
  then have "dm_step False sample_open sample_request ?change (bm_dbus_manager_cleanup False False d1) ?d2"
    by (intro dm_step.bus) simp
  then have "\<not> fst (bm_dbus_manager_start_service sample_request ?d2)"
    using second_name_taken_is_final [OF keeps req bus(2) d1, of False ?d2] by blast
  then show ?thesis
    using bus1 d1 by (simp add: Let_def flip: d_def)
qed

end
