(* ===== verification/Daemon.thy ===== *)
theory Daemon
  imports Logging Manager
begin

text \<open>
  The start of the daemon, \<^verbatim>\<open>src/barcode-manager/src/main.c\<close>: the PID file that keeps a second daemon away, the
  configuration and the state file, and the order in which the parts are started and stopped.  What a
  run does is the list of its steps and its exit code; the system calls' outcomes are the record \<open>main_env\<close>.
  The contents of a file are its bytes, in which a string ends at the first NUL; the parsing of key files is GLib's, so a
  configuration is what looking up its keys gives.
\<close>

section \<open>The PID file\<close>

text \<open>\<^verbatim>\<open>strtol (s, NULL, 10)\<close> with a 64-bit \<^verbatim>\<open>long\<close>: the value, and whether \<^verbatim>\<open>errno\<close> was set.\<close>

definition strtol :: "string \<Rightarrow> int \<times> bool" where
  "strtol s =
     (let t = dropWhile strtoull_space s;
          negative = (t \<noteq> [] \<and> hd t = CHR ''-'');
          digits = takeWhile isdigit (if t \<noteq> [] \<and> (hd t = CHR ''-'' \<or> hd t = CHR ''+'') then tl t else t);
          n = int (foldl (\<lambda>a c. 10 * a + (char_code c - 48)) 0 digits);
          i = (if negative then - n else n)
      in if i > 2 ^ 63 - 1 then (2 ^ 63 - 1, True) else if i < - (2 ^ 63) then (- (2 ^ 63), True) else (i, False))"

text \<open>The bytes as a C string.\<close>

definition c_string :: "string \<Rightarrow> string" where
  "c_string s = takeWhile (\<lambda>c. c \<noteq> CHR 0x00) s"

definition process_name :: "string \<Rightarrow> string" where
  "process_name s = (if CHR ''/'' \<in> set s then rev (takeWhile (\<lambda>c. c \<noteq> CHR ''/'') (rev s)) else s)"

type_synonym file_system = "string \<Rightarrow> string option"

definition proc_cmdline :: "int \<Rightarrow> string" where
  "proc_cmdline pid = ''/proc/'' @ print_int pid @ ''/cmdline''"

text \<open>\<open>alive\<close> is whether \<^verbatim>\<open>kill (pid, 0)\<close> succeeds.\<close>

definition check_pidfile :: "file_system \<Rightarrow> (int \<Rightarrow> bool) \<Rightarrow> string \<Rightarrow> bool" where
  "check_pidfile files alive pidfile =
     (case files pidfile of
        None \<Rightarrow> False
      | Some contents \<Rightarrow>
          if length contents \<le> 0 then False
          else (case strtol (c_string contents) of
                  (pid, errno) \<Rightarrow>
                    if pid \<le> 0 \<or> pid > 65536 \<or> errno then False
                    else (case files (proc_cmdline pid) of
                            None \<Rightarrow> False
                          | Some cmdline \<Rightarrow> process_name (c_string cmdline) = ''BarcodeManager'' \<and> alive pid)))"

text \<open>\<open>can_open\<close> and \<open>can_write\<close> are the outcomes of the system calls; opening truncates the file.\<close>

definition write_pidfile :: "bool \<Rightarrow> bool \<Rightarrow> int \<Rightarrow> string \<Rightarrow> file_system \<Rightarrow> bool \<times> file_system" where
  "write_pidfile can_open can_write pid pidfile files =
     (if \<not> can_open then (False, files)
      else if \<not> can_write then (False, files(pidfile := Some []))
      else (True, files(pidfile := Some (take 15 (print_int pid)))))"

section \<open>Configuration\<close>

record key_values =
  kf_value :: "string \<Rightarrow> string \<Rightarrow> string option"
  kf_list :: "string \<Rightarrow> string \<Rightarrow> string list option"

datatype config_error = Load_Failed string | No_Plugins

record config =
  cfg_plugins :: cstr
  cfg_dhcp :: cstr
  cfg_dns :: "string list option"
  cfg_log_level :: cstr
  cfg_log_domains :: cstr

definition no_config :: config where
  "no_config = \<lparr>cfg_plugins = None, cfg_dhcp = None, cfg_dns = None, cfg_log_level = None, cfg_log_domains = None\<rparr>"

definition parse_config_file :: "(string \<Rightarrow> string + key_values) \<Rightarrow> string \<Rightarrow> config_error + config" where
  "parse_config_file load filename =
     (case load filename of
        Inl e \<Rightarrow> Inl (Load_Failed e)
      | Inr kf \<Rightarrow>
          (case kf_value kf ''main'' ''plugins'' of
             None \<Rightarrow> Inl No_Plugins
           | Some plugins \<Rightarrow>
               Inr \<lparr>cfg_plugins = Some plugins, cfg_dhcp = kf_value kf ''main'' ''dhcp'', cfg_dns = kf_list kf ''main'' ''dns'',
                 cfg_log_level = kf_value kf ''logging'' ''level'', cfg_log_domains = kf_value kf ''logging'' ''domains''\<rparr>))"

text \<open>The file that is named on the command line has to be valid; of the two default files the first valid one
  is used, if there is one.\<close>

definition choose_config ::
    "(string \<Rightarrow> string + key_values) \<Rightarrow> (string \<Rightarrow> bool) \<Rightarrow> string \<Rightarrow> string \<Rightarrow> cstr \<Rightarrow> (string option \<times> config) option" where
  "choose_config load exists old new opt_config =
     (case opt_config of
        Some f \<Rightarrow> (case parse_config_file load f of Inl e \<Rightarrow> None | Inr c \<Rightarrow> Some (Some f, c))
      | None \<Rightarrow>
          (let first = (if exists old
                        then (case parse_config_file load old of Inl e \<Rightarrow> None | Inr c \<Rightarrow> Some (Some old, c))
                        else None)
           in case first of
                Some r \<Rightarrow> Some r
              | None \<Rightarrow>
                  (if exists new
                   then (case parse_config_file load new of Inl e \<Rightarrow> Some (None, no_config) | Inr c \<Rightarrow> Some (Some new, c))
                   else Some (None, no_config))))"

text \<open>The state file is loaded, and created when it is missing, but nothing in it is read.\<close>

datatype state_load = State_Loaded | State_Missing | State_Unreadable

datatype mkdir_result = Mkdir_Done | Mkdir_Exists | Mkdir_Failed

definition parse_state_file :: "state_load \<Rightarrow> mkdir_result \<Rightarrow> bool \<Rightarrow> string \<Rightarrow> file_system \<Rightarrow> bool \<times> file_system" where
  "parse_state_file load mkdir can_write filename files =
     (case load of
        State_Loaded \<Rightarrow> (True, files)
      | State_Unreadable \<Rightarrow> (False, files)
      | State_Missing \<Rightarrow>
          if mkdir = Mkdir_Failed then (False, files)
          else if \<not> can_write then (False, files)
          else (True, files(filename := Some [])))"

text \<open>The manager's singleton is created with the name of the state file; its construct property for networking
  has the default \<^verbatim>\<open>TRUE\<close> and is not given.  The disk is as it was.\<close>

definition bm_manager_get :: "cstr \<Rightarrow> (string \<Rightarrow> key_file) \<Rightarrow> manager" where
  "bm_manager_get state_file disk = bm_manager_init\<lparr>mg_state_file := state_file, mg_disk := disk\<rparr>"

section \<open>The main function\<close>

record options =
  opt_no_daemon :: bool
  opt_pid_file :: cstr
  opt_state_file :: cstr
  opt_config :: cstr
  opt_plugins :: cstr
  opt_log_level :: cstr
  opt_log_domains :: cstr

record main_env =
  me_root :: bool
  me_modules :: bool
  me_options :: "options option"
  me_files :: file_system
  me_alive :: "int \<Rightarrow> bool"
  me_load :: "string \<Rightarrow> string + key_values"
  me_exists :: "string \<Rightarrow> bool"
  me_state_load :: state_load
  me_mkdir :: mkdir_result
  me_state_writable :: bool
  me_daemon :: bool
  me_pid :: int
  me_pid_open :: bool
  me_pid_write :: bool
  me_manager :: bool
  me_policy :: bool
  me_service :: bool
  me_quit_early :: bool

datatype main_step =
    SET_LOGGING logging
  | DAEMONIZED
  | WROTE_PIDFILE string
  | GET_MANAGER cstr cstr string
  | NEW_POLICY
  | OWN_SERVICE
  | START_MANAGER
  | MAIN_LOOP
  | DESTROY_POLICY
  | UNREF_MANAGER
  | LOGGING_SHUTDOWN
  | UNLINK string

definition BM_DEFAULT_PID_FILE :: "string \<Rightarrow> string" where
  "BM_DEFAULT_PID_FILE localstatedir = localstatedir @ ''/run/BarcodeManager.pid''"
definition BM_DEFAULT_SYSTEM_CONF_FILE :: "string \<Rightarrow> string" where
  "BM_DEFAULT_SYSTEM_CONF_FILE sysconfdir = sysconfdir @ ''/BarcodeManager/BarcodeManager.conf''"
definition BM_OLD_SYSTEM_CONF_FILE :: "string \<Rightarrow> string" where
  "BM_OLD_SYSTEM_CONF_FILE sysconfdir = sysconfdir @ ''/BarcodeManager/bm-system-settings.conf''"
definition BM_DEFAULT_SYSTEM_STATE_FILE :: "string \<Rightarrow> string" where
  "BM_DEFAULT_SYSTEM_STATE_FILE localstatedir = localstatedir @ ''/lib/BarcodeManager/BarcodeManager.state''"

definition or_else :: "cstr \<Rightarrow> cstr \<Rightarrow> cstr" where
  "or_else a b = (case a of Some x \<Rightarrow> Some x | None \<Rightarrow> b)"

text \<open>From \<^verbatim>\<open>bm_manager_get\<close> to the exit.\<close>

definition run_daemon :: "main_env \<Rightarrow> cstr \<Rightarrow> cstr \<Rightarrow> string \<Rightarrow> string \<Rightarrow> bool \<Rightarrow> main_step list \<times> nat" where
  "run_daemon E config plugins state_file pidfile wrote_pidfile =
     (let cleanup = (\<lambda>steps. steps @ [LOGGING_SHUTDOWN] @ (if wrote_pidfile then [UNLINK pidfile] else []));
          got = [GET_MANAGER config plugins state_file]
      in if \<not> me_manager E then (cleanup got, 1)
         else if \<not> me_policy E then (cleanup (got @ [UNREF_MANAGER]), 1)
         else if \<not> me_service E then (cleanup (got @ [NEW_POLICY, DESTROY_POLICY, UNREF_MANAGER]), 1)
         else (cleanup (got @ [NEW_POLICY, OWN_SERVICE, START_MANAGER] @ (if me_quit_early E then [] else [MAIN_LOOP]) @
                 [DESTROY_POLICY, UNREF_MANAGER]), 0))"

definition bm_main :: "string \<Rightarrow> string \<Rightarrow> main_env \<Rightarrow> main_step list \<times> nat" where
  "bm_main localstatedir sysconfdir E =
     (if \<not> me_root E then ([], 1)
      else if \<not> me_modules E then ([], 1)
      else (case me_options E of
         None \<Rightarrow> ([], 1)
       | Some opts \<Rightarrow>
           (let pidfile = (case opt_pid_file opts of Some f \<Rightarrow> f | None \<Rightarrow> BM_DEFAULT_PID_FILE localstatedir);
                state_file = (case opt_state_file opts of Some f \<Rightarrow> f | None \<Rightarrow> BM_DEFAULT_SYSTEM_STATE_FILE localstatedir)
            in if check_pidfile (me_files E) (me_alive E) pidfile then ([], 1)
               else (case choose_config (me_load E) (me_exists E) (BM_OLD_SYSTEM_CONF_FILE sysconfdir)
                       (BM_DEFAULT_SYSTEM_CONF_FILE sysconfdir) (opt_config opts) of
                  None \<Rightarrow> ([], 1)
                | Some (config, cfg) \<Rightarrow>
                    (case bm_logging_setup (or_else (opt_log_level opts) (cfg_log_level cfg))
                            (or_else (opt_log_domains opts) (cfg_log_domains cfg)) logging_init of
                       (Inl e, st) \<Rightarrow> ([], 1)
                     | (Inr _, st) \<Rightarrow>
                         (let plugins = or_else (opt_plugins opts) (cfg_plugins cfg);
                              files = snd (parse_state_file (me_state_load E) (me_mkdir E) (me_state_writable E) state_file (me_files E));
                              become_daemon = (\<not> opt_no_daemon opts);
                              wrote_pidfile = (become_daemon \<and> me_daemon E \<and>
                                fst (write_pidfile (me_pid_open E) (me_pid_write E) (me_pid E) pidfile files));
                              start = SET_LOGGING st # (if become_daemon then [DAEMONIZED] else []) @
                                (if wrote_pidfile then [WROTE_PIDFILE pidfile] else [])
                          in if become_daemon \<and> \<not> me_daemon E then ([SET_LOGGING st], 1)
                             else (case run_daemon E config plugins state_file pidfile wrote_pidfile of
                                     (steps, code) \<Rightarrow> (start @ steps, code))))))))"

section \<open>Signals\<close>

datatype signo = SIGSEGV | SIGBUS | SIGILL | SIGABRT | SIGFPE | SIGPIPE | SIGINT | SIGTERM | SIGHUP | SIGUSR1 | Other_Signal

record sig_state =
  in_fatal :: nat
  quit_early :: bool
  loop_quit :: bool
  exited :: "nat option"

definition bm_signal_handler :: "signo \<Rightarrow> sig_state \<Rightarrow> sig_state" where
  "bm_signal_handler n st =
     (if in_fatal st > 0 then st
      else if n \<in> {SIGSEGV, SIGBUS, SIGILL, SIGABRT} then st\<lparr>in_fatal := in_fatal st + 1, exited := Some 1\<rparr>
      else if n \<in> {SIGFPE, SIGPIPE} then st\<lparr>loop_quit := True\<rparr>
      else if n \<in> {SIGINT, SIGTERM} then st\<lparr>quit_early := True, loop_quit := True\<rparr>
      else if n \<in> {SIGHUP, SIGUSR1} then st
      else st\<lparr>in_fatal := in_fatal st + 1\<rparr>)"

section \<open>What a start guarantees\<close>

lemma length_print_nat: "n < 10 ^ Suc k \<Longrightarrow> length (print_nat n) \<le> Suc k"
proof (induction k arbitrary: n)
  case 0
  then show ?case
    by (simp add: print_nat.simps [of n])
next
  case (Suc k)
  have "n div 10 < 10 ^ Suc k"
    using Suc.prems by (simp add: less_mult_imp_div_less)
  then show ?case
    using Suc.IH [of "n div 10"] by (simp add: print_nat.simps [of n])
qed

lemma strtol_print:
  assumes "0 \<le> i" "i < 10 ^ 15"
  shows "strtol (c_string (take 15 (print_int i))) = (i, False)" "print_int i \<noteq> []"
proof -
  have "length (print_nat (nat i)) \<le> Suc 14"
    using assms by (intro length_print_nat) (simp add: nat_less_iff)
  moreover have "c_string (print_nat (nat i)) = print_nat (nat i)"
    using print_nat_digits [of "nat i"] unfolding c_string_def takeWhile_eq_all_conv
    by (auto simp: list_all_iff isdigit_def char_code_def)
  ultimately show "strtol (c_string (take 15 (print_int i))) = (i, False)"
    using assms by (simp add: strtol_def Let_def print_int_def foldl_digits_print print_nat_plain)
  show "print_int i \<noteq> []"
    using assms print_nat_first [of "nat i"] by (auto simp: print_int_def)
qed

text \<open>C22: A daemon that has written its PID file keeps a second one from starting, as long as it runs under its name:
  the second one reads back the number that was written and exits before it does anything.  But a
  process number above 65536 is read as invalid, so then the second daemon starts as well.\<close>

theorem pidfile_keeps_second_daemon_away:
  assumes "0 < pid" "pid < 2 ^ 31" "write_pidfile True True pid f files = (True, files')"
    and "files (proc_cmdline pid) = Some cmdline" "f \<noteq> proc_cmdline pid"
    and "process_name (c_string cmdline) = ''BarcodeManager''" "alive pid"
    and "me_files E = files'" "me_alive E = alive" "me_options E = Some opts" "opt_pid_file opts = Some f"
  shows "(check_pidfile files' alive f \<longleftrightarrow> pid \<le> 65536) \<and> (pid \<le> 65536 \<longrightarrow> bm_main localstatedir sysconfdir E = ([], 1))"
proof -
  have files': "files' f = Some (take 15 (print_int pid))" "files' (proc_cmdline pid) = Some cmdline"
    using assms(3,4,5) by (auto simp: write_pidfile_def)
  have "strtol (c_string (take 15 (print_int pid))) = (pid, False)" "print_int pid \<noteq> []"
    using strtol_print [of pid] assms(1,2) by simp_all
  then have "check_pidfile files' alive f \<longleftrightarrow> pid \<le> 65536"
    using assms(1,6,7) by (simp add: check_pidfile_def files')
  then show ?thesis
    using assms(8-) by (simp add: bm_main_def Let_def)
qed

text \<open>Every run ends with exit code 0 or 1, and with 0 exactly when the manager was started, which happens right
  after the daemon got hold of its names.  A PID file that was written is removed at the end, and no other; the policy
  and the manager are released exactly when they were created.\<close>

theorem daemon_steps:
  "case bm_main localstatedir sysconfdir E of (steps, code) \<Rightarrow> code \<in> {0, 1} \<and>
     (code = 0 \<longleftrightarrow> START_MANAGER \<in> set steps) \<and>
     (code = 0 \<longrightarrow> (\<exists>before after. steps = before @ [NEW_POLICY, OWN_SERVICE, START_MANAGER] @ after)) \<and>
     (\<forall>f. WROTE_PIDFILE f \<in> set steps \<longleftrightarrow> UNLINK f \<in> set steps) \<and>
     (NEW_POLICY \<in> set steps \<longleftrightarrow> DESTROY_POLICY \<in> set steps) \<and>
     (UNREF_MANAGER \<in> set steps \<longleftrightarrow> me_manager E \<and> (\<exists>c p s. GET_MANAGER c p s \<in> set steps))"
proof -
  define ok where "ok r = (case r of (steps, code) \<Rightarrow> code \<in> {0, 1 :: nat} \<and>
     (code = 0 \<longleftrightarrow> START_MANAGER \<in> set steps) \<and>
     (code = 0 \<longrightarrow> (\<exists>before after. steps = before @ [NEW_POLICY, OWN_SERVICE, START_MANAGER] @ after)) \<and>
     (\<forall>f. WROTE_PIDFILE f \<in> set steps \<longleftrightarrow> UNLINK f \<in> set steps) \<and>
     (NEW_POLICY \<in> set steps \<longleftrightarrow> DESTROY_POLICY \<in> set steps) \<and>
     (UNREF_MANAGER \<in> set steps \<longleftrightarrow> me_manager E \<and> (\<exists>c p s. GET_MANAGER c p s \<in> set steps)))" for r
  have early: "ok ([], 1)" "ok ([SET_LOGGING st], 1)" for st
    by (simp_all add: ok_def)
  have run: "ok (case run_daemon E c p sf pf w of (steps, code) \<Rightarrow>
      ((SET_LOGGING st # (if d then [DAEMONIZED] else []) @ (if w then [WROTE_PIDFILE pf] else [])) @ steps, code))"
    for c p sf pf w st d
  proof -
    obtain steps code where that: "run_daemon E c p sf pf w = (steps, code)"
      by fastforce
    let ?start = "SET_LOGGING st # (if d then [DAEMONIZED] else []) @ (if w then [WROTE_PIDFILE pf] else [])"
    have "code = 0 \<Longrightarrow> \<exists>after. steps = [GET_MANAGER c p sf] @ [NEW_POLICY, OWN_SERVICE, START_MANAGER] @ after"
      using that by (auto simp: run_daemon_def Let_def split: if_splits)
    then have "code = 0 \<Longrightarrow> \<exists>before after. ?start @ steps = before @ [NEW_POLICY, OWN_SERVICE, START_MANAGER] @ after"
      by (metis append.assoc)
    then show ?thesis
      using that by (auto simp: ok_def run_daemon_def Let_def split: if_splits)
  qed
  have cases: "ok (if b then x else y)" if "ok x" "ok y" for b x y
    using that by simp
  have cases_option: "ok (case z of None \<Rightarrow> x | Some v \<Rightarrow> g v)" if "ok x" "\<And>v. ok (g v)" for z x and g :: "'z \<Rightarrow> _"
    using that by (simp split: option.split)
  have cases_pair: "ok (case z of (u, v) \<Rightarrow> h u v)" if "\<And>u v. ok (h u v)" for z and h :: "'y \<Rightarrow> 'z \<Rightarrow> _"
    using that by (simp split: prod.split)
  have cases_sum: "ok (case z of Inl u \<Rightarrow> h u | Inr v \<Rightarrow> g v)" if "\<And>u. ok (h u)" "\<And>v. ok (g v)"
    for z and h :: "'y \<Rightarrow> _" and g :: "'z \<Rightarrow> _"
    using that by (simp split: sum.split)
  have "ok (bm_main localstatedir sysconfdir E)"
    unfolding bm_main_def Let_def
    by (intro cases cases_option cases_pair cases_sum early run)
  then show ?thesis
    by (simp add: ok_def)
qed

text \<open>Disabling networking is written to the state file, but a daemon that is started again with that file starts
  with networking enabled: nothing reads the value back.\<close>

theorem restart_enables_networking:
  assumes "mg_state_file m = Some f" "mg_disk_writable m" "m' = internal_enable gs False m"
  shows "\<not> mg_net_enabled m' \<and> manager_sleeping m' \<and>
    mg_disk m' f (''main'', ''NetworkingEnabled'') = Some (KF_BOOLEAN False) \<and>
    snd (parse_state_file State_Loaded mkdir can_write f files) = files \<and>
    mg_net_enabled (bm_manager_get (Some f) (mg_disk m')) \<and> \<not> manager_sleeping (bm_manager_get (Some f) (mg_disk m'))"
proof -
  have "mg_disk (do_sleep_wake gs x) = mg_disk x" "mg_sleeping (do_sleep_wake gs x) = mg_sleeping x" for x
    by (simp_all add: do_sleep_wake_def bm_manager_update_state_def emit_def Let_def)
  moreover have "mg_disk (emit y x) = mg_disk x" for y x
    by (simp add: emit_def)
  ultimately show ?thesis
    using assms by (simp add: internal_enable_def write_value_to_state_file_def Let_def manager_sleeping_def
        bm_manager_get_def bm_manager_init_def parse_state_file_def) (simp add: do_sleep_wake_def)
qed

theorem restart_enables_networking_witness:
  "mg_net_enabled (bm_manager_get (Some ''/s'') (mg_disk (internal_enable (\<lambda>d. BM_DEVICE_STATE_UNKNOWN) False
     (bm_manager_init\<lparr>mg_state_file := Some ''/s''\<rparr>))))"
  using restart_enables_networking [OF _ _ refl, of "bm_manager_init\<lparr>mg_state_file := Some ''/s''\<rparr>" "''/s''"
      "\<lambda>d. BM_DEVICE_STATE_UNKNOWN"]
  by (simp add: bm_manager_init_def)

definition sample_opts :: options where
  "sample_opts = \<lparr>opt_no_daemon = False, opt_pid_file = Some ''/p'', opt_state_file = None, opt_config = None, opt_plugins = None,
     opt_log_level = None, opt_log_domains = None\<rparr>"

definition sample_main :: "file_system \<Rightarrow> main_env" where
  "sample_main files = \<lparr>me_root = True, me_modules = True, me_options = Some sample_opts, me_files = files,
     me_alive = (\<lambda>pid. True), me_load = (\<lambda>f. Inl ''no file''), me_exists = (\<lambda>f. False), me_state_load = State_Loaded,
     me_mkdir = Mkdir_Done, me_state_writable = True, me_daemon = True, me_pid = 43, me_pid_open = True, me_pid_write = True,
     me_manager = True, me_policy = True, me_service = True, me_quit_early = False\<rparr>"

theorem daemon_steps_witness:
  "(\<exists>before after. fst (bm_main ''/var'' ''/etc'' (sample_main (\<lambda>f. None))) =
     before @ [NEW_POLICY, OWN_SERVICE, START_MANAGER] @ after) \<and>
   UNLINK ''/p'' \<in> set (fst (bm_main ''/var'' ''/etc'' (sample_main (\<lambda>f. None))))"
proof -
  have "bm_main ''/var'' ''/etc'' (sample_main (\<lambda>f. None)) =
      ([SET_LOGGING logging_init, DAEMONIZED, WROTE_PIDFILE ''/p'', GET_MANAGER None None ''/var/lib/BarcodeManager/BarcodeManager.state'',
        NEW_POLICY, OWN_SERVICE, START_MANAGER, MAIN_LOOP, DESTROY_POLICY, UNREF_MANAGER, LOGGING_SHUTDOWN, UNLINK ''/p''], 0)"
    by (simp add: bm_main_def sample_main_def sample_opts_def check_pidfile_def choose_config_def no_config_def or_else_def
        bm_logging_setup_def given_def run_daemon_def write_pidfile_def BM_DEFAULT_SYSTEM_STATE_FILE_def Let_def)
  then show ?thesis
    using daemon_steps [where localstatedir = "''/var''" and sysconfdir = "''/etc''" and E = "sample_main (\<lambda>f. None)"]
    by (simp del: append.simps)
qed

text \<open>The command line of the process is followed by its arguments, after a NUL.\<close>

theorem pidfile_keeps_second_daemon_away_witness:
  "bm_main ''/var'' ''/etc'' (sample_main (snd (write_pidfile True True 42 ''/p''
     [proc_cmdline 42 \<mapsto> ''/sbin/BarcodeManager'' @ [CHR 0x00] @ ''--x'']))) = ([], 1)"
proof -
  let ?cmd = "''/sbin/BarcodeManager'' @ [CHR 0x00] @ ''--x''"
  let ?files = "[proc_cmdline 42 \<mapsto> ?cmd] :: file_system"
  let ?files' = "snd (write_pidfile True True 42 ''/p'' ?files)"
  have "write_pidfile True True 42 ''/p'' ?files = (True, ?files')"
    by (simp add: write_pidfile_def)
  moreover have "process_name (c_string ?cmd) = ''BarcodeManager''"
    by (simp add: process_name_def c_string_def)
  moreover have "''/p'' \<noteq> proc_cmdline 42"
    by (simp add: proc_cmdline_def)
  ultimately show ?thesis
    using pidfile_keeps_second_daemon_away [of 42 "''/p''" ?files ?files' ?cmd "\<lambda>pid. True" "sample_main ?files'" sample_opts]
    by (simp add: sample_main_def sample_opts_def)
qed

end
