(* ===== verification/Dispatcher.thy ===== *)
theory Dispatcher
  imports Connection Logging "HOL-Library.Multiset"
begin

text \<open>
  The dispatcher of scripts, \<^verbatim>\<open>callouts/bm-dispatcher-action.c\<close>: which files of the script directory qualify, in which
  order they come, and what a request needs for the scripts to be looked up.  A directory is the list of its entries in
  the order \<^verbatim>\<open>g_dir_read_name\<close> returns them, \<open>stat\<close> what the system tells of a path.  The scripts are collected and released; the
  code does not start them yet.
\<close>

section \<open>Which files qualify\<close>

record file_stat =
  st_mode :: u32
  st_uid :: u32

definition S_IFMT :: u32 where "S_IFMT = 0xF000"
definition S_IFREG :: u32 where "S_IFREG = 0x8000"
definition S_ISUID :: u32 where "S_ISUID = 0x800"
definition S_IXUSR :: u32 where "S_IXUSR = 0x40"
definition S_IWGRP :: u32 where "S_IWGRP = 0x10"
definition S_IWOTH :: u32 where "S_IWOTH = 0x2"

datatype permission_error = Not_Regular | Not_Root | Writable_Or_Setuid | Not_Executable

definition bmd_permission_check :: "file_stat \<Rightarrow> permission_error + unit" where
  "bmd_permission_check s =
     (if st_mode s AND S_IFMT \<noteq> S_IFREG then Inl Not_Regular
      else if st_uid s \<noteq> 0 then Inl Not_Root
      else if st_mode s AND (S_IWGRP OR S_IWOTH OR S_ISUID) \<noteq> 0 then Inl Writable_Or_Setuid
      else if st_mode s AND S_IXUSR = 0 then Inl Not_Executable
      else Inr ())"

definition has_suffix :: "string \<Rightarrow> string \<Rightarrow> bool" where
  "has_suffix s suf = (length suf \<le> length s \<and> drop (length s - length suf) s = suf)"

text \<open>\<^verbatim>\<open>g_strrstr\<close> and \<^verbatim>\<open>strrchr\<close>: the tail of the string from the last occurrence on.\<close>

fun strrstr :: "string \<Rightarrow> string \<Rightarrow> string option" where
  "strrstr [] needle = None"
| "strrstr (c # s) needle =
     (case strrstr s needle of
        Some t \<Rightarrow> Some t
      | None \<Rightarrow> if take (length needle) (c # s) = needle then Some (c # s) else None)"

definition strrchr :: "string \<Rightarrow> char \<Rightarrow> string option" where
  "strrchr s c = strrstr s [c]"

definition bad_suffixes :: "string list" where
  "bad_suffixes = [''~'', ''.rpmsave'', ''.rpmorig'', ''.rpmnew'']"

definition bmd_is_valid_filename :: "string \<Rightarrow> bool" where
  "bmd_is_valid_filename file_name =
     (if file_name \<noteq> [] \<and> hd file_name = CHR ''.'' then False
      else if list_ex (has_suffix file_name) bad_suffixes then False
      else (case strrstr file_name ''.dpkg-'' of
              Some tmp \<Rightarrow> if Some tmp = strrchr file_name CHR ''.'' then False else True
            | None \<Rightarrow> True))"

section \<open>Collecting the scripts\<close>

text \<open>\<^verbatim>\<open>g_path_get_basename\<close> of a path that does not end in a separator.\<close>

definition path_basename :: "string \<Rightarrow> string" where
  "path_basename p = rev (takeWhile (\<lambda>c. c \<noteq> CHR ''/'') (rev p))"

definition sort_files :: "cstr \<Rightarrow> cstr \<Rightarrow> int" where
  "sort_files a b =
     (case (a, b) of
        (Some _, None) \<Rightarrow> 1
      | (None, None) \<Rightarrow> 0
      | (None, Some _) \<Rightarrow> -1
      | (Some x, Some y) \<Rightarrow> strcmp (path_basename x) (path_basename y))"

definition build_filename :: "string \<Rightarrow> string \<Rightarrow> string" where
  "build_filename dir n = dir @ ''/'' @ n"

definition collect_script :: "string \<Rightarrow> (string \<Rightarrow> file_stat option) \<Rightarrow> string list \<Rightarrow> string \<Rightarrow> string list" where
  "collect_script dir stat scripts filename =
     (if \<not> bmd_is_valid_filename filename then scripts
      else (case stat (build_filename dir filename) of
              None \<Rightarrow> scripts
            | Some s \<Rightarrow>
                (case bmd_permission_check s of
                   Inl e \<Rightarrow> scripts
                 | Inr _ \<Rightarrow> slist_insert_sorted (\<lambda>a b. sort_files (Some a) (Some b)) (build_filename dir filename) scripts)))"

text \<open>The scripts that would be run, or \<open>None\<close> when the directory cannot be opened.\<close>

definition dispatch_scripts :: "string \<Rightarrow> string list option \<Rightarrow> (string \<Rightarrow> file_stat option) \<Rightarrow> string list option" where
  "dispatch_scripts dir entries stat =
     (case entries of
        None \<Rightarrow> None
      | Some names \<Rightarrow> Some (foldl (collect_script dir stat) [] names))"

section \<open>Requests\<close>

record dispatch_call =
  dc_action :: string
  dc_iface :: cstr
  dc_parent_iface :: cstr
  dc_type :: u32
  dc_uuid :: cstr

text \<open>The quark of the domain of an error.\<close>

fun error_domain :: "bm_error \<Rightarrow> string" where
  "error_domain (BM_SETTING_CONNECTION_ERROR _ _) = ''bm-setting-connection-error-quark''"
| "error_domain (BM_SETTING_BLUETOOTH_ERROR _ _) = ''bm-setting-bluetooth-error-quark''"
| "error_domain (BM_SETTING_ERROR_PROPERTY_NOT_FOUND _) = ''bm-setting-error-quark''"
| "error_domain (BM_SETTING_ERROR_PROPERTY_TYPE_MISMATCH _) = ''bm-setting-error-quark''"
| "error_domain (BM_CONNECTION_ERROR_CONNECTION_SETTING_NOT_FOUND _) = ''bm-connection-error-quark''"

datatype 'a dispatched = Dispatched 'a | Not_Dispatched | Read_Past_Table

definition connection_uuid_of :: "connection \<Rightarrow> cstr" where
  "connection_uuid_of c =
     (case map_option set_priv (bm_connection_get_setting c BM_TYPE_SETTING_CONNECTION) of
        Some (Connection_Priv p) \<Rightarrow> bm_setting_connection_get_uuid p
      | _ \<Rightarrow> None)"

text \<open>\<open>path_type\<close> is the number of the type of object paths.\<close>

definition dispatch_device :: "nat \<Rightarrow> string \<Rightarrow> cstr \<Rightarrow> (string, gvalue) ghash \<Rightarrow> dispatch_call dispatched" where
  "dispatch_device path_type action uuid device_props =
     (case gh_lookup device_props ''interface'' of
        Some (GString iface0) \<Rightarrow>
          (case (case gh_lookup device_props ''ip-interface'' of
                   None \<Rightarrow> Some (iface0, None)
                 | Some (GString ip) \<Rightarrow> Some (ip, iface0)
                 | Some _ \<Rightarrow> None) of
             None \<Rightarrow> Not_Dispatched
           | Some (iface, parent_iface) \<Rightarrow>
               (case (gh_lookup device_props ''type'', gh_lookup device_props ''state'', gh_lookup device_props ''path'') of
                  (Some (GUInt t), Some (GUInt s), Some path) \<Rightarrow>
                    if g_value_type path = T_OTHER path_type
                    then Dispatched \<lparr>dc_action = action, dc_iface = iface, dc_parent_iface = parent_iface, dc_type = t, dc_uuid = uuid\<rparr>
                    else Not_Dispatched
                | _ \<Rightarrow> Not_Dispatched))
      | _ \<Rightarrow> Not_Dispatched)"

definition bm_dispatcher_action ::
    "transform \<Rightarrow> nat \<Rightarrow> string \<Rightarrow> (string, (string, gvalue) ghash) ghash \<Rightarrow> (string, gvalue) ghash \<Rightarrow> dispatch_call dispatched" where
  "bm_dispatcher_action tr path_type action connection_hash device_props =
     (if action = ''hostname''
      then Dispatched \<lparr>dc_action = action, dc_iface = None, dc_parent_iface = None, dc_type = 0, dc_uuid = None\<rparr>
      else (case bm_connection_new_from_hash tr connection_hash of
              Inr c \<Rightarrow> dispatch_device path_type action (connection_uuid_of c) device_props
            | Inl e \<Rightarrow>
                (case bm_connection_lookup_setting_type_by_quark (error_domain e) of
                   None \<Rightarrow> Read_Past_Table
                 | Some _ \<Rightarrow> dispatch_device path_type action None device_props)))"

text \<open>The timeout that ends the idle process: backed off by each request, unless the process is to stay.\<close>

record dispatcher =
  d_quit_timeout :: bool
  d_persist :: bool

definition back_off :: "dispatcher \<Rightarrow> dispatcher" where
  "back_off d = (if \<not> d_persist d then d\<lparr>d_quit_timeout := True\<rparr> else d)"

section \<open>The process\<close>

datatype name_reply = Name_Failed | Name_Reply int

definition DBUS_REQUEST_NAME_REPLY_PRIMARY_OWNER :: int where "DBUS_REQUEST_NAME_REPLY_PRIMARY_OWNER = 1"

definition start_dispatcher_service :: "name_reply \<Rightarrow> bool" where
  "start_dispatcher_service reply =
     (case reply of
        Name_Failed \<Rightarrow> False
      | Name_Reply r \<Rightarrow> if r \<noteq> DBUS_REQUEST_NAME_REPLY_PRIMARY_OWNER then False else True)"

text \<open>The connection to the system bus and the proxy of the bus, whether each could be made.\<close>

definition dispatcher_dbus_init :: "bool \<Rightarrow> bool \<Rightarrow> bool" where
  "dispatcher_dbus_init bus proxy = (if \<not> bus then False else if \<not> proxy then False else True)"

fun dispatcher_log_handler :: "g_log_level \<Rightarrow> syslog_priority" where
  "dispatcher_log_handler G_LOG_LEVEL_ERROR = LOG_CRIT"
| "dispatcher_log_handler G_LOG_LEVEL_CRITICAL = LOG_ERR"
| "dispatcher_log_handler G_LOG_LEVEL_WARNING = LOG_WARNING"
| "dispatcher_log_handler G_LOG_LEVEL_MESSAGE = LOG_NOTICE"
| "dispatcher_log_handler G_LOG_LEVEL_DEBUG = LOG_DEBUG"
| "dispatcher_log_handler G_LOG_LEVEL_INFO = LOG_INFO"
| "dispatcher_log_handler G_LOG_LEVEL_other = LOG_INFO"

text \<open>\<^verbatim>\<open>main\<close> up to the main loop: the exit code of a start that fails, or the dispatcher the loop runs with.\<close>

definition dispatcher_main :: "bool option \<Rightarrow> bool \<Rightarrow> bool \<Rightarrow> name_reply \<Rightarrow> int + dispatcher" where
  "dispatcher_main persist bus proxy reply =
     (case persist of
        None \<Rightarrow> Inl 1
      | Some p \<Rightarrow>
          if \<not> dispatcher_dbus_init bus proxy then Inl (-1)
          else if \<not> start_dispatcher_service reply then Inl (-1)
          else Inr \<lparr>d_quit_timeout = \<not> p, d_persist = p\<rparr>)"

text \<open>One request to the running dispatcher: the timeout is moved, then the scripts of the action are collected.\<close>

definition dispatcher_request ::
    "transform \<Rightarrow> nat \<Rightarrow> string \<Rightarrow> string list option \<Rightarrow> (string \<Rightarrow> file_stat option) \<Rightarrow> dispatcher \<Rightarrow> string \<Rightarrow>
      (string, (string, gvalue) ghash) ghash \<Rightarrow> (string, gvalue) ghash \<Rightarrow> dispatcher \<times> string list option dispatched" where
  "dispatcher_request tr path_type dir entries stat d action connection_hash device_props =
     (back_off d,
      (case bm_dispatcher_action tr path_type action connection_hash device_props of
         Dispatched call \<Rightarrow> Dispatched (dispatch_scripts dir entries stat)
       | Not_Dispatched \<Rightarrow> Not_Dispatched
       | Read_Past_Table \<Rightarrow> Read_Past_Table))"

section \<open>What is selected\<close>

definition qualifies :: "string \<Rightarrow> (string \<Rightarrow> file_stat option) \<Rightarrow> string \<Rightarrow> bool" where
  "qualifies dir stat n \<longleftrightarrow> bmd_is_valid_filename n \<and>
     (\<exists>s. stat (build_filename dir n) = Some s \<and> bmd_permission_check s = Inr ())"

definition script_order :: "string \<Rightarrow> string \<Rightarrow> bool" where
  "script_order a b \<longleftrightarrow> strcmp (path_basename a) (path_basename b) \<le> 0"

lemma insert_sorted_mset: "mset (slist_insert_sorted f x xs) = add_mset x (mset xs)"
  by (induction xs) auto

lemma strcmp_le_0: "strcmp a b \<le> 0 \<longleftrightarrow> a = b \<or> strcmp a b = -1"
  using strcmp_range [of a b] by auto

lemma script_order_trans:
  assumes "script_order a b" "script_order b c"
  shows "script_order a c"
proof (cases "strcmp (path_basename a) (path_basename b) = 0 \<or> strcmp (path_basename b) (path_basename c) = 0")
  case True
  then show ?thesis
    using assms by (auto simp: script_order_def strcmp_eq_0)
next
  case False
  then show ?thesis
    using assms strcmp_trans_lt [of "path_basename a" "path_basename b" "path_basename c"]
    by (simp add: script_order_def strcmp_le_0)
qed

lemma script_order_total: "\<not> script_order a b \<Longrightarrow> script_order b a"
  using strcmp_opposite [of "path_basename a" "path_basename b"] by (auto simp: script_order_def)

lemma compare_scripts: "(0 < sort_files (Some x) (Some y)) = (\<not> script_order x y)"
  by (auto simp: sort_files_def script_order_def)

lemma insert_script_sorted:
  "sorted_wrt script_order xs \<Longrightarrow> sorted_wrt script_order (slist_insert_sorted (\<lambda>a b. sort_files (Some a) (Some b)) x xs)"
  by (induction xs) (auto simp: compare_scripts insert_sorted_set intro: script_order_trans script_order_total)

lemma collect_script_step:
  "collect_script dir stat scripts n =
     (if qualifies dir stat n
      then slist_insert_sorted (\<lambda>a b. sort_files (Some a) (Some b)) (build_filename dir n) scripts else scripts)"
  by (auto simp: collect_script_def qualifies_def split: option.split sum.split)


lemma foldl_collect:
  "sorted_wrt script_order acc \<Longrightarrow>
     sorted_wrt script_order (foldl (collect_script dir stat) acc names) \<and>
     mset (foldl (collect_script dir stat) acc names) =
       mset acc + mset (map (build_filename dir) (filter (qualifies dir stat) names))"
proof (induction names arbitrary: acc)
  case (Cons n names)
  then show ?case
    using Cons.IH [of "collect_script dir stat acc n"]
    by (simp add: collect_script_step insert_script_sorted insert_sorted_mset)
qed simp

section \<open>Properties\<close>


text \<open>a request that carries a connection without a \<open>connection\<close> setting makes the dispatcher search the table of settings for the
  error domain of the connection, which is not in it: the search runs past the end of the table.  The timeout of an idle
  process has been moved by then.\<close>

theorem invalid_connection_reads_past_table:
  assumes "action \<noteq> ''hostname''"
    and "bm_connection_new_from_hash tr connection_hash = Inl (BM_CONNECTION_ERROR_CONNECTION_SETTING_NOT_FOUND m)"
  shows "dispatcher_request tr path_type dir entries stat d action connection_hash device_props = (back_off d, Read_Past_Table)"
  using assms
  by (simp add: dispatcher_request_def bm_dispatcher_action_def bm_connection_lookup_setting_type_by_quark_def default_map_def)

theorem invalid_connection_reads_past_table_witness:
  "\<exists>H. dispatcher_request (\<lambda>_ _. None) 5 ''/etc'' (Some []) (\<lambda>_. None) \<lparr>d_quit_timeout = False, d_persist = False\<rparr> ''up'' H gh_new =
     (\<lparr>d_quit_timeout = True, d_persist = False\<rparr>, Read_Past_Table)"
proof -
  have "bm_connection_new_from_hash (\<lambda>_ _. None) gh_new =
      Inl (BM_CONNECTION_ERROR_CONNECTION_SETTING_NOT_FOUND ''connection setting not found'')"
    by code_simp
  from invalid_connection_reads_past_table [OF _ this, of "''up''" 5 "''/etc''" "Some []" "\<lambda>_. None"
      "\<lparr>d_quit_timeout = False, d_persist = False\<rparr>" gh_new]
  show ?thesis
    by (auto simp: back_off_def)
qed

end
