(* ===== verification/Mobile_Providers.thy ===== *)
theory Mobile_Providers
  imports GHash_Table
begin

text \<open>
  The database of mobile broadband providers, \<^verbatim>\<open>src/utils/nmn-mobile-providers.c\<close> of the applet: the table of country names
  and the parser of the XML database.  GLib's XML tokenizer calls the three handlers with the elements and the text it finds;
  here these calls are the events of a state machine.  Reading a member of a provider or of an access method that is not there follows a
  \<^verbatim>\<open>NULL\<close> pointer.  Reference counts and the tables of localized names, which nothing fills, are left out.
\<close>

section \<open>Country codes\<close>

text \<open>\<^verbatim>\<open>g_strsplit (s, "\t", 2)\<close> of a string that is not empty, and \<^verbatim>\<open>g_strchomp\<close>.\<close>

definition split_at_tab :: "string \<Rightarrow> string \<times> cstr" where
  "split_at_tab s =
     (let key = takeWhile (\<lambda>c. c \<noteq> CHR 0x09) s; rest = dropWhile (\<lambda>c. c \<noteq> CHR 0x09) s
      in (key, if rest = [] then None else Some (tl rest)))"

definition strchomp :: "string \<Rightarrow> string" where
  "strchomp s = rev (dropWhile ascii_isspace (rev s))"

definition country_line :: "string \<Rightarrow> (string, cstr) ghash \<Rightarrow> (string, cstr) ghash" where
  "country_line line table =
     (if line \<noteq> [] \<and> hd line = CHR ''#'' then table
      else (case split_at_tab line of
              (code, name) \<Rightarrow>
                let name1 = map_option strchomp name;
                    name2 = (if name1 = Some ''Britain (UK)'' then Some ''United Kingdom'' else name1)
                in gh_insert code name2 table))"

text \<open>The lines of the file up to its end or the first error; \<open>None\<close> when it cannot be opened.\<close>

definition read_country_codes :: "string list option \<Rightarrow> (string, cstr) ghash option" where
  "read_country_codes channel =
     (case channel of
        None \<Rightarrow> None
      | Some lines \<Rightarrow> Some (foldl (\<lambda>t l. country_line l t) gh_new lines))"

section \<open>Providers and the state of the parser\<close>

datatype method_type = METHOD_TYPE_UNKNOWN | METHOD_TYPE_GSM | METHOD_TYPE_CDMA

record mcc_mnc =
  mcc :: string
  mnc :: string

record access_method =
  am_name :: cstr
  am_username :: cstr
  am_password :: cstr
  am_gateway :: cstr
  am_dns :: "cstr list"
  am_gsm_apn :: cstr
  am_type :: method_type

record mobile_provider =
  mp_name :: cstr
  mp_methods :: "access_method list"
  mp_gsm_mcc_mnc :: "mcc_mnc list"
  mp_cdma_sid :: "u32 list"

datatype parser_state = PARSER_TOPLEVEL | PARSER_COUNTRY | PARSER_PROVIDER | PARSER_METHOD_GSM | PARSER_METHOD_GSM_APN |
  PARSER_METHOD_CDMA | PARSER_ERROR

record mobile_parser =
  country_codes :: "(string, cstr) ghash"
  table :: "(string, mobile_provider list) ghash"
  current_country :: cstr
  current_providers :: "mobile_provider list"
  current_provider :: "mobile_provider option"
  current_method :: "access_method option"
  text_buffer :: cstr
  pstate :: parser_state

definition mcc_mnc_new :: "string \<Rightarrow> string \<Rightarrow> mcc_mnc" where
  "mcc_mnc_new c n = \<lparr>mcc = strstrip c, mnc = strstrip n\<rparr>"

definition access_method_new :: access_method where
  "access_method_new = \<lparr>am_name = None, am_username = None, am_password = None, am_gateway = None, am_dns = [],
     am_gsm_apn = None, am_type = METHOD_TYPE_UNKNOWN\<rparr>"

definition provider_new :: mobile_provider where
  "provider_new = \<lparr>mp_name = None, mp_methods = [], mp_gsm_mcc_mnc = [], mp_cdma_sid = []\<rparr>"

text \<open>The writes through \<^verbatim>\<open>parser->current_provider\<close> and \<^verbatim>\<open>parser->current_method\<close>.\<close>

definition on_provider :: "(mobile_provider \<Rightarrow> mobile_provider) \<Rightarrow> mobile_parser \<Rightarrow> mobile_parser checked" where
  "on_provider f p =
     (case current_provider p of None \<Rightarrow> Null_Dereferenced | Some m \<Rightarrow> Returned (p\<lparr>current_provider := Some (f m)\<rparr>))"

definition on_method :: "(access_method \<Rightarrow> access_method) \<Rightarrow> mobile_parser \<Rightarrow> mobile_parser checked" where
  "on_method f p =
     (case current_method p of None \<Rightarrow> Null_Dereferenced | Some m \<Rightarrow> Returned (p\<lparr>current_method := Some (f m), text_buffer := None\<rparr>))"

section \<open>Opening tags\<close>

type_synonym attributes = "(string \<times> string) list"

fun serviceproviders_attributes :: "attributes \<Rightarrow> mobile_parser \<Rightarrow> mobile_parser" where
  "serviceproviders_attributes [] p = p"
| "serviceproviders_attributes ((n, v) # as) p =
     (if n = ''format'' then
        if v \<noteq> ''2.0'' then p\<lparr>pstate := PARSER_ERROR\<rparr> else serviceproviders_attributes as p
      else serviceproviders_attributes as p)"

fun country_attributes :: "attributes \<Rightarrow> mobile_parser \<Rightarrow> mobile_parser" where
  "country_attributes [] p = p"
| "country_attributes ((n, v) # as) p =
     (if n = ''code'' then
        let country_code = map ascii_toupper v
        in p\<lparr>current_country := (case gh_lookup (country_codes p) country_code of
               Some (Some country) \<Rightarrow> Some country | _ \<Rightarrow> Some country_code),
             pstate := PARSER_COUNTRY\<rparr>
      else country_attributes as p)"

definition parser_toplevel_start :: "mobile_parser \<Rightarrow> string \<Rightarrow> attributes \<Rightarrow> mobile_parser" where
  "parser_toplevel_start p name as =
     (if name = ''serviceproviders'' then serviceproviders_attributes as p
      else if name = ''country'' then country_attributes as p
      else p)"

definition parser_country_start :: "mobile_parser \<Rightarrow> string \<Rightarrow> attributes \<Rightarrow> mobile_parser" where
  "parser_country_start p name as =
     (if name = ''provider'' then p\<lparr>pstate := PARSER_PROVIDER, current_provider := Some provider_new\<rparr> else p)"

definition parser_provider_start :: "mobile_parser \<Rightarrow> string \<Rightarrow> attributes \<Rightarrow> mobile_parser" where
  "parser_provider_start p name as =
     (if name = ''gsm'' then p\<lparr>pstate := PARSER_METHOD_GSM\<rparr>
      else if name = ''cdma'' then p\<lparr>pstate := PARSER_METHOD_CDMA, current_method := Some access_method_new\<rparr>
      else p)"

fun network_id_attributes :: "cstr \<Rightarrow> cstr \<Rightarrow> attributes \<Rightarrow> mobile_parser \<Rightarrow> mobile_parser checked" where
  "network_id_attributes c0 n0 [] p = Returned p"
| "network_id_attributes c0 n0 ((n, v) # as) p =
     (let (c1, n1) = (if n = ''mcc'' then (Some v, n0) else if n = ''mnc'' then (c0, Some v) else (c0, n0))
      in case (c1, n1) of
           (Some (c # cs), Some (d # ds)) \<Rightarrow>
             on_provider (\<lambda>m. m\<lparr>mp_gsm_mcc_mnc := mcc_mnc_new (c # cs) (d # ds) # mp_gsm_mcc_mnc m\<rparr>) p
         | _ \<Rightarrow> network_id_attributes c1 n1 as p)"

fun apn_attributes :: "attributes \<Rightarrow> mobile_parser \<Rightarrow> mobile_parser" where
  "apn_attributes [] p = p"
| "apn_attributes ((n, v) # as) p =
     (if n = ''value'' then
        p\<lparr>pstate := PARSER_METHOD_GSM_APN, current_method := Some (access_method_new\<lparr>am_gsm_apn := Some (strstrip v)\<rparr>)\<rparr>
      else apn_attributes as p)"

definition parser_gsm_start :: "mobile_parser \<Rightarrow> string \<Rightarrow> attributes \<Rightarrow> mobile_parser checked" where
  "parser_gsm_start p name as =
     (if name = ''network-id'' then network_id_attributes None None as p
      else if name = ''apn'' then Returned (apn_attributes as p)
      else Returned p)"

text \<open>\<^verbatim>\<open>strtoul (s, NULL, 10)\<close> with a 64-bit \<^verbatim>\<open>long\<close>; \<open>None\<close> when \<^verbatim>\<open>errno\<close> is set.\<close>

definition strtoul :: "string \<Rightarrow> u64 option" where
  "strtoul s =
     (let t = dropWhile strtoull_space s;
          digits = takeWhile isdigit (if t \<noteq> [] \<and> (hd t = CHR ''-'' \<or> hd t = CHR ''+'') then tl t else t)
      in if foldl (\<lambda>a c. 10 * a + (char_code c - 48)) 0 digits \<ge> 2 ^ 64 then None else Some (strtoull s))"

fun sid_attributes :: "attributes \<Rightarrow> mobile_parser \<Rightarrow> mobile_parser checked" where
  "sid_attributes [] p = Returned p"
| "sid_attributes ((n, v) # as) p =
     (if n = ''value'' then
        (case strtoul v of
           Some tmp \<Rightarrow>
             if tmp > 0 then on_provider (\<lambda>m. m\<lparr>mp_cdma_sid := ucast tmp # mp_cdma_sid m\<rparr>) p else Returned p
         | None \<Rightarrow> Returned p)
      else sid_attributes as p)"

definition parser_cdma_start :: "mobile_parser \<Rightarrow> string \<Rightarrow> attributes \<Rightarrow> mobile_parser checked" where
  "parser_cdma_start p name as = (if name = ''sid'' then sid_attributes as p else Returned p)"

definition mobile_parser_start_element :: "string \<Rightarrow> attributes \<Rightarrow> mobile_parser \<Rightarrow> mobile_parser checked" where
  "mobile_parser_start_element name as p0 =
     (let p = p0\<lparr>text_buffer := None\<rparr>
      in case pstate p of
           PARSER_TOPLEVEL \<Rightarrow> Returned (parser_toplevel_start p name as)
         | PARSER_COUNTRY \<Rightarrow> Returned (parser_country_start p name as)
         | PARSER_PROVIDER \<Rightarrow> Returned (parser_provider_start p name as)
         | PARSER_METHOD_GSM \<Rightarrow> parser_gsm_start p name as
         | PARSER_METHOD_CDMA \<Rightarrow> parser_cdma_start p name as
         | _ \<Rightarrow> Returned p)"

section \<open>Closing tags and text\<close>

text \<open>A \<^verbatim>\<open>NULL\<close> country would be a key that the hash function follows.\<close>

definition parser_country_end :: "mobile_parser \<Rightarrow> string \<Rightarrow> mobile_parser checked" where
  "parser_country_end p name =
     (if name = ''country'' then
        (case current_country p of
           None \<Rightarrow> Null_Dereferenced
         | Some c \<Rightarrow> Returned (p\<lparr>table := gh_insert c (current_providers p) (table p), current_country := None,
             current_providers := [], text_buffer := None, pstate := PARSER_TOPLEVEL\<rparr>))
      else Returned p)"

definition parser_provider_end :: "mobile_parser \<Rightarrow> string \<Rightarrow> mobile_parser checked" where
  "parser_provider_end p name =
     (if name = ''name'' then
        (case current_provider p of
           None \<Rightarrow> Null_Dereferenced
         | Some m \<Rightarrow> if mp_name m = None
                     then Returned (p\<lparr>current_provider := Some (m\<lparr>mp_name := text_buffer p\<rparr>), text_buffer := None\<rparr>)
                     else Returned p)
      else if name = ''provider'' then
        (case current_provider p of
           None \<Rightarrow> Null_Dereferenced
         | Some m \<Rightarrow>
             let m1 = m\<lparr>mp_methods := rev (mp_methods m), mp_gsm_mcc_mnc := rev (mp_gsm_mcc_mnc m), mp_cdma_sid := rev (mp_cdma_sid m)\<rparr>
             in Returned (p\<lparr>current_providers := m1 # current_providers p, current_provider := None, text_buffer := None,
                  pstate := PARSER_COUNTRY\<rparr>))
      else Returned p)"

definition parser_gsm_end :: "mobile_parser \<Rightarrow> string \<Rightarrow> mobile_parser" where
  "parser_gsm_end p name = (if name = ''gsm'' then p\<lparr>text_buffer := None, pstate := PARSER_PROVIDER\<rparr> else p)"

text \<open>The method is complete: it goes to the front of the provider's methods.\<close>

definition finish_method ::
    "method_type \<Rightarrow> cstr \<Rightarrow> parser_state \<Rightarrow> access_method \<Rightarrow> mobile_provider \<Rightarrow> mobile_parser \<Rightarrow> mobile_parser" where
  "finish_method ty default_name state m pr p =
     (let m1 = m\<lparr>am_type := ty, am_dns := rev (am_dns m), am_name := (if am_name m = None then default_name else am_name m)\<rparr>
      in p\<lparr>current_provider := Some (pr\<lparr>mp_methods := m1 # mp_methods pr\<rparr>), current_method := None, text_buffer := None,
           pstate := state\<rparr>)"

definition parser_gsm_apn_end :: "mobile_parser \<Rightarrow> string \<Rightarrow> mobile_parser checked" where
  "parser_gsm_apn_end p name =
     (if name = ''name'' then
        (case current_method p of
           None \<Rightarrow> Null_Dereferenced
         | Some m \<Rightarrow> if am_name m = None then on_method (\<lambda>m. m\<lparr>am_name := text_buffer p\<rparr>) p else Returned p)
      else if name = ''username'' then on_method (\<lambda>m. m\<lparr>am_username := text_buffer p\<rparr>) p
      else if name = ''password'' then on_method (\<lambda>m. m\<lparr>am_password := text_buffer p\<rparr>) p
      else if name = ''dns'' then on_method (\<lambda>m. m\<lparr>am_dns := text_buffer p # am_dns m\<rparr>) p
      else if name = ''gateway'' then on_method (\<lambda>m. m\<lparr>am_gateway := text_buffer p\<rparr>) p
      else if name = ''apn'' then
        (case (current_method p, current_provider p) of
           (Some m, Some pr) \<Rightarrow> Returned (finish_method METHOD_TYPE_GSM (Some ''Default'') PARSER_METHOD_GSM m pr p)
         | _ \<Rightarrow> Null_Dereferenced)
      else Returned p)"

definition parser_cdma_end :: "mobile_parser \<Rightarrow> string \<Rightarrow> mobile_parser checked" where
  "parser_cdma_end p name =
     (if name = ''username'' then on_method (\<lambda>m. m\<lparr>am_username := text_buffer p\<rparr>) p
      else if name = ''password'' then on_method (\<lambda>m. m\<lparr>am_password := text_buffer p\<rparr>) p
      else if name = ''dns'' then on_method (\<lambda>m. m\<lparr>am_dns := text_buffer p # am_dns m\<rparr>) p
      else if name = ''gateway'' then on_method (\<lambda>m. m\<lparr>am_gateway := text_buffer p\<rparr>) p
      else if name = ''cdma'' then
        (case (current_method p, current_provider p) of
           (Some m, Some pr) \<Rightarrow> Returned (finish_method METHOD_TYPE_CDMA (mp_name pr) PARSER_PROVIDER m pr p)
         | _ \<Rightarrow> Null_Dereferenced)
      else Returned p)"

definition mobile_parser_end_element :: "string \<Rightarrow> mobile_parser \<Rightarrow> mobile_parser checked" where
  "mobile_parser_end_element name p =
     (case pstate p of
        PARSER_COUNTRY \<Rightarrow> parser_country_end p name
      | PARSER_PROVIDER \<Rightarrow> parser_provider_end p name
      | PARSER_METHOD_GSM \<Rightarrow> Returned (parser_gsm_end p name)
      | PARSER_METHOD_GSM_APN \<Rightarrow> parser_gsm_apn_end p name
      | PARSER_METHOD_CDMA \<Rightarrow> parser_cdma_end p name
      | _ \<Rightarrow> Returned p)"

definition mobile_parser_characters :: "string \<Rightarrow> mobile_parser \<Rightarrow> mobile_parser" where
  "mobile_parser_characters txt p = p\<lparr>text_buffer := Some txt\<rparr>"

section \<open>Parsing a file\<close>

datatype markup_event = Start_Tag string attributes | End_Tag string | Characters string

fun markup_step :: "markup_event \<Rightarrow> mobile_parser \<Rightarrow> mobile_parser checked" where
  "markup_step (Start_Tag n as) p = mobile_parser_start_element n as p"
| "markup_step (End_Tag n) p = mobile_parser_end_element n p"
| "markup_step (Characters t) p = Returned (mobile_parser_characters t p)"

fun markup_run :: "markup_event list \<Rightarrow> mobile_parser \<Rightarrow> mobile_parser checked" where
  "markup_run [] p = Returned p"
| "markup_run (e # es) p =
     (case markup_step e p of
        Returned q \<Rightarrow> markup_run es q | Assertion_Violated \<Rightarrow> Assertion_Violated | Null_Dereferenced \<Rightarrow> Null_Dereferenced)"

text \<open>
  The tokenizer is GLib's: \<open>tok\<close> takes its state and the next block of the file, and returns the events it reports and its next
  state, or \<open>None\<close> in its place on a syntax error, after which reading stops.
\<close>

fun parse_blocks ::
    "('l \<Rightarrow> string \<Rightarrow> markup_event list \<times> 'l option) \<Rightarrow> 'l \<Rightarrow> string list \<Rightarrow> mobile_parser \<Rightarrow> mobile_parser checked" where
  "parse_blocks tok l [] p = Returned p"
| "parse_blocks tok l (b # bs) p =
     (case tok l b of
        (es, l') \<Rightarrow>
          (case markup_run es p of
             Returned q \<Rightarrow> (case l' of Some l1 \<Rightarrow> parse_blocks tok l1 bs q | None \<Rightarrow> Returned q)
           | bad \<Rightarrow> bad))"

definition mobile_parser_init :: "(string, cstr) ghash \<Rightarrow> mobile_parser" where
  "mobile_parser_init codes =
     \<lparr>country_codes = codes, table = gh_new, current_country = None, current_providers = [], current_provider = None,
      current_method = None, text_buffer = None, pstate = PARSER_TOPLEVEL\<rparr>"

text \<open>
  The table of providers and the table of codes; \<open>None\<close> stands for a table that was never made.  What is still pending at the end of the
  file is released.
\<close>

definition nmn_mobile_providers_parse ::
    "('l \<Rightarrow> string \<Rightarrow> markup_event list \<times> 'l option) \<Rightarrow> 'l \<Rightarrow> string list option \<Rightarrow> string list option \<Rightarrow>
      ((string, mobile_provider list) ghash option \<times> (string, cstr) ghash option) checked" where
  "nmn_mobile_providers_parse tok l iso_file blocks =
     (case read_country_codes iso_file of
        None \<Rightarrow> Returned (None, None)
      | Some codes \<Rightarrow>
          (case blocks of
             None \<Rightarrow> Returned (None, Some codes)
           | Some bs \<Rightarrow>
               (case parse_blocks tok l bs (mobile_parser_init codes) of
                  Returned p \<Rightarrow> Returned (Some (table p), Some codes)
                | Assertion_Violated \<Rightarrow> Assertion_Violated
                | Null_Dereferenced \<Rightarrow> Null_Dereferenced)))"

section \<open>No NULL pointer is followed\<close>

text \<open>What each state of the parser promises of its members.\<close>

definition parser_typed :: "mobile_parser \<Rightarrow> bool" where
  "parser_typed p \<longleftrightarrow>
     (pstate p \<notin> {PARSER_TOPLEVEL, PARSER_ERROR} \<longrightarrow> current_country p \<noteq> None) \<and>
     (pstate p \<in> {PARSER_PROVIDER, PARSER_METHOD_GSM, PARSER_METHOD_GSM_APN, PARSER_METHOD_CDMA} \<longrightarrow> current_provider p \<noteq> None) \<and>
     (pstate p \<in> {PARSER_METHOD_GSM_APN, PARSER_METHOD_CDMA} \<longrightarrow> current_method p \<noteq> None)"

definition well_typed :: "mobile_parser checked \<Rightarrow> bool" where
  "well_typed r = (case r of Returned q \<Rightarrow> parser_typed q | _ \<Rightarrow> False)"

lemma well_typed_iff: "well_typed r \<longleftrightarrow> (\<exists>q. r = Returned q \<and> parser_typed q)"
  by (cases r) (auto simp: well_typed_def)

text \<open>What the attributes of a tag can change.\<close>

lemma serviceproviders_attributes_cases:
  "serviceproviders_attributes as p \<in> {p, p\<lparr>pstate := PARSER_ERROR\<rparr>}"
  by (induction as p rule: serviceproviders_attributes.induct) auto

lemma country_attributes_cases:
  "country_attributes as p = p \<or> (\<exists>c. country_attributes as p = p\<lparr>current_country := Some c, pstate := PARSER_COUNTRY\<rparr>)"
  by (induction as p rule: country_attributes.induct) (auto simp: Let_def split: option.split)

lemma apn_attributes_cases:
  "apn_attributes as p = p \<or> (\<exists>m. apn_attributes as p = p\<lparr>pstate := PARSER_METHOD_GSM_APN, current_method := Some m\<rparr>)"
  by (induction as p rule: apn_attributes.induct) auto

lemma network_id_attributes_cases:
  "network_id_attributes c n as p = Returned p \<or> (\<exists>f. network_id_attributes c n as p = on_provider f p)"
  by (induction c n as p rule: network_id_attributes.induct) (auto simp: Let_def split: option.split list.split)

lemma sid_attributes_cases:
  "sid_attributes as p = Returned p \<or> (\<exists>f. sid_attributes as p = on_provider f p)"
  by (induction as p rule: sid_attributes.induct) (auto split: option.split)

lemmas attribute_cases = serviceproviders_attributes_cases country_attributes_cases apn_attributes_cases
  network_id_attributes_cases sid_attributes_cases

lemma on_provider_typed: "parser_typed p \<Longrightarrow> current_provider p \<noteq> None \<Longrightarrow> well_typed (on_provider f p)"
  by (auto simp: well_typed_def parser_typed_def on_provider_def)

lemma start_typed:
  assumes "parser_typed p"
  shows "well_typed (mobile_parser_start_element n as p)"
proof -
  define q where "q = p\<lparr>text_buffer := None\<rparr>"
  have q: "parser_typed q"
    using assms by (simp add: parser_typed_def q_def)
  have "pstate q = PARSER_TOPLEVEL \<Longrightarrow> parser_typed (parser_toplevel_start q n as)"
    using serviceproviders_attributes_cases [of as q] country_attributes_cases [of as q]
    by (auto simp: parser_toplevel_start_def parser_typed_def)
  moreover have "pstate q = PARSER_COUNTRY \<Longrightarrow> parser_typed (parser_country_start q n as)"
    using q by (simp add: parser_country_start_def parser_typed_def)
  moreover have "pstate q = PARSER_PROVIDER \<Longrightarrow> parser_typed (parser_provider_start q n as)"
    using q by (simp add: parser_provider_start_def parser_typed_def)
  moreover have "well_typed (parser_gsm_start q n as)" if g: "pstate q = PARSER_METHOD_GSM"
  proof -
    have "current_provider q \<noteq> None" "parser_typed (apn_attributes as q)"
      using q g apn_attributes_cases [of as q] by (auto simp: parser_typed_def)
    then show ?thesis
      using network_id_attributes_cases [of None None as q] on_provider_typed [OF q]
      by (auto simp: parser_gsm_start_def well_typed_def q)
  qed
  moreover have "well_typed (parser_cdma_start q n as)" if g: "pstate q = PARSER_METHOD_CDMA"
  proof -
    have "current_provider q \<noteq> None"
      using q g by (auto simp: parser_typed_def)
    then show ?thesis
      using sid_attributes_cases [of as q] on_provider_typed [OF q] by (auto simp: parser_cdma_start_def well_typed_def q)
  qed
  ultimately show ?thesis
    by (auto simp: mobile_parser_start_element_def Let_def q_def [symmetric] well_typed_def q split: parser_state.split)
qed

lemma on_method_typed: "parser_typed p \<Longrightarrow> current_method p = Some m \<Longrightarrow> well_typed (on_method f p)"
  by (simp add: well_typed_def parser_typed_def on_method_def)

lemma finish_typed:
  "current_country p = Some c \<Longrightarrow> state \<in> {PARSER_METHOD_GSM, PARSER_PROVIDER} \<Longrightarrow> parser_typed (finish_method ty d state m pr p)"
  by (auto simp: finish_method_def Let_def parser_typed_def)

lemma method_end_typed:
  assumes "parser_typed p" "current_country p = Some c" "current_provider p = Some pr" "current_method p = Some m"
  shows "well_typed (parser_gsm_apn_end p n)" "well_typed (parser_cdma_end p n)"
  using on_method_typed [OF assms(1,4)] assms finish_typed [OF assms(2)]
  by (simp_all add: parser_gsm_apn_end_def parser_cdma_end_def) (simp_all add: well_typed_def)

lemma container_end_typed:
  assumes "parser_typed p" "current_country p = Some c"
  shows "well_typed (parser_country_end p n)"
    and "current_provider p = Some pr \<Longrightarrow> well_typed (parser_provider_end p n)"
    and "current_provider p = Some pr \<Longrightarrow> parser_typed (parser_gsm_end p n)"
  using assms
  by (simp_all add: parser_country_end_def parser_provider_end_def parser_gsm_end_def well_typed_def parser_typed_def Let_def)

lemma end_typed:
  assumes "parser_typed p"
  shows "well_typed (mobile_parser_end_element n p)"
proof (cases "pstate p \<in> {PARSER_TOPLEVEL, PARSER_ERROR}")
  case True
  then show ?thesis
    using assms by (auto simp: mobile_parser_end_element_def well_typed_def)
next
  case False
  then obtain c where c: "current_country p = Some c"
    using assms by (auto simp: parser_typed_def)
  show ?thesis
  proof (cases "pstate p")
    case PARSER_COUNTRY
    then show ?thesis
      using container_end_typed(1) [OF assms c] by (simp add: mobile_parser_end_element_def)
  next
    case PARSER_PROVIDER
    then show ?thesis
      using assms container_end_typed(2) [OF assms c] by (auto simp: mobile_parser_end_element_def parser_typed_def)
  next
    case PARSER_METHOD_GSM
    then show ?thesis
      using assms container_end_typed(3) [OF assms c] by (auto simp: mobile_parser_end_element_def parser_typed_def well_typed_def)
  next
    case PARSER_METHOD_GSM_APN
    then show ?thesis
      using assms method_end_typed [OF assms c] by (auto simp: mobile_parser_end_element_def parser_typed_def)
  next
    case PARSER_METHOD_CDMA
    then show ?thesis
      using assms method_end_typed [OF assms c] by (auto simp: mobile_parser_end_element_def parser_typed_def)
  qed (use False in simp_all)
qed

lemma step_typed: "parser_typed p \<Longrightarrow> well_typed (markup_step e p)"
proof (cases e)
  case (Characters t)
  then show "parser_typed p \<Longrightarrow> ?thesis"
    by (simp add: well_typed_def mobile_parser_characters_def parser_typed_def)
qed (simp_all add: start_typed end_typed)

lemma run_typed: "parser_typed p \<Longrightarrow> well_typed (markup_run es p)"
proof (induction es arbitrary: p)
  case (Cons e es)
  then show ?case
    using step_typed [of p e] by (auto simp: well_typed_iff)
qed (simp add: well_typed_def)

lemma blocks_typed: "parser_typed p \<Longrightarrow> well_typed (parse_blocks tok l bs p)"
proof (induction bs arbitrary: l p)
  case (Cons b bs)
  obtain es l' where e: "tok l b = (es, l')"
    by fastforce
  obtain q where "markup_run es p = Returned q" "parser_typed q"
    using run_typed [OF Cons.prems] by (auto simp: well_typed_iff)
  then show ?case
    using Cons.IH e by (auto simp: well_typed_def split: option.split)
qed (simp add: well_typed_def)

section \<open>What a document means\<close>

text \<open>
  The elements of the database as a tree.  A field of a method is an element with text, empty or not.
\<close>

datatype field = Name cstr | Username cstr | Password cstr | Dns cstr | Gateway cstr

datatype gsm_item = Network_Id string string | Apn string "field list"

datatype cdma_item = Sid string | Cdma_Field field

datatype provider_item = Provider_Name cstr | Gsm "gsm_item list" | Cdma "cdma_item list"

type_synonym provider_document = "(string \<times> provider_item list list) list"

definition element :: "string \<Rightarrow> string \<Rightarrow> attributes \<Rightarrow> markup_event list \<Rightarrow> markup_event list" where
  "element ws n as body = Characters ws # Start_Tag n as # body @ [End_Tag n]"

definition text_element :: "string \<Rightarrow> string \<Rightarrow> cstr \<Rightarrow> markup_event list" where
  "text_element ws n t = element ws n [] (case t of None \<Rightarrow> [] | Some x \<Rightarrow> [Characters x])"

fun field_events :: "string \<Rightarrow> field \<Rightarrow> markup_event list" where
  "field_events ws (Name t) = text_element ws ''name'' t"
| "field_events ws (Username t) = text_element ws ''username'' t"
| "field_events ws (Password t) = text_element ws ''password'' t"
| "field_events ws (Dns t) = text_element ws ''dns'' t"
| "field_events ws (Gateway t) = text_element ws ''gateway'' t"

text \<open>The white space \<open>ws\<close> stands before every tag.\<close>

definition container :: "string \<Rightarrow> string \<Rightarrow> attributes \<Rightarrow> markup_event list \<Rightarrow> markup_event list" where
  "container ws n as body = element ws n as (body @ [Characters ws])"

fun gsm_item_events :: "string \<Rightarrow> gsm_item \<Rightarrow> markup_event list" where
  "gsm_item_events ws (Network_Id c n) = element ws ''network-id'' [(''mcc'', c), (''mnc'', n)] []"
| "gsm_item_events ws (Apn v fs) = container ws ''apn'' [(''value'', v)] (concat (map (field_events ws) fs))"

fun cdma_item_events :: "string \<Rightarrow> cdma_item \<Rightarrow> markup_event list" where
  "cdma_item_events ws (Sid v) = element ws ''sid'' [(''value'', v)] []"
| "cdma_item_events ws (Cdma_Field f) = field_events ws f"

fun provider_item_events :: "string \<Rightarrow> provider_item \<Rightarrow> markup_event list" where
  "provider_item_events ws (Provider_Name t) = text_element ws ''name'' t"
| "provider_item_events ws (Gsm gs) = container ws ''gsm'' [] (concat (map (gsm_item_events ws) gs))"
| "provider_item_events ws (Cdma cs) = container ws ''cdma'' [] (concat (map (cdma_item_events ws) cs))"

definition provider_events :: "string \<Rightarrow> provider_item list \<Rightarrow> markup_event list" where
  "provider_events ws items = container ws ''provider'' [] (concat (map (provider_item_events ws) items))"

definition country_events :: "string \<Rightarrow> string \<times> provider_item list list \<Rightarrow> markup_event list" where
  "country_events ws c = container ws ''country'' [(''code'', fst c)] (concat (map (provider_events ws) (snd c)))"

definition document_events :: "string \<Rightarrow> provider_document \<Rightarrow> markup_event list" where
  "document_events ws doc = container ws ''serviceproviders'' [(''format'', ''2.0'')] (concat (map (country_events ws) doc))"

text \<open>The meaning of each part, read off the tree.\<close>

definition last_of :: "cstr list \<Rightarrow> cstr" where
  "last_of ts = (if ts = [] then None else last ts)"

definition first_of :: "cstr list \<Rightarrow> cstr" where
  "first_of ts = (case filter (\<lambda>t. t \<noteq> None) ts of [] \<Rightarrow> None | t # _ \<Rightarrow> t)"

fun names :: "field list \<Rightarrow> cstr list" where
  "names [] = []" | "names (Name t # fs) = t # names fs" | "names (_ # fs) = names fs"

fun usernames :: "field list \<Rightarrow> cstr list" where
  "usernames [] = []" | "usernames (Username t # fs) = t # usernames fs" | "usernames (_ # fs) = usernames fs"

fun passwords :: "field list \<Rightarrow> cstr list" where
  "passwords [] = []" | "passwords (Password t # fs) = t # passwords fs" | "passwords (_ # fs) = passwords fs"

fun gateways :: "field list \<Rightarrow> cstr list" where
  "gateways [] = []" | "gateways (Gateway t # fs) = t # gateways fs" | "gateways (_ # fs) = gateways fs"

fun dnss :: "field list \<Rightarrow> cstr list" where
  "dnss [] = []" | "dnss (Dns t # fs) = t # dnss fs" | "dnss (_ # fs) = dnss fs"

definition or_default :: "cstr \<Rightarrow> cstr \<Rightarrow> cstr" where
  "or_default t d = (if t = None then d else t)"

definition method_of :: "method_type \<Rightarrow> cstr \<Rightarrow> cstr \<Rightarrow> field list \<Rightarrow> access_method" where
  "method_of ty apn name fs =
     \<lparr>am_name = name, am_username = last_of (usernames fs), am_password = last_of (passwords fs),
      am_gateway = last_of (gateways fs), am_dns = dnss fs, am_gsm_apn = apn, am_type = ty\<rparr>"

fun gsm_methods :: "gsm_item list \<Rightarrow> access_method list" where
  "gsm_methods [] = []"
| "gsm_methods (Network_Id c n # gs) = gsm_methods gs"
| "gsm_methods (Apn v fs # gs) =
     method_of METHOD_TYPE_GSM (Some (strstrip v)) (or_default (first_of (names fs)) (Some ''Default'')) fs # gsm_methods gs"

fun gsm_networks :: "gsm_item list \<Rightarrow> mcc_mnc list" where
  "gsm_networks [] = []"
| "gsm_networks (Network_Id c n # gs) = (if c \<noteq> [] \<and> n \<noteq> [] then [mcc_mnc_new c n] else []) @ gsm_networks gs"
| "gsm_networks (Apn v fs # gs) = gsm_networks gs"

fun cdma_fields :: "cdma_item list \<Rightarrow> field list" where
  "cdma_fields [] = []" | "cdma_fields (Sid v # cs) = cdma_fields cs" | "cdma_fields (Cdma_Field f # cs) = f # cdma_fields cs"

fun cdma_sids :: "cdma_item list \<Rightarrow> u32 list" where
  "cdma_sids [] = []"
| "cdma_sids (Sid v # cs) = (case strtoul v of Some n \<Rightarrow> if n > 0 then [ucast n] else [] | None \<Rightarrow> []) @ cdma_sids cs"
| "cdma_sids (Cdma_Field f # cs) = cdma_sids cs"

text \<open>A CDMA method is named as the provider is so far: its own name elements count for nothing.\<close>

fun provider_methods :: "cstr \<Rightarrow> provider_item list \<Rightarrow> access_method list" where
  "provider_methods name [] = []"
| "provider_methods name (Provider_Name t # items) = provider_methods (or_default name t) items"
| "provider_methods name (Gsm gs # items) = gsm_methods gs @ provider_methods name items"
| "provider_methods name (Cdma cs # items) = method_of METHOD_TYPE_CDMA None name (cdma_fields cs) # provider_methods name items"

fun provider_names :: "provider_item list \<Rightarrow> cstr list" where
  "provider_names [] = []"
| "provider_names (Provider_Name t # items) = t # provider_names items"
| "provider_names (_ # items) = provider_names items"

fun provider_networks :: "provider_item list \<Rightarrow> mcc_mnc list" where
  "provider_networks [] = []"
| "provider_networks (Gsm gs # items) = gsm_networks gs @ provider_networks items"
| "provider_networks (_ # items) = provider_networks items"

fun provider_sids :: "provider_item list \<Rightarrow> u32 list" where
  "provider_sids [] = []"
| "provider_sids (Cdma cs # items) = cdma_sids cs @ provider_sids items"
| "provider_sids (_ # items) = provider_sids items"

definition provider_of :: "provider_item list \<Rightarrow> mobile_provider" where
  "provider_of items =
     \<lparr>mp_name = first_of (provider_names items), mp_methods = provider_methods None items,
      mp_gsm_mcc_mnc = provider_networks items, mp_cdma_sid = provider_sids items\<rparr>"

definition country_name :: "(string, cstr) ghash \<Rightarrow> string \<Rightarrow> string" where
  "country_name codes code =
     (case gh_lookup codes (map ascii_toupper code) of Some (Some c) \<Rightarrow> c | _ \<Rightarrow> map ascii_toupper code)"

definition table_of :: "(string, cstr) ghash \<Rightarrow> provider_document \<Rightarrow> (string, mobile_provider list) ghash" where
  "table_of codes doc = foldl (\<lambda>t (c, ps). gh_insert (country_name codes c) (rev (map provider_of ps)) t) gh_new doc"

section \<open>The parser computes the meaning\<close>

lemma markup_run_append:
  "markup_run (as @ bs) p =
     (case markup_run as p of
        Returned q \<Rightarrow> markup_run bs q | Assertion_Violated \<Rightarrow> Assertion_Violated | Null_Dereferenced \<Rightarrow> Null_Dereferenced)"
  by (induction as arbitrary: p) (auto split: checked.splits)

lemma checked_eta [simp]:
  "(case r of Returned q \<Rightarrow> Returned q | Assertion_Violated \<Rightarrow> Assertion_Violated | Null_Dereferenced \<Rightarrow> Null_Dereferenced) = r"
  "(case r of Returned q \<Rightarrow> markup_run [] q | Assertion_Violated \<Rightarrow> Assertion_Violated | Null_Dereferenced \<Rightarrow> Null_Dereferenced) = r"
  by (cases r; simp)+

lemma start_ignores_text [simp]:
  "mobile_parser_start_element n as (p\<lparr>text_buffer := t\<rparr>) = mobile_parser_start_element n as p"
  by (simp add: mobile_parser_start_element_def)

lemma run_element:
  "mobile_parser_start_element n as p = Returned p1 \<Longrightarrow> markup_run body p1 = Returned p2 \<Longrightarrow>
     markup_run (element ws n as body) p = mobile_parser_end_element n p2"
  by (simp add: element_def mobile_parser_characters_def markup_run_append)

lemma run_container:
  assumes "mobile_parser_start_element n as p = Returned p1" "markup_run body p1 = Returned p2"
  shows "markup_run (container ws n as body) p = mobile_parser_end_element n (p2\<lparr>text_buffer := Some ws\<rparr>)"
proof -
  have "markup_run (body @ [Characters ws]) p1 = Returned (p2\<lparr>text_buffer := Some ws\<rparr>)"
    using assms(2) by (simp add: markup_run_append mobile_parser_characters_def)
  then show ?thesis
    unfolding container_def by (rule run_element [OF assms(1)])
qed

lemma run_text_element:
  "mobile_parser_start_element n [] p = Returned (p\<lparr>text_buffer := None\<rparr>) \<Longrightarrow>
     markup_run (text_element ws n t) p = mobile_parser_end_element n (p\<lparr>text_buffer := t\<rparr>)"
  by (cases t) (simp_all add: text_element_def element_def mobile_parser_characters_def)

text \<open>What a step inside a provider leaves alone.\<close>

definition frame :: "mobile_parser \<Rightarrow> mobile_parser \<Rightarrow> bool" where
  "frame p q \<longleftrightarrow> country_codes q = country_codes p \<and> table q = table p \<and> current_country q = current_country p \<and>
     current_providers q = current_providers p"

lemma frame_refl [simp]: "frame p p"
  by (simp add: frame_def)

lemma frame_trans: "frame p q \<Longrightarrow> frame q r \<Longrightarrow> frame p r"
  by (simp add: frame_def)

text \<open>Elements in a row, with an invariant that follows a fold over them.\<close>

lemma run_row:
  assumes "\<And>x p a. R p a \<Longrightarrow> \<exists>q. markup_run (ev x) p = Returned q \<and> R q (f x a)"
    and "R p a"
  shows "\<exists>q. markup_run (concat (map ev xs)) p = Returned q \<and> R q (fold f xs a)"
  using assms(2)
proof (induction xs arbitrary: p a)
  case (Cons x xs)
  obtain q where q: "markup_run (ev x) p = Returned q" "R q (f x a)"
    using assms(1) [OF Cons.prems] by blast
  obtain r where "markup_run (concat (map ev xs)) q = Returned r" "R r (fold f xs (f x a))"
    using Cons.IH [OF q(2)] by blast
  then show ?case
    using q by (auto simp: markup_run_append)
qed simp

lemma run_row_frame:
  assumes "\<And>x p a. R p a \<Longrightarrow> \<exists>q. markup_run (ev x) p = Returned q \<and> R q (f x a) \<and> frame p q"
    and "R p a"
  shows "\<exists>q. markup_run (concat (map ev xs)) p = Returned q \<and> R q (fold f xs a) \<and> frame p q"
  using run_row [where R = "\<lambda>q a. R q a \<and> frame p q" and p = p and a = a and ev = ev and f = f] assms
  by (meson frame_refl frame_trans)

subsection \<open>Methods\<close>

fun add_field :: "field \<Rightarrow> access_method \<Rightarrow> access_method" where
  "add_field (Name t) m = m\<lparr>am_name := or_default (am_name m) t\<rparr>"
| "add_field (Username t) m = m\<lparr>am_username := t\<rparr>"
| "add_field (Password t) m = m\<lparr>am_password := t\<rparr>"
| "add_field (Dns t) m = m\<lparr>am_dns := t # am_dns m\<rparr>"
| "add_field (Gateway t) m = m\<lparr>am_gateway := t\<rparr>"

definition add_cdma_field :: "field \<Rightarrow> access_method \<Rightarrow> access_method" where
  "add_cdma_field f m = (add_field f m)\<lparr>am_name := am_name m\<rparr>"

definition in_apn :: "mobile_provider \<Rightarrow> mobile_parser \<Rightarrow> access_method \<Rightarrow> bool" where
  "in_apn pr p m \<longleftrightarrow> pstate p = PARSER_METHOD_GSM_APN \<and> current_provider p = Some pr \<and> current_method p = Some m"

lemma apn_field:
  assumes "in_apn pr p m"
  shows "\<exists>q. markup_run (field_events ws f) p = Returned q \<and> in_apn pr q (add_field f m) \<and> frame p q"
proof -
  have start: "mobile_parser_start_element n [] p = Returned (p\<lparr>text_buffer := None\<rparr>)" for n
    using assms by (simp add: in_apn_def mobile_parser_start_element_def)
  show ?thesis
    using assms
    by (cases f) (auto simp: run_text_element [OF start] in_apn_def mobile_parser_end_element_def parser_gsm_apn_end_def
        on_method_def or_default_def frame_def)
qed

definition in_cdma :: "mobile_parser \<Rightarrow> mobile_provider \<times> access_method \<Rightarrow> bool" where
  "in_cdma p a \<longleftrightarrow> pstate p = PARSER_METHOD_CDMA \<and> current_provider p = Some (fst a) \<and> current_method p = Some (snd a)"

fun add_cdma_item :: "cdma_item \<Rightarrow> mobile_provider \<times> access_method \<Rightarrow> mobile_provider \<times> access_method" where
  "add_cdma_item (Sid v) (pr, m) = (pr\<lparr>mp_cdma_sid := rev (cdma_sids [Sid v]) @ mp_cdma_sid pr\<rparr>, m)"
| "add_cdma_item (Cdma_Field f) (pr, m) = (pr, add_cdma_field f m)"

lemma cdma_item:
  assumes "in_cdma p a"
  shows "\<exists>q. markup_run (cdma_item_events ws c) p = Returned q \<and> in_cdma q (add_cdma_item c a) \<and> frame p q"
proof (cases c)
  case (Sid v)
  obtain pr m where a: "a = (pr, m)"
    by fastforce
  have "mobile_parser_start_element ''sid'' [(''value'', v)] p =
      Returned (p\<lparr>current_provider := Some (pr\<lparr>mp_cdma_sid := rev (cdma_sids [Sid v]) @ mp_cdma_sid pr\<rparr>), text_buffer := None\<rparr>)"
    using assms a
    by (cases "strtoul v") (simp_all add: in_cdma_def mobile_parser_start_element_def parser_cdma_start_def on_provider_def)
  from run_element [OF this, of "[]"] show ?thesis
    using assms a Sid by (simp add: in_cdma_def mobile_parser_end_element_def parser_cdma_end_def frame_def)
next
  case (Cdma_Field f)
  have start: "mobile_parser_start_element n [] p = Returned (p\<lparr>text_buffer := None\<rparr>)" if "n \<noteq> ''sid''" for n
    using assms that by (simp add: in_cdma_def mobile_parser_start_element_def parser_cdma_start_def)
  show ?thesis
    using assms unfolding Cdma_Field
    by (cases a; cases f) (auto simp: run_text_element [OF start] in_cdma_def mobile_parser_end_element_def parser_cdma_end_def
        on_method_def add_cdma_field_def frame_def)
qed

text \<open>The folds over the fields, member by member.\<close>

lemma last_of_Cons: "last_of (t # ts) = (if ts = [] then t else last_of ts)"
  by (simp add: last_of_def)

lemma first_of_Cons: "first_of (t # ts) = or_default t (first_of ts)"
  by (cases t) (simp_all add: first_of_def or_default_def)

lemma first_of_Nil [simp]: "first_of [] = None"
  by (simp add: first_of_def)

lemma or_default_simps [simp]:
  "or_default None t = t" "or_default t None = t" "or_default (or_default a b) c = or_default a (or_default b c)"
  by (auto simp: or_default_def)

lemma fold_add_field:
  "am_name (fold add_field fs m) = or_default (am_name m) (first_of (names fs))"
  "am_username (fold add_field fs m) = (if usernames fs = [] then am_username m else last_of (usernames fs))"
  "am_password (fold add_field fs m) = (if passwords fs = [] then am_password m else last_of (passwords fs))"
  "am_gateway (fold add_field fs m) = (if gateways fs = [] then am_gateway m else last_of (gateways fs))"
  "am_dns (fold add_field fs m) = rev (dnss fs) @ am_dns m"
  "am_gsm_apn (fold add_field fs m) = am_gsm_apn m"
  "am_type (fold add_field fs m) = am_type m"
proof (induction fs arbitrary: m)
  case (Cons f fs)
  { case 1 then show ?case by (cases f) (simp_all add: Cons.IH(1) first_of_Cons) }
  { case 2 then show ?case by (cases f) (simp_all add: Cons.IH(2) last_of_Cons) }
  { case 3 then show ?case by (cases f) (simp_all add: Cons.IH(3) last_of_Cons) }
  { case 4 then show ?case by (cases f) (simp_all add: Cons.IH(4) last_of_Cons) }
  { case 5 then show ?case by (cases f) (simp_all add: Cons.IH(5)) }
  { case 6 then show ?case by (cases f) (simp_all add: Cons.IH(6)) }
  { case 7 then show ?case by (cases f) (simp_all add: Cons.IH(7)) }
qed simp_all

lemma fold_add_cdma_field:
  "fold add_cdma_field fs m = fold add_field (filter (\<lambda>f. \<forall>t. f \<noteq> Name t) fs) m"
proof -
  have "add_cdma_field f m = (if \<forall>t. f \<noteq> Name t then add_field f m else m)" for f m
    by (cases f) (simp_all add: add_cdma_field_def)
  then show ?thesis
    by (induction fs arbitrary: m) simp_all
qed

lemma without_names [simp]:
  "names (filter (\<lambda>f. \<forall>t. f \<noteq> Name t) fs) = []"
  "usernames (filter (\<lambda>f. \<forall>t. f \<noteq> Name t) fs) = usernames fs"
  "passwords (filter (\<lambda>f. \<forall>t. f \<noteq> Name t) fs) = passwords fs"
  "gateways (filter (\<lambda>f. \<forall>t. f \<noteq> Name t) fs) = gateways fs"
  "dnss (filter (\<lambda>f. \<forall>t. f \<noteq> Name t) fs) = dnss fs"
  by (induction fs rule: names.induct) simp_all

lemma fold_add_cdma_item:
  "fold add_cdma_item cs (pr, m) =
     (pr\<lparr>mp_cdma_sid := rev (cdma_sids cs) @ mp_cdma_sid pr\<rparr>, fold add_cdma_field (cdma_fields cs) m)"
proof (induction cs arbitrary: pr m)
  case (Cons c cs)
  then show ?case
    by (cases c) simp_all
qed simp

text \<open>A finished method is the one the tree describes.\<close>

lemma finished_apn:
  "(let m = fold add_field fs (access_method_new\<lparr>am_gsm_apn := Some v\<rparr>)
    in m\<lparr>am_type := METHOD_TYPE_GSM, am_dns := rev (am_dns m), am_name := (if am_name m = None then d else am_name m)\<rparr>) =
   method_of METHOD_TYPE_GSM (Some v) (or_default (first_of (names fs)) d) fs"
  by (rule access_method.equality)
    (simp_all add: Let_def fold_add_field method_of_def access_method_new_def or_default_def last_of_def)

lemma finished_cdma:
  "(let m = fold add_cdma_field fs access_method_new
    in m\<lparr>am_type := METHOD_TYPE_CDMA, am_dns := rev (am_dns m), am_name := (if am_name m = None then d else am_name m)\<rparr>) =
   method_of METHOD_TYPE_CDMA None d fs"
  by (rule access_method.equality)
    (simp_all add: Let_def fold_add_cdma_field fold_add_field method_of_def access_method_new_def last_of_def)

subsection \<open>Providers and countries\<close>

definition in_state :: "parser_state \<Rightarrow> mobile_parser \<Rightarrow> mobile_provider \<Rightarrow> bool" where
  "in_state s p pr \<longleftrightarrow> pstate p = s \<and> current_provider p = Some pr"

fun add_gsm_item :: "gsm_item \<Rightarrow> mobile_provider \<Rightarrow> mobile_provider" where
  "add_gsm_item (Network_Id c n) pr = pr\<lparr>mp_gsm_mcc_mnc := gsm_networks [Network_Id c n] @ mp_gsm_mcc_mnc pr\<rparr>"
| "add_gsm_item (Apn v fs) pr = pr\<lparr>mp_methods := gsm_methods [Apn v fs] @ mp_methods pr\<rparr>"

lemma gsm_item:
  assumes "in_state PARSER_METHOD_GSM p pr"
  shows "\<exists>q. markup_run (gsm_item_events ws g) p = Returned q \<and> in_state PARSER_METHOD_GSM q (add_gsm_item g pr) \<and> frame p q"
proof (cases g)
  case (Network_Id c n)
  have "mobile_parser_start_element ''network-id'' [(''mcc'', c), (''mnc'', n)] p =
      Returned (p\<lparr>current_provider := Some (add_gsm_item g pr), text_buffer := None\<rparr>)"
    using assms Network_Id
    by (cases c; cases n) (simp_all add: in_state_def mobile_parser_start_element_def parser_gsm_start_def on_provider_def)
  from run_element [OF this, of "[]"] show ?thesis
    using assms Network_Id by (simp add: in_state_def mobile_parser_end_element_def parser_gsm_end_def frame_def)
next
  case (Apn v fs)
  define p1 where "p1 = p\<lparr>text_buffer := None, pstate := PARSER_METHOD_GSM_APN,
    current_method := Some (access_method_new\<lparr>am_gsm_apn := Some (strstrip v)\<rparr>)\<rparr>"
  have start: "mobile_parser_start_element ''apn'' [(''value'', v)] p = Returned p1"
    using assms by (simp add: in_state_def p1_def mobile_parser_start_element_def parser_gsm_start_def)
  have "in_apn pr p1 (access_method_new\<lparr>am_gsm_apn := Some (strstrip v)\<rparr>)"
    using assms by (simp add: in_state_def in_apn_def p1_def)
  then obtain q where q: "markup_run (concat (map (field_events ws) fs)) p1 = Returned q"
    "in_apn pr q (fold add_field fs (access_method_new\<lparr>am_gsm_apn := Some (strstrip v)\<rparr>))" "frame p1 q"
    using run_row_frame [where R = "in_apn pr" and ev = "field_events ws" and f = add_field, OF apn_field] by blast
  show ?thesis
    using run_container [OF start q(1)] q(2,3) finished_apn [of fs "strstrip v" "Some ''Default''"] Apn
    by (auto simp: in_apn_def in_state_def mobile_parser_end_element_def parser_gsm_apn_end_def finish_method_def Let_def
        frame_def p1_def)
qed

fun add_provider_item :: "provider_item \<Rightarrow> mobile_provider \<Rightarrow> mobile_provider" where
  "add_provider_item (Provider_Name t) pr = pr\<lparr>mp_name := or_default (mp_name pr) t\<rparr>"
| "add_provider_item (Gsm gs) pr = fold add_gsm_item gs pr"
| "add_provider_item (Cdma cs) pr =
     pr\<lparr>mp_methods := method_of METHOD_TYPE_CDMA None (mp_name pr) (cdma_fields cs) # mp_methods pr,
        mp_cdma_sid := rev (cdma_sids cs) @ mp_cdma_sid pr\<rparr>"

lemma gsm_block:
  assumes "in_state PARSER_PROVIDER p pr"
  shows "\<exists>q. markup_run (provider_item_events ws (Gsm gs)) p = Returned q \<and>
    in_state PARSER_PROVIDER q (add_provider_item (Gsm gs) pr) \<and> frame p q"
proof -
  define p1 where "p1 = p\<lparr>text_buffer := None, pstate := PARSER_METHOD_GSM\<rparr>"
  have start: "mobile_parser_start_element ''gsm'' [] p = Returned p1"
    using assms by (simp add: in_state_def p1_def mobile_parser_start_element_def parser_provider_start_def)
  have "in_state PARSER_METHOD_GSM p1 pr"
    using assms by (simp add: in_state_def p1_def)
  then obtain q where "markup_run (concat (map (gsm_item_events ws) gs)) p1 = Returned q"
    "in_state PARSER_METHOD_GSM q (fold add_gsm_item gs pr)" "frame p1 q"
    using run_row_frame [where R = "in_state PARSER_METHOD_GSM" and ev = "gsm_item_events ws" and f = add_gsm_item, OF gsm_item] by blast
  then show ?thesis
    using run_container [OF start]
    by (auto simp: in_state_def mobile_parser_end_element_def parser_gsm_end_def frame_def p1_def)
qed

lemma cdma_block:
  assumes "in_state PARSER_PROVIDER p pr"
  shows "\<exists>q. markup_run (provider_item_events ws (Cdma cs)) p = Returned q \<and>
    in_state PARSER_PROVIDER q (add_provider_item (Cdma cs) pr) \<and> frame p q"
proof -
  define p1 where "p1 = p\<lparr>text_buffer := None, pstate := PARSER_METHOD_CDMA, current_method := Some access_method_new\<rparr>"
  have start: "mobile_parser_start_element ''cdma'' [] p = Returned p1"
    using assms by (simp add: in_state_def p1_def mobile_parser_start_element_def parser_provider_start_def)
  have "in_cdma p1 (pr, access_method_new)"
    using assms by (simp add: in_state_def in_cdma_def p1_def)
  then obtain q where q: "markup_run (concat (map (cdma_item_events ws) cs)) p1 = Returned q"
    "in_cdma q (fold add_cdma_item cs (pr, access_method_new))" "frame p1 q"
    using run_row_frame [where R = in_cdma and ev = "cdma_item_events ws" and f = add_cdma_item, OF cdma_item] by blast
  then show ?thesis
    using run_container [OF start q(1)] finished_cdma [of "cdma_fields cs" "mp_name pr"]
    by (auto simp: fold_add_cdma_item in_cdma_def in_state_def mobile_parser_end_element_def parser_cdma_end_def
        finish_method_def Let_def frame_def p1_def)
qed

lemma provider_item:
  assumes "in_state PARSER_PROVIDER p pr"
  shows "\<exists>q. markup_run (provider_item_events ws it) p = Returned q \<and>
    in_state PARSER_PROVIDER q (add_provider_item it pr) \<and> frame p q"
proof (cases it)
  case (Provider_Name t)
  have "mobile_parser_start_element ''name'' [] p = Returned (p\<lparr>text_buffer := None\<rparr>)"
    using assms by (simp add: in_state_def mobile_parser_start_element_def parser_provider_start_def)
  from run_text_element [OF this] show ?thesis
    using assms Provider_Name
    by (auto simp: in_state_def mobile_parser_end_element_def parser_provider_end_def frame_def or_default_def)
qed (use assms gsm_block cdma_block in auto)

lemma fold_add_gsm_item:
  "fold add_gsm_item gs pr =
     pr\<lparr>mp_methods := rev (gsm_methods gs) @ mp_methods pr, mp_gsm_mcc_mnc := rev (gsm_networks gs) @ mp_gsm_mcc_mnc pr\<rparr>"
proof (induction gs arbitrary: pr)
  case (Cons g gs)
  then show ?case
    by (cases g) simp_all
qed simp

lemma fold_add_provider_item:
  "mp_name (fold add_provider_item items pr) = or_default (mp_name pr) (first_of (provider_names items))"
  "mp_methods (fold add_provider_item items pr) = rev (provider_methods (mp_name pr) items) @ mp_methods pr"
  "mp_gsm_mcc_mnc (fold add_provider_item items pr) = rev (provider_networks items) @ mp_gsm_mcc_mnc pr"
  "mp_cdma_sid (fold add_provider_item items pr) = rev (provider_sids items) @ mp_cdma_sid pr"
proof (induction items arbitrary: pr)
  case (Cons it items)
  { case 1 then show ?case by (cases it) (simp_all add: Cons.IH(1) first_of_Cons fold_add_gsm_item) }
  { case 2 then show ?case by (cases it) (simp_all add: Cons.IH(2) fold_add_gsm_item) }
  { case 3 then show ?case by (cases it) (simp_all add: Cons.IH(3) fold_add_gsm_item) }
  { case 4 then show ?case by (cases it) (simp_all add: Cons.IH(4) fold_add_gsm_item) }
qed simp_all

definition in_country :: "(string, cstr) ghash \<Rightarrow> (string, mobile_provider list) ghash \<Rightarrow> string \<Rightarrow> mobile_parser \<Rightarrow>
    mobile_provider list \<Rightarrow> bool" where
  "in_country codes t c p prs \<longleftrightarrow> pstate p = PARSER_COUNTRY \<and> country_codes p = codes \<and> table p = t \<and>
     current_country p = Some c \<and> current_providers p = prs"

lemma provider_run:
  assumes "in_country codes t c p prs"
  shows "\<exists>q. markup_run (provider_events ws items) p = Returned q \<and> in_country codes t c q (provider_of items # prs)"
proof -
  define p1 where "p1 = p\<lparr>text_buffer := None, pstate := PARSER_PROVIDER, current_provider := Some provider_new\<rparr>"
  have start: "mobile_parser_start_element ''provider'' [] p = Returned p1"
    using assms by (simp add: in_country_def p1_def mobile_parser_start_element_def parser_country_start_def)
  have "in_state PARSER_PROVIDER p1 provider_new"
    by (simp add: in_state_def p1_def)
  then obtain q where q: "markup_run (concat (map (provider_item_events ws) items)) p1 = Returned q"
    "in_state PARSER_PROVIDER q (fold add_provider_item items provider_new)" "frame p1 q"
    using run_row_frame [where R = "in_state PARSER_PROVIDER" and ev = "provider_item_events ws" and f = add_provider_item,
        OF provider_item] by blast
  have "(let m = fold add_provider_item items provider_new
         in m\<lparr>mp_methods := rev (mp_methods m), mp_gsm_mcc_mnc := rev (mp_gsm_mcc_mnc m), mp_cdma_sid := rev (mp_cdma_sid m)\<rparr>) =
        provider_of items"
    by (rule mobile_provider.equality) (simp_all add: Let_def fold_add_provider_item provider_of_def provider_new_def)
  then show ?thesis
    using run_container [OF start q(1)] q(2,3) assms
    by (auto simp: provider_events_def in_state_def in_country_def mobile_parser_end_element_def parser_provider_end_def
        Let_def frame_def p1_def)
qed

definition at_toplevel :: "(string, cstr) ghash \<Rightarrow> mobile_parser \<Rightarrow> (string, mobile_provider list) ghash \<Rightarrow> bool" where
  "at_toplevel codes p t \<longleftrightarrow> pstate p = PARSER_TOPLEVEL \<and> country_codes p = codes \<and> table p = t \<and> current_providers p = []"

definition add_country ::
    "(string, cstr) ghash \<Rightarrow> string \<times> provider_item list list \<Rightarrow> (string, mobile_provider list) ghash \<Rightarrow> (string, mobile_provider list) ghash" where
  "add_country codes c t = gh_insert (country_name codes (fst c)) (rev (map provider_of (snd c))) t"

lemma country_run:
  assumes "at_toplevel codes p t"
  shows "\<exists>q. markup_run (country_events ws c) p = Returned q \<and> at_toplevel codes q (add_country codes c t)"
proof -
  define p1 where "p1 = p\<lparr>text_buffer := None, current_country := Some (country_name codes (fst c)), pstate := PARSER_COUNTRY\<rparr>"
  have start: "mobile_parser_start_element ''country'' [(''code'', fst c)] p = Returned p1"
    using assms
    by (auto simp: at_toplevel_def p1_def mobile_parser_start_element_def parser_toplevel_start_def country_name_def
        split: option.split)
  have "in_country codes t (country_name codes (fst c)) p1 []"
    using assms by (simp add: in_country_def at_toplevel_def p1_def)
  then obtain q where q: "markup_run (concat (map (provider_events ws) (snd c))) p1 = Returned q"
    "in_country codes t (country_name codes (fst c)) q (fold (\<lambda>items prs. provider_of items # prs) (snd c) [])"
    using run_row [where R = "in_country codes t (country_name codes (fst c))" and ev = "provider_events ws"
        and f = "\<lambda>items prs. provider_of items # prs", OF provider_run] by blast
  have "fold (\<lambda>items prs. provider_of items # prs) xs acc = rev (map provider_of xs) @ acc" for xs acc
    by (induction xs arbitrary: acc) simp_all
  then show ?thesis
    using run_container [OF start q(1)] q(2)
    by (auto simp: country_events_def in_country_def at_toplevel_def mobile_parser_end_element_def parser_country_end_def
        add_country_def)
qed

lemma document_run:
  "\<exists>q. markup_run (document_events ws doc) (mobile_parser_init codes) = Returned q \<and> at_toplevel codes q (table_of codes doc)"
proof -
  have start: "mobile_parser_start_element ''serviceproviders'' [(''format'', ''2.0'')] (mobile_parser_init codes) =
      Returned (mobile_parser_init codes)"
    by (simp add: mobile_parser_start_element_def mobile_parser_init_def parser_toplevel_start_def)
  have "at_toplevel codes (mobile_parser_init codes) gh_new"
    by (simp add: at_toplevel_def mobile_parser_init_def)
  then obtain q where q: "markup_run (concat (map (country_events ws) doc)) (mobile_parser_init codes) = Returned q"
    "at_toplevel codes q (fold (add_country codes) doc gh_new)"
    using run_row [where R = "at_toplevel codes" and ev = "country_events ws" and f = "add_country codes", OF country_run]
    by blast
  have "fold (add_country codes) doc t = foldl (\<lambda>t (c, ps). gh_insert (country_name codes c) (rev (map provider_of ps)) t) t doc" for t
    by (induction doc arbitrary: t) (auto simp: add_country_def split: prod.split)
  then show ?thesis
    using run_container [OF start q(1)] q(2)
    by (auto simp: document_events_def at_toplevel_def mobile_parser_end_element_def table_of_def)
qed

section \<open>Properties\<close>

text \<open>C24: whatever XML the file holds, and however the tokenizer cuts it into events, the parser never follows a \<^verbatim>\<open>NULL\<close> pointer: in
  every state it reaches, the country, the provider and the method that the state writes to are there.\<close>

theorem mobile_parser_never_crashes:
  "\<exists>p. parse_blocks tok l blocks (mobile_parser_init codes) = Returned p \<and> parser_typed p"
proof -
  have "parser_typed (mobile_parser_init codes)"
    by (simp add: parser_typed_def mobile_parser_init_def)
  from blocks_typed [OF this] show ?thesis
    by (simp add: well_typed_iff)
qed

text \<open>C25: the events of a document of the supported format, with any white space between its elements, build exactly the table the
  document describes: each country under its name, with the last list given for it and the providers in reverse order; each
  provider with its first name, its networks and identifiers and its methods in order; each method with its fields,
  a GSM method without a name called Default, a CDMA method called as its provider is so far.\<close>

theorem mobile_providers_parsed:
  "\<exists>p. markup_run (document_events ws doc) (mobile_parser_init codes) = Returned p \<and>
     table p = table_of codes doc \<and> pstate p = PARSER_TOPLEVEL \<and> current_providers p = []"
  using document_run [of ws doc codes] by (auto simp: at_toplevel_def)

text \<open>A database of another format leaves the table empty, whatever comes after its first element.\<close>

lemma error_is_final:
  assumes "pstate p = PARSER_ERROR"
  shows "\<exists>q. markup_run es p = Returned q \<and> table q = table p"
  using assms
proof (induction es arbitrary: p)
  case (Cons e es)
  have "\<exists>q. markup_step e p = Returned q \<and> pstate q = PARSER_ERROR \<and> table q = table p"
    using Cons.prems
    by (cases e) (simp_all add: mobile_parser_start_element_def mobile_parser_end_element_def mobile_parser_characters_def)
  then show ?case
    using Cons.IH by force
qed simp

lemma other_format_refused:
  assumes "v \<noteq> ''2.0''"
  shows "\<exists>q. markup_run (Start_Tag ''serviceproviders'' [(''format'', v)] # es) (mobile_parser_init codes) = Returned q \<and>
    table q = gh_new"
  using assms error_is_final [of "(mobile_parser_init codes)\<lparr>text_buffer := None, pstate := PARSER_ERROR\<rparr>" es]
  by (simp add: mobile_parser_start_element_def mobile_parser_init_def parser_toplevel_start_def)

text \<open>A system identifier that is a multiple of \<open>2 ^ 32\<close> passes the test for a positive number and is stored as zero.\<close>

lemma sid_truncated: "cdma_sids [Sid ''4294967296''] = [0]"
  by (simp add: strtoul_def strtoull_def Let_def strtoull_space_def isdigit_def ascii_isspace_def char_code_def)

end
