(* ===== verification/GConf_Helpers.thy ===== *)
theory GConf_Helpers
  imports Connection
begin

text \<open>
  User connections in GConf, \<^verbatim>\<open>src/gconf-helpers/gconf-helpers.c\<close> of the applet: a connection is a directory with a
  subdirectory for each setting and a key for each of its properties; secrets go to the keyring.  GConf is a library that is not part of the
  program: its client is the parameter \<open>gconf\<close>, a record of the calls the code makes, and \<open>gconf_laws\<close> states what it relies on.
  The calls to the keyring and the callback before them are a list of outputs.
\<close>

section \<open>GConf\<close>

datatype gconf_type = GCONF_VALUE_STRING | GCONF_VALUE_INT | GCONF_VALUE_BOOL | GCONF_VALUE_OTHER

datatype gconf_value =
    GC_String string
  | GC_Int u32
  | GC_Bool bool
  | GC_List gconf_type "gconf_value list"
  | GC_Other nat

text \<open>The state of the database is of type \<open>'g\<close>; an error is \<open>None\<close>.\<close>

record 'g gconf_client =
  gconf_get :: "'g \<Rightarrow> string \<Rightarrow> gconf_value option"
  gconf_set :: "string \<Rightarrow> gconf_value \<Rightarrow> 'g \<Rightarrow> 'g"
  gconf_unset :: "string \<Rightarrow> 'g \<Rightarrow> 'g"
  gconf_recursive_unset :: "string \<Rightarrow> 'g \<Rightarrow> 'g"
  gconf_all_dirs :: "string \<Rightarrow> 'g \<Rightarrow> string list option"
  gconf_all_entries :: "string \<Rightarrow> 'g \<Rightarrow> string list"
  gconf_escape_key :: "string \<Rightarrow> string"

definition gc_key :: "string \<Rightarrow> string \<Rightarrow> string \<Rightarrow> string" where
  "gc_key path setting key = path @ ''/'' @ setting @ ''/'' @ key"

text \<open>Every helper first refuses a \<^verbatim>\<open>NULL\<close> setting name.\<close>

definition gconf_lookup :: "'g gconf_client \<Rightarrow> 'g \<Rightarrow> string \<Rightarrow> string \<Rightarrow> cstr \<Rightarrow> gconf_value option" where
  "gconf_lookup gconf g path key setting =
     (case setting of None \<Rightarrow> None | Some sn \<Rightarrow> gconf_get gconf g (gc_key path sn key))"

definition gconf_store :: "'g gconf_client \<Rightarrow> string \<Rightarrow> string \<Rightarrow> cstr \<Rightarrow> gconf_value option \<Rightarrow> 'g \<Rightarrow> 'g" where
  "gconf_store gconf path key setting v g =
     (case setting of
        None \<Rightarrow> g
      | Some sn \<Rightarrow>
          (case v of Some x \<Rightarrow> gconf_set gconf (gc_key path sn key) x g | None \<Rightarrow> gconf_unset gconf (gc_key path sn key) g))"

section \<open>Reading\<close>

fun bm_gconf_get_int_helper :: "gconf_value option \<Rightarrow> u32 option" where
  "bm_gconf_get_int_helper (Some (GC_Int i)) = Some i"
| "bm_gconf_get_int_helper _ = None"

fun bm_gconf_get_string_helper :: "gconf_value option \<Rightarrow> string option" where
  "bm_gconf_get_string_helper (Some (GC_String s)) = Some s"
| "bm_gconf_get_string_helper _ = None"

fun bm_gconf_get_bool_helper :: "gconf_value option \<Rightarrow> bool option" where
  "bm_gconf_get_bool_helper (Some (GC_Bool b)) = Some b"
| "bm_gconf_get_bool_helper (Some (GC_String [])) = Some True"
| "bm_gconf_get_bool_helper _ = None"

text \<open>The elements of a list have the type the list announces.\<close>

fun gc_string :: "gconf_value \<Rightarrow> string" where
  "gc_string (GC_String s) = s" | "gc_string _ = []"

fun gc_int :: "gconf_value \<Rightarrow> u32" where
  "gc_int (GC_Int i) = i" | "gc_int _ = 0"

fun bm_gconf_get_stringlist_helper :: "gconf_value option \<Rightarrow> string list option" where
  "bm_gconf_get_stringlist_helper (Some (GC_List GCONF_VALUE_STRING xs)) = Some (map gc_string xs)"
| "bm_gconf_get_stringlist_helper _ = None"

fun bytes_of :: "u32 list \<Rightarrow> u8 list option" where
  "bytes_of [] = Some []"
| "bytes_of (i # is) =
     (if sint i < 0 \<or> sint i > 255 then None
      else (case bytes_of is of Some bs \<Rightarrow> Some (ucast (i AND 0xFF) # bs) | None \<Rightarrow> None))"

fun bm_gconf_get_bytearray_helper :: "gconf_value option \<Rightarrow> u8 list option" where
  "bm_gconf_get_bytearray_helper (Some (GC_List GCONF_VALUE_INT xs)) = bytes_of (map gc_int xs)"
| "bm_gconf_get_bytearray_helper _ = None"

fun bm_gconf_get_uint_array_helper :: "gconf_value option \<Rightarrow> u32 list option" where
  "bm_gconf_get_uint_array_helper (Some (GC_List GCONF_VALUE_INT xs)) = Some (map gc_int xs)"
| "bm_gconf_get_uint_array_helper _ = None"

text \<open>\<^verbatim>\<open>g_ascii_strtoull\<close> sets \<^verbatim>\<open>errno\<close> when the number does not fit.\<close>

definition strtoull_overflows :: "string \<Rightarrow> bool" where
  "strtoull_overflows s =
     (let t = dropWhile strtoull_space s;
          digits = takeWhile isdigit (if t \<noteq> [] \<and> (hd t = CHR ''-'' \<or> hd t = CHR ''+'') then tl t else t)
      in foldl (\<lambda>a c. 10 * a + (char_code c - 48)) 0 digits \<ge> 2 ^ 64)"

text \<open>
  The value a key gives to a property, when the helper for the property's type succeeds.  \<open>stale key\<close> tells whether \<^verbatim>\<open>errno\<close> still is
  \<^verbatim>\<open>ERANGE\<close> from an earlier call when the number is read: the code does not clear it.  A list of strings is a list or an array.
\<close>

fun read_value :: "(string \<Rightarrow> bool) \<Rightarrow> string \<Rightarrow> gtype \<Rightarrow> gconf_value option \<Rightarrow> gvalue option" where
  "read_value stale key T_STRING v = map_option (\<lambda>s. GString (Some s)) (bm_gconf_get_string_helper v)"
| "read_value stale key T_UINT v = map_option GUInt (bm_gconf_get_int_helper v)"
| "read_value stale key T_INT v = map_option GInt (bm_gconf_get_int_helper v)"
| "read_value stale key T_UINT64 v =
     (case bm_gconf_get_string_helper v of
        Some tmp_str \<Rightarrow>
          if \<not> (strtoull tmp_str = - 1 \<and> (stale key \<or> strtoull_overflows tmp_str)) then Some (GUInt64 (strtoull tmp_str)) else None
      | None \<Rightarrow> None)"
| "read_value stale key T_BOOLEAN v = map_option GBoolean (bm_gconf_get_bool_helper v)"
| "read_value stale key T_CHAR v = map_option (\<lambda>i. GChar (ucast i)) (bm_gconf_get_int_helper v)"
| "read_value stale key (T_COLLECTION T_UCHAR) v =
     map_option (\<lambda>bs. GCollection T_UCHAR (Some (map GUChar bs))) (bm_gconf_get_bytearray_helper v)"
| "read_value stale key (T_COLLECTION T_STRING) v =
     map_option (\<lambda>ss. GCollection T_STRING (Some (map (\<lambda>s. GString (Some s)) ss))) (bm_gconf_get_stringlist_helper v)"
| "read_value stale key (T_COLLECTION T_UINT) v =
     map_option (\<lambda>is. GCollection T_UINT (Some (map GUInt is))) (bm_gconf_get_uint_array_helper v)"
| "read_value stale key _ v = None"

definition read_one_setting_value_from_gconf ::
    "transform \<Rightarrow> 'g gconf_client \<Rightarrow> (string \<Rightarrow> bool) \<Rightarrow> 'g \<Rightarrow> string \<Rightarrow> param_spec \<Rightarrow> gvalue \<Rightarrow> setting \<Rightarrow> setting" where
  "read_one_setting_value_from_gconf tr gconf stale g dir ps value s =
     (let key = ps_name ps in
      if key = ''name'' then s
      else if object_type s = BM_TYPE_SETTING_CONNECTION \<and> key = ''read-only'' then s
      else (case read_value stale key (g_value_type value) (gconf_lookup gconf g dir key (set_name s)) of
              Some v \<Rightarrow> g_object_set_property tr s ps v
            | None \<Rightarrow> s))"

text \<open>The setting is changed while its properties are enumerated; only the types of the enumerated values are used.\<close>

definition read_one_setting ::
    "transform \<Rightarrow> 'g gconf_client \<Rightarrow> (string \<Rightarrow> bool) \<Rightarrow> 'g \<Rightarrow> string \<Rightarrow> connection \<Rightarrow> string \<Rightarrow> connection" where
  "read_one_setting tr gconf stale g dir c data =
     (let name = drop (length dir + 1) data in
      case bm_connection_create_setting tr name of
        None \<Rightarrow> c
      | Some s \<Rightarrow>
          bm_connection_add_setting
            (bm_setting_enumerate_values s (\<lambda>_. read_one_setting_value_from_gconf tr gconf stale g dir) s) c)"

definition bm_gconf_read_connection ::
    "transform \<Rightarrow> 'g gconf_client \<Rightarrow> (string \<Rightarrow> bool) \<Rightarrow> 'g \<Rightarrow> string \<Rightarrow> connection option" where
  "bm_gconf_read_connection tr gconf stale g dir =
     (case gconf_all_dirs gconf dir g of
        None \<Rightarrow> None
      | Some dirs \<Rightarrow> if dirs = [] then None else Some (foldl (read_one_setting tr gconf stale g dir) bm_connection_new dirs))"

section \<open>Writing\<close>

definition path_tail :: "string \<Rightarrow> cstr" where
  "path_tail p = (if CHR ''/'' \<in> set p then Some (rev (takeWhile (\<lambda>c. c \<noteq> CHR ''/'') (rev p))) else None)"

text \<open>The key prefix is always \<^verbatim>\<open>NULL\<close>: every key of the setting goes.\<close>

definition bm_gconf_set_stringhash_helper ::
    "'g gconf_client \<Rightarrow> string \<Rightarrow> cstr \<Rightarrow> (string \<times> gvalue) list \<Rightarrow> 'g \<Rightarrow> 'g" where
  "bm_gconf_set_stringhash_helper gconf path setting entries g =
     (case setting of
        None \<Rightarrow> g
      | Some sn \<Rightarrow>
          (let key = path @ ''/'' @ sn;
               g1 = foldl (\<lambda>g e. if path_tail e = None then g else gconf_unset gconf e g) g (gconf_all_entries gconf key g)
           in foldl (\<lambda>g (n, v). gconf_set gconf (key @ ''/'' @ gconf_escape_key gconf n)
                        (GC_String (case v of GString (Some s) \<Rightarrow> s | _ \<Rightarrow> [])) g) g1 entries))"

definition bm_gconf_set_bytearray_helper :: "'g gconf_client \<Rightarrow> string \<Rightarrow> string \<Rightarrow> cstr \<Rightarrow> u8 list option \<Rightarrow> 'g \<Rightarrow> 'g" where
  "bm_gconf_set_bytearray_helper gconf path key setting value g =
     (case value of
        None \<Rightarrow> g
      | Some bs \<Rightarrow> gconf_store gconf path key setting (Some (GC_List GCONF_VALUE_INT (map (\<lambda>b. GC_Int (ucast b)) bs))) g)"

definition bm_gconf_set_uint_array_helper :: "'g gconf_client \<Rightarrow> string \<Rightarrow> string \<Rightarrow> cstr \<Rightarrow> u32 list option \<Rightarrow> 'g \<Rightarrow> 'g" where
  "bm_gconf_set_uint_array_helper gconf path key setting value g =
     (case value of
        None \<Rightarrow> g
      | Some is \<Rightarrow> gconf_store gconf path key setting (Some (GC_List GCONF_VALUE_INT (map GC_Int is))) g)"

definition bm_gconf_set_stringlist_helper :: "'g gconf_client \<Rightarrow> string \<Rightarrow> string \<Rightarrow> cstr \<Rightarrow> string list \<Rightarrow> 'g \<Rightarrow> 'g" where
  "bm_gconf_set_stringlist_helper gconf path key setting value g =
     gconf_store gconf path key setting (Some (GC_List GCONF_VALUE_STRING (map GC_String value))) g"

fun value_strings :: "gvalue list option \<Rightarrow> string list" where
  "value_strings None = []"
| "value_strings (Some vs) = map (\<lambda>v. case value_string v of Some s \<Rightarrow> s | None \<Rightarrow> []) vs"

definition write_value :: "'g gconf_client \<Rightarrow> string \<Rightarrow> string \<Rightarrow> cstr \<Rightarrow> gvalue \<Rightarrow> 'g \<Rightarrow> 'g" where
  "write_value gconf dir key setting_name value g =
     (case value of
        GString s \<Rightarrow> gconf_store gconf dir key setting_name (map_option GC_String s) g
      | GUInt w \<Rightarrow> gconf_store gconf dir key setting_name (Some (GC_Int w)) g
      | GInt w \<Rightarrow> gconf_store gconf dir key setting_name (Some (GC_Int w)) g
      | GUInt64 w \<Rightarrow> gconf_store gconf dir key setting_name (Some (GC_String (print_nat (unat w)))) g
      | GBoolean b \<Rightarrow> gconf_store gconf dir key setting_name (Some (GC_Bool b)) g
      | GChar w \<Rightarrow> gconf_store gconf dir key setting_name (Some (GC_Int (scast w))) g
      | GCollection T_UCHAR bs \<Rightarrow> bm_gconf_set_bytearray_helper gconf dir key setting_name (map_option (map value_uchar) bs) g
      | GCollection T_STRING ss \<Rightarrow> bm_gconf_set_stringlist_helper gconf dir key setting_name (value_strings ss) g
      | GMap T_STRING T_STRING entries \<Rightarrow>
          (case entries of Some es \<Rightarrow> bm_gconf_set_stringhash_helper gconf dir setting_name es g | None \<Rightarrow> g)
      | GCollection T_UINT is \<Rightarrow> bm_gconf_set_uint_array_helper gconf dir key setting_name (map_option (map value_uint) is) g
      | _ \<Rightarrow> g)"

definition copy_one_setting_value_to_gconf ::
    "numbering \<Rightarrow> 'g gconf_client \<Rightarrow> string \<Rightarrow> setting \<Rightarrow> param_spec \<Rightarrow> gvalue \<Rightarrow> 'g \<Rightarrow> 'g" where
  "copy_one_setting_value_to_gconf gt gconf dir s ps value g =
     (let key = ps_name ps in
      if object_type s = BM_TYPE_SETTING_CONNECTION \<and> key = ''read-only'' then g
      else if param_value_defaults gt ps value
           then gconf_unset gconf (gc_key dir (case set_name s of Some n \<Rightarrow> n | None \<Rightarrow> ''(null)'') key) g
      else write_value gconf dir key (set_name s) value g)"

definition remove_leftovers :: "'g gconf_client \<Rightarrow> connection \<Rightarrow> string \<Rightarrow> 'g \<Rightarrow> 'g" where
  "remove_leftovers gconf c dir g =
     (case gconf_all_dirs gconf dir g of
        None \<Rightarrow> g
      | Some dirs \<Rightarrow>
          foldl (\<lambda>g key. if bm_connection_get_setting_by_name c (drop (length dir + 1) key) = None
                         then gconf_recursive_unset gconf key g else g) g dirs)"

definition APPLET_PREFS_PATH :: string where "APPLET_PREFS_PATH = ''/apps/bm-applet''"
definition GCONF_PATH_CONNECTIONS :: string where "GCONF_PATH_CONNECTIONS = ''/system/networking/connections''"

definition get_ignore_path :: "string \<Rightarrow> bool \<Rightarrow> string" where
  "get_ignore_path uuid phase2 =
     APPLET_PREFS_PATH @ ''/'' @ (if phase2 then ''ignore-phase2-ca-cert'' else ''ignore-ca-cert'') @ ''/'' @ uuid"

definition bm_gconf_get_ignore_ca_cert :: "'g gconf_client \<Rightarrow> 'g \<Rightarrow> cstr \<Rightarrow> bool \<Rightarrow> bool" where
  "bm_gconf_get_ignore_ca_cert gconf g uuid phase2 =
     (case uuid of
        None \<Rightarrow> False
      | Some u \<Rightarrow> (case gconf_get gconf g (get_ignore_path u phase2) of Some (GC_Bool b) \<Rightarrow> b | _ \<Rightarrow> False))"

definition bm_gconf_set_ignore_ca_cert :: "'g gconf_client \<Rightarrow> cstr \<Rightarrow> bool \<Rightarrow> bool \<Rightarrow> 'g \<Rightarrow> 'g" where
  "bm_gconf_set_ignore_ca_cert gconf uuid phase2 ignore g =
     (case uuid of
        None \<Rightarrow> g
      | Some u \<Rightarrow>
          if ignore then gconf_set gconf (get_ignore_path u phase2) (GC_Bool ignore) g
          else gconf_unset gconf (get_ignore_path u phase2) g)"

section \<open>The keyring\<close>

datatype keyring_call =
    Pre_Keyring
  | Keyring_Create string string string string
  | Keyring_Delete cstr cstr string
  | Unhandled_Secret cstr string

text \<open>\<open>locked\<close> is what the keyring says of itself, or an error; \<open>callback\<close> whether a function is to be called before each access.\<close>

definition pre_keyring_callback :: "bool \<Rightarrow> bool option \<Rightarrow> keyring_call list" where
  "pre_keyring_callback callback locked =
     (if \<not> callback then []
      else (case locked of Some l \<Rightarrow> if l then [Pre_Keyring] else [] | None \<Rightarrow> [Pre_Keyring]))"

definition bm_gconf_add_keyring_item ::
    "keyring_call list \<Rightarrow> cstr \<Rightarrow> cstr \<Rightarrow> string \<Rightarrow> string \<Rightarrow> keyring_call list" where
  "bm_gconf_add_keyring_item pre connection_uuid setting_name skey secret =
     (case (connection_uuid, setting_name) of
        (Some u, Some sn) \<Rightarrow> pre @ [Keyring_Create u sn skey secret]
      | _ \<Rightarrow> [])"

definition keyring_delete_item :: "keyring_call list \<Rightarrow> cstr \<Rightarrow> cstr \<Rightarrow> string \<Rightarrow> keyring_call list" where
  "keyring_delete_item pre connection_uuid setting_name skey = pre @ [Keyring_Delete connection_uuid setting_name skey]"

definition write_one_secret_to_keyring ::
    "keyring_call list \<Rightarrow> cstr \<Rightarrow> setting \<Rightarrow> param_spec \<Rightarrow> gvalue \<Rightarrow> keyring_call list \<Rightarrow> keyring_call list" where
  "write_one_secret_to_keyring pre uuid s ps value out =
     out @ (if g_value_type value \<noteq> T_STRING then [Unhandled_Secret (set_name s) (ps_name ps)]
            else (case value_string value of
                    Some (c # cs) \<Rightarrow> bm_gconf_add_keyring_item pre uuid (set_name s) (ps_name ps) (c # cs)
                  | _ \<Rightarrow> keyring_delete_item pre uuid (set_name s) (ps_name ps)))"

text \<open>\<open>ignore_ca\<close> and \<open>ignore_phase2\<close> are the two flags that hang on the connection object.\<close>

definition bm_gconf_write_connection ::
    "numbering \<Rightarrow> 'g gconf_client \<Rightarrow> bool \<Rightarrow> bool option \<Rightarrow> connection \<Rightarrow> string \<Rightarrow> bool \<Rightarrow> bool \<Rightarrow> bool \<Rightarrow> 'g \<Rightarrow> 'g \<times> keyring_call list" where
  "bm_gconf_write_connection gt gconf callback locked c dir ignore_secrets ignore_ca ignore_phase2 g =
     (case map_option set_priv (bm_connection_get_setting c BM_TYPE_SETTING_CONNECTION) of
        Some (Connection_Priv p) \<Rightarrow>
          (let uuid = bm_setting_connection_get_uuid p;
               g1 = bm_connection_for_each_setting_value c (copy_one_setting_value_to_gconf gt gconf dir) g;
               g2 = remove_leftovers gconf c dir g1;
               out = (if \<not> ignore_secrets
                      then bm_connection_for_each_setting_value c
                             (write_one_secret_to_keyring (pre_keyring_callback callback locked) uuid) []
                      else []);
               g3 = bm_gconf_set_ignore_ca_cert gconf uuid False ignore_ca g2;
               g4 = bm_gconf_set_ignore_ca_cert gconf uuid True ignore_phase2 g3
           in (g4, out))
      | _ \<Rightarrow> (g, []))"

section \<open>Other keys\<close>

definition bm_gconf_key_is_set :: "'g gconf_client \<Rightarrow> 'g \<Rightarrow> string \<Rightarrow> string \<Rightarrow> cstr \<Rightarrow> bool" where
  "bm_gconf_key_is_set gconf g path key setting = (gconf_lookup gconf g path key setting \<noteq> None)"

definition APPLET_PREFS_STAMP :: string where "APPLET_PREFS_STAMP = ''/apps/bm-applet/stamp''"

definition bm_gconf_get_all_connections :: "'g gconf_client \<Rightarrow> 'g \<Rightarrow> string list \<times> 'g" where
  "bm_gconf_get_all_connections gconf g =
     (let stamp = (case gconf_get gconf g APPLET_PREFS_STAMP of Some (GC_Int i) \<Rightarrow> i | _ \<Rightarrow> 0);
          connections = (case gconf_all_dirs gconf GCONF_PATH_CONNECTIONS g of Some ds \<Rightarrow> ds | None \<Rightarrow> [])
      in (connections, if stamp \<noteq> 1 then gconf_set gconf APPLET_PREFS_STAMP (GC_Int 1) g else g))"

end
