(* ===== verification/GConf_Roundtrip.thy ===== *)
theory GConf_Roundtrip
  imports GConf_Helpers "HOL-Library.Sublist"
begin

text \<open>
  What the conversions of \<open>GConf_Helpers\<close> guarantee: a connection written to its directory in GConf is read back, and what goes into the
  keyring on the way.
\<close>

section \<open>What the code relies on\<close>

text \<open>
  A key holds what was last set; unsetting clears a key, unsetting recursively a directory with everything below it; the subdirectories
  of a directory are those that hold a key.
\<close>

definition gconf_laws :: "'g gconf_client \<Rightarrow> bool" where
  "gconf_laws G \<longleftrightarrow>
     (\<forall>g k v k'. gconf_get G (gconf_set G k v g) k' = (if k' = k then Some v else gconf_get G g k')) \<and>
     (\<forall>g k k'. gconf_get G (gconf_unset G k g) k' = (if k' = k then None else gconf_get G g k')) \<and>
     (\<forall>g d k. gconf_get G (gconf_recursive_unset G d g) k = (if k = d \<or> prefix (d @ ''/'') k then None else gconf_get G g k)) \<and>
     (\<forall>d g. \<exists>ds. gconf_all_dirs G d g = Some ds \<and>
        set ds = {d @ ''/'' @ x | x. CHR ''/'' \<notin> set x \<and> (\<exists>r. gconf_get G g (d @ ''/'' @ x @ ''/'' @ r) \<noteq> None)})"

lemma gconf_lawsD:
  assumes "gconf_laws G"
  shows "gconf_get G (gconf_set G k v g) k' = (if k' = k then Some v else gconf_get G g k')"
    and "gconf_get G (gconf_unset G k g) k' = (if k' = k then None else gconf_get G g k')"
    and "gconf_get G (gconf_recursive_unset G d g) k = (if k = d \<or> prefix (d @ ''/'') k then None else gconf_get G g k)"
    and "\<exists>ds. gconf_all_dirs G d g = Some ds \<and>
      set ds = {d @ ''/'' @ x | x. CHR ''/'' \<notin> set x \<and> (\<exists>r. gconf_get G g (d @ ''/'' @ x @ ''/'' @ r) \<noteq> None)}"
proof -
  note laws = assms [unfolded gconf_laws_def]
  show "gconf_get G (gconf_set G k v g) k' = (if k' = k then Some v else gconf_get G g k')"
    using laws [THEN conjunct1] by blast
  show "gconf_get G (gconf_unset G k g) k' = (if k' = k then None else gconf_get G g k')"
    using laws [THEN conjunct2, THEN conjunct1] by blast
  show "gconf_get G (gconf_recursive_unset G d g) k = (if k = d \<or> prefix (d @ ''/'') k then None else gconf_get G g k)"
    using laws [THEN conjunct2, THEN conjunct2, THEN conjunct1] by blast
  show "\<exists>ds. gconf_all_dirs G d g = Some ds \<and>
      set ds = {d @ ''/'' @ x | x. CHR ''/'' \<notin> set x \<and> (\<exists>r. gconf_get G g (d @ ''/'' @ x @ ''/'' @ r) \<noteq> None)}"
    using laws [THEN conjunct2, THEN conjunct2, THEN conjunct2] by (elim allE)
qed

section \<open>Values\<close>

text \<open>What the key of a property holds after the property has been written.\<close>

definition stored :: "param_spec \<Rightarrow> gvalue \<Rightarrow> gconf_value option" where
  "stored ps v =
     (if v = ps_default ps then None
      else (case v of
              GString s \<Rightarrow> map_option GC_String s
            | GUInt w \<Rightarrow> Some (GC_Int w)
            | GUInt64 w \<Rightarrow> Some (GC_String (print_nat (unat w)))
            | GBoolean b \<Rightarrow> Some (GC_Bool b)
            | GChar w \<Rightarrow> Some (GC_Int (scast w))
            | GCollection T_UCHAR bs \<Rightarrow> map_option (\<lambda>bs. GC_List GCONF_VALUE_INT (map (\<lambda>b. GC_Int (ucast (value_uchar b))) bs)) bs
            | _ \<Rightarrow> None))"

lemma strtoull_print_fits: "\<not> strtoull_overflows (print_nat (unat (w :: u64)))"
proof -
  have "unat w < 2 ^ 64"
    using unsigned_less [of w, where ?'a = nat] by simp
  then show ?thesis
    by (simp add: strtoull_overflows_def Let_def foldl_digits_print print_nat_plain)
qed

lemma char_through_int [simp]: "ucast (scast (w :: 8 word) :: u32) = (w :: 8 word)"
  by (rule bit_word_eqI) (simp add: bit_simps)

lemma byte_through_int:
  "ucast ((ucast (b :: u8) :: u32) AND 0xFF) = (b :: u8)" "0 \<le> sint (ucast b :: u32)" "sint (ucast b :: u32) \<le> 255"
proof -
  show "ucast ((ucast b :: u32) AND 0xFF) = b"
  proof -
    have m: "(0xFF :: u32) = mask 8"
      by (simp add: mask_eq_exp_minus_1)
    show ?thesis
      unfolding m by (rule bit_word_eqI) (auto simp: bit_simps)
  qed
  have b: "0 \<le> uint b" "uint b < 256"
    using unsigned_greater_eq [of b, where ?'a = int] unsigned_less [of b, where ?'a = int] by simp_all
  then have "uint (ucast b :: u32) = uint b"
    by (simp add: unsigned_ucast_eq take_bit_int_eq_self_iff)
  moreover have "signed_take_bit 31 (uint b) = uint b"
  proof (rule signed_take_bit_int_eq_self)
    show "- (2 ^ 31) \<le> uint b"
      by (rule order_trans [OF _ b(1)]) simp
    show "uint b < 2 ^ 31"
      using b(2) by simp
  qed
  ultimately show "0 \<le> sint (ucast b :: u32)" "sint (ucast b :: u32) \<le> 255"
    using b by (simp_all add: sint_uint)
qed

lemma bytes_of_bytes: "bytes_of (map ucast bs) = Some bs"
  by (induction bs) (use byte_through_int in \<open>auto simp: not_less\<close>)

text \<open>The values the properties of the three classes take.\<close>

lemma typed_cases:
  assumes "ps \<in> set (class_properties c)" "typed_value ps v" "v \<noteq> ps_default ps"
  obtains (string) s where "v = GString (Some s)" "ps_type ps = T_STRING"
    | (boolean) b where "v = GBoolean b" "ps_type ps = T_BOOLEAN"
    | (uint) w where "v = GUInt w" "ps_type ps = T_UINT"
    | (uint64) w where "v = GUInt64 w" "ps_type ps = T_UINT64"
    | (char) w where "v = GChar w" "ps_type ps = T_CHAR"
    | (bytes) bs where "v = GCollection T_UCHAR (Some (map GUChar bs))" "ps_type ps = T_COLLECTION T_UCHAR"
proof (cases "ps_kind ps")
  case P_STRING
  then obtain t where "v = GString t"
    using assms(2) read_back(1) [of v] by (metis kind_type.simps(1) ps_type_def typed_value_def)
  then show ?thesis
    using string assms(3) P_STRING by (cases t) (auto simp: ps_default_def ps_type_def)
next
  case (P_SPECIALIZED t)
  then have t: "t = T_COLLECTION T_UCHAR"
    using ps_specialized [OF assms(1)] by blast
  then obtain bs where v: "v = GCollection T_UCHAR (map_option (map GUChar) bs)"
    using read_back_bytes [of v] assms(2) P_SPECIALIZED by (metis kind_type.simps(6) ps_type_def typed_value_def)
  then show ?thesis
    using bytes assms(3) P_SPECIALIZED t by (cases bs) (auto simp: ps_default_def ps_type_def)
next
  case (P_BOOLEAN d)
  then show ?thesis
    using boolean assms(2) read_back(2) [of v] by (metis kind_type.simps(2) ps_type_def typed_value_def)
next
  case (P_UINT a b d)
  then show ?thesis
    using uint assms(2) read_back(3) [of v] by (metis kind_type.simps(3) ps_type_def typed_value_def)
next
  case (P_UINT64 a b d)
  then show ?thesis
    using uint64 assms(2) read_back(4) [of v] by (metis kind_type.simps(4) ps_type_def typed_value_def)
next
  case (P_CHAR a b d)
  then show ?thesis
    using char assms(2) read_back(5) [of v] by (metis kind_type.simps(5) ps_type_def typed_value_def)
qed

lemma read_stored:
  assumes "ps \<in> set (class_properties c)" "typed_value ps v" "v \<noteq> ps_default ps"
  shows "read_value (\<lambda>_. False) key (ps_type ps) (stored ps v) = Some v"
  using assms
proof (cases rule: typed_cases)
  case (bytes bs)
  then show ?thesis
    using assms(3) bytes_of_bytes [of bs] by (simp add: stored_def comp_def)
qed (use assms(3) in \<open>simp_all add: stored_def strtoull_print strtoull_print_fits\<close>)

lemma write_value_get:
  assumes "gconf_laws G" "ps \<in> set (class_properties c)" "typed_value ps v" "v \<noteq> ps_default ps"
  shows "gconf_get G (write_value G dir key (Some sn) v g) k = (if k = gc_key dir sn key then stored ps v else gconf_get G g k)"
  using assms(2-4)
proof (cases rule: typed_cases)
  case (bytes bs)
  then show ?thesis
    using assms(4) by (simp add: write_value_def stored_def bm_gconf_set_bytearray_helper_def gconf_store_def
        gconf_lawsD [OF assms(1)] comp_def)
qed (use assms(4) in \<open>simp_all add: write_value_def stored_def gconf_store_def gconf_lawsD [OF assms(1)]\<close>)

section \<open>Writing the settings\<close>

text \<open>Steps that each change the keys of a short list.\<close>

lemma fold_updates:
  assumes "\<And>x g k. x \<in> set xs \<Longrightarrow> gconf_get G (f g x) k = (case map_of (u x) k of Some v \<Rightarrow> v | None \<Rightarrow> gconf_get G g k)"
  shows "gconf_get G (foldl f g xs) k = (case map_of (concat (map u (rev xs))) k of Some v \<Rightarrow> v | None \<Rightarrow> gconf_get G g k)"
  using assms
  by (induction xs arbitrary: g) (auto simp: map_add_def split: option.split)

lemma map_of_unique: "(k, v) \<in> set xs \<Longrightarrow> (\<And>w. (k, w) \<in> set xs \<Longrightarrow> w = v) \<Longrightarrow> map_of xs k = Some v"
  by (metis map_of_SomeD weak_map_of_SomeI)

definition not_written :: "setting \<Rightarrow> param_spec \<Rightarrow> bool" where
  "not_written s ps \<longleftrightarrow> object_type s = BM_TYPE_SETTING_CONNECTION \<and> ps_name ps = ''read-only''"

definition update_of :: "string \<Rightarrow> setting \<Rightarrow> param_spec \<Rightarrow> (string \<times> gconf_value option) list" where
  "update_of dir s ps =
     (if not_written s ps then []
      else [(gc_key dir (class_name (object_type s)) (ps_name ps), stored ps (g_object_get_property s ps))])"

lemma copy_one_update:
  assumes "gconf_laws G" "inj gt" "setting_ok s" "ps \<in> set (class_properties (object_type s))"
  shows "gconf_get G (copy_one_setting_value_to_gconf gt G dir s ps (g_object_get_property s ps) g) k =
    (case map_of (update_of dir s ps) k of Some v \<Rightarrow> v | None \<Rightarrow> gconf_get G g k)"
proof -
  let ?v = "g_object_get_property s ps"
  have n: "set_name s = Some (class_name (object_type s))"
    using assms(3) by (simp add: setting_ok_def)
  have typed: "typed_value ps ?v"
    by (rule get_property_some(2) [OF assms(4)])
  show ?thesis
  proof (cases "?v = ps_default ps")
    case True
    then have "param_value_defaults gt ps ?v"
      using param_value_defaults_iff [OF assms(2,4)] by simp
    then show ?thesis
      using n by (auto simp: copy_one_setting_value_to_gconf_def Let_def update_of_def not_written_def stored_def True
          gconf_lawsD [OF assms(1)])
  next
    case False
    then have "\<not> param_value_defaults gt ps ?v"
      using param_value_defaults_iff [OF assms(2,4)] by simp
    then show ?thesis
      using n by (simp add: copy_one_setting_value_to_gconf_def Let_def update_of_def not_written_def
          write_value_get [OF assms(1,4) typed False])
  qed
qed

definition updates :: "string \<Rightarrow> connection \<Rightarrow> (string \<times> gconf_value option) list" where
  "updates dir c =
     concat (map (\<lambda>s. concat (map (update_of dir s) (rev (class_properties (object_type s))))) (rev (gh_values (conn_settings c))))"

lemma write_settings:
  assumes "gconf_laws G" "inj gt" "connection_ok c"
  shows "gconf_get G (bm_connection_for_each_setting_value c (copy_one_setting_value_to_gconf gt G dir) g) k =
    (case map_of (updates dir c) k of Some v \<Rightarrow> v | None \<Rightarrow> gconf_get G g k)"
proof -
  have "gconf_get G ((\<lambda>g (key, s). bm_setting_enumerate_values s (copy_one_setting_value_to_gconf gt G dir) g) g x) k =
      (case map_of ((\<lambda>(key, s). concat (map (update_of dir s) (rev (class_properties (object_type s))))) x) k of
         Some v \<Rightarrow> v | None \<Rightarrow> gconf_get G g k)" if "x \<in> set (conn_settings c)" for x g k
  proof -
    obtain key s where x: "x = (key, s)"
      by fastforce
    then have "setting_ok s"
      using that assms(3) by (auto simp: connection_ok_def connection_wf_entry)
    from fold_updates [of "class_properties (object_type s)" G
        "\<lambda>g ps. copy_one_setting_value_to_gconf gt G dir s ps (g_object_get_property s ps) g" "update_of dir s",
        OF copy_one_update [OF assms(1,2) this]]
    show ?thesis
      by (simp add: x bm_setting_enumerate_values_def)
  qed
  from fold_updates [of "conn_settings c" G, OF this] show ?thesis
    by (simp add: bm_connection_for_each_setting_value_def gh_foreach_def updates_def gh_values_def rev_map [symmetric]
        comp_def case_prod_unfold)
qed

lemma class_name_append:
  "class_name a @ ''/'' @ x = class_name b @ ''/'' @ y \<longleftrightarrow> a = b \<and> x = y"
  by (cases a; cases b) simp_all

lemma gc_key_inj: "gc_key dir (class_name a) x = gc_key dir (class_name b) y \<longleftrightarrow> a = b \<and> x = y"
  using class_name_append [of a x b y] by (simp add: gc_key_def)

lemma updates_iff:
  assumes "connection_wf c"
  shows "(k, v) \<in> set (updates dir c) \<longleftrightarrow>
    (\<exists>s ps. bm_connection_get_setting c (object_type s) = Some s \<and> ps \<in> set (class_properties (object_type s)) \<and>
       \<not> not_written s ps \<and> k = gc_key dir (class_name (object_type s)) (ps_name ps) \<and> v = stored ps (g_object_get_property s ps))"
proof -
  have one: "(k, v) \<in> set (update_of dir s ps) \<longleftrightarrow> \<not> not_written s ps \<and>
      k = gc_key dir (class_name (object_type s)) (ps_name ps) \<and> v = stored ps (g_object_get_property s ps)" for s ps
    by (simp add: update_of_def)
  have "(k, v) \<in> set (updates dir c) \<longleftrightarrow>
      (\<exists>s \<in> set (gh_values (conn_settings c)). \<exists>ps \<in> set (class_properties (object_type s)). (k, v) \<in> set (update_of dir s ps))"
    by (simp add: updates_def)
  then show ?thesis
    unfolding one Bex_def settings_of [OF assms] by blast
qed

lemma updates_lookup:
  assumes "connection_wf c" "bm_connection_get_setting c cls = Some s" "ps \<in> set (class_properties cls)" "\<not> not_written s ps"
  shows "map_of (updates dir c) (gc_key dir (class_name cls) (ps_name ps)) = Some (stored ps (g_object_get_property s ps))"
proof (rule map_of_unique)
  have o: "object_type s = cls"
    using get_setting_type [OF assms(1,2)] .
  show "(gc_key dir (class_name cls) (ps_name ps), stored ps (g_object_get_property s ps)) \<in> set (updates dir c)"
    unfolding updates_iff [OF assms(1)]
    by (intro exI [of _ s] exI [of _ ps]) (simp add: assms o)
  fix w
  assume "(gc_key dir (class_name cls) (ps_name ps), w) \<in> set (updates dir c)"
  then obtain s' ps' where "bm_connection_get_setting c (object_type s') = Some s'" "ps' \<in> set (class_properties (object_type s'))"
    "cls = object_type s'" "ps_name ps = ps_name ps'" "w = stored ps' (g_object_get_property s' ps')"
    unfolding updates_iff [OF assms(1)] gc_key_inj by blast
  then show "w = stored ps (g_object_get_property s ps)"
    using assms(2,3) po.names_inj [of ps' cls ps] by simp
qed

text \<open>Every setting leaves at least the key of its name.\<close>

lemma name_property: "\<exists>ps \<in> set (class_properties c). ps_name ps = ''name'' \<and> ps_default ps = GString None"
  by (cases c) (simp_all add: property_table_defs ps_default_def)

lemma name_key_written:
  assumes "connection_ok c" "bm_connection_get_setting c cls = Some s"
  shows "map_of (updates dir c) (gc_key dir (class_name cls) ''name'') = Some (Some (GC_String (class_name cls)))"
proof -
  obtain ps where ps: "ps \<in> set (class_properties cls)" "ps_name ps = ''name''" "ps_default ps = GString None"
    using name_property [of cls] by blast
  have "g_object_get_property s ps = GString (Some (class_name cls))"
    using connection_ok_name [OF assms] ps(2) by (simp add: g_object_get_property_def setting_get_name)
  then show ?thesis
    using updates_lookup [of c cls s ps dir] assms ps by (simp add: connection_ok_def not_written_def stored_def)
qed

section \<open>Removing what is left over\<close>

lemma remove_fold:
  assumes "gconf_laws G"
  shows "gconf_get G (foldl (\<lambda>g key. if P key then gconf_recursive_unset G key g else g) g ds) k =
    (if \<exists>d \<in> set ds. P d \<and> (k = d \<or> prefix (d @ ''/'') k) then None else gconf_get G g k)"
  by (induction ds arbitrary: g) (auto simp: gconf_lawsD [OF assms])

lemma class_name_no_slash: "CHR ''/'' \<notin> set (class_name c)"
  by (cases c) simp_all

lemma below_dir:
  assumes "CHR ''/'' \<notin> set x" "CHR ''/'' \<notin> set y"
  shows "prefix (dir @ ''/'' @ x @ ''/'') (dir @ ''/'' @ y @ ''/'' @ r) \<longleftrightarrow> x = y"
proof
  assume "prefix (dir @ ''/'' @ x @ ''/'') (dir @ ''/'' @ y @ ''/'' @ r)"
  then obtain z where "x @ ''/'' @ z = y @ ''/'' @ r"
    by (auto simp: prefix_def)
  then have "takeWhile (\<lambda>c. c \<noteq> CHR ''/'') (x @ ''/'' @ z) = takeWhile (\<lambda>c. c \<noteq> CHR ''/'') (y @ ''/'' @ r)"
    by simp
  moreover have "\<forall>c \<in> set x. c \<noteq> CHR ''/''" "\<forall>c \<in> set y. c \<noteq> CHR ''/''"
    using assms by auto
  ultimately show "x = y"
    by (simp add: takeWhile_append)
qed (simp add: prefix_def)

lemma not_dir_itself:
  assumes "CHR ''/'' \<notin> set x"
  shows "dir @ ''/'' @ y @ ''/'' @ r \<noteq> dir @ ''/'' @ x"
proof
  assume "dir @ ''/'' @ y @ ''/'' @ r = dir @ ''/'' @ x"
  then have "x = y @ ''/'' @ r"
    by simp
  then show False
    using assms by simp
qed

text \<open>The keys below the directory of a name, after the leftovers have gone.\<close>

lemma removed_get:
  assumes "gconf_laws G" "CHR ''/'' \<notin> set y"
  shows "gconf_get G (remove_leftovers G c dir g) (dir @ ''/'' @ y @ ''/'' @ r) =
    (if bm_connection_get_setting_by_name c y = None then None else gconf_get G g (dir @ ''/'' @ y @ ''/'' @ r))"
proof -
  obtain ds where ds: "gconf_all_dirs G dir g = Some ds"
    "set ds = {dir @ ''/'' @ x | x. CHR ''/'' \<notin> set x \<and> (\<exists>r. gconf_get G g (dir @ ''/'' @ x @ ''/'' @ r) \<noteq> None)}"
    using gconf_lawsD(4) [OF assms(1), of dir g] by blast
  let ?P = "\<lambda>key. bm_connection_get_setting_by_name c (drop (length dir + 1) key) = None"
  have d: "drop (length dir + 1) (dir @ ''/'' @ x) = x" for x
    by simp
  have "(\<exists>d \<in> set ds. ?P d \<and> (dir @ ''/'' @ y @ ''/'' @ r = d \<or> prefix (d @ ''/'') (dir @ ''/'' @ y @ ''/'' @ r))) \<longleftrightarrow>
      bm_connection_get_setting_by_name c y = None \<and> (\<exists>r. gconf_get G g (dir @ ''/'' @ y @ ''/'' @ r) \<noteq> None)"
    (is "?L \<longleftrightarrow> ?R")
  proof
    assume ?L
    then obtain x where x: "CHR ''/'' \<notin> set x" "\<exists>r. gconf_get G g (dir @ ''/'' @ x @ ''/'' @ r) \<noteq> None"
      "bm_connection_get_setting_by_name c x = None"
      "dir @ ''/'' @ y @ ''/'' @ r = dir @ ''/'' @ x \<or> prefix (dir @ ''/'' @ x @ ''/'') (dir @ ''/'' @ y @ ''/'' @ r)"
      unfolding ds(2) using d by fastforce
    then have "x = y"
      using not_dir_itself [OF x(1)] below_dir [OF x(1) assms(2)] by blast
    then show ?R
      using x by blast
  next
    assume ?R
    then have "dir @ ''/'' @ y \<in> set ds" "?P (dir @ ''/'' @ y)"
      unfolding ds(2) using assms(2) by auto
    then show ?L
      using below_dir [OF assms(2) assms(2), of dir r] by fastforce
  qed
  then show ?thesis
    unfolding remove_leftovers_def ds(1) option.case remove_fold [OF assms(1), of ?P] by metis
qed

section \<open>Reading\<close>

text \<open>The setting a directory starts from has every property at its default.\<close>

lemma newv_default_value:
  assumes "g_object_newv tr c [] = Some d" "ps \<in> set (class_properties c)" "ps_name ps \<noteq> ''name''"
  shows "setting_get_property d (ps_name ps) = Some (ps_default ps)"
proof -
  let ?kvs = "map (\<lambda>ps. (ps_name ps, ps_default ps)) (filter ps_construct (class_properties c))"
  have d: "d = foldl (\<lambda>s (n, v). setting_set_property s n v) (setting_instance_init c) ?kvs"
    using assms(1) by (simp add: g_object_newv_def construct_defaults setting_constructor_def split: if_splits)
  have typed: "\<exists>qs \<in> set (class_properties (object_type (setting_instance_init c))). ps_name qs = n \<and> typed_value qs v"
    if "(n, v) \<in> set ?kvs" for n v
    using that ps_default_typed by auto
  have dist: "distinct (map fst ?kvs)"
    using distinct_map_filter [OF class_properties_distinct, of ps_construct c] by (simp add: comp_def)
  have "map_of ?kvs (ps_name ps) = (if ps_construct ps then Some (ps_default ps) else None)"
    using assms(2) by (simp add: map_of_find_property find_property_eq)
  then show ?thesis
    unfolding d using po.getp_assign [OF typed dist, of "ps_name ps"] ps_initial [OF assms(2)] ps_not_serialize [OF assms(2)] assms(3)
    by (auto split: if_splits)
qed

lemma newv_name:
  assumes "g_object_newv tr c [] = Some d"
  shows "set_name d = Some (class_name c)"
proof -
  let ?kvs = "map (\<lambda>ps. (ps_name ps, ps_default ps)) (filter ps_construct (class_properties c))"
  have d: "d = foldl (\<lambda>s (n, v). setting_set_property s n v) (setting_instance_init c) ?kvs"
    using assms by (simp add: g_object_newv_def construct_defaults setting_constructor_def split: if_splits)
  have "''name'' \<notin> fst ` set ?kvs"
    by (cases c) (simp_all add: property_table_defs)
  then show ?thesis
    unfolding d by (subst set_name_assign) (simp_all add: setting_instance_init_def)
qed

text \<open>What a connection keeps of a setting: everything but the property that is not written.\<close>

definition without_read_only :: "setting \<Rightarrow> setting" where
  "without_read_only s =
     (case set_priv s of
        Connection_Priv p \<Rightarrow> s\<lparr>set_priv := Connection_Priv (p\<lparr>con_read_only := False\<rparr>)\<rparr>
      | _ \<Rightarrow> s)"

lemma without_read_only_type [simp]: "object_type (without_read_only s) = object_type s"
  by (simp add: without_read_only_def object_type_def split: setting_priv.split)

lemma without_read_only_get:
  assumes "ps \<in> set (class_properties (object_type s))"
  shows "setting_get_property (without_read_only s) (ps_name ps) =
    (if not_written s ps then Some (ps_default ps) else setting_get_property s (ps_name ps))"
  using assms
  by (cases "set_priv s")
    (auto simp: without_read_only_def not_written_def object_type_def property_table_defs property_access_defs ps_default_def)

text \<open>The assignments of the reading loop.\<close>

definition read_props :: "setting \<Rightarrow> param_spec list \<Rightarrow> param_spec list" where
  "read_props s pss = filter (\<lambda>ps. ps_name ps \<noteq> ''name'' \<and> \<not> not_written s ps \<and> g_object_get_property s ps \<noteq> ps_default ps) pss"

lemma read_value_None [simp]: "read_value stale key ty None = None"
  by (cases "(stale, key, ty, None :: gconf_value option)" rule: read_value.cases) auto

lemma read_fold:
  assumes "\<And>ps. ps \<in> set pss \<Longrightarrow> ps_name ps \<noteq> ''name'' \<Longrightarrow> \<not> not_written s ps \<Longrightarrow>
      gconf_get G g (gc_key dir (class_name (object_type s)) (ps_name ps)) = stored ps (g_object_get_property s ps)"
    and "set pss \<subseteq> set (class_properties (object_type s))" "setting_ok s" "object_type d = object_type s"
    and "object_type u = object_type s" "set_name u = Some (class_name (object_type s))"
  shows "foldl (\<lambda>u ps. read_one_setting_value_from_gconf tr G (\<lambda>_. False) g dir ps (g_object_get_property d ps) u) u pss =
    foldl (\<lambda>s (n, v). setting_set_property s n v) u (map (\<lambda>ps. (ps_name ps, g_object_get_property s ps)) (read_props s pss))"
  using assms
proof (induction pss arbitrary: u)
  case (Cons ps pss)
  have ps: "ps \<in> set (class_properties (object_type s))"
    using Cons.prems(2) by simp
  have ty: "g_value_type (g_object_get_property d ps) = ps_type ps"
    using get_property_some(2) [of ps d] ps Cons.prems(4) by (simp add: typed_value_def)
  have v: "typed_value ps (g_object_get_property s ps)" "kind_validates (ps_kind ps) (g_object_get_property s ps)"
    using get_property_some(2) [OF ps] setting_validD [OF _ ps] Cons.prems(3) by (auto simp: setting_ok_def)
  let ?u = "read_one_setting_value_from_gconf tr G (\<lambda>_. False) g dir ps (g_object_get_property d ps) u"
  have u: "?u = (if ps \<in> set (read_props s [ps]) then setting_set_property u (ps_name ps) (g_object_get_property s ps) else u)"
  proof (cases "ps_name ps = ''name'' \<or> not_written s ps")
    case True
    then show ?thesis
      using Cons.prems(5) by (auto simp: read_one_setting_value_from_gconf_def Let_def read_props_def not_written_def)
  next
    case False
    then have "gconf_get G g (gc_key dir (class_name (object_type s)) (ps_name ps)) = stored ps (g_object_get_property s ps)"
      using Cons.prems(1) by simp
    then show ?thesis
      using False Cons.prems(5,6) ty read_stored [OF ps v(1)] set_property_typed [OF v]
      by (cases "g_object_get_property s ps = ps_default ps")
        (auto simp: read_one_setting_value_from_gconf_def Let_def read_props_def not_written_def gconf_lookup_def stored_def)
  qed
  have "object_type ?u = object_type s" "set_name ?u = Some (class_name (object_type s))"
    unfolding u using Cons.prems(5,6)
    by (simp add: object_type_set) (simp add: read_props_def setting_set_property_def Cons.prems(6))
  then show ?case
    using Cons.IH [of ?u] Cons.prems(1-4) u by (simp add: read_props_def)
qed (simp add: read_props_def)

text \<open>The keys of a setting determine what is read from its directory.\<close>

lemma read_setting:
  assumes "\<And>ps. ps \<in> set (class_properties (object_type s)) \<Longrightarrow> ps_name ps \<noteq> ''name'' \<Longrightarrow> \<not> not_written s ps \<Longrightarrow>
      gconf_get G g (gc_key dir (class_name (object_type s)) (ps_name ps)) = stored ps (g_object_get_property s ps)"
    and "setting_ok s"
  shows "read_one_setting tr G (\<lambda>_. False) g dir c (dir @ ''/'' @ class_name (object_type s)) =
    bm_connection_add_setting (without_read_only s) c"
proof -
  let ?pss = "class_properties (object_type s)"
  let ?kvs = "map (\<lambda>ps. (ps_name ps, g_object_get_property s ps)) (read_props s ?pss)"
  obtain d where d: "g_object_newv tr (object_type s) [] = Some d" "object_type d = object_type s"
    by (rule newv_defaults)
  have fold: "bm_setting_enumerate_values d (\<lambda>_. read_one_setting_value_from_gconf tr G (\<lambda>_. False) g dir) d =
      foldl (\<lambda>s (n, v). setting_set_property s n v) d ?kvs" (is "?r = _")
    using read_fold [of ?pss s G g dir d d tr, OF assms(1) _ assms(2) d(2) d(2) newv_name [OF d(1)]]
    by (simp add: bm_setting_enumerate_values_def d(2))
  have typed: "\<exists>ps \<in> set (class_properties (object_type d)). ps_name ps = n \<and> typed_value ps v" if "(n, v) \<in> set ?kvs" for n v
    using that get_property_some(2) d(2) by (auto simp: read_props_def)
  have dist: "distinct (map fst ?kvs)"
    using distinct_map_filter [OF class_properties_distinct] by (simp add: comp_def read_props_def)
  have "?r = without_read_only s"
  proof (rule po.getp_ext)
    show "object_type ?r = object_type (without_read_only s)"
      by (simp add: fold po.cls_assign d(2))
    fix ps
    assume "ps \<in> set (class_properties (object_type ?r))"
    then have ps: "ps \<in> set ?pss"
      by (simp add: fold po.cls_assign d(2))
    have "map_of ?kvs (ps_name ps) =
        (if ps_name ps \<noteq> ''name'' \<and> \<not> not_written s ps \<and> g_object_get_property s ps \<noteq> ps_default ps
         then Some (g_object_get_property s ps) else None)"
      by (simp add: read_props_def map_of_find_property find_property_eq [OF ps])
    moreover have "setting_get_property ?r (ps_name ps) =
        (case map_of ?kvs (ps_name ps) of Some v \<Rightarrow> Some v | None \<Rightarrow> setting_get_property d (ps_name ps))"
      unfolding fold by (rule po.getp_assign [OF typed dist])
    ultimately have r: "setting_get_property ?r (ps_name ps) =
        (if ps_name ps \<noteq> ''name'' \<and> \<not> not_written s ps \<and> g_object_get_property s ps \<noteq> ps_default ps
         then Some (g_object_get_property s ps) else setting_get_property d (ps_name ps))"
      by simp
    have "setting_get_property d ''name'' = setting_get_property s ''name''"
      using newv_name [OF d(1)] assms(2) by (simp add: setting_get_name setting_ok_def)
    moreover have "\<not> not_written s ps" if "ps_name ps = ''name''"
      using that by (simp add: not_written_def)
    ultimately show "setting_get_property ?r (ps_name ps) = setting_get_property (without_read_only s) (ps_name ps)"
      using newv_default_value [OF d(1) ps] get_property_some(1) [OF ps] unfolding r without_read_only_get [OF ps]
      by (cases "ps_name ps = ''name''") auto
  qed
  then show ?thesis
    using d(1) by (simp add: read_one_setting_def bm_connection_create_setting_def)
qed

lemma read_settings:
  assumes "\<And>x. x \<in> set ds \<Longrightarrow> \<exists>cls s. x = dir @ ''/'' @ class_name cls \<and> bm_connection_get_setting c cls = Some s \<and>
      (\<forall>c0. read_one_setting tr G stale g dir c0 x = bm_connection_add_setting (f s) c0)"
    and "\<And>s. object_type (f s) = object_type s" "connection_wf c"
  shows "bm_connection_get_setting (foldl (read_one_setting tr G stale g dir) c0 ds) cls =
    (if dir @ ''/'' @ class_name cls \<in> set ds then map_option f (bm_connection_get_setting c cls)
     else bm_connection_get_setting c0 cls)"
  using assms(1)
proof (induction ds arbitrary: c0)
  case (Cons x ds)
  obtain cls' s where x: "x = dir @ ''/'' @ class_name cls'" "bm_connection_get_setting c cls' = Some s"
    "\<And>c0. read_one_setting tr G stale g dir c0 x = bm_connection_add_setting (f s) c0"
    using Cons.prems [of x] by auto
  have "object_type (f s) = cls'"
    using get_setting_type [OF assms(3) x(2)] assms(2) by simp
  then show ?case
    using Cons.IH [of "bm_connection_add_setting (f s) c0"] Cons.prems x by (auto simp: get_add_setting)
qed simp

section \<open>Properties\<close>

lemma ignore_ca_get:
  assumes "gconf_laws G" "k = GCONF_PATH_CONNECTIONS @ r"
  shows "gconf_get G (bm_gconf_set_ignore_ca_cert G uuid phase2 ignore g) k = gconf_get G g k"
proof -
  have "k \<noteq> get_ignore_path u phase2" for u
    by (simp add: assms(2) GCONF_PATH_CONNECTIONS_def get_ignore_path_def APPLET_PREFS_PATH_def)
  then show ?thesis
    by (simp add: bm_gconf_set_ignore_ca_cert_def gconf_lawsD [OF assms(1)] split: option.split)
qed

lemma written_get:
  assumes "gconf_laws G" "inj gt" "connection_ok c" "bm_connection_get_setting c BM_TYPE_SETTING_CONNECTION \<noteq> None"
    and dir: "dir = GCONF_PATH_CONNECTIONS @ n" and y: "CHR ''/'' \<notin> set y"
  shows "gconf_get G (fst (bm_gconf_write_connection gt G callback locked c dir ignore_secrets ia ip g)) (dir @ ''/'' @ y @ ''/'' @ r) =
    (if bm_connection_get_setting_by_name c y = None then None
     else (case map_of (updates dir c) (dir @ ''/'' @ y @ ''/'' @ r) of
             Some v \<Rightarrow> v | None \<Rightarrow> gconf_get G g (dir @ ''/'' @ y @ ''/'' @ r)))"
proof -
  obtain s where s: "bm_connection_get_setting c BM_TYPE_SETTING_CONNECTION = Some s"
    using assms(4) by blast
  then obtain p where "set_priv s = Connection_Priv p"
    using get_setting_type [of c BM_TYPE_SETTING_CONNECTION s] assms(3)
    by (cases "set_priv s") (auto simp: connection_ok_def object_type_def)
  then have w: "fst (bm_gconf_write_connection gt G callback locked c dir ignore_secrets ia ip g) =
      bm_gconf_set_ignore_ca_cert G (bm_setting_connection_get_uuid p) True ip
        (bm_gconf_set_ignore_ca_cert G (bm_setting_connection_get_uuid p) False ia
          (remove_leftovers G c dir
            (bm_connection_for_each_setting_value c (copy_one_setting_value_to_gconf gt G dir) g)))"
    using s by (simp add: bm_gconf_write_connection_def Let_def)
  have "dir @ ''/'' @ y @ ''/'' @ r = GCONF_PATH_CONNECTIONS @ (n @ ''/'' @ y @ ''/'' @ r)"
    by (simp add: dir)
  note keep = ignore_ca_get [OF assms(1) this]
  show ?thesis
    unfolding w keep removed_get [OF assms(1) y] write_settings [OF assms(1-3)] ..
qed

lemma written_key:
  assumes "gconf_laws G" "inj gt" "connection_ok c" "bm_connection_get_setting c BM_TYPE_SETTING_CONNECTION \<noteq> None"
    and dir: "dir = GCONF_PATH_CONNECTIONS @ n" and "bm_connection_get_setting c cls \<noteq> None"
  shows "gconf_get G (fst (bm_gconf_write_connection gt G callback locked c dir ignore_secrets ia ip g)) (gc_key dir (class_name cls) m) =
    (case map_of (updates dir c) (gc_key dir (class_name cls) m) of Some v \<Rightarrow> v | None \<Rightarrow> gconf_get G g (gc_key dir (class_name cls) m))"
  using written_get [where callback = callback and locked = locked and ignore_secrets = ignore_secrets and ia = ia and ip = ip
      and g = g and y = "class_name cls" and r = m, OF assms(1-4) dir class_name_no_slash] assms(6)
  unfolding gc_key_def by (simp add: bm_connection_get_setting_by_name_def)

lemma setting_by_name:
  "bm_connection_get_setting_by_name c y \<noteq> None \<longleftrightarrow> (\<exists>cls. y = class_name cls \<and> bm_connection_get_setting c cls \<noteq> None)"
  using lookup_setting_type_iff [of y] by (auto simp: bm_connection_get_setting_by_name_def split: option.split)

lemma written_dirs:
  assumes "gconf_laws G" "inj gt" "connection_ok c" "bm_connection_get_setting c BM_TYPE_SETTING_CONNECTION \<noteq> None"
    and dir: "dir = GCONF_PATH_CONNECTIONS @ n"
  shows "\<exists>ds. gconf_all_dirs G dir (fst (bm_gconf_write_connection gt G callback locked c dir ignore_secrets ia ip g)) = Some ds \<and>
    set ds = {dir @ ''/'' @ class_name cls | cls. bm_connection_get_setting c cls \<noteq> None}"
proof -
  define h where "h = fst (bm_gconf_write_connection gt G callback locked c dir ignore_secrets ia ip g)"
  have present: "(\<exists>r. gconf_get G h (dir @ ''/'' @ y @ ''/'' @ r) \<noteq> None) \<longleftrightarrow>
      (\<exists>cls. y = class_name cls \<and> bm_connection_get_setting c cls \<noteq> None)" if "CHR ''/'' \<notin> set y" for y
  proof
    assume "\<exists>r. gconf_get G h (dir @ ''/'' @ y @ ''/'' @ r) \<noteq> None"
    then show "\<exists>cls. y = class_name cls \<and> bm_connection_get_setting c cls \<noteq> None"
      unfolding h_def written_get [OF assms(1-4) dir that] setting_by_name [symmetric] by (metis (full_types))
  next
    assume "\<exists>cls. y = class_name cls \<and> bm_connection_get_setting c cls \<noteq> None"
    then obtain cls s where y: "y = class_name cls" "bm_connection_get_setting c cls = Some s"
      by blast
    have "gconf_get G h (gc_key dir (class_name cls) ''name'') \<noteq> None"
      unfolding h_def using y(2) by (subst written_key [OF assms(1-4) dir]) (simp_all add: name_key_written [OF assms(3) y(2)])
    then show "\<exists>r. gconf_get G h (dir @ ''/'' @ y @ ''/'' @ r) \<noteq> None"
      unfolding y(1) gc_key_def by blast
  qed
  obtain ds where ds: "gconf_all_dirs G dir h = Some ds"
    "set ds = {dir @ ''/'' @ x | x. CHR ''/'' \<notin> set x \<and> (\<exists>r. gconf_get G h (dir @ ''/'' @ x @ ''/'' @ r) \<noteq> None)}"
    using gconf_lawsD(4) [OF assms(1), of dir h] by blast
  have "set ds = {dir @ ''/'' @ class_name cls | cls. bm_connection_get_setting c cls \<noteq> None}"
    unfolding ds(2) using present class_name_no_slash by blast
  then show ?thesis
    using ds(1) unfolding h_def by blast
qed

lemma written_read_back:
  assumes "gconf_laws G" "inj gt" "connection_ok c" "bm_connection_get_setting c BM_TYPE_SETTING_CONNECTION \<noteq> None"
    and dir: "dir = GCONF_PATH_CONNECTIONS @ n"
  shows "\<exists>d. bm_gconf_read_connection tr G (\<lambda>_. False)
      (fst (bm_gconf_write_connection gt G callback locked c dir ignore_secrets ia ip g)) dir = Some d \<and>
    (\<forall>cls. bm_connection_get_setting d cls = map_option without_read_only (bm_connection_get_setting c cls))"
proof -
  define h where "h = fst (bm_gconf_write_connection gt G callback locked c dir ignore_secrets ia ip g)"
  have wf: "connection_wf c"
    using assms(3) by (simp add: connection_ok_def)
  obtain ds where ds: "gconf_all_dirs G dir h = Some ds"
    "set ds = {dir @ ''/'' @ class_name cls | cls. bm_connection_get_setting c cls \<noteq> None}"
    using written_dirs [OF assms] unfolding h_def by blast
  have one: "\<exists>cls s. x = dir @ ''/'' @ class_name cls \<and> bm_connection_get_setting c cls = Some s \<and>
      (\<forall>c0. read_one_setting tr G (\<lambda>_. False) h dir c0 x = bm_connection_add_setting (without_read_only s) c0)"
    if m: "x \<in> set ds" for x
  proof -
    obtain cls s where x: "x = dir @ ''/'' @ class_name cls" and s: "bm_connection_get_setting c cls = Some s"
      using m unfolding ds(2) by blast
    have o: "object_type s = cls" "setting_ok s"
      using get_setting_type [OF wf s] assms(3) s by (auto simp: connection_ok_def)
    have "read_one_setting tr G (\<lambda>_. False) h dir c0 (dir @ ''/'' @ class_name (object_type s)) =
        bm_connection_add_setting (without_read_only s) c0" for c0
      using written_key [where callback = callback and locked = locked and ignore_secrets = ignore_secrets and ia = ia and ip = ip
          and g = g and cls = cls, OF assms(1-4) dir] s updates_lookup [OF wf s]
      by (intro read_setting [OF _ o(2)]) (simp add: o(1) h_def)
    then show ?thesis
      using x s o(1) by blast
  qed
  have "dir @ ''/'' @ class_name cls \<in> set ds \<longleftrightarrow> bm_connection_get_setting c cls \<noteq> None" for cls
    unfolding ds(2) by auto
  moreover from this [of BM_TYPE_SETTING_CONNECTION] have "ds \<noteq> []"
    using assms(4) by auto
  ultimately show ?thesis
    using ds(1) read_settings [OF one without_read_only_type wf]
    by (auto simp: bm_gconf_read_connection_def get_new h_def [symmetric])
qed

text \<open>C26: a connection that is written to a directory of GConf, whatever was there before, is read back from it: the same settings, each with
  all its properties except the one that says it is read-only, which is neither written nor read.  (The number of a
  timestamp or of a delay is read only when \<^verbatim>\<open>errno\<close> is not left over from an earlier call.)\<close>

theorem gconf_connection_roundtrip:
  assumes "gconf_laws G" "inj gt" "connection_ok c" "bm_connection_get_setting c BM_TYPE_SETTING_CONNECTION \<noteq> None"
    and dir: "dir = GCONF_PATH_CONNECTIONS @ n"
  shows "\<exists>d. bm_gconf_read_connection tr G (\<lambda>_. False)
      (fst (bm_gconf_write_connection gt G callback locked c dir ignore_secrets ia ip g)) dir = Some d \<and>
    (\<forall>cls. bm_connection_get_setting d cls = map_option without_read_only (bm_connection_get_setting c cls))"
  by (rule written_read_back [OF assms])

text \<open>A database that keeps the laws: a list of keys and values.\<close>

definition subdir_of :: "string \<Rightarrow> string \<Rightarrow> string option" where
  "subdir_of d k =
     (let t = drop (length d + 1) k in
      if prefix (d @ ''/'') k \<and> CHR ''/'' \<in> set t then Some (d @ ''/'' @ takeWhile (\<lambda>c. c \<noteq> CHR ''/'') t) else None)"

definition list_gconf :: "(string \<times> gconf_value) list gconf_client" where
  "list_gconf =
     \<lparr>gconf_get = map_of, gconf_set = AList.update, gconf_unset = (\<lambda>k. filter (\<lambda>(k', v). k' \<noteq> k)),
      gconf_recursive_unset = (\<lambda>d. filter (\<lambda>(k, v). \<not> (k = d \<or> prefix (d @ ''/'') k))),
      gconf_all_dirs = (\<lambda>d g. Some (List.map_filter (\<lambda>(k, v). subdir_of d k) g)),
      gconf_all_entries = (\<lambda>d g. []), gconf_escape_key = (\<lambda>k. k)\<rparr>"

lemma subdir_of_iff:
  "subdir_of d k = Some y \<longleftrightarrow> (\<exists>x r. y = d @ ''/'' @ x \<and> CHR ''/'' \<notin> set x \<and> k = d @ ''/'' @ x @ ''/'' @ r)"
proof
  assume s: "subdir_of d k = Some y"
  then obtain t where t: "k = d @ ''/'' @ t" "CHR ''/'' \<in> set t" "y = d @ ''/'' @ takeWhile (\<lambda>c. c \<noteq> CHR ''/'') t"
    by (auto simp: subdir_of_def Let_def prefix_def split: if_splits)
  obtain x r where "t = x @ CHR ''/'' # r" "CHR ''/'' \<notin> set x"
    using split_list_first [OF t(2)] by blast
  moreover from this have "takeWhile (\<lambda>c. c \<noteq> CHR ''/'') t = x"
    by (auto simp: takeWhile_append)
  ultimately show "\<exists>x r. y = d @ ''/'' @ x \<and> CHR ''/'' \<notin> set x \<and> k = d @ ''/'' @ x @ ''/'' @ r"
    using t by auto
next
  assume "\<exists>x r. y = d @ ''/'' @ x \<and> CHR ''/'' \<notin> set x \<and> k = d @ ''/'' @ x @ ''/'' @ r"
  then show "subdir_of d k = Some y"
    by (auto simp: subdir_of_def Let_def prefix_def takeWhile_append)
qed

lemma map_of_filter_key_pred: "map_of (filter (\<lambda>(k, v). P k) g) k = (if P k then map_of g k else None)"
  by (induction g) auto

lemma list_gconf_dirs:
  "set (List.map_filter (\<lambda>(k, v :: gconf_value). subdir_of d k) g) =
     {d @ ''/'' @ x | x. CHR ''/'' \<notin> set x \<and> (\<exists>r. map_of g (d @ ''/'' @ x @ ''/'' @ r) \<noteq> None)}"
proof -
  have "set (List.map_filter f g) = {y. \<exists>e \<in> set g. f e = Some y}" for f :: "string \<times> gconf_value \<Rightarrow> string option"
    by (induction g) (auto simp: List.map_filter_simps split: option.split)
  then have "set (List.map_filter (\<lambda>(k, v). subdir_of d k) g) = {y. \<exists>k \<in> fst ` set g. subdir_of d k = Some y}"
    by (simp add: case_prod_unfold)
  moreover have "{y. \<exists>k \<in> K. \<exists>x r. y = D x \<and> N x \<and> k = E x r} = {D x | x. N x \<and> (\<exists>r. E x r \<in> K)}"
    for K :: "string set" and D :: "string \<Rightarrow> string" and E :: "string \<Rightarrow> string \<Rightarrow> string" and N
    by blast
  ultimately show ?thesis
    unfolding subdir_of_iff map_of_eq_None_iff not_not by (simp only:)
qed

lemma list_gconf_laws: "gconf_laws list_gconf"
  unfolding gconf_laws_def
proof (intro conjI allI)
  show "gconf_get list_gconf (gconf_set list_gconf k v g) k' = (if k' = k then Some v else gconf_get list_gconf g k')" for g k v k'
    by (simp add: list_gconf_def update_conv')
  show "gconf_get list_gconf (gconf_unset list_gconf k g) k' = (if k' = k then None else gconf_get list_gconf g k')" for g k k'
    by (simp add: list_gconf_def map_of_filter_key_pred)
  show "gconf_get list_gconf (gconf_recursive_unset list_gconf d g) k =
      (if k = d \<or> prefix (d @ ''/'') k then None else gconf_get list_gconf g k)" for g d k
    by (simp only: list_gconf_def gconf_client.simps map_of_filter_key_pred if_not_P if_P split: if_split) blast
  show "\<exists>ds. gconf_all_dirs list_gconf d g = Some ds \<and> set ds = {d @ ''/'' @ x | x. CHR ''/'' \<notin> set x \<and>
      (\<exists>r. gconf_get list_gconf g (d @ ''/'' @ x @ ''/'' @ r) \<noteq> None)}" for d g
    unfolding list_gconf_def gconf_client.simps using list_gconf_dirs by blast
qed

theorem gconf_connection_roundtrip_witness:
  "\<exists>d. bm_gconf_read_connection (\<lambda>_ _. None) list_gconf (\<lambda>_. False)
      (fst (bm_gconf_write_connection sample_gt list_gconf False None sample_connection
        (GCONF_PATH_CONNECTIONS @ ''/1'') True False False [])) (GCONF_PATH_CONNECTIONS @ ''/1'') = Some d \<and>
    (\<forall>cls. bm_connection_get_setting d cls = map_option without_read_only (bm_connection_get_setting sample_connection cls))"
  by (rule gconf_connection_roundtrip [OF list_gconf_laws inj_sample_gt sample_connection_ok(1)])
    (simp_all add: sample_connection_def bm_connection_get_setting_def gh_lookup_def)

text \<open>What the loop over the properties asks of the keyring.\<close>

definition keyring_calls :: "keyring_call list \<Rightarrow> cstr \<Rightarrow> setting \<Rightarrow> keyring_call list" where
  "keyring_calls pre uuid s =
     concat (map (\<lambda>ps. write_one_secret_to_keyring pre uuid s ps (g_object_get_property s ps) []) (class_properties (object_type s)))"

lemma enumerate_keyring:
  "bm_setting_enumerate_values s (write_one_secret_to_keyring pre uuid) out = out @ keyring_calls pre uuid s"
proof -
  have "foldl (\<lambda>u ps. write_one_secret_to_keyring pre uuid s ps (f ps) u) out pss =
      out @ concat (map (\<lambda>ps. write_one_secret_to_keyring pre uuid s ps (f ps) []) pss)" for f pss
    by (induction pss arbitrary: out) (simp_all add: write_one_secret_to_keyring_def)
  then show ?thesis
    by (simp add: bm_setting_enumerate_values_def keyring_calls_def)
qed

lemma write_keyring:
  assumes "bm_connection_get_setting c BM_TYPE_SETTING_CONNECTION = Some sc" "set_priv sc = Connection_Priv p"
  shows "snd (bm_gconf_write_connection gt G callback locked c dir False ia ip g) =
    concat (map (keyring_calls (pre_keyring_callback callback locked) (con_uuid p)) (gh_values (conn_settings c)))"
proof -
  have "foldl (\<lambda>u (k, s). u @ h s) out kvs = out @ concat (map h (map snd kvs))" for h :: "setting \<Rightarrow> keyring_call list" and out kvs
    by (induction kvs arbitrary: out) auto
  from this [of "keyring_calls (pre_keyring_callback callback locked) (con_uuid p)" "[]" "conn_settings c"] show ?thesis
    using assms by (simp add: bm_gconf_write_connection_def Let_def bm_connection_for_each_setting_value_def gh_foreach_def
        enumerate_keyring gh_values_def bm_setting_connection_get_uuid_def)
qed

text \<open>when the secrets are to be written, every property that is a non-empty string goes into the keyring as a secret of the
  connection, its name, identifier and UUID among them, although no property of the program's settings is a secret: the flags of the
  property are not looked at.\<close>

theorem every_string_goes_to_keyring:
  assumes "connection_ok c" "bm_connection_get_setting c BM_TYPE_SETTING_CONNECTION = Some sc"
    and "set_priv sc = Connection_Priv p" "con_uuid p = Some u"
    and s: "bm_connection_get_setting c cls = Some s" and ps: "ps \<in> set (class_properties cls)"
    and v: "setting_get_property s (ps_name ps) = Some (GString (Some (x # xs)))"
  shows "\<not> ps_secret ps \<and> Keyring_Create u (class_name cls) (ps_name ps) (x # xs) \<in>
      set (snd (bm_gconf_write_connection gt G callback locked c dir False ia ip g))"
proof -
  have wf: "connection_wf c"
    using assms(1) by (simp add: connection_ok_def)
  have o: "object_type s = cls" "set_name s = Some (class_name cls)"
    using connection_ok_name [OF assms(1) s] by auto
  have "s \<in> set (gh_values (conn_settings c))"
    using settings_of [OF wf] s o(1) by simp
  moreover have "Keyring_Create u (class_name cls) (ps_name ps) (x # xs) \<in> set (keyring_calls (pre_keyring_callback callback locked) (Some u) s)"
    using ps v o unfolding keyring_calls_def
    by (auto simp: write_one_secret_to_keyring_def g_object_get_property_def bm_gconf_add_keyring_item_def intro!: bexI [of _ ps])
  ultimately show ?thesis
    using ps_not_secret [OF ps] by (auto simp: write_keyring [OF assms(2,3)] assms(4))
qed

theorem every_string_goes_to_keyring_witness:
  "Keyring_Create ''0-f'' ''connection'' ''id'' ''x'' \<in>
     set (snd (bm_gconf_write_connection sample_gt list_gconf False None sample_connection ''/d'' False False False []))"
  using every_string_goes_to_keyring [OF sample_connection_ok(1), where cls = BM_TYPE_SETTING_CONNECTION and u = "''0-f''"
      and x = "CHR ''x''" and xs = "[]" and ps = "hd (tl (class_properties BM_TYPE_SETTING_CONNECTION))"
      and gt = sample_gt and G = list_gconf and callback = False and locked = None and dir = "''/d''" and ia = False and ip = False
      and g = "[]"]
  by (simp add: sample_connection_def bm_connection_get_setting_def gh_lookup_def property_table_defs property_access_defs)

end
