(* ===== verification/Client_Object.thy ===== *)
theory Client_Object
  imports Properties_Changed
begin

text \<open>
  The objects of the client library that mirror objects of the daemon,
  \<^verbatim>\<open>src/barcode-manager/libbm-glib/bm-object.c\<close>: the translation of the property names of the bus,
  the queue of property notifications, the dispatch of \<^verbatim>\<open>PropertiesChanged\<close> to the fields a class
  has registered, and the typed getters.  A field of the C structs that a registration points at is
  a name in \<open>bo_fields\<close>; a class extends the record \<open>bm_object\<close> as its struct embeds \<^verbatim>\<open>BMObject\<close>.  The
  remote object is a parameter, from interface and property name to the answer of \<^verbatim>\<open>Get\<close>.
\<close>

section \<open>Names\<close>

definition g_ascii_isupper :: "char \<Rightarrow> bool" where
  "g_ascii_isupper c = (65 \<le> char_code c \<and> char_code c \<le> 90)"

text \<open>One round of the loop over \<^verbatim>\<open>caps\<close>; \<open>str\<close> is the string built so far.\<close>

definition wincaps_step :: "string \<Rightarrow> char \<Rightarrow> string" where
  "wincaps_step str c =
     (if g_ascii_isupper c
      then (if length str > 0 \<and> (length str < 2 \<or> str ! (length str - 2) \<noteq> CHR ''-'') then str @ ''-'' else str)
           @ [ascii_tolower c]
      else str @ [c])"

definition wincaps_to_dash :: "string \<Rightarrow> string" where
  "wincaps_to_dash caps = foldl wincaps_step [] caps"

section \<open>Objects\<close>

text \<open>A value as it arrives from the bus, where object paths have types of their own.\<close>

datatype wire = Plain gvalue | ObjectPath string | ObjectPaths "string list"

type_synonym pspec = "string \<times> gtype"

text \<open>\<open>bo_class\<close> are the properties the class installs, \<open>bo_pcs\<close> the registrations, of the subclass first:
  from a property to the function that stores it and the field.  \<open>bo_notified\<close> are the
  notifications delivered so far.\<close>

datatype marshal_func = Demarshal_Generic | Demarshal_Service | Demarshal_Devices | Demarshal_Active_Connections

record bm_object =
  bo_path :: string
  bo_class :: "(string, gtype) ghash"
  bo_fields :: "string \<Rightarrow> gvalue"
  bo_pcs :: "(string, marshal_func \<times> string) ghash list"
  bo_notify_props :: "string list"
  bo_notify_id :: bool
  bo_notified :: "string list"

section \<open>Notifications\<close>

definition queue_notify :: "string \<Rightarrow> 'a bm_object_scheme \<Rightarrow> 'a bm_object_scheme" where
  "queue_notify prop object =
     (let priv = object\<lparr>bo_notify_id := True\<rparr>
      in if prop \<in> set (bo_notify_props priv) then priv
         else priv\<lparr>bo_notify_props := prop # bo_notify_props priv\<rparr>)"

text \<open>The idle source: \<open>handler\<close> is what the handlers of \<^verbatim>\<open>notify\<close> do when a property is announced.\<close>

definition deferred_notify_cb ::
  "(string \<Rightarrow> 'a bm_object_scheme \<Rightarrow> 'a bm_object_scheme) \<Rightarrow> 'a bm_object_scheme \<Rightarrow> 'a bm_object_scheme" where
  "deferred_notify_cb handler object =
     foldl (\<lambda>object prop. handler prop (object\<lparr>bo_notified := bo_notified object @ [prop]\<rparr>))
       (object\<lparr>bo_notify_id := False, bo_notify_props := []\<rparr>) (rev (bo_notify_props object))"

definition run_deferred ::
  "(string \<Rightarrow> 'a bm_object_scheme \<Rightarrow> 'a bm_object_scheme) \<Rightarrow> 'a bm_object_scheme \<Rightarrow> 'a bm_object_scheme" where
  "run_deferred handler object = (if bo_notify_id object then deferred_notify_cb handler object else object)"

section \<open>Changes announced by the daemon\<close>

text \<open>The low half of a 64-bit field is overwritten: the store goes through a pointer to \<^verbatim>\<open>int\<close>, and
  \<^verbatim>\<open>g_value_get_int\<close> is 0 for a value that holds no \<^verbatim>\<open>int\<close>.\<close>

definition store_int_at :: "u32 \<Rightarrow> u64 \<Rightarrow> u64" where
  "store_int_at i old = (old AND 0xFFFFFFFF00000000) OR ucast i"

definition demarshal_value :: "gtype \<Rightarrow> wire \<Rightarrow> gvalue \<Rightarrow> gvalue option" where
  "demarshal_value t value old =
     (case t of
        T_STRING \<Rightarrow> (case value of Plain (GString s) \<Rightarrow> Some (GString s) | ObjectPath p \<Rightarrow> Some (GString (Some p)) | _ \<Rightarrow> None)
      | T_BOOLEAN \<Rightarrow> (case value of Plain (GBoolean b) \<Rightarrow> Some (GBoolean b) | _ \<Rightarrow> None)
      | T_CHAR \<Rightarrow> (case value of Plain (GChar c) \<Rightarrow> Some (GChar c) | _ \<Rightarrow> None)
      | T_UCHAR \<Rightarrow> (case value of Plain (GUChar c) \<Rightarrow> Some (GUChar c) | _ \<Rightarrow> None)
      | T_INT \<Rightarrow> (case value of Plain (GInt i) \<Rightarrow> Some (GInt i) | _ \<Rightarrow> None)
      | T_UINT \<Rightarrow> (case value of Plain (GUInt i) \<Rightarrow> Some (GUInt i) | _ \<Rightarrow> None)
      | T_INT64 \<Rightarrow> (case value of Plain (GInt64 _) \<Rightarrow>
          Some (case old of GInt64 w \<Rightarrow> GInt64 (store_int_at 0 w) | _ \<Rightarrow> old) | _ \<Rightarrow> None)
      | T_UINT64 \<Rightarrow> (case value of Plain (GUInt64 _) \<Rightarrow>
          Some (case old of GUInt64 w \<Rightarrow> GUInt64 (store_int_at 0 w) | _ \<Rightarrow> old) | _ \<Rightarrow> None)
      | T_LONG \<Rightarrow> (case value of Plain (GLong i) \<Rightarrow> Some (GLong i) | _ \<Rightarrow> None)
      | T_ULONG \<Rightarrow> (case value of Plain (GULong i) \<Rightarrow> Some (GULong i) | _ \<Rightarrow> None)
      | _ \<Rightarrow> None)"

definition demarshal_generic ::
  "pspec \<Rightarrow> wire \<Rightarrow> string \<Rightarrow> 'a bm_object_scheme \<Rightarrow> bool \<times> 'a bm_object_scheme" where
  "demarshal_generic pspec value field object =
     (case demarshal_value (snd pspec) value (bo_fields object field) of
        Some v \<Rightarrow> (True, queue_notify (fst pspec) (object\<lparr>bo_fields := (bo_fields object)(field := v)\<rparr>))
      | None \<Rightarrow> (False, object))"

text \<open>The loop over the registrations: whether one was found, whether one succeeded.  \<open>call\<close> runs a
  registered function.\<close>

fun run_pcs ::
  "(marshal_func \<Rightarrow> pspec \<Rightarrow> wire \<Rightarrow> string \<Rightarrow> 's \<Rightarrow> bool \<times> 's) \<Rightarrow>
   (string, marshal_func \<times> string) ghash list \<Rightarrow> string \<Rightarrow> pspec \<Rightarrow> wire \<Rightarrow> 's \<Rightarrow> bool \<times> bool \<times> 's" where
  "run_pcs call [] prop_name pspec value self = (False, False, self)"
| "run_pcs call (pcs # rest) prop_name pspec value self =
     (case gh_lookup pcs prop_name of
        None \<Rightarrow> run_pcs call rest prop_name pspec value self
      | Some (func, field) \<Rightarrow>
          (case call func pspec value field self of
             (True, self') \<Rightarrow> (True, True, self')
           | (False, self') \<Rightarrow> (case run_pcs call rest prop_name pspec value self' of (_, ok, s) \<Rightarrow> (True, ok, s))))"

datatype handled = Not_Defined | Unhandled | Update_Failed | Updated

definition handle_property_changed ::
  "(marshal_func \<Rightarrow> pspec \<Rightarrow> wire \<Rightarrow> string \<Rightarrow> 'a bm_object_scheme \<Rightarrow> bool \<times> 'a bm_object_scheme) \<Rightarrow>
   string \<Rightarrow> wire \<Rightarrow> 'a bm_object_scheme \<Rightarrow> handled \<times> 'a bm_object_scheme" where
  "handle_property_changed call key data self =
     (let prop_name = wincaps_to_dash key
      in case gh_lookup (bo_class self) prop_name of
           None \<Rightarrow> (Not_Defined, self)
         | Some t \<Rightarrow>
             (case run_pcs call (bo_pcs self) prop_name (prop_name, t) data self of
                (found, success, self') \<Rightarrow>
                  (if \<not> found then Unhandled else if success then Updated else Update_Failed, self')))"

definition properties_changed_proxy ::
  "(marshal_func \<Rightarrow> pspec \<Rightarrow> wire \<Rightarrow> string \<Rightarrow> 'a bm_object_scheme \<Rightarrow> bool \<times> 'a bm_object_scheme) \<Rightarrow>
   (string, wire) ghash \<Rightarrow> 'a bm_object_scheme \<Rightarrow> 'a bm_object_scheme" where
  "properties_changed_proxy call properties self =
     gh_foreach (\<lambda>key data self. snd (handle_property_changed call key data self)) properties self"

text \<open>The registration of a class's fields, which goes in front of its parents'.\<close>

definition handle_properties_changed ::
  "(string \<times> marshal_func \<times> string) list \<Rightarrow> 'a bm_object_scheme \<Rightarrow> 'a bm_object_scheme" where
  "handle_properties_changed info object =
     object\<lparr>bo_pcs := foldl (\<lambda>instance_table (name, func, field). gh_insert name (func, field) instance_table) gh_new info
              # bo_pcs object\<rparr>"

section \<open>Getters\<close>

text \<open>\<^verbatim>\<open>Get\<close> with the interface and the name; \<open>None\<close> is an error.\<close>

type_synonym remote = "string \<Rightarrow> string \<Rightarrow> wire option"

definition get_string_property :: "remote \<Rightarrow> string \<Rightarrow> string \<Rightarrow> cstr" where
  "get_string_property remote interface prop_name =
     (case remote interface prop_name of
        Some (Plain (GString s)) \<Rightarrow> s
      | Some (ObjectPath p) \<Rightarrow> Some p
      | _ \<Rightarrow> None)"

text \<open>A value of another type is 0 or \<^verbatim>\<open>FALSE\<close>, after a warning.\<close>

definition get_uint_property :: "remote \<Rightarrow> string \<Rightarrow> string \<Rightarrow> u32" where
  "get_uint_property remote interface prop_name =
     (case remote interface prop_name of Some (Plain (GUInt i)) \<Rightarrow> i | _ \<Rightarrow> 0)"

definition get_int_property :: "remote \<Rightarrow> string \<Rightarrow> string \<Rightarrow> u32" where
  "get_int_property remote interface prop_name =
     (case remote interface prop_name of Some (Plain (GInt i)) \<Rightarrow> i | _ \<Rightarrow> 0)"

definition get_boolean_property :: "remote \<Rightarrow> string \<Rightarrow> string \<Rightarrow> bool" where
  "get_boolean_property remote interface prop_name =
     (case remote interface prop_name of Some (Plain (GBoolean b)) \<Rightarrow> b | _ \<Rightarrow> False)"

text \<open>127 when there is no answer.\<close>

definition get_byte_property :: "remote \<Rightarrow> string \<Rightarrow> string \<Rightarrow> u8" where
  "get_byte_property remote interface prop_name =
     (case remote interface prop_name of None \<Rightarrow> 127 | Some (Plain (GUChar c)) \<Rightarrow> c | _ \<Rightarrow> 0)"

section \<open>Lemmas on names\<close>

text \<open>The words of a property name: lower-case letters first, no dashes or capitals within.\<close>

definition plain_char :: "char \<Rightarrow> bool" where
  "plain_char c \<longleftrightarrow> c \<notin> set ''-_'' \<and> \<not> g_ascii_isupper c"

definition plain_word :: "string \<Rightarrow> bool" where
  "plain_word w \<longleftrightarrow> w \<noteq> [] \<and> list_all plain_char w \<and> 97 \<le> char_code (hd w) \<and> char_code (hd w) \<le> 122"

lemma toupper_tolower:
  "97 \<le> char_code c \<Longrightarrow> char_code c \<le> 122 \<Longrightarrow> ascii_tolower (ascii_toupper c) = c \<and> g_ascii_isupper (ascii_toupper c)"
  by (cases c) (auto simp: ascii_tolower_def ascii_toupper_def g_ascii_isupper_def char_code_def of_bool_def split: if_splits)

lemma wincaps_plain: "list_all plain_char w \<Longrightarrow> foldl wincaps_step str w = str @ w"
  by (induction w arbitrary: str) (auto simp: wincaps_step_def plain_char_def)

text \<open>A dash is left out only where it would follow a word of one letter.\<close>

definition dash_due :: "string \<Rightarrow> bool" where
  "dash_due str \<longleftrightarrow> str \<noteq> [] \<and> (length str < 2 \<or> str ! (length str - 2) \<noteq> CHR ''-'')"

lemma wincaps_word:
  assumes "plain_word w"
  shows "foldl wincaps_step str (capitalise w) = (if dash_due str then str @ ''-'' @ w else str @ w)"
proof -
  obtain c cs where w: "w = c # cs"
    using assms by (cases w) (auto simp: plain_word_def)
  have c: "ascii_tolower (ascii_toupper c) = c" "g_ascii_isupper (ascii_toupper c)" and "list_all plain_char cs"
    using assms toupper_tolower [of c] by (simp_all add: plain_word_def w)
  then show ?thesis
    by (simp add: w wincaps_plain wincaps_step_def dash_due_def)
qed

lemma dash_after_word:
  assumes "plain_word w" "length w \<ge> 2 \<or> str = []"
  shows "dash_due (str @ w)"
proof (cases "length w \<ge> 2")
  case True
  then have "length (str @ w) - 2 = length str + (length w - 2)"
    by simp
  then have "(str @ w) ! (length (str @ w) - 2) = w ! (length w - 2)"
    by (simp only: nth_append_length_plus)
  moreover have "w ! (length w - 2) \<in> set w"
    using True by (intro nth_mem) simp
  ultimately show ?thesis
    using assms(1) True by (auto simp: dash_due_def plain_word_def list_all_iff plain_char_def)
next
  case False
  then show ?thesis
    using assms by (cases w) (auto simp: dash_due_def plain_word_def plain_char_def)
qed

lemma wincaps_words:
  assumes "\<And>w. w \<in> set ws \<Longrightarrow> plain_word w \<and> length w \<ge> 2" "dash_due str"
  shows "foldl wincaps_step str (concat (map capitalise ws)) = str @ concat (map (\<lambda>w. ''-'' @ w) ws)"
  using assms
proof (induction ws arbitrary: str)
  case (Cons w ws)
  have w: "plain_word w" "length w \<ge> 2"
    using Cons.prems by auto
  then have "dash_due ((str @ ''-'') @ w)"
    using dash_after_word by blast
  then show ?case
    using Cons.IH [of "(str @ ''-'') @ w"] Cons.prems w(1) by (simp add: wincaps_word)
qed simp

lemma join_with_concat: "join_with sep (w # ws) = w @ concat (map (\<lambda>w. sep @ w) ws)"
  by (induction ws arbitrary: w) auto

lemma tokens_of_words:
  assumes "ws \<noteq> []" "\<And>w. w \<in> set ws \<Longrightarrow> plain_word w"
  shows "split_tokens ''-_'' (join_with ''-'' ws) = ws"
proof (rule split_tokens_join)
  show "set w \<inter> set ''-_'' = {}" if "w \<in> set ws" for w
    using assms(2) [OF that] by (auto simp: plain_word_def list_all_iff plain_char_def)
qed (use assms(1) in simp_all)

lemma dash_name_roundtrip:
  assumes "plain_word w" "\<And>v. v \<in> set ws \<Longrightarrow> plain_word v \<and> length v \<ge> 2"
  shows "wincaps_to_dash (uscore_to_wincaps (Some (join_with ''-'' (w # ws)))) = join_with ''-'' (w # ws)"
proof -
  have "split_tokens ''-_'' (join_with ''-'' (w # ws)) = w # ws"
    using assms by (intro tokens_of_words) auto
  then have "uscore_to_wincaps (Some (join_with ''-'' (w # ws))) = concat (map capitalise (w # ws))"
    by (simp add: uscore_to_wincaps_def wincaps_from_words)
  moreover have "foldl wincaps_step [] (capitalise w) = w" "dash_due w"
    using assms(1) wincaps_word [of w "[]"] dash_after_word [of w "[]"] by (simp_all add: dash_due_def)
  ultimately show ?thesis
    using wincaps_words [of ws w] assms(2) by (simp add: wincaps_to_dash_def join_with_concat)
qed

section \<open>Lemmas on notifications\<close>

definition queue_each :: "string list \<Rightarrow> 'a bm_object_scheme \<Rightarrow> 'a bm_object_scheme" where
  "queue_each props object = foldl (\<lambda>object prop. queue_notify prop object) object props"

definition queue_ok :: "'a bm_object_scheme \<Rightarrow> bool" where
  "queue_ok object \<longleftrightarrow> (bo_notify_id object \<longleftrightarrow> bo_notify_props object \<noteq> []) \<and> distinct (bo_notify_props object)"

lemma queue_notify_ok [bm_inv]: "queue_ok object \<Longrightarrow> queue_ok (queue_notify p object)"
  by (auto simp: queue_ok_def queue_notify_def Let_def)

lemma queue_notify_fields [simp]:
  "bo_notified (queue_notify p object) = bo_notified object"
  "bo_fields (queue_notify p object) = bo_fields object"
  "bo_class (queue_notify p object) = bo_class object"
  "bo_pcs (queue_notify p object) = bo_pcs object"
  "bo_path (queue_notify p object) = bo_path object"
  "bm_object.more (queue_notify p object) = bm_object.more object"
  by (simp_all add: queue_notify_def Let_def)

lemma queue_each_simps [simp]:
  "queue_each [] object = object" "queue_each (ps @ qs) object = queue_each qs (queue_each ps object)"
  "queue_each [p] object = queue_notify p object"
  by (simp_all add: queue_each_def)

lemma queue_each_ok [bm_inv]: "queue_ok object \<Longrightarrow> queue_ok (queue_each ps object)"
  by (induction ps rule: rev_induct) (simp_all add: queue_notify_ok)

lemma queue_each_notified [simp]: "bo_notified (queue_each ps object) = bo_notified object"
  by (induction ps rule: rev_induct) simp_all

lemma queue_each_props:
  "bo_notify_props object = remdups (rev qs) \<Longrightarrow> bo_notify_props (queue_each ps object) = remdups (rev (qs @ ps))"
  by (induction ps rule: rev_induct) (auto simp: queue_notify_def Let_def)

lemma queue_each_more:
  "queue_each ps (object\<lparr>bo_notified := ns\<rparr>) = (queue_each ps object)\<lparr>bo_notified := ns\<rparr>"
proof (induction ps rule: rev_induct)
  case (snoc p ps)
  then show ?case by (simp add: queue_notify_def Let_def)
qed simp

text \<open>Handlers that queue further notifications.\<close>

lemma deliver_all:
  "foldl (\<lambda>object prop. queue_each (reactions prop) (object\<lparr>bo_notified := bo_notified object @ [prop]\<rparr>)) object props =
   (queue_each (concat (map reactions props)) object)\<lparr>bo_notified := bo_notified object @ props\<rparr>"
proof (induction props rule: rev_induct)
  case (snoc p props)
  show ?case
    by (simp add: snoc.IH) (simp add: queue_each_more)
qed simp

section \<open>Properties\<close>

text \<open>Property names survive the way from the daemon to a client: the capitalised name that the daemon
  announces is translated back to the dashed name of the client's property, for every name of dash-separated
  lower-case words of which only the first may be a single letter.\<close>

theorem property_names_roundtrip:
  assumes "plain_word w" "\<And>v. v \<in> set ws \<Longrightarrow> plain_word v \<and> length v \<ge> 2"
  shows "wincaps_to_dash (uscore_to_wincaps (Some (join_with ''-'' (w # ws)))) = join_with ''-'' (w # ws)"
  using assms by (rule dash_name_roundtrip)

theorem property_names_roundtrip_witness:
  "wincaps_to_dash (uscore_to_wincaps (Some ''networking-enabled'')) = ''networking-enabled''"
proof -
  have "plain_word ''networking''" "plain_word ''enabled''"
    by (simp_all add: plain_word_def plain_char_def g_ascii_isupper_def char_code_def)
  then show ?thesis
    using property_names_roundtrip [of "''networking''" "[''enabled'']"] by simp
qed

text \<open>The dash before a word that follows a single letter is lost.\<close>

lemma single_letter_word_loses_dash: "wincaps_to_dash (uscore_to_wincaps (Some ''a-b-cd'')) = ''a-bcd''"
  by (simp add: wincaps_to_dash_def wincaps_step_def uscore_to_wincaps_def ascii_toupper_def ascii_tolower_def
      g_ascii_isupper_def char_code_def)

text \<open>Queued notifications are delivered by the next idle round, each property once, in the order in
  which it was first queued, however often it was; those that the handlers queue meanwhile
  are kept, once each, for the next round, for which a source is pending exactly then.\<close>

theorem notifications_delivered_once:
  assumes "queue_ok object" "bo_notify_props object = []" "props \<noteq> []"
  shows "let object' = run_deferred (\<lambda>p. queue_each (reactions p)) (queue_each props object) in
    bo_notified object' = bo_notified object @ rev (remdups (rev props)) \<and>
    set (bo_notify_props object') = \<Union> (set ` reactions ` set props) \<and> queue_ok object'"
proof -
  define object' where "object' = run_deferred (\<lambda>p. queue_each (reactions p)) (queue_each props object)"
  define firsts where "firsts = rev (remdups (rev props))"
  let ?o = "queue_each props object"
  have ok: "queue_ok ?o" and props: "bo_notify_props ?o = remdups (rev props)"
    using assms(1,2) queue_each_ok queue_each_props [of object "[]" props] by auto
  then have "bo_notify_id ?o"
    using assms(3) by (simp add: queue_ok_def)
  then have o': "object' = (queue_each (concat (map reactions firsts)) (?o\<lparr>bo_notify_id := False, bo_notify_props := []\<rparr>))
      \<lparr>bo_notified := bo_notified object @ firsts\<rparr>"
    unfolding object'_def firsts_def run_deferred_def deferred_notify_cb_def by (simp add: deliver_all props)
  have "queue_ok (queue_each (concat (map reactions firsts)) (?o\<lparr>bo_notify_id := False, bo_notify_props := []\<rparr>))"
    by (rule queue_each_ok) (simp add: queue_ok_def)
  moreover have "bo_notify_props (queue_each (concat (map reactions firsts)) (?o\<lparr>bo_notify_id := False, bo_notify_props := []\<rparr>)) =
      remdups (rev (concat (map reactions firsts)))"
    using queue_each_props [of "?o\<lparr>bo_notify_id := False, bo_notify_props := []\<rparr>" "[]"] by simp
  ultimately have "queue_ok object'" "bo_notified object' = bo_notified object @ firsts"
      "bo_notify_props object' = remdups (rev (concat (map reactions firsts)))"
    unfolding o' by (simp_all add: queue_ok_def)
  then show ?thesis
    by (simp add: Let_def object'_def [symmetric]) (simp add: firsts_def image_image)
qed

theorem notifications_delivered_once_witness:
  "\<exists>object :: bm_object. bo_notified (run_deferred (\<lambda>p. queue_each [''vendor'']) (queue_each [''state'', ''udi'', ''state''] object)) =
     [''state'', ''udi'']"
proof -
  let ?o = "\<lparr>bo_path = ''/'', bo_class = [], bo_fields = (\<lambda>_. GBoolean False), bo_pcs = [], bo_notify_props = [],
    bo_notify_id = False, bo_notified = []\<rparr>"
  have "queue_ok ?o" "bo_notify_props ?o = []"
    by (simp_all add: queue_ok_def)
  then have "bo_notified (run_deferred (\<lambda>p. queue_each [''vendor'']) (queue_each [''state'', ''udi'', ''state''] ?o)) = [''state'', ''udi'']"
    using notifications_delivered_once [of ?o "[''state'', ''udi'', ''state'']" "\<lambda>_. [''vendor'']"] by (simp add: Let_def)
  then show ?thesis
    by blast
qed

text \<open>A 64-bit property loses its value: the low half of the field becomes 0 and the high half stays what it was.\<close>

lemma int64_value_lost:
  "demarshal_value T_INT64 (Plain (GInt64 i)) (GInt64 old) = Some (GInt64 (old AND 0xFFFFFFFF00000000))"
  by (simp add: demarshal_value_def store_int_at_def)

end
