(* ===== verification/Client_Heap.thy ===== *)
theory Client_Heap
  imports Client_Object "HOL-Library.Multiset"
begin

text \<open>
  The life of the client library's objects: the cache by path
  (\<^verbatim>\<open>libbm-glib/bm-object-cache.c\<close>), construction and destruction of \<^verbatim>\<open>bm-object.c\<close>, and the
  arrays of objects that other objects hold (\<^verbatim>\<open>libbm-glib/bm-types.c\<close>).  Objects are numbered as they are
  allocated, and so are the strings that are the keys of the cache; an access to a freed
  object or a freed string is \<open>None\<close>.
\<close>

section \<open>State\<close>

text \<open>\<open>ob_tag\<close> is the string under which the object's \<^verbatim>\<open>bm-object-cache-tag\<close> will take it out of the cache;
  \<open>ob_arrays\<close> are the arrays of objects it holds, by field.\<close>

record cobj =
  ob_path :: string
  ob_refs :: nat
  ob_tag :: nat
  ob_arrays :: "(string, nat list) ghash"

record cheap =
  hp_objs :: "(nat, cobj) ghash"
  hp_next :: nat
  hp_cache :: "(string, nat \<times> nat) ghash"
  hp_next_key :: nat
  hp_freed :: "nat list"

definition heap_init :: cheap where
  "heap_init = \<lparr>hp_objs = gh_new, hp_next = 0, hp_cache = gh_new, hp_next_key = 0, hp_freed = []\<rparr>"

section \<open>The cache\<close>

text \<open>\<^verbatim>\<open>g_hash_table_insert\<close> frees the new key when the table has one already.\<close>

definition object_cache_add :: "string \<Rightarrow> nat \<Rightarrow> cheap \<Rightarrow> nat \<times> cheap" where
  "object_cache_add path object h =
     (let key = hp_next_key h; h1 = h\<lparr>hp_next_key := key + 1\<rparr>
      in (key,
          case gh_lookup (hp_cache h1) path of
            None \<Rightarrow> h1\<lparr>hp_cache := gh_insert path (key, object) (hp_cache h1)\<rparr>
          | Some (old_key, _) \<Rightarrow>
              h1\<lparr>hp_cache := gh_insert path (old_key, object) (hp_cache h1), hp_freed := key # hp_freed h1\<rparr>))"

definition object_cache_remove_by_path :: "string \<Rightarrow> cheap \<Rightarrow> cheap" where
  "object_cache_remove_by_path path h =
     (case gh_lookup (hp_cache h) path of
        None \<Rightarrow> h
      | Some (key, _) \<Rightarrow> h\<lparr>hp_cache := gh_remove path (hp_cache h), hp_freed := key # hp_freed h\<rparr>)"

definition object_cache_get :: "string \<Rightarrow> cheap \<Rightarrow> nat option" where
  "object_cache_get path h = map_option snd (gh_lookup (hp_cache h) path)"

section \<open>Objects\<close>

definition object_new :: "string \<Rightarrow> cheap \<Rightarrow> nat \<times> cheap" where
  "object_new path h =
     (let object = hp_next h
      in case object_cache_add path object h of
           (key, h1) \<Rightarrow>
             (object, h1\<lparr>hp_objs := gh_insert object \<lparr>ob_path = path, ob_refs = 1, ob_tag = key, ob_arrays = gh_new\<rparr> (hp_objs h1),
                         hp_next := object + 1\<rparr>))"

definition object_ref :: "nat \<Rightarrow> cheap \<Rightarrow> cheap" where
  "object_ref object h =
     (case gh_lookup (hp_objs h) object of
        None \<Rightarrow> h
      | Some ob \<Rightarrow> h\<lparr>hp_objs := gh_insert object (ob\<lparr>ob_refs := ob_refs ob + 1\<rparr>) (hp_objs h)\<rparr>)"

definition held_by :: "cobj \<Rightarrow> nat list" where
  "held_by ob = concat (gh_values (ob_arrays ob))"

text \<open>What is left to do while references are dropped: the last reference to an object disposes of it, which
  drops the references it holds, and then finalizes it, which takes it out of the cache.\<close>

datatype task = Unref nat | Finalize nat

definition total_refs :: "cheap \<Rightarrow> nat" where
  "total_refs h = sum_list (map (\<lambda>(_, ob). ob_refs ob + 1) (hp_objs h))"

lemma sum_update:
  "gh_lookup t k = Some v \<Longrightarrow> w v' < (w v :: nat) \<Longrightarrow>
     sum_list (map (\<lambda>(_, x). w x) (gh_insert k v' t)) < sum_list (map (\<lambda>(_, x). w x) t)"
  by (induction t) (auto simp: gh_lookup_def gh_insert_def split: if_splits)

lemma sum_remove_le: "sum_list (map (\<lambda>(_, x). w x) (gh_remove k t)) \<le> (sum_list (map (\<lambda>(_, x). w x) t) :: nat)"
  by (induction t) (auto simp: gh_remove_def)

lemma sum_remove:
  assumes "gh_lookup t k = Some v" "(0 :: nat) < w v"
  shows "sum_list (map (\<lambda>(_, x). w x) (gh_remove k t)) < sum_list (map (\<lambda>(_, x). w x) t)"
  using assms
proof (induction t)
  case (Cons kv t)
  then show ?case
    using sum_remove_le [of w k t] by (cases kv) (auto simp: gh_lookup_def gh_remove_def split: if_splits)
qed (simp add: gh_lookup_def)

lemma cache_remove_fields [simp]:
  "hp_objs (object_cache_remove_by_path p h) = hp_objs h" "hp_next (object_cache_remove_by_path p h) = hp_next h"
  "hp_next_key (object_cache_remove_by_path p h) = hp_next_key h"
  by (auto simp: object_cache_remove_by_path_def split: option.split)

function release :: "task list \<Rightarrow> cheap \<Rightarrow> cheap option" where
  "release [] h = Some h"
| "release (Unref object # tasks) h =
     (case gh_lookup (hp_objs h) object of
        None \<Rightarrow> None
      | Some ob \<Rightarrow>
          if ob_refs ob = 0 then None
          else if ob_refs ob = 1
          then release (map Unref (held_by ob) @ Finalize object # tasks)
                 (h\<lparr>hp_objs := gh_insert object (ob\<lparr>ob_refs := 0, ob_arrays := gh_new\<rparr>) (hp_objs h)\<rparr>)
          else release tasks (h\<lparr>hp_objs := gh_insert object (ob\<lparr>ob_refs := ob_refs ob - 1\<rparr>) (hp_objs h)\<rparr>))"
| "release (Finalize object # tasks) h =
     (case gh_lookup (hp_objs h) object of
        None \<Rightarrow> None
      | Some ob \<Rightarrow>
          if ob_tag ob \<in> set (hp_freed h) then None
          else release tasks (object_cache_remove_by_path (ob_path ob) (h\<lparr>hp_objs := gh_remove object (hp_objs h)\<rparr>)))"
  by pat_completeness auto

termination
proof (relation "measure (\<lambda>(_, h). total_refs h)", goal_cases)
  case (2 object tasks h ob)
  then show ?case
    using sum_update [of "hp_objs h" object ob "\<lambda>ob. ob_refs ob + 1"] by (simp add: total_refs_def)
next
  case (3 object tasks h ob)
  then show ?case
    using sum_update [of "hp_objs h" object ob "\<lambda>ob. ob_refs ob + 1"] by (simp add: total_refs_def)
next
  case (4 object tasks h ob)
  then show ?case
    using sum_remove [of "hp_objs h" object ob "\<lambda>ob. ob_refs ob + 1"] by (simp add: total_refs_def)
qed simp

definition object_unref :: "nat \<Rightarrow> cheap \<Rightarrow> cheap option" where
  "object_unref object h = release [Unref object] h"

section \<open>Arrays of objects\<close>

text \<open>The loop over the paths: an object of the cache, or a new one; \<open>creates\<close> tells whether the class's
  constructor accepts the remote object at a path.\<close>

fun build_array :: "(string \<Rightarrow> bool) \<Rightarrow> string list \<Rightarrow> nat list \<Rightarrow> cheap \<Rightarrow> nat list \<times> cheap" where
  "build_array creates [] temp h = (temp, h)"
| "build_array creates (path # paths) temp h =
     (case object_cache_get path h of
        Some object \<Rightarrow> build_array creates paths (temp @ [object]) (object_ref object h)
      | None \<Rightarrow>
          if creates path
          then (case object_new path h of (object, h') \<Rightarrow> build_array creates paths (temp @ [object]) h')
          else build_array creates paths temp h)"

definition array_of :: "nat \<Rightarrow> string \<Rightarrow> cheap \<Rightarrow> nat list option" where
  "array_of holder field h =
     (case gh_lookup (hp_objs h) holder of None \<Rightarrow> None | Some ob \<Rightarrow> gh_lookup (ob_arrays ob) field)"

definition set_array :: "nat \<Rightarrow> string \<Rightarrow> nat list \<Rightarrow> cheap \<Rightarrow> cheap" where
  "set_array holder field objects h =
     (case gh_lookup (hp_objs h) holder of
        None \<Rightarrow> h
      | Some ob \<Rightarrow> h\<lparr>hp_objs := gh_insert holder (ob\<lparr>ob_arrays := gh_insert field objects (ob_arrays ob)\<rparr>) (hp_objs h)\<rparr>)"

text \<open>The old array is freed after the new one is complete.\<close>

definition object_array_demarshal ::
  "(string \<Rightarrow> bool) \<Rightarrow> nat \<Rightarrow> string \<Rightarrow> wire \<Rightarrow> cheap \<Rightarrow> (bool \<times> cheap) option" where
  "object_array_demarshal creates holder field value h =
     (case value of
        ObjectPaths paths \<Rightarrow>
          (case build_array creates paths [] h of
             (temp, h1) \<Rightarrow>
               map_option (Pair True)
                 (release (map Unref (case array_of holder field h1 of None \<Rightarrow> [] | Some old \<Rightarrow> old))
                    (set_array holder field temp h1)))
      | _ \<Rightarrow> Some (False, h))"

section \<open>References are counted\<close>

text \<open>The references that live objects hold; those that tasks will drop; the objects being finalized.\<close>

definition held :: "(nat, cobj) ghash \<Rightarrow> nat multiset" where
  "held objs = sum_list (map (\<lambda>(_, ob). mset (held_by ob)) objs)"

fun unrefs :: "task list \<Rightarrow> nat multiset" where
  "unrefs [] = {#}"
| "unrefs (Unref object # tasks) = add_mset object (unrefs tasks)"
| "unrefs (Finalize _ # tasks) = unrefs tasks"

fun finals :: "task list \<Rightarrow> nat list" where
  "finals [] = []"
| "finals (Unref _ # tasks) = finals tasks"
| "finals (Finalize object # tasks) = object # finals tasks"

lemma unrefs_append [simp]: "unrefs (xs @ ys) = unrefs xs + unrefs ys"
  by (induction xs rule: unrefs.induct) auto

lemma unrefs_map [simp]: "unrefs (map Unref os) = mset os"
  by (induction os) auto

lemma finals_append [simp]: "finals (xs @ ys) = finals xs @ finals ys"
  by (induction xs rule: finals.induct) auto

lemma finals_map [simp]: "finals (map Unref os) = []"
  by (induction os) auto

lemma held_update:
  "gh_lookup objs k = Some ob \<Longrightarrow> held (gh_insert k ob' objs) + mset (held_by ob) = held objs + mset (held_by ob')"
  by (induction objs) (auto simp: held_def gh_lookup_def gh_insert_def split: if_splits)

lemma in_held: "y \<in> set (held_by ob) \<Longrightarrow> (x, ob) \<in> set objs \<Longrightarrow> y \<in># held objs"
  by (induction objs) (auto simp: held_def)

lemma held_insert: "gh_lookup objs k = None \<Longrightarrow> held (gh_insert k ob objs) = held objs + mset (held_by ob)"
  by (simp add: gh_insert_new held_def)

lemma gh_remove_absent: "gh_lookup t k = None \<Longrightarrow> gh_remove k t = t"
  by (induction t) (auto simp: gh_lookup_def gh_remove_def split: if_splits)

lemma held_remove:
  "gh_wf objs \<Longrightarrow> gh_lookup objs k = Some ob \<Longrightarrow> held (gh_remove k objs) + mset (held_by ob) = held objs"
proof (induction objs)
  case (Cons x objs)
  show ?case
  proof (cases "fst x = k")
    case True
    then have "gh_lookup objs k = None"
      using Cons.prems(1) by (auto simp: gh_wf_def gh_keys_def gh_lookup_def map_of_eq_None_iff)
    then have "gh_remove k (x # objs) = objs"
      using gh_remove_absent [of objs k] True by (auto simp: gh_remove_def)
    then show ?thesis
      using Cons.prems(2) True by (cases x) (auto simp: held_def gh_lookup_def)
  next
    case False
    then show ?thesis
      using Cons by (auto simp: held_def gh_lookup_def gh_remove_def gh_wf_def gh_keys_def)
  qed
qed (simp add: gh_lookup_def)

text \<open>Every object's count is the number of references to it: those held by objects, those of the caller
  \<open>E\<close>, those about to be dropped.  Nothing refers to an object that is gone, and what nothing
  refers to is being finalized.\<close>

definition total :: "nat multiset \<Rightarrow> task list \<Rightarrow> (nat, cobj) ghash \<Rightarrow> nat multiset" where
  "total E tasks objs = held objs + E + unrefs tasks"

definition object_ok :: "nat multiset \<Rightarrow> task list \<Rightarrow> (nat, cobj) ghash \<Rightarrow> nat \<Rightarrow> cobj \<Rightarrow> bool" where
  "object_ok E tasks objs object ob \<longleftrightarrow>
     ob_refs ob = count (total E tasks objs) object \<and> (ob_refs ob = 0 \<longleftrightarrow> object \<in> set (finals tasks)) \<and>
     (ob_refs ob = 0 \<longrightarrow> ob_arrays ob = [])"

definition counts_ok :: "nat multiset \<Rightarrow> task list \<Rightarrow> (nat, cobj) ghash \<Rightarrow> bool" where
  "counts_ok E tasks objs \<longleftrightarrow> gh_wf objs \<and> distinct (finals tasks) \<and>
     (\<forall>object ob. gh_lookup objs object = Some ob \<longrightarrow> object_ok E tasks objs object ob) \<and>
     (\<forall>object. object \<in># total E tasks objs \<or> object \<in> set (finals tasks) \<longrightarrow> gh_lookup objs object \<noteq> None)"

lemma counts_okD:
  assumes "counts_ok E tasks objs"
  shows "gh_wf objs" "distinct (finals tasks)"
    "gh_lookup objs x = Some ob \<Longrightarrow> ob_refs ob = count (total E tasks objs) x"
    "gh_lookup objs x = Some ob \<Longrightarrow> ob_refs ob = 0 \<longleftrightarrow> x \<in> set (finals tasks)"
    "gh_lookup objs x = Some ob \<Longrightarrow> ob_refs ob = 0 \<Longrightarrow> ob_arrays ob = []"
    "x \<in># total E tasks objs \<Longrightarrow> \<exists>ob. gh_lookup objs x = Some ob"
    "x \<in> set (finals tasks) \<Longrightarrow> \<exists>ob. gh_lookup objs x = Some ob"
  using assms unfolding counts_ok_def object_ok_def by (meson option.exhaust_sel)+

text \<open>One object changes; the others have as many references as before.\<close>

lemma counts_ok_update:
  assumes ok: "counts_ok E tasks objs" and ob: "gh_lookup objs x = Some ob"
    and count: "\<And>y. y \<noteq> x \<Longrightarrow> count (total E' tasks' objs') y = count (total E tasks objs) y"
    and objs': "objs' = gh_insert x ob' objs"
    and finals: "distinct (finals tasks')" "\<And>y. y \<noteq> x \<Longrightarrow> y \<in> set (finals tasks') \<longleftrightarrow> y \<in> set (finals tasks)"
    and ob': "object_ok E' tasks' objs' x ob'"
  shows "counts_ok E' tasks' objs'"
proof -
  have look: "gh_lookup objs' y = (if y = x then Some ob' else gh_lookup objs y)" for y
    by (simp add: objs' gh_simps)
  have wf: "gh_wf objs'"
    using counts_okD(1) [OF ok] by (simp add: objs' ght.invar_ins)
  have each: "object_ok E' tasks' objs' y oy" if y: "gh_lookup objs' y = Some oy" for y oy
  proof (cases "y = x")
    case False
    then have "object_ok E tasks objs y oy"
      using y ok by (auto simp: look counts_ok_def)
    then show ?thesis
      unfolding object_ok_def count [OF False] finals(2) [OF False] .
  qed (use y ob' look in simp)
  have live: "gh_lookup objs' y \<noteq> None" if y: "y \<in># total E' tasks' objs' \<or> y \<in> set (finals tasks')" for y
  proof (cases "y = x")
    case False
    have "count (total E' tasks' objs') y > 0 \<or> y \<in> set (finals tasks')"
      using y by auto
    then have "count (total E tasks objs) y > 0 \<or> y \<in> set (finals tasks)"
      using count [OF False] finals(2) [OF False] by simp
    then show ?thesis
      using counts_okD(6,7) [OF ok, of y] False by (auto simp: look)
  qed (simp add: look)
  show ?thesis
    unfolding counts_ok_def using wf finals(1) each live by blast
qed

lemma total_drop:
  assumes "gh_lookup objs x = Some ob" "held_by ob' = held_by ob"
  shows "total E tasks (gh_insert x ob' objs) = total E (Unref x # tasks) objs - {#x#}"
  using held_update [OF assms(1), of ob'] assms(2) by (simp add: total_def)

lemma total_dispose:
  assumes "gh_lookup objs x = Some ob" "held_by ob' = []"
  shows "total E (map Unref (held_by ob) @ Finalize x # tasks) (gh_insert x ob' objs) = total E (Unref x # tasks) objs - {#x#}"
  using held_update [OF assms(1), of ob'] assms(2) by (simp add: total_def)

lemma held_by_new [simp]: "held_by (ob\<lparr>ob_refs := n, ob_arrays := gh_new\<rparr>) = []" "held_by (ob\<lparr>ob_refs := n\<rparr>) = held_by ob"
  by (simp_all add: held_by_def gh_values_def gh_new_def)

lemma counts_drop:
  assumes ok: "counts_ok E (Unref x # tasks) objs" and ob: "gh_lookup objs x = Some ob" and refs: "ob_refs ob \<ge> 2"
  shows "counts_ok E tasks (gh_insert x (ob\<lparr>ob_refs := ob_refs ob - 1\<rparr>) objs)" (is "counts_ok E tasks ?objs'")
proof (rule counts_ok_update [OF ok ob])
  have tot: "total E tasks ?objs' = total E (Unref x # tasks) objs - {#x#}"
    by (rule total_drop [OF ob]) simp
  then show "y \<noteq> x \<Longrightarrow> count (total E tasks ?objs') y = count (total E (Unref x # tasks) objs) y" for y
    by simp
  show "distinct (finals tasks)"
    using counts_okD(2) [OF ok] by simp
  show "object_ok E tasks ?objs' x (ob\<lparr>ob_refs := ob_refs ob - 1\<rparr>)"
    unfolding object_ok_def tot using counts_okD(3,4) [OF ok ob] refs by simp
qed simp_all

lemma counts_dispose:
  assumes ok: "counts_ok E (Unref x # tasks) objs" and ob: "gh_lookup objs x = Some ob" and refs: "ob_refs ob = 1"
  shows "counts_ok E (map Unref (held_by ob) @ Finalize x # tasks) (gh_insert x (ob\<lparr>ob_refs := 0, ob_arrays := gh_new\<rparr>) objs)"
    (is "counts_ok E ?tasks ?objs'")
proof (rule counts_ok_update [OF ok ob])
  have tot: "total E ?tasks ?objs' = total E (Unref x # tasks) objs - {#x#}"
    by (rule total_dispose [OF ob]) simp
  then show "y \<noteq> x \<Longrightarrow> count (total E ?tasks ?objs') y = count (total E (Unref x # tasks) objs) y" for y
    by simp
  show "distinct (finals ?tasks)"
    using counts_okD(2) [OF ok] counts_okD(4) [OF ok ob] refs by simp
  show "object_ok E ?tasks ?objs' x (ob\<lparr>ob_refs := 0, ob_arrays := gh_new\<rparr>)"
    unfolding object_ok_def tot using counts_okD(3) [OF ok ob] refs by (simp add: gh_new_def)
qed simp_all

lemma counts_finalize:
  assumes ok: "counts_ok E (Finalize x # tasks) objs"
  shows "counts_ok E tasks (gh_remove x objs)"
proof -
  obtain ob where ob: "gh_lookup objs x = Some ob"
    using counts_okD(7) [OF ok, of x] by auto
  then have refs: "ob_refs ob = 0" "ob_arrays ob = []"
    using counts_okD(4,5) [OF ok ob] by auto
  then have "held_by ob = []" "x \<notin># total E (Finalize x # tasks) objs"
    using counts_okD(3) [OF ok ob] by (simp_all add: held_by_def gh_values_def not_in_iff)
  then have tot: "total E tasks (gh_remove x objs) = total E (Finalize x # tasks) objs" and
      x: "x \<notin># total E tasks (gh_remove x objs)"
    using held_remove [OF counts_okD(1) [OF ok] ob] by (simp_all add: total_def)
  have look: "gh_lookup (gh_remove x objs) y = (if y = x then None else gh_lookup objs y)" for y
    using counts_okD(1) [OF ok] by (simp add: ght.look_del)
  have "gh_wf (gh_remove x objs)" "distinct (x # finals tasks)"
    using counts_okD(1,2) [OF ok] by (simp_all add: ght.invar_del)
  moreover have "object_ok E tasks (gh_remove x objs) y oy" if "gh_lookup (gh_remove x objs) y = Some oy" for y oy
  proof -
    have y: "y \<noteq> x" "gh_lookup objs y = Some oy"
      using that by (auto simp: look split: if_splits)
    then show ?thesis
      using counts_okD(3,4,5) [OF ok y(2)] by (simp add: object_ok_def tot)
  qed
  moreover have "gh_lookup (gh_remove x objs) y \<noteq> None" if "y \<in># total E tasks (gh_remove x objs) \<or> y \<in> set (finals tasks)" for y
    using that x tot counts_okD(2) [OF ok] counts_okD(6,7) [OF ok, of y] by (auto simp: look)
  ultimately show ?thesis
    by (auto simp: counts_ok_def)
qed

text \<open>The cache has exactly the live objects, each under its path with its tag as the key.\<close>

definition objs_cached :: "cheap \<Rightarrow> bool" where
  "objs_cached h \<longleftrightarrow> (\<forall>x ob. gh_lookup (hp_objs h) x = Some ob \<longrightarrow>
     x < hp_next h \<and> gh_lookup (hp_cache h) (ob_path ob) = Some (ob_tag ob, x))"

definition cache_live :: "cheap \<Rightarrow> bool" where
  "cache_live h \<longleftrightarrow> (\<forall>p k x. gh_lookup (hp_cache h) p = Some (k, x) \<longrightarrow>
     (\<exists>ob. gh_lookup (hp_objs h) x = Some ob \<and> ob_path ob = p))"

definition keys_ok :: "cheap \<Rightarrow> bool" where
  "keys_ok h \<longleftrightarrow> gh_wf (hp_cache h) \<and> (\<forall>k \<in> set (hp_freed h). k < hp_next_key h) \<and>
     (\<forall>p k x. gh_lookup (hp_cache h) p = Some (k, x) \<longrightarrow> k \<notin> set (hp_freed h) \<and> k < hp_next_key h \<and>
        (\<forall>p' x'. gh_lookup (hp_cache h) p' = Some (k, x') \<longrightarrow> p' = p))"

definition cache_ok :: "cheap \<Rightarrow> bool" where
  "cache_ok h \<longleftrightarrow> objs_cached h \<and> cache_live h \<and> keys_ok h"

lemma cache_okD:
  assumes "cache_ok h"
  shows "gh_lookup (hp_objs h) x = Some ob \<Longrightarrow> x < hp_next h"
    "gh_lookup (hp_objs h) x = Some ob \<Longrightarrow> gh_lookup (hp_cache h) (ob_path ob) = Some (ob_tag ob, x)"
    "gh_lookup (hp_cache h) p = Some (k, x) \<Longrightarrow> \<exists>ob. gh_lookup (hp_objs h) x = Some ob \<and> ob_path ob = p"
    "gh_lookup (hp_cache h) p = Some (k, x) \<Longrightarrow> k \<notin> set (hp_freed h)"
    "gh_lookup (hp_cache h) p = Some (k, x) \<Longrightarrow> k < hp_next_key h"
    "gh_lookup (hp_cache h) p = Some (k, x) \<Longrightarrow> gh_lookup (hp_cache h) p' = Some (k, x') \<Longrightarrow> p' = p"
    "gh_wf (hp_cache h)" "k \<in> set (hp_freed h) \<Longrightarrow> k < hp_next_key h"
  using assms unfolding cache_ok_def objs_cached_def cache_live_def keys_ok_def by blast+

lemma cache_ok_update:
  assumes ok: "cache_ok h" and ob: "gh_lookup (hp_objs h) x = Some ob" and ob': "ob_path ob' = ob_path ob" "ob_tag ob' = ob_tag ob"
  shows "cache_ok (h\<lparr>hp_objs := gh_insert x ob' (hp_objs h)\<rparr>)"
proof -
  have look: "gh_lookup (gh_insert x ob' (hp_objs h)) y = (if y = x then Some ob' else gh_lookup (hp_objs h) y)" for y
    by (simp add: gh_simps)
  have "objs_cached (h\<lparr>hp_objs := gh_insert x ob' (hp_objs h)\<rparr>)"
    using cache_okD(1,2) [OF ok] ob ob' by (auto simp: objs_cached_def look)
  moreover have "cache_live (h\<lparr>hp_objs := gh_insert x ob' (hp_objs h)\<rparr>)"
    using cache_okD(3) [OF ok] ob ob' by (fastforce simp: cache_live_def look)
  moreover have "keys_ok (h\<lparr>hp_objs := gh_insert x ob' (hp_objs h)\<rparr>)"
    using ok by (simp add: cache_ok_def keys_ok_def)
  ultimately show ?thesis
    by (simp add: cache_ok_def)
qed

lemma cache_ok_remove:
  assumes ok: "cache_ok h" and wf: "gh_wf (hp_objs h)" and ob: "gh_lookup (hp_objs h) x = Some ob"
  shows "ob_tag ob \<notin> set (hp_freed h)"
    "cache_ok (object_cache_remove_by_path (ob_path ob) (h\<lparr>hp_objs := gh_remove x (hp_objs h)\<rparr>))"
proof -
  define h2 where "h2 = object_cache_remove_by_path (ob_path ob) (h\<lparr>hp_objs := gh_remove x (hp_objs h)\<rparr>)"
  have entry: "gh_lookup (hp_cache h) (ob_path ob) = Some (ob_tag ob, x)"
    using cache_okD(2) [OF ok ob] .
  then show "ob_tag ob \<notin> set (hp_freed h)"
    by (rule cache_okD(4) [OF ok])
  have look: "gh_lookup (hp_objs h2) y = (if y = x then None else gh_lookup (hp_objs h) y)" for y
    using wf by (simp add: h2_def ght.look_del)
  have fields: "hp_cache h2 = gh_remove (ob_path ob) (hp_cache h)" "hp_freed h2 = ob_tag ob # hp_freed h"
    "hp_next h2 = hp_next h" "hp_next_key h2 = hp_next_key h"
    by (simp_all add: h2_def object_cache_remove_by_path_def entry)
  have lookc: "gh_lookup (hp_cache h2) q = (if q = ob_path ob then None else gh_lookup (hp_cache h) q)" for q
    using cache_okD(7) [OF ok] by (simp add: fields ght.look_del)
  have "ob_path oy \<noteq> ob_path ob" if "y \<noteq> x" "gh_lookup (hp_objs h) y = Some oy" for y oy
    using cache_okD(2) [OF ok that(2)] entry that(1) by auto
  then have "objs_cached h2"
    using cache_okD(1,2) [OF ok] by (auto simp: objs_cached_def look lookc fields(3) split: if_splits)
  moreover have "y \<noteq> x" if "p \<noteq> ob_path ob" "gh_lookup (hp_cache h) p = Some (k, y)" for p k y
    using cache_okD(3) [OF ok that(2)] ob that(1) by auto
  then have "cache_live h2"
    using cache_okD(3) [OF ok] by (auto simp: cache_live_def look lookc split: if_splits)
  moreover have "k \<noteq> ob_tag ob" if "p \<noteq> ob_path ob" "gh_lookup (hp_cache h) p = Some (k, y)" for p k y
    using cache_okD(6) [OF ok entry] that by blast
  then have "keys_ok h2"
    using cache_okD(4-8) [OF ok] cache_okD(5) [OF ok entry]
    by (auto simp: keys_ok_def lookc) (auto simp: fields ght.invar_del)
  ultimately show "cache_ok (object_cache_remove_by_path (ob_path ob) (h\<lparr>hp_objs := gh_remove x (hp_objs h)\<rparr>))"
    unfolding h2_def [symmetric] by (simp add: cache_ok_def)
qed

text \<open>Dropping references always ends well.  The objects that survive are not being finalized and keep their
  path and arrays.\<close>

definition survivors_keep :: "cheap \<Rightarrow> nat list \<Rightarrow> cheap \<Rightarrow> bool" where
  "survivors_keep h gone h' \<longleftrightarrow> (\<forall>x ob'. gh_lookup (hp_objs h') x = Some ob' \<longrightarrow> x \<notin> set gone \<and>
     (\<exists>ob. gh_lookup (hp_objs h) x = Some ob \<and> ob_path ob' = ob_path ob \<and> ob_arrays ob' = ob_arrays ob))"

lemma survivors_path:
  assumes "survivors_keep h gone h'" "\<exists>oy. gh_lookup (hp_objs h') y = Some oy"
  shows "map_option ob_path (gh_lookup (hp_objs h') y) = map_option ob_path (gh_lookup (hp_objs h) y)"
proof -
  obtain oy oz where "gh_lookup (hp_objs h') y = Some oy" "gh_lookup (hp_objs h) y = Some oz" "ob_path oy = ob_path oz"
    using assms unfolding survivors_keep_def by blast
  then show ?thesis
    by simp
qed

lemma survivors_disposed:
  assumes "survivors_keep (h\<lparr>hp_objs := gh_insert x ob' (hp_objs h)\<rparr>) (x # gone) h'" "gh_lookup (hp_objs h) x = Some ob"
  shows "survivors_keep h gone h'"
  unfolding survivors_keep_def
proof (intro allI impI)
  fix y oy
  assume "gh_lookup (hp_objs h') y = Some oy"
  then have "y \<notin> set (x # gone)" "\<exists>oz. gh_lookup (gh_insert x ob' (hp_objs h)) y = Some oz \<and>
      ob_path oy = ob_path oz \<and> ob_arrays oy = ob_arrays oz"
    using assms(1) unfolding survivors_keep_def by auto
  then show "y \<notin> set gone \<and> (\<exists>oz. gh_lookup (hp_objs h) y = Some oz \<and> ob_path oy = ob_path oz \<and> ob_arrays oy = ob_arrays oz)"
    by (simp add: gh_simps)
qed

lemma survivors_updated:
  assumes "survivors_keep (h\<lparr>hp_objs := gh_insert x ob' (hp_objs h)\<rparr>) gone h'" "gh_lookup (hp_objs h) x = Some ob"
    "ob_path ob' = ob_path ob" "ob_arrays ob' = ob_arrays ob"
  shows "survivors_keep h gone h'"
  unfolding survivors_keep_def
proof (intro allI impI)
  fix y oy
  assume "gh_lookup (hp_objs h') y = Some oy"
  then have "y \<notin> set gone" "\<exists>oz. gh_lookup (gh_insert x ob' (hp_objs h)) y = Some oz \<and>
      ob_path oy = ob_path oz \<and> ob_arrays oy = ob_arrays oz"
    using assms(1) unfolding survivors_keep_def by auto
  then show "y \<notin> set gone \<and> (\<exists>oz. gh_lookup (hp_objs h) y = Some oz \<and> ob_path oy = ob_path oz \<and> ob_arrays oy = ob_arrays oz)"
    using assms(2-4) by (cases "y = x") (simp_all add: gh_simps)
qed

lemma survivors_removed:
  assumes "survivors_keep h1 gone h'" "gh_wf (hp_objs h)" "hp_objs h1 = gh_remove x (hp_objs h)"
  shows "survivors_keep h (x # gone) h'"
  unfolding survivors_keep_def
proof (intro allI impI)
  fix y oy
  assume "gh_lookup (hp_objs h') y = Some oy"
  then have "y \<notin> set gone" "\<exists>oz. gh_lookup (hp_objs h1) y = Some oz \<and> ob_path oy = ob_path oz \<and> ob_arrays oy = ob_arrays oz"
    using assms(1) unfolding survivors_keep_def by auto
  then show "y \<notin> set (x # gone) \<and> (\<exists>oz. gh_lookup (hp_objs h) y = Some oz \<and> ob_path oy = ob_path oz \<and> ob_arrays oy = ob_arrays oz)"
    using assms(2,3) by (cases "y = x") (simp_all add: ght.look_del)
qed

lemma release_ok:
  assumes "counts_ok E tasks (hp_objs h)" "cache_ok h"
  shows "\<exists>h'. release tasks h = Some h' \<and> counts_ok E [] (hp_objs h') \<and> cache_ok h' \<and> survivors_keep h (finals tasks) h'"
  using assms
proof (induction tasks h rule: release.induct)
  case (1 h)
  then show ?case by (auto simp: survivors_keep_def)
next
  case (2 x tasks h)
  obtain ob where ob: "gh_lookup (hp_objs h) x = Some ob"
    using counts_okD(6) [OF 2(3), of x] by (auto simp: total_def)
  have refs: "ob_refs ob \<noteq> 0"
    using counts_okD(3) [OF 2(3) ob] by (simp add: total_def)
  have look: "gh_lookup (gh_insert x ob' (hp_objs h)) y = (if y = x then Some ob' else gh_lookup (hp_objs h) y)" for y ob'
    by (simp add: gh_simps)
  show ?case
  proof (cases "ob_refs ob = 1")
    case True
    let ?h = "h\<lparr>hp_objs := gh_insert x (ob\<lparr>ob_refs := 0, ob_arrays := gh_new\<rparr>) (hp_objs h)\<rparr>"
    have "counts_ok E (map Unref (held_by ob) @ Finalize x # tasks) (hp_objs ?h)" "cache_ok ?h"
      using counts_dispose [OF 2(3) ob True] cache_ok_update [OF 2(4) ob] by simp_all
    from 2(1) [OF ob refs True this] obtain h' where "release (map Unref (held_by ob) @ Finalize x # tasks) ?h = Some h'"
        "counts_ok E [] (hp_objs h')" "cache_ok h'" "survivors_keep ?h (x # finals tasks) h'"
      by auto
    moreover from this(4) have "survivors_keep h (finals tasks) h'"
      by (rule survivors_disposed [OF _ ob])
    ultimately show ?thesis
      using True ob by simp
  next
    case False
    let ?h = "h\<lparr>hp_objs := gh_insert x (ob\<lparr>ob_refs := ob_refs ob - 1\<rparr>) (hp_objs h)\<rparr>"
    have "counts_ok E tasks (hp_objs ?h)" "cache_ok ?h"
      using counts_drop [OF 2(3) ob] refs False cache_ok_update [OF 2(4) ob] by simp_all
    from 2(2) [OF ob refs False this] obtain h' where "release tasks ?h = Some h'"
        "counts_ok E [] (hp_objs h')" "cache_ok h'" "survivors_keep ?h (finals tasks) h'"
      by auto
    moreover from this(4) have "survivors_keep h (finals tasks) h'"
      by (rule survivors_updated [OF _ ob]) simp_all
    ultimately show ?thesis
      using False refs ob by simp
  qed
next
  case (3 x tasks h)
  obtain ob where ob: "gh_lookup (hp_objs h) x = Some ob"
    using counts_okD(7) [OF 3(2), of x] by auto
  note wf = counts_okD(1) [OF 3(2)]
  note cache = cache_ok_remove [OF 3(3) wf ob]
  let ?h = "object_cache_remove_by_path (ob_path ob) (h\<lparr>hp_objs := gh_remove x (hp_objs h)\<rparr>)"
  have "counts_ok E tasks (hp_objs ?h)"
    using counts_finalize [OF 3(2)] by simp
  from 3(1) [OF ob cache(1) this cache(2)] obtain h' where "release tasks ?h = Some h'"
      "counts_ok E [] (hp_objs h')" "cache_ok h'" "survivors_keep ?h (finals tasks) h'"
    by auto
  moreover from this(4) have "survivors_keep h (x # finals tasks) h'"
    by (rule survivors_removed [OF _ wf]) simp
  ultimately show ?case
    using ob cache(1) by simp
qed

section \<open>Between the operations\<close>

text \<open>The invariant when no reference is about to be dropped; \<open>E\<close> are the references of the application.\<close>

definition heap_ok :: "nat multiset \<Rightarrow> cheap \<Rightarrow> bool" where
  "heap_ok E h \<longleftrightarrow> counts_ok E [] (hp_objs h) \<and> cache_ok h"

definition path_of :: "cheap \<Rightarrow> nat \<Rightarrow> string option" where
  "path_of h x = map_option ob_path (gh_lookup (hp_objs h) x)"

lemma heap_init_ok: "heap_ok {#} heap_init"
  by (simp add: heap_ok_def heap_init_def counts_ok_def total_def held_def cache_ok_def objs_cached_def cache_live_def
      keys_ok_def ght.look_new ght.invar_new) (simp add: gh_new_def)

lemma heap_ok_live: "heap_ok E h \<Longrightarrow> x \<in># E \<Longrightarrow> \<exists>ob. gh_lookup (hp_objs h) x = Some ob \<and> ob_refs ob \<noteq> 0"
  using counts_okD(4,6) [of E "[]" "hp_objs h" x] by (auto simp: heap_ok_def total_def)

lemma heap_ok_cached: "heap_ok E h \<Longrightarrow> object_cache_get p h = Some x \<longleftrightarrow> path_of h x = Some p"
  using cache_okD(2,3) [of h] by (fastforce simp: heap_ok_def object_cache_get_def path_of_def)

lemma object_ref_ok:
  assumes ok: "heap_ok E h" and ob: "gh_lookup (hp_objs h) x = Some ob"
  shows "heap_ok (add_mset x E) (object_ref x h)"
proof -
  let ?ob = "ob\<lparr>ob_refs := ob_refs ob + 1\<rparr>"
  note counts = ok [unfolded heap_ok_def, THEN conjunct1]
  have tot: "total (add_mset x E) [] (gh_insert x ?ob (hp_objs h)) = add_mset x (total E [] (hp_objs h))"
    using held_update [OF ob, of ?ob] by (simp add: total_def)
  have "counts_ok (add_mset x E) [] (gh_insert x ?ob (hp_objs h))"
  proof (rule counts_ok_update [OF counts ob])
    show "object_ok (add_mset x E) [] (gh_insert x ?ob (hp_objs h)) x ?ob"
      unfolding object_ok_def tot using counts_okD(3) [OF counts ob] by simp
  qed (simp_all only: tot, simp_all)
  moreover have "cache_ok (h\<lparr>hp_objs := gh_insert x ?ob (hp_objs h)\<rparr>)"
    using cache_ok_update [OF _ ob] ok by (simp add: heap_ok_def)
  ultimately show ?thesis
    by (simp add: heap_ok_def object_ref_def ob)
qed

lemma object_ref_paths [simp]: "path_of (object_ref x h) y = path_of h y" "array_of y f (object_ref x h) = array_of y f h"
  by (auto simp: path_of_def array_of_def object_ref_def gh_simps split: option.split)

lemma object_ref_path_of [simp]: "path_of (object_ref x h) = path_of h"
  by (rule ext) simp

lemma object_new_ok:
  assumes ok: "heap_ok E h" and absent: "object_cache_get path h = None" and new: "object_new path h = (x, h')"
  shows "heap_ok (add_mset x E) h'"
    "path_of h' y = (if y = x then Some path else path_of h y)" "array_of y f h' = (if y = x then None else array_of y f h)"
    "path_of h x = None"
proof -
  let ?ob = "\<lparr>ob_path = path, ob_refs = 1, ob_tag = hp_next_key h, ob_arrays = gh_new\<rparr>"
  have cache: "cache_ok h" and counts: "counts_ok E [] (hp_objs h)"
    using ok by (simp_all add: heap_ok_def)
  have none: "gh_lookup (hp_cache h) path = None"
    using absent by (simp add: object_cache_get_def)
  have x: "x = hp_next h" and h': "hp_objs h' = gh_insert x ?ob (hp_objs h)" "hp_next h' = x + 1"
    "hp_cache h' = gh_insert path (hp_next_key h, x) (hp_cache h)" "hp_next_key h' = hp_next_key h + 1" "hp_freed h' = hp_freed h"
    using new by (auto simp: object_new_def object_cache_add_def Let_def none)
  have fresh: "gh_lookup (hp_objs h) x = None"
    using cache_okD(1) [OF cache, of x] x by (cases "gh_lookup (hp_objs h) x") auto
  then show "path_of h x = None"
    by (simp add: path_of_def)
  have look: "gh_lookup (hp_objs h') y = (if y = x then Some ?ob else gh_lookup (hp_objs h) y)" for y
    by (simp add: h' gh_simps)
  have lookc: "gh_lookup (hp_cache h') p = (if p = path then Some (hp_next_key h, x) else gh_lookup (hp_cache h) p)" for p
    by (simp add: h' gh_simps)
  show "path_of h' y = (if y = x then Some path else path_of h y)" "array_of y f h' = (if y = x then None else array_of y f h)"
    by (simp_all add: path_of_def array_of_def look ght.look_new)
  have tot: "total (add_mset x E) [] (hp_objs h') = add_mset x (total E [] (hp_objs h))"
    using held_insert [OF fresh, of ?ob] by (simp add: total_def h' held_by_def gh_values_def gh_new_def)
  have "x \<notin># total E [] (hp_objs h)"
    using counts_okD(6) [OF counts, of x] fresh by auto
  then have c: "count (total E [] (hp_objs h)) x = 0"
    by (simp add: not_in_iff)
  have "object_ok (add_mset x E) [] (hp_objs h') y oy" if "gh_lookup (hp_objs h') y = Some oy" for y oy
    using that counts_okD(3-5) [OF counts, of y oy] c unfolding object_ok_def tot by (auto simp: look gh_new_def split: if_splits)
  moreover have "gh_lookup (hp_objs h') y \<noteq> None" if "y \<in># total (add_mset x E) [] (hp_objs h')" for y
    using that counts_okD(6) [OF counts, of y] by (auto simp: tot look)
  ultimately have "counts_ok (add_mset x E) [] (hp_objs h')"
    using counts_okD(1) [OF counts] by (simp add: counts_ok_def h' ght.invar_ins)
  moreover have "objs_cached h'"
    unfolding objs_cached_def
  proof (intro allI impI)
    fix y oy
    assume "gh_lookup (hp_objs h') y = Some oy"
    then show "y < hp_next h' \<and> gh_lookup (hp_cache h') (ob_path oy) = Some (ob_tag oy, y)"
      using cache_okD(1,2) [OF cache, of y oy] none by (auto simp: look lookc h'(2) x split: if_splits)
  qed
  moreover have "cache_live h'"
    unfolding cache_live_def
  proof (intro allI impI)
    fix p k y
    assume "gh_lookup (hp_cache h') p = Some (k, y)"
    then show "\<exists>oy. gh_lookup (hp_objs h') y = Some oy \<and> ob_path oy = p"
      using cache_okD(3) [OF cache, of p k y] fresh by (auto simp: look lookc split: if_splits)
  qed
  moreover have "keys_ok h'"
  proof -
    have "k < hp_next_key h + 1" if "gh_lookup (hp_cache h) p = Some (k, y)" for p k y
      using cache_okD(5) [OF cache that] by simp
    moreover have "gh_lookup (hp_cache h) p \<noteq> Some (hp_next_key h, y)" for p y
      using cache_okD(5) [OF cache, of p "hp_next_key h" y] by auto
    moreover have "hp_next_key h \<notin> set (hp_freed h)" "\<forall>k \<in> set (hp_freed h). k < hp_next_key h + 1"
      using cache_okD(8) [OF cache] by (auto simp: less_Suc_eq)
    moreover have "gh_wf (hp_cache h')"
      using cache_okD(7) [OF cache] by (simp add: h' ght.invar_ins)
    ultimately show ?thesis
      using cache_okD(4,6) [OF cache] unfolding keys_ok_def lookc h'(4,5) by (auto split: if_splits)
  qed
  ultimately show "heap_ok (add_mset x E) h'"
    by (simp add: heap_ok_def cache_ok_def)
qed

text \<open>A new array has a reference to each of its objects, one for each path that has an object or gets one.\<close>

lemma build_array_ok:
  assumes "heap_ok E h" "build_array creates ps temp h = (os, h')"
  shows "\<exists>news. os = temp @ news \<and> heap_ok (mset news + E) h' \<and>
    map (path_of h') news = map Some (filter (\<lambda>p. object_cache_get p h \<noteq> None \<or> creates p) ps) \<and>
    (\<forall>y p. path_of h y = Some p \<longrightarrow> path_of h' y = Some p \<and> (\<forall>f. array_of y f h' = array_of y f h))"
  using assms
proof (induction ps arbitrary: E temp h)
  case (Cons p ps)
  show ?case
  proof (cases "object_cache_get p h")
    case (Some x)
    then have x: "path_of h x = Some p"
      using heap_ok_cached [OF Cons.prems(1)] by simp
    then obtain ob where ob: "gh_lookup (hp_objs h) x = Some ob"
      by (auto simp: path_of_def)
    have get: "object_cache_get q (object_ref x h) = object_cache_get q h" for q
      by (simp add: object_cache_get_def object_ref_def ob)
    have "build_array creates ps (temp @ [x]) (object_ref x h) = (os, h')"
      using Cons.prems(2) Some by simp
    from Cons.IH [OF object_ref_ok [OF Cons.prems(1) ob] this] obtain news where
      "os = (temp @ [x]) @ news" "heap_ok (mset news + add_mset x E) h'"
      "map (path_of h') news = map Some (filter (\<lambda>p. object_cache_get p h \<noteq> None \<or> creates p) ps)"
      "\<forall>y p. path_of h y = Some p \<longrightarrow> path_of h' y = Some p \<and> (\<forall>f. array_of y f h' = array_of y f h)"
      by (auto simp: get)
    then show ?thesis
      using x Some by (intro exI [of _ "x # news"]) simp
  next
    case None
    show ?thesis
    proof (cases "creates p")
      case True
      obtain x h1 where new: "object_new p h = (x, h1)"
        by fastforce
      note n = object_new_ok [OF Cons.prems(1) None new]
      have get: "(object_cache_get q h1 \<noteq> None \<or> creates q) \<longleftrightarrow> (object_cache_get q h \<noteq> None \<or> creates q)" for q
      proof (cases "q = p")
        case False
        have "object_cache_get q h1 = Some y \<longleftrightarrow> object_cache_get q h = Some y" for y
          using heap_ok_cached [OF n(1), of q y] heap_ok_cached [OF Cons.prems(1), of q y] n(2) [of y] n(4) False by auto
        then show ?thesis
          by (metis not_None_eq)
      qed (use True in simp)
      have "build_array creates ps (temp @ [x]) h1 = (os, h')"
        using Cons.prems(2) None True new by simp
      from Cons.IH [OF n(1) this] obtain news where news:
        "os = (temp @ [x]) @ news" "heap_ok (mset news + add_mset x E) h'"
        "map (path_of h') news = map Some (filter (\<lambda>p. object_cache_get p h \<noteq> None \<or> creates p) ps)"
        "\<forall>y p. path_of h1 y = Some p \<longrightarrow> path_of h' y = Some p \<and> (\<forall>f. array_of y f h' = array_of y f h1)"
        by (auto simp only: get)
      have "path_of h' x = Some p"
        using news(4) n(2) [of x] by simp
      moreover have "path_of h' y = Some q \<and> (\<forall>f. array_of y f h' = array_of y f h)" if "path_of h y = Some q" for y q
        using that news(4) n(2) [of y] n(3) [of y] n(4) by (cases "y = x") auto
      ultimately show ?thesis
        using news(1-3) True by (intro exI [of _ "x # news"]) simp
    next
      case False
      then show ?thesis
        using Cons.IH [OF Cons.prems(1)] Cons.prems(2) None by simp
    qed
  qed
qed simp

lemma values_insert:
  "mset (concat (gh_values (gh_insert f new t))) + mset (case gh_lookup t f of None \<Rightarrow> [] | Some old \<Rightarrow> old) =
   mset (concat (gh_values t)) + mset new"
  by (induction t) (auto simp: gh_values_def gh_insert_def gh_lookup_def split: if_splits)

text \<open>References move between the application, \<open>A\<close> before and \<open>D\<close> after, and an array.\<close>

lemma set_array_move:
  assumes ok: "heap_ok (A + E) h" and holder: "x \<in># E"
    and moved: "mset new + D = mset (case array_of x f h of None \<Rightarrow> [] | Some old \<Rightarrow> old) + A"
  shows "heap_ok (D + E) (set_array x f new h)" "array_of x f (set_array x f new h) = Some new"
    "path_of (set_array x f new h) y = path_of h y"
    "(y, g) \<noteq> (x, f) \<Longrightarrow> array_of y g (set_array x f new h) = array_of y g h"
proof -
  obtain ob where ob: "gh_lookup (hp_objs h) x = Some ob" "ob_refs ob \<noteq> 0"
    using heap_ok_live [OF ok, of x] holder by auto
  define ob' where "ob' = ob\<lparr>ob_arrays := gh_insert f new (ob_arrays ob)\<rparr>"
  have set: "set_array x f new h = h\<lparr>hp_objs := gh_insert x ob' (hp_objs h)\<rparr>"
    by (simp add: set_array_def ob ob'_def)
  have objs: "hp_objs (set_array x f new h) = gh_insert x ob' (hp_objs h)"
    by (simp add: set)
  show "array_of x f (set_array x f new h) = Some new" "path_of (set_array x f new h) y = path_of h y"
    by (simp_all add: array_of_def path_of_def set gh_simps ob) (simp_all add: ob'_def gh_simps)
  show "array_of y g (set_array x f new h) = array_of y g h" if "(y, g) \<noteq> (x, f)"
    using that by (auto simp: array_of_def set gh_simps ob ob'_def)
  have cache: "cache_ok (set_array x f new h)"
    unfolding set using cache_ok_update [OF _ ob(1), of ob'] ok by (simp add: heap_ok_def ob'_def)
  note counts = ok [unfolded heap_ok_def, THEN conjunct1]
  let ?old = "case array_of x f h of None \<Rightarrow> [] | Some old \<Rightarrow> old"
  have arrays: "mset (held_by ob') + mset ?old = mset (held_by ob) + mset new"
    using values_insert [of f new "ob_arrays ob"] by (simp add: held_by_def ob'_def array_of_def ob)
  have tot: "total (D + E) [] (gh_insert x ob' (hp_objs h)) = total (A + E) [] (hp_objs h)"
  proof (rule multiset_eqI)
    fix k
    show "count (total (D + E) [] (gh_insert x ob' (hp_objs h))) k = count (total (A + E) [] (hp_objs h)) k"
      using arg_cong [OF arrays, of "\<lambda>m. count m k"] arg_cong [OF held_update [OF ob(1), of ob'], of "\<lambda>m. count m k"]
        arg_cong [OF moved, of "\<lambda>m. count m k"]
      unfolding total_def unrefs.simps by simp
  qed
  have "counts_ok (D + E) [] (hp_objs (set_array x f new h))"
    unfolding objs
  proof (rule counts_ok_update [OF counts ob(1)])
    show "object_ok (D + E) [] (gh_insert x ob' (hp_objs h)) x ob'"
      unfolding object_ok_def tot using counts_okD(3,4) [OF counts ob(1)] ob(2) by (auto simp: ob'_def count_eq_zero_iff)
  qed (simp_all only: tot, simp_all)
  then show "heap_ok (D + E) (set_array x f new h)"
    using cache by (simp add: heap_ok_def)
qed

lemma release_all_ok:
  assumes "heap_ok (mset os + E) h"
  shows "\<exists>h'. release (map Unref os) h = Some h' \<and> heap_ok E h' \<and> survivors_keep h [] h'"
proof -
  have tot: "total E (map Unref os) (hp_objs h) = total (mset os + E) [] (hp_objs h)"
    by (simp add: total_def)
  have "counts_ok (mset os + E) [] (hp_objs h)"
    using assms by (simp add: heap_ok_def)
  then have "counts_ok E (map Unref os) (hp_objs h)"
    unfolding counts_ok_def object_ok_def tot finals.simps finals_map .
  from release_ok [OF this] show ?thesis
    using assms by (auto simp: heap_ok_def)
qed

lemma object_unref_ok:
  assumes "heap_ok (add_mset x E) h"
  shows "\<exists>h'. object_unref x h = Some h' \<and> heap_ok E h' \<and> survivors_keep h [] h'"
  using release_all_ok [of "[x]" E h] assms by (simp add: object_unref_def)

text \<open>What an object holds stays, for a holder that lives on.\<close>

lemma survivors_array:
  assumes keep: "survivors_keep h [] h'" and ok: "heap_ok E h'" and holder: "x \<in># E"
  shows "array_of x f h' = array_of x f h"
    "y \<in> set (case array_of x f h of None \<Rightarrow> [] | Some ys \<Rightarrow> ys) \<Longrightarrow> path_of h' y = path_of h y"
    "path_of h' x = path_of h x"
proof -
  obtain ob where ob: "gh_lookup (hp_objs h') x = Some ob"
    using heap_ok_live [OF ok holder] by auto
  then obtain ob2 where "gh_lookup (hp_objs h) x = Some ob2" "ob_arrays ob = ob_arrays ob2"
    using keep unfolding survivors_keep_def by blast
  then show array: "array_of x f h' = array_of x f h"
    using ob by (simp add: array_of_def)
  show "path_of h' x = path_of h x"
    using survivors_path [OF keep, of x] ob by (simp add: path_of_def)
  assume y: "y \<in> set (case array_of x f h of None \<Rightarrow> [] | Some ys \<Rightarrow> ys)"
  have "array_of x f h = gh_lookup (ob_arrays ob) f"
    using array ob by (simp add: array_of_def)
  with y obtain ys where ys: "gh_lookup (ob_arrays ob) f = Some ys" "y \<in> set ys"
    by (cases "gh_lookup (ob_arrays ob) f") simp_all
  then have "(f, ys) \<in> set (ob_arrays ob)"
    by (simp add: gh_lookup_def map_of_SomeD)
  then have "ys \<in> set (gh_values (ob_arrays ob))"
    by (force simp: gh_values_def)
  then have "y \<in> set (held_by ob)"
    using ys(2) by (auto simp: held_by_def)
  moreover have "(x, ob) \<in> set (hp_objs h')"
    using ob by (simp add: gh_lookup_def map_of_SomeD)
  ultimately have "y \<in># held (hp_objs h')"
    using in_held by blast
  then have "\<exists>oy. gh_lookup (hp_objs h') y = Some oy"
    using counts_okD(6) [of E "[]" "hp_objs h'" y] ok by (simp add: heap_ok_def total_def)
  then show "path_of h' y = path_of h y"
    using survivors_path [OF keep, of y] by (simp add: path_of_def)
qed

text \<open>The other arrays of the holder stay as they are.\<close>

lemma demarshal_ok:
  assumes ok: "heap_ok E h" and holder: "x \<in># E"
  shows "\<exists>h' news. object_array_demarshal creates x field (ObjectPaths paths) h = Some (True, h') \<and> heap_ok E h' \<and>
    array_of x field h' = Some news \<and>
    map (path_of h') news = map Some (filter (\<lambda>p. object_cache_get p h \<noteq> None \<or> creates p) paths) \<and>
    (\<forall>p y. p \<in> set paths \<longrightarrow> object_cache_get p h = Some y \<longrightarrow> y \<in> set news \<and> path_of h' y = Some p) \<and>
    (\<forall>g. g \<noteq> field \<longrightarrow> array_of x g h' = array_of x g h \<and>
       (\<forall>y p. y \<in> set (case array_of x g h of None \<Rightarrow> [] | Some ys \<Rightarrow> ys) \<longrightarrow> path_of h y = Some p \<longrightarrow> path_of h' y = Some p))"
proof -
  obtain news h1 where build: "build_array creates paths [] h = (news, h1)"
    by fastforce
  from build_array_ok [OF ok build] have news: "heap_ok (mset news + E) h1"
      "map (path_of h1) news = map Some (filter (\<lambda>p. object_cache_get p h \<noteq> None \<or> creates p) paths)"
      "\<And>y p. path_of h y = Some p \<Longrightarrow> path_of h1 y = Some p \<and> (\<forall>f. array_of y f h1 = array_of y f h)"
    by auto
  let ?h2 = "set_array x field news h1"
  let ?old = "case array_of x field h1 of None \<Rightarrow> [] | Some old \<Rightarrow> old"
  have "mset news + mset ?old = mset ?old + mset news"
    by simp
  note set = set_array_move [OF news(1) holder this]
  obtain h' where h': "release (map Unref ?old) ?h2 = Some h'" "heap_ok E h'" "survivors_keep ?h2 [] h'"
    using release_all_ok [OF set(1)] by auto
  note keep = survivors_array(1,2) [OF h'(3,2) holder, where f = field]
  have array: "array_of x field h' = Some news"
    using keep(1) set(2) by simp
  have kept: "path_of h' y = path_of h1 y" if y: "y \<in> set news" for y
    using keep(2) [of y] set(2) set(3) [of y] y by simp
  have same: "y \<in> set news \<and> path_of h' y = Some p" if p: "p \<in> set paths" "object_cache_get p h = Some y" for p y
  proof -
    have "Some p \<in> set (map (path_of h1) news)"
      using p by (simp add: news(2))
    then obtain z where z: "z \<in> set news" "path_of h1 z = Some p"
      by auto
    moreover have "path_of h1 y = Some p"
      using p(2) heap_ok_cached [OF ok] news(3) by blast
    ultimately have "z = y"
      using heap_ok_cached [OF news(1)] by (metis option.inject)
    then show ?thesis
      using z kept by simp
  qed
  have others: "array_of x g h' = array_of x g h \<and>
      (\<forall>y p. y \<in> set (case array_of x g h of None \<Rightarrow> [] | Some ys \<Rightarrow> ys) \<longrightarrow> path_of h y = Some p \<longrightarrow> path_of h' y = Some p)"
    if g: "g \<noteq> field" for g
  proof -
    obtain px where "path_of h x = Some px"
      using heap_ok_live [OF ok holder] by (auto simp: path_of_def)
    then have "array_of x g h = array_of x g ?h2"
      using news(3) set(4) [of x g] g by simp
    moreover note keep2 = survivors_array(1,2) [OF h'(3,2) holder, where f = g]
    ultimately show ?thesis
      using news(3) set(3) by metis
  qed
  have "map (path_of h') news = map (path_of h1) news"
    using kept by simp
  then have paths: "map (path_of h') news = map Some (filter (\<lambda>p. object_cache_get p h \<noteq> None \<or> creates p) paths)"
    using news(2) by simp
  have "object_array_demarshal creates x field (ObjectPaths paths) h = Some (True, h')"
    using build h'(1) by (simp add: object_array_demarshal_def)
  then show ?thesis
    using h'(2) array paths same others by blast
qed

section \<open>Properties\<close>

text \<open>C28: An announced array of object paths is mirrored without touching freed memory: when every reference
  is accounted for, the new array of the holder has, in the order of the paths, one
  object for each path that had an object or whose object could be created; objects that
  existed before are the same ones; and afterwards every reference is accounted for again, so
  that objects that fell out of the array live on exactly if something else refers to them.\<close>

theorem object_arrays_mirrored:
  assumes ok: "heap_ok E h" and holder: "x \<in># E"
  shows "\<exists>h' news. object_array_demarshal creates x field (ObjectPaths paths) h = Some (True, h') \<and> heap_ok E h' \<and>
    array_of x field h' = Some news \<and>
    map (path_of h') news = map Some (filter (\<lambda>p. object_cache_get p h \<noteq> None \<or> creates p) paths) \<and>
    (\<forall>p y. p \<in> set paths \<longrightarrow> object_cache_get p h = Some y \<longrightarrow> y \<in> set news \<and> path_of h' y = Some p)"
  using demarshal_ok [OF assms, of creates field paths] by blast

theorem object_arrays_mirrored_witness:
  "\<exists>h h' news. object_array_demarshal (\<lambda>p. p \<noteq> ''/x'') 0 ''devices'' (ObjectPaths [''/d1'', ''/x'', ''/d1'']) h = Some (True, h') \<and>
     heap_ok {#0#} h' \<and> array_of 0 ''devices'' h' = Some news \<and> map (path_of h') news = [Some ''/d1'', Some ''/d1'']"
proof -
  obtain h where new: "object_new ''/m'' heap_init = (0, h)"
    by (simp add: object_new_def object_cache_add_def heap_init_def Let_def split: prod.split)
  have "object_cache_get ''/m'' heap_init = None"
    by (simp add: object_cache_get_def heap_init_def ght.look_new)
  from object_new_ok(1,2) [OF heap_init_ok this new] have ok: "heap_ok {#0#} h" and
      paths: "path_of h y = (if y = 0 then Some ''/m'' else path_of heap_init y)" for y
    by auto
  have init: "path_of heap_init y = None" for y
    by (simp add: path_of_def heap_init_def ght.look_new)
  have "object_cache_get ''/x'' h \<noteq> Some y" for y
    using heap_ok_cached [OF ok, of "''/x''" y] paths [of y] init [of y] by simp
  then have "object_cache_get ''/x'' h = None"
    by (cases "object_cache_get ''/x'' h") auto
  then show ?thesis
    using object_arrays_mirrored [OF ok, of 0 "\<lambda>p. p \<noteq> ''/x''" "''devices''" "[''/d1'', ''/x'', ''/d1'']"] by fastforce
qed

text \<open>C29: Dropping a reference ends, without touching freed memory, with exactly those objects alive that
  something still refers to, and the cache has exactly the objects that are alive.\<close>

theorem dropping_references_ends:
  assumes "heap_ok (add_mset x E) h"
  shows "\<exists>h'. object_unref x h = Some h' \<and> heap_ok E h' \<and>
    (\<forall>y. gh_lookup (hp_objs h') y \<noteq> None \<longleftrightarrow> y \<in># held (hp_objs h') + E) \<and>
    (\<forall>p y. object_cache_get p h' = Some y \<longleftrightarrow> path_of h' y = Some p)"
proof -
  obtain h' where h': "object_unref x h = Some h'" "heap_ok E h'"
    using object_unref_ok [OF assms] by blast
  have counts: "counts_ok E [] (hp_objs h')"
    using h'(2) by (simp add: heap_ok_def)
  have "gh_lookup (hp_objs h') y \<noteq> None \<longleftrightarrow> y \<in># held (hp_objs h') + E" for y
  proof (cases "gh_lookup (hp_objs h') y")
    case None
    then show ?thesis
      using counts_okD(6) [OF counts, of y] by (auto simp: total_def)
  next
    case (Some oy)
    then have "count (held (hp_objs h') + E) y \<noteq> 0"
      using counts_okD(3,4) [OF counts Some] by (simp add: total_def)
    then show ?thesis
      using Some unfolding count_eq_zero_iff by simp
  qed
  then show ?thesis
    using h' heap_ok_cached [OF h'(2)] by blast
qed

theorem dropping_references_ends_witness:
  "\<exists>h h'. gh_lookup (hp_objs h) 0 \<noteq> None \<and> object_unref 0 h = Some h' \<and> gh_lookup (hp_objs h') 0 = None"
proof -
  obtain h where new: "object_new ''/m'' heap_init = (0, h)"
    by (simp add: object_new_def object_cache_add_def heap_init_def Let_def split: prod.split)
  have "object_cache_get ''/m'' heap_init = None"
    by (simp add: object_cache_get_def heap_init_def ght.look_new)
  note n = object_new_ok [OF heap_init_ok this new]
  obtain h' where h': "object_unref 0 h = Some h'"
      "\<forall>y. gh_lookup (hp_objs h') y \<noteq> None \<longleftrightarrow> y \<in># held (hp_objs h') + {#}"
    using dropping_references_ends [OF n(1)] by blast
  have objs: "gh_lookup (hp_objs h) 0 \<noteq> None"
    using n(2) [of 0] by (auto simp: path_of_def)
  have "hp_objs h' = []"
    using h'(1) new by (auto simp: object_unref_def object_new_def object_cache_add_def heap_init_def Let_def
        gh_lookup_def gh_insert_def gh_new_def gh_remove_def held_by_def gh_values_def)
  then show ?thesis
    using h'(1) objs by (auto simp: gh_lookup_def)
qed

text \<open>Two objects made for one path share an entry of the cache: the tag of the second is a freed string, so
  its end reads freed memory; the end of the first takes the living second out of the cache.\<close>

definition two_clients :: cheap where
  "two_clients = snd (object_new ''/m'' (snd (object_new ''/m'' heap_init)))"

lemma second_object_of_a_path_dangles:
  "object_unref 1 two_clients = None \<and>
   (\<exists>h. object_unref 0 two_clients = Some h \<and> path_of h 1 = Some ''/m'' \<and> object_cache_get ''/m'' h = None)"
  by (simp add: two_clients_def object_unref_def object_new_def object_cache_add_def heap_init_def Let_def
      gh_lookup_def gh_insert_def gh_new_def gh_remove_def held_by_def gh_values_def
      object_cache_remove_by_path_def object_cache_get_def path_of_def)

end
