(* ===== verification/Client.thy ===== *)
theory Client
  imports Client_Heap
begin

text \<open>
  \<^verbatim>\<open>BMClient\<close>, the client's view of the daemon, \<^verbatim>\<open>src/barcode-manager/libbm-glib/bm-client.c\<close>, with the
  choice of the device class of \<^verbatim>\<open>bm-device.c\<close>.  The answers of the daemon and of the bus are parameters.
  An operation that may drop references returns an option, \<open>None\<close> for an access to freed memory.
\<close>

section \<open>State\<close>

datatype client_permission =
  PERMISSION_NONE | PERMISSION_ENABLE_DISABLE_NETWORK | PERMISSION_ENABLE_DISABLE_WIFI
| PERMISSION_ENABLE_DISABLE_WWAN | PERMISSION_USE_USER_CONNECTIONS

datatype permission_result = RESULT_UNKNOWN | RESULT_YES | RESULT_AUTH | RESULT_NO

text \<open>The signals of the client; a device is recorded with its path.\<close>

datatype client_signal =
  Device_Added nat "string option"
| Device_Removed nat "string option"
| Permission_Changed client_permission permission_result

text \<open>\<open>cl_self\<close> is the client's own object, whose arrays \<^verbatim>\<open>devices\<close> and \<^verbatim>\<open>active_connections\<close> are in the heap;
  \<^verbatim>\<open>state\<close> and \<^verbatim>\<open>networking_enabled\<close> are fields that registrations point at.  \<open>cl_freed_access\<close>
  records an access to freed memory by a registered function.\<close>

record client = bm_object +
  cl_self :: nat
  cl_heap :: cheap
  cl_manager_running :: bool
  cl_perm_call :: bool
  cl_permissions :: "(client_permission, permission_result) ghash"
  cl_have_networking_enabled :: bool
  cl_signals :: "client_signal list"
  cl_freed_access :: bool

section \<open>Permissions\<close>

definition permission_to_client :: "string \<Rightarrow> client_permission" where
  "permission_to_client nm =
     (if nm = ''org.freedesktop.BarcodeManager.enable-disable-network'' then PERMISSION_ENABLE_DISABLE_NETWORK
      else if nm = ''org.freedesktop.BarcodeManager.use-user-connections'' then PERMISSION_USE_USER_CONNECTIONS
      else PERMISSION_NONE)"

definition permission_result_to_client :: "string \<Rightarrow> permission_result" where
  "permission_result_to_client nm =
     (if nm = ''yes'' then RESULT_YES else if nm = ''no'' then RESULT_NO else if nm = ''auth'' then RESULT_AUTH else RESULT_UNKNOWN)"

text \<open>One entry of the answer: the permissions so far and the old ones that were not mentioned yet.\<close>

definition permission_step ::
  "(client_permission, permission_result) ghash \<times> client_permission list \<Rightarrow> string \<times> string \<Rightarrow>
   (client_permission, permission_result) ghash \<times> client_permission list" where
  "permission_step acc entry =
     (case acc of (permissions, keys) \<Rightarrow>
        let perm = permission_to_client (fst entry); perm_result = permission_result_to_client (snd entry)
        in if perm \<noteq> PERMISSION_NONE then (gh_insert perm perm_result permissions, remove1 perm keys)
           else (permissions, keys))"

definition update_permissions :: "(string, string) ghash option \<Rightarrow> client \<Rightarrow> client" where
  "update_permissions answer self =
     (case foldl permission_step (gh_new, gh_keys (cl_permissions self)) (case answer of None \<Rightarrow> [] | Some p \<Rightarrow> p) of
        (permissions, keys) \<Rightarrow>
          self\<lparr>cl_permissions := permissions,
               cl_signals := cl_signals self @ map (\<lambda>(perm, result). Permission_Changed perm result) permissions
                 @ map (\<lambda>perm. Permission_Changed perm RESULT_UNKNOWN) keys\<rparr>)"

definition get_permissions_reply :: "(string, string) ghash option \<Rightarrow> client \<Rightarrow> client" where
  "get_permissions_reply answer self = update_permissions answer (self\<lparr>cl_perm_call := False\<rparr>)"

definition client_recheck_permissions :: "client \<Rightarrow> client" where
  "client_recheck_permissions self = (if \<not> cl_perm_call self then self\<lparr>cl_perm_call := True\<rparr> else self)"

definition client_get_permission_result :: "client_permission \<Rightarrow> client \<Rightarrow> permission_result" where
  "client_get_permission_result perm self =
     (case gh_lookup (cl_permissions self) perm of None \<Rightarrow> RESULT_UNKNOWN | Some result \<Rightarrow> result)"

section \<open>Construction\<close>

text \<open>The two properties that the class installs and that the daemon's announcements can set, with the others
  that are registered, of which only \<^verbatim>\<open>active-connections\<close> is installed too.\<close>

definition client_class :: "(string, gtype) ghash" where
  "client_class = [(''state'', T_UINT), (''manager-running'', T_BOOLEAN), (''networking-enabled'', T_BOOLEAN),
     (''active-connections'', T_OTHER 0)]"

definition register_for_property_changed :: "'a bm_object_scheme \<Rightarrow> 'a bm_object_scheme" where
  "register_for_property_changed client =
     handle_properties_changed
       [(''state'', Demarshal_Generic, ''state''),
        (''networking-enabled'', Demarshal_Generic, ''networking_enabled''),
        (''wireless-enabled'', Demarshal_Generic, ''wireless_enabled''),
        (''wireless-hardware-enabled'', Demarshal_Generic, ''wireless_hw_enabled''),
        (''wwan-enabled'', Demarshal_Generic, ''wwan_enabled''),
        (''wwan-hardware-enabled'', Demarshal_Generic, ''wwan_hw_enabled''),
        (''active-connections'', Demarshal_Active_Connections, ''active_connections'')] client"

definition client_fields :: "string \<Rightarrow> gvalue" where
  "client_fields field = (if field = ''state'' then GUInt 0 else GBoolean False)"

definition client_constructor :: "(string, string) ghash option \<Rightarrow> bool option \<Rightarrow> cheap \<Rightarrow> client" where
  "client_constructor permissions name_has_owner heap =
     (case object_new ''/org/freedesktop/BarcodeManager'' heap of
        (object, heap') \<Rightarrow>
          (let self = register_for_property_changed
                 \<lparr>bo_path = ''/org/freedesktop/BarcodeManager'', bo_class = client_class, bo_fields = client_fields, bo_pcs = [],
                  bo_notify_props = [], bo_notify_id = False, bo_notified = [], cl_self = object, cl_heap = heap',
                  cl_manager_running = False, cl_perm_call = False, cl_permissions = gh_new,
                  cl_have_networking_enabled = False, cl_signals = [], cl_freed_access = False\<rparr>;
               self = update_permissions permissions self
           in self\<lparr>cl_manager_running := (case name_has_owner of Some owned \<Rightarrow> owned | None \<Rightarrow> False)\<rparr>))"

section \<open>Announcements of the daemon\<close>

definition handle_net_enabled_changed :: "client \<Rightarrow> client" where
  "handle_net_enabled_changed self = self\<lparr>cl_have_networking_enabled := True\<rparr>"

definition client_notify_handler :: "string \<Rightarrow> client \<Rightarrow> client" where
  "client_notify_handler prop self = (if prop = ''networking-enabled'' then handle_net_enabled_changed self else self)"

text \<open>The object of an active connection can always be made.\<close>

definition demarshal_active_connections :: "wire \<Rightarrow> client \<Rightarrow> (bool \<times> client) option" where
  "demarshal_active_connections value self =
     (case object_array_demarshal (\<lambda>_. True) (cl_self self) ''active_connections'' value (cl_heap self) of
        None \<Rightarrow> None
      | Some (ok, heap) \<Rightarrow>
          Some (ok, if ok then queue_notify ''active-connections'' (self\<lparr>cl_heap := heap\<rparr>) else self))"

text \<open>The functions of the registrations.\<close>

definition client_call :: "marshal_func \<Rightarrow> pspec \<Rightarrow> wire \<Rightarrow> string \<Rightarrow> client \<Rightarrow> bool \<times> client" where
  "client_call func pspec value field self =
     (case func of
        Demarshal_Generic \<Rightarrow> demarshal_generic pspec value field self
      | _ \<Rightarrow> (case demarshal_active_connections value self of
                None \<Rightarrow> (False, self\<lparr>cl_freed_access := True\<rparr>) | Some r \<Rightarrow> r))"

text \<open>\<^verbatim>\<open>NameOwnerChanged\<close>: the function works out whether the daemon runs and ends there.\<close>

definition proxy_name_owner_changed :: "cstr \<Rightarrow> cstr \<Rightarrow> cstr \<Rightarrow> client \<Rightarrow> client" where
  "proxy_name_owner_changed name old_owner new_owner client =
     (let old_good = (case old_owner of None \<Rightarrow> False | Some s \<Rightarrow> length s > 0);
          new_good = (case new_owner of None \<Rightarrow> False | Some s \<Rightarrow> length s > 0)
      in if name \<noteq> Some ''org.freedesktop.BarcodeManager'' then client
         else let new_running = (\<not> old_good \<and> new_good)
              in if new_running = cl_manager_running client then client else client)"

section \<open>Devices\<close>

text \<open>\<^verbatim>\<open>bm_device_new\<close> asks for the type of the device; an answer that is no number reads as 0.\<close>

definition device_creates :: "(string \<Rightarrow> wire option) \<Rightarrow> string \<Rightarrow> bool" where
  "device_creates device_type path =
     (case device_type path of
        None \<Rightarrow> False
      | Some v \<Rightarrow> (let t = (case v of Plain (GUInt t) \<Rightarrow> t | _ \<Rightarrow> 0) in t = 3 \<or> t = 2))"

definition array_return :: "nat list option \<Rightarrow> nat list option" where
  "array_return array = (case array of None \<Rightarrow> None | Some a \<Rightarrow> if a = [] then None else Some a)"

text \<open>\<open>reply\<close> is the answer of \<^verbatim>\<open>GetDevices\<close>.\<close>

definition client_get_devices ::
  "(string \<Rightarrow> wire option) \<Rightarrow> string list option \<Rightarrow> client \<Rightarrow> (nat list option \<times> client) option" where
  "client_get_devices device_type reply client =
     (case array_of (cl_self client) ''devices'' (cl_heap client) of
        Some devices \<Rightarrow> Some (array_return (Some devices), client)
      | None \<Rightarrow>
          (case reply of
             None \<Rightarrow> Some (None, client)
           | Some paths \<Rightarrow>
               (case object_array_demarshal (device_creates device_type) (cl_self client) ''devices'' (ObjectPaths paths) (cl_heap client) of
                  None \<Rightarrow> None
                | Some (_, heap) \<Rightarrow>
                    Some (array_return (array_of (cl_self client) ''devices'' heap), client\<lparr>cl_heap := heap\<rparr>))))"

definition client_get_device_by_path ::
  "(string \<Rightarrow> wire option) \<Rightarrow> string list option \<Rightarrow> string \<Rightarrow> client \<Rightarrow> (nat option \<times> client) option" where
  "client_get_device_by_path device_type reply object_path client =
     (case client_get_devices device_type reply client of
        None \<Rightarrow> None
      | Some (None, client) \<Rightarrow> Some (None, client)
      | Some (Some devices, client) \<Rightarrow>
          Some (find (\<lambda>candidate. path_of (cl_heap client) candidate = Some object_path) devices, client))"

text \<open>\<^verbatim>\<open>g_ptr_array_add\<close>, which refuses an array that was never made; the reference is then lost.\<close>

definition ptr_array_add :: "nat \<Rightarrow> string \<Rightarrow> nat \<Rightarrow> cheap \<Rightarrow> cheap" where
  "ptr_array_add holder field object h =
     (case array_of holder field h of None \<Rightarrow> h | Some objects \<Rightarrow> set_array holder field (objects @ [object]) h)"

definition client_device_added ::
  "(string \<Rightarrow> wire option) \<Rightarrow> string list option \<Rightarrow> string \<Rightarrow> client \<Rightarrow> client option" where
  "client_device_added device_type reply path client =
     (case client_get_device_by_path device_type reply path client of
        None \<Rightarrow> None
      | Some (Some device, client) \<Rightarrow>
          Some (client\<lparr>cl_signals := cl_signals client @ [Device_Added device (path_of (cl_heap client) device)]\<rparr>)
      | Some (None, client) \<Rightarrow>
          (case object_cache_get path (cl_heap client) of
             Some device \<Rightarrow>
               (let heap = ptr_array_add (cl_self client) ''devices'' device (object_ref device (cl_heap client))
                in Some (client\<lparr>cl_heap := heap, cl_signals := cl_signals client @ [Device_Added device (path_of heap device)]\<rparr>))
           | None \<Rightarrow>
               if device_creates device_type path
               then (case object_new path (cl_heap client) of
                       (device, heap) \<Rightarrow>
                         (let heap = ptr_array_add (cl_self client) ''devices'' device heap
                          in Some (client\<lparr>cl_heap := heap, cl_signals := cl_signals client @ [Device_Added device (path_of heap device)]\<rparr>)))
               else Some client))"

definition client_device_removed ::
  "(string \<Rightarrow> wire option) \<Rightarrow> string list option \<Rightarrow> string \<Rightarrow> client \<Rightarrow> client option" where
  "client_device_removed device_type reply path client =
     (case client_get_device_by_path device_type reply path client of
        None \<Rightarrow> None
      | Some (None, client) \<Rightarrow> Some client
      | Some (Some device, client) \<Rightarrow>
          (let client = client\<lparr>cl_signals := cl_signals client @ [Device_Removed device (path_of (cl_heap client) device)]\<rparr>;
               heap = (case array_of (cl_self client) ''devices'' (cl_heap client) of
                         None \<Rightarrow> cl_heap client
                       | Some devices \<Rightarrow> set_array (cl_self client) ''devices'' (remove1 device devices) (cl_heap client))
           in (case object_unref device heap of
                 None \<Rightarrow> None
               | Some heap \<Rightarrow> Some (client\<lparr>cl_heap := heap\<rparr>))))"

section \<open>Getters and requests\<close>

definition client_get_active_connections :: "remote \<Rightarrow> client \<Rightarrow> (nat list option \<times> client) option" where
  "client_get_active_connections remote client =
     (case array_of (cl_self client) ''active_connections'' (cl_heap client) of
        Some a \<Rightarrow> Some (array_return (Some a), client)
      | None \<Rightarrow>
          if \<not> cl_manager_running client then Some (None, client)
          else (case remote ''org.freedesktop.BarcodeManager'' ''ActiveConnections'' of
                  None \<Rightarrow> Some (None, client)
                | Some value \<Rightarrow>
                    (case demarshal_active_connections value client of
                       None \<Rightarrow> None
                     | Some (_, client) \<Rightarrow>
                         Some (array_return (array_of (cl_self client) ''active_connections'' (cl_heap client)), client))))"

definition field_uint :: "gvalue \<Rightarrow> u32" where
  "field_uint v = (case v of GUInt i \<Rightarrow> i | _ \<Rightarrow> 0)"

definition field_boolean :: "gvalue \<Rightarrow> bool" where
  "field_boolean v = (case v of GBoolean b \<Rightarrow> b | _ \<Rightarrow> False)"

definition client_get_state :: "remote \<Rightarrow> client \<Rightarrow> u32 \<times> client" where
  "client_get_state remote client =
     (if \<not> cl_manager_running client then (0, client)
      else let client' = (if field_uint (bo_fields client ''state'') = 0
                          then client\<lparr>bo_fields := (bo_fields client)(''state'' :=
                                 GUInt (get_uint_property remote ''org.freedesktop.BarcodeManager'' ''State''))\<rparr>
                          else client)
           in (field_uint (bo_fields client' ''state''), client'))"

definition client_networking_get_enabled :: "remote \<Rightarrow> client \<Rightarrow> bool \<times> client" where
  "client_networking_get_enabled remote client =
     (let client' =
        (if \<not> cl_have_networking_enabled client \<and> \<not> field_boolean (bo_fields client ''networking_enabled'')
         then client\<lparr>bo_fields := (bo_fields client)(''networking_enabled'' :=
                GBoolean (get_boolean_property remote ''org.freedesktop.BarcodeManager'' ''NetworkingEnabled'')),
                cl_have_networking_enabled := True\<rparr>
         else client)
      in (field_boolean (bo_fields client' ''networking_enabled''), client'))"

text \<open>What is sent: \<^verbatim>\<open>Enable\<close> with its argument, \<^verbatim>\<open>ActivateConnection\<close> with four; no specific object is \<^verbatim>\<open>/\<close>.\<close>

datatype client_call_sent =
  Call_Enable bool
| Call_Activate_Connection string string string string

definition client_networking_set_enabled :: "bool \<Rightarrow> client_call_sent" where
  "client_networking_set_enabled enable = Call_Enable enable"

definition client_sleep :: "bool \<Rightarrow> client_call_sent" where
  "client_sleep sleep = client_networking_set_enabled (\<not> sleep)"

definition client_activate_connection :: "cstr \<Rightarrow> cstr \<Rightarrow> string \<Rightarrow> cstr \<Rightarrow> client_call_sent option" where
  "client_activate_connection service_name connection_path device_path specific_object =
     (case (service_name, connection_path) of
        (Some service, Some connection) \<Rightarrow>
          Some (Call_Activate_Connection service connection device_path (case specific_object of None \<Rightarrow> ''/'' | Some s \<Rightarrow> s))
      | _ \<Rightarrow> None)"

section \<open>Events\<close>

text \<open>What a client handles in its main loop.  \<open>device_type\<close> and \<open>reply\<close> answer the calls made meanwhile.\<close>

datatype client_event =
  Ev_Device_Added string
| Ev_Device_Removed string
| Ev_Properties_Changed "(string, wire) ghash"
| Ev_Check_Permissions
| Ev_Permissions_Reply "(string, string) ghash option"
| Ev_Name_Owner_Changed cstr cstr cstr
| Ev_Idle

definition client_handle ::
  "(string \<Rightarrow> wire option) \<Rightarrow> string list option \<Rightarrow> client_event \<Rightarrow> client \<Rightarrow> client option" where
  "client_handle device_type reply ev client =
     (case ev of
        Ev_Device_Added path \<Rightarrow> client_device_added device_type reply path client
      | Ev_Device_Removed path \<Rightarrow> client_device_removed device_type reply path client
      | Ev_Properties_Changed properties \<Rightarrow>
          (let client' = properties_changed_proxy client_call properties client
           in if cl_freed_access client' then None else Some client')
      | Ev_Check_Permissions \<Rightarrow> Some (client_recheck_permissions client)
      | Ev_Permissions_Reply answer \<Rightarrow> Some (get_permissions_reply answer client)
      | Ev_Name_Owner_Changed name old new \<Rightarrow> Some (proxy_name_owner_changed name old new client)
      | Ev_Idle \<Rightarrow> Some (run_deferred client_notify_handler client))"

fun client_run ::
  "(string \<Rightarrow> wire option) \<Rightarrow> string list option \<Rightarrow> client_event list \<Rightarrow> client \<Rightarrow> client option" where
  "client_run device_type reply [] client = Some client"
| "client_run device_type reply (ev # evs) client =
     (case client_handle device_type reply ev client of
        None \<Rightarrow> None
      | Some client' \<Rightarrow> client_run device_type reply evs client')"

section \<open>Lemmas on permissions\<close>

text \<open>The entries of an answer that name a permission the client knows.\<close>

definition known :: "(string \<times> string) list \<Rightarrow> (client_permission \<times> permission_result) list" where
  "known entries = filter (\<lambda>(p, _). p \<noteq> PERMISSION_NONE)
     (map (\<lambda>(n, r). (permission_to_client n, permission_result_to_client r)) entries)"

lemma known_simps [simp]:
  "known [] = []"
  "known (entries @ [(n, r)]) = known entries @
     (if permission_to_client n = PERMISSION_NONE then [] else [(permission_to_client n, permission_result_to_client r)])"
  by (simp_all add: known_def)

lemma permission_steps:
  assumes "gh_wf permissions" "distinct keys"
  shows "case foldl permission_step (permissions, keys) entries of (permissions', keys') \<Rightarrow>
    gh_wf permissions' \<and> distinct keys' \<and> set keys' = set keys - fst ` set (known entries) \<and>
    gh_lookup permissions' = gh_lookup permissions ++ map_of (rev (known entries))"
  using assms
proof (induction entries rule: rev_induct)
  case (snoc e entries)
  obtain ps ks where fold: "foldl permission_step (permissions, keys) entries = (ps, ks)"
    by fastforce
  obtain n r where e: "e = (n, r)"
    by fastforce
  have ih: "gh_wf ps" "distinct ks" "set ks = set keys - fst ` set (known entries)"
      "gh_lookup ps = gh_lookup permissions ++ map_of (rev (known entries))"
    using snoc fold by auto
  have step: "permission_step (ps, ks) (n, r) =
      (if permission_to_client n = PERMISSION_NONE then (ps, ks)
       else (gh_insert (permission_to_client n) (permission_result_to_client r) ps, remove1 (permission_to_client n) ks))"
    by (simp add: permission_step_def Let_def)
  show ?case
  proof (cases "permission_to_client n = PERMISSION_NONE")
    case True
    then show ?thesis
      using ih by (simp add: fold e step)
  next
    case False
    have "set (remove1 (permission_to_client n) ks) = set keys - insert (permission_to_client n) (fst ` set (known entries))"
      using ih(2,3) by auto
    then show ?thesis
      using ih False by (simp add: fold e step ght.invar_ins gh_simps fun_eq_iff map_add_def)
  qed
qed (simp add: known_def)

section \<open>Lemmas on devices\<close>

text \<open>The invariant of a client whose devices have been fetched: references are accounted for, with \<open>E\<close> those of
  the application, nothing freed was touched, and the devices are those at the paths \<open>ps\<close>.\<close>

definition mirrors :: "nat multiset \<Rightarrow> bool \<Rightarrow> string list \<Rightarrow> client \<Rightarrow> bool" where
  "mirrors E running ps c \<longleftrightarrow> heap_ok (add_mset (cl_self c) E) (cl_heap c) \<and> \<not> cl_freed_access c \<and>
     cl_manager_running c = running \<and> distinct ps \<and>
     (\<exists>ds. array_of (cl_self c) ''devices'' (cl_heap c) = Some ds \<and> map (path_of (cl_heap c)) ds = map Some ps)"

lemma mirrorsE:
  assumes "mirrors E running ps c"
  obtains ds where "heap_ok (add_mset (cl_self c) E) (cl_heap c)" "array_of (cl_self c) ''devices'' (cl_heap c) = Some ds"
    "map (path_of (cl_heap c)) ds = map Some ps"
  using assms by (auto simp: mirrors_def)

text \<open>Changes of other fields keep it.\<close>

lemma mirrors_cong:
  "mirrors E running ps c \<Longrightarrow> cl_self c' = cl_self c \<Longrightarrow> cl_heap c' = cl_heap c \<Longrightarrow> cl_manager_running c' = cl_manager_running c \<Longrightarrow>
     cl_freed_access c' = cl_freed_access c \<Longrightarrow> mirrors E running ps c'"
  by (simp add: mirrors_def)

lemma mirrors_heap:
  "mirrors E running ps c \<Longrightarrow> heap_ok (add_mset (cl_self c) E) h \<Longrightarrow> array_of (cl_self c) ''devices'' h = Some ds \<Longrightarrow>
     map (path_of h) ds = map Some qs \<Longrightarrow> distinct qs \<Longrightarrow> mirrors E running qs (c\<lparr>cl_heap := h\<rparr>)"
  by (simp add: mirrors_def)

lemma device_by_path_fetched:
  "array_of (cl_self c) ''devices'' (cl_heap c) = Some ds \<Longrightarrow>
     client_get_device_by_path device_type reply p c = Some (find (\<lambda>d. path_of (cl_heap c) d = Some p) ds, c)"
  by (simp add: client_get_device_by_path_def client_get_devices_def array_return_def)

lemma find_path:
  assumes "map f ds = map Some ps"
  shows "find (\<lambda>d. f d = Some p) ds = None \<longleftrightarrow> p \<notin> set ps"
    "find (\<lambda>d. f d = Some p) ds = Some d \<Longrightarrow> d \<in> set ds \<and> f d = Some p \<and> p \<in> set ps"
proof -
  have "(\<exists>d \<in> set ds. f d = Some p) \<longleftrightarrow> Some p \<in> set (map f ds)"
    by force
  then have in_ds: "(\<exists>d \<in> set ds. f d = Some p) \<longleftrightarrow> p \<in> set ps"
    by (auto simp: assms)
  then show "find (\<lambda>d. f d = Some p) ds = None \<longleftrightarrow> p \<notin> set ps"
    by (auto simp: find_None_iff)
  assume "find (\<lambda>d. f d = Some p) ds = Some d"
  then have "d \<in> set ds" "f d = Some p"
    by (auto simp: find_Some_iff)
  then show "d \<in> set ds \<and> f d = Some p \<and> p \<in> set ps"
    using in_ds by blast
qed

lemma append_device:
  assumes "heap_ok (add_mset d (add_mset x E)) h" "array_of x f h = Some ds"
  shows "heap_ok (add_mset x E) (ptr_array_add x f d h)" "array_of x f (ptr_array_add x f d h) = Some (ds @ [d])"
    "path_of (ptr_array_add x f d h) y = path_of h y"
proof -
  have ok: "heap_ok ({#d#} + add_mset x E) h"
    using assms(1) by (simp add: add_mset_commute)
  have "mset (ds @ [d]) + {#} = mset (case array_of x f h of None \<Rightarrow> [] | Some old \<Rightarrow> old) + {#d#}"
    by (simp add: assms(2))
  note set = set_array_move [OF ok _ this]
  then show "heap_ok (add_mset x E) (ptr_array_add x f d h)" "array_of x f (ptr_array_add x f d h) = Some (ds @ [d])"
    "path_of (ptr_array_add x f d h) y = path_of h y"
    by (simp_all add: ptr_array_add_def assms(2))
qed

text \<open>What the daemon's announcements make of the list of its devices.\<close>

fun follow :: "client_event \<Rightarrow> string list \<Rightarrow> string list" where
  "follow (Ev_Device_Added p) ps = (if p \<in> set ps then ps else ps @ [p])"
| "follow (Ev_Device_Removed p) ps = remove1 p ps"
| "follow _ ps = ps"

lemma device_added_follows:
  assumes m: "mirrors E running ps c" and creates: "device_creates device_type p"
  shows "\<exists>c' d. client_device_added device_type reply p c = Some c' \<and> mirrors E running (follow (Ev_Device_Added p) ps) c' \<and>
    cl_signals c' = cl_signals c @ [Device_Added d (Some p)]"
proof -
  obtain ds where ds: "heap_ok (add_mset (cl_self c) E) (cl_heap c)" "array_of (cl_self c) ''devices'' (cl_heap c) = Some ds"
    "map (path_of (cl_heap c)) ds = map Some ps"
    using m by (rule mirrorsE)
  note find = find_path [OF ds(3), of p]
  have distinct: "distinct ps"
    using m by (simp add: mirrors_def)
  have add: ?thesis
    if h: "heap_ok (add_mset d (add_mset (cl_self c) E)) h" "array_of (cl_self c) ''devices'' h = Some ds"
      "map (path_of h) (ds @ [d]) = map Some (ps @ [p])" and p: "p \<notin> set ps"
      and result: "client_device_added device_type reply p c = Some (c\<lparr>cl_heap := ptr_array_add (cl_self c) ''devices'' d h,
        cl_signals := cl_signals c @ [Device_Added d (path_of (ptr_array_add (cl_self c) ''devices'' d h) d)]\<rparr>)" for d h
  proof -
    note app = append_device [OF h(1,2)]
    have paths: "map (path_of (ptr_array_add (cl_self c) ''devices'' d h)) (ds @ [d]) = map Some (ps @ [p])"
      unfolding h(3) [symmetric] using app(3) by (intro map_cong) simp_all
    have "mirrors E running (ps @ [p]) (c\<lparr>cl_heap := ptr_array_add (cl_self c) ''devices'' d h\<rparr>)"
      using mirrors_heap [OF m app(1,2) paths] distinct p by simp
    then have "mirrors E running (ps @ [p]) (c\<lparr>cl_heap := ptr_array_add (cl_self c) ''devices'' d h,
        cl_signals := cl_signals c @ [Device_Added d (path_of (ptr_array_add (cl_self c) ''devices'' d h) d)]\<rparr>)"
      by (rule mirrors_cong) simp_all
    then show ?thesis
      using result p h(3) app(3) [of d] by auto
  qed
  show ?thesis
  proof (cases "find (\<lambda>d. path_of (cl_heap c) d = Some p) ds")
    case (Some d)
    let ?c' = "c\<lparr>cl_signals := cl_signals c @ [Device_Added d (Some p)]\<rparr>"
    have "client_device_added device_type reply p c = Some ?c'"
      using find(2) [OF Some] by (simp add: client_device_added_def device_by_path_fetched [OF ds(2)] Some)
    moreover have "mirrors E running ps ?c'"
      by (rule mirrors_cong [OF m]) simp_all
    ultimately show ?thesis
      using find(2) [OF Some] by auto
  next
    case None
    then have p: "p \<notin> set ps"
      using find(1) by simp
    show ?thesis
    proof (cases "object_cache_get p (cl_heap c)")
      case (Some d)
      then have path: "path_of (cl_heap c) d = Some p"
        using heap_ok_cached [OF ds(1)] by simp
      then obtain ob where ob: "gh_lookup (hp_objs (cl_heap c)) d = Some ob"
        by (auto simp: path_of_def)
      show ?thesis
        using path ds p None Some
        by (intro add [OF object_ref_ok [OF ds(1) ob]]) (simp_all add: client_device_added_def device_by_path_fetched [OF ds(2)] Let_def)
    next
      case none: None
      obtain d h where new: "object_new p (cl_heap c) = (d, h)"
        by fastforce
      note n = object_new_ok [OF ds(1) none new]
      have "path_of (cl_heap c) (cl_self c) \<noteq> None"
        using heap_ok_live [OF ds(1), of "cl_self c"] by (auto simp: path_of_def)
      then have self: "cl_self c \<noteq> d"
        using n(4) by auto
      have "\<forall>y \<in> set ds. path_of (cl_heap c) y \<noteq> None"
      proof
        fix y assume "y \<in> set ds"
        then have "path_of (cl_heap c) y \<in> set (map (path_of (cl_heap c)) ds)"
          by simp
        then show "path_of (cl_heap c) y \<noteq> None"
          unfolding ds(3) by auto
      qed
      then have "d \<notin> set ds"
        using n(4) by auto
      then have "map (path_of h) ds = map (path_of (cl_heap c)) ds"
        using n(2) by auto
      then show ?thesis
        using ds p None none new creates n(2) [of d] n(3) self
        by (intro add [OF n(1)]) (simp_all add: client_device_added_def device_by_path_fetched [OF ds(2)] Let_def)
    qed
  qed
qed

text \<open>The device at a path leaves the array, and its reference is dropped.\<close>

lemma remove1_map:
  assumes "map f ds = map Some ps" "distinct ps" "d \<in> set ds" "f d = Some p"
  shows "map f (remove1 d ds) = map Some (remove1 p ps)" "p \<in> set ps"
proof -
  have "Some p \<in> Some ` set ps"
    using assms(1,3,4) by (metis image_eqI list.set_map)
  then show "p \<in> set ps"
    by auto
  have "distinct (map f ds)"
    using assms(1,2) by (simp add: distinct_map)
  then have "map f (remove1 d ds) = remove1 (f d) (map f ds)"
    using assms(3) by (induction ds) (auto simp: rev_image_eqI)
  moreover have "remove1 (Some p) (map Some ps) = map Some (remove1 p ps)"
    by (induction ps) auto
  ultimately show "map f (remove1 d ds) = map Some (remove1 p ps)"
    using assms(1,4) by simp
qed

lemma device_removed_follows:
  assumes m: "mirrors E running ps c"
  shows "\<exists>c' d. client_device_removed device_type reply p c = Some c' \<and> mirrors E running (follow (Ev_Device_Removed p) ps) c' \<and>
    cl_signals c' = cl_signals c @ (if p \<in> set ps then [Device_Removed d (Some p)] else [])"
proof -
  obtain ds where ds: "heap_ok (add_mset (cl_self c) E) (cl_heap c)" "array_of (cl_self c) ''devices'' (cl_heap c) = Some ds"
    "map (path_of (cl_heap c)) ds = map Some ps"
    using m by (rule mirrorsE)
  note find = find_path [OF ds(3), of p]
  have distinct: "distinct ps"
    using m by (simp add: mirrors_def)
  show ?thesis
  proof (cases "find (\<lambda>d. path_of (cl_heap c) d = Some p) ds")
    case None
    then have "p \<notin> set ps"
      using find(1) by simp
    then show ?thesis
      using m None by (simp add: client_device_removed_def device_by_path_fetched [OF ds(2)] remove1_idem)
  next
    case (Some d)
    note d = find(2) [OF Some]
    let ?h = "set_array (cl_self c) ''devices'' (remove1 d ds) (cl_heap c)"
    have ok: "heap_ok ({#} + add_mset (cl_self c) E) (cl_heap c)" and self: "cl_self c \<in># add_mset (cl_self c) E"
      and moved: "mset (remove1 d ds) + {#d#} = mset (case array_of (cl_self c) ''devices'' (cl_heap c) of None \<Rightarrow> [] | Some old \<Rightarrow> old) + {#}"
      using ds(1) d by (simp_all add: ds(2))
    note set = set_array_move [OF ok self moved]
    obtain h' where h': "object_unref d ?h = Some h'" "heap_ok (add_mset (cl_self c) E) h'" "survivors_keep ?h [] h'"
      using object_unref_ok [of d "add_mset (cl_self c) E" ?h] set(1) by (auto simp: add_mset_commute)
    note keep = survivors_array(1,2) [OF h'(3,2) self, where f = "''devices''"]
    have array: "array_of (cl_self c) ''devices'' h' = Some (remove1 d ds)"
      using keep(1) set(2) by simp
    have "map (path_of h') (remove1 d ds) = map (path_of (cl_heap c)) (remove1 d ds)"
      using keep(2) set(2,3) by simp
    then have "map (path_of h') (remove1 d ds) = map Some (remove1 p ps)"
      using remove1_map(1) [OF ds(3) distinct] d by simp
    from mirrors_heap [OF m h'(2) array this] have mir: "mirrors E running (remove1 p ps) (c\<lparr>cl_heap := h'\<rparr>)"
      using distinct by simp
    let ?c' = "c\<lparr>cl_signals := cl_signals c @ [Device_Removed d (Some p)], cl_heap := h'\<rparr>"
    have "client_device_removed device_type reply p c = Some ?c'"
      using d h'(1) by (simp add: client_device_removed_def device_by_path_fetched [OF ds(2)] Some ds(2) Let_def)
    moreover have "mirrors E running (remove1 p ps) ?c'"
      by (rule mirrors_cong [OF mir]) simp_all
    ultimately show ?thesis
      using d by auto
  qed
qed

section \<open>Lemmas on the other events\<close>

lemma queue_notify_client [simp]:
  "cl_self (queue_notify p c) = cl_self c" "cl_heap (queue_notify p c) = cl_heap c"
  "cl_manager_running (queue_notify p c) = cl_manager_running c" "cl_freed_access (queue_notify p c) = cl_freed_access c"
  by (simp_all add: queue_notify_def Let_def)

lemma active_connections_follow:
  assumes m: "mirrors E running ps c"
  shows "\<exists>ok c'. demarshal_active_connections v c = Some (ok, c') \<and> mirrors E running ps c'"
proof (cases v)
  case (ObjectPaths paths)
  obtain ds where ds: "heap_ok (add_mset (cl_self c) E) (cl_heap c)" "array_of (cl_self c) ''devices'' (cl_heap c) = Some ds"
    "map (path_of (cl_heap c)) ds = map Some ps"
    using m by (rule mirrorsE)
  obtain h' where h': "object_array_demarshal (\<lambda>_. True) (cl_self c) ''active_connections'' v (cl_heap c) = Some (True, h')"
    "heap_ok (add_mset (cl_self c) E) h'" "array_of (cl_self c) ''devices'' h' = Some ds"
    "\<And>y p. y \<in> set ds \<Longrightarrow> path_of (cl_heap c) y = Some p \<Longrightarrow> path_of h' y = Some p"
  proof -
    obtain h' where "object_array_demarshal (\<lambda>_. True) (cl_self c) ''active_connections'' v (cl_heap c) = Some (True, h')"
      "heap_ok (add_mset (cl_self c) E) h'"
      and others: "\<forall>g. g \<noteq> ''active_connections'' \<longrightarrow> array_of (cl_self c) g h' = array_of (cl_self c) g (cl_heap c) \<and>
         (\<forall>y p. y \<in> set (case array_of (cl_self c) g (cl_heap c) of None \<Rightarrow> [] | Some ys \<Rightarrow> ys) \<longrightarrow>
            path_of (cl_heap c) y = Some p \<longrightarrow> path_of h' y = Some p)"
      using demarshal_ok [OF ds(1), of "cl_self c" "\<lambda>_. True" "''active_connections''" paths] ObjectPaths by auto
    then show ?thesis
      using that [of h'] others [THEN spec, of "''devices''"] ds(2) by simp
  qed
  have "path_of h' y = path_of (cl_heap c) y" if y: "y \<in> set ds" for y
  proof -
    have "path_of (cl_heap c) y \<in> set (map (path_of (cl_heap c)) ds)"
      using y by simp
    then obtain p where "path_of (cl_heap c) y = Some p"
      unfolding ds(3) by auto
    then show ?thesis
      using h'(4) [OF y] by simp
  qed
  then have "map (path_of h') ds = map Some ps"
    unfolding ds(3) [symmetric] by (intro map_cong) simp_all
  then have "mirrors E running ps (c\<lparr>cl_heap := h'\<rparr>)"
    using mirrors_heap [OF m h'(2,3)] m by (simp add: mirrors_def)
  then have "mirrors E running ps (queue_notify ''active-connections'' (c\<lparr>cl_heap := h'\<rparr>))"
    by (rule mirrors_cong) simp_all
  then show ?thesis
    using h'(1) by (intro exI [of _ True]) (simp add: demarshal_active_connections_def)
qed (use m in \<open>auto simp: demarshal_active_connections_def object_array_demarshal_def\<close>)

lemma client_call_follows:
  assumes m: "mirrors E running ps c"
  shows "mirrors E running ps (snd (client_call func pspec v field c))"
proof -
  obtain ok c' where "demarshal_active_connections v c = Some (ok, c')" "mirrors E running ps c'"
    using active_connections_follow [OF m] by blast
  moreover have "mirrors E running ps (snd (demarshal_generic pspec v field c))"
    by (rule mirrors_cong [OF m]) (simp_all add: demarshal_generic_def split: option.split)
  ultimately show ?thesis
    by (cases func) (simp_all add: client_call_def)
qed

lemma run_pcs_invariant:
  assumes call: "\<And>func pspec v field s. P s \<Longrightarrow> P (snd (call func pspec v field s))" and "P s"
  shows "P (snd (snd (run_pcs call pcs n pspec v s)))"
  using assms(2)
proof (induction pcs arbitrary: s)
  case (Cons pcs rest)
  show ?case
  proof (cases "gh_lookup pcs n")
    case (Some ff)
    obtain func field where ff: "ff = (func, field)"
      by fastforce
    obtain ok s' where run: "call func pspec v field s = (ok, s')"
      by fastforce
    then have "P s'"
      using call [OF Cons.prems, of func pspec v field] by simp
    then show ?thesis
      using Cons.IH [of s'] by (cases ok; cases "run_pcs call rest n pspec v s'") (simp_all add: Some ff run)
  qed (use Cons in simp)
qed simp

lemma properties_changed_follow:
  assumes "mirrors E running ps c"
  shows "mirrors E running ps (properties_changed_proxy client_call properties c)"
proof -
  have handle: "mirrors E running ps (snd (handle_property_changed client_call key data s))" if "mirrors E running ps s" for key data s
    using run_pcs_invariant [where P = "mirrors E running ps" and call = client_call] client_call_follows that
    by (auto simp: handle_property_changed_def Let_def split: option.split prod.split) (metis snd_conv)
  show ?thesis
    unfolding properties_changed_proxy_def gh_foreach_def
    by (rule foldl_invariant [where P = "mirrors E running ps"]) (auto simp: assms handle)
qed

lemma idle_follows:
  assumes "mirrors E running ps c"
  shows "mirrors E running ps (run_deferred client_notify_handler c)"
proof -
  have "mirrors E running ps (foldl (\<lambda>c prop. client_notify_handler prop (c\<lparr>bo_notified := bo_notified c @ [prop]\<rparr>))
      (c\<lparr>bo_notify_id := False, bo_notify_props := []\<rparr>) props)" for props
    using assms by (intro foldl_invariant [where P = "mirrors E running ps"])
      (auto simp: client_notify_handler_def handle_net_enabled_changed_def intro: mirrors_cong)
  then show ?thesis
    using assms by (simp add: run_deferred_def deferred_notify_cb_def)
qed

lemma owner_changed_same [simp]: "proxy_name_owner_changed name old new c = c"
  by (simp add: proxy_name_owner_changed_def Let_def)

text \<open>Devices that the daemon announces can be made.\<close>

definition creatable :: "(string \<Rightarrow> wire option) \<Rightarrow> client_event \<Rightarrow> bool" where
  "creatable device_type ev = (case ev of Ev_Device_Added p \<Rightarrow> device_creates device_type p | _ \<Rightarrow> True)"

lemma handle_follows:
  assumes m: "mirrors E running ps c" and ev: "creatable device_type ev"
  shows "\<exists>c'. client_handle device_type reply ev c = Some c' \<and> mirrors E running (follow ev ps) c'"
proof (cases ev)
  case (Ev_Device_Added p)
  then show ?thesis
    using device_added_follows [OF m, of device_type p reply] ev by (auto simp: client_handle_def creatable_def)
next
  case (Ev_Device_Removed p)
  then show ?thesis
    using device_removed_follows [OF m, of device_type reply p] by (auto simp: client_handle_def)
next
  case (Ev_Properties_Changed properties)
  then show ?thesis
    using properties_changed_follow [OF m, of properties] by (auto simp: client_handle_def Let_def mirrors_def)
next
  case Ev_Idle
  then show ?thesis
    using idle_follows [OF m] by (simp add: client_handle_def)
qed (use m in \<open>auto simp: client_handle_def client_recheck_permissions_def get_permissions_reply_def update_permissions_def
      split: prod.split intro: mirrors_cong\<close>)

lemma run_follows:
  "mirrors E running ps c \<Longrightarrow> list_all (creatable device_type) evs \<Longrightarrow>
     \<exists>c'. client_run device_type reply evs c = Some c' \<and> mirrors E running (fold follow evs ps) c'"
proof (induction evs arbitrary: ps c)
  case (Cons ev evs)
  then obtain c1 where "client_handle device_type reply ev c = Some c1" "mirrors E running (follow ev ps) c1"
    using handle_follows by fastforce
  then show ?case
    using Cons by simp
qed auto

section \<open>Lemmas on the fields that mirror properties\<close>

text \<open>A client with its class's properties and registrations.\<close>

definition registered :: "client \<Rightarrow> bool" where
  "registered c \<longleftrightarrow> bo_class c = client_class \<and> (\<exists>c0 :: client. bo_pcs c0 = [] \<and> bo_pcs c = bo_pcs (register_for_property_changed c0))"

lemma registered_pcs:
  assumes "registered c"
  obtains t where "bo_pcs c = [t]" "gh_lookup t ''state'' = Some (Demarshal_Generic, ''state'')"
    "gh_lookup t ''networking-enabled'' = Some (Demarshal_Generic, ''networking_enabled'')"
    "gh_lookup t ''active-connections'' = Some (Demarshal_Active_Connections, ''active_connections'')"
    "gh_lookup t ''manager-running'' = None"
  using assms by (auto simp: registered_def register_for_property_changed_def handle_properties_changed_def gh_simps ght.look_new)

lemma call_fields:
  "bo_class (snd (client_call func pspec v field s)) = bo_class s" "bo_pcs (snd (client_call func pspec v field s)) = bo_pcs s"
  "func = Demarshal_Active_Connections \<Longrightarrow> bo_fields (snd (client_call func pspec v field s)) = bo_fields s"
  by (auto simp: client_call_def demarshal_generic_def demarshal_active_connections_def split: marshal_func.split option.split)

text \<open>What an announced value does to the two fields, and to the queue of notifications.\<close>

definition received :: "gvalue \<Rightarrow> string \<Rightarrow> (string \<Rightarrow> gvalue) \<Rightarrow> string \<Rightarrow> gvalue" where
  "received v prop fs =
     (case v of
        GUInt i \<Rightarrow> if prop = ''state'' then fs(''state'' := v) else fs
      | GBoolean b \<Rightarrow> if prop = ''networking-enabled'' then fs(''networking_enabled'' := v) else fs
      | _ \<Rightarrow> fs)"

lemma handle_plain:
  assumes "registered s"
  shows "snd (handle_property_changed client_call key (Plain v) s) =
    (if wincaps_to_dash key = ''state'' then snd (demarshal_generic (''state'', T_UINT) (Plain v) ''state'' s)
     else if wincaps_to_dash key = ''networking-enabled''
     then snd (demarshal_generic (''networking-enabled'', T_BOOLEAN) (Plain v) ''networking_enabled'' s)
     else s)"
proof -
  obtain t where t: "bo_pcs s = [t]" "gh_lookup t ''state'' = Some (Demarshal_Generic, ''state'')"
    "gh_lookup t ''networking-enabled'' = Some (Demarshal_Generic, ''networking_enabled'')"
    "gh_lookup t ''active-connections'' = Some (Demarshal_Active_Connections, ''active_connections'')"
    "gh_lookup t ''manager-running'' = None"
    using assms by (rule registered_pcs)
  have class_: "gh_lookup (bo_class s) p = (if p = ''state'' then Some T_UINT else if p = ''manager-running'' then Some T_BOOLEAN
      else if p = ''networking-enabled'' then Some T_BOOLEAN else if p = ''active-connections'' then Some (T_OTHER 0) else None)" for p
    using assms by (simp add: registered_def client_class_def gh_lookup_def)
  consider "wincaps_to_dash key = ''state''" | "wincaps_to_dash key = ''networking-enabled''"
    | "wincaps_to_dash key = ''active-connections''" | "wincaps_to_dash key = ''manager-running''"
    | "gh_lookup (bo_class s) (wincaps_to_dash key) = None" "wincaps_to_dash key \<noteq> ''state''" "wincaps_to_dash key \<noteq> ''networking-enabled''"
    using class_ [of "wincaps_to_dash key"] by (auto split: if_splits)
  then show ?thesis
  proof cases
    case 1
    obtain ok s' where "demarshal_generic (''state'', T_UINT) (Plain v) ''state'' s = (ok, s')"
      by fastforce
    then show ?thesis
      using 1 by (cases ok) (simp_all add: handle_property_changed_def class_ t client_call_def Let_def)
  next
    case 2
    obtain ok s' where "demarshal_generic (''networking-enabled'', T_BOOLEAN) (Plain v) ''networking_enabled'' s = (ok, s')"
      by fastforce
    then show ?thesis
      using 2 by (cases ok) (simp_all add: handle_property_changed_def class_ t client_call_def Let_def)
  next
    case 3
    then show ?thesis
      by (simp add: handle_property_changed_def class_ t client_call_def demarshal_active_connections_def object_array_demarshal_def Let_def)
  next
    case 4
    then show ?thesis
      by (simp add: handle_property_changed_def class_ t Let_def)
  qed (simp add: handle_property_changed_def Let_def)
qed

lemma generic_fields [simp]:
  "bo_class (snd (demarshal_generic pspec v field s)) = bo_class s" "bo_pcs (snd (demarshal_generic pspec v field s)) = bo_pcs s"
  "set (bo_notify_props s) \<subseteq> set (bo_notify_props (snd (demarshal_generic pspec v field s)))"
  "queue_ok s \<Longrightarrow> queue_ok (snd (demarshal_generic pspec v field s))"
  by (auto simp: demarshal_generic_def queue_notify_def queue_ok_def Let_def split: option.split)

lemma handle_registered:
  assumes "registered s"
  shows "registered (snd (handle_property_changed client_call key (Plain v) s))"
    "bo_fields (snd (handle_property_changed client_call key (Plain v) s)) = received v (wincaps_to_dash key) (bo_fields s)"
    "set (bo_notify_props s) \<subseteq> set (bo_notify_props (snd (handle_property_changed client_call key (Plain v) s)))"
    "queue_ok s \<Longrightarrow> queue_ok (snd (handle_property_changed client_call key (Plain v) s))"
    "wincaps_to_dash key = ''networking-enabled'' \<Longrightarrow> v = GBoolean b \<Longrightarrow>
       ''networking-enabled'' \<in> set (bo_notify_props (snd (handle_property_changed client_call key (Plain v) s)))"
proof -
  show "registered (snd (handle_property_changed client_call key (Plain v) s))"
    using assms by (simp add: registered_def handle_plain [OF assms])
  show "bo_fields (snd (handle_property_changed client_call key (Plain v) s)) = received v (wincaps_to_dash key) (bo_fields s)"
    unfolding handle_plain [OF assms]
    by (cases v) (simp_all add: demarshal_generic_def demarshal_value_def received_def)
  show "set (bo_notify_props s) \<subseteq> set (bo_notify_props (snd (handle_property_changed client_call key (Plain v) s)))"
    "queue_ok s \<Longrightarrow> queue_ok (snd (handle_property_changed client_call key (Plain v) s))"
    unfolding handle_plain [OF assms] by (simp_all split: if_split)
  show "''networking-enabled'' \<in> set (bo_notify_props (snd (handle_property_changed client_call key (Plain v) s)))"
    if "wincaps_to_dash key = ''networking-enabled''" "v = GBoolean b"
    using that unfolding handle_plain [OF assms]
    by (simp add: demarshal_generic_def demarshal_value_def queue_notify_def Let_def)
qed

text \<open>A whole announcement, whose names survive the translation: the field has the value under the property's name.\<close>

definition survives :: "string \<Rightarrow> bool" where
  "survives n \<longleftrightarrow> wincaps_to_dash (uscore_to_wincaps (Some n)) = n"

definition announcement :: "(string, gvalue) ghash \<Rightarrow> (string, wire) ghash" where
  "announcement h = map (\<lambda>(k, v). (k, Plain v)) h"

lemma announcement_received:
  assumes "registered s" "queue_ok s" "gh_wf h" "\<forall>(k, v) \<in> set h. \<exists>n. survives n \<and> k = uscore_to_wincaps (Some n)"
  shows "registered (properties_changed_proxy client_call (announcement h) s) \<and>
    queue_ok (properties_changed_proxy client_call (announcement h) s) \<and>
    (\<forall>b. gh_lookup h ''NetworkingEnabled'' = Some (GBoolean b) \<longrightarrow>
       bo_fields (properties_changed_proxy client_call (announcement h) s) ''networking_enabled'' = GBoolean b \<and>
       ''networking-enabled'' \<in> set (bo_notify_props (properties_changed_proxy client_call (announcement h) s)))"
  using assms
proof (induction h rule: rev_induct)
  case Nil
  then show ?case
    by (simp add: properties_changed_proxy_def announcement_def gh_foreach_def gh_lookup_def)
next
  case (snoc kv h)
  obtain k v where kv: "kv = (k, v)"
    by fastforce
  let ?s = "properties_changed_proxy client_call (announcement h) s"
  let ?s' = "snd (handle_property_changed client_call k (Plain v) ?s)"
  have step: "properties_changed_proxy client_call (announcement (h @ [kv])) s = ?s'"
    by (simp add: properties_changed_proxy_def announcement_def gh_foreach_def kv)
  have k: "k \<notin> set (map fst h)" and wf: "gh_wf h"
    using snoc.prems(3) by (auto simp: gh_wf_def gh_keys_def kv)
  have ih: "registered ?s" "queue_ok ?s" "gh_lookup h ''NetworkingEnabled'' = Some (GBoolean b) \<Longrightarrow>
      bo_fields ?s ''networking_enabled'' = GBoolean b \<and> ''networking-enabled'' \<in> set (bo_notify_props ?s)" for b
    using snoc.IH [OF snoc.prems(1,2) wf] snoc.prems(4) by auto
  obtain n where n: "survives n" "k = uscore_to_wincaps (Some n)"
    using snoc.prems(4) by (auto simp: kv)
  have ne: "uscore_to_wincaps (Some ''networking-enabled'') = ''NetworkingEnabled''" "wincaps_to_dash ''NetworkingEnabled'' = ''networking-enabled''"
    by (simp_all add: uscore_to_wincaps_def ascii_toupper_def char_code_def wincaps_to_dash_def wincaps_step_def
        g_ascii_isupper_def ascii_tolower_def)
  have dash: "wincaps_to_dash k = ''networking-enabled'' \<longleftrightarrow> k = ''NetworkingEnabled''"
    using n ne by (auto simp: survives_def)
  note handled = handle_registered [OF ih(1), of k v]
  have "bo_fields ?s' ''networking_enabled'' = GBoolean b \<and> ''networking-enabled'' \<in> set (bo_notify_props ?s')"
    if look: "gh_lookup (h @ [kv]) ''NetworkingEnabled'' = Some (GBoolean b)" for b
  proof (cases "k = ''NetworkingEnabled''")
    case True
    then have "gh_lookup h ''NetworkingEnabled'' = None"
      using k by (simp add: gh_lookup_def map_of_eq_None_iff)
    then have "v = GBoolean b"
      using look True by (simp add: kv gh_lookup_def map_add_def)
    then show ?thesis
      using handled(2) handled(5) [of b] True dash by (simp add: received_def)
  next
    case False
    then have "gh_lookup h ''NetworkingEnabled'' = Some (GBoolean b)"
      using look by (auto simp: kv gh_lookup_def map_add_def split: option.splits if_splits)
    then show ?thesis
      using ih(3) [of b] handled(2,3) False dash by (auto simp: received_def split: gvalue.split)
  qed
  then show ?case
    unfolding step using handled(1,4) ih(2) by blast
qed

text \<open>The deferred notifications set the flag, and leave the fields.\<close>

lemma handler_fields:
  "bo_fields (foldl (\<lambda>c p. client_notify_handler p (c\<lparr>bo_notified := bo_notified c @ [p]\<rparr>)) c ps) = bo_fields c \<and>
   (cl_have_networking_enabled (foldl (\<lambda>c p. client_notify_handler p (c\<lparr>bo_notified := bo_notified c @ [p]\<rparr>)) c ps) \<longleftrightarrow>
     cl_have_networking_enabled c \<or> ''networking-enabled'' \<in> set ps)"
  by (induction ps arbitrary: c) (auto simp: client_notify_handler_def handle_net_enabled_changed_def)

lemma idle_fields:
  assumes "queue_ok c" "''networking-enabled'' \<in> set (bo_notify_props c)"
  shows "bo_fields (run_deferred client_notify_handler c) = bo_fields c"
    "cl_have_networking_enabled (run_deferred client_notify_handler c)"
proof -
  have "bo_notify_id c"
    using assms by (auto simp: queue_ok_def)
  then show "bo_fields (run_deferred client_notify_handler c) = bo_fields c"
      "cl_have_networking_enabled (run_deferred client_notify_handler c)"
    using handler_fields [of "c\<lparr>bo_notify_id := False, bo_notify_props := []\<rparr>" "rev (bo_notify_props c)"] assms(2)
    by (simp_all add: run_deferred_def deferred_notify_cb_def)
qed

section \<open>A new client\<close>

lemma update_permissions_fields [simp]:
  "bo_class (update_permissions answer c) = bo_class c" "bo_pcs (update_permissions answer c) = bo_pcs c"
  "cl_self (update_permissions answer c) = cl_self c" "cl_heap (update_permissions answer c) = cl_heap c"
  "bo_notify_id (update_permissions answer c) = bo_notify_id c" "bo_notify_props (update_permissions answer c) = bo_notify_props c"
  "cl_freed_access (update_permissions answer c) = cl_freed_access c"
  by (simp_all add: update_permissions_def split: prod.split)

lemma constructed:
  fixes permissions owner
  defines "c \<equiv> client_constructor permissions owner heap_init"
  shows "heap_ok {#cl_self c#} (cl_heap c)" "array_of (cl_self c) f (cl_heap c) = None" "registered c" "queue_ok c"
    "\<not> cl_freed_access c" "cl_manager_running c = (owner = Some True)"
proof -
  obtain x h where new: "object_new ''/org/freedesktop/BarcodeManager'' heap_init = (x, h)"
    by fastforce
  have "object_cache_get ''/org/freedesktop/BarcodeManager'' heap_init = None"
    by (simp add: object_cache_get_def heap_init_def ght.look_new)
  note n = object_new_ok [OF heap_init_ok this new]
  have c: "cl_self c = x" "cl_heap c = h"
    by (simp_all add: c_def client_constructor_def new register_for_property_changed_def handle_properties_changed_def)
  show "heap_ok {#cl_self c#} (cl_heap c)" "array_of (cl_self c) f (cl_heap c) = None"
    using n(1,3) by (simp_all add: c)
  show "queue_ok c" "\<not> cl_freed_access c" "cl_manager_running c = (owner = Some True)"
    by (auto simp: c_def client_constructor_def new register_for_property_changed_def handle_properties_changed_def
        queue_ok_def split: option.split)
  let ?c0 = "\<lparr>bo_path = ''/org/freedesktop/BarcodeManager'', bo_class = client_class, bo_fields = client_fields, bo_pcs = [],
     bo_notify_props = [], bo_notify_id = False, bo_notified = [], cl_self = x, cl_heap = h,
     cl_manager_running = False, cl_perm_call = False, cl_permissions = gh_new,
     cl_have_networking_enabled = False, cl_signals = [], cl_freed_access = False\<rparr>"
  have "bo_pcs c = bo_pcs (register_for_property_changed ?c0)" "bo_class c = client_class"
    by (simp_all add: c_def client_constructor_def new)
       (simp add: register_for_property_changed_def handle_properties_changed_def)
  then show "registered c"
    unfolding registered_def by (intro conjI exI [of _ ?c0]) simp_all
qed

text \<open>When the devices have been fetched, the invariant holds.\<close>

lemma fetched:
  assumes "list_all (device_creates device_type) paths" "distinct paths"
  shows "\<exists>c devices. client_get_devices device_type (Some paths) (client_constructor permissions owner heap_init) = Some (devices, c) \<and>
    mirrors {#} (owner = Some True) paths c"
proof -
  let ?c = "client_constructor permissions owner heap_init"
  note c = constructed [of permissions owner]
  obtain h' news where h': "object_array_demarshal (device_creates device_type) (cl_self ?c) ''devices'' (ObjectPaths paths) (cl_heap ?c) = Some (True, h')"
      "heap_ok {#cl_self ?c#} h'" "array_of (cl_self ?c) ''devices'' h' = Some news"
      "map (path_of h') news = map Some (filter (\<lambda>p. object_cache_get p (cl_heap ?c) \<noteq> None \<or> device_creates device_type p) paths)"
    using demarshal_ok [OF c(1), of "cl_self ?c" "device_creates device_type" "''devices''" paths] by auto
  have "filter (\<lambda>p. object_cache_get p (cl_heap ?c) \<noteq> None \<or> device_creates device_type p) paths = paths"
    using assms(1) by (auto simp: list_all_iff)
  then have "mirrors {#} (owner = Some True) paths (?c\<lparr>cl_heap := h'\<rparr>)"
    using h' c(5,6) assms(2) by (simp add: mirrors_def)
  then show ?thesis
    using h'(1) c(2) by (auto simp: client_get_devices_def)
qed

section \<open>Properties\<close>

text \<open>C31: An answer about permissions is announced completely: the client signals each permission that it knew
  before or that the answer names, each once, with the result it has from now on; that is the
  answer's, and unknown for a permission that the answer does not name and after an error.\<close>

theorem permissions_announced:
  assumes "gh_wf (cl_permissions self)"
  shows "\<exists>sigs. cl_signals (update_permissions answer self) = cl_signals self @ map (\<lambda>(p, r). Permission_Changed p r) sigs \<and>
    distinct (map fst sigs) \<and>
    (let entries = known (case answer of None \<Rightarrow> [] | Some e \<Rightarrow> e) in
     fst ` set sigs = set (gh_keys (cl_permissions self)) \<union> fst ` set entries \<and>
     (\<forall>p. client_get_permission_result p (update_permissions answer self) =
        (case map_of (rev entries) p of None \<Rightarrow> RESULT_UNKNOWN | Some r \<Rightarrow> r)) \<and>
     (\<forall>p r. (p, r) \<in> set sigs \<longrightarrow> client_get_permission_result p (update_permissions answer self) = r))"
proof -
  define entries where "entries = (case answer of None \<Rightarrow> [] | Some e \<Rightarrow> e)"
  let ?old = "gh_keys (cl_permissions self)"
  obtain ps ks where fold: "foldl permission_step (gh_new, ?old) entries = (ps, ks)"
    by fastforce
  have "distinct ?old" "gh_wf (gh_new :: (client_permission, permission_result) ghash)"
    using assms ght.invar_new by (simp_all add: gh_wf_def [symmetric])
  then have ps: "gh_wf ps" "distinct ks" "set ks = set ?old - fst ` set (known entries)"
      "gh_lookup ps = map_of (rev (known entries))"
    using permission_steps [of gh_new ?old entries] fold by (simp_all add: ght.look_new [abs_def] fun_eq_iff map_add_def)
  have keys: "set (map fst ps) = fst ` set (known entries)"
    using ght.keys_look [of _ ps] by (auto simp: gh_keys_def ps(4) map_of_eq_None_iff set_eq_iff dom_def)
  define sigs where "sigs = ps @ map (\<lambda>p. (p, RESULT_UNKNOWN)) ks"
  have up: "cl_permissions (update_permissions answer self) = ps"
    "cl_signals (update_permissions answer self) = cl_signals self @ map (\<lambda>(p, r). Permission_Changed p r) sigs"
    using fold by (simp_all add: update_permissions_def entries_def [symmetric] sigs_def comp_def)
  have "map fst sigs = map fst ps @ ks"
    by (simp add: sigs_def comp_def)
  moreover have "distinct (map fst ps)" "set (map fst ps) \<inter> set ks = {}"
    using ps(1,3) keys by (auto simp: gh_wf_def gh_keys_def)
  ultimately have "distinct (map fst sigs)" "set (map fst sigs) = set ?old \<union> fst ` set (known entries)"
    using ps(2,3) keys by auto
  moreover have result: "client_get_permission_result p (update_permissions answer self) =
      (case map_of (rev (known entries)) p of None \<Rightarrow> RESULT_UNKNOWN | Some r \<Rightarrow> r)" for p
    by (simp add: client_get_permission_result_def up ps(4))
  moreover have "client_get_permission_result p (update_permissions answer self) = r" if "(p, r) \<in> set sigs" for p r
  proof (cases "(p, r) \<in> set ps")
    case True
    then show ?thesis
      using ps(1) by (simp add: client_get_permission_result_def up gh_lookup_def gh_wf_def gh_keys_def)
  next
    case False
    then have "p \<in> set ks" "r = RESULT_UNKNOWN"
      using that by (auto simp: sigs_def)
    then have "p \<notin> set (map fst ps)"
      using ps(3) keys by auto
    then show ?thesis
      using \<open>r = RESULT_UNKNOWN\<close> by (simp add: client_get_permission_result_def up gh_lookup_def map_of_eq_None_iff [THEN iffD2])
  qed
  ultimately show ?thesis
    unfolding entries_def [symmetric] Let_def using up(2) by (intro exI [of _ sigs]) auto
qed

theorem permissions_announced_witness:
  "\<exists>self sigs. cl_signals (update_permissions (Some [(''org.freedesktop.BarcodeManager.enable-disable-network'', ''auth''), (''x'', ''yes'')]) self) =
     map (\<lambda>(p, r). Permission_Changed p r) sigs \<and> distinct (map fst sigs) \<and> PERMISSION_USE_USER_CONNECTIONS \<in> fst ` set sigs \<and>
     client_get_permission_result PERMISSION_USE_USER_CONNECTIONS
       (update_permissions (Some [(''org.freedesktop.BarcodeManager.enable-disable-network'', ''auth''), (''x'', ''yes'')]) self) = RESULT_UNKNOWN"
proof -
  let ?self = "(client_constructor None None heap_init)\<lparr>cl_permissions := [(PERMISSION_USE_USER_CONNECTIONS, RESULT_YES)], cl_signals := []\<rparr>"
  let ?answer = "Some [(''org.freedesktop.BarcodeManager.enable-disable-network'', ''auth''), (''x'', ''yes'')]"
  have wf: "gh_wf (cl_permissions ?self)"
    by (simp add: gh_wf_def gh_keys_def)
  have entries: "known [(''org.freedesktop.BarcodeManager.enable-disable-network'', ''auth''), (''x'', ''yes'')] =
      [(PERMISSION_ENABLE_DISABLE_NETWORK, RESULT_AUTH)]"
    by (simp add: known_def permission_to_client_def permission_result_to_client_def)
  obtain sigs where "cl_signals (update_permissions ?answer ?self) = cl_signals ?self @ map (\<lambda>(p, r). Permission_Changed p r) sigs"
      "distinct (map fst sigs)"
      "fst ` set sigs = set (gh_keys (cl_permissions ?self)) \<union> fst ` set [(PERMISSION_ENABLE_DISABLE_NETWORK, RESULT_AUTH)]"
      "\<forall>p. client_get_permission_result p (update_permissions ?answer ?self) =
        (case map_of (rev [(PERMISSION_ENABLE_DISABLE_NETWORK, RESULT_AUTH)]) p of None \<Rightarrow> RESULT_UNKNOWN | Some r \<Rightarrow> r)"
    using permissions_announced [OF wf, of ?answer] unfolding option.case entries Let_def by blast
  then show ?thesis
    by (intro exI [of _ ?self] exI [of _ sigs]) (simp add: gh_keys_def)
qed

text \<open>C27: A client follows the daemon's devices.  Whatever events it handles, in any order, while the
  devices that the daemon announces can be made, it ends without touching freed memory and
  with exactly those devices, in the order of their announcement, that the announcements of
  added and removed devices make of the list it began with; and whether the daemon runs it
  still believes what it believed at the start, whoever owned the daemon's name meanwhile.\<close>

theorem client_follows_devices:
  assumes "mirrors E running ps c" "list_all (creatable device_type) evs"
  shows "\<exists>c' ds. client_run device_type reply evs c = Some c' \<and> mirrors E running (fold follow evs ps) c' \<and>
    client_get_devices device_type reply c' = Some (array_return (Some ds), c') \<and>
    map (path_of (cl_heap c')) ds = map Some (fold follow evs ps) \<and>
    (running \<or> client_get_state remote c' = (0, c'))"
proof -
  obtain c' where c': "client_run device_type reply evs c = Some c'" "mirrors E running (fold follow evs ps) c'"
    using run_follows [OF assms] by blast
  obtain ds where ds: "array_of (cl_self c') ''devices'' (cl_heap c') = Some ds"
    "map (path_of (cl_heap c')) ds = map Some (fold follow evs ps)"
    using c'(2) by (rule mirrorsE)
  then have "client_get_devices device_type reply c' = Some (array_return (Some ds), c')"
    by (simp add: client_get_devices_def)
  moreover have "cl_manager_running c' = running"
    using c'(2) by (simp add: mirrors_def)
  ultimately show ?thesis
    using c' ds(2) by (auto simp: client_get_state_def)
qed

theorem client_follows_devices_witness:
  "\<exists>c c'. client_run (\<lambda>_. Some (Plain (GUInt 2))) None
       [Ev_Device_Added ''/d2'', Ev_Name_Owner_Changed (Some ''org.freedesktop.BarcodeManager'') None (Some '':1.5''),
        Ev_Properties_Changed [(''ActiveConnections'', ObjectPaths [''/a''])], Ev_Idle, Ev_Device_Removed ''/d1''] c = Some c' \<and>
     mirrors {#} False [''/d2''] c' \<and> fst (client_get_state (\<lambda>_ _. Some (Plain (GUInt 3))) c') = 0"
proof -
  obtain c where c: "mirrors {#} False [''/d1''] c"
    using fetched [of "\<lambda>_. Some (Plain (GUInt 2))" "[''/d1'']" None "Some False"] by (auto simp: device_creates_def)
  let ?evs = "[Ev_Device_Added ''/d2'', Ev_Name_Owner_Changed (Some ''org.freedesktop.BarcodeManager'') None (Some '':1.5''),
    Ev_Properties_Changed [(''ActiveConnections'', ObjectPaths [''/a''])], Ev_Idle, Ev_Device_Removed ''/d1'']"
  have "list_all (creatable (\<lambda>_. Some (Plain (GUInt 2)))) ?evs"
    by (simp add: creatable_def device_creates_def)
  from client_follows_devices [OF c this, of None "\<lambda>_ _. Some (Plain (GUInt 3))"]
  obtain c' where "client_run (\<lambda>_. Some (Plain (GUInt 2))) None ?evs c = Some c'" "mirrors {#} False (fold follow ?evs [''/d1'']) c'"
      "client_get_state (\<lambda>_ _. Some (Plain (GUInt 3))) c' = (0, c')"
    by auto
  moreover have "fold follow ?evs [''/d1''] = [''/d2'']"
    by simp
  ultimately show ?thesis
    by (intro exI [of _ c] exI [of _ c']) (simp only: fst_conv simp_thms)
qed

text \<open>C30: A change of networking reaches the clients: when the daemon's last exported change of
  \<^verbatim>\<open>networking-enabled\<close> between two rounds of its main loop is to \<open>b\<close>, then the announcement it
  sends makes a client that handles it, with the notifications it queues, answer \<open>b\<close> from then
  on, without asking the daemon; provided the names that changed survive the way.\<close>

theorem networking_change_reaches_client:
  assumes "info_ok st" "pending_lookup st = Map.empty" "announced chs ''NetworkingEnabled'' = Some (GBoolean b)"
    and "\<forall>(no_export, n, v) \<in> set chs. survives n" and "registered c" "queue_ok c"
  shows "\<exists>st' h. run_idle [] (notify_each chs st) = Some st' \<and> nt_sent st' = nt_sent st @ [h] \<and>
    (let c' = run_deferred client_notify_handler (properties_changed_proxy client_call (announcement h) c)
     in client_networking_get_enabled remote c' = (b, c'))"
proof -
  have "announced chs \<noteq> Map.empty"
    using assms(3) by (metis option.distinct(1))
  then obtain st' h where st': "run_idle [] (notify_each chs st) = Some st'" "nt_sent st' = nt_sent st @ [h]"
      "gh_lookup h = announced chs" "gh_wf h"
    using announced_next_round [OF assms(1,2), of chs] by auto
  have "\<exists>n. survives n \<and> k = uscore_to_wincaps (Some n)" if kv: "(k, v) \<in> set h" for k v
  proof -
    have "announced chs k = Some v"
      using kv st'(3,4) ght.entries_look by metis
    then have "(k, v) \<in> set (map (\<lambda>(_, n, v). (uscore_to_wincaps (Some n), v)) (filter (\<lambda>(no_export, _). \<not> no_export) chs))"
      unfolding announced_def by (metis map_of_SomeD set_rev)
    then show ?thesis
      using assms(4) by auto
  qed
  then have received: "bo_fields (properties_changed_proxy client_call (announcement h) c) ''networking_enabled'' = GBoolean b"
      "''networking-enabled'' \<in> set (bo_notify_props (properties_changed_proxy client_call (announcement h) c))"
      "queue_ok (properties_changed_proxy client_call (announcement h) c)"
    using announcement_received [OF assms(5,6) st'(4)] assms(3) st'(3) by auto
  note idle = idle_fields [OF received(3,2)]
  show ?thesis
    using st'(1,2) by (intro exI [of _ st'] exI [of _ h])
      (simp add: Let_def client_networking_get_enabled_def idle received(1) field_boolean_def)
qed

theorem networking_change_reaches_client_witness:
  "\<exists>h. nt_sent (the (run_idle [] (notify_each [(False, ''networking-enabled'', GBoolean True), (False, ''state'', GUInt 1),
       (False, ''networking-enabled'', GBoolean False)] notifier_init))) = [h] \<and>
     (let c' = run_deferred client_notify_handler (properties_changed_proxy client_call (announcement h)
            (client_constructor None (Some True) heap_init))
      in client_networking_get_enabled (\<lambda>_ _. Some (Plain (GBoolean True))) c' = (False, c'))"
proof -
  let ?chs = "[(False, ''networking-enabled'', GBoolean True), (False, ''state'', GUInt 1), (False, ''networking-enabled'', GBoolean False)]"
  have "info_ok notifier_init" "pending_lookup notifier_init = Map.empty"
    by (simp_all add: notifier_init_def info_ok_def pending_lookup_def)
  moreover have "announced ?chs ''NetworkingEnabled'' = Some (GBoolean False)"
    by (simp add: announced_def uscore_to_wincaps_def ascii_toupper_def char_code_def)
  moreover have "survives ''networking-enabled''" "survives ''state''"
    by (simp_all add: survives_def uscore_to_wincaps_def ascii_toupper_def char_code_def wincaps_to_dash_def wincaps_step_def
        g_ascii_isupper_def ascii_tolower_def)
  ultimately show ?thesis
    using networking_change_reaches_client [of notifier_init ?chs False "client_constructor None (Some True) heap_init"
        "\<lambda>_ _. Some (Plain (GBoolean True))"] constructed(3,4) [of None "Some True"]
    by (fastforce simp: notifier_init_def)
qed

text \<open>A check of permissions that the daemon asks for while an answer is awaited is not made, and an answer that
  arrives later than the request is taken for the current one.\<close>

lemma check_dropped_while_waiting: "cl_perm_call c \<Longrightarrow> client_recheck_permissions c = c"
  by (simp add: client_recheck_permissions_def)

end
