(* ===== verification/Client_Device.thy ===== *)
theory Client_Device
  imports Client
begin

text \<open>
  The client's devices and active connections, \<^verbatim>\<open>libbm-glib/bm-device.c\<close>, \<^verbatim>\<open>bm-device-bt.c\<close>,
  \<^verbatim>\<open>bm-device-hidraw.c\<close>, \<^verbatim>\<open>bm-serial-device.c\<close> and \<^verbatim>\<open>bm-active-connection.c\<close>: cached properties, the
  state signal, and the description of a device from the udev database.  A udev device with its
  ancestors is a list of their property tables, nearest first.
\<close>

section \<open>Cached properties\<close>

text \<open>A field that is \<^verbatim>\<open>NULL\<close>, 0 or \<^verbatim>\<open>FALSE\<close> is fetched again.\<close>

definition field_string :: "gvalue \<Rightarrow> cstr" where
  "field_string v = (case v of GString s \<Rightarrow> s | _ \<Rightarrow> None)"

definition cached_string ::
  "remote \<Rightarrow> string \<Rightarrow> string \<Rightarrow> string \<Rightarrow> 'a bm_object_scheme \<Rightarrow> cstr \<times> 'a bm_object_scheme" where
  "cached_string remote interface prop_name field object =
     (let object = (if field_string (bo_fields object field) = None
                    then object\<lparr>bo_fields := (bo_fields object)(field := GString (get_string_property remote interface prop_name))\<rparr>
                    else object)
      in (field_string (bo_fields object field), object))"

definition cached_uint ::
  "remote \<Rightarrow> string \<Rightarrow> string \<Rightarrow> string \<Rightarrow> 'a bm_object_scheme \<Rightarrow> u32 \<times> 'a bm_object_scheme" where
  "cached_uint remote interface prop_name field object =
     (let object = (if field_uint (bo_fields object field) = 0
                    then object\<lparr>bo_fields := (bo_fields object)(field := GUInt (get_uint_property remote interface prop_name))\<rparr>
                    else object)
      in (field_uint (bo_fields object field), object))"

definition cached_boolean ::
  "remote \<Rightarrow> string \<Rightarrow> string \<Rightarrow> string \<Rightarrow> 'a bm_object_scheme \<Rightarrow> bool \<times> 'a bm_object_scheme" where
  "cached_boolean remote interface prop_name field object =
     (let object = (if \<not> field_boolean (bo_fields object field)
                    then object\<lparr>bo_fields := (bo_fields object)(field := GBoolean (get_boolean_property remote interface prop_name))\<rparr>
                    else object)
      in (field_boolean (bo_fields object field), object))"

section \<open>Devices\<close>

record client_device = bm_object +
  cd_vendor :: cstr
  cd_product :: cstr
  cd_state_signals :: "(u32 \<times> u32 \<times> u32) list"
  cd_capabilities_valid :: bool

definition IF_DEVICE :: string where
  "IF_DEVICE = ''org.freedesktop.BarcodeManager.Device''"

definition device_register_for_property_changed :: "'a bm_object_scheme \<Rightarrow> 'a bm_object_scheme" where
  "device_register_for_property_changed device =
     handle_properties_changed
       [(''udi'', Demarshal_Generic, ''udi''), (''interface'', Demarshal_Generic, ''iface''),
        (''driver'', Demarshal_Generic, ''driver''), (''capabilities'', Demarshal_Generic, ''capabilities''),
        (''managed'', Demarshal_Generic, ''managed''), (''firmware-missing'', Demarshal_Generic, ''firmware_missing'')] device"

definition bm_device_get_iface :: "remote \<Rightarrow> client_device \<Rightarrow> cstr \<times> client_device" where
  "bm_device_get_iface remote = cached_string remote IF_DEVICE ''Interface'' ''iface''"

definition bm_device_get_udi :: "remote \<Rightarrow> client_device \<Rightarrow> cstr \<times> client_device" where
  "bm_device_get_udi remote = cached_string remote IF_DEVICE ''Udi'' ''udi''"

definition bm_device_get_driver :: "remote \<Rightarrow> client_device \<Rightarrow> cstr \<times> client_device" where
  "bm_device_get_driver remote = cached_string remote IF_DEVICE ''Driver'' ''driver''"

definition bm_device_get_capabilities :: "remote \<Rightarrow> client_device \<Rightarrow> u32 \<times> client_device" where
  "bm_device_get_capabilities remote = cached_uint remote IF_DEVICE ''Capabilities'' ''capabilities''"

definition bm_device_get_managed :: "remote \<Rightarrow> client_device \<Rightarrow> bool \<times> client_device" where
  "bm_device_get_managed remote = cached_boolean remote IF_DEVICE ''Managed'' ''managed''"

definition bm_device_get_firmware_missing :: "remote \<Rightarrow> client_device \<Rightarrow> bool \<times> client_device" where
  "bm_device_get_firmware_missing remote = cached_boolean remote IF_DEVICE ''FirmwareMissing'' ''firmware_missing''"

definition bm_device_get_state :: "remote \<Rightarrow> client_device \<Rightarrow> u32 \<times> client_device" where
  "bm_device_get_state remote = cached_uint remote IF_DEVICE ''State'' ''state''"

text \<open>The \<^verbatim>\<open>StateChanged\<close> signal of the daemon.\<close>

definition client_device_state_changed :: "u32 \<Rightarrow> u32 \<Rightarrow> u32 \<Rightarrow> client_device \<Rightarrow> client_device" where
  "client_device_state_changed new_state old_state reason self =
     (if field_uint (bo_fields self ''state'') \<noteq> new_state
      then queue_notify ''state''
             (self\<lparr>bo_fields := (bo_fields self)(''state'' := GUInt new_state),
                   cd_state_signals := cd_state_signals self @ [(new_state, old_state, reason)]\<rparr>)
      else self)"

text \<open>The two kinds of device.\<close>

definition bt_register_for_property_changed :: "client_device \<Rightarrow> client_device" where
  "bt_register_for_property_changed device =
     handle_properties_changed
       [(''hw-address'', Demarshal_Generic, ''hw_address''), (''name'', Demarshal_Generic, ''name''),
        (''bt-capabilities'', Demarshal_Generic, ''bt_capabilities'')] device"

definition bm_device_bt_get_hw_address :: "remote \<Rightarrow> client_device \<Rightarrow> cstr \<times> client_device" where
  "bm_device_bt_get_hw_address remote = cached_string remote (IF_DEVICE @ ''.Bluetooth'') ''HwAddress'' ''hw_address''"

definition bm_device_bt_get_name :: "remote \<Rightarrow> client_device \<Rightarrow> cstr \<times> client_device" where
  "bm_device_bt_get_name remote = cached_string remote (IF_DEVICE @ ''.Bluetooth'') ''Name'' ''name''"

definition capabilities_once :: "remote \<Rightarrow> string \<Rightarrow> string \<Rightarrow> string \<Rightarrow> client_device \<Rightarrow> u32 \<times> client_device" where
  "capabilities_once remote interface prop_name field device =
     (let device = (if \<not> cd_capabilities_valid device
                    then device\<lparr>bo_fields := (bo_fields device)(field := GUInt (get_uint_property remote interface prop_name)),
                                cd_capabilities_valid := True\<rparr>
                    else device)
      in (field_uint (bo_fields device field), device))"

definition bm_device_bt_get_capabilities :: "remote \<Rightarrow> client_device \<Rightarrow> u32 \<times> client_device" where
  "bm_device_bt_get_capabilities remote = capabilities_once remote (IF_DEVICE @ ''.Bluetooth'') ''BtCapabilities'' ''bt_capabilities''"

definition hidraw_register_for_property_changed :: "client_device \<Rightarrow> client_device" where
  "hidraw_register_for_property_changed device =
     handle_properties_changed
       [(''hw-address'', Demarshal_Generic, ''hw_address''), (''name'', Demarshal_Generic, ''name''),
        (''hidraw-capabilities'', Demarshal_Generic, ''hidraw_capabilities'')] device"

definition bm_device_hidraw_get_hw_address :: "remote \<Rightarrow> client_device \<Rightarrow> cstr \<times> client_device" where
  "bm_device_hidraw_get_hw_address remote = cached_string remote (IF_DEVICE @ ''.Hidraw'') ''HwAddress'' ''hw_address''"

definition bm_device_hidraw_get_name :: "remote \<Rightarrow> client_device \<Rightarrow> cstr \<times> client_device" where
  "bm_device_hidraw_get_name remote = cached_string remote (IF_DEVICE @ ''.Hidraw'') ''Name'' ''name''"

definition bm_device_hidraw_get_capabilities :: "remote \<Rightarrow> client_device \<Rightarrow> u32 \<times> client_device" where
  "bm_device_hidraw_get_capabilities remote = capabilities_once remote (IF_DEVICE @ ''.Hidraw'') ''HidrawCapabilities'' ''hidraw_capabilities''"

section \<open>Description of a device\<close>

definition hex2num :: "char \<Rightarrow> int" where
  "hex2num c =
     (let n = char_code c
      in if 48 \<le> n \<and> n \<le> 57 then int n - 48
         else if 97 \<le> n \<and> n \<le> 102 then int n - 97 + 10
         else if 65 \<le> n \<and> n \<le> 70 then int n - 65 + 10
         else -1)"

definition hex2byte :: "string \<Rightarrow> int" where
  "hex2byte hex =
     (let a = hex2num (hd hex)
      in if a < 0 then -1
         else let b = hex2num (hd (tl hex))
              in if b < 0 then -1 else push_bit 4 a OR b)"

text \<open>\<^verbatim>\<open>(char) n\<close>.\<close>

definition char_of_int :: "int \<Rightarrow> char" where
  "char_of_int n = char_of (nat (n mod 256))"

text \<open>The loop of \<^verbatim>\<open>get_decoded_property\<close>; \<open>len\<close> is the counter of the code.  A byte that is no pair of digits
  becomes \<^verbatim>\<open>(char) -1\<close>.\<close>

function decode_loop :: "nat \<Rightarrow> string \<Rightarrow> string" where
  "decode_loop len p =
     (if p = [] then []
      else if len \<ge> 4 \<and> hd p = CHR 0x5C \<and> tl p \<noteq> [] \<and> hd (tl p) = CHR ''x''
      then char_of_int (hex2byte (drop 2 p)) # decode_loop (len - 4) (drop 4 p)
      else hd p # decode_loop (len - 1) (tl p))"
  by pat_completeness auto
termination
  by (relation "measure (\<lambda>(_, p). length p)") auto

declare decode_loop.simps [simp del]

text \<open>The result is a C string, which ends at a NUL.\<close>

definition get_decoded_property :: "(string \<Rightarrow> cstr) \<Rightarrow> string \<Rightarrow> cstr" where
  "get_decoded_property device name =
     (case device name of
        None \<Rightarrow> None
      | Some orig \<Rightarrow> Some (takeWhile (\<lambda>c. c \<noteq> CHR 0x00) (decode_loop (length orig) orig)))"

text \<open>The two walks up the chain, at most three devices each; \<open>vendor\<close> and \<open>product\<close> are what was found so far.\<close>

fun walk :: "((string \<Rightarrow> cstr) \<Rightarrow> string \<Rightarrow> cstr) \<Rightarrow> string \<Rightarrow> string \<Rightarrow> nat \<Rightarrow> (string \<Rightarrow> cstr) list \<Rightarrow> cstr \<Rightarrow> cstr \<Rightarrow> cstr \<times> cstr" where
  "walk get v m i [] vendor product = (vendor, product)"
| "walk get v m i (tmpdev # parents) vendor product =
     (if i < 3 \<and> (vendor = None \<or> product = None)
      then walk get v m (i + 1) parents
             (if vendor = None then get tmpdev v else vendor) (if product = None then get tmpdev m else product)
      else (vendor, product))"

definition bm_device_update_description ::
  "remote \<Rightarrow> bool \<Rightarrow> (string \<Rightarrow> string \<Rightarrow> (string \<Rightarrow> cstr) list option) \<Rightarrow> client_device \<Rightarrow> client_device" where
  "bm_device_update_description remote have_client query device =
     (if \<not> have_client then device
      else case bm_device_get_iface remote device of
        (None, device) \<Rightarrow> device
      | (Some ifname, device) \<Rightarrow>
          (case (case query ''net'' ifname of Some chain \<Rightarrow> Some chain | None \<Rightarrow> query ''tty'' ifname) of
             None \<Rightarrow> device
           | Some chain \<Rightarrow>
               (case walk get_decoded_property ''ID_VENDOR_ENC'' ''ID_MODEL_ENC'' 0 chain None None of
                  (vendor, product) \<Rightarrow>
                    (case walk (\<lambda>d n. d n) ''ID_VENDOR_FROM_DATABASE'' ''ID_MODEL_FROM_DATABASE'' 0 chain vendor product of
                       (vendor, product) \<Rightarrow>
                         queue_notify ''product'' (queue_notify ''vendor'' (device\<lparr>cd_vendor := vendor, cd_product := product\<rparr>))))))"

definition bm_device_get_product ::
  "remote \<Rightarrow> bool \<Rightarrow> (string \<Rightarrow> string \<Rightarrow> (string \<Rightarrow> cstr) list option) \<Rightarrow> client_device \<Rightarrow> cstr \<times> client_device" where
  "bm_device_get_product remote have_client query device =
     (let device = (if cd_product device = None then bm_device_update_description remote have_client query device else device)
      in (cd_product device, device))"

definition bm_device_get_vendor ::
  "remote \<Rightarrow> bool \<Rightarrow> (string \<Rightarrow> string \<Rightarrow> (string \<Rightarrow> cstr) list option) \<Rightarrow> client_device \<Rightarrow> cstr \<times> client_device" where
  "bm_device_get_vendor remote have_client query device =
     (let device = (if cd_vendor device = None then bm_device_update_description remote have_client query device else device)
      in (cd_vendor device, device))"

section \<open>Serial devices\<close>

record serial_counters =
  sc_in_bytes :: u32
  sc_out_bytes :: u32
  sc_stats :: "(u32 \<times> u32) list"

definition ppp_stats :: "u32 \<Rightarrow> u32 \<Rightarrow> serial_counters \<Rightarrow> serial_counters" where
  "ppp_stats in_bytes out_bytes self =
     self\<lparr>sc_in_bytes := in_bytes, sc_out_bytes := out_bytes, sc_stats := sc_stats self @ [(in_bytes, out_bytes)]\<rparr>"

definition serial_device_state_changed :: "u32 \<Rightarrow> serial_counters \<Rightarrow> serial_counters" where
  "serial_device_state_changed state device =
     (if state \<in> {1, 2, 3} then device\<lparr>sc_in_bytes := 0, sc_out_bytes := 0\<rparr> else device)"

section \<open>Active connections\<close>

datatype connection_scope_lib = SCOPE_UNKNOWN | SCOPE_SYSTEM | SCOPE_USER

record active_connection = bm_object +
  ac_self :: nat
  ac_heap :: cheap
  ac_scope :: connection_scope_lib
  ac_freed_access :: bool

definition IF_ACTIVE :: string where
  "IF_ACTIVE = ''org.freedesktop.BarcodeManager.Connection.Active''"

definition get_scope_for_service_name :: "cstr \<Rightarrow> connection_scope_lib" where
  "get_scope_for_service_name service_name =
     (if service_name = Some ''org.freedesktop.BarcodeManagerUserSettings'' then SCOPE_USER
      else if service_name = Some ''org.freedesktop.BarcodeManagerSystemSettings'' then SCOPE_SYSTEM
      else SCOPE_UNKNOWN)"

definition bm_active_connection_get_service_name :: "remote \<Rightarrow> active_connection \<Rightarrow> cstr \<times> active_connection" where
  "bm_active_connection_get_service_name remote connection =
     (if field_string (bo_fields connection ''service_name'') = None
      then case cached_string remote IF_ACTIVE ''ServiceName'' ''service_name'' connection of
             (name, connection) \<Rightarrow> (name, connection\<lparr>ac_scope := get_scope_for_service_name name\<rparr>)
      else (field_string (bo_fields connection ''service_name''), connection))"

definition bm_active_connection_get_scope :: "remote \<Rightarrow> active_connection \<Rightarrow> connection_scope_lib \<times> active_connection" where
  "bm_active_connection_get_scope remote connection =
     (let connection = snd (bm_active_connection_get_service_name remote connection) in (ac_scope connection, connection))"

definition bm_active_connection_get_connection :: "remote \<Rightarrow> active_connection \<Rightarrow> cstr \<times> active_connection" where
  "bm_active_connection_get_connection remote = cached_string remote IF_ACTIVE ''Connection'' ''connection''"

definition bm_active_connection_get_specific_object :: "remote \<Rightarrow> active_connection \<Rightarrow> cstr \<times> active_connection" where
  "bm_active_connection_get_specific_object remote = cached_string remote IF_ACTIVE ''SpecificObject'' ''specific_object''"

definition bm_active_connection_get_state :: "remote \<Rightarrow> active_connection \<Rightarrow> u32 \<times> active_connection" where
  "bm_active_connection_get_state remote = cached_uint remote IF_ACTIVE ''State'' ''state''"

definition bm_active_connection_get_default :: "remote \<Rightarrow> active_connection \<Rightarrow> bool \<times> active_connection" where
  "bm_active_connection_get_default remote = cached_boolean remote IF_ACTIVE ''Default'' ''is_default''"

definition bm_active_connection_get_default6 :: "remote \<Rightarrow> active_connection \<Rightarrow> bool \<times> active_connection" where
  "bm_active_connection_get_default6 remote = cached_boolean remote IF_ACTIVE ''Default6'' ''is_default6''"

definition demarshal_devices ::
  "(string \<Rightarrow> wire option) \<Rightarrow> wire \<Rightarrow> active_connection \<Rightarrow> (bool \<times> active_connection) option" where
  "demarshal_devices device_type v object =
     (case object_array_demarshal (device_creates device_type) (ac_self object) ''devices'' v (ac_heap object) of
        None \<Rightarrow> None
      | Some (ok, heap) \<Rightarrow> Some (ok, if ok then queue_notify ''devices'' (object\<lparr>ac_heap := heap\<rparr>) else object))"

definition demarshal_service :: "pspec \<Rightarrow> wire \<Rightarrow> string \<Rightarrow> active_connection \<Rightarrow> bool \<times> active_connection" where
  "demarshal_service pspec v field object =
     (case demarshal_generic pspec v field object of
        (True, object) \<Rightarrow>
          (True, object\<lparr>ac_scope := get_scope_for_service_name (field_string (bo_fields object ''service_name''))\<rparr>)
      | (False, object) \<Rightarrow> (False, object))"

definition active_register_for_property_changed :: "active_connection \<Rightarrow> active_connection" where
  "active_register_for_property_changed connection =
     handle_properties_changed
       [(''service-name'', Demarshal_Service, ''service_name''), (''connection'', Demarshal_Generic, ''connection''),
        (''specific-object'', Demarshal_Generic, ''specific_object''), (''devices'', Demarshal_Devices, ''devices''),
        (''state'', Demarshal_Generic, ''state''), (''default'', Demarshal_Generic, ''is_default''),
        (''default6'', Demarshal_Generic, ''is_default6'')] connection"

text \<open>The functions of these registrations.\<close>

definition active_call ::
  "(string \<Rightarrow> wire option) \<Rightarrow> marshal_func \<Rightarrow> pspec \<Rightarrow> wire \<Rightarrow> string \<Rightarrow> active_connection \<Rightarrow> bool \<times> active_connection" where
  "active_call device_type func pspec v field self =
     (case func of
        Demarshal_Service \<Rightarrow> demarshal_service pspec v field self
      | Demarshal_Devices \<Rightarrow>
          (case demarshal_devices device_type v self of None \<Rightarrow> (False, self\<lparr>ac_freed_access := True\<rparr>) | Some r \<Rightarrow> r)
      | _ \<Rightarrow> demarshal_generic pspec v field self)"

definition bm_active_connection_get_devices ::
  "(string \<Rightarrow> wire option) \<Rightarrow> remote \<Rightarrow> active_connection \<Rightarrow> (nat list option \<times> active_connection) option" where
  "bm_active_connection_get_devices device_type remote connection =
     (case array_of (ac_self connection) ''devices'' (ac_heap connection) of
        Some devices \<Rightarrow> Some (array_return (Some devices), connection)
      | None \<Rightarrow>
          (case remote IF_ACTIVE ''Devices'' of
             None \<Rightarrow> Some (None, connection)
           | Some v \<Rightarrow>
               (case demarshal_devices device_type v connection of
                  None \<Rightarrow> None
                | Some (_, connection) \<Rightarrow>
                    Some (array_return (array_of (ac_self connection) ''devices'' (ac_heap connection)), connection))))"

section \<open>Lemmas on the description\<close>

text \<open>How udev writes a string: a byte that it does not keep, and the backslash, as \<^verbatim>\<open>\x\<close> and two digits.\<close>

definition hex_digit :: "nat \<Rightarrow> char" where
  "hex_digit n = ''0123456789abcdef'' ! n"

definition udev_byte :: "(char \<Rightarrow> bool) \<Rightarrow> char \<Rightarrow> string" where
  "udev_byte keep c =
     (if keep c \<and> c \<noteq> CHR 0x5C then [c]
      else [CHR 0x5C, CHR ''x'', hex_digit (char_code c div 16), hex_digit (char_code c mod 16)])"

definition udev_encode :: "(char \<Rightarrow> bool) \<Rightarrow> string \<Rightarrow> string" where
  "udev_encode keep s = concat (map (udev_byte keep) s)"

lemma hex2num_digit: "n < 16 \<Longrightarrow> hex2num (hex_digit n) = int n"
proof -
  assume "n < 16"
  then have "n \<in> set [0..<16]"
    by simp
  moreover have "\<forall>n \<in> set [0..<16]. hex2num (hex_digit n) = int n"
    by (simp add: hex2num_def hex_digit_def char_code_def upt_rec)
  ultimately show ?thesis
    by blast
qed

lemma hex2byte_digits:
  assumes "n < 256"
  shows "hex2byte (hex_digit (n div 16) # hex_digit (n mod 16) # s) = int n"
proof -
  have "push_bit 4 (int (n div 16)) OR int (n mod 16) = push_bit 4 (int (n div 16)) + int (n mod 16)"
    by (rule disjunctive_add [symmetric]) (auto simp: bit_push_bit_iff bit_of_nat_iff bit_take_bit_iff take_bit_eq_mod [of 4, symmetric, simplified])
  also have "\<dots> = int (n div 16 * 16 + n mod 16)"
  proof -
    have "(2 :: int) ^ 4 = 16"
      by simp
    then show ?thesis
      by (simp only: push_bit_eq_mult of_nat_add of_nat_mult of_nat_numeral)
  qed
  also have "\<dots> = int n"
    by (simp only: div_mult_mod_eq)
  finally show ?thesis
    using assms hex2num_digit [of "n div 16"] hex2num_digit [of "n mod 16"] by (simp add: hex2byte_def)
qed

lemma char_of_int_code: "char_of_int (int (char_code c)) = c"
  by (simp add: char_of_int_def char_code_def nat_mod_distrib of_char_mod_256)

lemma decode_encode: "decode_loop (length (udev_encode keep s)) (udev_encode keep s) = s"
proof (induction s)
  case (Cons c s)
  let ?e = "udev_encode keep s"
  have code: "char_code c < 256"
    using of_char_mod_256 by (simp add: char_code_def)
  show ?case
  proof (cases "keep c \<and> c \<noteq> CHR 0x5C")
    case True
    then show ?thesis
      using Cons by (simp add: udev_encode_def udev_byte_def decode_loop.simps [of "Suc (length ?e)" "c # ?e", unfolded udev_encode_def])
  next
    case False
    let ?p = "[CHR 0x5C, CHR ''x'', hex_digit (char_code c div 16), hex_digit (char_code c mod 16)] @ ?e"
    have "decode_loop (length ?p) ?p = c # decode_loop (length ?e) ?e"
      using hex2byte_digits [OF code, of ?e] by (subst decode_loop.simps) (simp add: char_of_int_code)
    moreover have "udev_encode keep (c # s) = ?p"
      using False by (auto simp: udev_encode_def udev_byte_def)
    ultimately show ?thesis
      using Cons by simp
  qed
qed (simp add: udev_encode_def decode_loop.simps)

text \<open>A walk finds the nearest of three devices that has an answer.\<close>

fun nearest :: "('a \<Rightarrow> 'b option) \<Rightarrow> 'a list \<Rightarrow> 'b option" where
  "nearest f [] = None"
| "nearest f (x # xs) = (case f x of None \<Rightarrow> nearest f xs | Some y \<Rightarrow> Some y)"

lemma walk_nearest:
  "walk get v m i chain vendor product =
     (case vendor of None \<Rightarrow> nearest (\<lambda>d. get d v) (take (3 - i) chain) | Some x \<Rightarrow> Some x,
      case product of None \<Rightarrow> nearest (\<lambda>d. get d m) (take (3 - i) chain) | Some x \<Rightarrow> Some x)"
proof (induction chain arbitrary: i vendor product)
  case (Cons d chain)
  show ?case
  proof (cases "i < 3")
    case True
    then have "take (3 - i) (d # chain) = d # take (3 - (i + 1)) chain"
      by (simp add: take_Cons')
    then show ?thesis
      using Cons.IH True by (cases vendor; cases product) (auto split: option.splits)
  qed (auto split: option.splits)
qed (auto split: option.split)

lemma decoded_property:
  assumes "CHR 0x00 \<notin> set s" "d name = Some (udev_encode keep s)"
  shows "get_decoded_property d name = Some s"
proof -
  have "takeWhile (\<lambda>c. c \<noteq> CHR 0x00) s = s"
    using assms(1) by (simp add: takeWhile_eq_all_conv) metis
  then show ?thesis
    using assms(2) decode_encode [of keep s] by (simp add: get_decoded_property_def)
qed

section \<open>Properties\<close>

text \<open>The vendor of a device is the one that udev recorded for the nearest of the device and its next two
  ancestors that has one read from the hardware, else for the nearest that the database
  knows; and the former is as it was before udev escaped it, whatever characters udev keeps.\<close>

theorem vendor_is_nearest:
  assumes "cd_vendor device = None" "bm_device_get_iface remote device = (Some ifname, device')"
    "(case query ''net'' ifname of Some c \<Rightarrow> Some c | None \<Rightarrow> query ''tty'' ifname) = Some chain"
  shows "fst (bm_device_get_vendor remote True query device) =
      (case nearest (\<lambda>d. get_decoded_property d ''ID_VENDOR_ENC'') (take 3 chain) of
         Some vendor \<Rightarrow> Some vendor
       | None \<Rightarrow> nearest (\<lambda>d. d ''ID_VENDOR_FROM_DATABASE'') (take 3 chain)) \<and>
    (\<forall>d name keep s. CHR 0x00 \<notin> set s \<longrightarrow> d name = Some (udev_encode keep s) \<longrightarrow> get_decoded_property d name = Some s)"
proof -
  have "fst (bm_device_get_vendor remote True query device) =
      (case nearest (\<lambda>d. get_decoded_property d ''ID_VENDOR_ENC'') (take 3 chain) of
         Some vendor \<Rightarrow> Some vendor
       | None \<Rightarrow> nearest (\<lambda>d. d ''ID_VENDOR_FROM_DATABASE'') (take 3 chain))"
    using assms by (simp add: bm_device_get_vendor_def bm_device_update_description_def walk_nearest queue_notify_def Let_def split: option.split)
  then show ?thesis
    using decoded_property by blast
qed

definition sample_device :: client_device where
  "sample_device = \<lparr>bo_path = ''/d'', bo_class = [], bo_fields = (\<lambda>_. GString (Some ''hidraw0'')), bo_pcs = [], bo_notify_props = [],
     bo_notify_id = False, bo_notified = [], cd_vendor = None, cd_product = None, cd_state_signals = [], cd_capabilities_valid = False\<rparr>"

theorem vendor_is_nearest_witness:
  "fst (bm_device_get_vendor (\<lambda>_ _. None) True
     (\<lambda>subsys name. if subsys = ''tty'' then Some [\<lambda>_. None, (\<lambda>_. None)(''ID_VENDOR_ENC'' := Some (''A'' @ [CHR 0x5C] @ ''x20B''))] else None)
     sample_device) = Some ''A B''"
proof -
  let ?query = "\<lambda>subsys name :: string. if subsys = ''tty'' then Some [\<lambda>_. None, (\<lambda>_. None)(''ID_VENDOR_ENC'' := Some (''A'' @ [CHR 0x5C] @ ''x20B''))] else None"
  have encoded: "udev_encode (\<lambda>c. c \<noteq> CHR 0x20) ''A B'' = ''A'' @ [CHR 0x5C] @ ''x20B''"
    by (simp add: udev_encode_def udev_byte_def hex_digit_def char_code_def)
  have iface: "bm_device_get_iface (\<lambda>_ _. None) sample_device = (Some ''hidraw0'', sample_device)"
    by (simp add: bm_device_get_iface_def cached_string_def sample_device_def field_string_def)
  have none: "cd_vendor sample_device = None"
    by (simp add: sample_device_def)
  have chain: "(case ?query ''net'' ''hidraw0'' of Some c \<Rightarrow> Some c | None \<Rightarrow> ?query ''tty'' ''hidraw0'') =
      Some [\<lambda>_. None, (\<lambda>_. None)(''ID_VENDOR_ENC'' := Some (''A'' @ [CHR 0x5C] @ ''x20B''))]"
    by simp
  have "fst (bm_device_get_vendor (\<lambda>_ _. None) True ?query sample_device) =
      (case nearest (\<lambda>d. get_decoded_property d ''ID_VENDOR_ENC'')
          (take 3 [\<lambda>_. None, (\<lambda>_. None)(''ID_VENDOR_ENC'' := Some (''A'' @ [CHR 0x5C] @ ''x20B''))]) of
         Some vendor \<Rightarrow> Some vendor
       | None \<Rightarrow> nearest (\<lambda>d. d ''ID_VENDOR_FROM_DATABASE'')
          (take 3 [\<lambda>_. None, (\<lambda>_. None)(''ID_VENDOR_ENC'' := Some (''A'' @ [CHR 0x5C] @ ''x20B''))]))"
    by (rule vendor_is_nearest [OF none iface, of ?query, OF chain, THEN conjunct1])
  moreover have "get_decoded_property ((\<lambda>_. None)(''ID_VENDOR_ENC'' := Some (''A'' @ [CHR 0x5C] @ ''x20B''))) ''ID_VENDOR_ENC'' = Some ''A B''"
    by (rule decoded_property [where keep = "\<lambda>c. c \<noteq> CHR 0x20"]) (simp_all add: encoded)
  moreover have "get_decoded_property (\<lambda>_. None) ''ID_VENDOR_ENC'' = None"
    by (simp add: get_decoded_property_def)
  ultimately show ?thesis
    by simp
qed

text \<open>A byte that is no pair of digits is not kept.\<close>

lemma bad_escape: "get_decoded_property (\<lambda>_. Some ([CHR 0x5C] @ ''xZZ'')) n = Some [CHR 0xFF]"
  by (simp add: get_decoded_property_def decode_loop.simps hex2byte_def hex2num_def char_code_def char_of_int_def
      char_of_eq_iff)

text \<open>The scope of an active connection is that of its service, as it is fetched and as it is announced.\<close>

lemma scope_of_service:
  "field_string (bo_fields connection ''service_name'') = None \<Longrightarrow>
     fst (bm_active_connection_get_scope remote connection) =
       get_scope_for_service_name (get_string_property remote IF_ACTIVE ''ServiceName'')"
  "demarshal_service (n, T_STRING) (Plain (GString s)) ''service_name'' connection = (True, connection') \<Longrightarrow>
     s \<noteq> None \<Longrightarrow> fst (bm_active_connection_get_scope remote connection') = get_scope_for_service_name s"
  by (auto simp: bm_active_connection_get_scope_def bm_active_connection_get_service_name_def cached_string_def
      demarshal_service_def demarshal_generic_def demarshal_value_def field_string_def Let_def)

end
