(* ===== verification/Remote_Settings.thy ===== *)
theory Remote_Settings
  imports System_Connection Client_Object
begin

text \<open>
  The clients' view of a settings service, \<^verbatim>\<open>libbm-glib/bm-remote-settings.c\<close>,
  \<^verbatim>\<open>bm-remote-connection.c\<close> and \<^verbatim>\<open>bm-remote-settings-system.c\<close>.  Connections are numbered as their
  objects are made; an object lives while one of the two tables has it.  What arrives from
  the bus is an event.
\<close>

section \<open>Connections of the service\<close>

datatype init_result = INIT_UNKNOWN | INIT_SUCCESS | INIT_ERROR

record remote_connection =
  rc_conn :: connection
  rc_init_result :: init_result

datatype settings_signal =
  New_Connection nat string
| Connection_Removed nat
| Connection_Updated nat
| Connections_Read
| Notify_Service_Running

datatype idle_source = Idle_Fetch | Idle_Remove

text \<open>\<open>rs_fetch_id\<close> is the variable of the code, \<open>rs_idle\<close> the idle source that is installed; \<open>rs_lists\<close>
  counts the calls of \<^verbatim>\<open>ListConnections\<close>.\<close>

record remote_settings =
  rs_scope :: u32
  rs_connections :: "(string, nat) ghash"
  rs_pending :: "(string, nat) ghash"
  rs_objs :: "(nat, remote_connection) ghash"
  rs_next :: nat
  rs_running :: bool
  rs_fetch_id :: bool
  rs_idle :: "idle_source option"
  rs_lists :: nat
  rs_out :: "settings_signal list"

definition rs_emit :: "settings_signal \<Rightarrow> remote_settings \<Rightarrow> remote_settings" where
  "rs_emit s st = st\<lparr>rs_out := rs_out st @ [s]\<rparr>"

definition rs_collect :: "remote_settings \<Rightarrow> remote_settings" where
  "rs_collect st = st\<lparr>rs_objs := filter (\<lambda>(x, _). x \<in> set (gh_values (rs_connections st)) \<union> set (gh_values (rs_pending st))) (rs_objs st)\<rparr>"

definition remote_settings_new :: "u32 \<Rightarrow> bool option \<Rightarrow> remote_settings" where
  "remote_settings_new scope name_has_owner =
     \<lparr>rs_scope = scope, rs_connections = gh_new, rs_pending = gh_new, rs_objs = gh_new, rs_next = 0,
      rs_running = (case name_has_owner of Some b \<Rightarrow> b | None \<Rightarrow> False), rs_fetch_id = True, rs_idle = Some Idle_Fetch,
      rs_lists = 0, rs_out = []\<rparr>"

definition service_name_of :: "u32 \<Rightarrow> string" where
  "service_name_of scope =
     (if scope = BM_CONNECTION_SCOPE_SYSTEM then ''org.freedesktop.BarcodeManagerSystemSettings''
      else ''org.freedesktop.BarcodeManagerUserSettings'')"

definition get_connection_by_path :: "string \<Rightarrow> remote_settings \<Rightarrow> nat option" where
  "get_connection_by_path path st = gh_lookup (rs_connections st) path"

definition list_connections :: "remote_settings \<Rightarrow> nat list" where
  "list_connections st = rev (gh_values (rs_connections st))"

text \<open>The object is made with its scope and path; the call for its settings is under way from then on.\<close>

definition remote_connection_new :: "u32 \<Rightarrow> string \<Rightarrow> remote_connection" where
  "remote_connection_new scope path =
     \<lparr>rc_conn = bm_connection_set_path (Some path) (bm_connection_set_scope scope bm_connection_new), rc_init_result = INIT_UNKNOWN\<rparr>"

definition new_connection_cb :: "string \<Rightarrow> remote_settings \<Rightarrow> remote_settings" where
  "new_connection_cb path st =
     rs_collect (st\<lparr>rs_objs := gh_insert (rs_next st) (remote_connection_new (rs_scope st) path) (rs_objs st),
                    rs_pending := gh_insert path (rs_next st) (rs_pending st), rs_next := rs_next st + 1\<rparr>)"

definition connection_removed_cb :: "string \<Rightarrow> remote_settings \<Rightarrow> remote_settings" where
  "connection_removed_cb path st =
     st\<lparr>rs_connections := gh_remove path (rs_connections st), rs_pending := gh_remove path (rs_pending st)\<rparr>"

definition rs_path :: "remote_connection \<Rightarrow> string" where
  "rs_path rc = (case bm_connection_get_path (rc_conn rc) of Some p \<Rightarrow> p | None \<Rightarrow> [])"

definition connection_init_result_cb :: "nat \<Rightarrow> remote_connection \<Rightarrow> remote_settings \<Rightarrow> remote_settings" where
  "connection_init_result_cb remote rc st =
     (let path = rs_path rc;
          st = (if rc_init_result rc = INIT_SUCCESS
                then rs_emit (New_Connection remote path) (st\<lparr>rs_connections := gh_insert path remote (rs_connections st)\<rparr>)
                else st);
          st = st\<lparr>rs_pending := gh_remove path (rs_pending st)\<rparr>;
          st = (if gh_size (rs_pending st) = 0 then rs_emit Connections_Read st else st)
      in rs_collect st)"

text \<open>The settings of a remote connection: whether they could be replaced; they are announced if so.\<close>

type_synonym settings_hash = "(string, (string, gvalue) ghash) ghash"

definition remote_replace_settings ::
  "transform \<Rightarrow> settings_hash \<Rightarrow> nat \<Rightarrow> remote_connection \<Rightarrow> remote_settings \<Rightarrow> remote_connection \<times> remote_settings" where
  "remote_replace_settings tr new_settings remote rc st =
     (case bm_connection_replace_settings tr new_settings (rc_conn rc) of
        (conn, Inl _) \<Rightarrow> (rc\<lparr>rc_conn := conn\<rparr>, st)
      | (conn, Inr _) \<Rightarrow> (rc\<lparr>rc_conn := conn\<rparr>, rs_emit (Connection_Updated remote) st))"

definition get_settings_cb :: "transform \<Rightarrow> nat \<Rightarrow> settings_hash option \<Rightarrow> remote_settings \<Rightarrow> remote_settings" where
  "get_settings_cb tr remote answer st =
     (case gh_lookup (rs_objs st) remote of
        None \<Rightarrow> st
      | Some rc \<Rightarrow>
          (case (case answer of
                   None \<Rightarrow> (rc\<lparr>rc_init_result := INIT_ERROR\<rparr>, st)
                 | Some new_settings \<Rightarrow>
                     (case remote_replace_settings tr new_settings remote rc st of
                        (rc, st) \<Rightarrow> (rc\<lparr>rc_init_result := INIT_SUCCESS\<rparr>, st))) of
             (rc, st) \<Rightarrow> connection_init_result_cb remote rc (st\<lparr>rs_objs := gh_insert remote rc (rs_objs st)\<rparr>)))"

definition updated_cb :: "transform \<Rightarrow> nat \<Rightarrow> settings_hash \<Rightarrow> remote_settings \<Rightarrow> remote_settings" where
  "updated_cb tr remote settings st =
     (case gh_lookup (rs_objs st) remote of
        None \<Rightarrow> st
      | Some rc \<Rightarrow>
          (case remote_replace_settings tr settings remote rc st of
             (rc, st) \<Rightarrow> st\<lparr>rs_objs := gh_insert remote rc (rs_objs st)\<rparr>))"

definition removed_cb :: "nat \<Rightarrow> remote_settings \<Rightarrow> remote_settings" where
  "removed_cb remote st =
     (case gh_lookup (rs_objs st) remote of
        None \<Rightarrow> st
      | Some rc \<Rightarrow> rs_collect (rs_emit (Connection_Removed remote) (connection_removed_cb (rs_path rc) st)))"

text \<open>The answer of \<^verbatim>\<open>ListConnections\<close>; \<open>None\<close> is an error.\<close>

definition fetch_connections_done :: "string list option \<Rightarrow> remote_settings \<Rightarrow> remote_settings" where
  "fetch_connections_done answer st =
     (case answer of
        None \<Rightarrow> rs_emit Connections_Read st
      | Some connections \<Rightarrow>
          if connections = [] then rs_emit Connections_Read st
          else foldl (\<lambda>st path. new_connection_cb path st) st connections)"

definition fetch_connections :: "remote_settings \<Rightarrow> remote_settings" where
  "fetch_connections st = st\<lparr>rs_fetch_id := False, rs_lists := rs_lists st + 1\<rparr>"

definition remove_connections :: "remote_settings \<Rightarrow> remote_settings" where
  "remove_connections st =
     (let st = foldl (\<lambda>st remote. removed_cb remote st) st (rev (gh_values (rs_connections st)))
      in rs_collect (st\<lparr>rs_connections := gh_new\<rparr>))"

definition rs_run_idle :: "remote_settings \<Rightarrow> remote_settings" where
  "rs_run_idle st =
     (case rs_idle st of
        None \<Rightarrow> st
      | Some Idle_Fetch \<Rightarrow> (fetch_connections st)\<lparr>rs_idle := None\<rparr>
      | Some Idle_Remove \<Rightarrow> (remove_connections st)\<lparr>rs_idle := None\<rparr>)"

definition name_owner_changed :: "string \<Rightarrow> cstr \<Rightarrow> remote_settings \<Rightarrow> remote_settings" where
  "name_owner_changed name new_owner st =
     (if name = service_name_of (rs_scope st)
      then let st = (if rs_fetch_id st then st\<lparr>rs_idle := None\<rparr> else st);
               owned = (case new_owner of None \<Rightarrow> False | Some s \<Rightarrow> length s > 0)
           in rs_emit Notify_Service_Running
                (if owned then st\<lparr>rs_fetch_id := True, rs_idle := Some Idle_Fetch, rs_running := True\<rparr>
                 else st\<lparr>rs_fetch_id := True, rs_idle := Some Idle_Remove, rs_running := False\<rparr>)
      else st)"

section \<open>Calls on a connection\<close>

text \<open>\<^verbatim>\<open>update\<close>, \<^verbatim>\<open>delete\<close> and \<^verbatim>\<open>get_secrets\<close> make a call that is in the list until it is completed; \<open>called_back\<close> are the
  callers' callbacks with the outcome.  The end of the object completes what is left.\<close>

datatype remote_call_kind =
  Call_Update "settings_hash option"
| Call_Delete
| Call_Get_Secrets string "string list" bool

record remote_calls =
  cl_calls :: "(nat \<times> remote_call_kind) list"
  cl_called_back :: "(nat \<times> bool) list"
  cl_disposed :: bool

definition remote_call :: "nat \<Rightarrow> remote_call_kind \<Rightarrow> remote_calls \<Rightarrow> remote_calls" where
  "remote_call callback kind rc = rc\<lparr>cl_calls := cl_calls rc @ [(callback, kind)]\<rparr>"

definition remote_update :: "(gtype \<Rightarrow> nat) \<Rightarrow> connection \<Rightarrow> nat \<Rightarrow> remote_calls \<Rightarrow> remote_calls" where
  "remote_update gt conn callback rc = remote_call callback (Call_Update (bm_connection_to_hash gt conn)) rc"

definition remote_do_delete :: "nat \<Rightarrow> remote_calls \<Rightarrow> remote_calls" where
  "remote_do_delete callback rc = remote_call callback Call_Delete rc"

definition remote_get_secrets :: "string \<Rightarrow> string list \<Rightarrow> bool \<Rightarrow> nat \<Rightarrow> remote_calls \<Rightarrow> remote_calls" where
  "remote_get_secrets setting_name hints request_new callback rc =
     remote_call callback (Call_Get_Secrets setting_name hints request_new) rc"

definition remote_call_complete :: "nat \<times> remote_call_kind \<Rightarrow> remote_calls \<Rightarrow> remote_calls" where
  "remote_call_complete call rc = rc\<lparr>cl_calls := remove1 call (cl_calls rc)\<rparr>"

definition remote_call_cb :: "nat \<times> remote_call_kind \<Rightarrow> bool \<Rightarrow> remote_calls \<Rightarrow> remote_calls" where
  "remote_call_cb call error rc =
     (if call \<in> set (cl_calls rc)
      then remote_call_complete call (rc\<lparr>cl_called_back := cl_called_back rc @ [(fst call, error)]\<rparr>)
      else rc)"

fun complete_all :: "(nat \<times> remote_call_kind) list \<Rightarrow> remote_calls \<Rightarrow> remote_calls" where
  "complete_all [] rc = rc"
| "complete_all (call # calls) rc = complete_all calls (remote_call_complete call rc)"

definition remote_connection_dispose :: "remote_calls \<Rightarrow> remote_calls" where
  "remote_connection_dispose rc =
     (if cl_disposed rc then rc else complete_all (cl_calls rc) (rc\<lparr>cl_disposed := True\<rparr>))"

text \<open>\<^verbatim>\<open>AddConnection\<close> of the service is called with the settings of the connection; the answer goes to the caller.\<close>

record add_connection_call =
  ad_settings :: "settings_hash option"
  ad_callback :: nat

definition rs_add_connection :: "(gtype \<Rightarrow> nat) \<Rightarrow> connection \<Rightarrow> nat \<Rightarrow> add_connection_call list \<Rightarrow> add_connection_call list" where
  "rs_add_connection gt connection callback calls =
     calls @ [\<lparr>ad_settings = bm_connection_to_hash gt connection, ad_callback = callback\<rparr>]"

definition add_connection_done :: "add_connection_call \<Rightarrow> bool \<Rightarrow> (nat \<times> bool) list \<Rightarrow> (nat \<times> bool) list" where
  "add_connection_done info error called_back = called_back @ [(ad_callback info, error)]"

section \<open>The system settings\<close>

record remote_system =
  ry_hostname :: cstr
  ry_can_modify :: bool
  ry_permissions :: u32
  ry_have_permissions :: bool
  ry_calls :: "nat list"
  ry_answers :: "(nat \<times> u32 \<times> bool) list"
  ry_notified :: "string list"

definition system_property_changed :: "string \<Rightarrow> gvalue \<Rightarrow> remote_system \<Rightarrow> remote_system" where
  "system_property_changed key v self =
     (let self = (if key = ''Hostname''
                  then self\<lparr>ry_hostname := (case v of GString s \<Rightarrow> s | _ \<Rightarrow> None), ry_notified := ry_notified self @ [''hostname'']\<rparr>
                  else self)
      in if key = ''CanModify''
         then self\<lparr>ry_can_modify := (case v of GBoolean b \<Rightarrow> b | _ \<Rightarrow> False), ry_notified := ry_notified self @ [''can-modify'']\<rparr>
         else self)"

definition system_properties_changed_cb :: "(string, gvalue) ghash \<Rightarrow> remote_system \<Rightarrow> remote_system" where
  "system_properties_changed_cb properties self = gh_foreach system_property_changed properties self"

definition system_get_all_cb :: "(string, gvalue) ghash option \<Rightarrow> remote_system \<Rightarrow> remote_system" where
  "system_get_all_cb props self = (case props of None \<Rightarrow> self | Some p \<Rightarrow> system_properties_changed_cb p self)"

text \<open>A request for the permissions, with its callback; the answer of the bus to one; and the daemon's advice to
  ask again.\<close>

definition system_get_permissions :: "nat \<Rightarrow> remote_system \<Rightarrow> remote_system" where
  "system_get_permissions callback self =
     (if ry_have_permissions self
      then self\<lparr>ry_answers := ry_answers self @ [(callback, ry_permissions self, False)]\<rparr>
      else self\<lparr>ry_calls := ry_calls self @ [callback]\<rparr>)"

definition system_get_permissions_cb :: "nat \<Rightarrow> u32 option \<Rightarrow> remote_system \<Rightarrow> remote_system" where
  "system_get_permissions_cb callback answer self =
     (let permissions = (case answer of None \<Rightarrow> 0 | Some p \<Rightarrow> p)
      in self\<lparr>ry_permissions := permissions, ry_have_permissions := (answer \<noteq> None),
              ry_calls := remove1 callback (ry_calls self),
              ry_answers := ry_answers self @ [(callback, permissions, answer = None)]\<rparr>)"

definition system_check_permissions_cb :: "remote_system \<Rightarrow> remote_system" where
  "system_check_permissions_cb self = self\<lparr>ry_have_permissions := False, ry_notified := ry_notified self @ [''check-permissions'']\<rparr>"

text \<open>The host name that is sent: none is the empty one.\<close>

definition save_hostname :: "cstr \<Rightarrow> string" where
  "save_hostname hostname = (case hostname of None \<Rightarrow> [] | Some h \<Rightarrow> h)"

section \<open>Lemmas\<close>

lemma values_lookup: "gh_wf t \<Longrightarrow> x \<in> set (gh_values t) \<longleftrightarrow> (\<exists>p. gh_lookup t p = Some x)"
  using ght.entries_look [of t] by (force simp: gh_values_def)

lemma map_of_filter_fst: "map_of (filter (\<lambda>(x, _). P x) t) x = (if P x then map_of t x else None)"
  by (induction t) auto

lemma collect_lookup:
  "gh_wf (rs_connections st) \<Longrightarrow> gh_wf (rs_pending st) \<Longrightarrow>
   gh_lookup (rs_objs (rs_collect st)) x =
     (if (\<exists>p. gh_lookup (rs_connections st) p = Some x) \<or> (\<exists>p. gh_lookup (rs_pending st) p = Some x)
      then gh_lookup (rs_objs st) x else None)"
  by (simp add: rs_collect_def gh_lookup_def [of "filter _ _"] map_of_filter_fst values_lookup [symmetric]) (simp add: gh_lookup_def)

lemma collect_fields [simp]:
  "rs_connections (rs_collect st) = rs_connections st" "rs_pending (rs_collect st) = rs_pending st" "rs_out (rs_collect st) = rs_out st"
  "rs_scope (rs_collect st) = rs_scope st" "rs_next (rs_collect st) = rs_next st"
  by (simp_all add: rs_collect_def)

text \<open>Reading the connections \<open>ps\<close>: object \<open>x\<close> is the one for the path \<open>ps ! x\<close>; \<open>ans\<close> is what the service answers for it,
  and \<open>dn\<close> are the objects that have their answer.\<close>

definition loaded :: "transform \<Rightarrow> u32 \<Rightarrow> string list \<Rightarrow> (nat \<Rightarrow> settings_hash option) \<Rightarrow> nat \<Rightarrow> connection" where
  "loaded tr scope ps ans x =
     (let conn = rc_conn (remote_connection_new scope (ps ! x))
      in case ans x of None \<Rightarrow> conn | Some H \<Rightarrow> fst (bm_connection_replace_settings tr H conn))"

definition awaited :: "string list \<Rightarrow> nat list \<Rightarrow> string \<Rightarrow> nat \<Rightarrow> bool" where
  "awaited ps dn p x \<longleftrightarrow> x < length ps \<and> x \<notin> set dn \<and> ps ! x = p"

definition arrived :: "string list \<Rightarrow> (nat \<Rightarrow> settings_hash option) \<Rightarrow> nat list \<Rightarrow> string \<Rightarrow> nat \<Rightarrow> bool" where
  "arrived ps ans dn p x \<longleftrightarrow> x < length ps \<and> x \<in> set dn \<and> ps ! x = p \<and> ans x \<noteq> None"

definition reading ::
  "transform \<Rightarrow> u32 \<Rightarrow> string list \<Rightarrow> (nat \<Rightarrow> settings_hash option) \<Rightarrow> nat list \<Rightarrow> remote_settings \<Rightarrow> bool" where
  "reading tr scope ps ans dn st \<longleftrightarrow>
     gh_wf (rs_pending st) \<and> gh_wf (rs_connections st) \<and>
     (\<forall>p x. gh_lookup (rs_pending st) p = Some x \<longleftrightarrow> awaited ps dn p x) \<and>
     (\<forall>p x. gh_lookup (rs_connections st) p = Some x \<longleftrightarrow> arrived ps ans dn p x) \<and>
     (\<forall>x < length ps. x \<notin> set dn \<longrightarrow> gh_lookup (rs_objs st) x = Some (remote_connection_new scope (ps ! x))) \<and>
     (\<forall>x < length ps. x \<in> set dn \<longrightarrow> ans x \<noteq> None \<longrightarrow>
        gh_lookup (rs_objs st) x = Some \<lparr>rc_conn = loaded tr scope ps ans x, rc_init_result = INIT_SUCCESS\<rparr>)"

lemma new_path [simp]: "rs_path (remote_connection_new scope p) = p"
  by (simp add: rs_path_def remote_connection_new_def bm_connection_get_path_def bm_connection_set_path_def)

lemma replace_path: "conn_path (fst (bm_connection_replace_settings tr H c)) = conn_path c"
proof -
  have "conn_path (gh_foreach (parse_one_setting tr) t c) = conn_path c" for t c
    unfolding gh_foreach_def
    by (rule foldl_invariant [where P = "\<lambda>d. conn_path d = conn_path c"])
      (auto simp: parse_one_setting_def bm_connection_add_setting_def split: option.split)
  then show ?thesis
    by (simp add: bm_connection_replace_settings_def Let_def)
qed

lemma loaded_path: "conn_path (loaded tr scope ps ans x) = Some (ps ! x)"
  by (simp add: loaded_def replace_path remote_connection_new_def bm_connection_set_path_def Let_def split: option.split)

text \<open>Before the first answer.\<close>

lemma start_reading:
  fixes scope owner
  assumes "distinct ps"
  defines "st \<equiv> foldl (\<lambda>st path. new_connection_cb path st) (rs_run_idle (remote_settings_new scope owner)) ps"
  shows "reading tr scope ps ans [] st \<and> rs_out st = []"
proof -
  have "let st = foldl (\<lambda>st path. new_connection_cb path st) (rs_run_idle (remote_settings_new scope owner)) ps in
    gh_wf (rs_pending st) \<and> rs_connections st = [] \<and> rs_next st = length ps \<and> rs_out st = [] \<and> rs_scope st = scope \<and>
    (\<forall>p x. gh_lookup (rs_pending st) p = Some x \<longleftrightarrow> x < length ps \<and> ps ! x = p) \<and>
    (\<forall>x < length ps. gh_lookup (rs_objs st) x = Some (remote_connection_new scope (ps ! x)))"
    using assms(1)
  proof (induction ps rule: rev_induct)
    case Nil
    then show ?case
      by (simp add: rs_run_idle_def remote_settings_new_def fetch_connections_def ght.look_new ght.invar_new) (simp add: gh_new_def)
  next
    case (snoc p ps)
    define st where "st = foldl (\<lambda>st path. new_connection_cb path st) (rs_run_idle (remote_settings_new scope owner)) ps"
    have st: "gh_wf (rs_pending st)" "rs_connections st = []" "rs_next st = length ps" "rs_out st = []" "rs_scope st = scope"
        "\<And>p x. gh_lookup (rs_pending st) p = Some x \<longleftrightarrow> x < length ps \<and> ps ! x = p"
        "\<And>x. x < length ps \<Longrightarrow> gh_lookup (rs_objs st) x = Some (remote_connection_new scope (ps ! x))"
      using snoc unfolding st_def Let_def by auto
    let ?st1 = "st\<lparr>rs_objs := gh_insert (length ps) (remote_connection_new scope p) (rs_objs st),
      rs_pending := gh_insert p (length ps) (rs_pending st), rs_next := length ps + 1\<rparr>"
    have "foldl (\<lambda>st path. new_connection_cb path st) (rs_run_idle (remote_settings_new scope owner)) (ps @ [p]) = new_connection_cb p st"
      by (simp add: st_def)
    also have "\<dots> = rs_collect ?st1"
      by (simp add: new_connection_cb_def st(3,5))
    finally have new: "foldl (\<lambda>st path. new_connection_cb path st) (rs_run_idle (remote_settings_new scope owner)) (ps @ [p]) = rs_collect ?st1" .
    have "gh_lookup (rs_pending st) p \<noteq> Some y" for y
      using snoc.prems st(6) [of p y] nth_mem [of y ps] by auto
    then have pending: "gh_lookup (rs_pending ?st1) q = Some x \<longleftrightarrow> x < length (ps @ [p]) \<and> (ps @ [p]) ! x = q" for q x
      using st(6) [of q x] snoc.prems nth_mem [of x ps] by (auto simp: gh_simps nth_append less_Suc_eq)
    have "gh_wf ([] :: (string, nat) ghash)"
      by (simp add: gh_wf_def gh_keys_def)
    then have wf: "gh_wf (rs_pending ?st1)" "gh_wf (rs_connections ?st1)"
      using st(1,2) by (simp_all add: ght.invar_ins)
    have "gh_lookup (rs_objs (rs_collect ?st1)) x = Some (remote_connection_new scope ((ps @ [p]) ! x))" if x: "x < length (ps @ [p])" for x
    proof -
      have "\<exists>q. gh_lookup (rs_pending ?st1) q = Some x"
        unfolding pending using x by blast
      then show ?thesis
        using x st(7) [of x] unfolding collect_lookup [OF wf(2,1)] by (auto simp: gh_simps nth_append less_Suc_eq)
    qed
    then show ?case
      unfolding new Let_def using wf pending st(2,4,5) by simp
  qed
  then show ?thesis
    unfolding st_def Let_def reading_def awaited_def arrived_def by (simp add: gh_lookup_def gh_wf_def gh_keys_def)
qed

text \<open>One answer.\<close>

lemma read_one:
  assumes r: "reading tr scope ps ans dn st" and ps: "distinct ps" and x: "x < length ps" "x \<notin> set dn"
  shows "reading tr scope ps ans (dn @ [x]) (get_settings_cb tr x (ans x) st) \<and>
    (\<exists>updates. set updates \<subseteq> {Connection_Updated x} \<and> rs_out (get_settings_cb tr x (ans x) st) = rs_out st @ updates @
      (if ans x \<noteq> None then [New_Connection x (ps ! x)] else []) @
      (if set [0..<length ps] \<subseteq> set (dn @ [x]) then [Connections_Read] else []))"
proof -
  let ?rc0 = "remote_connection_new scope (ps ! x)"
  have wf: "gh_wf (rs_pending st)" "gh_wf (rs_connections st)"
    and pend: "\<And>p y. gh_lookup (rs_pending st) p = Some y \<longleftrightarrow> awaited ps dn p y"
    and conns: "\<And>p y. gh_lookup (rs_connections st) p = Some y \<longleftrightarrow> arrived ps ans dn p y"
    and objs: "\<And>y. y < length ps \<Longrightarrow> y \<notin> set dn \<Longrightarrow> gh_lookup (rs_objs st) y = Some (remote_connection_new scope (ps ! y))"
      "\<And>y. y < length ps \<Longrightarrow> y \<in> set dn \<Longrightarrow> ans y \<noteq> None \<Longrightarrow>
        gh_lookup (rs_objs st) y = Some \<lparr>rc_conn = loaded tr scope ps ans y, rc_init_result = INIT_SUCCESS\<rparr>"
    using r unfolding reading_def by blast+
  define rc where "rc = \<lparr>rc_conn = loaded tr scope ps ans x, rc_init_result = (if ans x = None then INIT_ERROR else INIT_SUCCESS)\<rparr>"
  define st1 where "st1 = st\<lparr>rs_objs := gh_insert x rc (rs_objs st)\<rparr>"
  obtain updates where updates: "set updates \<subseteq> {Connection_Updated x}"
    and cb: "get_settings_cb tr x (ans x) st = connection_init_result_cb x rc (st1\<lparr>rs_out := rs_out st @ updates\<rparr>)"
  proof (cases "ans x")
    case None
    then have "get_settings_cb tr x (ans x) st = connection_init_result_cb x rc (st1\<lparr>rs_out := rs_out st @ []\<rparr>)"
      using objs(1) [OF x] by (simp add: get_settings_cb_def rc_def st1_def loaded_def remote_connection_new_def)
    then show ?thesis
      using that [of "[]"] by simp
  next
    case (Some H)
    obtain conn res where rep: "bm_connection_replace_settings tr H (rc_conn ?rc0) = (conn, res)"
      by fastforce
    have rc: "rc = \<lparr>rc_conn = conn, rc_init_result = INIT_SUCCESS\<rparr>"
      using Some rep by (simp add: rc_def loaded_def)
    show ?thesis
    proof (cases res)
      case (Inl e)
      then have "get_settings_cb tr x (ans x) st = connection_init_result_cb x rc (st1\<lparr>rs_out := rs_out st @ []\<rparr>)"
        using objs(1) [OF x] Some rep by (simp add: get_settings_cb_def rc st1_def remote_replace_settings_def remote_connection_new_def)
      then show ?thesis
        using that [of "[]"] by simp
    next
      case (Inr u)
      then have "get_settings_cb tr x (ans x) st = connection_init_result_cb x rc (st1\<lparr>rs_out := rs_out st @ [Connection_Updated x]\<rparr>)"
        using objs(1) [OF x] Some rep
        by (cases st) (simp add: get_settings_cb_def rc st1_def remote_replace_settings_def remote_connection_new_def rs_emit_def)
      then show ?thesis
        using that [of "[Connection_Updated x]"] by simp
    qed
  qed
  have res: "rc_init_result rc = INIT_SUCCESS \<longleftrightarrow> ans x \<noteq> None"
    by (simp add: rc_def)
  have path: "rs_path rc = ps ! x"
    using loaded_path [of tr scope ps ans x] by (simp add: rs_path_def rc_def bm_connection_get_path_def)
  define pending where "pending = gh_remove (ps ! x) (rs_pending st)"
  define connections where "connections = (if ans x = None then rs_connections st else gh_insert (ps ! x) x (rs_connections st))"
  have wf': "gh_wf pending" "gh_wf connections"
    using wf by (simp_all add: pending_def connections_def ght.invar_del ght.invar_ins)
  have pend': "gh_lookup pending p = Some y \<longleftrightarrow> awaited ps (dn @ [x]) p y" for p y
    using pend [of p y] x ps wf(1) by (auto simp: pending_def ght.look_del awaited_def nth_eq_iff_index_eq)
  have conns': "gh_lookup connections p = Some y \<longleftrightarrow> arrived ps ans (dn @ [x]) p y" for p y
    using conns [of p y] x ps by (auto simp: connections_def gh_simps arrived_def nth_eq_iff_index_eq)
  have empty: "gh_size pending = 0 \<longleftrightarrow> set [0..<length ps] \<subseteq> set (dn @ [x])"
  proof -
    have "gh_size pending = 0 \<longleftrightarrow> (\<forall>p y. gh_lookup pending p \<noteq> Some y)"
      by (cases pending) (auto simp: gh_size_def gh_lookup_def)
    also have "\<dots> \<longleftrightarrow> (\<forall>y. y < length ps \<longrightarrow> y \<in> set (dn @ [x]))"
      unfolding pend' awaited_def by auto
    finally show ?thesis
      by auto
  qed
  define st2 where "st2 = st1\<lparr>rs_connections := connections, rs_pending := pending,
    rs_out := rs_out st @ updates @ (if ans x \<noteq> None then [New_Connection x (ps ! x)] else []) @
      (if set [0..<length ps] \<subseteq> set (dn @ [x]) then [Connections_Read] else [])\<rparr>"
  have st2: "get_settings_cb tr x (ans x) st = rs_collect st2"
    unfolding cb connection_init_result_cb_def Let_def
  proof (rule arg_cong [where f = rs_collect], rule remote_settings.equality, goal_cases)
    case 10
    show ?case
      using empty by (cases "ans x") (simp_all add: rs_emit_def st2_def st1_def path res flip: pending_def)
  qed (simp_all add: rs_emit_def st2_def st1_def path res connections_def pending_def)
  have tables: "rs_connections st2 = connections" "rs_pending st2 = pending" "rs_objs st2 = gh_insert x rc (rs_objs st)"
    by (simp_all add: st2_def st1_def)
  have look: "gh_lookup (rs_objs (rs_collect st2)) y =
      (if (\<exists>p. arrived ps ans (dn @ [x]) p y) \<or> (\<exists>p. awaited ps (dn @ [x]) p y) then (if y = x then Some rc else gh_lookup (rs_objs st) y) else None)" for y
    using collect_lookup [of st2 y] wf' by (simp add: tables pend' conns' gh_simps)
  have waiting: "gh_lookup (rs_objs (rs_collect st2)) y = Some (remote_connection_new scope (ps ! y))"
    if "y < length ps" "y \<notin> set (dn @ [x])" for y
    using that objs(1) [of y] by (simp add: look awaited_def)
  have here: "gh_lookup (rs_objs (rs_collect st2)) y = Some \<lparr>rc_conn = loaded tr scope ps ans y, rc_init_result = INIT_SUCCESS\<rparr>"
    if "y < length ps" "y \<in> set (dn @ [x])" "ans y \<noteq> None" for y
    using that objs(2) [of y] by (auto simp: look arrived_def rc_def)
  have "reading tr scope ps ans (dn @ [x]) (rs_collect st2)"
    unfolding reading_def collect_fields tables using wf' pend' conns' waiting here by blast
  then show ?thesis
    unfolding st2 using updates by (intro conjI exI [of _ updates]) (simp_all add: st2_def)
qed


text \<open>All answers, in any order.\<close>

lemma read_some:
  assumes st: "reading tr scope ps ans [] st" "rs_out st = []" and ps: "distinct ps"
    and rs: "distinct rs" "set rs \<subseteq> {..<length ps}"
  shows "reading tr scope ps ans rs (foldl (\<lambda>st x. get_settings_cb tr x (ans x) st) st rs) \<and>
    count_list (rs_out (foldl (\<lambda>st x. get_settings_cb tr x (ans x) st) st rs)) Connections_Read =
      (if rs \<noteq> [] \<and> set [0..<length ps] \<subseteq> set rs then 1 else 0) \<and>
    (rs \<noteq> [] \<longrightarrow> set [0..<length ps] \<subseteq> set rs \<longrightarrow> last (rs_out (foldl (\<lambda>st x. get_settings_cb tr x (ans x) st) st rs)) = Connections_Read)"
  using rs
proof (induction rs rule: rev_induct)
  case Nil
  show ?case
    using st by simp
next
  case (snoc x rs)
  define sr where "sr = foldl (\<lambda>st x. get_settings_cb tr x (ans x) st) st rs"
  have ih: "reading tr scope ps ans rs sr"
      "count_list (rs_out sr) Connections_Read = (if rs \<noteq> [] \<and> set [0..<length ps] \<subseteq> set rs then 1 else 0)"
    using snoc unfolding sr_def by simp_all
  have x: "x < length ps" "x \<notin> set rs"
    using snoc.prems by auto
  then have "\<not> set [0..<length ps] \<subseteq> set rs"
    by auto
  then have none: "count_list (rs_out sr) Connections_Read = 0"
    using ih(2) by simp
  obtain updates where u: "set updates \<subseteq> {Connection_Updated x}"
    and out: "rs_out (get_settings_cb tr x (ans x) sr) = rs_out sr @ updates @
      (if ans x \<noteq> None then [New_Connection x (ps ! x)] else []) @
      (if set [0..<length ps] \<subseteq> set (rs @ [x]) then [Connections_Read] else [])"
    and r: "reading tr scope ps ans (rs @ [x]) (get_settings_cb tr x (ans x) sr)"
    using read_one [OF ih(1) ps x] by blast
  have "count_list updates Connections_Read = 0"
    using u by (auto simp: count_list_0_iff)
  then show ?case
    using none r by (simp add: out flip: sr_def)
qed

definition reading_done ::
  "transform \<Rightarrow> u32 \<Rightarrow> bool option \<Rightarrow> string list \<Rightarrow> (nat \<Rightarrow> settings_hash option) \<Rightarrow> nat list \<Rightarrow> remote_settings" where
  "reading_done tr scope owner ps ans rs =
     foldl (\<lambda>st x. get_settings_cb tr x (ans x) st) (fetch_connections_done (Some ps) (rs_run_idle (remote_settings_new scope owner))) rs"

lemma reading_done_reading:
  assumes "distinct ps" "ps \<noteq> []" "mset rs = mset [0..<length ps]"
  shows "reading tr scope ps ans rs (reading_done tr scope owner ps ans rs)"
    "count_list (rs_out (reading_done tr scope owner ps ans rs)) Connections_Read = 1"
    "last (rs_out (reading_done tr scope owner ps ans rs)) = Connections_Read"
proof -
  have s: "set rs = set [0..<length ps]" "distinct rs"
    using assms(3) mset_eq_setD mset_eq_imp_distinct_iff distinct_upt by (blast, metis)
  have rs: "distinct rs" "set rs \<subseteq> {..<length ps}" "set [0..<length ps] \<subseteq> set rs" "rs \<noteq> []"
    using s assms(2) by auto
  note start = start_reading [OF assms(1), of tr scope ans owner]
  have "reading_done tr scope owner ps ans rs = foldl (\<lambda>st x. get_settings_cb tr x (ans x) st)
      (foldl (\<lambda>st path. new_connection_cb path st) (rs_run_idle (remote_settings_new scope owner)) ps) rs"
    using assms(2) by (simp add: reading_done_def fetch_connections_done_def)
  then show "reading tr scope ps ans rs (reading_done tr scope owner ps ans rs)"
    "count_list (rs_out (reading_done tr scope owner ps ans rs)) Connections_Read = 1"
    "last (rs_out (reading_done tr scope owner ps ans rs)) = Connections_Read"
    using read_some [OF conjunct1 [OF start] conjunct2 [OF start] assms(1) rs(1,2)] rs(3,4) by simp_all
qed

text \<open>C32: Reading the connections of a service: when the service lists the distinct paths \<open>ps\<close> and the answers to the
  requests for their settings come in any order \<open>rs\<close>, "connections-read" is emitted exactly once, as the last signal; a connection whose
  settings could be read is found by its path from then on, with the settings that the service's connection has; one that could not be read
  is not found, and no other path is.\<close>

theorem connections_read_once:
  assumes "inj gt" "distinct ps" "ps \<noteq> []" "mset rs = mset [0..<length ps]"
    and answers: "\<And>x. x < length ps \<Longrightarrow> ans x \<noteq> None \<Longrightarrow>
      connection_ok (cs x) \<and> bm_connection_verify (cs x) = Inr () \<and> bm_connection_to_hash gt (cs x) = ans x"
  shows "let st = foldl (\<lambda>st x. get_settings_cb tr x (ans x) st)
           (fetch_connections_done (Some ps) (rs_run_idle (remote_settings_new scope owner))) rs in
    count_list (rs_out st) Connections_Read = 1 \<and> last (rs_out st) = Connections_Read \<and>
    (\<forall>x < length ps. case ans x of
       None \<Rightarrow> get_connection_by_path (ps ! x) st = None
     | Some H \<Rightarrow> get_connection_by_path (ps ! x) st = Some x \<and>
         (\<exists>rc. gh_lookup (rs_objs st) x = Some rc \<and> rc_init_result rc = INIT_SUCCESS \<and> same_settings (rc_conn rc) (cs x) \<and>
           conn_path (rc_conn rc) = Some (ps ! x))) \<and>
    (\<forall>p. p \<notin> set ps \<longrightarrow> get_connection_by_path p st = None)"
proof -
  define st where "st = reading_done tr scope owner ps ans rs"
  note finished = reading_done_reading [OF assms(2-4), where tr = tr and scope = scope and ans = ans and owner = owner, folded st_def]
  have rs: "set rs = set [0..<length ps]"
    using assms(4) by (rule mset_eq_setD)
  have conns: "get_connection_by_path p st = Some x \<longleftrightarrow> arrived ps ans rs p x" for p x
    using finished(1) by (simp add: reading_def get_connection_by_path_def)
  have absent: "get_connection_by_path (ps ! x) st = None" if x: "x < length ps" "ans x = None" for x
  proof (rule ccontr)
    assume "get_connection_by_path (ps ! x) st \<noteq> None"
    then obtain y where "arrived ps ans rs (ps ! x) y"
      using conns by blast
    then have "y = x" "ans y \<noteq> None"
      using x(1) nth_eq_iff_index_eq [OF assms(2), of y x] by (simp_all add: arrived_def)
    then show False
      using x(2) by simp
  qed
  have other: "get_connection_by_path p st = None" if "p \<notin> set ps" for p
  proof (rule ccontr)
    assume "get_connection_by_path p st \<noteq> None"
    then obtain y where "arrived ps ans rs p y"
      using conns by blast
    then show False
      using that nth_mem [of y ps] by (simp add: arrived_def)
  qed
  have here: "get_connection_by_path (ps ! x) st = Some x \<and>
      (\<exists>rc. gh_lookup (rs_objs st) x = Some rc \<and> rc_init_result rc = INIT_SUCCESS \<and> same_settings (rc_conn rc) (cs x) \<and>
         conn_path (rc_conn rc) = Some (ps ! x))" if x: "x < length ps" "ans x = Some H" for x H
  proof -
    have "gh_lookup (rs_objs st) x = Some \<lparr>rc_conn = loaded tr scope ps ans x, rc_init_result = INIT_SUCCESS\<rparr>"
      using finished(1) x rs unfolding reading_def by auto
    moreover have "same_settings (loaded tr scope ps ans x) (cs x)"
      using replace_by_valid [OF assms(1), of "cs x" H tr "rc_conn (remote_connection_new scope (ps ! x))"] answers [of x] x
      by (auto simp: loaded_def Let_def)
    ultimately show ?thesis
      using conns [of "ps ! x" x] x rs loaded_path [of tr scope ps ans x] by (auto simp: arrived_def)
  qed
  show ?thesis
    using finished(2,3) absent other here
    unfolding st_def reading_done_def Let_def by (auto split: option.split)
qed

theorem connections_read_once_witness:
  "count_list (rs_out (foldl (\<lambda>st x. get_settings_cb (\<lambda>_ _. None) x ([Some sample_settings, None] ! x) st)
     (fetch_connections_done (Some [''/s/0'', ''/s/1'']) (rs_run_idle (remote_settings_new 2 (Some True)))) [1, 0])) Connections_Read = 1"
proof -
  have "sample_settings \<noteq> []"
    by (simp add: sample_settings_def sample_connection_def add_one_setting_to_hash_def gh_insert_not_empty)
  then have K: "bm_connection_to_hash sample_gt sample_connection = Some sample_settings"
    by (simp add: bm_connection_to_hash_def Let_def gh_size_def flip: sample_settings_def)
  have "bm_connection_to_hash sample_gt sample_connection = [Some sample_settings, None] ! x"
    if "x < 2" "[Some sample_settings, None] ! x \<noteq> None" for x :: nat
    using that K by (cases x) auto
  then show ?thesis
    using connections_read_once [OF inj_sample_gt, of "[''/s/0'', ''/s/1'']" "[1, 0]" "\<lambda>x. [Some sample_settings, None] ! x"
        "\<lambda>_. sample_connection" "\<lambda>_ _. None" 2 "Some True"] sample_connection_ok(1) sample_connection_verify
    by (simp add: Let_def numeral_2_eq_2)
qed

text \<open>A call is answered at most once, and not at all once the object is gone.\<close>

lemma dispose_completes: "cl_calls (complete_all calls rc) = foldl (\<lambda>cs c. remove1 c cs) (cl_calls rc) calls \<and>
    cl_called_back (complete_all calls rc) = cl_called_back rc"
  by (induction calls arbitrary: rc) (simp_all add: remote_call_complete_def)

lemma remove_all: "foldl (\<lambda>cs c. remove1 c cs) (xs @ ys) xs = ys"
  by (induction xs) simp_all

lemma call_answered_once:
  assumes "distinct (cl_calls rc)" "call \<in> set (cl_calls rc)"
  shows "remote_call_cb call e2 (remote_call_cb call e1 rc) = remote_call_cb call e1 rc"
    "cl_called_back (remote_call_cb call e1 rc) = cl_called_back rc @ [(fst call, e1)]"
    "\<not> cl_disposed rc \<Longrightarrow> remote_call_cb call e1 (remote_connection_dispose rc) = remote_connection_dispose rc"
  using assms dispose_completes [of "cl_calls rc" "rc\<lparr>cl_disposed := True\<rparr>"] remove_all [of "cl_calls rc" "[]"]
  by (simp_all add: remote_call_cb_def remote_call_complete_def remote_connection_dispose_def)

text \<open>A service that stops and starts again before the clients' main loop runs: the removal of its connections is
  cancelled, so the old ones stay beside those that are read again; and a connection that is removed while it is the last one
  read keeps "connections-read" from being emitted.\<close>

lemma quick_restart_keeps_connections:
  assumes "rs_scope st = BM_CONNECTION_SCOPE_SYSTEM" "owner \<noteq> []"
  shows "rs_connections (rs_run_idle (name_owner_changed (service_name_of (rs_scope st)) (Some owner)
      (name_owner_changed (service_name_of (rs_scope st)) None st))) = rs_connections st"
  using assms by (simp add: name_owner_changed_def rs_run_idle_def fetch_connections_def rs_emit_def)

lemma removal_while_reading_is_silent:
  "rs_out (removed_cb 0 (fetch_connections_done (Some [''/s/0'']) (rs_run_idle (remote_settings_new scope owner)))) = [Connection_Removed 0] \<and>
   gh_size (rs_pending (removed_cb 0 (fetch_connections_done (Some [''/s/0'']) (rs_run_idle (remote_settings_new scope owner))))) = 0"
  by (simp add: removed_cb_def fetch_connections_done_def new_connection_cb_def rs_run_idle_def remote_settings_new_def fetch_connections_def
      rs_collect_def connection_removed_cb_def rs_emit_def gh_new_def gh_insert_def gh_remove_def gh_lookup_def gh_values_def gh_size_def)

end
