(* ===== verification/Libbm_Glib.thy ===== *)
theory Libbm_Glib
  imports Manager
begin

text \<open>
  The deprecated client library \<^verbatim>\<open>src/barcode-manager/libbm-glib/libbm_glib.c\<close>: a context with a private bus connection
  in a thread of its own, the state it derives from the daemon's, callbacks that are run by idle sources of the
  application's main loops, and a timer that tries to connect to the bus again.  The context is one record; the
  sources that are attached are lists in it.
\<close>

section \<open>State\<close>

datatype lib_state = LIBBM_NO_DBUS | LIBBM_NO_NETWORKMANAGER | LIBBM_NO_NETWORK_CONNECTION | LIBBM_ACTIVE_NETWORK_CONNECTION | LIBBM_INVALID_CONTEXT

record lib_callback =
  lb_id :: u32
  lb_func :: nat

text \<open>\<open>lc_watcher\<close> is the delay of the timer that is attached, \<open>lc_idle\<close> the idle sources with their callbacks,
  \<open>lc_asked\<close> the calls of \<^verbatim>\<open>state\<close> under way, \<open>lc_called\<close> the functions that were called.\<close>

record lib_ctx =
  lc_con :: bool
  lc_watcher :: "nat option"
  lc_interval :: nat
  lc_callbacks :: "lib_callback list"
  lc_last :: u32
  lc_state :: lib_state
  lc_idle :: "lib_callback list"
  lc_asked :: nat
  lc_called :: "nat list"

section \<open>Operations\<close>

definition libbm_glib_get_bm_state :: "lib_ctx \<Rightarrow> lib_ctx" where
  "libbm_glib_get_bm_state ctx = ctx\<lparr>lc_asked := lc_asked ctx + 1\<rparr>"

definition libbm_glib_schedule_single_callback :: "lib_callback \<Rightarrow> lib_ctx \<Rightarrow> lib_ctx" where
  "libbm_glib_schedule_single_callback callback ctx = ctx\<lparr>lc_idle := lc_idle ctx @ [callback]\<rparr>"

definition libbm_glib_callback_helper :: "lib_callback \<Rightarrow> lib_ctx \<Rightarrow> lib_ctx" where
  "libbm_glib_callback_helper callback ctx = ctx\<lparr>lc_called := lc_called ctx @ [lb_func callback]\<rparr>"

text \<open>One source with the callback is found and destroyed.\<close>

definition libbm_glib_unschedule_single_callback :: "lib_callback \<Rightarrow> lib_ctx \<Rightarrow> lib_ctx" where
  "libbm_glib_unschedule_single_callback callback ctx = ctx\<lparr>lc_idle := remove1 callback (lc_idle ctx)\<rparr>"

definition libbm_glib_call_callbacks :: "lib_ctx \<Rightarrow> lib_ctx" where
  "libbm_glib_call_callbacks ctx = foldl (\<lambda>ctx callback. libbm_glib_schedule_single_callback callback ctx) ctx (lc_callbacks ctx)"

definition lib_state_of :: "u32 \<Rightarrow> lib_state" where
  "lib_state_of state =
     (if state = state_num BM_STATE_CONNECTED then LIBBM_ACTIVE_NETWORK_CONNECTION
      else if state = state_num BM_STATE_ASLEEP \<or> state = state_num BM_STATE_CONNECTING \<or> state = state_num BM_STATE_DISCONNECTED
      then LIBBM_NO_NETWORK_CONNECTION
      else LIBBM_NO_NETWORKMANAGER)"

definition libbm_glib_update_state :: "u32 \<Rightarrow> lib_ctx \<Rightarrow> lib_ctx" where
  "libbm_glib_update_state state ctx =
     (let old_state = lc_state ctx; ctx = ctx\<lparr>lc_state := lib_state_of state\<rparr>
      in if old_state \<noteq> lc_state ctx then libbm_glib_call_callbacks ctx else ctx)"

text \<open>The reply to \<^verbatim>\<open>state\<close>: none, an error, or a message whose argument may be of another type.\<close>

datatype state_reply = No_Reply | Error_Reply | State_Reply "u32 option"

definition libbm_glib_bm_state_cb :: "state_reply \<Rightarrow> lib_ctx \<Rightarrow> lib_ctx" where
  "libbm_glib_bm_state_cb reply ctx =
     (case reply of State_Reply (Some bm_state) \<Rightarrow> libbm_glib_update_state bm_state ctx | _ \<Rightarrow> ctx)"

definition libbm_glib_schedule_dbus_watcher :: "lib_ctx \<Rightarrow> lib_ctx" where
  "libbm_glib_schedule_dbus_watcher ctx =
     (if lc_watcher ctx = None then ctx\<lparr>lc_watcher := Some (lc_interval ctx)\<rparr> else ctx)"

text \<open>The messages of the bus, with the arguments if they can be read.\<close>

datatype lib_message =
  Msg_Disconnected
| Msg_Name_Owner_Changed "(string \<times> cstr \<times> cstr) option"
| Msg_Manager_Signal string "u32 option"
| Msg_Other

definition owner_good :: "cstr \<Rightarrow> bool" where
  "owner_good owner = (case owner of None \<Rightarrow> False | Some s \<Rightarrow> length s > 0)"

definition libbm_glib_dbus_filter :: "lib_message \<Rightarrow> lib_ctx \<Rightarrow> bool \<times> lib_ctx" where
  "libbm_glib_dbus_filter message ctx =
     (case message of
        Msg_Disconnected \<Rightarrow>
          (True, libbm_glib_schedule_dbus_watcher (ctx\<lparr>lc_state := LIBBM_NO_DBUS, lc_con := False\<rparr>))
      | Msg_Name_Owner_Changed args \<Rightarrow>
          (True,
           case args of
             None \<Rightarrow> ctx
           | Some (service, old_owner, new_owner) \<Rightarrow>
               if service = ''org.freedesktop.BarcodeManager''
               then if \<not> owner_good old_owner \<and> owner_good new_owner then libbm_glib_get_bm_state ctx
                    else if owner_good old_owner \<and> \<not> owner_good new_owner then ctx\<lparr>lc_state := LIBBM_NO_NETWORKMANAGER\<rparr>
                    else ctx
               else ctx)
      | Msg_Manager_Signal member state \<Rightarrow>
          if member \<in> {''DeviceNowActive'', ''DeviceNoLongerActive'', ''DeviceActivating'', ''DevicesChanged''}
          then (True, libbm_glib_get_bm_state ctx)
          else if member = ''StateChange''
          then (True, libbm_glib_update_state (case state of None \<Rightarrow> state_num BM_STATE_UNKNOWN | Some s \<Rightarrow> s) ctx)
          else (False, ctx)
      | Msg_Other \<Rightarrow> (False, ctx))"

text \<open>The connection to the bus: the answer of the bus, whether there is an error, and whether the filter could be added.\<close>

definition libbm_glib_dbus_init :: "bool \<Rightarrow> bool \<Rightarrow> bool \<Rightarrow> bool" where
  "libbm_glib_dbus_init connection error filter_added =
     (if error then False else if \<not> connection then False else if \<not> filter_added then False else True)"

text \<open>The timer, whose source ends with it; \<open>init\<close> is the result of connecting.\<close>

definition libbm_glib_dbus_watcher :: "bool \<Rightarrow> lib_ctx \<Rightarrow> lib_ctx" where
  "libbm_glib_dbus_watcher init ctx =
     (let ctx = ctx\<lparr>lc_watcher := None\<rparr>;
          ctx = (if \<not> lc_con ctx then ctx\<lparr>lc_con := init\<rparr> else ctx)
      in if lc_con ctx then (libbm_glib_get_bm_state ctx)\<lparr>lc_interval := 1000\<rparr>
         else libbm_glib_schedule_dbus_watcher (ctx\<lparr>lc_interval := min (lc_interval ctx + 3000) 60000\<rparr>))"

definition libbm_glib_ctx_new :: lib_ctx where
  "libbm_glib_ctx_new =
     \<lparr>lc_con = False, lc_watcher = None, lc_interval = 1000, lc_callbacks = [], lc_last = 0, lc_state = LIBBM_NO_DBUS, lc_idle = [],
      lc_asked = 0, lc_called = []\<rparr>"

definition libbm_glib_dbus_worker :: "bool \<Rightarrow> lib_ctx \<Rightarrow> lib_ctx" where
  "libbm_glib_dbus_worker init ctx =
     (let ctx = ctx\<lparr>lc_con := init\<rparr>
      in if \<not> lc_con ctx then libbm_glib_schedule_dbus_watcher ctx else libbm_glib_get_bm_state ctx)"

definition libbm_glib_init :: "bool \<Rightarrow> lib_ctx" where
  "libbm_glib_init init = libbm_glib_dbus_worker init libbm_glib_ctx_new"

definition libbm_glib_get_network_state :: "lib_ctx option \<Rightarrow> lib_state" where
  "libbm_glib_get_network_state ctx = (case ctx of None \<Rightarrow> LIBBM_INVALID_CONTEXT | Some ctx \<Rightarrow> lc_state ctx)"

definition libbm_glib_register_callback :: "nat \<Rightarrow> lib_ctx \<Rightarrow> u32 \<times> lib_ctx" where
  "libbm_glib_register_callback func ctx =
     (let callback = \<lparr>lb_id = lc_last ctx + 1, lb_func = func\<rparr>
      in (lb_id callback,
          libbm_glib_schedule_single_callback callback
            (ctx\<lparr>lc_last := lb_id callback, lc_callbacks := lc_callbacks ctx @ [callback]\<rparr>)))"

fun unregister_loop :: "u32 \<Rightarrow> lib_callback list \<Rightarrow> lib_callback option \<times> lib_callback list" where
  "unregister_loop ident [] = (None, [])"
| "unregister_loop ident (callback # elems) =
     (if lb_id callback = ident then (Some callback, elems)
      else case unregister_loop ident elems of (found, rest) \<Rightarrow> (found, callback # rest))"

definition libbm_glib_unregister_callback :: "u32 \<Rightarrow> lib_ctx \<Rightarrow> lib_ctx" where
  "libbm_glib_unregister_callback ident ctx =
     (if ident > 0
      then case unregister_loop ident (lc_callbacks ctx) of
             (None, _) \<Rightarrow> ctx
           | (Some callback, rest) \<Rightarrow> (libbm_glib_unschedule_single_callback callback ctx)\<lparr>lc_callbacks := rest\<rparr>
      else ctx)"

section \<open>The context as a transition system\<close>

datatype lib_event =
  Lib_Message lib_message
| Lib_Timer bool
| Lib_Reply state_reply
| Lib_Idle
| Lib_Register nat
| Lib_Unregister u32

definition lib_handle :: "lib_event \<Rightarrow> lib_ctx \<Rightarrow> lib_ctx" where
  "lib_handle ev ctx =
     (case ev of
        Lib_Message m \<Rightarrow> snd (libbm_glib_dbus_filter m ctx)
      | Lib_Timer init \<Rightarrow> libbm_glib_dbus_watcher init ctx
      | Lib_Reply r \<Rightarrow> libbm_glib_bm_state_cb r (ctx\<lparr>lc_asked := lc_asked ctx - 1\<rparr>)
      | Lib_Idle \<Rightarrow> (case lc_idle ctx of [] \<Rightarrow> ctx | cb # rest \<Rightarrow> libbm_glib_callback_helper cb (ctx\<lparr>lc_idle := rest\<rparr>))
      | Lib_Register func \<Rightarrow> snd (libbm_glib_register_callback func ctx)
      | Lib_Unregister ident \<Rightarrow> libbm_glib_unregister_callback ident ctx)"

text \<open>Messages and replies need a connection, the timer must be attached.\<close>

definition lib_enabled :: "lib_event \<Rightarrow> lib_ctx \<Rightarrow> bool" where
  "lib_enabled ev ctx =
     (case ev of
        Lib_Message _ \<Rightarrow> lc_con ctx
      | Lib_Timer _ \<Rightarrow> lc_watcher ctx \<noteq> None
      | Lib_Reply _ \<Rightarrow> lc_asked ctx > 0
      | _ \<Rightarrow> True)"

inductive lib_reachable :: "lib_ctx \<Rightarrow> bool" where
  start: "lib_reachable (libbm_glib_init init)"
| step: "lib_reachable ctx \<Longrightarrow> lib_enabled ev ctx \<Longrightarrow> lib_reachable (lib_handle ev ctx)"

section \<open>Lemmas\<close>

lemma schedule_fields [simp]:
  "lc_con (libbm_glib_schedule_single_callback cb ctx) = lc_con ctx" "lc_watcher (libbm_glib_schedule_single_callback cb ctx) = lc_watcher ctx"
  "lc_interval (libbm_glib_schedule_single_callback cb ctx) = lc_interval ctx"
  "lc_callbacks (libbm_glib_schedule_single_callback cb ctx) = lc_callbacks ctx"
  "lc_state (libbm_glib_schedule_single_callback cb ctx) = lc_state ctx" "lc_last (libbm_glib_schedule_single_callback cb ctx) = lc_last ctx"
  "lc_idle (libbm_glib_schedule_single_callback cb ctx) = lc_idle ctx @ [cb]"
  by (simp_all add: libbm_glib_schedule_single_callback_def)

lemma schedule_all:
  "foldl (\<lambda>ctx callback. libbm_glib_schedule_single_callback callback ctx) ctx cbs = ctx\<lparr>lc_idle := lc_idle ctx @ cbs\<rparr>"
  by (induction cbs arbitrary: ctx) (simp_all add: libbm_glib_schedule_single_callback_def)

lemma update_state:
  "libbm_glib_update_state state ctx =
     ctx\<lparr>lc_state := lib_state_of state, lc_idle := lc_idle ctx @ (if lc_state ctx = lib_state_of state then [] else lc_callbacks ctx)\<rparr>"
  by (simp add: libbm_glib_update_state_def libbm_glib_call_callbacks_def schedule_all Let_def)

text \<open>The timer is attached exactly while there is no connection, its delay between one and sixty seconds.\<close>

definition lib_ok :: "lib_ctx \<Rightarrow> bool" where
  "lib_ok ctx \<longleftrightarrow> 1000 \<le> lc_interval ctx \<and> lc_interval ctx \<le> 60000 \<and> (lc_con ctx \<longleftrightarrow> lc_watcher ctx = None) \<and>
     (\<forall>delay. lc_watcher ctx = Some delay \<longrightarrow> delay = lc_interval ctx)"

lemma lib_ok_cong:
  "lib_ok ctx \<Longrightarrow> lc_interval ctx' = lc_interval ctx \<Longrightarrow> lc_con ctx' = lc_con ctx \<Longrightarrow> lc_watcher ctx' = lc_watcher ctx \<Longrightarrow> lib_ok ctx'"
  by (simp add: lib_ok_def)

lemma filter_ok: "lib_ok ctx \<Longrightarrow> lc_con ctx \<Longrightarrow> lib_ok (snd (libbm_glib_dbus_filter m ctx))"
  by (auto simp: libbm_glib_dbus_filter_def lib_ok_def libbm_glib_schedule_dbus_watcher_def update_state libbm_glib_get_bm_state_def
      split: lib_message.split option.split)

lemma watcher_ok: "lib_ok ctx \<Longrightarrow> lib_ok (libbm_glib_dbus_watcher init ctx)"
  by (auto simp: libbm_glib_dbus_watcher_def lib_ok_def libbm_glib_schedule_dbus_watcher_def libbm_glib_get_bm_state_def Let_def)

lemma lib_handle_ok: "lib_ok ctx \<Longrightarrow> lib_enabled ev ctx \<Longrightarrow> lib_ok (lib_handle ev ctx)"
proof (cases ev)
  case (Lib_Message m)
  then show "lib_ok ctx \<Longrightarrow> lib_enabled ev ctx \<Longrightarrow> ?thesis"
    by (simp add: lib_handle_def lib_enabled_def filter_ok)
next
  case (Lib_Timer init)
  then show "lib_ok ctx \<Longrightarrow> lib_enabled ev ctx \<Longrightarrow> ?thesis"
    by (simp add: lib_handle_def watcher_ok)
next
  case (Lib_Reply r)
  then show "lib_ok ctx \<Longrightarrow> lib_enabled ev ctx \<Longrightarrow> ?thesis"
    by (auto simp: lib_handle_def libbm_glib_bm_state_cb_def update_state lib_ok_def split: state_reply.split option.split)
next
  case Lib_Idle
  then show "lib_ok ctx \<Longrightarrow> lib_enabled ev ctx \<Longrightarrow> ?thesis"
    by (auto simp: lib_handle_def libbm_glib_callback_helper_def lib_ok_def split: list.split)
next
  case (Lib_Register func)
  then show "lib_ok ctx \<Longrightarrow> lib_enabled ev ctx \<Longrightarrow> ?thesis"
    by (auto simp: lib_handle_def libbm_glib_register_callback_def Let_def lib_ok_def)
next
  case (Lib_Unregister ident)
  then show "lib_ok ctx \<Longrightarrow> lib_enabled ev ctx \<Longrightarrow> ?thesis"
    by (auto simp: lib_handle_def libbm_glib_unregister_callback_def libbm_glib_unschedule_single_callback_def lib_ok_def split: prod.split option.split)
qed

lemma lib_reachable_ok: "lib_reachable ctx \<Longrightarrow> lib_ok ctx"
proof (induction rule: lib_reachable.induct)
  case (start init)
  show ?case
    by (auto simp: libbm_glib_init_def libbm_glib_dbus_worker_def libbm_glib_ctx_new_def libbm_glib_schedule_dbus_watcher_def
        libbm_glib_get_bm_state_def lib_ok_def Let_def)
qed (rule lib_handle_ok)

lemma failed_attempts:
  "\<not> lc_con ctx \<Longrightarrow> lc_interval ctx \<le> 60000 \<Longrightarrow>
     \<not> lc_con ((libbm_glib_dbus_watcher False ^^ n) ctx) \<and>
     lc_interval ((libbm_glib_dbus_watcher False ^^ n) ctx) = min (lc_interval ctx + 3000 * n) 60000"
  by (induction n) (auto simp: libbm_glib_dbus_watcher_def libbm_glib_schedule_dbus_watcher_def Let_def)

text \<open>The library never gives up the bus: in every reachable state without a connection the timer that connects again is attached,
  its delay between one second and a minute, and after \<open>n\<close> failed attempts in a row it is three seconds longer for each, up to the
  minute; as soon as an attempt succeeds the library asks the daemon for its state.\<close>

theorem library_keeps_reconnecting:
  assumes "lib_reachable ctx"
  shows "lc_con ctx = (lc_watcher ctx = None) \<and>
    (\<not> lc_con ctx \<longrightarrow>
       (let failed = (libbm_glib_dbus_watcher False ^^ n) ctx in
         lc_watcher failed = Some (min (lc_interval ctx + 3000 * n) 60000) \<and>
         lc_con (libbm_glib_dbus_watcher True failed) \<and> lc_asked (libbm_glib_dbus_watcher True failed) = lc_asked failed + 1))"
proof -
  have ok: "lib_ok ctx"
    using assms by (rule lib_reachable_ok)
  have "lib_ok ((libbm_glib_dbus_watcher False ^^ n) ctx)"
    by (induction n) (simp_all add: ok watcher_ok)
  then have "\<not> lc_con ctx \<Longrightarrow> lc_watcher ((libbm_glib_dbus_watcher False ^^ n) ctx) = Some (min (lc_interval ctx + 3000 * n) 60000)"
    using failed_attempts [of ctx n] ok by (cases "lc_watcher ((libbm_glib_dbus_watcher False ^^ n) ctx)") (auto simp: lib_ok_def)
  then show ?thesis
    using ok by (auto simp: lib_ok_def Let_def libbm_glib_dbus_watcher_def libbm_glib_get_bm_state_def)
qed

theorem library_keeps_reconnecting_witness:
  "lc_watcher ((libbm_glib_dbus_watcher False ^^ 30) (libbm_glib_init False)) = Some 60000"
proof -
  have "\<not> lc_con (libbm_glib_init False) \<and> lc_interval (libbm_glib_init False) = 1000"
    by (simp add: libbm_glib_init_def libbm_glib_dbus_worker_def libbm_glib_ctx_new_def libbm_glib_schedule_dbus_watcher_def)
  then show ?thesis
    using library_keeps_reconnecting [OF lib_reachable.start [of False], of 30] by (simp add: Let_def)
qed

text \<open>The registered functions are told of a change: when the daemon announces its state, or answers a question for it,
  and the state of the library changes, each registered function is scheduled once, in the order of registration, and none otherwise;
  but when the bus goes away or the daemon ends the state changes and nobody is told.\<close>

theorem callbacks_scheduled_on_change:
  "lc_state (snd (libbm_glib_dbus_filter (Msg_Manager_Signal ''StateChange'' (Some s)) ctx)) = lib_state_of s \<and>
   lc_idle (snd (libbm_glib_dbus_filter (Msg_Manager_Signal ''StateChange'' (Some s)) ctx)) =
     lc_idle ctx @ (if lc_state ctx = lib_state_of s then [] else lc_callbacks ctx) \<and>
   libbm_glib_bm_state_cb (State_Reply (Some s)) ctx = snd (libbm_glib_dbus_filter (Msg_Manager_Signal ''StateChange'' (Some s)) ctx) \<and>
   lc_state (snd (libbm_glib_dbus_filter Msg_Disconnected ctx)) = LIBBM_NO_DBUS \<and>
   lc_idle (snd (libbm_glib_dbus_filter Msg_Disconnected ctx)) = lc_idle ctx \<and>
   lc_state (snd (libbm_glib_dbus_filter (Msg_Name_Owner_Changed (Some (''org.freedesktop.BarcodeManager'', Some '':1.5'', Some ''''))) ctx)) =
     LIBBM_NO_NETWORKMANAGER \<and>
   lc_idle (snd (libbm_glib_dbus_filter (Msg_Name_Owner_Changed (Some (''org.freedesktop.BarcodeManager'', Some '':1.5'', Some ''''))) ctx)) =
     lc_idle ctx"
  by (simp add: libbm_glib_dbus_filter_def update_state libbm_glib_bm_state_cb_def libbm_glib_schedule_dbus_watcher_def owner_good_def)

text \<open>A function that was scheduled twice is still called after it was unregistered.\<close>

lemma unregistered_callback_called:
  "let ctx = snd (libbm_glib_register_callback 7 (libbm_glib_init True));
       ctx = libbm_glib_update_state (state_num BM_STATE_CONNECTED) ctx;
       ctx = libbm_glib_unregister_callback 1 ctx
   in lc_callbacks ctx = [] \<and> lc_called (lib_handle Lib_Idle ctx) = [7]"
  by (simp add: libbm_glib_register_callback_def libbm_glib_init_def libbm_glib_dbus_worker_def libbm_glib_ctx_new_def update_state
      libbm_glib_get_bm_state_def libbm_glib_unregister_callback_def libbm_glib_unschedule_single_callback_def lib_handle_def
      libbm_glib_callback_helper_def libbm_glib_schedule_single_callback_def lib_state_of_def Let_def)

text \<open>The daemon's interface has the signals below and no method \<^verbatim>\<open>state\<close>, so with the daemon of this repository the library's state
  never says that there is a connection.\<close>

definition daemon_event :: "lib_event \<Rightarrow> bool" where
  "daemon_event ev =
     (case ev of
        Lib_Message (Msg_Manager_Signal member _) \<Rightarrow> member \<in> {''StateChanged'', ''PropertiesChanged'', ''DeviceAdded'', ''DeviceRemoved''}
      | Lib_Reply (State_Reply _) \<Rightarrow> False
      | _ \<Rightarrow> True)"

lemma daemon_keeps_library_in_the_dark:
  assumes "daemon_event ev" "lc_state ctx \<in> {LIBBM_NO_DBUS, LIBBM_NO_NETWORKMANAGER}"
  shows "lc_state (lib_handle ev ctx) \<in> {LIBBM_NO_DBUS, LIBBM_NO_NETWORKMANAGER}"
  using assms
  by (auto simp: lib_handle_def daemon_event_def libbm_glib_dbus_filter_def libbm_glib_schedule_dbus_watcher_def libbm_glib_get_bm_state_def
      libbm_glib_dbus_watcher_def libbm_glib_bm_state_cb_def libbm_glib_callback_helper_def libbm_glib_register_callback_def
      libbm_glib_unregister_callback_def libbm_glib_unschedule_single_callback_def Let_def
      split: lib_event.splits lib_message.splits option.splits state_reply.splits list.splits prod.splits)

end
