(* ===== verification/Value_Conversions.thy ===== *)
theory Value_Conversions
  imports GHash_Table
begin

text \<open>
  The utilities of the library, \<^verbatim>\<open>src/barcode-manager/libbm-util/bm-utils.c\<close>: conversions of boxed values to
  lists and to text that are registered with GLib, the choice of character encodings by language, and hexadecimal strings.  A
  boxed value that may be \<^verbatim>\<open>NULL\<close> is an option.  The bytes of an IPv4 address are those of a little-endian host.
\<close>

section \<open>Initialisation\<close>

text \<open>\<open>registered\<close> and \<open>initialized\<close> are the static variables, \<open>exit_handlers\<close> counts the registrations with \<^verbatim>\<open>atexit\<close>,
  \<open>registrations\<close> those of the conversions.\<close>

record utils_state =
  ut_initialized :: bool
  ut_registered :: bool
  ut_exit_handlers :: nat
  ut_registrations :: nat

definition register_value_transformations :: "utils_state \<Rightarrow> utils_state" where
  "register_value_transformations st =
     (if \<not> ut_registered st then st\<lparr>ut_registrations := ut_registrations st + 9, ut_registered := True\<rparr> else st)"

definition bm_utils_init :: "utils_state \<Rightarrow> bool \<times> utils_state" where
  "bm_utils_init st =
     (True,
      if \<not> ut_initialized st
      then (let st = register_value_transformations st
            in st\<lparr>ut_exit_handlers := ut_exit_handlers st + 1, ut_initialized := True\<rparr>)
      else st)"

definition bm_utils_deinit :: "utils_state \<Rightarrow> utils_state" where
  "bm_utils_deinit st = (if ut_initialized st then st\<lparr>ut_initialized := False\<rparr> else st)"

section \<open>Tables and lists\<close>

definition value_dup :: "string \<Rightarrow> 'v \<Rightarrow> (string, 'v) ghash \<Rightarrow> (string, 'v) ghash" where
  "value_dup key value table = gh_insert key value table"

definition bm_utils_gvalue_hash_dup :: "(string, 'v) ghash option \<Rightarrow> (string, 'v) ghash option" where
  "bm_utils_gvalue_hash_dup hash = (case hash of None \<Rightarrow> None | Some h \<Rightarrow> Some (gh_foreach value_dup h gh_new))"

fun bm_utils_string_in_list :: "string \<Rightarrow> string list \<Rightarrow> bool" where
  "bm_utils_string_in_list str [] = False"
| "bm_utils_string_in_list str (v # valid_strings) = (if strcmp str v = 0 then True else bm_utils_string_in_list str valid_strings)"

fun bm_utils_string_slist_validate :: "string list \<Rightarrow> string list \<Rightarrow> bool" where
  "bm_utils_string_slist_validate [] valid_values = True"
| "bm_utils_string_slist_validate (s # iter) valid_values =
     (if \<not> bm_utils_string_in_list s valid_values then False else bm_utils_string_slist_validate iter valid_values)"

definition convert_strv_to_slist :: "string list option \<Rightarrow> string list" where
  "convert_strv_to_slist str = rev (foldl (\<lambda>list s. s # list) [] (case str of None \<Rightarrow> [] | Some strs \<Rightarrow> strs))"

definition convert_strv_to_ptrarray :: "string list option \<Rightarrow> string list" where
  "convert_strv_to_ptrarray str = foldl (\<lambda>array s. array @ [s]) [] (case str of None \<Rightarrow> [] | Some strs \<Rightarrow> strs)"

section \<open>Values as text\<close>

definition quoted :: "string \<Rightarrow> string" where
  "quoted s = [CHR 0x27] @ s @ [CHR 0x27]"

text \<open>The loop over a list: a node that is not the first is preceded by a comma.\<close>

fun slist_loop :: "bool \<Rightarrow> string list \<Rightarrow> string \<Rightarrow> string" where
  "slist_loop is_first [] printable = printable"
| "slist_loop is_first (s # iter) printable =
     slist_loop False iter ((if \<not> is_first then printable @ '', '' @ [CHR 0x27] else printable @ [CHR 0x27]) @ s @ [CHR 0x27])"

definition convert_strv_to_string :: "string list \<Rightarrow> string" where
  "convert_strv_to_string strings = slist_loop True strings ''['' @ '']''"

fun array_loop :: "string list \<Rightarrow> nat \<Rightarrow> string \<Rightarrow> string" where
  "array_loop [] i printable = printable"
| "array_loop (s # strings) i printable =
     array_loop strings (i + 1) ((if i > 0 then printable @ '', '' @ [CHR 0x27] else printable @ [CHR 0x27]) @ s @ [CHR 0x27])"

definition convert_string_array_to_string :: "string list option \<Rightarrow> string" where
  "convert_string_array_to_string strings = array_loop (case strings of None \<Rightarrow> [] | Some s \<Rightarrow> s) 0 ''['' @ '']''"

text \<open>\<^verbatim>\<open>inet_ntop\<close> of an IPv4 address in network order.\<close>

definition inet_ntop :: "u32 \<Rightarrow> string" where
  "inet_ntop a = join_with ''.'' (map (\<lambda>k. print_nat (unat (drop_bit (8 * k) a AND 0xFF))) [0, 1, 2, 3])"

fun uint_loop :: "u32 list \<Rightarrow> nat \<Rightarrow> string \<Rightarrow> string" where
  "uint_loop [] i printable = printable"
| "uint_loop (a # array) i printable =
     uint_loop array (i + 1) ((if i > 0 then printable @ '', '' else printable) @ print_nat (unat a) @ '' ('' @ inet_ntop a @ '')'')"

definition convert_uint_array_to_string :: "u32 list option \<Rightarrow> string" where
  "convert_uint_array_to_string array = uint_loop (case array of None \<Rightarrow> [] | Some a \<Rightarrow> a) 0 ''['' @ '']''"

text \<open>An address has a prefix and perhaps a gateway, a route of four or more words a next hop and a metric; a shorter array is invalid, and
  its brace stays open.\<close>

definition struct_text :: "u32 list \<Rightarrow> string" where
  "struct_text array =
     (if length array < 2 then ''invalid''
      else let is_addr = (length array < 4) in
        (if is_addr then ''ip = '' else ''dst = '') @ inet_ntop (array ! 0) @ '', '' @
        ''px = '' @ print_nat (unat (array ! 1)) @
        (if length array > 2 then '', '' @ (if is_addr then ''gw = '' else ''nh = '') @ inet_ntop (array ! 2) else []) @
        (if length array > 3 then '', '' @ ''mt = '' @ print_nat (unat (array ! 3)) else []) @ '' }'')"

fun struct_loop :: "u32 list list \<Rightarrow> nat \<Rightarrow> string \<Rightarrow> string" where
  "struct_loop [] i printable = printable"
| "struct_loop (array # ptr_array) i printable =
     struct_loop ptr_array (i + 1) ((if i > 0 then printable @ '', '' else printable) @ ''{ '' @ struct_text array)"

definition convert_ip4_structs_to_string :: "u32 list list option \<Rightarrow> string" where
  "convert_ip4_structs_to_string ptr_array = struct_loop (case ptr_array of None \<Rightarrow> [] | Some a \<Rightarrow> a) 0 ''['' @ '']''"

text \<open>Entries of tables; \<open>contents\<close> is \<^verbatim>\<open>g_strdup_value_contents\<close>.\<close>

definition convert_one_gvalue_hash_entry :: "('v \<Rightarrow> string) \<Rightarrow> string \<Rightarrow> 'v \<Rightarrow> string \<Rightarrow> string" where
  "convert_one_gvalue_hash_entry contents key value printable =
     printable @ '' { '' @ quoted key @ '': '' @ contents value @ '' },''"

definition convert_gvalue_hash_to_string :: "('v \<Rightarrow> string) \<Rightarrow> (string, 'v) ghash \<Rightarrow> string" where
  "convert_gvalue_hash_to_string contents hash = gh_foreach (convert_one_gvalue_hash_entry contents) hash ''['' @ '' ]''"

definition convert_one_string_hash_entry :: "string \<Rightarrow> string \<Rightarrow> string \<Rightarrow> string" where
  "convert_one_string_hash_entry key value printable = printable @ '' { '' @ quoted key @ '': '' @ value @ '' },''"

definition convert_string_hash_to_string :: "(string, string) ghash option \<Rightarrow> string" where
  "convert_string_hash_to_string hash =
     (case hash of None \<Rightarrow> ''['' | Some h \<Rightarrow> gh_foreach convert_one_string_hash_entry h ''['') @ '' ]''"

definition hex_upper :: "nat \<Rightarrow> char" where
  "hex_upper n = ''0123456789ABCDEF'' ! n"

definition byte_text :: "u8 \<Rightarrow> string" where
  "byte_text b = ''0x'' @ [hex_upper (unat b div 16), hex_upper (unat b mod 16)]"

fun byte_loop :: "u8 list \<Rightarrow> nat \<Rightarrow> string \<Rightarrow> string" where
  "byte_loop [] i printable = printable"
| "byte_loop (b # array) i printable =
     (if i < 35 then byte_loop array (i + 1) ((if i > 0 then printable @ '' '' else printable) @ byte_text b)
      else printable @ '' ... '')"

definition convert_byte_array_to_string :: "u8 list option \<Rightarrow> string" where
  "convert_byte_array_to_string array = (case array of None \<Rightarrow> ''['' | Some a \<Rightarrow> byte_loop a 0 ''['') @ '']''"

section \<open>Hexadecimal strings\<close>

definition hex_lower :: "nat \<Rightarrow> char" where
  "hex_lower n = ''0123456789abcdef'' ! n"

text \<open>\<open>None\<close> where an argument is refused; \<open>final_len\<close> cuts the string when it is not negative.\<close>

definition utils_bin2hexstr :: "u8 list option \<Rightarrow> int \<Rightarrow> string option" where
  "utils_bin2hexstr bytes final_len =
     (case bytes of
        None \<Rightarrow> None
      | Some bs \<Rightarrow>
          if length bs = 0 then None
          else if length bs \<ge> 4096 then None
          else if final_len > - 1 \<and> final_len \<ge> int (length bs) * 2 + 1 then None
          else (let text = concat (map (\<lambda>b. [hex_lower (unat b div 16), hex_lower (unat b mod 16)]) bs)
                in Some (if final_len > - 1 then take (nat final_len) text else text)))"

section \<open>Character encodings\<close>

definition lang_encodings5 :: "(string \<times> string \<times> cstr \<times> cstr) list" where
  "lang_encodings5 =
     [(''zh_cn'', ''euc-cn'', Some ''gb2312'', Some ''gb18030''), (''zh_sg'', ''euc-cn'', Some ''gb2312'', Some ''gb18030''),
      (''zh_tw'', ''big5'', Some ''euc-tw'', None), (''zh_hk'', ''big5'', Some ''euc-tw'', Some ''big5-hkcs''),
      (''zh_mo'', ''big5'', Some ''euc-tw'', None)]"

definition lang_encodings2 :: "(string \<times> string \<times> cstr \<times> cstr) list" where
  "lang_encodings2 =
     [(''ja'', ''euc-jp'', Some ''shift_jis'', Some ''iso-2022-jp''), (''ko'', ''euc-kr'', Some ''iso-2022-kr'', Some ''johab''),
      (''th'', ''iso-8859-11'', Some ''windows-874'', None)]
     @ map (\<lambda>lang. (lang, ''iso-8859-2'', Some ''windows-1250'', None)) [''hu'', ''cs'', ''hr'', ''pl'', ''ro'', ''sk'', ''sl'', ''sh'']
     @ [(''ru'', ''koi8-r'', Some ''windows-1251'', Some ''iso-8859-5''), (''be'', ''koi8-r'', Some ''windows-1251'', Some ''iso-8859-5''),
        (''bg'', ''windows-1251'', Some ''koi8-r'', Some ''iso-8859-5''), (''mk'', ''koi8-r'', Some ''windows-1251'', Some ''iso-8859-5''),
        (''sr'', ''koi8-r'', Some ''windows-1251'', Some ''iso-8859-5''), (''uk'', ''koi8-u'', Some ''koi8-r'', Some ''windows-1251''),
        (''ar'', ''iso-8859-6'', Some ''windows-1256'', None)]
     @ map (\<lambda>lang. (lang, ''iso-8859-4'', Some ''windows-1257'', None)) [''et'', ''lt'', ''lv'']
     @ [(''el'', ''iso-8859-7'', Some ''windows-1253'', None), (''he'', ''iso-8859-8'', Some ''windows-1255'', None),
        (''iw'', ''iso-8859-8'', Some ''windows-1255'', None), (''tr'', ''iso-8859-9'', Some ''windows-1254'', None)]"

definition get_encodings_for_lang :: "string \<Rightarrow> bool \<times> string \<times> cstr \<times> cstr" where
  "get_encodings_for_lang lang =
     (case map_of lang_encodings5 lang of
        Some e \<Rightarrow> (True, e)
      | None \<Rightarrow>
          (case map_of lang_encodings2 (if length lang > 2 then take 2 lang else lang) of
             Some e \<Rightarrow> (True, e)
           | None \<Rightarrow> (False, ''iso-8859-1'', Some ''windows-1251'', None)))"

text \<open>\<open>validate\<close> and \<open>convert\<close> are GLib's; \<open>charset\<close> is the locale's, \<open>lang\<close> the variable \<^verbatim>\<open>LANG\<close>.\<close>

definition string_to_utf8 ::
  "(string \<Rightarrow> bool) \<Rightarrow> (string \<Rightarrow> string \<Rightarrow> cstr) \<Rightarrow> (string \<Rightarrow> string \<Rightarrow> cstr) \<Rightarrow> string \<Rightarrow> cstr \<Rightarrow> string \<Rightarrow> cstr" where
  "string_to_utf8 validate convert with_fallback charset lang str =
     (if validate str then Some str
      else case (case lang of
                   None \<Rightarrow> (charset, None, None)
                 | Some l \<Rightarrow> snd (get_encodings_for_lang (takeWhile (\<lambda>c. c \<noteq> CHR ''.'') (map ascii_tolower l)))) of
             (e1, e2, e3) \<Rightarrow>
               (case convert str e1 of
                  Some c \<Rightarrow> Some c
                | None \<Rightarrow>
                    (case (case e2 of None \<Rightarrow> None | Some e \<Rightarrow> convert str e) of
                       Some c \<Rightarrow> Some c
                     | None \<Rightarrow>
                         (case (case e3 of None \<Rightarrow> None | Some e \<Rightarrow> convert str e) of
                            Some c \<Rightarrow> Some c
                          | None \<Rightarrow> with_fallback str e1))))"

section \<open>Lemmas\<close>

lemma string_in_list: "bm_utils_string_in_list str valid \<longleftrightarrow> str \<in> set valid"
  by (induction valid) (simp_all add: strcmp_eq_0)

lemma slist_validate: "bm_utils_string_slist_validate list valid \<longleftrightarrow> set list \<subseteq> set valid"
  by (induction list) (simp_all add: string_in_list)

lemma append_loop: "foldl (\<lambda>array s. array @ [s]) xs ys = xs @ ys"
  by (induction ys arbitrary: xs) simp_all

lemma prepend_loop: "foldl (\<lambda>list s. s # list) xs ys = rev ys @ xs"
  by (induction ys arbitrary: xs) simp_all

lemma hash_dup_same: "gh_wf h \<Longrightarrow> gh_foreach value_dup h [] = h"
proof (induction h rule: rev_induct)
  case (snoc x h)
  obtain k v where x: "x = (k, v)"
    by fastforce
  have h: "gh_wf h" "gh_lookup h k = None"
    using snoc.prems by (auto simp: gh_wf_def gh_keys_def x gh_lookup_def map_of_eq_None_iff)
  then show ?case
    using snoc.IH by (simp add: gh_foreach_def value_dup_def x gh_insert_new)
qed (simp add: gh_foreach_def)

lemma join_with_step: "join_with sep (x # xs) = x @ (if xs = [] then [] else sep @ join_with sep xs)"
  by (cases xs) simp_all

text \<open>The loops are joins.\<close>

lemma slist_text: "strings \<noteq> [] \<Longrightarrow>
  slist_loop is_first strings printable = printable @ (if is_first then [] else '', '') @ join_with '', '' (map quoted strings)"
proof (induction strings arbitrary: is_first printable)
  case (Cons s strings)
  then show ?case
    by (cases "strings = []") (simp_all add: quoted_def join_with_step)
qed simp

lemma array_text: "strings \<noteq> [] \<Longrightarrow>
  array_loop strings i printable = printable @ (if i = 0 then [] else '', '') @ join_with '', '' (map quoted strings)"
proof (induction strings arbitrary: i printable)
  case (Cons s strings)
  then show ?case
    by (cases "strings = []") (simp_all add: quoted_def join_with_step)
qed simp

lemma byte_loop_text: "bs \<noteq> [] \<Longrightarrow> i + length bs \<le> 35 \<Longrightarrow>
  byte_loop bs i printable = printable @ (if i = 0 then [] else '' '') @ join_with '' '' (map byte_text bs)"
proof (induction bs arbitrary: i printable)
  case (Cons b bs)
  then show ?case
    by (cases "bs = []") (simp_all add: join_with_step)
qed simp

lemma join_with_inj:
  assumes "\<forall>x \<in> set xs. length x = n" "\<forall>y \<in> set ys. length y = n" "0 < n" "join_with sep xs = join_with sep ys"
  shows "xs = ys"
  using assms
proof (induction xs arbitrary: ys)
  case Nil
  then show ?case
    by (cases ys) (auto simp: join_with_step)
next
  case (Cons x xs)
  then obtain y ys' where ys: "ys = y # ys'"
    by (cases ys) (auto simp: join_with_step)
  have "x @ (if xs = [] then [] else sep @ join_with sep xs) = y @ (if ys' = [] then [] else sep @ join_with sep ys')"
    using Cons.prems(4) by (simp only: ys join_with_step)
  then have eq: "x = y" "(if xs = [] then [] else sep @ join_with sep xs) = (if ys' = [] then [] else sep @ join_with sep ys')"
    using Cons.prems(1,2) ys by simp_all
  have "join_with sep zs = [] \<longleftrightarrow> zs = []" if "\<forall>z \<in> set zs. length z = n" for zs
    using that assms(3) by (cases zs) (auto simp: join_with_step)
  then have "join_with sep xs = join_with sep ys'"
    using eq(2) Cons.prems(1,2) ys by (auto split: if_splits)
  then have "xs = ys'"
    using Cons.IH [of ys'] Cons.prems(1-3) ys by simp
  then show ?case
    by (simp add: ys eq(1))
qed

lemma hex_digits_distinct: "distinct ''0123456789ABCDEF''" "distinct ''0123456789abcdef''"
  by code_simp+

lemma hex_digits_inj:
  assumes "n < 16" "m < 16"
  shows "''0123456789ABCDEF'' ! n = ''0123456789ABCDEF'' ! m \<Longrightarrow> n = m" "''0123456789abcdef'' ! n = ''0123456789abcdef'' ! m \<Longrightarrow> n = m"
proof -
  have "length ''0123456789ABCDEF'' = 16" "length ''0123456789abcdef'' = 16"
    by simp_all
  note index = nth_eq_iff_index_eq [OF hex_digits_distinct(1), unfolded this(1), OF assms]
    nth_eq_iff_index_eq [OF hex_digits_distinct(2), unfolded this(2), OF assms]
  show "''0123456789ABCDEF'' ! n = ''0123456789ABCDEF'' ! m \<Longrightarrow> n = m"
    by (rule iffD1 [OF index(1)])
  show "''0123456789abcdef'' ! n = ''0123456789abcdef'' ! m \<Longrightarrow> n = m"
    by (rule iffD1 [OF index(2)])
qed

lemma byte_digits: "(b :: u8) = c \<longleftrightarrow> unat b div 16 = unat c div 16 \<and> unat b mod 16 = unat c mod 16"
  by (metis div_mult_mod_eq unsigned_word_eqI)

lemma byte_div: "unat (b :: u8) div 16 < 16"
  using unsigned_less [where w = b and 'a = nat] by (simp add: less_mult_imp_div_less)

lemma byte_text_inj: "byte_text b = byte_text c \<longleftrightarrow> b = c"
  using hex_digits_inj(1) [OF byte_div byte_div, of b c] hex_digits_inj(1) [of "unat b mod 16" "unat c mod 16"]
  by (auto simp: byte_text_def hex_upper_def byte_digits)

lemma byte_array_text:
  assumes "length bs \<le> 35"
  shows "convert_byte_array_to_string (Some bs) = ''['' @ join_with '' '' (map byte_text bs) @ '']''"
  using byte_loop_text [of bs 0 "''[''"] assms by (cases "bs = []") (simp_all add: convert_byte_array_to_string_def)

text \<open>Text of values: two byte arrays of at most 35 bytes have the same text only if they are equal; of a longer one only the first 35
  bytes count, and the ellipsis tells it from a shorter one; a list of strings and an array of strings have the same text.\<close>

theorem byte_array_text_faithful:
  assumes "length as \<le> 35" "length bs \<le> 35"
  shows "(convert_byte_array_to_string (Some as) = convert_byte_array_to_string (Some bs)) = (as = bs) \<and>
    convert_strv_to_string (convert_strv_to_slist str) = convert_string_array_to_string (Some (convert_strv_to_ptrarray str))"
proof
  have "convert_byte_array_to_string (Some as) = convert_byte_array_to_string (Some bs) \<longleftrightarrow>
      join_with '' '' (map byte_text as) = join_with '' '' (map byte_text bs)"
    by (simp add: byte_array_text assms)
  also have "\<dots> \<longleftrightarrow> map byte_text as = map byte_text bs"
    using join_with_inj [of "map byte_text as" 4 "map byte_text bs" "'' ''"] by (auto simp: byte_text_def)
  also have "\<dots> \<longleftrightarrow> as = bs"
    by (rule inj_map_eq_map) (simp add: inj_def byte_text_inj)
  finally show "(convert_byte_array_to_string (Some as) = convert_byte_array_to_string (Some bs)) = (as = bs)" .
  define strs where "strs = (case str of None \<Rightarrow> [] | Some strs \<Rightarrow> strs)"
  have "convert_strv_to_slist str = strs" "convert_strv_to_ptrarray str = strs"
    by (simp_all add: convert_strv_to_slist_def convert_strv_to_ptrarray_def prepend_loop append_loop strs_def)
  then show "convert_strv_to_string (convert_strv_to_slist str) = convert_string_array_to_string (Some (convert_strv_to_ptrarray str))"
    by (cases "strs = []") (simp_all add: convert_strv_to_string_def convert_string_array_to_string_def slist_text array_text)
qed

theorem byte_array_text_faithful_witness:
  "convert_byte_array_to_string (Some [0, 26]) \<noteq> convert_byte_array_to_string (Some [0, 27])"
  using byte_array_text_faithful [of "[0, 26]" "[0, 27]"] by simp

text \<open>A hexadecimal string tells the bytes.\<close>

lemma hexstr_inj:
  assumes "utils_bin2hexstr (Some as) (- 1) = Some t" "utils_bin2hexstr (Some bs) (- 1) = Some t"
  shows "as = bs"
proof -
  let ?f = "\<lambda>b :: u8. [hex_lower (unat b div 16), hex_lower (unat b mod 16)]"
  have f: "?f b = ?f c \<longleftrightarrow> b = c" for b c
    using hex_digits_inj(2) [OF byte_div byte_div, of b c] hex_digits_inj(2) [of "unat b mod 16" "unat c mod 16"]
    by (auto simp: hex_lower_def byte_digits)
  have "concat (map ?f as) = concat (map ?f bs)"
    using assms by (auto simp: utils_bin2hexstr_def Let_def split: if_splits)
  moreover have "concat (map ?f xs) = concat (map ?f ys) \<Longrightarrow> xs = ys" for xs ys
  proof (induction xs arbitrary: ys)
    case (Cons x xs)
    then show ?case
      using f [of x] by (cases ys) auto
  next
    case Nil
    then show ?case
      by (cases ys) auto
  qed
  ultimately show ?thesis
    by blast
qed

text \<open>Arrays of fewer than two words leave a brace open.\<close>

lemma invalid_struct_leaves_brace: "convert_ip4_structs_to_string (Some [[1]]) = ''[{ invalid]''"
  by (simp add: convert_ip4_structs_to_string_def struct_text_def)

lemma chinese_encodings: "get_encodings_for_lang ''zh_hk'' = (True, ''big5'', Some ''euc-tw'', Some ''big5-hkcs'')"
  "get_encodings_for_lang ''de_de'' = (False, ''iso-8859-1'', Some ''windows-1251'', None)"
  by (simp_all add: get_encodings_for_lang_def lang_encodings5_def lang_encodings2_def)

end
