(* ===== verification/GConf_Settings.thy ===== *)
theory GConf_Settings
  imports Settings_Service GConf_Roundtrip
begin

text \<open>
  The applet's settings service, \<^verbatim>\<open>src/gconf-helpers/bma-gconf-settings.c\<close> and \<^verbatim>\<open>bma-gconf-connection.c\<close> of the applet:
  an exported connection for each directory of GConf, kept up to date with GConf's notifications, and the
  requests of the bus on it.  The service extends the record of \<open>Settings_Service\<close>; its connections are objects of the heap there,
  of which the fields of an exported connection are used.  GConf's client is the parameter \<open>G\<close>, \<open>gs_db\<close> its database.
\<close>

section \<open>State\<close>

text \<open>\<open>gs_dir\<close> is the directory of each object; \<open>gs_pending\<close> the directories with a change that waits for its idle
  source; \<open>gs_read_connections\<close> tells whether the first reading is still scheduled.\<close>

record 'g gconf_settings = service +
  gs_db :: 'g
  gs_dir :: "nat \<Rightarrow> string"
  gs_connections :: "nat list"
  gs_next :: nat
  gs_read_connections :: bool
  gs_pending :: "string list"

section \<open>One connection\<close>

text \<open>The object is new, with the user scope, and takes the settings of the connection; a failure of that is a failed
  assertion, as the connection has been verified.\<close>

definition gconf_connection_new_from_connection :: "numbering \<Rightarrow> transform \<Rightarrow> connection \<Rightarrow> sys_connection option checked" where
  "gconf_connection_new_from_connection gt tr connection =
     (case bm_connection_verify connection of
        Inl _ \<Rightarrow> Returned None
      | Inr _ \<Rightarrow>
          (let settings = (case bm_connection_to_hash gt connection of Some h \<Rightarrow> h | None \<Rightarrow> gh_new);
               self = bm_connection_set_scope BM_CONNECTION_SCOPE_USER bm_connection_new
           in case bm_connection_replace_settings tr settings self of
                (_, Inl _) \<Rightarrow> Assertion_Violated
              | (c, Inr _) \<Rightarrow> Returned (Some (bm_sysconfig_connection_init False c))))"

definition gconf_connection_new ::
  "numbering \<Rightarrow> transform \<Rightarrow> 'g gconf_client \<Rightarrow> (string \<Rightarrow> bool) \<Rightarrow> 'g \<Rightarrow> string \<Rightarrow> sys_connection option checked" where
  "gconf_connection_new gt tr G stale g conf_dir =
     (case bm_gconf_read_connection tr G stale g conf_dir of
        None \<Rightarrow> Returned None
      | Some connection \<Rightarrow> gconf_connection_new_from_connection gt tr connection)"

text \<open>A change of the directory: whether the connection is still valid, and the object with the signal it emits.\<close>

definition gconf_connection_gconf_changed ::
  "numbering \<Rightarrow> transform \<Rightarrow> 'g gconf_client \<Rightarrow> (string \<Rightarrow> bool) \<Rightarrow> 'g \<Rightarrow> string \<Rightarrow> sys_connection \<Rightarrow> bool \<times> sys_connection" where
  "gconf_connection_gconf_changed gt tr G stale g dir self =
     (case bm_gconf_read_connection tr G stale g dir of
        None \<Rightarrow> (False, sc_emit REMOVED self)
      | Some new \<Rightarrow>
          (case bm_connection_verify new of
             Inl _ \<Rightarrow> (False, sc_emit REMOVED self)
           | Inr _ \<Rightarrow>
               if bm_connection_compare gt (Some (sc_conn self)) (Some new) FLAG_EXACT then (True, self)
               else
                 (let new_settings = (case bm_connection_to_hash gt new of Some h \<Rightarrow> h | None \<Rightarrow> gh_new)
                  in case bm_connection_replace_settings tr new_settings (sc_conn self) of
                       (c, Inl _) \<Rightarrow> (False, sc_emit REMOVED (self\<lparr>sc_conn := c\<rparr>))
                     | (c, Inr _) \<Rightarrow> (True, bm_settings_connection_interface_emit_updated gt tr (self\<lparr>sc_conn := c\<rparr>)))))"

text \<open>Writing to GConf, which the applet asks for after it has stamped a connection.\<close>

definition gconf_connection_update ::
  "numbering \<Rightarrow> 'g gconf_client \<Rightarrow> bool \<Rightarrow> bool option \<Rightarrow> connection \<Rightarrow> string \<Rightarrow> bool \<Rightarrow> bool \<Rightarrow> bool \<Rightarrow> 'g \<Rightarrow> 'g \<times> keyring_call list" where
  "gconf_connection_update gt G callback locked self dir ignore_secrets ia ip g =
     bm_gconf_write_connection gt G callback locked self dir ignore_secrets ia ip g"

section \<open>Requests on the bus\<close>

text \<open>The sender, whether there is a system bus, the user of the sender or an error, the user of the applet.\<close>

record dbus_caller =
  dc_sender :: cstr
  dc_bus :: bool
  dc_uid :: "nat option"
  dc_euid :: nat

definition is_dbus_request_authorized :: "dbus_caller \<Rightarrow> bool \<Rightarrow> settings_error option" where
  "is_dbus_request_authorized caller allow_user =
     (if dc_sender caller = None then Some BM_SETTINGS_INTERFACE_ERROR_INTERNAL_ERROR
      else if \<not> dc_bus caller then Some BM_SETTINGS_INTERFACE_ERROR_INTERNAL_ERROR
      else case dc_uid caller of
             None \<Rightarrow> Some BM_SETTINGS_INTERFACE_ERROR_PERMISSION_DENIED
           | Some sender_uid \<Rightarrow>
               if (allow_user \<and> sender_uid = dc_euid caller) \<or> sender_uid = 0 then None
               else Some BM_SETTINGS_INTERFACE_ERROR_PERMISSION_DENIED)"

definition con_reply :: "nat \<Rightarrow> settings_error option \<Rightarrow> sys_connection \<Rightarrow> sys_connection" where
  "con_reply ctx error st = sc_emit (case error of Some e \<Rightarrow> REPLY_ERROR ctx e | None \<Rightarrow> REPLY ctx) st"

text \<open>The class does not implement the interface's \<^verbatim>\<open>update\<close>, so the exported connection's is called, which emits a signal.\<close>

definition gconf_dbus_update ::
  "numbering \<Rightarrow> transform \<Rightarrow> dbus_caller \<Rightarrow> settings_hash \<Rightarrow> nat \<Rightarrow> sys_connection \<Rightarrow> sys_connection checked" where
  "gconf_dbus_update gt tr caller new_settings ctx self =
     (case is_dbus_request_authorized caller True of
        Some e \<Rightarrow> Returned (sc_emit (REPLY_ERROR ctx e) self)
      | None \<Rightarrow>
          (case bm_connection_new_from_hash tr new_settings of
             Inl e \<Rightarrow> Returned (sc_emit (REPLY_ERROR ctx (Settings_Error e)) self)
           | Inr _ \<Rightarrow>
               (case bm_connection_replace_settings tr new_settings (sc_conn self) of
                  (_, Inl _) \<Rightarrow> Assertion_Violated
                | (c, Inr _) \<Rightarrow> Returned (connection_update gt tr (con_reply ctx) (self\<lparr>sc_conn := c\<rparr>)))))"

text \<open>Whether the connection was removed.\<close>

definition gconf_dbus_delete :: "dbus_caller \<Rightarrow> nat \<Rightarrow> sys_connection \<Rightarrow> bool \<times> sys_connection" where
  "gconf_dbus_delete caller ctx self =
     (case is_dbus_request_authorized caller True of
        Some e \<Rightarrow> (False, sc_emit (REPLY_ERROR ctx e) self)
      | None \<Rightarrow> (True, do_delete (con_reply ctx) self))"

section \<open>The service\<close>

definition gs_connection_removed :: "nat \<Rightarrow> 'g gconf_settings \<Rightarrow> 'g gconf_settings" where
  "gs_connection_removed obj s = s\<lparr>gs_connections := remove1 obj (gs_connections s)\<rparr>"

definition gs_update_object :: "nat \<Rightarrow> sys_connection \<Rightarrow> 'g gconf_settings \<Rightarrow> 'g gconf_settings" where
  "gs_update_object obj st s = s\<lparr>sv_heap := (sv_heap s)(obj := st)\<rparr>"

definition internal_add_connection :: "nat \<Rightarrow> 'g gconf_settings \<Rightarrow> 'g gconf_settings" where
  "internal_add_connection obj s =
     (let s = s\<lparr>gs_connections := obj # gs_connections s\<rparr>;
          s = (if sv_bus s then bm_settings_service_export_connection obj s else s)
      in sv_emit (NEW_CONNECTION obj) s)"

text \<open>The new object, if there is one, takes the next number.\<close>

definition gs_new_object ::
  "sys_connection option checked \<Rightarrow> string \<Rightarrow> 'g gconf_settings \<Rightarrow> (nat option \<times> 'g gconf_settings) checked" where
  "gs_new_object made dir s =
     (case made of
        Returned None \<Rightarrow> Returned (None, s)
      | Returned (Some st) \<Rightarrow>
          (let obj = gs_next s;
               s = s\<lparr>sv_heap := (sv_heap s)(obj := st), gs_dir := (gs_dir s)(obj := dir), gs_next := obj + 1\<rparr>
           in Returned (Some obj, internal_add_connection obj s))
      | Assertion_Violated \<Rightarrow> Assertion_Violated
      | Null_Dereferenced \<Rightarrow> Null_Dereferenced)"

text \<open>The first number from \<open>i + 1\<close> on whose directory does not exist; the number is printed as a signed one.\<close>

definition gconf_numbered_dir :: "nat \<Rightarrow> string" where
  "gconf_numbered_dir i = GCONF_PATH_CONNECTIONS @ ''/'' @ print_int (sint (of_nat i :: u32))"

function find_free_dir :: "('g \<Rightarrow> string \<Rightarrow> bool) \<Rightarrow> 'g \<Rightarrow> nat \<Rightarrow> string option" where
  "find_free_dir dir_exists g i =
     (if i < 0xFFFFFFFF
      then if \<not> dir_exists g (gconf_numbered_dir (i + 1)) then Some (gconf_numbered_dir (i + 1)) else find_free_dir dir_exists g (i + 1)
      else None)"
  by pat_completeness auto
termination
  by (relation "measure (\<lambda>(_, _, i). 0xFFFFFFFF - i)") auto

declare find_free_dir.simps [simp del]

definition gconf_settings_add_connection ::
  "numbering \<Rightarrow> transform \<Rightarrow> ('g \<Rightarrow> string \<Rightarrow> bool) \<Rightarrow> connection \<Rightarrow> 'g gconf_settings \<Rightarrow> (nat option \<times> 'g gconf_settings) checked" where
  "gconf_settings_add_connection gt tr dir_exists connection s =
     (case find_free_dir dir_exists (gs_db s) 0 of
        None \<Rightarrow> Returned (None, s)
      | Some path \<Rightarrow>
          (case gs_new_object (gconf_connection_new_from_connection gt tr connection) path s of
             Returned (Some obj, s) \<Rightarrow>
               Returned (Some obj, gs_update_object obj (connection_update gt tr (\<lambda>_ st. st) (sv_heap s obj)) s)
           | r \<Rightarrow> r))"

definition gconf_add_connection ::
  "numbering \<Rightarrow> transform \<Rightarrow> ('g \<Rightarrow> string \<Rightarrow> bool) \<Rightarrow> connection \<Rightarrow> nat option \<Rightarrow> add_callback \<Rightarrow> 'g gconf_settings \<Rightarrow> 'g gconf_settings checked" where
  "gconf_add_connection gt tr dir_exists connection invocation callback s =
     (case invocation of
        Some _ \<Rightarrow> Returned (add_callback_run callback (Some (BM_SYSCONFIG_SETTINGS_ERROR_ADD_FAILED
          (Some ''add_connection: adding connections via D-Bus is not (yet) supported''))) s)
      | None \<Rightarrow>
          (case gconf_settings_add_connection gt tr dir_exists connection s of
             Returned (_, s) \<Rightarrow> Returned (add_callback_run callback None s)
           | Assertion_Violated \<Rightarrow> Assertion_Violated
           | Null_Dereferenced \<Rightarrow> Null_Dereferenced))"

fun find_gconf_path :: "(nat \<Rightarrow> string) \<Rightarrow> nat list \<Rightarrow> string \<Rightarrow> nat option" where
  "find_gconf_path dirs [] path = None"
| "find_gconf_path dirs (obj # iter) path = (if strcmp (dirs obj) path = 0 then Some obj else find_gconf_path dirs iter path)"

definition get_connection_by_gconf_path :: "'g gconf_settings \<Rightarrow> string \<Rightarrow> nat option" where
  "get_connection_by_gconf_path s path = find_gconf_path (gs_dir s) (gs_connections s) path"

fun read_dirs ::
  "numbering \<Rightarrow> transform \<Rightarrow> 'g gconf_client \<Rightarrow> (string \<Rightarrow> bool) \<Rightarrow> string list \<Rightarrow> 'g gconf_settings \<Rightarrow> 'g gconf_settings checked" where
  "read_dirs gt tr G stale [] s = Returned s"
| "read_dirs gt tr G stale (dir # dirs) s =
     (case gs_new_object (gconf_connection_new gt tr G stale (gs_db s) dir) dir s of
        Returned (_, s) \<Rightarrow> read_dirs gt tr G stale dirs s
      | Assertion_Violated \<Rightarrow> Assertion_Violated
      | Null_Dereferenced \<Rightarrow> Null_Dereferenced)"

definition read_connections ::
  "numbering \<Rightarrow> transform \<Rightarrow> 'g gconf_client \<Rightarrow> (string \<Rightarrow> bool) \<Rightarrow> 'g gconf_settings \<Rightarrow> 'g gconf_settings checked" where
  "read_connections gt tr G stale s =
     (case bm_gconf_get_all_connections G (gs_db s) of
        (dir_list, g) \<Rightarrow>
          if dir_list = [] then Returned (s\<lparr>gs_db := g\<rparr>)
          else (case read_dirs gt tr G stale dir_list (s\<lparr>gs_db := g\<rparr>) of
                  Returned s \<Rightarrow> Returned (s\<lparr>gs_connections := rev (gs_connections s)\<rparr>)
                | r \<Rightarrow> r))"

definition read_connections_cb ::
  "numbering \<Rightarrow> transform \<Rightarrow> 'g gconf_client \<Rightarrow> (string \<Rightarrow> bool) \<Rightarrow> 'g gconf_settings \<Rightarrow> 'g gconf_settings checked" where
  "read_connections_cb gt tr G stale s = read_connections gt tr G stale (s\<lparr>gs_read_connections := False\<rparr>)"

definition gconf_list_connections ::
  "numbering \<Rightarrow> transform \<Rightarrow> 'g gconf_client \<Rightarrow> (string \<Rightarrow> bool) \<Rightarrow> 'g gconf_settings \<Rightarrow> (nat list \<times> 'g gconf_settings) checked" where
  "gconf_list_connections gt tr G stale s =
     (case (if gs_read_connections s then read_connections gt tr G stale (s\<lparr>gs_read_connections := False\<rparr>) else Returned s) of
        Returned s \<Rightarrow> Returned (gs_connections s, s)
      | Assertion_Violated \<Rightarrow> Assertion_Violated
      | Null_Dereferenced \<Rightarrow> Null_Dereferenced)"

text \<open>The change of a directory is handled when its idle source runs.\<close>

definition connection_changes_done ::
  "numbering \<Rightarrow> transform \<Rightarrow> 'g gconf_client \<Rightarrow> (string \<Rightarrow> bool) \<Rightarrow> string \<Rightarrow> 'g gconf_settings \<Rightarrow> 'g gconf_settings checked" where
  "connection_changes_done gt tr G stale path s =
     (case (case get_connection_by_gconf_path s path of
              None \<Rightarrow>
                (case gs_new_object (gconf_connection_new gt tr G stale (gs_db s) path) path s of
                   Returned (_, s) \<Rightarrow> Returned s
                 | Assertion_Violated \<Rightarrow> Assertion_Violated
                 | Null_Dereferenced \<Rightarrow> Null_Dereferenced)
            | Some obj \<Rightarrow>
                (case gconf_connection_gconf_changed gt tr G stale (gs_db s) (gs_dir s obj) (sv_heap s obj) of
                   (True, st) \<Rightarrow> Returned (gs_update_object obj st s)
                 | (False, st) \<Rightarrow>
                     (let s = gs_connection_removed obj (gs_update_object obj st s)
                      in Returned (s\<lparr>gs_connections := remove1 obj (gs_connections s)\<rparr>)))) of
        Returned s \<Rightarrow> Returned (s\<lparr>gs_pending := remove1 path (gs_pending s)\<rparr>)
      | r \<Rightarrow> r)"

definition connections_changed_cb :: "string \<Rightarrow> 'g gconf_settings \<Rightarrow> 'g gconf_settings" where
  "connections_changed_cb key s =
     (let dirs = strsplit_set ''/'' key
      in if length dirs < 5 then s
         else if dirs ! 0 \<noteq> [] \<or> dirs ! 1 \<noteq> ''system'' \<or> dirs ! 2 \<noteq> ''networking'' \<or> dirs ! 3 \<noteq> ''connections'' then s
         else let path = ''/'' @ dirs ! 1 @ ''/'' @ dirs ! 2 @ ''/'' @ dirs ! 3 @ ''/'' @ dirs ! 4
              in if path \<in> set (gs_pending s) then s else s\<lparr>gs_pending := path # gs_pending s\<rparr>)"

text \<open>The new service: its first reading is scheduled.\<close>

definition gconf_settings_new :: "bool \<Rightarrow> 'g \<Rightarrow> 'g gconf_settings" where
  "gconf_settings_new bus g =
     \<lparr>sv_bus = bus, sv_scope = BM_CONNECTION_SCOPE_USER, sv_exported = False, sv_disposed = False, sv_counter = 0,
      sv_heap = (\<lambda>_. bm_sysconfig_connection_init False bm_connection_new), sv_out = [], gs_db = g, gs_dir = (\<lambda>_. []), gs_connections = [],
      gs_next = 0, gs_read_connections = True, gs_pending = []\<rparr>"

definition gs_dispose :: "'g gconf_settings \<Rightarrow> 'g gconf_settings" where
  "gs_dispose s =
     (if sv_disposed s then s
      else s\<lparr>sv_disposed := True, gs_pending := [], gs_read_connections := False, gs_connections := []\<rparr>)"

section \<open>Lemmas\<close>

lemma to_hash_replaced:
  assumes "inj gt" "connection_ok d" "bm_connection_verify d = Inr ()"
  shows "\<exists>c'. bm_connection_replace_settings tr (case bm_connection_to_hash gt d of Some h \<Rightarrow> h | None \<Rightarrow> gh_new) c = (c', Inr ()) \<and>
    connection_wf c' \<and> same_settings c' d \<and> conn_path c' = conn_path c"
  using replace_by_valid [OF assms to_hash_valid [OF assms(2,3), of gt], of tr c] to_hash_valid [OF assms(2,3), of gt] by auto

lemma new_from_valid:
  assumes "inj gt" "connection_ok d" "bm_connection_verify d = Inr ()"
  shows "\<exists>st. gconf_connection_new_from_connection gt tr d = Returned (Some st) \<and> connection_wf (sc_conn st) \<and> same_settings (sc_conn st) d"
  using to_hash_replaced [OF assms, of tr "bm_connection_set_scope BM_CONNECTION_SCOPE_USER bm_connection_new"]
  by (auto simp: gconf_connection_new_from_connection_def assms(3) Let_def bm_sysconfig_connection_init_def)

lemma changed_valid:
  assumes "inj gt" "connection_wf (sc_conn self)" "bm_gconf_read_connection tr G stale g dir = Some d"
    and d: "connection_ok d" "bm_connection_verify d = Inr ()"
  shows "\<exists>st. gconf_connection_gconf_changed gt tr G stale g dir self = (True, st) \<and> connection_wf (sc_conn st) \<and>
    same_settings (sc_conn st) d"
proof (cases "bm_connection_compare gt (Some (sc_conn self)) (Some d) FLAG_EXACT")
  case True
  have "connection_wf d"
    using d(1) by (simp add: connection_ok_def)
  then have "same_settings (sc_conn self) d"
    using True compare_exact [OF assms(1,2)] by blast
  then show ?thesis
    using True assms by (simp add: gconf_connection_gconf_changed_def)
next
  case False
  then show ?thesis
    using to_hash_replaced [OF assms(1) d, of tr "sc_conn self"] assms(3) d(2)
    by (auto simp: gconf_connection_gconf_changed_def Let_def)
qed

lemma changed_invalid:
  assumes "\<nexists>d. bm_gconf_read_connection tr G stale g dir = Some d \<and> bm_connection_verify d = Inr ()"
  shows "gconf_connection_gconf_changed gt tr G stale g dir self = (False, sc_emit REMOVED self)"
proof (cases "bm_gconf_read_connection tr G stale g dir")
  case (Some d)
  then obtain e where "bm_connection_verify d = Inl e"
    using assms by (cases "bm_connection_verify d") auto
  then show ?thesis
    by (simp add: gconf_connection_gconf_changed_def Some)
qed (simp add: gconf_connection_gconf_changed_def)

text \<open>The list is free of directories that occur twice, its objects have been made.\<close>

definition gs_ok :: "'g gconf_settings \<Rightarrow> bool" where
  "gs_ok s \<longleftrightarrow> distinct (map (gs_dir s) (gs_connections s)) \<and>
     (\<forall>obj \<in> set (gs_connections s). obj < gs_next s \<and> connection_wf (sc_conn (sv_heap s obj)))"

lemma find_gconf_path:
  "find_gconf_path dirs objs path = None \<longleftrightarrow> path \<notin> dirs ` set objs"
  "find_gconf_path dirs objs path = Some obj \<Longrightarrow> obj \<in> set objs \<and> dirs obj = path"
  by (induction objs) (auto simp: strcmp_eq_0 split: if_splits)

lemma internal_add:
  "gs_connections (internal_add_connection obj s) = obj # gs_connections s"
  "gs_dir (internal_add_connection obj s) = gs_dir s" "gs_next (internal_add_connection obj s) = gs_next s"
  "gs_db (internal_add_connection obj s) = gs_db s" "gs_pending (internal_add_connection obj s) = gs_pending s"
  "obj' \<noteq> obj \<Longrightarrow> sv_heap (internal_add_connection obj s) obj' = sv_heap s obj'"
  "bm_connection_get_setting (sc_conn (sv_heap (internal_add_connection obj s) obj)) = bm_connection_get_setting (sc_conn (sv_heap s obj))"
  "connection_wf (sc_conn (sv_heap (internal_add_connection obj s) obj)) = connection_wf (sc_conn (sv_heap s obj))"
  by (auto simp: internal_add_connection_def bm_settings_service_export_connection_def sv_emit_def Let_def fun_eq_iff
      connection_wf_def bm_connection_set_scope_def bm_connection_set_path_def bm_connection_get_setting_def)

text \<open>What the list says of one directory, and that it says the same of others.\<close>

definition shown :: "'g gconf_settings \<Rightarrow> string \<Rightarrow> connection \<Rightarrow> bool" where
  "shown s path d \<longleftrightarrow> (\<exists>obj \<in> set (gs_connections s). gs_dir s obj = path \<and> same_settings (sc_conn (sv_heap s obj)) d)"

definition others_kept :: "string \<Rightarrow> 'g gconf_settings \<Rightarrow> 'g gconf_settings \<Rightarrow> bool" where
  "others_kept path s s' \<longleftrightarrow>
     (\<forall>p. p \<noteq> path \<longrightarrow> (p \<in> gs_dir s' ` set (gs_connections s') \<longleftrightarrow> p \<in> gs_dir s ` set (gs_connections s)) \<and>
        (\<forall>d. shown s p d \<longleftrightarrow> shown s' p d)) \<and> gs_db s' = gs_db s"

lemma new_object_shown:
  assumes ok: "gs_ok s" and path: "path \<notin> gs_dir s ` set (gs_connections s)"
    and st: "connection_wf (sc_conn st)" "same_settings (sc_conn st) d"
  shows "\<exists>s'. gs_new_object (Returned (Some st)) path s = Returned (Some (gs_next s), s') \<and> gs_ok s' \<and> shown s' path d \<and> others_kept path s s'"
proof -
  let ?obj = "gs_next s"
  let ?s1 = "s\<lparr>sv_heap := (sv_heap s)(?obj := st), gs_dir := (gs_dir s)(?obj := path), gs_next := ?obj + 1\<rparr>"
  let ?s' = "internal_add_connection ?obj ?s1"
  have old: "obj \<in> set (gs_connections s) \<Longrightarrow> obj \<noteq> ?obj" for obj
    using ok by (auto simp: gs_ok_def)
  then have dirs: "map (gs_dir ?s') (gs_connections s) = map (gs_dir s) (gs_connections s)"
    by (auto simp: internal_add)
  have heap: "obj \<in> set (gs_connections s) \<Longrightarrow> sv_heap ?s' obj = sv_heap s obj \<and> gs_dir ?s' obj = gs_dir s obj" for obj
    using old [of obj] by (simp add: internal_add)
  have "gs_ok ?s'"
    unfolding gs_ok_def internal_add(1) list.map
    using ok path st(1) dirs heap by (auto simp: gs_ok_def internal_add less_Suc_eq)
  moreover have "shown ?s' path d"
    using st(2) by (auto simp: shown_def internal_add same_settings_def)
  moreover have "others_kept path s ?s'"
  proof -
    have "gs_dir ?s' ` set (gs_connections s) = gs_dir s ` set (gs_connections s)" "gs_dir ?s' ?obj = path"
      using dirs by (metis set_map, simp add: internal_add)
    then have "gs_dir ?s' ` set (gs_connections ?s') = insert path (gs_dir s ` set (gs_connections s))"
      by (simp add: internal_add(1))
    moreover have "shown s p e \<longleftrightarrow> shown ?s' p e" if "p \<noteq> path" for p e
      using that heap by (auto simp: shown_def internal_add)
    ultimately show ?thesis
      by (simp add: others_kept_def internal_add)
  qed
  ultimately show ?thesis
    by (simp add: gs_new_object_def Let_def)
qed

lemma removed_object:
  fixes st
  assumes ok: "gs_ok s" and obj: "obj \<in> set (gs_connections s)" "gs_dir s obj = path"
  defines "s' \<equiv> (gs_connection_removed obj (gs_update_object obj st s))\<lparr>gs_connections := remove1 obj (remove1 obj (gs_connections s))\<rparr>"
  shows "gs_ok s'" "path \<notin> gs_dir s' ` set (gs_connections s')" "others_kept path s s'"
proof -
  have d: "distinct (gs_connections s)" "inj_on (gs_dir s) (set (gs_connections s))"
    using ok by (simp_all add: gs_ok_def distinct_map)
  have conns: "gs_connections s' = remove1 obj (gs_connections s)" "set (gs_connections s') = set (gs_connections s) - {obj}"
    using d(1) by (simp_all add: s'_def gs_connection_removed_def gs_update_object_def remove1_idem)
  have fields: "gs_dir s' = gs_dir s" "gs_next s' = gs_next s" "gs_db s' = gs_db s" "x \<noteq> obj \<Longrightarrow> sv_heap s' x = sv_heap s x" for x
    by (simp_all add: s'_def gs_connection_removed_def gs_update_object_def)
  show "path \<notin> gs_dir s' ` set (gs_connections s')"
    using d(2) obj unfolding conns(2) fields(1) by (auto simp: inj_on_def)
  have "distinct (map (gs_dir s) (remove1 obj (gs_connections s)))"
    using d by (auto simp: distinct_map intro: inj_on_subset)
  then show "gs_ok s'"
    using ok conns fields by (auto simp: gs_ok_def)
  show "others_kept path s s'"
    using obj(2) conns(2) fields by (auto simp: others_kept_def shown_def image_iff)
qed

lemma updated_object:
  assumes ok: "gs_ok s" and obj: "obj \<in> set (gs_connections s)" "gs_dir s obj = path"
    and st: "connection_wf (sc_conn st)" "same_settings (sc_conn st) d"
  shows "gs_ok (gs_update_object obj st s)" "shown (gs_update_object obj st s) path d" "others_kept path s (gs_update_object obj st s)"
proof -
  show "gs_ok (gs_update_object obj st s)" "shown (gs_update_object obj st s) path d"
    using ok obj st by (auto simp: gs_ok_def gs_update_object_def shown_def)
  show "others_kept path s (gs_update_object obj st s)"
    using obj(2) by (auto simp: others_kept_def gs_update_object_def shown_def)
qed


lemma read_wf:
  assumes "bm_gconf_read_connection tr G stale g dir = Some d"
  shows "connection_wf d"
proof -
  obtain dirs where d: "d = foldl (read_one_setting tr G stale g dir) bm_connection_new dirs"
    using assms by (auto simp: bm_gconf_read_connection_def split: option.splits if_splits)
  show ?thesis
    unfolding d by (rule foldl_invariant) (auto simp: read_one_setting_def Let_def new_wf add_setting_wf split: option.split)
qed

lemma sample_read_back:
  defines "path \<equiv> GCONF_PATH_CONNECTIONS @ ''/1''"
  shows "\<exists>d. bm_gconf_read_connection (\<lambda>_ _. None) list_gconf (\<lambda>_. False)
      (fst (bm_gconf_write_connection sample_gt list_gconf False None sample_connection path True False False [])) path = Some d \<and>
    connection_ok d \<and> bm_connection_verify d = Inr () \<and> same_settings d sample_connection"
proof -
  have c: "bm_connection_get_setting sample_connection BM_TYPE_SETTING_CONNECTION \<noteq> None"
    by (simp add: sample_connection_def bm_connection_get_setting_def gh_lookup_def)
  obtain d where d: "bm_gconf_read_connection (\<lambda>_ _. None) list_gconf (\<lambda>_. False)
      (fst (bm_gconf_write_connection sample_gt list_gconf False None sample_connection path True False False [])) path = Some d"
      "\<forall>cls. bm_connection_get_setting d cls = map_option without_read_only (bm_connection_get_setting sample_connection cls)"
    using written_read_back [OF list_gconf_laws inj_sample_gt sample_connection_ok(1) c path_def [THEN meta_eq_to_obj_eq]] by blast
  have "map_option without_read_only (bm_connection_get_setting sample_connection cls) = bm_connection_get_setting sample_connection cls" for cls
    by (cases cls) (simp_all add: sample_connection_def bm_connection_get_setting_def gh_lookup_def without_read_only_def)
  then have same: "same_settings d sample_connection"
    using d(2) by (simp add: same_settings_def)
  have wf: "connection_wf d"
    using d(1) by (rule read_wf)
  show ?thesis
    using d(1) same ok_same_settings [OF wf sample_connection_ok(1) same] verify_same_settings [OF wf _ same] sample_connection_ok(1)
      sample_connection_verify by (auto simp: connection_ok_def)
qed


text \<open>A connection that the user adds is not saved: the new object is shown and exported, but its \<^verbatim>\<open>update\<close> is the
  exported connection's, which only emits a signal, so GConf stays as it was; the directory stays free, and the next addition
  takes it too.\<close>

theorem added_connection_not_saved:
  assumes "inj gt" "connection_ok c" "bm_connection_verify c = Inr ()" "connection_ok c'" "bm_connection_verify c' = Inr ()"
    and free: "find_free_dir dir_exists (gs_db s) 0 = Some path"
  shows "\<exists>s1 s2. gconf_settings_add_connection gt tr dir_exists c s = Returned (Some (gs_next s), s1) \<and> gs_db s1 = gs_db s \<and>
    gs_connections s1 = gs_next s # gs_connections s \<and> gs_dir s1 (gs_next s) = path \<and>
    gconf_settings_add_connection gt tr dir_exists c' s1 = Returned (Some (gs_next s + 1), s2) \<and>
    gs_dir s2 (gs_next s) = path \<and> gs_dir s2 (gs_next s + 1) = path"
proof -
  have one: "\<exists>s1. gconf_settings_add_connection gt tr dir_exists c s = Returned (Some (gs_next s), s1) \<and> gs_db s1 = gs_db s \<and>
      gs_connections s1 = gs_next s # gs_connections s \<and> gs_dir s1 = (gs_dir s)(gs_next s := path) \<and> gs_next s1 = gs_next s + 1"
    if c: "connection_ok c" "bm_connection_verify c = Inr ()" and free: "find_free_dir dir_exists (gs_db s) 0 = Some path"
    for c and s :: "'a gconf_settings"
    using new_from_valid [OF assms(1) c, of tr]
    by (auto simp: gconf_settings_add_connection_def free gs_new_object_def gs_update_object_def internal_add Let_def)
  obtain s1 where s1: "gconf_settings_add_connection gt tr dir_exists c s = Returned (Some (gs_next s), s1)" "gs_db s1 = gs_db s"
      "gs_connections s1 = gs_next s # gs_connections s" "gs_dir s1 = (gs_dir s)(gs_next s := path)" "gs_next s1 = gs_next s + 1"
    using one [OF assms(2,3) free] by blast
  then show ?thesis
    using one [OF assms(4,5), of s1] free by auto
qed

lemma sample_number: "print_nat (Suc 0) = ''1''"
  by (simp add: print_nat.simps [of "Suc 0"] char_of_def bit_iff_odd)

theorem added_connection_not_saved_witness:
  "\<exists>s1 s2. gconf_settings_add_connection sample_gt (\<lambda>_ _. None) (\<lambda>_ _. False) sample_connection (gconf_settings_new True ([] :: (string \<times> gconf_value) list)) =
      Returned (Some 0, s1) \<and>
    gconf_settings_add_connection sample_gt (\<lambda>_ _. None) (\<lambda>_ _. False) sample_connection s1 = Returned (Some 1, s2) \<and>
    gs_dir s2 0 = GCONF_PATH_CONNECTIONS @ ''/1'' \<and> gs_dir s2 1 = GCONF_PATH_CONNECTIONS @ ''/1''"
proof -
  have "find_free_dir (\<lambda>_ _. False) ([] :: (string \<times> gconf_value) list) 0 = Some (GCONF_PATH_CONNECTIONS @ ''/1'')"
    using sample_number by (subst find_free_dir.simps) (simp add: gconf_numbered_dir_def print_int_def)
  then show ?thesis
    using added_connection_not_saved [OF inj_sample_gt sample_connection_ok(1) sample_connection_verify sample_connection_ok(1)
        sample_connection_verify, where dir_exists = "\<lambda>_ _. False" and tr = "\<lambda>_ _. None" and s = "gconf_settings_new True []"]
    by (fastforce simp: gconf_settings_new_def)
qed

text \<open>Parsing only looks at and changes the settings.\<close>

lemma parse_one_settings_only:
  assumes "conn_settings a = conn_settings b"
  shows "conn_settings (parse_one_setting tr k v a) = conn_settings (parse_one_setting tr k v b)"
proof (cases "bm_connection_lookup_setting_type k")
  case (Some cls)
  then show ?thesis
    by (cases "bm_setting_new_from_hash tr cls v") (simp_all add: parse_one_setting_def bm_connection_add_setting_def assms)
qed (simp add: parse_one_setting_def assms)

lemma parse_settings_only:
  "conn_settings a = conn_settings b \<Longrightarrow>
     conn_settings (gh_foreach (parse_one_setting tr) H a) = conn_settings (gh_foreach (parse_one_setting tr) H b)"
proof (induction H arbitrary: a b)
  case (Cons x H)
  show ?case
    using Cons.IH [OF parse_one_settings_only [OF Cons.prems, of tr "fst x" "snd x"]] by (cases x) simp
qed simp

lemma verify_settings_only:
  "conn_settings a = conn_settings b \<Longrightarrow> bm_connection_verify a = bm_connection_verify b"
  unfolding bm_connection_verify_def bm_connection_get_setting_def by (simp only:)

lemma replace_as_new:
  assumes "bm_connection_new_from_hash tr H = Inr d"
  shows "\<exists>c'. bm_connection_replace_settings tr H c = (c', Inr ())"
proof -
  let ?c' = "gh_foreach (parse_one_setting tr) H (c\<lparr>conn_settings := gh_new\<rparr>)" and ?d = "gh_foreach (parse_one_setting tr) H bm_connection_new"
  have "bm_connection_verify ?c' = bm_connection_verify ?d"
    by (intro verify_settings_only parse_settings_only) (simp add: bm_connection_new_def)
  then show ?thesis
    using assms by (auto simp: bm_connection_replace_settings_def bm_connection_new_from_hash_def Let_def split: sum.splits)
qed


end
