(* ===== verification/Barcode_Service.thy ===== *)
theory Barcode_Service
  imports BM_Prelude
begin

text \<open>
  The barcode service and the reader library, \<^verbatim>\<open>src/barcode-dbus-service/barcode-dbus-service.c\<close> and
  \<^verbatim>\<open>src/barcode-reader-glib/barcode-reader-glib.c\<close>: scanners are HID devices with a file descriptor each, what
  they report is sent as a signal on the bus, and the reader prints it.  The kernel's side is explicit: \<open>bs_queue\<close>
  holds what the next reads of a descriptor return, a report or an error; a descriptor with nothing queued is not ready,
  and its read, which does not block, fails.
\<close>

section \<open>State\<close>

text \<open>A report, or \<open>None\<close> for a failing read.\<close>

type_synonym report = "char list option"

text \<open>A signal: its path, interface, member and string argument, if it has one.\<close>

record bus_signal =
  bg_path :: string
  bg_interface :: string
  bg_member :: string
  bg_arg :: "string option"

record barcode_service =
  bs_master :: "nat set"
  bs_fdmax :: nat
  bs_queue :: "nat \<Rightarrow> report list"
  bs_buf :: "char list"
  bs_sent :: "bus_signal list"

text \<open>The process can end with a status or do something undefined.\<close>

datatype process = Running barcode_service | Exited int | Undefined

section \<open>Devices\<close>

text \<open>The node of a device, and its USB parent with the vendor, if it has them.\<close>

record hid_device =
  hd_node :: string
  hd_parent :: "cstr option"

definition SYMBOL_VENDOR :: string where
  "SYMBOL_VENDOR = ''05e0''"

text \<open>\<open>fd\<close> is what opening the node returns.\<close>

datatype hid_result = Hid_Exit int | Hid_Undefined | Hid_Fd int

definition open_hid :: "hid_device \<Rightarrow> int \<Rightarrow> hid_result" where
  "open_hid dev fd =
     (case hd_parent dev of
        None \<Rightarrow> Hid_Exit 1
      | Some None \<Rightarrow> Hid_Undefined
      | Some (Some vId) \<Rightarrow>
          if vId = SYMBOL_VENDOR then (if fd < 0 then Hid_Fd 0 else Hid_Fd fd) else Hid_Fd (- 1))"

text \<open>What \<^verbatim>\<open>main\<close> does with the result, for a device that was enumerated and one that was added; a descriptor
  that an \<^verbatim>\<open>fd_set\<close> cannot hold is undefined behaviour.\<close>

definition add_hid :: "hid_device \<Rightarrow> int \<Rightarrow> barcode_service \<Rightarrow> process" where
  "add_hid dev fd s =
     (case open_hid dev fd of
        Hid_Exit code \<Rightarrow> Exited code
      | Hid_Undefined \<Rightarrow> Undefined
      | Hid_Fd fd_hid \<Rightarrow>
          if fd_hid > 0
          then if fd_hid \<ge> 1024 then Undefined
               else Running (s\<lparr>bs_master := insert (nat fd_hid) (bs_master s),
                               bs_fdmax := (if fd_hid > int (bs_fdmax s) then nat fd_hid else bs_fdmax s)\<rparr>)
          else Running s)"

fun enumerate_hid :: "(hid_device \<times> int) list \<Rightarrow> barcode_service \<Rightarrow> process" where
  "enumerate_hid [] s = Running s"
| "enumerate_hid ((dev, fd) # devices) s =
     (case add_hid dev fd s of Running s' \<Rightarrow> enumerate_hid devices s' | p \<Rightarrow> p)"

text \<open>The start: \<open>has_owner\<close> and \<open>request\<close> are the answers of the bus, \<open>None\<close> an error.\<close>

definition DBUS_NAME_PRIMARY_OWNER :: nat where
  "DBUS_NAME_PRIMARY_OWNER = 1"

definition service_start ::
  "bool \<Rightarrow> bool \<Rightarrow> bool option \<Rightarrow> nat option \<Rightarrow> char list \<Rightarrow> (hid_device \<times> int) list \<Rightarrow> process" where
  "service_start udev connection has_owner request garbage devices =
     (if \<not> udev then Exited 1
      else if \<not> connection then Exited 1
      else case has_owner of
             None \<Rightarrow> Exited 1
           | Some True \<Rightarrow> Exited 1
           | Some False \<Rightarrow>
               (case request of
                  None \<Rightarrow> Exited 1
                | Some nr \<Rightarrow>
                    if nr = DBUS_NAME_PRIMARY_OWNER
                    then enumerate_hid devices
                           \<lparr>bs_master = {}, bs_fdmax = 0, bs_queue = (\<lambda>_. []), bs_buf = garbage, bs_sent = []\<rparr>
                    else Exited 1))"

section \<open>One round\<close>

text \<open>The bus takes only valid UTF-8 as a string; anything else is undefined behaviour of \<^verbatim>\<open>dbus_message_append_args\<close>, which
  the caller below accounts for.\<close>

definition dbus_send :: "string \<Rightarrow> string \<Rightarrow> barcode_service \<Rightarrow> barcode_service" where
  "dbus_send action msg s =
     s\<lparr>bs_sent := bs_sent s @ [\<lparr>bg_path = ''/me/koppi/BarcodeReader/read'', bg_interface = ''me.koppi.BarcodeReader'',
                                 bg_member = action, bg_arg = Some msg\<rparr>]\<rparr>"

text \<open>A read of at most 32 bytes into the buffer: their number, or \<open>None\<close>.\<close>

definition hid_read :: "nat \<Rightarrow> barcode_service \<Rightarrow> nat option \<times> barcode_service" where
  "hid_read i s =
     (case bs_queue s i of
        [] \<Rightarrow> (None, s)
      | None # rest \<Rightarrow> (None, s\<lparr>bs_queue := (bs_queue s)(i := rest)\<rparr>)
      | Some bytes # rest \<Rightarrow>
          (let got = take 32 bytes
           in (Some (length got),
               s\<lparr>bs_queue := (bs_queue s)(i := rest), bs_buf := got @ drop (length got) (bs_buf s)\<rparr>)))"

definition hid_close :: "nat \<Rightarrow> barcode_service \<Rightarrow> barcode_service" where
  "hid_close i s = s\<lparr>bs_master := bs_master s - {i}, bs_queue := (bs_queue s)(i := [])\<rparr>"

text \<open>The string at \<^verbatim>\<open>&buf[4]\<close>; without a NUL the buffer is read past its end.\<close>

definition code_in :: "char list \<Rightarrow> string option" where
  "code_in buf =
     (if CHR 0x00 \<in> set (drop 4 buf) then Some (takeWhile (\<lambda>c. c \<noteq> CHR 0x00) (drop 4 buf)) else None)"

text \<open>The loop over the descriptors.  The loop that prints the bytes read has the same counter, so the next
  descriptor looked at is the one after their number.  Every read of a descriptor takes something off its queue or
  fails, so the loop ends.\<close>

definition queued :: "nat \<Rightarrow> (nat \<Rightarrow> report list) \<Rightarrow> nat" where
  "queued n q = (\<Sum>j \<le> n. length (q j))"

lemma queued_update: "i \<le> n \<Longrightarrow> queued n (q(i := r)) + length (q i) = queued n q + length r"
  by (simp add: queued_def sum.remove [of "{..n}" i])

lemma queued_clear: "queued n (q(i := [])) \<le> queued n q"
  unfolding queued_def by (rule sum_mono) simp

function scan_fds :: "(string \<Rightarrow> bool) \<Rightarrow> nat set \<Rightarrow> nat \<Rightarrow> barcode_service \<Rightarrow> process" where
  "scan_fds utf8 read_fds i s =
     (if i > bs_fdmax s then Running s
      else if i \<in> read_fds
      then (case hid_read i s of
              (None, s') \<Rightarrow> scan_fds utf8 read_fds (i + 1) (hid_close i s')
            | (Some res, s') \<Rightarrow>
                (case code_in (bs_buf s') of
                   None \<Rightarrow> Undefined
                 | Some msg \<Rightarrow>
                     if utf8 msg then scan_fds utf8 read_fds (res + 1) (dbus_send ''read'' msg s') else Undefined))
      else scan_fds utf8 read_fds (i + 1) s)"
  by pat_completeness auto
termination
proof (relation "measures [\<lambda>(_, _, _, s). queued (bs_fdmax s) (bs_queue s), \<lambda>(_, _, i, s). Suc (bs_fdmax s) - i]", goal_cases)
  case (2 utf8 read_fds i s r s')
  then have "bs_fdmax (hid_close i s') = bs_fdmax s"
    "queued (bs_fdmax s) (bs_queue (hid_close i s')) \<le> queued (bs_fdmax s) (bs_queue s)"
    using queued_clear [of "bs_fdmax s" "bs_queue s" i]
    by (auto simp: hid_read_def hid_close_def Let_def split: list.splits option.splits)
  then show ?case
    using 2 by auto
next
  case (3 utf8 read_fds i s r s' res msg)
  then have "bs_fdmax s' = bs_fdmax s" "queued (bs_fdmax s) (bs_queue s') < queued (bs_fdmax s) (bs_queue s)"
    using queued_update [of i "bs_fdmax s" "bs_queue s" "tl (bs_queue s i)"]
    by (auto simp: hid_read_def Let_def split: list.splits option.splits)
  then show ?case
    by (simp add: dbus_send_def)
qed auto

declare scan_fds.simps [simp del]

text \<open>Which descriptors \<^verbatim>\<open>select\<close> reports.\<close>

definition ready_fds :: "barcode_service \<Rightarrow> nat set" where
  "ready_fds s = set (filter (\<lambda>i. i \<in> bs_master s \<and> bs_queue s i \<noteq> []) [0..<Suc (bs_fdmax s)])"

definition poll_readers :: "(string \<Rightarrow> bool) \<Rightarrow> barcode_service \<Rightarrow> process" where
  "poll_readers utf8 s = scan_fds utf8 (ready_fds s) 0 s"

text \<open>What the udev monitor has: nothing, no device, or a device with its action and what opening it returns.\<close>

datatype monitor_event = No_Event | No_Device | Device_Event cstr hid_device int

definition poll_monitor :: "monitor_event \<Rightarrow> barcode_service \<Rightarrow> process" where
  "poll_monitor ev s =
     (case ev of
        Device_Event None _ _ \<Rightarrow> Undefined
      | Device_Event (Some action) dev fd \<Rightarrow> if action = ''add'' then add_hid dev fd s else Running s
      | _ \<Rightarrow> Running s)"

definition arrive :: "(nat \<times> report) list \<Rightarrow> barcode_service \<Rightarrow> barcode_service" where
  "arrive rs s = s\<lparr>bs_queue := foldl (\<lambda>q (i, r). q(i := q i @ [r])) (bs_queue s) rs\<rparr>"

definition service_round :: "(string \<Rightarrow> bool) \<Rightarrow> monitor_event \<times> (nat \<times> report) list \<Rightarrow> barcode_service \<Rightarrow> process" where
  "service_round utf8 input s =
     (case poll_monitor (fst input) s of
        Running s' \<Rightarrow> poll_readers utf8 (arrive (snd input) s')
      | p \<Rightarrow> p)"

fun service_rounds :: "(string \<Rightarrow> bool) \<Rightarrow> (monitor_event \<times> (nat \<times> report) list) list \<Rightarrow> process \<Rightarrow> process" where
  "service_rounds utf8 [] p = p"
| "service_rounds utf8 (input # inputs) p =
     (case p of Running s \<Rightarrow> service_rounds utf8 inputs (service_round utf8 input s) | p \<Rightarrow> p)"

section \<open>The reader\<close>

text \<open>What the filter prints for a signal, and whether it handled it; the argument that cannot be read is printed from an
  uninitialised pointer.\<close>

definition dbus_filter :: "bus_signal \<Rightarrow> (bool \<times> string) option" where
  "dbus_filter message =
     (if bg_interface message = ''me.koppi.BarcodeReader'' \<and> bg_member message = ''read''
      then (case bg_arg message of None \<Rightarrow> None | Some code \<Rightarrow> Some (True, ''read '' @ [CHR 0x27] @ code @ [CHR 0x27, CHR 0x0A]))
      else Some (False, []))"

text \<open>The reader's \<^verbatim>\<open>main\<close> up to its main loop: its status if it ends before.\<close>

definition reader_start :: "bool \<Rightarrow> bool \<Rightarrow> int option" where
  "reader_start connection message = (if \<not> connection then Some 0 else if \<not> message then Some 0 else None)"

section \<open>Lemmas\<close>

definition code_of :: "char list \<Rightarrow> string" where
  "code_of bytes = takeWhile (\<lambda>c. c \<noteq> CHR 0x00) (drop 4 bytes)"

text \<open>Descriptors that are not ready are passed over.\<close>

lemma scan_skip:
  assumes "i \<le> k" "k \<le> Suc (bs_fdmax s)" "\<And>j. i \<le> j \<Longrightarrow> j < k \<Longrightarrow> j \<notin> read_fds"
  shows "scan_fds utf8 read_fds i s = scan_fds utf8 read_fds k s"
  using assms
proof (induction "k - i" arbitrary: i)
  case (Suc n)
  have i: "i < k" "i \<notin> read_fds" "\<not> bs_fdmax s < i"
    using Suc.hyps(2) Suc.prems by auto
  have "scan_fds utf8 read_fds i s = scan_fds utf8 read_fds (Suc i) s"
    using i(2,3) by (subst scan_fds.simps) simp
  also have "\<dots> = scan_fds utf8 read_fds k s"
    by (rule Suc.hyps(1)) (use Suc.hyps(2) Suc.prems i in auto)
  finally show ?case .
qed simp

lemma scan_end: "bs_fdmax s < i \<Longrightarrow> scan_fds utf8 read_fds i s = Running s"
  by (simp add: scan_fds.simps)

lemma ready_iff: "i \<in> ready_fds s \<longleftrightarrow> i \<le> bs_fdmax s \<and> i \<in> bs_master s \<and> bs_queue s i \<noteq> []"
  by (auto simp: ready_fds_def simp del: upt_Suc)

lemma service_fields [simp]:
  "bs_master (dbus_send action msg s) = bs_master s" "bs_fdmax (dbus_send action msg s) = bs_fdmax s"
  "bs_queue (dbus_send action msg s) = bs_queue s" "bs_buf (dbus_send action msg s) = bs_buf s"
  "bs_master (hid_close i s) = bs_master s - {i}" "bs_fdmax (hid_close i s) = bs_fdmax s" "bs_buf (hid_close i s) = bs_buf s"
  "bs_queue (hid_close i s) = (bs_queue s)(i := [])" "bs_sent (hid_close i s) = bs_sent s"
  "bs_master (arrive rs s) = bs_master s" "bs_fdmax (arrive rs s) = bs_fdmax s" "bs_buf (arrive rs s) = bs_buf s"
  by (simp_all add: dbus_send_def hid_close_def arrive_def)

subsection \<open>The service stays up\<close>

text \<open>What keeps: the buffer ends with a NUL that no read overwrites, and codes and what follows them in the buffer are ASCII.\<close>

definition ascii_from4 :: "char list \<Rightarrow> bool" where
  "ascii_from4 bytes \<longleftrightarrow> (\<forall>c \<in> set (drop 4 bytes). of_char c < (128 :: nat))"

definition text_reports :: "(nat \<Rightarrow> report list) \<Rightarrow> bool" where
  "text_reports q \<longleftrightarrow> (\<forall>i bytes. Some bytes \<in> set (q i) \<longrightarrow> ascii_from4 bytes)"

lemma ascii_read: "ascii_from4 bytes \<Longrightarrow> ascii_from4 buf \<Longrightarrow> ascii_from4 (take 32 bytes @ drop (length (take 32 bytes)) buf)"
proof -
  assume ascii: "ascii_from4 bytes" "ascii_from4 buf"
  let ?n = "length (take 32 bytes)"
  have "set (drop 4 (take 32 bytes @ drop ?n buf)) \<subseteq> set (drop 4 bytes) \<union> set (drop (4 - ?n + ?n) buf)"
    by (auto simp: drop_take dest: in_set_takeD)
  also have "\<dots> \<subseteq> set (drop 4 bytes) \<union> set (drop 4 buf)"
    by (rule Un_mono [OF subset_refl set_drop_subset_set_drop]) simp
  finally show ?thesis
    using ascii unfolding ascii_from4_def by blast
qed

lemma ascii_code: "ascii_from4 buf \<Longrightarrow> code_in buf = Some msg \<Longrightarrow> \<forall>c \<in> set msg. of_char c < (128 :: nat)"
  by (auto simp: ascii_from4_def code_in_def dest: set_takeWhileD split: if_splits)

definition takes_ascii :: "(string \<Rightarrow> bool) \<Rightarrow> bool" where
  "takes_ascii utf8 \<longleftrightarrow> (\<forall>msg. (\<forall>c \<in> set msg. of_char c < (128 :: nat)) \<longrightarrow> utf8 msg)"

lemma text_tail: "text_reports q \<Longrightarrow> set rest \<subseteq> set (q i) \<Longrightarrow> text_reports (q(i := rest))"
  by (auto simp: text_reports_def)

lemma text_arrive:
  "text_reports q \<Longrightarrow> \<forall>(i, r) \<in> set rs. \<forall>bytes. r = Some bytes \<longrightarrow> ascii_from4 bytes \<Longrightarrow>
     text_reports (foldl (\<lambda>q (i, r). q(i := q i @ [r])) q rs)"
proof (induction rs arbitrary: q)
  case (Cons x rs)
  have "text_reports (q(fst x := q (fst x) @ [snd x]))"
    using Cons.prems by (cases x) (auto simp: text_reports_def)
  then show ?case
    using Cons.IH Cons.prems(2) by (cases x) (simp add: fun_upd_def)
qed simp

definition service_ok :: "barcode_service \<Rightarrow> bool" where
  "service_ok s \<longleftrightarrow> ascii_from4 (bs_buf s) \<and> text_reports (bs_queue s) \<and> bs_master s \<subseteq> {1..bs_fdmax s} \<and> bs_fdmax s < 1024 \<and> length (bs_buf s) = 256 \<and> CHR 0x00 \<in> set (drop 32 (bs_buf s))"

lemma read_keeps:
  assumes "hid_read i s = (res, s')" "service_ok s"
  shows "service_ok s'" "code_in (bs_buf s') \<noteq> None" "bs_fdmax s' = bs_fdmax s" "bs_master s' = bs_master s"
proof -
  have s': "bs_master s' = bs_master s \<and> bs_fdmax s' = bs_fdmax s \<and> length (bs_buf s') = 256 \<and> drop 32 (bs_buf s') = drop 32 (bs_buf s)"
    using assms by (auto simp: hid_read_def service_ok_def Let_def split: list.splits option.splits)
  have "ascii_from4 (bs_buf s') \<and> text_reports (bs_queue s')"
  proof (cases "bs_queue s i")
    case (Cons r rest)
    have left: "text_reports ((bs_queue s)(i := rest))"
      by (rule text_tail) (use assms(2) Cons in \<open>auto simp: service_ok_def\<close>)
    show ?thesis
    proof (cases r)
      case (Some bytes)
      have "ascii_from4 bytes"
        using assms(2) Cons Some unfolding service_ok_def text_reports_def by (metis list.set_intros(1))
      then have "ascii_from4 (take 32 bytes @ drop (length (take 32 bytes)) (bs_buf s))"
        by (rule ascii_read) (use assms(2) in \<open>simp add: service_ok_def\<close>)
      then show ?thesis
        using assms(1) Cons Some left by (auto simp: hid_read_def Let_def)
    qed (use assms Cons left in \<open>auto simp: hid_read_def service_ok_def\<close>)
  qed (use assms in \<open>auto simp: hid_read_def service_ok_def\<close>)
  with s' show "service_ok s'" "bs_fdmax s' = bs_fdmax s" "bs_master s' = bs_master s"
    using assms(2) by (simp_all add: service_ok_def)
  have "set (drop 32 (bs_buf s')) \<subseteq> set (drop 4 (bs_buf s'))"
    using set_drop_subset_set_drop [of 4 32] by simp
  then show "code_in (bs_buf s') \<noteq> None"
    using s' assms(2) by (auto simp: code_in_def service_ok_def)
qed

lemma scan_keeps:
  assumes "takes_ascii utf8"
  shows "service_ok s \<Longrightarrow> \<exists>s'. scan_fds utf8 read_fds i s = Running s' \<and> service_ok s' \<and> bs_master s' \<subseteq> bs_master s"
  using assms
proof (induction utf8 read_fds i s rule: scan_fds.induct)
  case (1 utf8 read_fds i s)
  show ?case
  proof (cases "i > bs_fdmax s \<or> i \<notin> read_fds")
    case True
    then show ?thesis
      using 1 by (subst scan_fds.simps) auto
  next
    case False
    obtain res s1 where read: "hid_read i s = (res, s1)"
      by fastforce
    note keeps = read_keeps [OF read "1.prems"(1)]
    show ?thesis
    proof (cases res)
      case None
      have "service_ok (hid_close i s1)"
        using keeps(1) text_tail [of "bs_queue s1" "[]" i] by (auto simp: service_ok_def)
      then show ?thesis
        using "1.IH"(1) [OF _ _ read [symmetric] None] False keeps(4) "1.prems"(2) by (subst scan_fds.simps) (auto simp: read None)
    next
      case (Some n)
      obtain msg where msg: "code_in (bs_buf s1) = Some msg"
        using keeps(2) by auto
      have utf8: "utf8 msg"
        using ascii_code [OF _ msg] keeps(1) "1.prems"(2) by (simp add: service_ok_def takes_ascii_def)
      have "service_ok (dbus_send ''read'' msg s1)"
        using keeps(1) by (simp add: service_ok_def)
      then show ?thesis
        using "1.IH"(2) [OF _ _ read [symmetric] Some msg utf8] False keeps(4) "1.prems"(2) utf8 by (subst scan_fds.simps) (auto simp: read Some msg)
    qed
  qed
qed

definition usb_device :: "hid_device \<Rightarrow> int \<Rightarrow> bool" where
  "usb_device dev fd \<longleftrightarrow> (\<exists>vendor. hd_parent dev = Some (Some vendor)) \<and> fd < 1024"

lemma add_hid_keeps: "service_ok s \<Longrightarrow> usb_device dev fd \<Longrightarrow> \<exists>s'. add_hid dev fd s = Running s' \<and> service_ok s'"
proof (cases "fd > 0")
  case True
  then obtain n where "fd = int n" "n > 0"
    using zero_less_imp_eq_int by blast
  moreover assume "service_ok s" "usb_device dev fd"
  ultimately show ?thesis
    by (fastforce simp: add_hid_def open_hid_def usb_device_def service_ok_def)
qed (auto simp: add_hid_def open_hid_def usb_device_def)

lemma enumerate_keeps:
  "service_ok s \<Longrightarrow> \<forall>(dev, fd) \<in> set devices. usb_device dev fd \<Longrightarrow> \<exists>s'. enumerate_hid devices s = Running s' \<and> service_ok s'"
proof (induction devices arbitrary: s)
  case (Cons d devices)
  obtain dev fd where d: "d = (dev, fd)"
    by fastforce
  obtain s1 where "add_hid dev fd s = Running s1" "service_ok s1"
    using add_hid_keeps [of s dev fd] Cons.prems d by auto
  then show ?case
    using Cons.IH [of s1] Cons.prems(2) d by auto
qed simp

definition plugged_input :: "monitor_event \<times> (nat \<times> report) list \<Rightarrow> bool" where
  "plugged_input input =
     ((case fst input of Device_Event action dev fd \<Rightarrow> action \<noteq> None \<and> usb_device dev fd | _ \<Rightarrow> True) \<and>
      (\<forall>(i, r) \<in> set (snd input). \<forall>bytes. r = Some bytes \<longrightarrow> ascii_from4 bytes))"

lemma round_keeps:
  assumes "takes_ascii utf8" "service_ok s" "plugged_input input"
  shows "\<exists>s'. service_round utf8 input s = Running s' \<and> service_ok s'"
proof -
  have "\<exists>s1. poll_monitor (fst input) s = Running s1 \<and> service_ok s1"
    using assms(2,3) add_hid_keeps by (auto simp: poll_monitor_def plugged_input_def split: monitor_event.splits)
  then obtain s1 where s1: "poll_monitor (fst input) s = Running s1" "service_ok s1"
    by blast
  then have "service_ok (arrive (snd input) s1)"
    using text_arrive [of "bs_queue s1" "snd input"] assms(3) by (simp add: service_ok_def plugged_input_def) (simp add: arrive_def)
  then show ?thesis
    using scan_keeps [OF assms(1), of "arrive (snd input) s1" "ready_fds (arrive (snd input) s1)" 0] s1(1)
    by (auto simp: service_round_def poll_readers_def)
qed

lemma rounds_keep:
  "takes_ascii utf8 \<Longrightarrow> service_ok s \<Longrightarrow> \<forall>input \<in> set inputs. plugged_input input \<Longrightarrow>
     \<exists>s'. service_rounds utf8 inputs (Running s) = Running s' \<and> service_ok s'"
proof (induction inputs arbitrary: s)
  case (Cons input inputs)
  then obtain s1 where "service_round utf8 input s = Running s1" "service_ok s1"
    using round_keeps [of utf8 s input] by auto
  then show ?case
    using Cons by simp
qed simp



text \<open>A device without a USB parent, one behind Bluetooth for instance, ends the service.\<close>

lemma bluetooth_device_ends_service:
  "hd_parent dev = None \<Longrightarrow> service_round utf8 (Device_Event (Some ''add'') dev fd, arrivals) s = Exited 1"
  by (simp add: service_round_def poll_monitor_def add_hid_def open_hid_def)

subsection \<open>Reports reach the reader\<close>

text \<open>A report that fills the places of all descriptors, ends its code with a NUL and is text.\<close>

definition proper_report :: "(string \<Rightarrow> bool) \<Rightarrow> nat \<Rightarrow> report \<Rightarrow> bool" where
  "proper_report utf8 fdmax r \<longleftrightarrow>
     (case r of
        None \<Rightarrow> False
      | Some bytes \<Rightarrow> fdmax \<le> length bytes \<and> length bytes \<le> 32 \<and> CHR 0x00 \<in> set (drop 4 bytes) \<and> utf8 (code_of bytes))"

definition waiting :: "barcode_service \<Rightarrow> report list" where
  "waiting s = concat (map (bs_queue s) (sorted_list_of_set (bs_master s)))"

lemma code_in_report: "CHR 0x00 \<in> set (drop 4 bytes) \<Longrightarrow> code_in (bytes @ rest) = Some (code_of bytes)"
  by (simp add: code_in_def code_of_def takeWhile_append1)

text \<open>In the order of the descriptors, what is waiting starts with the first report of the lowest one that has any.\<close>

lemma waiting_first:
  assumes "sorted xs" "distinct xs" "concat (map q xs) = r # rs"
  shows "\<exists>m rest. m \<in> set xs \<and> q m = r # rest \<and> (\<forall>j \<in> set xs. j < m \<longrightarrow> q j = []) \<and> concat (map (q(m := rest)) xs) = rs"
  using assms
proof (induction xs)
  case (Cons x xs)
  show ?case
  proof (cases "q x")
    case Nil
    have "sorted xs" "distinct xs" "concat (map q xs) = r # rs"
      using Cons.prems Nil by simp_all
    then obtain m rest where m: "m \<in> set xs" "q m = r # rest" "\<forall>j \<in> set xs. j < m \<longrightarrow> q j = []" "concat (map (q(m := rest)) xs) = rs"
      using Cons.IH by blast
    then have "m \<noteq> x"
      using Cons.prems(2) by auto
    then show ?thesis
      using m Nil by (intro exI [of _ m] exI [of _ rest]) (auto simp: fun_upd_def)
  next
    case (Cons r' rest)
    have same: "map (q(x := rest)) xs = map q xs"
      using Cons.prems(2) by (intro map_cong) auto
    have "r' = r" "concat (map (q(x := rest)) (x # xs)) = rs"
      using Cons Cons.prems(3) unfolding list.map concat.simps same by auto
    moreover have "\<forall>j \<in> set (x # xs). \<not> j < x"
      using Cons.prems(1) by auto
    ultimately show ?thesis
      using Cons by (intro exI [of _ x] exI [of _ rest]) (auto simp: fun_upd_def)
  qed
qed simp

lemma quiet_round: "service_round utf8 (No_Event, []) s = poll_readers utf8 s"
  by (simp add: service_round_def poll_monitor_def arrive_def)

lemma one_report_sent:
  assumes fds: "bs_master s \<subseteq> {1..bs_fdmax s}" and w: "waiting s = r # rs" and r: "proper_report utf8 (bs_fdmax s) r"
  shows "\<exists>bytes s'. r = Some bytes \<and> service_round utf8 (No_Event, []) s = Running s' \<and> waiting s' = rs \<and>
    bs_master s' = bs_master s \<and> bs_fdmax s' = bs_fdmax s \<and>
    bs_sent s' = bs_sent s @ [\<lparr>bg_path = ''/me/koppi/BarcodeReader/read'', bg_interface = ''me.koppi.BarcodeReader'',
      bg_member = ''read'', bg_arg = Some (code_of bytes)\<rparr>]"
proof -
  obtain bytes where bytes: "r = Some bytes" "bs_fdmax s \<le> length bytes" "length bytes \<le> 32" "CHR 0x00 \<in> set (drop 4 bytes)"
      "utf8 (code_of bytes)"
    using r by (auto simp: proper_report_def split: option.splits)
  have fin: "finite (bs_master s)"
    using fds finite_subset by blast
  obtain m rest where m: "m \<in> bs_master s" "bs_queue s m = r # rest" "\<forall>j \<in> bs_master s. j < m \<longrightarrow> bs_queue s j = []"
      "concat (map ((bs_queue s)(m := rest)) (sorted_list_of_set (bs_master s))) = rs"
    using waiting_first [OF _ _ w [unfolded waiting_def]] fin by auto
  let ?s1 = "s\<lparr>bs_queue := (bs_queue s)(m := rest), bs_buf := bytes @ drop (length bytes) (bs_buf s)\<rparr>"
  have le: "m \<le> bs_fdmax s" "m \<in> ready_fds s"
    using m(1,2) fds by (auto simp: ready_iff)
  have read: "hid_read m s = (Some (length bytes), ?s1)"
    using m(2) bytes(1,3) by (simp add: hid_read_def Let_def)
  have "poll_readers utf8 s = scan_fds utf8 (ready_fds s) m s"
    unfolding poll_readers_def using m(3) le(1) by (intro scan_skip) (auto simp: ready_iff)
  also have "\<dots> = scan_fds utf8 (ready_fds s) (length bytes + 1) (dbus_send ''read'' (code_of bytes) ?s1)"
    using le read by (subst scan_fds.simps) (simp add: code_in_report [OF bytes(4)] bytes(5))
  also have "\<dots> = Running (dbus_send ''read'' (code_of bytes) ?s1)"
    by (rule scan_end) (use bytes(2) in simp)
  finally show ?thesis
    using bytes(1,5) m(4) by (simp add: quiet_round) (simp add: dbus_send_def waiting_def)
qed


definition sample_report :: "char list" where
  "sample_report = [CHR 0x05, CHR 0x00, CHR 0x00, CHR 0x00] @ ''4006381333931'' @ replicate 15 (CHR 0x00)"


text \<open>A scanner whose report is shorter than its descriptor is high is lost: the counter of the loop that prints the bytes
  takes the outer loop back below the descriptor, which is read again; nothing is there, the read fails, and the
  descriptor is closed although the scanner is still plugged in.\<close>

theorem short_report_closes_scanner:
  assumes fds: "bs_master s = {i}" "bs_fdmax s = i" "bs_queue s i = [Some bytes]"
    and report: "length bytes < i" "length bytes \<le> 32" "CHR 0x00 \<in> set (drop 4 bytes)" "utf8 (code_of bytes)"
  shows "\<exists>s'. service_round utf8 (No_Event, []) s = Running s' \<and> bs_master s' = {} \<and> length (bs_sent s') = length (bs_sent s) + 1"
proof -
  let ?s1 = "s\<lparr>bs_queue := (bs_queue s)(i := []), bs_buf := bytes @ drop (length bytes) (bs_buf s)\<rparr>"
  let ?s2 = "dbus_send ''read'' (code_of bytes) ?s1"
  have ready: "j \<in> ready_fds s \<longleftrightarrow> j = i" for j
    using fds by (auto simp: ready_iff)
  have read: "hid_read i s = (Some (length bytes), ?s1)" "hid_read i ?s2 = (None, ?s2)"
    using fds report(2) by (simp_all add: hid_read_def Let_def)
  have skip: "scan_fds utf8 (ready_fds s) j t = scan_fds utf8 (ready_fds s) i t" if "j \<le> i" "bs_fdmax t = i" for j t
    using that by (intro scan_skip) (auto simp: ready)
  have "service_round utf8 (No_Event, []) s = scan_fds utf8 (ready_fds s) i s"
    using skip [of 0 s] fds(2) by (simp add: quiet_round poll_readers_def)
  also have "\<dots> = scan_fds utf8 (ready_fds s) (length bytes + 1) ?s2"
    using fds read(1) by (subst scan_fds.simps) (simp add: ready code_in_report [OF report(3)] report(4))
  also have "\<dots> = scan_fds utf8 (ready_fds s) i ?s2"
    using skip [of "length bytes + 1" ?s2] report(1) fds(2) by simp
  also have "\<dots> = scan_fds utf8 (ready_fds s) (i + 1) (hid_close i ?s2)"
    using fds read(2) by (subst scan_fds.simps) (simp add: ready)
  also have "\<dots> = Running (hid_close i ?s2)"
    by (rule scan_end) (simp add: fds)
  finally show ?thesis
    using fds(1) by simp (simp add: dbus_send_def)
qed

theorem short_report_closes_scanner_witness:
  "\<exists>s'. service_round (\<lambda>_. True) (No_Event, [])
      \<lparr>bs_master = {12}, bs_fdmax = 12, bs_queue = (\<lambda>_. [])(12 := [Some (''1234123'' @ [CHR 0x00])]), bs_buf = [], bs_sent = []\<rparr> = Running s' \<and>
    bs_master s' = {} \<and> length (bs_sent s') = 1"
  using short_report_closes_scanner [of "\<lparr>bs_master = {12}, bs_fdmax = 12, bs_queue = (\<lambda>_. [])(12 := [Some (''1234123'' @ [CHR 0x00])]),
      bs_buf = [], bs_sent = []\<rparr>" 12 "''1234123'' @ [CHR 0x00]" "\<lambda>_. True"] by simp

text \<open>A report without a NUL is followed by what an earlier one left in the buffer.\<close>

lemma old_bytes_follow_code:
  assumes "4 \<le> length bytes" "CHR 0x00 \<notin> set bytes" "CHR 0x00 \<in> set (drop (length bytes) buf)"
  shows "code_in (bytes @ drop (length bytes) buf) = Some (drop 4 bytes @ takeWhile (\<lambda>c. c \<noteq> CHR 0x00) (drop (length bytes) buf))"
proof -
  have "CHR 0x00 \<notin> set (drop 4 bytes)"
    using assms(2) in_set_dropD by fast
  then show ?thesis
    using assms(1,3) by (auto simp: code_in_def takeWhile_append)
qed

end
