(* ===== verification/Cli_Output.thy ===== *)
theory Cli_Output
  imports BM_Prelude
begin

text \<open>
  The helpers of the command line client, \<^verbatim>\<open>cli/src/utils.c\<close> with the types of \<^verbatim>\<open>cli/src/bmcli.h\<close>: abbreviations, the
  choice of fields, and how a row of a table, a header or a list of values is printed.  The result of printing is the list of
  lines.  Translations are the identity; what GLib knows about characters is the parameter \<open>unicode\<close>.
\<close>

section \<open>Types\<close>

datatype bmc_result =
    BMC_RESULT_SUCCESS | BMC_RESULT_ERROR_UNKNOWN | BMC_RESULT_ERROR_USER_INPUT | BMC_RESULT_ERROR_TIMEOUT_EXPIRED
  | BMC_RESULT_ERROR_CON_ACTIVATION | BMC_RESULT_ERROR_CON_DEACTIVATION | BMC_RESULT_ERROR_DEV_DISCONNECT
  | BMC_RESULT_ERROR_BM_NOT_RUNNING

fun exit_code :: "bmc_result \<Rightarrow> nat" where
  "exit_code BMC_RESULT_SUCCESS = 0"
| "exit_code BMC_RESULT_ERROR_UNKNOWN = 1"
| "exit_code BMC_RESULT_ERROR_USER_INPUT = 2"
| "exit_code BMC_RESULT_ERROR_TIMEOUT_EXPIRED = 3"
| "exit_code BMC_RESULT_ERROR_CON_ACTIVATION = 4"
| "exit_code BMC_RESULT_ERROR_CON_DEACTIVATION = 5"
| "exit_code BMC_RESULT_ERROR_DEV_DISCONNECT = 6"
| "exit_code BMC_RESULT_ERROR_BM_NOT_RUNNING = 7"

datatype print_output = BMC_PRINT_TERSE | BMC_PRINT_NORMAL | BMC_PRINT_PRETTY

record output_field =
  of_name :: string
  of_width :: nat
  of_value :: cstr

definition BMC_PF_FLAG_MULTILINE :: u32 where "BMC_PF_FLAG_MULTILINE = 0x1"
definition BMC_PF_FLAG_TERSE :: u32 where "BMC_PF_FLAG_TERSE = 0x2"
definition BMC_PF_FLAG_PRETTY :: u32 where "BMC_PF_FLAG_PRETTY = 0x4"
definition BMC_PF_FLAG_MAIN_HEADER_ADD :: u32 where "BMC_PF_FLAG_MAIN_HEADER_ADD = 0x8"
definition BMC_PF_FLAG_MAIN_HEADER_ONLY :: u32 where "BMC_PF_FLAG_MAIN_HEADER_ONLY = 0x10"
definition BMC_PF_FLAG_FIELD_NAMES :: u32 where "BMC_PF_FLAG_FIELD_NAMES = 0x20"
definition BMC_PF_FLAG_ESCAPE :: u32 where "BMC_PF_FLAG_ESCAPE = 0x40"
definition BMC_PF_FLAG_SECTION_PREFIX :: u32 where "BMC_PF_FLAG_SECTION_PREFIX = 0x80"

lemmas pf_flag_defs = BMC_PF_FLAG_MULTILINE_def BMC_PF_FLAG_TERSE_def BMC_PF_FLAG_PRETTY_def BMC_PF_FLAG_MAIN_HEADER_ADD_def
  BMC_PF_FLAG_MAIN_HEADER_ONLY_def BMC_PF_FLAG_FIELD_NAMES_def BMC_PF_FLAG_ESCAPE_def BMC_PF_FLAG_SECTION_PREFIX_def

record print_spec =
  pf_indices :: "nat list"
  pf_header_name :: string
  pf_indent :: int
  pf_flags :: u32

definition pf_has :: "print_spec \<Rightarrow> u32 \<Rightarrow> bool" where
  "pf_has pf flag \<longleftrightarrow> pf_flags pf AND flag \<noteq> 0"

section \<open>Arguments\<close>

text \<open>Whether a word is an abbreviation of a command: zero if it is.\<close>

definition cli_matches :: "string \<Rightarrow> string \<Rightarrow> int" where
  "cli_matches cmd pattern =
     (if length cmd > length pattern then - 1 else strcmp (take (length cmd) pattern) cmd)"

text \<open>The arguments are a list; the count is its length.\<close>

definition next_arg :: "string list \<Rightarrow> int \<times> string list" where
  "next_arg argv = (if length argv \<le> 1 then (- 1, argv) else (0, tl argv))"

section \<open>Fields\<close>

text \<open>GLib's view of UTF-8: the character at a pointer, and which characters are wide or take no width.\<close>

record unicode =
  u_get_char :: "string \<Rightarrow> nat"
  u_iswide :: "nat \<Rightarrow> bool"
  u_iszerowidth :: "nat \<Rightarrow> bool"

text \<open>\<^verbatim>\<open>g_utf8_next_char\<close> looks at the first byte.\<close>

definition utf8_skip :: "char \<Rightarrow> nat" where
  "utf8_skip c =
     (let b = char_code c
      in if b < 0xC0 then 1 else if b < 0xE0 then 2 else if b < 0xF0 then 3 else if b < 0xF8 then 4
         else if b < 0xFC then 5 else if b < 0xFE then 6 else 1)"

function screen_width :: "unicode \<Rightarrow> string \<Rightarrow> nat" where
  "screen_width u s =
     (case s of
        [] \<Rightarrow> 0
      | c # _ \<Rightarrow>
          (if u_iswide u (u_get_char u s) then 2 else if u_iszerowidth u (u_get_char u s) then 0 else 1) +
          screen_width u (drop (utf8_skip c) s))"
  by pat_completeness auto
termination
  by (relation "measure (\<lambda>(_, s). length s)") (auto simp: utf8_skip_def Let_def)

declare screen_width.simps [simp del]

record field_error =
  fe_code :: nat
  fe_message :: string

fun find_field :: "string \<Rightarrow> output_field list \<Rightarrow> nat \<Rightarrow> nat option" where
  "find_field name [] i = None"
| "find_field name (f # fields_array) i = (if strcaseeq name (of_name f) then Some i else find_field name fields_array (i + 1))"

fun parse_fields_loop :: "string list \<Rightarrow> output_field list \<Rightarrow> nat list \<Rightarrow> field_error + nat list" where
  "parse_fields_loop [] fields_array arr = Inr arr"
| "parse_fields_loop (field # iter) fields_array arr =
     (case find_field field fields_array 0 of
        Some i \<Rightarrow> parse_fields_loop iter fields_array (arr @ [i])
      | None \<Rightarrow>
          if strcaseeq field ''all'' \<or> strcaseeq field ''common''
          then Inl \<lparr>fe_code = 0, fe_message = ''field '' @ [CHR 0x27] @ field @ [CHR 0x27] @ '' has to be alone''\<rparr>
          else Inl \<lparr>fe_code = 1, fe_message = ''invalid field '' @ [CHR 0x27] @ field @ [CHR 0x27]\<rparr>)"

definition parse_output_fields :: "string \<Rightarrow> output_field list \<Rightarrow> field_error + nat list" where
  "parse_output_fields fields_str fields_array = parse_fields_loop (strsplit_set '','' fields_str) fields_array []"

definition bmc_terse_option_check :: "print_output \<Rightarrow> cstr \<Rightarrow> string option" where
  "bmc_terse_option_check output_mode required =
     (if output_mode = BMC_PRINT_TERSE
      then (case required of
              None \<Rightarrow> Some (''Option '' @ [CHR 0x27] @ ''--terse'' @ [CHR 0x27] @ '' requires specifying '' @ [CHR 0x27] @ ''--fields'' @ [CHR 0x27])
            | Some f \<Rightarrow>
                if strcaseeq f ''all'' \<or> strcaseeq f ''common''
                then Some (''Option '' @ [CHR 0x27] @ ''--terse'' @ [CHR 0x27] @ '' requires specific '' @ [CHR 0x27] @ ''--fields'' @ [CHR 0x27] @
                           '' option values , not '' @ [CHR 0x27] @ f @ [CHR 0x27])
                else None)
      else None)"

section \<open>Printing\<close>

text \<open>\<^verbatim>\<open>%*s\<close> and \<^verbatim>\<open>%-*s\<close>; a negative width is a left-justified one.\<close>

definition fmt_left :: "int \<Rightarrow> string \<Rightarrow> string" where
  "fmt_left w s = s @ replicate (nat \<bar>w\<bar> - length s) (CHR '' '')"

definition fmt_right :: "int \<Rightarrow> string \<Rightarrow> string" where
  "fmt_right w s = (if w < 0 then fmt_left w s else replicate (nat w - length s) (CHR '' '') @ s)"

definition ML_HEADER_WIDTH :: nat where
  "ML_HEADER_WIDTH = 79"

definition field_text :: "output_field \<Rightarrow> string" where
  "field_text f = (case of_value f of Some v \<Rightarrow> v | None \<Rightarrow> ''not set'')"

definition print_main_header :: "unicode \<Rightarrow> string \<Rightarrow> nat \<Rightarrow> nat \<Rightarrow> string list" where
  "print_main_header u header_name table_width line_width =
     (let line = replicate line_width (CHR ''='');
          width1 = int (length header_name);
          width2 = int (screen_width u header_name)
      in [line, fmt_right ((int table_width + width2) div 2 + width1 - width2) header_name, line])"

text \<open>One value in multiline mode; the first field is the prefix of the others.\<close>

definition print_multiline_value :: "bool \<Rightarrow> bool \<Rightarrow> output_field list \<Rightarrow> nat \<Rightarrow> string list" where
  "print_multiline_value section_prefix terse field_values idx =
     (if section_prefix \<and> idx = 0 then []
      else [fmt_left (if terse then 0 else 32)
              ((if section_prefix then (case of_value (field_values ! 0) of Some v \<Rightarrow> v | None \<Rightarrow> ''(null)'') @ ''.'' else []) @
               of_name (field_values ! idx) @ '':'') @ field_text (field_values ! idx)])"

definition print_multiline :: "unicode \<Rightarrow> print_spec \<Rightarrow> output_field list \<Rightarrow> string list" where
  "print_multiline u pf field_values =
     (let pretty = pf_has pf BMC_PF_FLAG_PRETTY;
          main_header_only = pf_has pf BMC_PF_FLAG_MAIN_HEADER_ONLY;
          main_header = (pf_has pf BMC_PF_FLAG_MAIN_HEADER_ADD \<or> main_header_only);
          header_width = screen_width u (pf_header_name pf) + 4
      in (if main_header \<and> pretty
          then print_main_header u (pf_header_name pf) (if header_width < ML_HEADER_WIDTH then ML_HEADER_WIDTH else header_width)
                 ML_HEADER_WIDTH
          else []) @
         (if \<not> main_header_only \<and> \<not> pf_has pf BMC_PF_FLAG_FIELD_NAMES
          then concat (map (print_multiline_value (pf_has pf BMC_PF_FLAG_SECTION_PREFIX) (pf_has pf BMC_PF_FLAG_TERSE) field_values)
                         (pf_indices pf)) @
               (if pretty then [replicate ML_HEADER_WIDTH (CHR ''-'')] else [])
          else []))"

text \<open>A row: terse values are escaped and end with a colon, others are padded to the width of the column.\<close>

definition escape_value :: "string \<Rightarrow> string" where
  "escape_value v = concat (map (\<lambda>c. if c = CHR '':'' \<or> c = CHR 0x5C then [CHR 0x5C, c] else [c]) v)"

definition row_step :: "unicode \<Rightarrow> print_spec \<Rightarrow> output_field list \<Rightarrow> string \<times> int \<Rightarrow> nat \<Rightarrow> string \<times> int" where
  "row_step u pf field_values st idx =
     (case st of
        (str, table_width) \<Rightarrow>
          (let f = field_values ! idx;
               val = (if pf_has pf BMC_PF_FLAG_FIELD_NAMES then of_name f else field_text f)
           in if pf_has pf BMC_PF_FLAG_TERSE
              then (str @ (if pf_has pf BMC_PF_FLAG_ESCAPE then escape_value val else val) @ '':'', table_width)
              else let w = int (of_width f) + int (length val) - int (screen_width u val)
                   in (str @ fmt_left w (if val = [] then ''--'' else val) @ '' '', table_width + w + 1)))"

definition print_tabular :: "unicode \<Rightarrow> print_spec \<Rightarrow> output_field list \<Rightarrow> string list" where
  "print_tabular u pf field_values =
     (let pretty = pf_has pf BMC_PF_FLAG_PRETTY;
          main_header_only = pf_has pf BMC_PF_FLAG_MAIN_HEADER_ONLY;
          main_header = (pf_has pf BMC_PF_FLAG_MAIN_HEADER_ADD \<or> main_header_only);
          (str, row_width) = foldl (row_step u pf field_values) ([], 0) (pf_indices pf);
          header_width = int (screen_width u (pf_header_name pf)) + 4;
          table_width = (if main_header \<and> pretty then (if row_width < header_width then header_width else row_width) else row_width)
      in (if main_header \<and> pretty then print_main_header u (pf_header_name pf) (nat table_width) (nat table_width) else []) @
         (if \<not> main_header_only \<and> str \<noteq> []
          then [(if pf_indent pf > 0 then replicate (nat (pf_indent pf)) (CHR '' '') else []) @ butlast str] else []) @
         (if \<not> main_header_only \<and> pf_has pf BMC_PF_FLAG_FIELD_NAMES \<and> pretty \<and> str \<noteq> []
             \<and> \<not> (butlast str = [] \<and> pf_indent pf \<le> 0)
          then [replicate (nat table_width) (CHR ''-'')] else []))"

definition print_fields :: "unicode \<Rightarrow> print_spec \<Rightarrow> output_field list \<Rightarrow> string list" where
  "print_fields u pf field_values =
     (if (pf_has pf BMC_PF_FLAG_MAIN_HEADER_ONLY \<or> pf_has pf BMC_PF_FLAG_FIELD_NAMES) \<and> pf_has pf BMC_PF_FLAG_TERSE then []
      else if pf_has pf BMC_PF_FLAG_MULTILINE then print_multiline u pf field_values
      else print_tabular u pf field_values)"

section \<open>Lemmas\<close>

text \<open>A word is an abbreviation exactly if it is a prefix; the empty word abbreviates everything.\<close>

lemma matches_prefix: "cli_matches cmd pattern = 0 \<longleftrightarrow> (\<exists>rest. pattern = cmd @ rest)"
proof -
  have "take (length cmd) pattern = cmd \<longleftrightarrow> (\<exists>rest. pattern = cmd @ rest)"
    by (metis append_eq_conv_conj)
  moreover have "length cmd \<le> length pattern" if "\<exists>rest. pattern = cmd @ rest"
    using that by auto
  ultimately show ?thesis
    by (auto simp: cli_matches_def strcmp_eq_0)
qed

text \<open>The fields chosen are, name by name, the first of the array that has it, in either case.\<close>

definition first_field :: "output_field list \<Rightarrow> string \<Rightarrow> nat \<Rightarrow> bool" where
  "first_field fields_array name i \<longleftrightarrow>
     i < length fields_array \<and> strcaseeq name (of_name (fields_array ! i)) \<and> (\<forall>j < i. \<not> strcaseeq name (of_name (fields_array ! j)))"

lemma find_field_iff: "find_field name fa k = Some i \<longleftrightarrow> k \<le> i \<and> first_field fa name (i - k)"
proof (induction fa arbitrary: k)
  case (Cons f fa)
  show ?case
  proof (cases "strcaseeq name (of_name f)")
    case True
    have "first_field (f # fa) name n \<longleftrightarrow> n = 0" for n
      using True by (cases n) (simp_all add: first_field_def All_less_Suc2)
    then have "first_field (f # fa) name (i - k) \<longleftrightarrow> i \<le> k"
      by simp
    moreover have "find_field name (f # fa) k = Some i \<longleftrightarrow> k = i"
      using True by simp
    ultimately show ?thesis
      by linarith
  next
    case False
    then have "first_field (f # fa) name n \<longleftrightarrow> n > 0 \<and> first_field fa name (n - 1)" for n
      by (cases n) (simp_all add: first_field_def All_less_Suc2)
    from this [of "i - k"] have "k \<le> i \<and> first_field (f # fa) name (i - k) \<longleftrightarrow> Suc k \<le> i \<and> first_field fa name (i - Suc k)"
      by (metis Suc_le_eq diff_Suc_1' diff_Suc_eq_diff_pred diff_commute less_imp_le zero_less_diff)
    moreover have "find_field name (f # fa) k = find_field name fa (Suc k)"
      using False by simp
    ultimately show ?thesis
      using Cons.IH [of "Suc k"] by metis
  qed
qed (simp add: first_field_def)

lemma parse_fields_loop_iff:
  "parse_fields_loop names fa arr = Inr idx \<longleftrightarrow> (\<exists>is. idx = arr @ is \<and> list_all2 (first_field fa) names is)"
proof (induction names arbitrary: arr)
  case (Cons name names)
  show ?case
  proof (cases "find_field name fa 0")
    case None
    then have "\<not> first_field fa name i" for i
      using find_field_iff [of name fa 0 i] by simp
    then show ?thesis
      using None by (auto simp: list_all2_Cons1)
  next
    case (Some i)
    then have i: "first_field fa name i"
      using find_field_iff [of name fa 0 i] by simp
    have "j = i" if "first_field fa name j" for j
      using i that unfolding first_field_def by (metis linorder_neqE_nat)
    then have only: "first_field fa name j \<longleftrightarrow> j = i" for j
      using i by blast
    have step: "list_all2 (first_field fa) (name # names) is \<longleftrightarrow> (\<exists>is'. is = i # is' \<and> list_all2 (first_field fa) names is')" for "is"
      by (cases "is") (simp_all add: only)
    then show ?thesis
      unfolding parse_fields_loop.simps Some option.case Cons.IH step by auto
  qed
qed auto

text \<open>A row of terse output with escapes, read back: fields end at colons, a backslash makes the next character plain.\<close>

definition cons_first :: "char \<Rightarrow> string list \<Rightarrow> string list" where
  "cons_first c ts = (case ts of [] \<Rightarrow> [[c]] | t # ts' \<Rightarrow> (c # t) # ts')"

fun split_terse :: "string \<Rightarrow> string list" where
  "split_terse [] = [[]]"
| "split_terse (c # cs) =
     (if c = CHR '':'' then [] # split_terse cs
      else if c = CHR 0x5C then (case cs of [] \<Rightarrow> [[c]] | d # ds \<Rightarrow> cons_first d (split_terse ds))
      else cons_first c (split_terse cs))"

lemma escape_Cons: "escape_value (c # v) = (if c = CHR '':'' \<or> c = CHR 0x5C then [CHR 0x5C, c] else [c]) @ escape_value v"
  by (simp add: escape_value_def)

lemma split_escaped: "split_terse (escape_value v @ CHR '':'' # rest) = v # split_terse rest"
  by (induction v) (simp add: escape_value_def, auto simp: escape_Cons cons_first_def)

lemma split_escaped_last: "split_terse (escape_value v) = [v]"
  by (induction v) (simp add: escape_value_def, auto simp: escape_Cons cons_first_def)

lemma terse_row:
  assumes "pf_has pf BMC_PF_FLAG_TERSE" "pf_has pf BMC_PF_FLAG_ESCAPE" "\<not> pf_has pf BMC_PF_FLAG_FIELD_NAMES"
  shows "foldl (row_step u pf fv) (str, w) is = (str @ concat (map (\<lambda>i. escape_value (field_text (fv ! i)) @ '':'') is), w)"
  using assms by (induction "is" arbitrary: str) (simp_all add: row_step_def Let_def)

lemma split_row:
  "vs \<noteq> [] \<Longrightarrow> split_terse (butlast (concat (map (\<lambda>v. escape_value v @ '':'') vs))) = vs"
proof (induction vs)
  case (Cons v vs)
  show ?case
  proof (cases "vs = []")
    case True
    then show ?thesis
      by (simp add: split_escaped_last)
  next
    case False
    then have "concat (map (\<lambda>v. escape_value v @ '':'') vs) \<noteq> []"
      by (cases vs) simp_all
    then show ?thesis
      using Cons.IH False by (simp add: butlast_append split_escaped)
  qed
qed simp

lemma terse_row_line:
  assumes "pf_has pf BMC_PF_FLAG_TERSE" "pf_has pf BMC_PF_FLAG_ESCAPE"
    and "\<not> pf_has pf BMC_PF_FLAG_MULTILINE" "\<not> pf_has pf BMC_PF_FLAG_FIELD_NAMES" "\<not> pf_has pf BMC_PF_FLAG_MAIN_HEADER_ONLY"
    and "\<not> pf_has pf BMC_PF_FLAG_PRETTY" "pf_indent pf = 0" "pf_indices pf \<noteq> []"
  shows "\<exists>line. print_fields u pf field_values = [line] \<and>
    split_terse line = map (\<lambda>i. field_text (field_values ! i)) (pf_indices pf)"
proof -
  let ?row = "concat (map (\<lambda>i. escape_value (field_text (field_values ! i)) @ '':'') (pf_indices pf))"
  have "?row \<noteq> []"
    using assms(8) by (cases "pf_indices pf") simp_all
  then have "print_fields u pf field_values = [butlast ?row]"
    using assms by (simp add: print_fields_def print_tabular_def Let_def terse_row)
  moreover have "split_terse (butlast ?row) = map (\<lambda>i. field_text (field_values ! i)) (pf_indices pf)"
    using split_row [of "map (\<lambda>i. field_text (field_values ! i)) (pf_indices pf)"] assms(8) by (simp add: comp_def)
  ultimately show ?thesis
    by blast
qed



text \<open>Without escapes a value with a colon cannot be told from two values.\<close>

lemma unescaped_rows_collide:
  "print_tabular u \<lparr>pf_indices = [0, 1], pf_header_name = [], pf_indent = 0, pf_flags = BMC_PF_FLAG_TERSE\<rparr>
     [\<lparr>of_name = [], of_width = 0, of_value = Some ''a:b''\<rparr>, \<lparr>of_name = [], of_width = 0, of_value = Some ''c''\<rparr>] =
   print_tabular u \<lparr>pf_indices = [0, 1], pf_header_name = [], pf_indent = 0, pf_flags = BMC_PF_FLAG_TERSE\<rparr>
     [\<lparr>of_name = [], of_width = 0, of_value = Some ''a''\<rparr>, \<lparr>of_name = [], of_width = 0, of_value = Some ''b:c''\<rparr>]"
  by (simp add: print_tabular_def Let_def row_step_def pf_has_def pf_flag_defs field_text_def)

end
