(* ===== verification/Cli_Status.thy ===== *)
theory Cli_Status
  imports Cli_Output Client Device_Bt Activation Daemon
begin

text \<open>
  The command line client \<^verbatim>\<open>bmcli\<close>: its state, and the commands about the daemon and about devices, \<^verbatim>\<open>cli/src/barcode-manager.c\<close>
  and \<^verbatim>\<open>cli/src/devices.c\<close>.  What the daemon and the bus answer is the record \<open>cli_world\<close>; devices and active connections
  are seen through what the getters of the client library return.
\<close>

section \<open>State\<close>

text \<open>A command goes on, crashes (at a \<^verbatim>\<open>NULL\<close> pointer, a read out of bounds or a failed assertion), or ends the process at once.\<close>

datatype 'a cli_run = Cli 'a | Cli_Crashed | Cli_Exit nat

fun cli_bind :: "'a cli_run \<Rightarrow> ('a \<Rightarrow> 'b cli_run) \<Rightarrow> 'b cli_run" where
  "cli_bind (Cli a) f = f a"
| "cli_bind Cli_Crashed f = Cli_Crashed"
| "cli_bind (Cli_Exit n) f = Cli_Exit n"

lemma bind_Cli: "cli_bind r f = Cli y \<longleftrightarrow> (\<exists>x. r = Cli x \<and> f x = Cli y)"
  by (cases r) simp_all

record device_view =
  dv_iface :: cstr
  dv_bluetooth :: bool
  dv_driver :: cstr
  dv_state :: u32
  dv_path :: string
  dv_caps :: u32

record active_view =
  av_path :: string
  av_connection :: cstr
  av_scope :: u32
  av_devices :: "device_view list option"
  av_default :: bool
  av_service :: cstr
  av_specific :: cstr
  av_state :: u32

text \<open>The bus: the error of connecting to it, whether a proxy can be made, whether the daemon has its name or the error of asking; the
  daemon; the settings services, \<open>None\<close> if no object for it can be made, otherwise whether it runs; the error of \<^verbatim>\<open>Sleep\<close>; and the
  text of a time, \<open>None\<close> where \<^verbatim>\<open>localtime\<close> fails.\<close>

record cli_world =
  cw_bus :: cstr
  cw_proxy :: bool
  cw_owner :: "string + bool"
  cw_client :: bool
  cw_state :: u32
  cw_net_enabled :: bool
  cw_devices :: "device_view list option"
  cw_actives :: "active_view list option"
  cw_system_settings :: "bool option"
  cw_user_settings :: "bool option"
  cw_sleep :: cstr
  cw_time :: "u64 \<Rightarrow> cstr"
  cw_unicode :: unicode

datatype cli_call = Sent client_call_sent | Sleep_Call bool

datatype cli_message = Usage string | Unknown_Parameter string | Return_Text string

text \<open>\<^verbatim>\<open>BmCli\<close>, what has been printed, the calls made, whether the loop was quit, and the static variables of \<^verbatim>\<open>connections.c\<close>:
  the arguments, which services have been read, the handler for a change of the active connections, the path and the error of the activation, and
  what it waits for.\<close>

record bmcli =
  cli_client :: bool
  cli_return_value :: bmc_result
  cli_return_text :: string
  cli_timeout :: int
  cli_system_running :: bool
  cli_user_running :: bool
  cli_system_connections :: "connection list"
  cli_user_connections :: "connection list"
  cli_should_wait :: bool
  cli_nowait_flag :: bool
  cli_print_output :: print_output
  cli_multiline :: bool
  cli_mode_specified :: bool
  cli_escape_values :: bool
  cli_required_fields :: cstr
  cli_allowed :: "output_field list"
  cli_indices :: "nat list"
  cli_header :: string
  cli_flags :: u32
  cli_out :: "string list"
  cli_err :: "cli_message list"
  cli_calls :: "cli_call list"
  cli_quit :: bool
  con_args :: "string list"
  con_system_called :: bool
  con_user_called :: bool
  con_pending :: bool
  con_handler :: bool
  con_path_wanted :: cstr
  con_error :: cstr
  con_watching :: bool
  con_timer :: bool

definition bmc_init :: bmcli where
  "bmc_init =
     \<lparr>cli_client = False, cli_return_value = BMC_RESULT_SUCCESS, cli_return_text = ''Success'', cli_timeout = 10,
      cli_system_running = False, cli_user_running = False, cli_system_connections = [], cli_user_connections = [],
      cli_should_wait = False, cli_nowait_flag = True, cli_print_output = BMC_PRINT_NORMAL, cli_multiline = False,
      cli_mode_specified = False, cli_escape_values = True, cli_required_fields = None, cli_allowed = [], cli_indices = [],
      cli_header = [], cli_flags = 0, cli_out = [], cli_err = [], cli_calls = [], cli_quit = False, con_args = [],
      con_system_called = False, con_user_called = False, con_pending = False, con_handler = False, con_path_wanted = None,
      con_error = None, con_watching = False, con_timer = False\<rparr>"

section \<open>Common steps\<close>

definition squote :: "string \<Rightarrow> string" where
  "squote s = [CHR 0x27] @ s @ [CHR 0x27]"

definition cli_fail :: "bmc_result \<Rightarrow> string \<Rightarrow> bmcli \<Rightarrow> bmcli" where
  "cli_fail result txt bmc = bmc\<lparr>cli_return_text := txt, cli_return_value := result\<rparr>"

definition cli_report :: "cli_message \<Rightarrow> bmcli \<Rightarrow> bmcli" where
  "cli_report m bmc = bmc\<lparr>cli_err := cli_err bmc @ [m]\<rparr>"

definition cli_do_quit :: "bmcli \<Rightarrow> bmcli" where
  "cli_do_quit bmc = bmc\<lparr>cli_quit := True\<rparr>"

text \<open>\<^verbatim>\<open>multiline_flag | mode_flag | escape_flag\<close>.\<close>

definition output_flags :: "bmcli \<Rightarrow> u32" where
  "output_flags bmc =
     (if cli_multiline bmc then BMC_PF_FLAG_MULTILINE else 0) OR
     (case cli_print_output bmc of BMC_PRINT_PRETTY \<Rightarrow> BMC_PF_FLAG_PRETTY | BMC_PRINT_TERSE \<Rightarrow> BMC_PF_FLAG_TERSE | BMC_PRINT_NORMAL \<Rightarrow> 0) OR
     (if cli_escape_values bmc then BMC_PF_FLAG_ESCAPE else 0)"

definition cli_print :: "cli_world \<Rightarrow> bmcli \<Rightarrow> bmcli" where
  "cli_print w bmc =
     bmc\<lparr>cli_out := cli_out bmc @ print_fields (cw_unicode w)
           \<lparr>pf_indices = cli_indices bmc, pf_header_name = cli_header bmc, pf_indent = 0, pf_flags = cli_flags bmc\<rparr> (cli_allowed bmc)\<rparr>"

definition set_values :: "(nat \<times> cstr) list \<Rightarrow> bmcli \<Rightarrow> bmcli" where
  "set_values vs bmc = bmc\<lparr>cli_allowed := foldl (\<lambda>fs (i, v). fs[i := (fs ! i)\<lparr>of_value := v\<rparr>]) (cli_allowed bmc) vs\<rparr>"

definition output_fields :: "(string \<times> nat) list \<Rightarrow> output_field list" where
  "output_fields nws = map (\<lambda>(n, w). \<lparr>of_name = n, of_width = w, of_value = None\<rparr>) nws"

text \<open>The fields asked for: none or \<^verbatim>\<open>common\<close>, \<^verbatim>\<open>all\<close>, or a list.\<close>

definition fields_wanted :: "cstr \<Rightarrow> string \<Rightarrow> string \<Rightarrow> string" where
  "fields_wanted required common all_fields =
     (case required of
        None \<Rightarrow> common
      | Some r \<Rightarrow> if strcaseeq r ''common'' then common else if strcaseeq r ''all'' then all_fields else r)"

text \<open>The table of a command and the columns of it that are printed.  The tables are static in C: a row that an earlier device left in one is
  never printed, and only the width of a main header could show that it was there, if it had characters of several bytes; here a table is
  always taken without values.\<close>

definition set_indices :: "output_field list \<Rightarrow> field_error + nat list \<Rightarrow> bmcli \<Rightarrow> bmcli" where
  "set_indices allowed parsed bmc = bmc\<lparr>cli_allowed := allowed, cli_indices := (case parsed of Inr is \<Rightarrow> is | Inl _ \<Rightarrow> [])\<rparr>"

definition field_error_text :: "string \<Rightarrow> string \<Rightarrow> field_error \<Rightarrow> string" where
  "field_error_text command all_fields e =
     ''Error: '' @ squote command @ '': '' @ fe_message e @ (if fe_code e = 0 then [] else ''; allowed fields: '' @ all_fields)"

text \<open>A failure to create the client ends the process.\<close>

definition bmc_get_client :: "cli_world \<Rightarrow> bmcli \<Rightarrow> bmcli cli_run" where
  "bmc_get_client w bmc =
     (if \<not> cli_client bmc then (if cw_client w then Cli (bmc\<lparr>cli_client := True\<rparr>) else Cli_Exit (exit_code BMC_RESULT_ERROR_UNKNOWN))
      else Cli bmc)"

text \<open>Whether the daemon runs, the error, and the state with the text the failures leave.\<close>

definition bmc_is_bm_running :: "cli_world \<Rightarrow> bmcli \<Rightarrow> bool \<times> cstr \<times> bmcli" where
  "bmc_is_bm_running w bmc =
     (case cw_bus w of
        Some msg \<Rightarrow>
          (False, Some msg, cli_fail BMC_RESULT_ERROR_UNKNOWN (''Error: Couldn'' @ [CHR 0x27] @ ''t connect to system bus: '' @ msg) bmc)
      | None \<Rightarrow>
          if \<not> cw_proxy w
          then (let txt = ''Error: Couldn'' @ [CHR 0x27] @ ''t create D-Bus object proxy for org.freedesktop.DBus''
                in (False, Some txt, cli_fail BMC_RESULT_ERROR_UNKNOWN txt bmc))
          else (case cw_owner w of
                  Inl msg \<Rightarrow> (False, Some msg, cli_fail BMC_RESULT_ERROR_UNKNOWN (''Error: NameHasOwner request failed: '' @ msg) bmc)
                | Inr has_owner \<Rightarrow> (has_owner, None, bmc)))"

definition not_running_error :: "cstr \<Rightarrow> bmcli \<Rightarrow> bmcli" where
  "not_running_error error bmc =
     (case error of
        Some msg \<Rightarrow>
          cli_fail BMC_RESULT_ERROR_UNKNOWN (''Error: Can'' @ [CHR 0x27] @ ''t find out if BarcodeManager is running: '' @ msg @ ''.'') bmc
      | None \<Rightarrow> cli_fail BMC_RESULT_ERROR_BM_NOT_RUNNING ''Error: BarcodeManager is not running.'' bmc)"

definition unknown_parameters :: "string list \<Rightarrow> bmcli \<Rightarrow> bmcli" where
  "unknown_parameters args bmc = foldl (\<lambda>b a. cli_report (Unknown_Parameter a) b) bmc args"

section \<open>The daemon: \<^verbatim>\<open>bmcli bm\<close>\<close>

definition bmc_fields_bm_status :: "output_field list" where
  "bmc_fields_bm_status = output_fields [(''RUNNING'', 15), (''STATE'', 15), (''NET-ENABLED'', 13)]"

definition bm_state_to_string :: "u32 \<Rightarrow> string" where
  "bm_state_to_string state =
     (if state = 1 then ''asleep'' else if state = 2 then ''connecting'' else if state = 3 then ''connected''
      else if state = 4 then ''disconnected'' else ''unknown'')"

text \<open>A command: what it returns, which its caller stores, and the state.\<close>

definition show_bm_status :: "cli_world \<Rightarrow> bmcli \<Rightarrow> (bmc_result \<times> bmcli) cli_run" where
  "show_bm_status w bmc =
     (let flags = output_flags bmc;
          parsed = parse_output_fields (fields_wanted (cli_required_fields bmc) ''RUNNING,STATE'' ''RUNNING,STATE,NET-ENABLED'') bmc_fields_bm_status;
          bmc = set_indices bmc_fields_bm_status parsed bmc
      in case parsed of
           Inl e \<Rightarrow>
             Cli (BMC_RESULT_ERROR_USER_INPUT,
                  cli_fail BMC_RESULT_ERROR_USER_INPUT (field_error_text ''bm status'' ''RUNNING,STATE,NET-ENABLED'' e) bmc)
         | Inr _ \<Rightarrow>
             (let bmc = cli_print w (bmc\<lparr>cli_flags := flags OR BMC_PF_FLAG_MAIN_HEADER_ADD OR BMC_PF_FLAG_FIELD_NAMES,
                                          cli_header := ''BarcodeManager status''\<rparr>)
              in case bmc_is_bm_running w bmc of
                   (running, _, bmc) \<Rightarrow>
                     cli_bind (if running then bmc_get_client w bmc else Cli bmc)
                       (\<lambda>bmc. Cli (BMC_RESULT_SUCCESS,
                          cli_print w ((set_values [(0, Some (if running then ''running'' else ''not running'')),
                            (1, Some (bm_state_to_string (if running then cw_state w else 0))),
                            (2, Some (if running then (if cw_net_enabled w then ''enabled'' else ''disabled'') else ''unknown''))] bmc)
                            \<lparr>cli_flags := flags\<rparr>)))))"

definition networking_set_sleep :: "cli_world \<Rightarrow> bool \<Rightarrow> bmcli \<Rightarrow> bmcli" where
  "networking_set_sleep w in_sleep bmc =
     (case cw_bus w of
        Some msg \<Rightarrow> cli_fail BMC_RESULT_ERROR_UNKNOWN (''Error: Couldn'' @ [CHR 0x27] @ ''t connect to system bus: '' @ msg) bmc
      | None \<Rightarrow>
          if \<not> cw_proxy w
          then cli_fail BMC_RESULT_ERROR_UNKNOWN (''Error: Couldn'' @ [CHR 0x27] @ ''t create D-Bus object proxy.'') bmc
          else (let bmc = bmc\<lparr>cli_calls := cli_calls bmc @ [Sleep_Call in_sleep]\<rparr>
                in case cw_sleep w of
                     Some msg \<Rightarrow> cli_fail BMC_RESULT_ERROR_UNKNOWN (''Error in sleep: '' @ msg) bmc
                   | None \<Rightarrow> bmc))"

definition option_error :: "string \<Rightarrow> bmcli \<Rightarrow> bmcli" where
  "option_error msg bmc = cli_fail BMC_RESULT_ERROR_USER_INPUT (''Error: '' @ msg @ ''.'') bmc"

text \<open>\<^verbatim>\<open>bmcli bm enable\<close> without an argument.\<close>

definition show_net_enabled :: "cli_world \<Rightarrow> bmcli \<Rightarrow> bmcli cli_run" where
  "show_net_enabled w bmc =
     (let flags = output_flags bmc
      in case (case cli_required_fields bmc of Some r \<Rightarrow> if strcaseeq r ''NET-ENABLED'' then None else Some r | None \<Rightarrow> None) of
           Some r \<Rightarrow>
             Cli (cli_fail BMC_RESULT_ERROR_USER_INPUT (''Error: '' @ squote ''--fields'' @ '' value '' @ squote r @
                    '' is not valid here; allowed fields: NET-ENABLED'') bmc)
         | None \<Rightarrow>
             (let bmc = set_indices bmc_fields_bm_status (parse_output_fields ''NET-ENABLED'' bmc_fields_bm_status) bmc;
                  bmc = cli_print w (bmc\<lparr>cli_flags := flags OR BMC_PF_FLAG_MAIN_HEADER_ADD OR BMC_PF_FLAG_FIELD_NAMES,
                                         cli_header := ''Networking enabled''\<rparr>)
              in case bmc_is_bm_running w bmc of
                   (running, _, bmc) \<Rightarrow>
                     cli_bind (if running then bmc_get_client w bmc else Cli bmc)
                       (\<lambda>bmc. Cli (cli_print w ((set_values
                          [(2, Some (if running then (if cw_net_enabled w then ''enabled'' else ''disabled'') else ''unknown''))] bmc)
                          \<lparr>cli_flags := flags\<rparr>)))))"

definition read_bool :: "string \<Rightarrow> bool option" where
  "read_bool s = (if s = ''true'' then Some True else if s = ''false'' then Some False else None)"

definition bad_switch :: "string \<Rightarrow> string \<Rightarrow> bmcli \<Rightarrow> bmcli" where
  "bad_switch command arg bmc =
     cli_fail BMC_RESULT_ERROR_USER_INPUT (''Error: invalid '' @ squote command @ '' parameter: '' @ squote arg @ ''; use '' @
       squote ''true'' @ '' or '' @ squote ''false'' @ ''.'') bmc"

text \<open>A status with its check of the options; the result is stored.\<close>

definition checked_command ::
  "(bmcli \<Rightarrow> (bmc_result \<times> bmcli) cli_run) \<Rightarrow> bmcli \<Rightarrow> bmcli cli_run" where
  "checked_command command bmc =
     (case bmc_terse_option_check (cli_print_output bmc) (cli_required_fields bmc) of
        Some msg \<Rightarrow> Cli (option_error msg bmc)
      | None \<Rightarrow> cli_bind (command bmc) (\<lambda>(result, bmc). Cli (bmc\<lparr>cli_return_value := result\<rparr>)))"

definition barcode_manager_command :: "cli_world \<Rightarrow> string list \<Rightarrow> bmcli \<Rightarrow> bmcli cli_run" where
  "barcode_manager_command w argv bmc =
     (case argv of
        [] \<Rightarrow> checked_command (show_bm_status w) bmc
      | command # _ \<Rightarrow>
          if cli_matches command ''status'' = 0 then checked_command (show_bm_status w) bmc
          else if cli_matches command ''enable'' = 0
          then (case next_arg argv of
                  (missing, argv) \<Rightarrow>
                    if missing \<noteq> 0
                    then (case bmc_terse_option_check (cli_print_output bmc) (cli_required_fields bmc) of
                            Some msg \<Rightarrow> Cli (option_error msg bmc)
                          | None \<Rightarrow> show_net_enabled w bmc)
                    else (case read_bool (hd argv) of
                            None \<Rightarrow> Cli (bad_switch ''enable'' (hd argv) bmc)
                          | Some enable_net \<Rightarrow>
                              cli_bind (bmc_get_client w bmc)
                                (\<lambda>bmc. Cli (bmc\<lparr>cli_calls := cli_calls bmc @ [Sent (client_networking_set_enabled enable_net)]\<rparr>))))
          else if cli_matches command ''sleep'' = 0
          then (case next_arg argv of
                  (missing, argv) \<Rightarrow>
                    if missing \<noteq> 0
                    then Cli (cli_fail BMC_RESULT_ERROR_UNKNOWN ''Error: Sleeping status is not exported by BarcodeManager.'' bmc)
                    else (case read_bool (hd argv) of
                            None \<Rightarrow> Cli (bad_switch ''sleep'' (hd argv) bmc)
                          | Some sleep_flag \<Rightarrow> Cli (networking_set_sleep w sleep_flag bmc)))
          else if command = ''help'' then Cli (cli_report (Usage ''bm'') bmc)
          else Cli (cli_fail BMC_RESULT_ERROR_USER_INPUT (''Error: '' @ squote ''nm'' @ '' command '' @ squote command @ '' is not valid.'') bmc))"

definition do_barcode_manager :: "cli_world \<Rightarrow> string list \<Rightarrow> bmcli \<Rightarrow> (bmc_result \<times> bmcli) cli_run" where
  "do_barcode_manager w argv bmc =
     cli_bind (barcode_manager_command w argv bmc) (\<lambda>bmc. Cli (cli_return_value bmc, cli_do_quit bmc))"

section \<open>Devices: \<^verbatim>\<open>bmcli dev\<close>\<close>

definition bmc_fields_dev_status :: "output_field list" where
  "bmc_fields_dev_status = output_fields [(''DEVICE'', 10), (''TYPE'', 17), (''STATE'', 13), (''DBUS-PATH'', 43)]"

definition bmc_fields_dev_list_sections :: "output_field list" where
  "bmc_fields_dev_list_sections =
     output_fields (map (\<lambda>n. (n, 0)) [''GENERAL'', ''CAPABILITIES'', ''WIFI-PROPERTIES'', ''AP'', ''WIRED-PROPERTIES'', ''IP4-SETTINGS'',
       ''IP4-DNS'', ''IP6-SETTINGS'', ''IP6-DNS''])"

definition BMC_FIELDS_DEV_LIST_SECTIONS_ALL :: string where
  "BMC_FIELDS_DEV_LIST_SECTIONS_ALL =
     ''GENERAL,CAPABILITIES,WIFI-PROPERTIES,AP,WIRED-PROPERTIES,IP4-SETTINGS,IP4-DNS,IP6-SETTINGS,IP6-DNS''"

definition bmc_fields_dev_list_general :: "output_field list" where
  "bmc_fields_dev_list_general =
     output_fields [(''NAME'', 10), (''DEVICE'', 10), (''TYPE'', 17), (''DRIVER'', 10), (''HWADDR'', 19), (''STATE'', 14)]"

definition bmc_fields_dev_list_cap :: "output_field list" where
  "bmc_fields_dev_list_cap = output_fields [(''NAME'', 13), (''CARRIER-DETECT'', 16), (''SPEED'', 10)]"

definition device_state_to_string :: "u32 \<Rightarrow> string" where
  "device_state_to_string state =
     (if state = 1 then ''unmanaged'' else if state = 2 then ''unavailable'' else if state = 3 then ''disconnected''
      else if state = 4 then ''connecting (prepare)'' else if state = 5 then ''connecting (configuring)''
      else if state = 6 then ''connecting (need authentication)'' else if state = 7 then ''connecting (getting IP configuration)''
      else if state = 8 then ''connected'' else if state = 9 then ''connection failed'' else ''unknown'')"

definition get_device_type :: "device_view \<Rightarrow> string" where
  "get_device_type device = (if dv_bluetooth device then ''bluetooth'' else ''Unknown'')"

text \<open>One section of a device: the names, then the values.\<close>

definition print_section ::
  "cli_world \<Rightarrow> u32 \<Rightarrow> output_field list \<Rightarrow> string \<Rightarrow> (nat \<times> cstr) list \<Rightarrow> bmcli \<Rightarrow> bmcli" where
  "print_section w flags fields_array all_fields values bmc =
     (let bmc = cli_print w ((set_indices fields_array (parse_output_fields all_fields fields_array) bmc)\<lparr>cli_flags := flags OR BMC_PF_FLAG_FIELD_NAMES\<rparr>)
      in cli_print w ((set_values values bmc)\<lparr>cli_flags := flags OR BMC_PF_FLAG_SECTION_PREFIX\<rparr>))"

definition show_device_section :: "cli_world \<Rightarrow> device_view \<Rightarrow> u32 \<Rightarrow> bmcli \<times> bool \<Rightarrow> nat \<Rightarrow> bmcli \<times> bool" where
  "show_device_section w device flags st section_idx =
     (case st of
        (bmc, was_output) \<Rightarrow>
          (let bmc = (if cli_print_output bmc \<noteq> BMC_PRINT_TERSE \<and> \<not> cli_multiline bmc \<and> was_output then bmc\<lparr>cli_out := cli_out bmc @ [[]]\<rparr> else bmc)
           in if section_idx = 0
              then (print_section w flags bmc_fields_dev_list_general ''NAME,DEVICE,TYPE,DRIVER,HWADDR,STATE''
                      [(0, Some ''GENERAL''), (1, dv_iface device), (2, Some (get_device_type device)),
                       (3, Some (case dv_driver device of Some d \<Rightarrow> d | None \<Rightarrow> ''(unknown)'')), (4, Some ''unknown)''),
                       (5, Some (device_state_to_string (dv_state device)))] bmc, True)
              else if section_idx = 1
              then (print_section w flags bmc_fields_dev_list_cap ''NAME,CARRIER-DETECT,SPEED''
                      [(0, Some ''CAPABILITIES''), (1, Some (if dv_caps device AND 2 \<noteq> 0 then ''yes'' else ''no'')), (2, Some ''unknown'')] bmc, True)
              else (bmc, False)))"

definition show_device_info :: "cli_world \<Rightarrow> bmcli \<Rightarrow> device_view \<Rightarrow> bmcli" where
  "show_device_info w bmc device =
     (let flags = output_flags bmc
      in case parse_output_fields (fields_wanted (cli_required_fields bmc) BMC_FIELDS_DEV_LIST_SECTIONS_ALL BMC_FIELDS_DEV_LIST_SECTIONS_ALL)
             bmc_fields_dev_list_sections of
           Inl e \<Rightarrow> cli_fail BMC_RESULT_ERROR_USER_INPUT (field_error_text ''dev list'' BMC_FIELDS_DEV_LIST_SECTIONS_ALL e) bmc
         | Inr sections \<Rightarrow>
             (let bmc = set_indices bmc_fields_dev_list_general
                    (parse_output_fields ''NAME,DEVICE,TYPE,DRIVER,HWADDR,STATE'' bmc_fields_dev_list_general) bmc;
                  bmc = cli_print w (bmc\<lparr>cli_flags := flags OR BMC_PF_FLAG_MAIN_HEADER_ONLY, cli_header := ''Device details''\<rparr>)
              in fst (foldl (show_device_section w device flags) (bmc, False) sections)))"

text \<open>Flags for a row after the headers.\<close>

definition clear_headers :: "bmcli \<Rightarrow> bmcli" where
  "clear_headers bmc =
     bmc\<lparr>cli_flags := cli_flags bmc AND (NOT BMC_PF_FLAG_MAIN_HEADER_ADD AND NOT BMC_PF_FLAG_MAIN_HEADER_ONLY AND NOT BMC_PF_FLAG_FIELD_NAMES)\<rparr>"

definition show_device_status :: "cli_world \<Rightarrow> bmcli \<Rightarrow> device_view \<Rightarrow> bmcli" where
  "show_device_status w bmc device =
     cli_print w (clear_headers (set_values
       [(0, dv_iface device), (1, Some (get_device_type device)), (2, Some (device_state_to_string (dv_state device))), (3, Some (dv_path device))] bmc))"

text \<open>What is left to a command once the daemon is known to run.\<close>

definition if_running :: "cli_world \<Rightarrow> (bmcli \<Rightarrow> (bmc_result \<times> bmcli) cli_run) \<Rightarrow> bmcli \<Rightarrow> (bmc_result \<times> bmcli) cli_run" where
  "if_running w go bmc =
     (case bmc_is_bm_running w bmc of
        (running, error, bmc) \<Rightarrow>
          if \<not> running then (let bmc = not_running_error error bmc in Cli (cli_return_value bmc, bmc)) else go bmc)"

definition devices_of :: "cli_world \<Rightarrow> device_view list" where
  "devices_of w = (case cw_devices w of None \<Rightarrow> [] | Some ds \<Rightarrow> ds)"

definition do_devices_status :: "cli_world \<Rightarrow> string list \<Rightarrow> bmcli \<Rightarrow> (bmc_result \<times> bmcli) cli_run" where
  "do_devices_status w argv bmc =
     (let flags = output_flags bmc;
          bmc = unknown_parameters argv bmc;
          parsed = parse_output_fields (fields_wanted (cli_required_fields bmc) ''DEVICE,TYPE,STATE'' ''DEVICE,TYPE,STATE,DBUS-PATH'') bmc_fields_dev_status;
          bmc = set_indices bmc_fields_dev_status parsed bmc
      in case parsed of
           Inl e \<Rightarrow>
             (let bmc = cli_fail BMC_RESULT_ERROR_USER_INPUT (field_error_text ''dev status'' ''DEVICE,TYPE,STATE,DBUS-PATH'' e) bmc
              in Cli (cli_return_value bmc, bmc))
         | Inr _ \<Rightarrow>
             if_running w
               (\<lambda>bmc. cli_bind (bmc_get_client w (cli_print w (bmc\<lparr>cli_flags := flags OR BMC_PF_FLAG_MAIN_HEADER_ADD OR BMC_PF_FLAG_FIELD_NAMES,
                                                               cli_header := ''Status of devices''\<rparr>)))
                  (\<lambda>bmc. Cli (BMC_RESULT_SUCCESS, foldl (show_device_status w) bmc (devices_of w)))) bmc)"

text \<open>The arguments of \<^verbatim>\<open>list\<close>: an error, or the interface if one was given.\<close>

fun dev_list_args :: "string list \<Rightarrow> cstr \<Rightarrow> bmcli \<Rightarrow> cstr \<times> bool \<times> bmcli" where
  "dev_list_args [] iface bmc = (iface, True, bmc)"
| "dev_list_args (a # argv) iface bmc =
     (if a = ''iface''
      then (case argv of
              [] \<Rightarrow> (iface, False, cli_fail BMC_RESULT_ERROR_USER_INPUT (''Error: '' @ squote a @ '' argument is missing.'') bmc)
            | i # argv \<Rightarrow> dev_list_args argv (Some i) bmc)
      else dev_list_args argv iface (cli_report (Unknown_Parameter a) bmc))"

text \<open>The last device with the name; a device without one is a \<^verbatim>\<open>NULL\<close> pointer in \<^verbatim>\<open>strcmp\<close>.\<close>

fun find_iface :: "device_view list \<Rightarrow> string \<Rightarrow> device_view option \<Rightarrow> device_view option cli_run" where
  "find_iface [] iface device = Cli device"
| "find_iface (candidate # devices) iface device =
     (case dv_iface candidate of
        None \<Rightarrow> Cli_Crashed
      | Some name \<Rightarrow> find_iface devices iface (if strcmp name iface = 0 then Some candidate else device))"

definition do_devices_list :: "cli_world \<Rightarrow> string list \<Rightarrow> bmcli \<Rightarrow> (bmc_result \<times> bmcli) cli_run" where
  "do_devices_list w argv bmc =
     (case dev_list_args argv None bmc of
        (iface, ok, bmc) \<Rightarrow>
          if \<not> ok then Cli (cli_return_value bmc, bmc)
          else if_running w
            (\<lambda>bmc. cli_bind (bmc_get_client w bmc)
               (\<lambda>bmc. cli_bind
                  (case iface of
                     Some i \<Rightarrow>
                       cli_bind (find_iface (devices_of w) i None)
                         (\<lambda>device. Cli (case device of
                            None \<Rightarrow> cli_fail BMC_RESULT_ERROR_UNKNOWN (''Error: Device '' @ squote i @ '' not found.'') bmc
                          | Some d \<Rightarrow> show_device_info w bmc d))
                   | None \<Rightarrow> Cli (foldl (show_device_info w) bmc (devices_of w)))
                  (\<lambda>bmc. Cli (cli_return_value bmc, bmc)))) bmc)"

text \<open>Nothing here quits the main loop.\<close>

definition devices_command :: "cli_world \<Rightarrow> string list \<Rightarrow> bmcli \<Rightarrow> bmcli cli_run" where
  "devices_command w argv bmc =
     (case argv of
        [] \<Rightarrow> checked_command (do_devices_status w []) bmc
      | command # args \<Rightarrow>
          if cli_matches command ''status'' = 0 then checked_command (do_devices_status w args) bmc
          else if cli_matches command ''list'' = 0
          then cli_bind (do_devices_list w args (if \<not> cli_mode_specified bmc then bmc\<lparr>cli_multiline := True\<rparr> else bmc))
                 (\<lambda>(result, bmc). Cli (bmc\<lparr>cli_return_value := result\<rparr>))
          else if command = ''help'' then Cli (cli_report (Usage ''dev'') bmc)
          else Cli (cli_fail BMC_RESULT_ERROR_USER_INPUT (''Error: '' @ squote ''dev'' @ '' command '' @ squote command @ '' is not valid.'') bmc))"

definition do_devices :: "cli_world \<Rightarrow> string list \<Rightarrow> bmcli \<Rightarrow> (bmc_result \<times> bmcli) cli_run" where
  "do_devices w argv bmc = cli_bind (devices_command w argv bmc) (\<lambda>bmc. Cli (cli_return_value bmc, bmc))"

text \<open>The callbacks of a disconnection, which no command of the client starts.\<close>

definition device_state_cb :: "device_view \<Rightarrow> bmcli \<Rightarrow> bmcli" where
  "device_state_cb device bmc =
     (if dv_state device = 3
      then cli_do_quit (bmc\<lparr>cli_return_text := ''Success: Device '' @ squote (case dv_iface device of Some i \<Rightarrow> i | None \<Rightarrow> ''(null)'') @ '' successfully disconnected.''\<rparr>)
      else bmc)"

definition dev_timeout_cb :: "bmcli \<Rightarrow> bmcli" where
  "dev_timeout_cb bmc =
     cli_do_quit (cli_fail BMC_RESULT_ERROR_TIMEOUT_EXPIRED (''Error: Timeout '' @ print_int (cli_timeout bmc) @ '' sec expired.'') bmc)"

definition disconnect_device_cb :: "device_view \<Rightarrow> cstr option \<Rightarrow> bmcli \<Rightarrow> bmcli" where
  "disconnect_device_cb device error bmc =
     (case error of
        Some message \<Rightarrow>
          cli_do_quit (cli_fail BMC_RESULT_ERROR_DEV_DISCONNECT (''Error: Device '' @ squote (case dv_iface device of Some i \<Rightarrow> i | None \<Rightarrow> ''(null)'') @
            '' ('' @ dv_path device @ '') disconnecting failed: '' @ (case message of Some m \<Rightarrow> m | None \<Rightarrow> ''(unknown)'')) bmc)
      | None \<Rightarrow>
          (let bmc = bmc\<lparr>cli_out := cli_out bmc @ [''Device state: '' @ print_nat (unat (dv_state device)) @ '' ('' @ device_state_to_string (dv_state device) @ '')'']\<rparr>
           in if cli_nowait_flag bmc \<or> dv_state device = 3 then cli_do_quit bmc else bmc\<lparr>con_watching := True, con_timer := True\<rparr>))"

end
