(* ===== verification/Cli_Connections.thy ===== *)
theory Cli_Connections
  imports Cli_Status Dbus_Manager
begin

text \<open>
  The commands of the client about connections, \<^verbatim>\<open>cli/src/connections.c\<close> and \<^verbatim>\<open>cli/src/settings.c\<close>: listing them, showing which are active,
  activating one, and the callbacks that wait for the settings services and for the activation.
\<close>

section \<open>Settings in detail\<close>

definition bmc_fields_setting_connection :: "output_field list" where
  "bmc_fields_setting_connection =
     output_fields [(''name'', 15), (''id'', 25), (''uuid'', 38), (''type'', 17), (''autoconnect'', 13), (''timestamp'', 10), (''read-only'', 10)]"

definition bmc_fields_setting_serial :: "output_field list" where
  "bmc_fields_setting_serial =
     output_fields [(''name'', 10), (''baud'', 10), (''bits'', 10), (''parity'', 10), (''stopbits'', 10), (''send-delay'', 12)]"

definition bmc_fields_setting_bluetooth :: "output_field list" where
  "bmc_fields_setting_bluetooth = output_fields [(''name'', 11), (''bdaddr'', 19), (''type'', 10)]"

definition yes_no :: "bool \<Rightarrow> string" where
  "yes_no b = (if b then ''yes'' else ''no'')"

definition setting_connection_details :: "cli_world \<Rightarrow> connection_priv \<Rightarrow> bmcli \<Rightarrow> bmcli" where
  "setting_connection_details w s_con bmc =
     print_section w (output_flags bmc) bmc_fields_setting_connection ''name,id,uuid,type,autoconnect,timestamp,read-only''
       [(0, Some ''connection''), (1, bm_setting_connection_get_id s_con), (2, bm_setting_connection_get_uuid s_con),
        (3, bm_setting_connection_get_connection_type s_con), (4, Some (yes_no (bm_setting_connection_get_autoconnect s_con))),
        (5, Some (print_nat (unat (bm_setting_connection_get_timestamp s_con)))),
        (6, Some (yes_no (bm_setting_connection_get_read_only s_con)))] bmc"

text \<open>\<^verbatim>\<open>%d\<close> of an unsigned number, and \<^verbatim>\<open>%c\<close>, whose NUL ends the string.\<close>

definition setting_serial_details :: "cli_world \<Rightarrow> serial_priv \<Rightarrow> bmcli \<Rightarrow> bmcli" where
  "setting_serial_details w s_serial bmc =
     print_section w (output_flags bmc) bmc_fields_setting_serial ''name,baud,bits,parity,stopbits,send-delay''
       [(0, Some ''serial''), (1, Some (print_int (sint (bm_setting_serial_get_baud s_serial)))),
        (2, Some (print_int (sint (bm_setting_serial_get_bits s_serial)))),
        (3, Some (if bm_setting_serial_get_parity s_serial = 0 then [] else [char_of (unat (bm_setting_serial_get_parity s_serial))])),
        (4, Some (print_int (sint (bm_setting_serial_get_stopbits s_serial)))),
        (5, Some (print_nat (unat (bm_setting_serial_get_send_delay s_serial))))] bmc"

text \<open>The first six bytes of an address.\<close>

definition bdaddr_text :: "u8 list \<Rightarrow> string" where
  "bdaddr_text bytes = join_with '':'' (map hex_byte (take 6 bytes))"

definition setting_bluetooth_details :: "cli_world \<Rightarrow> bluetooth_priv \<Rightarrow> bmcli \<Rightarrow> bmcli cli_run" where
  "setting_bluetooth_details w s_bluetooth bmc =
     cli_bind
       (case bm_setting_bluetooth_get_bdaddr s_bluetooth of
          Some bytes \<Rightarrow> if length bytes < 6 then Cli_Crashed else Cli (Some (bdaddr_text bytes))
        | None \<Rightarrow> Cli None)
       (\<lambda>bdaddr_str.
          Cli (print_section w (output_flags bmc) bmc_fields_setting_bluetooth ''name,bdaddr,type''
                 [(0, Some ''bluetooth''), (1, bdaddr_str), (2, bm_setting_bluetooth_get_connection_type s_bluetooth)] bmc))"

definition serial_setting :: "connection \<Rightarrow> serial_priv option" where
  "serial_setting c =
     (case map_option set_priv (bm_connection_get_setting c BM_TYPE_SETTING_SERIAL) of
        Some (Serial_Priv p) \<Rightarrow> Some p
      | _ \<Rightarrow> None)"

definition bmc_fields_settings_names :: "output_field list" where
  "bmc_fields_settings_names = output_fields [(''connection'', 0), (''serial'', 0), (''bluetooth'', 0)]"

definition BMC_FIELDS_SETTINGS_NAMES_ALL :: string where
  "BMC_FIELDS_SETTINGS_NAMES_ALL = ''connection,serial,bluetooth''"

definition connection_section :: "cli_world \<Rightarrow> connection \<Rightarrow> (bmcli \<times> bool) cli_run \<Rightarrow> nat \<Rightarrow> (bmcli \<times> bool) cli_run" where
  "connection_section w connection st section_idx =
     cli_bind st (\<lambda>(bmc, was_output).
       let bmc = (if cli_print_output bmc \<noteq> BMC_PRINT_TERSE \<and> \<not> cli_multiline bmc \<and> was_output then bmc\<lparr>cli_out := cli_out bmc @ [[]]\<rparr> else bmc)
       in case section_idx of
            0 \<Rightarrow> (case connection_setting connection of
                    Some s_con \<Rightarrow> Cli (setting_connection_details w s_con bmc, True) | None \<Rightarrow> Cli (bmc, False))
          | Suc 0 \<Rightarrow> (case serial_setting connection of
                    Some s_serial \<Rightarrow> Cli (setting_serial_details w s_serial bmc, True) | None \<Rightarrow> Cli (bmc, False))
          | _ \<Rightarrow> (case bluetooth_setting connection of
                    Some s_bt \<Rightarrow> cli_bind (setting_bluetooth_details w s_bt bmc) (\<lambda>bmc. Cli (bmc, True)) | None \<Rightarrow> Cli (bmc, False)))"

definition bmc_connection_detail :: "cli_world \<Rightarrow> connection \<Rightarrow> bmcli \<Rightarrow> bmcli cli_run" where
  "bmc_connection_detail w connection bmc =
     (let flags = output_flags bmc
      in case parse_output_fields (fields_wanted (cli_required_fields bmc) BMC_FIELDS_SETTINGS_NAMES_ALL BMC_FIELDS_SETTINGS_NAMES_ALL)
             bmc_fields_settings_names of
           Inl e \<Rightarrow> Cli (cli_fail BMC_RESULT_ERROR_USER_INPUT (field_error_text ''con list'' BMC_FIELDS_SETTINGS_NAMES_ALL e) bmc)
         | Inr sections \<Rightarrow>
             (let bmc = set_indices bmc_fields_settings_names (parse_output_fields BMC_FIELDS_SETTINGS_NAMES_ALL bmc_fields_settings_names) bmc;
                  bmc = cli_print w (bmc\<lparr>cli_flags := flags OR BMC_PF_FLAG_MAIN_HEADER_ONLY, cli_header := ''Connection details''\<rparr>)
              in cli_bind (foldl (connection_section w connection) (Cli (bmc, False)) sections) (\<lambda>(bmc, _). Cli bmc)))"

section \<open>Listing\<close>

definition bmc_fields_con_list :: "output_field list" where
  "bmc_fields_con_list =
     output_fields [(''NAME'', 25), (''UUID'', 38), (''TYPE'', 17), (''SCOPE'', 8), (''TIMESTAMP'', 12), (''TIMESTAMP-REAL'', 34),
       (''AUTOCONNECT'', 13), (''READONLY'', 10), (''DBUS-PATH'', 42)]"

definition BMC_FIELDS_CON_LIST_ALL :: string where
  "BMC_FIELDS_CON_LIST_ALL = ''NAME,UUID,TYPE,SCOPE,TIMESTAMP,TIMESTAMP-REAL,AUTOCONNECT,READONLY,DBUS-PATH''"

definition connection_values :: "connection \<Rightarrow> connection_priv \<Rightarrow> string \<Rightarrow> (nat \<times> cstr) list" where
  "connection_values connection s_con timestamp_real_str =
     [(0, bm_setting_connection_get_id s_con), (1, bm_setting_connection_get_uuid s_con), (2, bm_setting_connection_get_connection_type s_con),
      (3, Some (if bm_connection_get_scope connection = BM_CONNECTION_SCOPE_SYSTEM then ''system'' else ''user'')),
      (4, Some (print_nat (unat (bm_setting_connection_get_timestamp s_con)))),
      (5, Some (if bm_setting_connection_get_timestamp s_con \<noteq> 0 then timestamp_real_str else ''never'')),
      (6, Some (yes_no (bm_setting_connection_get_autoconnect s_con))), (7, Some (yes_no (bm_setting_connection_get_read_only s_con))),
      (8, bm_connection_get_path connection)]"

text \<open>\<^verbatim>\<open>localtime\<close> returns \<^verbatim>\<open>NULL\<close> for a time whose year is no \<^verbatim>\<open>int\<close>; \<^verbatim>\<open>strftime\<close> follows the pointer.\<close>

definition show_connection :: "cli_world \<Rightarrow> bmcli cli_run \<Rightarrow> connection \<Rightarrow> bmcli cli_run" where
  "show_connection w st connection =
     cli_bind st (\<lambda>bmc.
       case connection_setting connection of
         None \<Rightarrow> Cli bmc
       | Some s_con \<Rightarrow>
           (case cw_time w (bm_setting_connection_get_timestamp s_con) of
              None \<Rightarrow> Cli_Crashed
            | Some timestamp_real_str \<Rightarrow>
                Cli (cli_print w (clear_headers (set_values (connection_values connection s_con timestamp_real_str) bmc)))))"

fun find_connection :: "connection list \<Rightarrow> string \<Rightarrow> string \<Rightarrow> connection option cli_run" where
  "find_connection [] filter_type filter_val = Cli None"
| "find_connection (connection # iterator) filter_type filter_val =
     (case connection_setting connection of
        None \<Rightarrow> find_connection iterator filter_type filter_val
      | Some s_con \<Rightarrow>
          (case (if strcmp filter_type ''id'' = 0 then Some (bm_setting_connection_get_id s_con)
                 else if strcmp filter_type ''uuid'' = 0 then Some (bm_setting_connection_get_uuid s_con)
                 else None) of
             None \<Rightarrow> find_connection iterator filter_type filter_val
           | Some None \<Rightarrow> Cli_Crashed
           | Some (Some v) \<Rightarrow>
               if strcmp filter_val v = 0 then Cli (Some connection) else find_connection iterator filter_type filter_val))"

definition list_section :: "cli_world \<Rightarrow> u32 \<Rightarrow> string \<Rightarrow> connection list \<Rightarrow> bmcli \<Rightarrow> bmcli cli_run" where
  "list_section w flags header connections bmc =
     foldl (show_connection w)
       (Cli (cli_print w (bmc\<lparr>cli_flags := flags OR BMC_PF_FLAG_MAIN_HEADER_ADD OR BMC_PF_FLAG_FIELD_NAMES, cli_header := header\<rparr>))) connections"

definition list_error :: "field_error option \<Rightarrow> string option \<Rightarrow> bmcli \<Rightarrow> bmcli" where
  "list_error error1 error2 bmc =
     (let bmc = (case error1 of
                   Some e \<Rightarrow> cli_fail BMC_RESULT_ERROR_USER_INPUT (field_error_text ''con list'' BMC_FIELDS_CON_LIST_ALL e) bmc
                 | None \<Rightarrow> bmc)
      in case error2 of Some msg \<Rightarrow> option_error msg bmc | None \<Rightarrow> bmc)"

text \<open>Both checks, of the options and of the fields, before connections are listed.\<close>

definition list_checked :: "field_error option \<Rightarrow> (bmcli \<Rightarrow> bmcli cli_run) \<Rightarrow> bmcli \<Rightarrow> bmcli cli_run" where
  "list_checked error1 go bmc =
     (case bmc_terse_option_check (cli_print_output bmc) (cli_required_fields bmc) of
        Some msg \<Rightarrow> Cli (list_error error1 (Some msg) bmc)
      | None \<Rightarrow> (case error1 of Some e \<Rightarrow> Cli (list_error (Some e) None bmc) | None \<Rightarrow> go bmc))"

definition list_one :: "cli_world \<Rightarrow> string \<Rightarrow> string \<Rightarrow> bmcli \<Rightarrow> bmcli cli_run" where
  "list_one w selector arg bmc =
     (let bmc = (if \<not> cli_mode_specified bmc then bmc\<lparr>cli_multiline := True\<rparr> else bmc)
      in cli_bind (find_connection (cli_system_connections bmc) selector arg) (\<lambda>con1.
         cli_bind (find_connection (cli_user_connections bmc) selector arg) (\<lambda>con2.
         cli_bind (case con1 of Some c \<Rightarrow> bmc_connection_detail w c bmc | None \<Rightarrow> Cli bmc) (\<lambda>bmc.
         cli_bind (case con2 of Some c \<Rightarrow> bmc_connection_detail w c bmc | None \<Rightarrow> Cli bmc) (\<lambda>bmc.
         Cli (if con1 = None \<and> con2 = None
              then cli_fail BMC_RESULT_ERROR_UNKNOWN (''Error: '' @ arg @ '' - no such connection.'') bmc else bmc))))))"

fun list_loop :: "cli_world \<Rightarrow> u32 \<Rightarrow> field_error option \<Rightarrow> string list \<Rightarrow> bmcli \<Rightarrow> bmcli cli_run" where
  "list_loop w flags error1 [] bmc = Cli (cli_fail BMC_RESULT_ERROR_USER_INPUT ''Error: no valid parameter specified.'' bmc)"
| "list_loop w flags error1 (a # argv) bmc =
     (if a = ''id'' \<or> a = ''uuid''
      then (case argv of
              [] \<Rightarrow> Cli (cli_fail BMC_RESULT_ERROR_USER_INPUT (''Error: '' @ a @ '' argument is missing.'') bmc)
            | arg # _ \<Rightarrow> list_one w a arg bmc)
      else if a = ''system'' then list_checked error1 (\<lambda>bmc. list_section w flags ''System connections'' (cli_system_connections bmc) bmc) bmc
      else if a = ''user'' then list_checked error1 (\<lambda>bmc. list_section w flags ''User connections'' (cli_user_connections bmc) bmc) bmc
      else list_loop w flags error1 argv (cli_report (Unknown_Parameter a) bmc))"

definition do_connections_list :: "cli_world \<Rightarrow> string list \<Rightarrow> bmcli \<Rightarrow> (bmc_result \<times> bmcli) cli_run" where
  "do_connections_list w argv bmc =
     (let flags = output_flags bmc;
          bmc = bmc\<lparr>cli_should_wait := False\<rparr>;
          parsed = parse_output_fields (fields_wanted (cli_required_fields bmc) ''NAME,UUID,TYPE,SCOPE,TIMESTAMP-REAL'' BMC_FIELDS_CON_LIST_ALL)
                     bmc_fields_con_list;
          bmc = set_indices bmc_fields_con_list parsed bmc;
          error1 = (case parsed of Inl e \<Rightarrow> Some e | Inr _ \<Rightarrow> None)
      in cli_bind
           (if argv = []
            then list_checked error1
                   (\<lambda>bmc. cli_bind (list_section w flags ''System connections'' (cli_system_connections bmc) bmc)
                      (\<lambda>bmc. list_section w flags ''User connections'' (cli_user_connections bmc) bmc)) bmc
            else list_loop w flags error1 argv bmc)
           (\<lambda>bmc. Cli (cli_return_value bmc, bmc)))"

section \<open>Active connections\<close>

definition bmc_fields_con_status :: "output_field list" where
  "bmc_fields_con_status =
     output_fields [(''NAME'', 25), (''UUID'', 38), (''DEVICES'', 10), (''SCOPE'', 8), (''DEFAULT'', 8), (''DBUS-SERVICE'', 45),
       (''SPEC-OBJECT'', 10), (''VPN'', 5), (''DBUS-PATH'', 51)]"

text \<open>The names of the devices; a device without one adds nothing but its comma.\<close>

definition device_names :: "active_view \<Rightarrow> string" where
  "device_names active =
     (let dev_str = concat (map (\<lambda>d. (case dv_iface d of Some i \<Rightarrow> i | None \<Rightarrow> []) @ '','') (case av_devices active of Some ds \<Rightarrow> ds | None \<Rightarrow> []))
      in if dev_str \<noteq> [] then butlast dev_str else dev_str)"

fun show_active_loop :: "cli_world \<Rightarrow> active_view \<Rightarrow> connection list \<Rightarrow> bmcli \<Rightarrow> bmcli cli_run" where
  "show_active_loop w active [] bmc = Cli bmc"
| "show_active_loop w active (connection # iter) bmc =
     (case (av_connection active, bm_connection_get_path connection) of
        (Some active_path, Some con_path) \<Rightarrow>
          if strcmp active_path con_path = 0
          then (case connection_setting connection of
                  None \<Rightarrow> Cli_Crashed
                | Some s_con \<Rightarrow>
                    Cli (cli_print w (clear_headers (set_values
                      [(0, bm_setting_connection_get_id s_con), (1, bm_setting_connection_get_uuid s_con), (2, Some (device_names active)),
                       (3, Some (if av_scope active = BM_CONNECTION_SCOPE_SYSTEM then ''system'' else ''user'')),
                       (4, Some (yes_no (av_default active))), (5, av_service active), (6, av_specific active), (8, Some (av_path active))] bmc))))
          else show_active_loop w active iter bmc
      | _ \<Rightarrow> Cli_Crashed)"

definition show_active_connection :: "cli_world \<Rightarrow> u32 \<Rightarrow> bmcli cli_run \<Rightarrow> active_view \<Rightarrow> bmcli cli_run" where
  "show_active_connection w scope st active =
     cli_bind st (\<lambda>bmc.
       if av_scope active \<noteq> scope then Cli bmc
       else show_active_loop w active
              (if scope = BM_CONNECTION_SCOPE_SYSTEM then cli_system_connections bmc else cli_user_connections bmc) bmc)"

definition BMC_FIELDS_CON_STATUS_ALL :: string where
  "BMC_FIELDS_CON_STATUS_ALL = ''NAME,UUID,DEVICES,SCOPE,DEFAULT,VPN,DBUS-SERVICE,DBUS-PATH,SPEC-OBJECT''"

definition do_connections_status :: "cli_world \<Rightarrow> string list \<Rightarrow> bmcli \<Rightarrow> (bmc_result \<times> bmcli) cli_run" where
  "do_connections_status w argv bmc =
     (let flags = output_flags bmc;
          bmc = bmc\<lparr>cli_should_wait := False\<rparr>;
          parsed = parse_output_fields (fields_wanted (cli_required_fields bmc) ''NAME,UUID,DEVICES,SCOPE,DEFAULT,VPN'' BMC_FIELDS_CON_STATUS_ALL)
                     bmc_fields_con_status;
          bmc = set_indices bmc_fields_con_status parsed bmc
      in case parsed of
           Inl e \<Rightarrow>
             (let bmc = cli_fail BMC_RESULT_ERROR_USER_INPUT (field_error_text ''con status'' BMC_FIELDS_CON_STATUS_ALL e) bmc
              in Cli (cli_return_value bmc, bmc))
         | Inr _ \<Rightarrow>
             if_running w
               (\<lambda>bmc. cli_bind (bmc_get_client w (cli_print w (bmc\<lparr>cli_flags := flags OR BMC_PF_FLAG_MAIN_HEADER_ADD OR BMC_PF_FLAG_FIELD_NAMES,
                                                               cli_header := ''Active connections''\<rparr>)))
                  (\<lambda>bmc. let actives = (case cw_actives w of Some as \<Rightarrow> as | None \<Rightarrow> [])
                         in cli_bind (foldl (show_active_connection w BM_CONNECTION_SCOPE_USER)
                                        (foldl (show_active_connection w BM_CONNECTION_SCOPE_SYSTEM) (Cli bmc) actives) actives)
                              (\<lambda>bmc. Cli (cli_return_value bmc, bmc)))) bmc)"

section \<open>Compatibility and the default connection\<close>

text \<open>Nothing calls these functions any more; the address is compared as text.\<close>

definition check_bt_compatible :: "u32 \<Rightarrow> cstr \<Rightarrow> connection \<Rightarrow> (bool \<times> cstr) cli_run" where
  "check_bt_compatible bt_capab device_hw_str connection =
     (case connection_setting connection of
        None \<Rightarrow> Cli_Crashed
      | Some s_con \<Rightarrow>
          (case bm_setting_connection_get_connection_type s_con of
             None \<Rightarrow> Cli_Crashed
           | Some t \<Rightarrow>
               if t \<noteq> ''bluetooth'' then Cli (False, Some ''The connection was not a Bluetooth connection.'')
               else (case bluetooth_setting connection of
                  None \<Rightarrow> Cli (False, Some ''The connection was not a valid Bluetooth connection.'')
                | Some s_bt \<Rightarrow>
                    (case bm_setting_bluetooth_get_bdaddr s_bt of
                       None \<Rightarrow> Cli (False, Some ''The connection did not contain a valid Bluetooth address.'')
                     | Some array \<Rightarrow>
                         if length array \<noteq> 6 then Cli (False, Some ''The connection did not contain a valid Bluetooth address.'')
                         else (case bm_setting_bluetooth_get_connection_type s_bt of
                            None \<Rightarrow> Cli_Crashed
                          | Some bt_type_str \<Rightarrow>
                              (let bt_type = (if bt_type_str = ''dun'' then BM_BT_CAPABILITY_DUN
                                              else if bt_type_str = ''panu'' then BM_BT_CAPABILITY_NAP else BM_BT_CAPABILITY_NONE)
                               in if bt_type AND bt_capab = 0
                                  then Cli (False, Some (''The connection was not compatible with the device'' @ [CHR 0x27] @ ''s capabilities.''))
                                  else (case device_hw_str of
                                          None \<Rightarrow> Cli_Crashed
                                        | Some hw \<Rightarrow> Cli (strcmp hw (bdaddr_text array) = 0, None))))))))"

definition bm_device_is_connection_compatible :: "(u32 \<times> cstr) option \<Rightarrow> string \<Rightarrow> connection \<Rightarrow> (bool \<times> cstr) cli_run" where
  "bm_device_is_connection_compatible bluetooth type_name' connection =
     (case bluetooth of
        Some (caps, hw) \<Rightarrow> check_bt_compatible caps hw connection
      | None \<Rightarrow> Cli (False, Some (''unhandled device type '' @ squote type_name')))"

fun get_active_by_path :: "active_view list \<Rightarrow> string \<Rightarrow> active_view option" where
  "get_active_by_path [] object_path = None"
| "get_active_by_path (candidate # actives) object_path =
     (if strcmp (av_path candidate) object_path = 0 then Some candidate else get_active_by_path actives object_path)"

definition bm_client_get_active_connection_by_path :: "active_view list option \<Rightarrow> cstr \<Rightarrow> active_view option" where
  "bm_client_get_active_connection_by_path actives object_path =
     (case (object_path, actives) of (Some path, Some as) \<Rightarrow> get_active_by_path as path | _ \<Rightarrow> None)"

text \<open>The default connection with its first device, and the first that is not the default.\<close>

definition default_step ::
  "(active_view \<times> device_view) option \<times> (active_view \<times> device_view) option \<Rightarrow> active_view \<Rightarrow>
     (active_view \<times> device_view) option \<times> (active_view \<times> device_view) option" where
  "default_step st candidate =
     (case (st, av_devices candidate) of
        ((default_ac, non_default_ac), Some (d # _)) \<Rightarrow>
          if av_default candidate
          then (if default_ac = None then Some (candidate, d) else default_ac, non_default_ac)
          else (default_ac, if non_default_ac = None then Some (candidate, d) else non_default_ac)
      | _ \<Rightarrow> st)"

definition get_default_active_connection :: "active_view list option \<Rightarrow> (active_view \<times> device_view) option" where
  "get_default_active_connection connections =
     (case foldl default_step (None, None) (case connections of Some cs \<Rightarrow> cs | None \<Rightarrow> []) of
        (default_ac, non_default_ac) \<Rightarrow> if default_ac = None \<and> non_default_ac \<noteq> None then non_default_ac else default_ac)"

section \<open>Activation\<close>

text \<open>The library refuses a call without a device.\<close>

definition bm_client_activate_connection :: "string \<Rightarrow> cstr \<Rightarrow> device_view option \<Rightarrow> cstr \<Rightarrow> client_call_sent option" where
  "bm_client_activate_connection service_name connection_path device specific_object =
     (case device of
        None \<Rightarrow> None
      | Some d \<Rightarrow> client_activate_connection (Some service_name) connection_path (dv_path d) specific_object)"

record up_args =
  up_connection :: "connection option"
  up_id_specified :: bool
  up_wait :: bool
  up_iface :: cstr
  up_ap :: cstr

definition missing_argument :: "string \<Rightarrow> bmcli \<Rightarrow> bmcli" where
  "missing_argument a bmc = cli_fail BMC_RESULT_ERROR_USER_INPUT (''Error: '' @ a @ '' argument is missing.'') bmc"

text \<open>The time out is what \<^verbatim>\<open>strtol\<close> reads, cut to an \<^verbatim>\<open>int\<close>; \<open>None\<close> where it is refused.\<close>

definition read_timeout :: "string \<Rightarrow> int option" where
  "read_timeout s =
     (case strtol s of
        (v, errno) \<Rightarrow> (let t = sint (word_of_int v :: u32) in if errno \<or> t < 0 then None else Some t))"

text \<open>One argument: the arguments after it, or \<open>None\<close> where it is refused.\<close>

definition up_word :: "string \<Rightarrow> string list \<Rightarrow> up_args \<Rightarrow> bmcli \<Rightarrow> (string list option \<times> up_args \<times> bmcli) cli_run" where
  "up_word a rest args bmc =
     (if a = ''id'' \<or> a = ''uuid''
      then (let args = args\<lparr>up_id_specified := True\<rparr>
            in case rest of
                 [] \<Rightarrow> Cli (None, args, missing_argument a bmc)
               | v # rest \<Rightarrow>
                   cli_bind (find_connection (cli_system_connections bmc) a v) (\<lambda>found.
                   cli_bind (case found of Some c \<Rightarrow> Cli (Some c) | None \<Rightarrow> find_connection (cli_user_connections bmc) a v) (\<lambda>found.
                   let args = args\<lparr>up_connection := found\<rparr>
                   in Cli (if found = None
                           then (None, args, cli_fail BMC_RESULT_ERROR_UNKNOWN (''Error: Unknown connection: '' @ v @ ''.'') bmc)
                           else (Some rest, args, bmc)))))
      else if a = ''iface''
      then Cli (case rest of [] \<Rightarrow> (None, args, missing_argument a bmc) | v # rest \<Rightarrow> (Some rest, args\<lparr>up_iface := Some v\<rparr>, bmc))
      else if a = ''ap''
      then Cli (case rest of [] \<Rightarrow> (None, args, missing_argument a bmc) | v # rest \<Rightarrow> (Some rest, args\<lparr>up_ap := Some v\<rparr>, bmc))
      else if a = ''--nowait'' then Cli (Some rest, args\<lparr>up_wait := False\<rparr>, bmc)
      else if a = ''--timeout''
      then Cli (case rest of
                  [] \<Rightarrow> (None, args, missing_argument a bmc)
                | v # rest \<Rightarrow>
                    (case read_timeout v of
                       None \<Rightarrow> (None, args, cli_fail BMC_RESULT_ERROR_USER_INPUT (''Error: timeout value '' @ squote v @ '' is not valid.'') bmc)
                     | Some t \<Rightarrow> (Some rest, args, bmc\<lparr>cli_timeout := t\<rparr>)))
      else Cli (Some rest, args, cli_report (Unknown_Parameter a) bmc))"

lemma up_word_shorter: "up_word a rest args bmc = Cli (Some rest', args', bmc') \<Longrightarrow> length rest' \<le> length rest"
  by (cases rest) (auto simp: up_word_def Let_def bind_Cli split: if_splits option.splits)

text \<open>The arguments: whether they are accepted, with the state.\<close>

function up_loop :: "string list \<Rightarrow> up_args \<Rightarrow> bmcli \<Rightarrow> (bool \<times> up_args \<times> bmcli) cli_run" where
  "up_loop argv args bmc =
     (case argv of
        [] \<Rightarrow> Cli (True, args, bmc)
      | a # rest \<Rightarrow>
          (case up_word a rest args bmc of
             Cli (Some rest, args, bmc) \<Rightarrow> up_loop rest args bmc
           | Cli (None, args, bmc) \<Rightarrow> Cli (False, args, bmc)
           | Cli_Crashed \<Rightarrow> Cli_Crashed
           | Cli_Exit n \<Rightarrow> Cli_Exit n))"
  by pat_completeness auto
termination
  by (relation "measure (\<lambda>(argv, _, _). length argv)") (auto dest!: up_word_shorter)

declare up_loop.simps [simp del]

text \<open>The variable for the device is never set, and the interface and the access point are not used.\<close>

definition up_activate :: "up_args \<Rightarrow> bmcli \<Rightarrow> (bmc_result \<times> bmcli) cli_run" where
  "up_activate args bmc =
     (let device = None; spec_object = None
      in case up_connection args of
           None \<Rightarrow> Cli_Crashed
         | Some connection \<Rightarrow>
             if connection_setting connection = None then Cli_Crashed
             else
               (let bmc = bmc\<lparr>cli_nowait_flag := \<not> up_wait args, cli_should_wait := True\<rparr>;
                    call = bm_client_activate_connection
                             (if bm_connection_get_scope connection = BM_CONNECTION_SCOPE_SYSTEM
                              then BM_DBUS_SERVICE_SYSTEM_SETTINGS else BM_DBUS_SERVICE_USER_SETTINGS)
                             (bm_connection_get_path connection) device spec_object
                in Cli (cli_return_value bmc,
                        case call of
                          None \<Rightarrow> bmc
                        | Some c \<Rightarrow> bmc\<lparr>cli_calls := cli_calls bmc @ [Sent c], con_pending := True\<rparr>)))"

definition up_failed :: "bmcli \<Rightarrow> (bmc_result \<times> bmcli) cli_run" where
  "up_failed bmc = (let bmc = bmc\<lparr>cli_should_wait := False\<rparr> in Cli (cli_return_value bmc, bmc))"

definition do_connection_up :: "cli_world \<Rightarrow> string list \<Rightarrow> bmcli \<Rightarrow> (bmc_result \<times> bmcli) cli_run" where
  "do_connection_up w argv bmc =
     cli_bind (up_loop argv \<lparr>up_connection = None, up_id_specified = False, up_wait = True, up_iface = None, up_ap = None\<rparr> (bmc\<lparr>cli_timeout := 90\<rparr>))
       (\<lambda>(ok, args, bmc).
          if \<not> ok then up_failed bmc
          else if \<not> up_id_specified args
          then up_failed (cli_fail BMC_RESULT_ERROR_USER_INPUT ''Error: id or uuid has to be specified.'' bmc)
          else (case bmc_is_bm_running w bmc of
                  (running, error, bmc) \<Rightarrow>
                    if \<not> running then up_failed (not_running_error error bmc)
                    else cli_bind (bmc_get_client w bmc) (up_activate args)))"

definition active_connection_state_to_string :: "u32 \<Rightarrow> string" where
  "active_connection_state_to_string state = (if state = 1 then ''activating'' else if state = 2 then ''activated'' else ''unknown'')"

definition active_connection_state_cb :: "u32 \<Rightarrow> bmcli \<Rightarrow> bmcli" where
  "active_connection_state_cb state bmc =
     (let bmc = bmc\<lparr>cli_out := cli_out bmc @ [''state: '' @ active_connection_state_to_string state]\<rparr>
      in if state = 2 then cli_do_quit (bmc\<lparr>cli_out := cli_out bmc @ [''Connection activated'']\<rparr>)
         else if state = 0 then cli_do_quit (cli_fail BMC_RESULT_ERROR_CON_ACTIVATION ''Error: Connection activation failed.'' bmc)
         else bmc)"

definition con_timeout_cb :: "bmcli \<Rightarrow> bmcli" where
  "con_timeout_cb bmc =
     cli_do_quit (cli_fail BMC_RESULT_ERROR_TIMEOUT_EXPIRED (''Error: Timeout '' @ print_int (cli_timeout bmc) @ '' sec expired.'') bmc)"

text \<open>Called with the path and the error of the reply, or again when the active connections change.\<close>

definition activate_connection_cb :: "active_view list option \<Rightarrow> (cstr \<times> cstr) option \<Rightarrow> bmcli \<Rightarrow> bmcli" where
  "activate_connection_cb actives arguments bmc =
     (let bmc = (case arguments of Some (path, error) \<Rightarrow> bmc\<lparr>con_path_wanted := path, con_error := error\<rparr> | None \<Rightarrow> bmc);
          bmc = bmc\<lparr>con_handler := False\<rparr>
      in case con_error bmc of
           Some message \<Rightarrow>
             cli_do_quit (cli_fail BMC_RESULT_ERROR_CON_ACTIVATION (''Error: Connection activation failed: '' @ message) bmc)
         | None \<Rightarrow>
             (let path_text = (case con_path_wanted bmc of Some p \<Rightarrow> p | None \<Rightarrow> ''(null)'')
              in case bm_client_get_active_connection_by_path actives (con_path_wanted bmc) of
                   None \<Rightarrow>
                     if arguments \<noteq> None then bmc\<lparr>con_handler := True\<rparr>
                     else cli_do_quit (cli_fail BMC_RESULT_ERROR_CON_ACTIVATION
                            (''Error: Obtaining active connection for '' @ squote path_text @ '' failed.'') bmc)
                 | Some active \<Rightarrow>
                     (let bmc = bmc\<lparr>cli_out := cli_out bmc @ [''Active connection state: '' @ active_connection_state_to_string (av_state active),
                                                             ''Active connection path: '' @ path_text]\<rparr>
                      in if cli_nowait_flag bmc \<or> av_state active = 2 then cli_do_quit bmc
                         else bmc\<lparr>con_watching := True, con_timer := True\<rparr>)))"

section \<open>The command\<close>

definition after_command :: "bmcli \<Rightarrow> bmcli" where
  "after_command bmc = (if \<not> cli_should_wait bmc then cli_do_quit bmc else bmc)"

definition con_option_error :: "string \<Rightarrow> bmcli \<Rightarrow> bmcli" where
  "con_option_error msg bmc = cli_do_quit ((option_error msg bmc)\<lparr>cli_should_wait := False\<rparr>)"

definition run_con_command :: "cli_world \<Rightarrow> bmcli \<Rightarrow> bmcli cli_run" where
  "run_con_command w bmc =
     (let store = (\<lambda>r. cli_bind r (\<lambda>(result, bmc). Cli (after_command (bmc\<lparr>cli_return_value := result\<rparr>))));
          checked = (\<lambda>go. case bmc_terse_option_check (cli_print_output bmc) (cli_required_fields bmc) of
                             Some msg \<Rightarrow> Cli (con_option_error msg bmc) | None \<Rightarrow> store (go bmc))
      in case con_args bmc of
           [] \<Rightarrow> checked (do_connections_list w [])
         | command # args \<Rightarrow>
             if cli_matches command ''list'' = 0 then store (do_connections_list w args bmc)
             else if cli_matches command ''status'' = 0 then checked (do_connections_status w args)
             else if cli_matches command ''up'' = 0 then store (do_connection_up w args bmc)
             else if cli_matches command ''help'' = 0 then Cli (after_command ((cli_report (Usage ''con'') bmc)\<lparr>cli_should_wait := False\<rparr>))
             else Cli (after_command ((cli_fail BMC_RESULT_ERROR_USER_INPUT
                    (''Error: '' @ squote ''con'' @ '' command '' @ squote command @ '' is not valid.'') (cli_report (Usage ''con'') bmc))
                    \<lparr>cli_should_wait := False\<rparr>)))"

definition get_connections_cb :: "cli_world \<Rightarrow> bool \<Rightarrow> connection list \<Rightarrow> bmcli \<Rightarrow> bmcli cli_run" where
  "get_connections_cb w is_system connections bmc =
     (let bmc = (if is_system then bmc\<lparr>con_system_called := True, cli_system_connections := connections\<rparr>
                 else bmc\<lparr>con_user_called := True, cli_user_connections := connections\<rparr>)
      in if cli_system_running bmc \<and> \<not> con_system_called bmc \<or> cli_user_running bmc \<and> \<not> con_user_called bmc then Cli bmc
         else run_con_command w bmc)"

definition do_connections :: "cli_world \<Rightarrow> string list \<Rightarrow> bmcli \<Rightarrow> (bmc_result \<times> bmcli) cli_run" where
  "do_connections w argv bmc =
     (let bmc = bmc\<lparr>cli_should_wait := True, con_args := argv\<rparr>;
          failed = (\<lambda>txt bmc. let bmc = cli_fail BMC_RESULT_ERROR_UNKNOWN txt bmc in Cli (cli_return_value bmc, bmc))
      in if cw_bus w \<noteq> None then failed ''Error: could not connect to D-Bus.'' bmc
         else case cw_system_settings w of
                None \<Rightarrow> failed ''Error: Could not get system settings.'' bmc
              | Some system_running \<Rightarrow>
                  (case cw_user_settings w of
                     None \<Rightarrow> failed ''Error: Could not get user settings.'' bmc
                   | Some user_running \<Rightarrow>
                       (let bmc = bmc\<lparr>cli_system_running := system_running, cli_user_running := user_running\<rparr>
                        in if \<not> system_running \<and> \<not> user_running
                           then failed (''Error: Can'' @ [CHR 0x27] @ ''t obtain connections: settings services are not running.'') bmc
                           else Cli (BMC_RESULT_SUCCESS, bmc))))"

end
