(* ===== verification/Cli.thy ===== *)
theory Cli
  imports Cli_Connections
begin

text \<open>
  The command line client as a process, \<^verbatim>\<open>cli/src/bmcli.c\<close>: the options, the choice of the object, the start from an idle source of the
  main loop, and the events the loop handles until it is quit.  What holds of it as a whole: which commands end at once, which wait for
  ever, and what a listing prints.
\<close>

section \<open>Options\<close>

definition set_print_output :: "string \<Rightarrow> string \<Rightarrow> print_output \<Rightarrow> print_output \<Rightarrow> bmcli \<Rightarrow> bool \<times> bmcli" where
  "set_print_output name other mode other_mode bmc =
     (if cli_print_output bmc = mode
      then (False, cli_fail BMC_RESULT_ERROR_USER_INPUT (''Error: Option '' @ squote name @ '' is specified the second time.'') bmc)
      else if cli_print_output bmc = other_mode
      then (False, cli_fail BMC_RESULT_ERROR_USER_INPUT (''Error: Option '' @ squote name @ '' is mutually exclusive with '' @ squote other @ ''.'') bmc)
      else (True, bmc\<lparr>cli_print_output := mode\<rparr>))"

definition missing_option_argument :: "string \<Rightarrow> bmcli \<Rightarrow> bmcli" where
  "missing_option_argument opt bmc = cli_fail BMC_RESULT_ERROR_USER_INPUT (''Error: missing argument for '' @ squote opt @ '' option.'') bmc"

definition bad_option_argument :: "string \<Rightarrow> string \<Rightarrow> bmcli \<Rightarrow> bmcli" where
  "bad_option_argument arg opt bmc =
     cli_fail BMC_RESULT_ERROR_USER_INPUT (''Error: '' @ squote arg @ '' is not valid argument for '' @ squote opt @ '' option.'') bmc"

text \<open>One word: it is an option and the words after it are next, the options end before some words, or the command line is refused or
  answered at once.\<close>

datatype option_outcome = Next_Words "string list" | Options_End "string list" | Answered bmc_result

definition refuse_option :: "bmcli \<Rightarrow> option_outcome \<times> bmcli" where
  "refuse_option bmc = (Answered (cli_return_value bmc), bmc)"

definition parse_option :: "string \<Rightarrow> string \<Rightarrow> string list \<Rightarrow> bmcli \<Rightarrow> option_outcome \<times> bmcli" where
  "parse_option base word argv bmc =
     (if word = ''--'' then (Options_End argv, bmc)
      else if word = [] \<or> hd word \<noteq> CHR ''-'' then (Options_End (word # argv), bmc)
      else
        let opt = (if length word > 1 \<and> word ! 1 = CHR ''-'' then tl word else word)
        in if cli_matches opt ''-terse'' = 0
           then (case set_print_output ''--terse'' ''--pretty'' BMC_PRINT_TERSE BMC_PRINT_PRETTY bmc of
                   (ok, bmc) \<Rightarrow> if ok then (Next_Words argv, bmc) else refuse_option bmc)
           else if cli_matches opt ''-pretty'' = 0
           then (case set_print_output ''--pretty'' ''--terse'' BMC_PRINT_PRETTY BMC_PRINT_TERSE bmc of
                   (ok, bmc) \<Rightarrow> if ok then (Next_Words argv, bmc) else refuse_option bmc)
           else if cli_matches opt ''-mode'' = 0
           then (let bmc = bmc\<lparr>cli_mode_specified := True\<rparr>
                 in case argv of
                      [] \<Rightarrow> refuse_option (missing_option_argument opt bmc)
                    | arg # argv \<Rightarrow>
                        if arg = ''tabular'' then (Next_Words argv, bmc\<lparr>cli_multiline := False\<rparr>)
                        else if arg = ''multiline'' then (Next_Words argv, bmc\<lparr>cli_multiline := True\<rparr>)
                        else refuse_option (bad_option_argument arg opt bmc))
           else if cli_matches opt ''-escape'' = 0
           then (case argv of
                   [] \<Rightarrow> refuse_option (missing_option_argument opt bmc)
                 | arg # argv \<Rightarrow>
                     if arg = ''yes'' then (Next_Words argv, bmc\<lparr>cli_escape_values := True\<rparr>)
                     else if arg = ''no'' then (Next_Words argv, bmc\<lparr>cli_escape_values := False\<rparr>)
                     else refuse_option (bad_option_argument arg opt bmc))
           else if cli_matches opt ''-fields'' = 0
           then (case argv of
                   [] \<Rightarrow> refuse_option (cli_fail BMC_RESULT_ERROR_USER_INPUT (''Error: fields for '' @ squote opt @ '' options are missing.'') bmc)
                 | arg # argv \<Rightarrow> (Next_Words argv, bmc\<lparr>cli_required_fields := Some arg\<rparr>))
           else if cli_matches opt ''-version'' = 0
           then (Answered BMC_RESULT_SUCCESS, bmc\<lparr>cli_out := cli_out bmc @ [''bmcli tool, version'']\<rparr>)
           else if cli_matches opt ''-help'' = 0 then (Answered BMC_RESULT_SUCCESS, cli_report (Usage base) bmc)
           else refuse_option (cli_fail BMC_RESULT_ERROR_USER_INPUT
                  (''Error: Option '' @ squote opt @ '' is unknown, try '' @ squote ''bmcli -help'' @ ''.'') bmc))"

lemma option_shorter: "parse_option base word argv bmc = (Next_Words rest, bmc') \<Longrightarrow> length rest \<le> length argv"
  by (auto simp: parse_option_def refuse_option_def Let_def split: if_splits prod.splits list.splits)

text \<open>The rest of the words, or the result.\<close>

function parse_options :: "string \<Rightarrow> string list \<Rightarrow> bmcli \<Rightarrow> (bmc_result + string list) \<times> bmcli" where
  "parse_options base words bmc =
     (case words of
        [] \<Rightarrow> (Inr [], bmc)
      | word # argv \<Rightarrow>
          (case parse_option base word argv bmc of
             (Next_Words rest, bmc) \<Rightarrow> parse_options base rest bmc
           | (Options_End rest, bmc) \<Rightarrow> (Inr rest, bmc)
           | (Answered result, bmc) \<Rightarrow> (Inl result, bmc)))"
  by pat_completeness auto
termination
  by (relation "measure (\<lambda>(_, words, _). length words)") (auto dest: option_shorter [OF sym])

declare parse_options.simps [simp del]

section \<open>Objects\<close>

definition do_help :: "bmcli \<Rightarrow> (bmc_result \<times> bmcli) cli_run" where
  "do_help bmc = Cli (BMC_RESULT_SUCCESS, cli_report (Usage ''bmcli'') bmc)"

datatype cli_object = Object_BM | Object_Con | Object_Dev | Object_Help

definition bmcli_cmds :: "(string \<times> cli_object) list" where
  "bmcli_cmds = [(''bm'', Object_BM), (''con'', Object_Con), (''dev'', Object_Dev), (''help'', Object_Help)]"

fun find_cmd :: "string \<Rightarrow> (string \<times> cli_object) list \<Rightarrow> cli_object option" where
  "find_cmd argv0 [] = None"
| "find_cmd argv0 ((cmd, obj) # cmds) = (if cli_matches argv0 cmd = 0 then Some obj else find_cmd argv0 cmds)"

definition do_cmd :: "cli_world \<Rightarrow> string \<Rightarrow> string list \<Rightarrow> bmcli \<Rightarrow> (bmc_result \<times> bmcli) cli_run" where
  "do_cmd w argv0 argv bmc =
     (case find_cmd argv0 bmcli_cmds of
        Some Object_BM \<Rightarrow> do_barcode_manager w argv bmc
      | Some Object_Con \<Rightarrow> do_connections w argv bmc
      | Some Object_Dev \<Rightarrow> do_devices w argv bmc
      | Some Object_Help \<Rightarrow> do_help bmc
      | None \<Rightarrow>
          Cli (BMC_RESULT_ERROR_USER_INPUT,
               cli_fail BMC_RESULT_ERROR_USER_INPUT (''Error: Object '' @ squote argv0 @ '' is unknown, try '' @ squote ''bmcli help'' @ ''.'') bmc))"

definition parse_command_line :: "cli_world \<Rightarrow> string \<Rightarrow> string list \<Rightarrow> bmcli \<Rightarrow> (bmc_result \<times> bmcli) cli_run" where
  "parse_command_line w base argv bmc =
     (case parse_options base argv bmc of
        (Inl result, bmc) \<Rightarrow> Cli (result, bmc)
      | (Inr [], bmc) \<Rightarrow> (let bmc = cli_report (Usage base) bmc in Cli (cli_return_value bmc, bmc))
      | (Inr (argv0 # argv), bmc) \<Rightarrow> do_cmd w argv0 argv bmc)"

section \<open>The process\<close>

definition start :: "cli_world \<Rightarrow> string \<Rightarrow> string list \<Rightarrow> bmcli \<Rightarrow> bmcli cli_run" where
  "start w base argv bmc =
     cli_bind (parse_command_line w base argv bmc) (\<lambda>(result, bmc). Cli (after_command (bmc\<lparr>cli_return_value := result\<rparr>)))"

text \<open>What the main loop handles: the connections of a settings service, the reply to an activation, a change of the active
  connections or of the state of the one that is watched, the timer, and a signal.\<close>

datatype cli_event =
  Connections_Read bool "connection list"
| Activation_Reply cstr cstr "active_view list option"
| Actives_Changed "active_view list option"
| Active_State_Changed u32
| Timer_Expired
| Unix_Signal nat

definition cli_signal_handler :: "nat \<Rightarrow> bmcli \<Rightarrow> bmcli" where
  "cli_signal_handler signo bmc = (if signo = 2 \<or> signo = 15 then cli_do_quit bmc else bmc)"

definition cli_handle :: "cli_world \<Rightarrow> cli_event \<Rightarrow> bmcli \<Rightarrow> bmcli cli_run" where
  "cli_handle w ev bmc =
     (case ev of
        Connections_Read is_system connections \<Rightarrow> get_connections_cb w is_system connections bmc
      | Activation_Reply path error actives \<Rightarrow> Cli (activate_connection_cb actives (Some (path, error)) (bmc\<lparr>con_pending := False\<rparr>))
      | Actives_Changed actives \<Rightarrow> Cli (activate_connection_cb actives None bmc)
      | Active_State_Changed state \<Rightarrow> Cli (active_connection_state_cb state bmc)
      | Timer_Expired \<Rightarrow> Cli (con_timeout_cb bmc)
      | Unix_Signal signo \<Rightarrow> Cli (cli_signal_handler signo bmc))"

definition cli_enabled :: "cli_event \<Rightarrow> bmcli \<Rightarrow> bool" where
  "cli_enabled ev bmc \<longleftrightarrow>
     \<not> cli_quit bmc \<and>
     (case ev of
        Connections_Read is_system _ \<Rightarrow> if is_system then cli_system_running bmc \<and> \<not> con_system_called bmc else cli_user_running bmc \<and> \<not> con_user_called bmc
      | Activation_Reply _ _ _ \<Rightarrow> con_pending bmc
      | Actives_Changed _ \<Rightarrow> con_handler bmc
      | Active_State_Changed _ \<Rightarrow> con_watching bmc
      | Timer_Expired \<Rightarrow> con_timer bmc
      | Unix_Signal _ \<Rightarrow> True)"

fun cli_run_events :: "cli_world \<Rightarrow> cli_event list \<Rightarrow> bmcli cli_run \<Rightarrow> bmcli cli_run" where
  "cli_run_events w [] st = st"
| "cli_run_events w (ev # evs) st = cli_run_events w evs (cli_bind st (cli_handle w ev))"

inductive cli_reachable :: "cli_world \<Rightarrow> string \<Rightarrow> string list \<Rightarrow> bmcli \<Rightarrow> bool" for w base argv where
  "start w base argv bmc_init = Cli bmc \<Longrightarrow> cli_reachable w base argv bmc"
| "cli_reachable w base argv bmc \<Longrightarrow> cli_enabled ev bmc \<Longrightarrow> cli_handle w ev bmc = Cli bmc' \<Longrightarrow> cli_reachable w base argv bmc'"

text \<open>The end of \<^verbatim>\<open>main\<close>: the exit code, with the text if it is not a success.\<close>

definition cli_result :: "bmcli \<Rightarrow> nat \<times> cli_message list" where
  "cli_result bmc =
     (exit_code (cli_return_value bmc),
      cli_err bmc @ (if cli_return_value bmc \<noteq> BMC_RESULT_SUCCESS then [Return_Text (cli_return_text bmc)] else []))"

section \<open>Lemmas\<close>

text \<open>What the helpers leave alone: whether to wait, what is waited for and the calls.\<close>

definition waits :: "bmcli \<Rightarrow> bool \<times> bool \<times> bool \<times> bool \<times> bool" where
  "waits bmc = (cli_quit bmc, con_pending bmc, con_handler bmc, con_watching bmc, con_timer bmc)"

definition asked_activation :: "bmcli \<Rightarrow> bool" where
  "asked_activation bmc \<longleftrightarrow> (\<exists>s c d so. Sent (Call_Activate_Connection s c d so) \<in> set (cli_calls bmc))"

lemma helper_fields [simp]:
  "cli_should_wait (cli_fail r t bmc) = cli_should_wait bmc" "waits (cli_fail r t bmc) = waits bmc" "cli_calls (cli_fail r t bmc) = cli_calls bmc"
  "cli_should_wait (cli_report m bmc) = cli_should_wait bmc" "waits (cli_report m bmc) = waits bmc" "cli_calls (cli_report m bmc) = cli_calls bmc"
  "cli_should_wait (cli_print w bmc) = cli_should_wait bmc" "waits (cli_print w bmc) = waits bmc" "cli_calls (cli_print w bmc) = cli_calls bmc"
  "cli_should_wait (set_values vs bmc) = cli_should_wait bmc" "waits (set_values vs bmc) = waits bmc" "cli_calls (set_values vs bmc) = cli_calls bmc"
  "cli_should_wait (set_indices al ps bmc) = cli_should_wait bmc" "waits (set_indices al ps bmc) = waits bmc" "cli_calls (set_indices al ps bmc) = cli_calls bmc"
  "cli_should_wait (clear_headers bmc) = cli_should_wait bmc" "waits (clear_headers bmc) = waits bmc" "cli_calls (clear_headers bmc) = cli_calls bmc"
  by (simp_all add: cli_fail_def cli_report_def cli_print_def set_values_def set_indices_def clear_headers_def waits_def)

lemma waits_fields [simp]:
  "waits (bmc\<lparr>cli_flags := fl\<rparr>) = waits bmc" "waits (bmc\<lparr>cli_header := h\<rparr>) = waits bmc" "waits (bmc\<lparr>cli_out := l\<rparr>) = waits bmc"
  "waits (bmc\<lparr>cli_should_wait := b\<rparr>) = waits bmc" "waits (bmc\<lparr>cli_multiline := b\<rparr>) = waits bmc" "waits (bmc\<lparr>cli_client := b\<rparr>) = waits bmc"
  "waits (bmc\<lparr>cli_return_value := r\<rparr>) = waits bmc" "waits (bmc\<lparr>cli_timeout := t\<rparr>) = waits bmc" "waits (bmc\<lparr>cli_calls := cs\<rparr>) = waits bmc"
  "waits (bmc\<lparr>con_args := as\<rparr>) = waits bmc" "waits (bmc\<lparr>cli_system_running := b\<rparr>) = waits bmc" "waits (bmc\<lparr>cli_user_running := b\<rparr>) = waits bmc"
  "waits (bmc\<lparr>con_system_called := b\<rparr>) = waits bmc" "waits (bmc\<lparr>con_user_called := b\<rparr>) = waits bmc"
  "waits (bmc\<lparr>cli_system_connections := cl\<rparr>) = waits bmc" "waits (bmc\<lparr>cli_user_connections := cl\<rparr>) = waits bmc"
  "waits (bmc\<lparr>cli_nowait_flag := b\<rparr>) = waits bmc" "waits (bmc\<lparr>cli_mode_specified := b\<rparr>) = waits bmc"
  "waits (bmc\<lparr>cli_escape_values := b\<rparr>) = waits bmc" "waits (bmc\<lparr>cli_required_fields := f\<rparr>) = waits bmc"
  "waits (bmc\<lparr>cli_print_output := po\<rparr>) = waits bmc"
  by (simp_all add: waits_def)

text \<open>A command that keeps all of it, if it returns.\<close>

definition quiet :: "bmcli \<Rightarrow> bmcli \<Rightarrow> bool" where
  "quiet bmc bmc' \<longleftrightarrow> cli_should_wait bmc' = cli_should_wait bmc \<and> waits bmc' = waits bmc \<and> cli_calls bmc' = cli_calls bmc"

definition quiet_run :: "bmcli \<Rightarrow> bmcli cli_run \<Rightarrow> bool" where
  "quiet_run bmc r \<longleftrightarrow> (\<forall>bmc'. r = Cli bmc' \<longrightarrow> quiet bmc bmc')"

lemma quiet_refl [simp]: "quiet bmc bmc"
  by (simp add: quiet_def)

lemma quiet_trans: "quiet a b \<Longrightarrow> quiet b c \<Longrightarrow> quiet a c"
  by (simp add: quiet_def)

lemma quiet_foldl: "(\<And>b x. quiet b (f b x)) \<Longrightarrow> quiet b (foldl f b xs)"
  by (induction xs arbitrary: b) (auto intro: quiet_trans)

lemma quiet_helpers:
  "quiet bmc (print_section w fl fa al vs bmc)" "quiet bmc (show_device_status w bmc d)" "quiet bmc (unknown_parameters as bmc)"
  "quiet bmc (not_running_error e bmc)" "quiet bmc (snd (snd (bmc_is_bm_running w bmc)))" "quiet bmc (option_error m bmc)"
  "quiet_run bmc (bmc_get_client w bmc)"
proof -
  show "quiet bmc (unknown_parameters as bmc)"
    unfolding unknown_parameters_def by (rule quiet_foldl) (simp add: quiet_def)
qed (auto simp: quiet_run_def quiet_def print_section_def show_device_status_def not_running_error_def bmc_is_bm_running_def option_error_def
    bmc_get_client_def Let_def split: option.splits sum.splits if_splits)

lemma quiet_device: "quiet bmc (show_device_info w bmc d)"
proof -
  have sect: "quiet (fst st) (fst (show_device_section w d flags st k))" for flags st k
    using quiet_helpers(1) by (cases st) (auto simp: show_device_section_def Let_def quiet_def)
  have "quiet (fst st) (fst (foldl (show_device_section w d flags) st ks))" for flags st ks
  proof (induction ks arbitrary: st)
    case (Cons k ks)
    show ?case
      using quiet_trans [OF sect Cons.IH, of st flags k] by simp
  qed simp
  from this [of "(b, False)" for b] show ?thesis
    by (auto simp: show_device_info_def Let_def quiet_def split: sum.split)
qed

lemma quiet_running: "bmc_is_bm_running w bmc = (r, e, bmc') \<Longrightarrow> quiet bmc bmc'"
  using quiet_helpers(5) [of bmc w] by simp

lemma quiet_client: "bmc_get_client w bmc = Cli bmc' \<Longrightarrow> quiet bmc bmc'"
  using quiet_helpers(7) [of bmc w] by (simp add: quiet_run_def)

text \<open>The same of commands, which also return a result.\<close>

definition quiet_command :: "(bmcli \<Rightarrow> (bmc_result \<times> bmcli) cli_run) \<Rightarrow> bool" where
  "quiet_command command \<longleftrightarrow> (\<forall>bmc result bmc'. command bmc = Cli (result, bmc') \<longrightarrow> quiet bmc bmc')"

lemma quiet_if_running: "quiet_command go \<Longrightarrow> quiet_command (if_running w go)"
  unfolding quiet_command_def if_running_def Let_def
  by (auto split: prod.splits if_splits dest!: quiet_running intro: quiet_trans quiet_helpers)

lemma quiet_checked: "quiet_command command \<Longrightarrow> quiet_run bmc (checked_command command bmc)"
  unfolding quiet_command_def quiet_run_def checked_command_def
  by (auto simp: bind_Cli split: option.splits intro: quiet_helpers) (fastforce simp: quiet_def)

lemma quiet_status: "quiet_command (show_bm_status w)"
  unfolding quiet_command_def
proof (intro allI impI)
  fix bmc result bmc'
  assume "show_bm_status w bmc = Cli (result, bmc')"
  then show "quiet bmc bmc'"
    by (auto simp: show_bm_status_def Let_def bind_Cli quiet_def split: sum.splits prod.splits if_splits dest!: quiet_running quiet_client)
qed

lemma quiet_devices_status: "quiet_command (do_devices_status w argv)"
  unfolding quiet_command_def
proof (intro allI impI)
  fix bmc result bmc'
  assume run: "do_devices_status w argv bmc = Cli (result, bmc')"
  have go: "quiet_command (\<lambda>bmc. cli_bind (bmc_get_client w (cli_print w (bmc\<lparr>cli_flags := fl, cli_header := ''Status of devices''\<rparr>)))
                  (\<lambda>bmc. Cli (BMC_RESULT_SUCCESS, foldl (show_device_status w) bmc (devices_of w))))" for fl
    unfolding quiet_command_def
    using quiet_foldl [of "show_device_status w", OF quiet_helpers(2)] by (fastforce simp: bind_Cli quiet_def dest!: quiet_client)
  have "quiet bmc (unknown_parameters argv bmc)"
    by (rule quiet_helpers)
  then show "quiet bmc bmc'"
    using run quiet_if_running [OF go, of w] unfolding do_devices_status_def Let_def quiet_command_def
    by (auto simp: quiet_def split: sum.splits)
qed

lemma quiet_args: "dev_list_args argv iface bmc = (i, ok, bmc') \<Longrightarrow> quiet bmc bmc'"
proof (induction argv iface bmc rule: dev_list_args.induct)
  case (2 a argv iface bmc)
  show ?case
  proof (cases "a = ''iface''")
    case True
    then show ?thesis
      using 2 by (cases argv) (auto simp: quiet_def)
  next
    case False
    have "quiet bmc (cli_report (Unknown_Parameter a) bmc)"
      by (simp add: quiet_def)
    then show ?thesis
      using False 2(2) [OF False] "2.prems" quiet_trans by simp
  qed
qed simp

lemma quiet_devices_list: "quiet_command (do_devices_list w argv)"
  unfolding quiet_command_def
proof (intro allI impI)
  fix bmc result bmc'
  assume run: "do_devices_list w argv bmc = Cli (result, bmc')"
  have go: "quiet_command (\<lambda>bmc. cli_bind (bmc_get_client w bmc)
               (\<lambda>bmc. cli_bind
                  (case iface of
                     Some i \<Rightarrow>
                       cli_bind (find_iface (devices_of w) i None)
                         (\<lambda>device. Cli (case device of
                            None \<Rightarrow> cli_fail BMC_RESULT_ERROR_UNKNOWN (''Error: Device '' @ squote i @ '' not found.'') bmc
                          | Some d \<Rightarrow> show_device_info w bmc d))
                   | None \<Rightarrow> Cli (foldl (show_device_info w) bmc (devices_of w)))
                  (\<lambda>bmc. Cli (cli_return_value bmc, bmc))))" for iface
    unfolding quiet_command_def
    by (auto simp: bind_Cli split: option.splits dest!: quiet_client
        elim!: quiet_trans intro!: quiet_foldl quiet_device) (simp add: quiet_def)
  obtain i ok b where args: "dev_list_args argv None bmc = (i, ok, b)"
    by (metis prod_cases3)
  then have "quiet bmc b"
    by (rule quiet_args)
  then show "quiet bmc bmc'"
    using run quiet_if_running [OF go, of w i] unfolding do_devices_list_def quiet_command_def
    by (auto simp: args quiet_def split: if_splits)
qed

text \<open>The commands about the daemon and about devices: they do not ask to wait, nor for an activation.\<close>

definition calm :: "bmcli \<Rightarrow> bmcli \<Rightarrow> bool" where
  "calm bmc bmc' \<longleftrightarrow> cli_should_wait bmc' = cli_should_wait bmc \<and> snd (waits bmc') = snd (waits bmc) \<and>
     (asked_activation bmc' \<longrightarrow> asked_activation bmc)"

lemma quiet_calm: "quiet bmc bmc' \<Longrightarrow> calm bmc bmc'"
  by (simp add: quiet_def calm_def asked_activation_def)

lemma calm_bm: "do_barcode_manager w argv bmc = Cli (result, bmc') \<Longrightarrow> calm bmc bmc'"
proof -
  assume run: "do_barcode_manager w argv bmc = Cli (result, bmc')"
  have net: "show_net_enabled w b = Cli b' \<Longrightarrow> quiet b b'" for b b'
    by (auto simp: show_net_enabled_def Let_def bind_Cli quiet_def split: option.splits prod.splits if_splits dest!: quiet_running quiet_client)
  have status: "checked_command (show_bm_status w) b = Cli b' \<Longrightarrow> quiet b b'" for b b'
    using quiet_checked [OF quiet_status] by (simp add: quiet_run_def)
  have sleep: "calm b (networking_set_sleep w f b)" for f b
    by (auto simp: networking_set_sleep_def calm_def asked_activation_def Let_def split: option.splits)
  have switch: "calm b (b'\<lparr>cli_calls := cli_calls b' @ [Sent (client_networking_set_enabled f)]\<rparr>)" if "quiet b b'" for f b b'
    using that by (auto simp: quiet_def calm_def asked_activation_def client_networking_set_enabled_def)
  have bad: "calm b (bad_switch c a b)" "calm b (option_error m b)" for c a m b
    by (simp_all add: bad_switch_def option_error_def calm_def asked_activation_def)
  have plain: "calm b (cli_fail r t b)" "calm b (cli_report m b)" for r t m b
    by (simp_all add: calm_def asked_activation_def)
  have "calm bmc b" if command: "barcode_manager_command w argv bmc = Cli b" for b
  proof (cases argv)
    case Nil
    then show ?thesis
      using command by (auto simp: barcode_manager_command_def intro: quiet_calm status)
  next
    case (Cons c args)
    show ?thesis
    proof (cases "cli_matches c ''status'' = 0")
      case True
      then show ?thesis
        using command Cons by (auto simp: barcode_manager_command_def intro: quiet_calm status)
    next
      case no_status: False
      show ?thesis
      proof (cases "cli_matches c ''enable'' = 0")
        case True
        then show ?thesis
          using command Cons no_status
          by (auto simp: barcode_manager_command_def bind_Cli split: prod.splits if_splits option.splits
              intro: quiet_calm net switch quiet_client bad)
      next
        case False
        then show ?thesis
          using command Cons no_status
          by (auto simp: barcode_manager_command_def split: prod.splits if_splits option.splits intro: bad sleep plain)
      qed
    qed
  qed
  then show ?thesis
    using run by (auto simp: do_barcode_manager_def bind_Cli cli_do_quit_def calm_def waits_def asked_activation_def)
qed

lemma calm_dev: "do_devices w argv bmc = Cli (result, bmc') \<Longrightarrow> quiet bmc bmc'"
proof -
  assume run: "do_devices w argv bmc = Cli (result, bmc')"
  have status: "checked_command (do_devices_status w as) b = Cli b' \<Longrightarrow> quiet b b'" for as b b'
    using quiet_checked [OF quiet_devices_status] by (simp add: quiet_run_def)
  have list: "do_devices_list w as b = Cli (r, b') \<Longrightarrow> quiet b b'" for as b r b'
    using quiet_devices_list by (auto simp: quiet_command_def)
  have "quiet bmc bmc'"
    using run by (auto simp: do_devices_def devices_command_def bind_Cli split: list.splits if_splits dest!: status list)
      (simp_all add: quiet_def)
  then show ?thesis .
qed

lemma option_quiet: "parse_option base word argv bmc = (r, bmc') \<Longrightarrow> quiet bmc bmc'"
  by (auto simp: parse_option_def set_print_output_def refuse_option_def missing_option_argument_def bad_option_argument_def quiet_def Let_def
      split: if_splits prod.splits list.splits)

lemma options_quiet: "parse_options base words bmc = (r, bmc') \<Longrightarrow> quiet bmc bmc'"
proof (induction base words bmc arbitrary: r bmc' rule: parse_options.induct)
  case (1 base words bmc)
  show ?case
  proof (cases words)
    case Nil
    then show ?thesis
      using "1.prems" by (simp add: parse_options.simps)
  next
    case (Cons word argv)
    obtain out b where step: "parse_option base word argv bmc = (out, b)"
      by fastforce
    then have "quiet bmc b"
      by (rule option_quiet)
    then show ?thesis
      using "1.prems" "1.IH" [OF Cons step [symmetric]] unfolding Cons
      by (subst (asm) parse_options.simps) (auto simp: step split: option_outcome.splits intro: quiet_trans)
  qed
qed

lemma connections_wait:
  assumes "do_connections w argv bmc = Cli (result, bmc')"
  shows "cli_should_wait bmc'" "waits bmc' = waits bmc" "cli_calls bmc' = cli_calls bmc" "con_args bmc' = argv"
  using assms by (auto simp: do_connections_def Let_def cli_fail_def waits_def split: if_splits option.splits)

text \<open>C40: Only commands about connections wait: a start that is neither a crash nor an exit quits the main loop, unless the object is
  \<^verbatim>\<open>con\<close>; and then the loop waits and nothing has been asked of the daemon.\<close>

theorem only_con_waits:
  assumes "start w base argv bmc_init = Cli bmc" "\<not> cli_quit bmc"
  shows "\<exists>argv0 args b. parse_options base argv bmc_init = (Inr (argv0 # args), b) \<and> find_cmd argv0 bmcli_cmds = Some Object_Con \<and>
    con_args bmc = args \<and> cli_should_wait bmc \<and> cli_calls bmc = []"
proof -
  obtain r b where options: "parse_options base argv bmc_init = (r, b)"
    by fastforce
  then have b: "\<not> cli_should_wait b" "cli_calls b = []"
    using options_quiet [OF options] by (simp_all add: quiet_def bmc_init_def)
  obtain result b1 where run: "parse_command_line w base argv bmc_init = Cli (result, b1)" "bmc = after_command (b1\<lparr>cli_return_value := result\<rparr>)"
    using assms(1) by (auto simp: start_def bind_Cli)
  have wait: "cli_should_wait b1"
    using assms(2) unfolding run(2) by (rule contrapos_np) (simp add: after_command_def cli_do_quit_def)
  then have bmc: "bmc = b1\<lparr>cli_return_value := result\<rparr>"
    by (simp add: run(2) after_command_def)
  obtain argv0 args where words: "r = Inr (argv0 # args)" "do_cmd w argv0 args b = Cli (result, b1)"
    using run(1) options wait b(1) by (auto simp: parse_command_line_def Let_def split: sum.splits list.splits)
  have "find_cmd argv0 bmcli_cmds = Some Object_Con"
    using words(2) wait b(1) calm_bm [of w args b result b1] calm_dev [of w args b result b1]
    by (auto simp: do_cmd_def do_help_def calm_def quiet_def split: option.splits cli_object.splits)
  moreover have "do_connections w args b = Cli (result, b1)"
    using words(2) calculation by (simp add: do_cmd_def)
  ultimately show ?thesis
    using options words(1) wait connections_wait [of w args b result b1] b by (simp add: bmc)
qed

definition sample_world :: "bool \<Rightarrow> cli_world" where
  "sample_world services =
     \<lparr>cw_bus = None, cw_proxy = True, cw_owner = Inr True, cw_client = True, cw_state = 3, cw_net_enabled = True, cw_devices = None, cw_actives = None,
      cw_system_settings = Some services, cw_user_settings = Some services, cw_sleep = None, cw_time = (\<lambda>_. Some ''now''),
      cw_unicode = \<lparr>u_get_char = (\<lambda>_. 65), u_iswide = (\<lambda>_. False), u_iszerowidth = (\<lambda>_. False)\<rparr>\<rparr>"

lemma con_start:
  assumes "parse_options base argv bmc_init = (Inr (argv0 # args), b)" "find_cmd argv0 bmcli_cmds = Some Object_Con"
    and "do_connections w args b = Cli (result, b')"
  shows "start w base argv bmc_init = Cli (b'\<lparr>cli_return_value := result\<rparr>)"
  using assms connections_wait(1) [OF assms(3)] by (simp add: start_def parse_command_line_def do_cmd_def after_command_def)

lemma plain_word: "word \<noteq> [] \<Longrightarrow> hd word \<noteq> CHR ''-'' \<Longrightarrow> parse_options base (word # argv) bmc = (Inr (word # argv), bmc)"
  by (subst parse_options.simps) (auto simp: parse_option_def)

lemma con_object: "find_cmd ''con'' bmcli_cmds = Some Object_Con"
  by (simp add: bmcli_cmds_def cli_matches_def)

theorem only_con_waits_witness:
  "\<exists>bmc argv0 args b. start (sample_world True) ''bmcli'' [''con'', ''list''] bmc_init = Cli bmc \<and>
    parse_options ''bmcli'' [''con'', ''list''] bmc_init = (Inr (argv0 # args), b) \<and> con_args bmc = args \<and> cli_should_wait bmc"
proof -
  have "do_connections (sample_world True) [''list''] bmc_init =
      Cli (BMC_RESULT_SUCCESS, bmc_init\<lparr>cli_should_wait := True, con_args := [''list''], cli_system_running := True, cli_user_running := True\<rparr>)"
    by (simp add: do_connections_def sample_world_def)
  then have start: "\<exists>bmc. start (sample_world True) ''bmcli'' [''con'', ''list''] bmc_init = Cli bmc \<and> \<not> cli_quit bmc"
    using con_start [OF plain_word con_object] by (simp add: bmc_init_def)
  then show ?thesis
    using only_con_waits [of "sample_world True" "''bmcli''" "[''con'', ''list'']"] by blast
qed

text \<open>Without a settings service \<^verbatim>\<open>bmcli con\<close> never ends: the error is noted, but the loop is not quit, and nothing but a signal is
  ever handled; the text is only printed then.\<close>

theorem con_without_services_hangs:
  assumes "parse_options base argv bmc_init = (Inr (argv0 # args), b)" "find_cmd argv0 bmcli_cmds = Some Object_Con"
    and "cw_bus w = None" "cw_system_settings w = Some False" "cw_user_settings w = Some False"
  shows "\<exists>bmc. start w base argv bmc_init = Cli bmc \<and> \<not> cli_quit bmc \<and> cli_return_value bmc = BMC_RESULT_ERROR_UNKNOWN \<and>
    (\<forall>ev. cli_enabled ev bmc \<longrightarrow> (\<exists>n. ev = Unix_Signal n))"
proof -
  have b: "waits b = waits bmc_init"
    using options_quiet [OF assms(1)] by (simp add: quiet_def)
  let ?b = "cli_fail BMC_RESULT_ERROR_UNKNOWN (''Error: Can'' @ [CHR 0x27] @ ''t obtain connections: settings services are not running.'')
      (b\<lparr>cli_should_wait := True, con_args := args, cli_system_running := False, cli_user_running := False\<rparr>)"
  have run: "do_connections w args b = Cli (BMC_RESULT_ERROR_UNKNOWN, ?b)"
    using assms(3-5) by (simp add: do_connections_def Let_def cli_fail_def)
  have none: "ev = Unix_Signal n" if "cli_enabled ev (?b\<lparr>cli_return_value := BMC_RESULT_ERROR_UNKNOWN\<rparr>)" "\<nexists>n. ev = Unix_Signal n" for ev n
    using that b by (cases ev) (auto simp: cli_enabled_def cli_fail_def waits_def bmc_init_def split: if_splits)
  show ?thesis
    unfolding con_start [OF assms(1,2) run] using none b by (auto simp: waits_def bmc_init_def cli_fail_def)
qed

theorem con_without_services_hangs_witness:
  "\<exists>bmc. start (sample_world False) ''bmcli'' [''con''] bmc_init = Cli bmc \<and> \<not> cli_quit bmc \<and> cli_return_value bmc = BMC_RESULT_ERROR_UNKNOWN \<and>
    (\<forall>ev. cli_enabled ev bmc \<longrightarrow> (\<exists>n. ev = Unix_Signal n))"
  by (rule con_without_services_hangs [OF plain_word con_object]) (simp_all add: sample_world_def)

section \<open>Activation\<close>

text \<open>What all the commands about connections keep.\<close>

definition hushed :: "bmcli \<Rightarrow> bmcli \<Rightarrow> bool" where
  "hushed bmc bmc' \<longleftrightarrow> waits bmc' = waits bmc \<and> cli_calls bmc' = cli_calls bmc"

lemma hushed_refl [simp]: "hushed b b"
  by (simp add: hushed_def)

lemma hushed_trans: "hushed a b \<Longrightarrow> hushed b c \<Longrightarrow> hushed a c"
  by (simp add: hushed_def)

lemma quiet_hushed: "quiet a b \<Longrightarrow> hushed a b"
  by (simp add: quiet_def hushed_def)

lemma fold_hushed:
  assumes "\<And>b x b'. f (Cli b) x = Cli b' \<Longrightarrow> hushed b b'" "\<And>x. f Cli_Crashed x = Cli_Crashed" "\<And>n x. f (Cli_Exit n) x = Cli_Exit n"
  shows "foldl f (Cli b) xs = Cli b' \<Longrightarrow> hushed b b'"
proof (induction xs arbitrary: b)
  case (Cons x xs)
  have stuck: "foldl f Cli_Crashed xs = Cli_Crashed" "foldl f (Cli_Exit n) xs = Cli_Exit n" for n
    by (induction xs) (simp_all add: assms(2,3))
  obtain b1 where "f (Cli b) x = Cli b1"
    using Cons.prems stuck by (cases "f (Cli b) x") auto
  moreover have "hushed b b1"
    using assms(1) calculation .
  ultimately show ?case
    using Cons.IH [of b1] Cons.prems hushed_trans by simp
qed simp

lemma hushed_show: "show_connection w (Cli b) c = Cli b' \<Longrightarrow> hushed b b'"
  by (auto simp: show_connection_def hushed_def split: option.splits)

lemma hushed_section: "list_section w fl h cs b = Cli b' \<Longrightarrow> hushed b b'"
proof -
  assume "list_section w fl h cs b = Cli b'"
  then have "hushed (cli_print w (b\<lparr>cli_flags := fl OR BMC_PF_FLAG_MAIN_HEADER_ADD OR BMC_PF_FLAG_FIELD_NAMES, cli_header := h\<rparr>)) b'"
    unfolding list_section_def by (rule fold_hushed [rotated -1]) (auto simp: hushed_show show_connection_def)
  then show ?thesis
    by (simp add: hushed_def)
qed

lemma hushed_detail: "bmc_connection_detail w c b = Cli b' \<Longrightarrow> hushed b b'"
proof -
  assume run: "bmc_connection_detail w c b = Cli b'"
  have details: "hushed b (setting_connection_details w s b)" "hushed b (setting_serial_details w s' b)"
    "setting_bluetooth_details w s'' b = Cli b2 \<Longrightarrow> hushed b b2" for b s s' s'' b2
    using quiet_hushed [OF quiet_helpers(1)]
    by (auto simp: setting_connection_details_def setting_serial_details_def setting_bluetooth_details_def bind_Cli split: option.splits if_splits)
  have blank: "hushed b (b\<lparr>cli_out := l\<rparr>)" for b l
    by (simp add: hushed_def)
  have step: "hushed b b2" if "connection_section w c (Cli (b, o1)) k = Cli (b2, o2)" for b o1 k b2 o2
    using that by (auto simp: connection_section_def Let_def bind_Cli split: if_splits nat.splits option.splits
        intro: blank details hushed_trans [OF blank] dest: details(3))
  have "hushed b b2" if "foldl (connection_section w c) (Cli (b, o1)) ks = Cli (b2, o2)" for b o1 ks b2 o2
    using that
  proof (induction ks arbitrary: b o1)
    case (Cons k ks)
    have stuck: "foldl (connection_section w c) Cli_Crashed ks = Cli_Crashed" "foldl (connection_section w c) (Cli_Exit n) ks = Cli_Exit n" for n
      by (induction ks) (simp_all add: connection_section_def)
    obtain st where st: "connection_section w c (Cli (b, o1)) k = Cli st"
      using Cons.prems stuck by (cases "connection_section w c (Cli (b, o1)) k") auto
    obtain b1 o3 where "st = (b1, o3)"
      by fastforce
    then show ?case
      using Cons.IH [of b1 o3] Cons.prems st step [of b o1 k b1 o3] hushed_trans by auto
  qed simp
  then show ?thesis
    using run by (auto simp: bmc_connection_detail_def Let_def bind_Cli hushed_def split: sum.splits)
qed

lemma hushed_checked:
  assumes "list_checked e go b = Cli b'" "\<And>b1. go b = Cli b1 \<Longrightarrow> hushed b b1"
  shows "hushed b b'"
proof -
  have "hushed b (list_error e m b)" for e m
    by (simp add: list_error_def option_error_def hushed_def Let_def split: option.split)
  then show ?thesis
    using assms by (auto simp: list_checked_def split: option.splits)
qed

lemma hushed_one: "list_one w sel a b = Cli b' \<Longrightarrow> hushed b b'"
proof -
  assume run: "list_one w sel a b = Cli b'"
  let ?b = "if \<not> cli_mode_specified b then b\<lparr>cli_multiline := True\<rparr> else b"
  have start: "hushed b ?b"
    by (simp add: hushed_def)
  have detail: "hushed x y" if "(case con of Some c \<Rightarrow> bmc_connection_detail w c x | None \<Rightarrow> Cli x) = Cli y" for con x y
    using that by (cases con) (auto dest: hushed_detail)
  obtain con1 con2 b1 b2 where steps:
      "(case con1 of Some c \<Rightarrow> bmc_connection_detail w c ?b | None \<Rightarrow> Cli ?b) = Cli b1"
      "(case con2 of Some c \<Rightarrow> bmc_connection_detail w c b1 | None \<Rightarrow> Cli b1) = Cli b2"
      "Cli (if con1 = None \<and> con2 = None then cli_fail BMC_RESULT_ERROR_UNKNOWN (''Error: '' @ a @ '' - no such connection.'') b2 else b2) = Cli b'"
    using run unfolding list_one_def Let_def bind_Cli by blast
  have "hushed b b2"
    using start detail [OF steps(1)] detail [OF steps(2)] by (rule hushed_trans [OF hushed_trans])
  moreover have "hushed b2 b'"
    using steps(3) by (auto simp: hushed_def split: if_splits)
  ultimately show ?thesis
    by (rule hushed_trans)
qed

lemma hushed_list_loop: "list_loop w fl e argv b = Cli b' \<Longrightarrow> hushed b b'"
proof (induction argv arbitrary: b)
  case (Cons a argv)
  have plain: "hushed b (cli_fail r t b)" "hushed b (cli_report m b)" for r t m
    by (simp_all add: hushed_def)
  show ?case
  proof (cases "a = ''id'' \<or> a = ''uuid''")
    case True
    then show ?thesis
      using Cons.prems by (cases argv) (auto intro: plain hushed_one)
  next
    case False
    show ?thesis
    proof (cases "a = ''system'' \<or> a = ''user''")
      case True
      then show ?thesis
        using Cons.prems False by (cases "a = ''system''") (auto elim!: hushed_checked dest: hushed_section)
    next
      case no_list: False
      then show ?thesis
        using Cons.prems Cons.IH False hushed_trans [OF plain(2)] by auto
    qed
  qed
qed (auto simp: hushed_def)

lemma hushed_list: "do_connections_list w argv b = Cli (result, b') \<Longrightarrow> hushed b b'"
proof -
  assume run: "do_connections_list w argv b = Cli (result, b')"
  obtain al ps e where go: "(if argv = []
            then list_checked e
                   (\<lambda>bmc. cli_bind (list_section w (output_flags b) ''System connections'' (cli_system_connections bmc) bmc)
                      (\<lambda>bmc. list_section w (output_flags b) ''User connections'' (cli_user_connections bmc) bmc)) (set_indices al ps (b\<lparr>cli_should_wait := False\<rparr>))
            else list_loop w (output_flags b) e argv (set_indices al ps (b\<lparr>cli_should_wait := False\<rparr>))) = Cli b'"
    using run unfolding do_connections_list_def Let_def bind_Cli by auto
  have "hushed (set_indices al ps (b\<lparr>cli_should_wait := False\<rparr>)) b'"
  proof (cases "argv = []")
    case True
    then have "list_checked e
         (\<lambda>bmc. cli_bind (list_section w (output_flags b) ''System connections'' (cli_system_connections bmc) bmc)
            (\<lambda>bmc. list_section w (output_flags b) ''User connections'' (cli_user_connections bmc) bmc)) (set_indices al ps (b\<lparr>cli_should_wait := False\<rparr>)) = Cli b'"
      using go by simp
    then show ?thesis
      by (rule hushed_checked) (auto simp: bind_Cli dest!: hushed_section intro: hushed_trans)
  next
    case False
    then show ?thesis
      using go by (auto intro: hushed_list_loop)
  qed
  then show ?thesis
    by (simp add: hushed_def)
qed

lemma hushed_active_loop: "show_active_loop w active cs b = Cli b' \<Longrightarrow> hushed b b'"
proof (induction cs)
  case (Cons c cs)
  have "hushed b (cli_print w (clear_headers (set_values vs b)))" for vs
    by (simp add: hushed_def)
  then show ?case
    using Cons by (auto split: option.splits if_splits)
qed simp

lemma hushed_status: "do_connections_status w argv b = Cli (result, b') \<Longrightarrow> hushed b b'"
proof -
  assume run: "do_connections_status w argv b = Cli (result, b')"
  have one: "show_active_connection w scope (Cli b) active = Cli b' \<Longrightarrow> hushed b b'" for scope b active b'
    by (auto simp: show_active_connection_def intro: hushed_active_loop split: if_splits)
  have actives: "hushed b b'" if "foldl (show_active_connection w scope) (Cli b) as = Cli b'" for scope as b b'
    using that by (rule fold_hushed [rotated -1]) (auto simp: show_active_connection_def intro: one)
  have both: "hushed b b'" if both: "foldl (show_active_connection w s2) (foldl (show_active_connection w s1) (Cli b) as) as = Cli b'" for s1 s2 as b b'
  proof -
    have stuck: "foldl (show_active_connection w s2) Cli_Crashed xs = Cli_Crashed"
      "foldl (show_active_connection w s2) (Cli_Exit n) xs = Cli_Exit n" for xs n
      by (induction xs) (simp_all add: show_active_connection_def)
    obtain b1 where "foldl (show_active_connection w s1) (Cli b) as = Cli b1"
      using both stuck by (cases "foldl (show_active_connection w s1) (Cli b) as") auto
    then show ?thesis
      using both actives hushed_trans by metis
  qed
  let ?go = "\<lambda>bmc. cli_bind (bmc_get_client w (cli_print w (bmc\<lparr>cli_flags := output_flags b OR BMC_PF_FLAG_MAIN_HEADER_ADD OR BMC_PF_FLAG_FIELD_NAMES,
                                                               cli_header := ''Active connections''\<rparr>)))
                  (\<lambda>bmc. let actives = (case cw_actives w of Some as \<Rightarrow> as | None \<Rightarrow> [])
                         in cli_bind (foldl (show_active_connection w BM_CONNECTION_SCOPE_USER)
                                        (foldl (show_active_connection w BM_CONNECTION_SCOPE_SYSTEM) (Cli bmc) actives) actives)
                              (\<lambda>bmc. Cli (cli_return_value bmc, bmc)))"
  have go: "hushed x y" if step: "?go x = Cli (r, y)" for x y r
  proof -
    obtain x1 as where x1: "bmc_get_client w (cli_print w (x\<lparr>cli_flags := output_flags b OR BMC_PF_FLAG_MAIN_HEADER_ADD OR BMC_PF_FLAG_FIELD_NAMES,
          cli_header := ''Active connections''\<rparr>)) = Cli x1"
        "foldl (show_active_connection w BM_CONNECTION_SCOPE_USER) (foldl (show_active_connection w BM_CONNECTION_SCOPE_SYSTEM) (Cli x1) as) as = Cli y"
      using step unfolding Let_def bind_Cli by blast
    have "hushed x x1"
      using quiet_client [OF x1(1)] by (simp add: quiet_def hushed_def)
    then show ?thesis
      using both [OF x1(2)] by (rule hushed_trans)
  qed
  have running: "hushed x y" if "if_running w ?go x = Cli (r, y)" for x y r
  proof -
    obtain up e x1 where x1: "bmc_is_bm_running w x = (up, e, x1)"
      by (metis prod_cases3)
    then have "hushed x x1"
      by (rule quiet_hushed [OF quiet_running])
    moreover have "hushed x1 y"
      using that go [of x1 r y] quiet_hushed [OF quiet_helpers(4)] by (auto simp: if_running_def x1 Let_def split: if_splits)
    ultimately show ?thesis
      by (rule hushed_trans)
  qed
  show ?thesis
  proof (cases "parse_output_fields (fields_wanted (cli_required_fields b) ''NAME,UUID,DEVICES,SCOPE,DEFAULT,VPN'' BMC_FIELDS_CON_STATUS_ALL) bmc_fields_con_status")
    case (Inl e)
    then show ?thesis
      using run by (auto simp: do_connections_status_def Let_def hushed_def)
  next
    case (Inr idx)
    then show ?thesis
      using run running by (fastforce simp: do_connections_status_def Let_def hushed_def)
  qed
qed

lemma hushed_up_word: "up_word a rest args b = Cli (r, args', b') \<Longrightarrow> hushed b b'"
  by (cases rest) (auto simp: up_word_def missing_argument_def hushed_def Let_def bind_Cli split: if_splits option.splits)

lemma hushed_up_loop: "up_loop argv args b = Cli (ok, args', b') \<Longrightarrow> hushed b b'"
proof (induction argv args b arbitrary: ok args' b' rule: up_loop.induct)
  case (1 argv args b)
  show ?case
  proof (cases argv)
    case Nil
    then show ?thesis
      using "1.prems" by (simp add: up_loop.simps)
  next
    case (Cons a rest)
    obtain r args1 b1 where step: "up_word a rest args b = Cli (r, args1, b1)"
      using "1.prems" unfolding Cons by (subst (asm) up_loop.simps) (auto split: cli_run.splits)
    then have "hushed b b1"
      by (rule hushed_up_word)
    then show ?thesis
      using "1.prems" "1.IH" [OF Cons step refl] unfolding Cons
      by (subst (asm) up_loop.simps) (auto simp: step split: option.splits intro: hushed_trans)
  qed
qed

text \<open>The library refuses every activation, as the device is never set.\<close>

lemma hushed_activate: "up_activate args b = Cli (result, b') \<Longrightarrow> hushed b b'"
  by (auto simp: up_activate_def bm_client_activate_connection_def hushed_def Let_def split: option.splits if_splits)

lemma hushed_failed: "up_failed b = Cli (result, b') \<Longrightarrow> hushed b b'"
  by (auto simp: up_failed_def hushed_def Let_def)

lemma hushed_up: "do_connection_up w argv b = Cli (result, b') \<Longrightarrow> hushed b b'"
proof -
  assume run: "do_connection_up w argv b = Cli (result, b')"
  obtain ok args b1 where loop: "up_loop argv \<lparr>up_connection = None, up_id_specified = False, up_wait = True, up_iface = None, up_ap = None\<rparr>
      (b\<lparr>cli_timeout := 90\<rparr>) = Cli (ok, args, b1)"
    using run unfolding do_connection_up_def Let_def bind_Cli by (metis prod_cases3)
  have "hushed b b1"
    using hushed_up_loop [OF loop] by (simp add: hushed_def)
  moreover have "hushed b1 b'"
  proof -
    obtain up e b2 where running: "bmc_is_bm_running w b1 = (up, e, b2)"
      by (metis prod_cases3)
    have "hushed b1 b2"
      by (rule quiet_hushed [OF quiet_running [OF running]])
    moreover have "hushed b2 (not_running_error e b2)"
      by (rule quiet_hushed [OF quiet_helpers(4)])
    ultimately show ?thesis
      using run unfolding do_connection_up_def Let_def loop
      by (auto simp: running bind_Cli split: if_splits
          dest!: quiet_client [THEN quiet_hushed] hushed_activate hushed_failed intro: hushed_trans) (simp add: hushed_def)
  qed
  ultimately show ?thesis
    by (rule hushed_trans)
qed

definition nothing_pending :: "bmcli \<Rightarrow> bool" where
  "nothing_pending bmc \<longleftrightarrow> \<not> con_pending bmc \<and> \<not> con_handler bmc \<and> \<not> con_watching bmc \<and> \<not> con_timer bmc \<and> \<not> asked_activation bmc"

lemma nothing_hushed: "hushed b b' \<Longrightarrow> nothing_pending b \<Longrightarrow> nothing_pending b'"
  by (simp add: hushed_def nothing_pending_def waits_def asked_activation_def)

lemma nothing_pending_fields [simp]:
  "nothing_pending (bmc\<lparr>cli_should_wait := f\<rparr>) = nothing_pending bmc" "nothing_pending (bmc\<lparr>cli_return_value := r\<rparr>) = nothing_pending bmc"
  "nothing_pending (after_command bmc) = nothing_pending bmc" "nothing_pending (cli_do_quit bmc) = nothing_pending bmc"
  "nothing_pending (option_error m bmc) = nothing_pending bmc" "nothing_pending (con_option_error m bmc) = nothing_pending bmc"
  "nothing_pending (cli_fail r t bmc) = nothing_pending bmc" "nothing_pending (cli_report um bmc) = nothing_pending bmc"
  by (simp_all add: nothing_pending_def asked_activation_def after_command_def cli_do_quit_def option_error_def con_option_error_def
      cli_fail_def cli_report_def)

lemma con_command_pending:
  assumes "run_con_command w b = Cli b'" "nothing_pending b"
  shows "nothing_pending b'"
  using assms unfolding run_con_command_def Let_def
  by (auto simp: bind_Cli split: list.splits if_splits option.splits dest!: hushed_list hushed_status hushed_up dest: nothing_hushed)

lemma reachable_pending: "cli_reachable w base argv bmc \<Longrightarrow> nothing_pending bmc"
proof (induction rule: cli_reachable.induct)
  case (1 bmc)
  obtain r b where options: "parse_options base argv bmc_init = (r, b)"
    by fastforce
  have init: "nothing_pending b"
    by (rule nothing_hushed [OF quiet_hushed [OF options_quiet [OF options]]]) (simp add: nothing_pending_def asked_activation_def bmc_init_def)
  have calm: "calm x y \<Longrightarrow> nothing_pending x \<Longrightarrow> nothing_pending y" for x y
    by (auto simp: calm_def nothing_pending_def waits_def)
  have command: "nothing_pending y" if "do_cmd w argv0 args b = Cli (res, y)" for argv0 args res y
    using that init connections_wait(2,3) [of w args b res y]
    by (auto simp: do_cmd_def do_help_def nothing_hushed hushed_def split: option.splits cli_object.splits
        dest!: calm_bm calm_dev dest: calm quiet_calm)
  have "nothing_pending y" if "parse_command_line w base argv bmc_init = Cli (res, y)" for res y
    using that init command by (auto simp: parse_command_line_def options Let_def split: sum.splits list.splits)
  then show ?case
    using 1 by (auto simp: start_def bind_Cli)
next
  case (2 bmc ev bmc')
  then show ?case
    by (cases ev) (auto simp: cli_enabled_def cli_handle_def get_connections_cb_def nothing_pending_def asked_activation_def cli_signal_handler_def
        cli_do_quit_def Let_def split: if_splits dest!: con_command_pending)
qed


lemma sample_found:
  "find_connection [sample_connection] ''uuid'' (''0-f'') = Cli (Some sample_connection)"
  "connection_setting sample_connection \<noteq> None"
  by (simp_all add: sample_connection_def connection_setting_def bm_connection_get_setting_def gh_lookup_def bm_setting_connection_get_uuid_def)


section \<open>A listing for other programs\<close>

text \<open>What a column shows for a connection.\<close>

definition connection_column :: "cli_world \<Rightarrow> connection \<Rightarrow> nat \<Rightarrow> string" where
  "connection_column w c i =
     (case connection_setting c of
        None \<Rightarrow> []
      | Some p \<Rightarrow>
          (case map_of (connection_values c p (the (cw_time w (bm_setting_connection_get_timestamp p)))) i of
             Some (Some v) \<Rightarrow> v
           | _ \<Rightarrow> ''not set''))"

definition can_be_listed :: "cli_world \<Rightarrow> connection \<Rightarrow> bool" where
  "can_be_listed w c \<longleftrightarrow> (\<exists>p. connection_setting c = Some p \<and> cw_time w (bm_setting_connection_get_timestamp p) \<noteq> None)"

lemma set_values_value:
  "\<forall>(k, v) \<in> set vs. k < length fs \<Longrightarrow> distinct (map fst vs) \<Longrightarrow>
     of_value (foldl (\<lambda>fs (i, v). fs[i := (fs ! i)\<lparr>of_value := v\<rparr>]) fs vs ! i) = (case map_of vs i of Some v \<Rightarrow> v | None \<Rightarrow> of_value (fs ! i))"
proof (induction vs arbitrary: fs)
  case (Cons x vs)
  obtain k v where x: "x = (k, v)"
    by fastforce
  have "map_of vs k = None"
    using Cons.prems(2) by (simp add: x map_of_eq_None_iff)
  then show ?case
    using Cons.IH [of "fs[k := (fs ! k)\<lparr>of_value := v\<rparr>]"] Cons.prems by (auto simp: x nth_list_update split: option.split)
qed simp

lemma set_values_length: "length (foldl (\<lambda>fs (i, v). fs[i := (fs ! i)\<lparr>of_value := v\<rparr>]) fs vs) = length fs"
  by (induction vs arbitrary: fs) (auto split: prod.split)

lemma connection_values_keys: "map fst (connection_values c p t) = [0, 1, 2, 3, 4, 5, 6, 7, 8]"
  by (simp add: connection_values_def)

definition row_flags :: "u32 set" where
  "row_flags = {BMC_PF_FLAG_TERSE OR BMC_PF_FLAG_ESCAPE,
     (BMC_PF_FLAG_TERSE OR BMC_PF_FLAG_ESCAPE) OR BMC_PF_FLAG_MAIN_HEADER_ADD OR BMC_PF_FLAG_FIELD_NAMES}"

lemma listed_row:
  assumes "can_be_listed w c" "cli_flags b \<in> row_flags" "length (cli_allowed b) = 9" "cli_indices b = idx" "idx \<noteq> []" "\<forall>i \<in> set idx. i < 9"
  shows "\<exists>line b'. show_connection w (Cli b) c = Cli b' \<and> b' = b\<lparr>cli_allowed := cli_allowed b', cli_flags := BMC_PF_FLAG_TERSE OR BMC_PF_FLAG_ESCAPE,
      cli_out := cli_out b @ [line]\<rparr> \<and> length (cli_allowed b') = 9 \<and> split_terse line = map (connection_column w c) idx"
proof -
  obtain p t where p: "connection_setting c = Some p" "cw_time w (bm_setting_connection_get_timestamp p) = Some t"
    using assms(1) by (auto simp: can_be_listed_def)
  let ?b = "clear_headers (set_values (connection_values c p t) b)"
  let ?spec = "\<lparr>pf_indices = cli_indices ?b, pf_header_name = cli_header ?b, pf_indent = 0, pf_flags = cli_flags ?b\<rparr>"
  have b: "?b = b\<lparr>cli_allowed := cli_allowed ?b, cli_flags := BMC_PF_FLAG_TERSE OR BMC_PF_FLAG_ESCAPE\<rparr>"
    using assms(2) by (auto simp: clear_headers_def set_values_def row_flags_def pf_flag_defs)
  have flags: "cli_flags ?b = BMC_PF_FLAG_TERSE OR BMC_PF_FLAG_ESCAPE" "cli_indices ?b = idx"
    by (subst b, simp) (subst b, simp add: assms(4))
  have "\<exists>line. print_fields (cw_unicode w) ?spec (cli_allowed ?b) = [line] \<and>
      split_terse line = map (\<lambda>i. field_text (cli_allowed ?b ! i)) (pf_indices ?spec)"
    by (rule terse_row_line) (simp_all add: flags pf_has_def pf_flag_defs assms(5))
  then obtain line where line: "print_fields (cw_unicode w) ?spec (cli_allowed ?b) = [line]"
      "split_terse line = map (\<lambda>i. field_text (cli_allowed ?b ! i)) idx"
    by (auto simp: flags)
  have keys: "\<forall>(k, v) \<in> set (connection_values c p t). k < length (cli_allowed b)" "distinct (map fst (connection_values c p t))"
    using connection_values_keys [of c p t] by (auto simp: assms(3) connection_values_def)
  have "field_text (cli_allowed ?b ! i) = connection_column w c i" if "i \<in> set idx" for i
  proof -
    have "i < 9"
      using that assms(6) by blast
    then have "i \<in> fst ` set (connection_values c p t)"
      using connection_values_keys [of c p t, THEN arg_cong [of _ _ set]] by auto
    then obtain v where v: "map_of (connection_values c p t) i = Some v"
      by (metis map_of_eq_None_iff not_None_eq)
    have "of_value (cli_allowed ?b ! i) = v"
      using set_values_value [OF keys, of i] v by (simp add: clear_headers_def set_values_def)
    then show ?thesis
      using v p by (simp add: field_text_def connection_column_def split: option.split)
  qed
  then have "split_terse line = map (connection_column w c) idx"
    using line(2) by simp
  moreover have "length (cli_allowed ?b) = 9"
    using set_values_length [of "cli_allowed b" "connection_values c p t"] by (simp add: clear_headers_def set_values_def assms(3))
  moreover have "show_connection w (Cli b) c = Cli (b\<lparr>cli_allowed := cli_allowed ?b, cli_flags := BMC_PF_FLAG_TERSE OR BMC_PF_FLAG_ESCAPE,
      cli_out := cli_out b @ [line]\<rparr>)"
  proof -
    have "cli_out ?b = cli_out b"
      by (simp add: clear_headers_def set_values_def)
    then have "show_connection w (Cli b) c = Cli (?b\<lparr>cli_out := cli_out b @ [line]\<rparr>)"
      by (simp add: show_connection_def p cli_print_def line(1))
    then show ?thesis
      using arg_cong [OF b, of "\<lambda>x. x\<lparr>cli_out := cli_out b @ [line]\<rparr>"] by simp
  qed
  ultimately show ?thesis
    by (intro exI [of _ line] exI conjI) (assumption, simp_all)
qed

lemma listed_rows:
  assumes "\<forall>c \<in> set cs. can_be_listed w c" "cli_flags b \<in> row_flags" "length (cli_allowed b) = 9" "cli_indices b = idx" "idx \<noteq> []"
    and "\<forall>i \<in> set idx. i < 9"
  shows "\<exists>lines al fl. foldl (show_connection w) (Cli b) cs = Cli (b\<lparr>cli_allowed := al, cli_flags := fl, cli_out := cli_out b @ lines\<rparr>) \<and>
    length al = 9 \<and> map split_terse lines = map (\<lambda>c. map (connection_column w c) idx) cs"
  using assms
proof (induction cs arbitrary: b)
  case Nil
  have "b = b\<lparr>cli_allowed := cli_allowed b, cli_flags := cli_flags b, cli_out := cli_out b @ []\<rparr>"
    by (cases b) simp
  then show ?case
    using Nil.prems(3) by (metis foldl_Nil list.simps(8))
next
  case (Cons c cs)
  obtain line b1 where row: "show_connection w (Cli b) c = Cli b1" "b1 = b\<lparr>cli_allowed := cli_allowed b1, cli_flags := BMC_PF_FLAG_TERSE OR BMC_PF_FLAG_ESCAPE,
      cli_out := cli_out b @ [line]\<rparr>" "length (cli_allowed b1) = 9" "split_terse line = map (connection_column w c) idx"
    using listed_row [of w c b idx] Cons.prems by auto
  have b1: "cli_flags b1 \<in> row_flags" "cli_indices b1 = idx" "cli_out b1 = cli_out b @ [line]"
    by (subst row(2), simp add: row_flags_def) (subst row(2), simp add: Cons.prems(4), subst row(2), simp)
  obtain lines al fl where rest: "foldl (show_connection w) (Cli b1) cs = Cli (b1\<lparr>cli_allowed := al, cli_flags := fl, cli_out := cli_out b1 @ lines\<rparr>)"
      "length al = 9" "map split_terse lines = map (\<lambda>c. map (connection_column w c) idx) cs"
    using Cons.IH [of b1] Cons.prems b1 row(3) by auto
  have "b1\<lparr>cli_allowed := al, cli_flags := fl, cli_out := cli_out b1 @ lines\<rparr> =
      b\<lparr>cli_allowed := al, cli_flags := fl, cli_out := cli_out b @ (line # lines)\<rparr>"
    unfolding b1(3) by (subst row(2)) simp
  then show ?case
    using rest row by (intro exI [of _ "line # lines"] exI [of _ al] exI [of _ fl]) simp
qed

lemma listed_section:
  assumes "\<forall>c \<in> set cs. can_be_listed w c" "length (cli_allowed b) = 9" "cli_indices b = idx" "idx \<noteq> []" "\<forall>i \<in> set idx. i < 9"
  shows "\<exists>lines al fl. list_section w (BMC_PF_FLAG_TERSE OR BMC_PF_FLAG_ESCAPE) header cs b =
      Cli (b\<lparr>cli_header := header, cli_allowed := al, cli_flags := fl, cli_out := cli_out b @ lines\<rparr>) \<and>
    length al = 9 \<and> map split_terse lines = map (\<lambda>c. map (connection_column w c) idx) cs"
proof -
  let ?b = "b\<lparr>cli_flags := (BMC_PF_FLAG_TERSE OR BMC_PF_FLAG_ESCAPE) OR BMC_PF_FLAG_MAIN_HEADER_ADD OR BMC_PF_FLAG_FIELD_NAMES, cli_header := header\<rparr>"
  have "cli_print w ?b = ?b"
    by (simp add: cli_print_def print_fields_def pf_has_def pf_flag_defs)
  moreover have "\<exists>lines al fl. foldl (show_connection w) (Cli ?b) cs = Cli (?b\<lparr>cli_allowed := al, cli_flags := fl, cli_out := cli_out ?b @ lines\<rparr>) \<and>
      length al = 9 \<and> map split_terse lines = map (\<lambda>c. map (connection_column w c) idx) cs"
    by (rule listed_rows) (use assms in \<open>simp_all add: row_flags_def\<close>)
  ultimately show ?thesis
    by (fastforce simp: list_section_def)
qed

lemma terse_options:
  "parse_options base [''-t'', ''-f'', f, ''con'', ''list''] bmc_init =
     (Inr [''con'', ''list''], bmc_init\<lparr>cli_print_output := BMC_PRINT_TERSE, cli_required_fields := Some f\<rparr>)"
proof -
  have t: "parse_option base ''-t'' argv bmc_init = (Next_Words argv, bmc_init\<lparr>cli_print_output := BMC_PRINT_TERSE\<rparr>)" for argv
    by (simp add: parse_option_def cli_matches_def set_print_output_def bmc_init_def)
  have fields: "parse_option base ''-f'' (f # argv) b = (Next_Words argv, b\<lparr>cli_required_fields := Some f\<rparr>)" for argv b
    by (simp add: parse_option_def cli_matches_def)
  show ?thesis
    by (subst parse_options.simps) (simp add: t, subst parse_options.simps, simp add: fields plain_word)
qed

text \<open>The list, once both services have been read.\<close>

lemma terse_list:
  assumes "parse_output_fields f bmc_fields_con_list = Inr idx" "idx \<noteq> []" "\<not> strcaseeq f ''all''" "\<not> strcaseeq f ''common''"
    and listed: "\<forall>c \<in> set (cli_system_connections b @ cli_user_connections b). can_be_listed w c"
    and b: "con_args b = [''list'']" "cli_print_output b = BMC_PRINT_TERSE" "cli_required_fields b = Some f" "\<not> cli_multiline b"
      "cli_escape_values b" "cli_return_value b = BMC_RESULT_SUCCESS" "cli_out b = []" "cli_err b = []"
  shows "\<exists>bmc. run_con_command w b = Cli bmc \<and> cli_quit bmc \<and> cli_result bmc = (0, []) \<and>
    map split_terse (cli_out bmc) = map (\<lambda>c. map (connection_column w c) idx) (cli_system_connections b @ cli_user_connections b)"
proof -
  let ?F = "BMC_PF_FLAG_TERSE OR BMC_PF_FLAG_ESCAPE"
  let ?b0 = "b\<lparr>cli_should_wait := False, cli_allowed := bmc_fields_con_list, cli_indices := idx\<rparr>"
  have idx: "\<forall>i \<in> set idx. i < 9"
  proof -
    have "list_all2 (first_field bmc_fields_con_list) (strsplit_set '','' f) idx"
      using assms(1) parse_fields_loop_iff by (auto simp: parse_output_fields_def)
    then have "\<forall>i \<in> set idx. i < length bmc_fields_con_list"
      by (auto simp: list_all2_conv_all_nth in_set_conv_nth first_field_def)
    moreover have "length bmc_fields_con_list = 9"
      by (simp add: bmc_fields_con_list_def output_fields_def)
    ultimately show ?thesis
      by simp
  qed
  have "length (cli_allowed ?b0) = 9"
    by (simp add: bmc_fields_con_list_def output_fields_def)
  then obtain l1 a1 f1 where sys: "list_section w ?F ''System connections'' (cli_system_connections b) ?b0 =
        Cli (?b0\<lparr>cli_header := ''System connections'', cli_allowed := a1, cli_flags := f1, cli_out := cli_out ?b0 @ l1\<rparr>)" "length a1 = 9"
      "map split_terse l1 = map (\<lambda>c. map (connection_column w c) idx) (cli_system_connections b)"
    using listed_section [of "cli_system_connections b" w ?b0 idx "''System connections''"] listed assms(2) idx by auto
  let ?b1 = "?b0\<lparr>cli_header := ''System connections'', cli_allowed := a1, cli_flags := f1, cli_out := cli_out ?b0 @ l1\<rparr>"
  obtain l2 a2 f2 where user: "list_section w ?F ''User connections'' (cli_user_connections b) ?b1 =
        Cli (?b1\<lparr>cli_header := ''User connections'', cli_allowed := a2, cli_flags := f2, cli_out := cli_out ?b1 @ l2\<rparr>)"
      "map split_terse l2 = map (\<lambda>c. map (connection_column w c) idx) (cli_user_connections b)"
    using listed_section [of "cli_user_connections b" w ?b1 idx "''User connections''"] listed assms(2) idx sys(2) by auto
  let ?b2 = "?b1\<lparr>cli_header := ''User connections'', cli_allowed := a2, cli_flags := f2, cli_out := cli_out ?b1 @ l2\<rparr>"
  have flags: "output_flags b = ?F"
    by (simp add: output_flags_def b)
  have wanted: "parse_output_fields (fields_wanted (Some f) x y) bmc_fields_con_list = Inr idx" for x y
    using assms(1,3,4) by (simp add: fields_wanted_def)
  have check: "bmc_terse_option_check BMC_PRINT_TERSE (Some f) = None"
    using assms(3,4) by (simp add: bmc_terse_option_check_def)
  have "do_connections_list w [] b = Cli (BMC_RESULT_SUCCESS, ?b2)"
    using sys(1) user(1) by (simp add: do_connections_list_def Let_def flags b wanted set_indices_def list_checked_def check)
  then have "run_con_command w b = Cli (after_command (?b2\<lparr>cli_return_value := BMC_RESULT_SUCCESS\<rparr>))"
    by (simp add: run_con_command_def b cli_matches_def)
  then show ?thesis
    using sys(3) user(2) by (simp add: after_command_def cli_do_quit_def cli_result_def b)
qed



end
