(* ===== verification/Spec2Isabelle.thy ===== *)
theory Spec2Isabelle
  imports Logging Setting Connection Auth_Chain Device Manager Manager_Events Manager_Properties Bluetooth_Search Properties_Changed Call_Store System_Connection Sysconfig_Settings Device_Bt Udev_Manager Activation Dbus_Manager Daemon Dispatcher Mobile_Providers GConf_Helpers GConf_Roundtrip
    Client_Object Client_Heap Client Client_Device Remote_Settings Libbm_Glib Value_Conversions GConf_Settings Barcode_Service Cli
begin

text \<open>
  A verification library for barcode-manager, the daemon of barcode-utils that manages barcode scanners,
  and for the libraries and programs around it.  All paths are below \<^verbatim>\<open>src/barcode-manager\<close> unless they say otherwise.

  The program and its theories.

  \<^item> \<open>BM_Prelude\<close> and \<open>GHash_Table\<close> hold the vocabulary: words for the C integers, C strings, the few
  functions of the C library and of GLib, and GLib's hash tables with the interface \<open>hash_table\<close>.
  \<^item> The setting library \<^verbatim>\<open>libbm-util\<close>: \<open>GValue_Compare\<close> (typed values and their comparison, \<^verbatim>\<open>bm-param-spec-specialized.c\<close>),
  \<open>Setting_Classes\<close> (the three setting classes with their properties and verification, \<^verbatim>\<open>bm-setting-connection.c\<close>,
  \<^verbatim>\<open>bm-setting-bluetooth.c\<close>, \<^verbatim>\<open>bm-setting-serial.c\<close>), \<open>Setting\<close> (the generic operations, \<^verbatim>\<open>bm-setting.c\<close>) and
  \<open>Connection\<close> (connections as tables of settings, \<^verbatim>\<open>bm-connection.c\<close>), \<open>Value_Conversions\<close> (\<^verbatim>\<open>bm-utils.c\<close>).  They are pure functions over the records \<open>setting\<close>
  and \<open>connection\<close>.
  \<^item> The daemon's core: \<open>Logging\<close> (\<^verbatim>\<open>src/logging/bm-logging.c\<close>), \<open>Auth_Chain\<close> (PolicyKit requests, \<^verbatim>\<open>src/bm-manager-auth.c\<close>),
  \<open>Device\<close> (\<^verbatim>\<open>src/bm-device.c\<close>), \<open>Manager\<close> (every handler of \<^verbatim>\<open>src/bm-manager.c\<close>, over a record for its private data and
  an explicit store for the chains), \<open>Manager_Invariants\<close> (what each operation keeps), \<open>Manager_Events\<close> (the handlers as
  the events of a transition system, with the reachable worlds as an inductive predicate), \<open>Manager_Properties\<close> and \<open>Bluetooth_Search\<close>.
  \<^item> Around the manager: \<open>Udev_Manager\<close> (discovery of devices, \<^verbatim>\<open>src/bm-udev-manager.c\<close>, \<^verbatim>\<open>src/bm-device-hidraw.c\<close>),
  \<open>Device_Bt\<close> (\<^verbatim>\<open>src/bm-device-bt.c\<close>), \<open>Activation\<close> (\<^verbatim>\<open>src/bm-activation-request.c\<close> and the secrets provider interface),
  \<open>Dbus_Manager\<close> (\<^verbatim>\<open>src/bm-dbus-manager.c\<close>), \<open>Properties_Changed\<close> (\<^verbatim>\<open>src/bm-properties-changed-signal.c\<close>), \<open>Call_Store\<close>
  (\<^verbatim>\<open>src/bm-call-store.c\<close>), \<open>Daemon\<close> (\<^verbatim>\<open>src/main.c\<close>) and \<open>Dispatcher\<close> (\<^verbatim>\<open>callouts/bm-dispatcher-action.c\<close>).
  \<^item> The system settings service: \<open>System_Connection\<close> (one connection on the bus, \<^verbatim>\<open>libbm-glib/bm-exported-connection.c\<close>,
  \<^verbatim>\<open>src/system-settings/bm-sysconfig-connection.c\<close>), \<open>Settings_Service\<close> (\<^verbatim>\<open>libbm-glib/bm-settings-service.c\<close>) and
  \<open>Sysconfig_Settings\<close> (\<^verbatim>\<open>src/system-settings/bm-sysconfig-settings.c\<close>).
  \<^item> The client library \<^verbatim>\<open>libbm-glib\<close>: \<open>Client_Object\<close> (\<^verbatim>\<open>bm-object.c\<close>: names and changes of properties), \<open>Client_Heap\<close>
  (\<^verbatim>\<open>bm-object-cache.c\<close>, \<^verbatim>\<open>bm-types.c\<close>: objects with their reference counts, the cache and arrays of objects), \<open>Client\<close> (\<^verbatim>\<open>bm-client.c\<close>),
  \<open>Client_Device\<close> (\<^verbatim>\<open>bm-device*.c\<close>, \<^verbatim>\<open>bm-serial-device.c\<close>, \<^verbatim>\<open>bm-active-connection.c\<close>) and \<open>Remote_Settings\<close> (\<^verbatim>\<open>bm-remote-settings.c\<close>,
  \<^verbatim>\<open>bm-remote-connection.c\<close>, \<^verbatim>\<open>bm-remote-settings-system.c\<close>); \<open>Libbm_Glib\<close> (\<^verbatim>\<open>libbm_glib.c\<close>), an older library that only
  follows the state of the daemon.
  \<^item> The applet, below \<^verbatim>\<open>src/barcode-manager-applet/src\<close>: \<open>GConf_Helpers\<close> and \<open>GConf_Roundtrip\<close> (connections in GConf and
  secrets in the keyring, \<^verbatim>\<open>gconf-helpers/gconf-helpers.c\<close>), \<open>GConf_Settings\<close> (the settings service that exports them,
  \<^verbatim>\<open>gconf-helpers/bma-gconf-settings.c\<close>, \<^verbatim>\<open>gconf-helpers/bma-gconf-connection.c\<close>), \<open>Mobile_Providers\<close> (the database of mobile broadband providers,
  \<^verbatim>\<open>utils/nmn-mobile-providers.c\<close>).
  \<^item> \<open>Barcode_Service\<close>: the service that reads the scanners and the program that prints their codes,
  \<^verbatim>\<open>src/barcode-dbus-service/barcode-dbus-service.c\<close> and \<^verbatim>\<open>src/barcode-reader-glib/barcode-reader-glib.c\<close>.
  \<^item> The command line client \<^verbatim>\<open>bmcli\<close>, below \<^verbatim>\<open>cli/src\<close>: \<open>Cli_Output\<close> (fields and the printing of tables, \<^verbatim>\<open>utils.c\<close>),
  \<open>Cli_Status\<close> (its state \<open>bmcli\<close> and the commands about the daemon and the devices, \<^verbatim>\<open>barcode-manager.c\<close>, \<^verbatim>\<open>devices.c\<close>), \<open>Cli_Connections\<close>
  (the commands about connections, \<^verbatim>\<open>connections.c\<close>, \<^verbatim>\<open>settings.c\<close>) and \<open>Cli\<close> (options, the choice of a command and the events of the main
  loop, \<^verbatim>\<open>bmcli.c\<close>).

  How state and effects are modelled.  A GObject is a record of the private data that some operation reads or writes;
  objects that are shared or freed, authorization chains, PolicyKit calls, inner hash tables, exported connections, live in explicit
  stores under numbers that stand for their addresses.  What a component sends out, signals, replies, bus calls, is
  appended to an output list of its state.  Asynchronous replies are kept as pending calls, so that a theorem speaks about any order
  of their arrival.  An assertion or a \<^verbatim>\<open>NULL\<close> dereference is a value of the result type \<open>checked\<close> or an output, a
  \<^verbatim>\<open>GError\<close> a value of a sum type.

  Interfaces between components are locales, each interpreted on the model's own definitions: hash tables,
  objects with typed properties, the clients of an authorization chain, the registry of calls, sources of devices and providers of
  secrets.

  What the groups of lemmas show.  For the libraries: comparison decides equality of values, the hash tables of settings and connections
  are read back as written, differences and verification errors are the ones the settings call for.  For the manager:
  its tables stay well formed in every reachable world, no request goes without its answer, networking is switched only with a
  permission, signals of a batch come at its end.  For the services: a request is answered exactly once and does nothing
  without authorization, an authorized update takes effect, paths stay unique.  For the daemon: the bus connection
  recovers, the PID file keeps a second daemon away, the steps of a start and stop match.  For the client library: a client's
  devices are the ones the daemon announced, references are counted, dropping them ends, a change in the daemon reaches the
  fields and handlers of a client, and the connections of a service are read whatever the order of the answers.  For the applet: the parser of the provider
  database never follows a \<^verbatim>\<open>NULL\<close> pointer and builds the table its document describes, a connection written to GConf is read
  back, and the exported connections follow GConf.  For the barcode service: it stays up, and what is scanned is printed, under stated conditions on devices
  and reports.  For the command line client: a terse listing ends and is read back as the values asked for, only commands about connections wait, and
  an activation is never sent.  Where the code does not do what
  it means to, the theorem states what it does, and the manifest lists the finding.

  Bounds.  Counters keep their width: the paths of devices and of exported connections are unique for fewer than
  \<open>2 ^ 32\<close> of them, which the theorems that need it assume; a list of calls on the bus has fewer than \<open>2 ^ 32\<close> elements.  No definition
  needs fuel: every loop of the modelled code recurs structurally or ends at a measure.

  Not modelled.  Code that is not in the repository is a parameter: GLib's value transformations, the numbers of its types, the bus, PolicyKit,
  udev, the plugins, GConf and the keyring, the XML tokenizer, \<^verbatim>\<open>bm_device_get_state\<close>, which is declared but defined nowhere.  Reference counts are
  modelled in the client library and where freeing is observable.  Debug output, translations, class registration and generated marshallers have no
  behaviour of their own.
\<close>

end
